(* ===== verification/Prelude.thy ===== *)
theory Prelude
  imports Main "HOL-Library.AList"
begin

text \<open>
  What every component theory shares.

  \<^item> Errors: the backend raises \<open>AppError(status, code, message)\<close>; the model keeps the
    HTTP status and the stable code and drops the human message. \<open>Python_error\<close> is any other
    exception that escapes the operation, by its class. A fallible operation returns
    \<open>app_error + 'a\<close>.
  \<^item> Time: every \<open>datetime\<close> is an instant, counted in whole seconds since the epoch in UTC.
    The code's \<open>_as_utc\<close> re-attaches the zone SQLite drops, so on instants it is the identity.
  \<^item> Tables: the rows of one SQL table, restricted to the tenant the service object is bound
    to, in insertion order. A query is a \<open>filter\<close> or \<open>row_get\<close>, an ORM field assignment is
    \<open>row_mod\<close> and \<open>add\<close> is an append.
  \<^item> Python dicts that are read and written by key are association lists with the order of a
    dict: \<open>AList.update\<close> keeps the place of a key that is there and appends a new one.
  \<^item> Four interface locales: \<open>step_machine\<close> (an invariant kept by every operation holds after
    every run), \<open>fenced\<close> (a token is overtaken by a growing counter), \<open>idempotent_create\<close> (an
    idempotency key names at most one row) and \<open>slot_gate\<close> (a bounded resource is freed exactly once
    per ticket).
\<close>

section \<open>Errors and time\<close>

datatype app_error = App_error int string | Python_error string

type_synonym 'a result = "app_error + 'a"

type_synonym instant = int

text \<open>A guard that raises, and sequencing of fallible steps.\<close>

definition require :: "bool \<Rightarrow> 'e \<Rightarrow> 'e + 'a \<Rightarrow> 'e + 'a" where
  "require b e k = (if b then k else Inl e)"

definition bind_r :: "'e + 'a \<Rightarrow> ('a \<Rightarrow> 'e + 'b) \<Rightarrow> 'e + 'b" where
  "bind_r m f = (case m of Inl e \<Rightarrow> Inl e | Inr x \<Rightarrow> f x)"

lemma require_simps [simp]: "require True e k = k" "require False e k = Inl e"
  by (simp_all add: require_def)

lemma require_Inr [simp]: "require b e k = Inr x \<longleftrightarrow> b \<and> k = Inr x"
  by (simp add: require_def)

lemma bind_r_simps [simp]: "bind_r (Inr x) f = f x" "bind_r (Inl e) f = Inl e"
  by (simp_all add: bind_r_def)

lemma bind_r_Inr: "bind_r m f = Inr y \<longleftrightarrow> (\<exists>x. m = Inr x \<and> f x = Inr y)"
  by (cases m) auto

text \<open>A fallible step over a list, stopping at the first error.\<close>

fun map_r :: "('a \<Rightarrow> 'e + 'b) \<Rightarrow> 'a list \<Rightarrow> 'e + 'b list" where
  "map_r f [] = Inr []"
| "map_r f (x # xs) = bind_r (f x) (\<lambda>y. bind_r (map_r f xs) (\<lambda>ys. Inr (y # ys)))"

lemma map_r_Inr: "map_r f xs = Inr ys \<longleftrightarrow> list_all2 (\<lambda>x y. f x = Inr y) xs ys"
proof (induction xs arbitrary: ys)
  case (Cons x xs)
  then show ?case by (cases ys) (auto simp: bind_r_Inr)
qed auto

lemma map_r_all: "\<forall>x \<in> set xs. f x = Inr (g x) \<Longrightarrow> map_r f xs = Inr (map g xs)"
  by (induction xs) auto

named_theorems row_simps \<open>rewrite rules for reading a table after writing it\<close>

lemma map_r_origin: "map_r f xs = Inr ys \<Longrightarrow> y \<in> set ys \<Longrightarrow> \<exists>x \<in> set xs. f x = Inr y"
  by (induction xs arbitrary: ys) (auto simp: bind_r_Inr)

lemma map_r_fixed:
  "map_r f xs = Inr ys \<Longrightarrow> (\<And>x a. x \<in> set xs \<Longrightarrow> f x = Inr a \<Longrightarrow> a = x) \<Longrightarrow> ys = xs"
proof (induction xs arbitrary: ys)
  case (Cons x xs)
  from Cons.prems(1) obtain a as where "f x = Inr a" "map_r f xs = Inr as" "ys = a # as"
    by (auto simp: bind_r_Inr)
  note split = this
  have "as = xs" by (rule Cons.IH [OF split(2)]) (rule Cons.prems(2), auto)
  moreover have "a = x" by (rule Cons.prems(2) [OF _ split(1)]) simp
  ultimately show ?case using split(3) by simp
qed simp

section \<open>Lists and dicts\<close>

text \<open>\<open>list(dict.fromkeys(xs))\<close>: the distinct elements in the order of first occurrence.\<close>

definition fromkeys :: "'a list \<Rightarrow> 'a list" where
  "fromkeys xs = rev (remdups (rev xs))"

lemma set_fromkeys [simp]: "set (fromkeys xs) = set xs"
  by (simp add: fromkeys_def)

lemma distinct_fromkeys [simp]: "distinct (fromkeys xs)"
  by (simp add: fromkeys_def)

lemma fromkeys_distinct: "distinct xs \<Longrightarrow> fromkeys xs = xs"
  by (simp add: fromkeys_def distinct_remdups_id)

lemma fromkeys_Nil [simp]: "fromkeys [] = []"
  by (simp add: fromkeys_def)

lemma fromkeys_eq_Nil [simp]: "fromkeys xs = [] \<longleftrightarrow> xs = []"
  by (simp add: fromkeys_def)

type_synonym ('k, 'v) dict = "('k \<times> 'v) list"

text \<open>\<open>d.get(k, default)\<close>\<close>

definition dict_get :: "('k, 'v) dict \<Rightarrow> 'k \<Rightarrow> 'v \<Rightarrow> 'v" where
  "dict_get d k v0 = (case map_of d k of None \<Rightarrow> v0 | Some v \<Rightarrow> v)"

lemma dict_get_update [simp]:
  "dict_get (AList.update k v d) k' v0 = (if k' = k then v else dict_get d k' v0)"
  by (simp add: dict_get_def update_conv')

lemma dict_get_delete [simp]:
  "dict_get (AList.delete k d) k' v0 = (if k' = k then v0 else dict_get d k' v0)"
  by (simp add: dict_get_def delete_conv')

lemma dict_get_Nil [simp]: "dict_get [] k v0 = v0"
  by (simp add: dict_get_def)

section \<open>Tables\<close>

text \<open>\<open>db.scalar(select(...).where(key == k))\<close>: the first row with this key.\<close>

definition row_get :: "('r \<Rightarrow> 'k) \<Rightarrow> 'k \<Rightarrow> 'r list \<Rightarrow> 'r option" where
  "row_get key k rs = find (\<lambda>r. key r = k) rs"

text \<open>Assigning fields of the row with this key.\<close>

definition row_mod :: "('r \<Rightarrow> 'k) \<Rightarrow> 'k \<Rightarrow> ('r \<Rightarrow> 'r) \<Rightarrow> 'r list \<Rightarrow> 'r list" where
  "row_mod key k f rs = map (\<lambda>r. if key r = k then f r else r) rs"

text \<open>Deleting the row with this key.\<close>

definition row_del :: "('r \<Rightarrow> 'k) \<Rightarrow> 'k \<Rightarrow> 'r list \<Rightarrow> 'r list" where
  "row_del key k rs = filter (\<lambda>r. key r \<noteq> k) rs"

lemma row_get_Nil [simp]: "row_get key k [] = None"
  by (simp add: row_get_def)

lemma row_get_Cons [simp]:
  "row_get key k (r # rs) = (if key r = k then Some r else row_get key k rs)"
  by (simp add: row_get_def)

lemma row_mod_Nil [simp]: "row_mod key k f [] = []"
  by (simp add: row_mod_def)

lemma row_mod_Cons [simp]:
  "row_mod key k f (r # rs) = (if key r = k then f r else r) # row_mod key k f rs"
  by (simp add: row_mod_def)

lemma length_row_mod [simp]: "length (row_mod key k f rs) = length rs"
  by (simp add: row_mod_def)

lemma row_get_append [row_simps]:
  "row_get key k (rs @ ss) =
     (case row_get key k rs of Some r \<Rightarrow> Some r | None \<Rightarrow> row_get key k ss)"
  by (induction rs) auto

lemma find_snoc: "find P xs = None \<Longrightarrow> find P (xs @ [x]) = (if P x then Some x else None)"
  by (induction xs) (auto split: if_splits)

lemma row_get_None_iff: "row_get key k rs = None \<longleftrightarrow> k \<notin> key ` set rs"
  by (induction rs) auto

lemma row_get_SomeD: "row_get key k rs = Some r \<Longrightarrow> r \<in> set rs \<and> key r = k"
  by (induction rs) (auto split: if_splits)

lemma row_get_key: "row_get key k rs = Some r \<Longrightarrow> key r = k"
  by (drule row_get_SomeD) (rule conjunct2)

lemma row_get_mod_same [row_simps]:
  assumes "\<And>r. key r = k \<Longrightarrow> key (f r) = k"
  shows "row_get key k (row_mod key k f rs) = map_option f (row_get key k rs)"
proof (induction rs)
  case (Cons r rs)
  then show ?case using assms [of r] by simp
qed simp

lemma row_get_mod_other:
  assumes "k \<noteq> k'" and "\<And>r. key r = k' \<Longrightarrow> key (f r) = k'"
  shows "row_get key k (row_mod key k' f rs) = row_get key k rs"
proof (induction rs)
  case (Cons r rs)
  then show ?case using assms(1) assms(2) [of r] by auto
qed simp

lemma set_row_mod:
  "r \<in> set (row_mod key k f rs) \<Longrightarrow> (\<exists>r0 \<in> set rs. r = (if key r0 = k then f r0 else r0))"
  by (auto simp: row_mod_def)

lemma row_mod_keys:
  assumes "\<And>r. key r = k \<Longrightarrow> proj (f r) = proj r"
  shows "map proj (row_mod key k f rs) = map proj rs"
proof (induction rs)
  case (Cons r rs)
  then show ?case using assms [of r] by simp
qed simp

lemma row_mod_absent: "k \<notin> key ` set rs \<Longrightarrow> row_mod key k f rs = rs"
  by (induction rs) auto

lemma row_get_distinct:
  "distinct (map key rs) \<Longrightarrow> r \<in> set rs \<Longrightarrow> row_get key (key r) rs = Some r"
  by (induction rs) (auto simp: image_iff)

lemma row_get_del_same [row_simps]: "row_get key k (row_del key k rs) = None"
  by (induction rs) (auto simp: row_del_def)

lemma row_get_del_other: "k \<noteq> k' \<Longrightarrow> row_get key k (row_del key k' rs) = row_get key k rs"
  by (induction rs) (auto simp: row_del_def)

lemma row_get_snoc_new: "row_get key (key r) rs = None \<Longrightarrow> row_get key (key r) (rs @ [r]) = Some r"
  by (simp add: row_get_append)

section \<open>Shared interfaces\<close>

text \<open>A component whose operations all keep an invariant keeps it over every run.\<close>

locale step_machine =
  fixes step :: "'s \<Rightarrow> 'e \<Rightarrow> 's"
    and inv :: "'s \<Rightarrow> bool"
  assumes step_inv: "inv s \<Longrightarrow> inv (step s e)"
begin

lemma run_inv: "inv s \<Longrightarrow> inv (foldl step s es)"
  by (induction es arbitrary: s) (auto intro: step_inv)

lemma run_inv_everywhere: "inv s \<Longrightarrow> inv (foldl step s (take n es))"
  by (rule run_inv)

end

text \<open>
  A token is fenced by a counter that only grows: what holds the value of an earlier state has been
  overtaken for good as soon as one step has moved the counter on.
\<close>

locale fenced = step_machine step inv
  for step :: "'s \<Rightarrow> 'e \<Rightarrow> 's" and inv :: "'s \<Rightarrow> bool" +
  fixes gen :: "'s \<Rightarrow> nat"
  assumes gen_step: "inv s \<Longrightarrow> gen s \<le> gen (step s e)"
begin

lemma run_gen: "inv s \<Longrightarrow> gen s \<le> gen (foldl step s es)"
proof (induction es arbitrary: s)
  case (Cons e es)
  from order_trans [OF gen_step [OF Cons.prems] Cons.IH [OF step_inv [OF Cons.prems]]] show ?case by simp
qed simp

lemma overtaken:
  assumes "inv s" and "gen (foldl step s xs) < gen (step (foldl step s xs) e)"
  shows "gen s < gen (foldl step s (xs @ e # ys))"
proof -
  have "gen s \<le> gen (foldl step s xs)" by (rule run_gen [OF assms(1)])
  also note assms(2)
  also have "gen (step (foldl step s xs) e) \<le> gen (foldl step (step (foldl step s xs) e) ys)"
    by (rule run_gen [OF step_inv [OF run_inv [OF assms(1)]]])
  finally show ?thesis by simp
qed

end

text \<open>
  Creation under an idempotency key. A hit returns the row that is there (perhaps with a few
  fields filled in, never another row) and adds nothing; a miss adds exactly one row and leaves
  it findable under the key. \<open>ok\<close> is what the state owes (its invariant), \<open>fits\<close> says that the
  arguments of a call carry this key.
\<close>

locale idempotent_create =
  fixes ok :: "'k \<Rightarrow> 's \<Rightarrow> bool"
    and fits :: "'k \<Rightarrow> 'a \<Rightarrow> bool"
    and lookup :: "'k \<Rightarrow> 's \<Rightarrow> 'r option"
    and create :: "'k \<Rightarrow> 'a \<Rightarrow> 's \<Rightarrow> 's \<times> 'r \<times> bool"
    and rid :: "'r \<Rightarrow> 'i"
    and rows :: "'s \<Rightarrow> nat"
  assumes ok_create: "fits k a \<Longrightarrow> ok k s \<Longrightarrow> ok k (fst (create k a s))"
    and hit: "fits k a \<Longrightarrow> ok k s \<Longrightarrow> lookup k s = Some r \<Longrightarrow>
      \<exists>s' r'. create k a s = (s', r', False) \<and> rid r' = rid r \<and> lookup k s' = Some r' \<and>
        rows s' = rows s"
    and miss: "fits k a \<Longrightarrow> ok k s \<Longrightarrow> lookup k s = None \<Longrightarrow>
      \<exists>s' r'. create k a s = (s', r', True) \<and> lookup k s' = Some r' \<and> rows s' = Suc (rows s)"
begin

lemma created_findable:
  "fits k a \<Longrightarrow> ok k s \<Longrightarrow> create k a s = (s', r', c) \<Longrightarrow> lookup k s' = Some r'"
  by (cases "lookup k s") (auto dest: miss [of k a s] hit [of k a s])

text \<open>Any number of replays answers with the same row and adds none.\<close>

lemma replays:
  assumes "ok k s" and "lookup k s = Some r" and "\<forall>b \<in> set bs. fits k b"
  shows "\<exists>r2. lookup k (foldl (\<lambda>s b. fst (create k b s)) s bs) = Some r2 \<and> rid r2 = rid r \<and>
    rows (foldl (\<lambda>s b. fst (create k b s)) s bs) = rows s"
  using assms
proof (induction bs arbitrary: s r)
  case (Cons b bs)
  then have b: "fits k b" by simp
  from hit [OF b Cons.prems(1,2)] obtain s' r' where
    step: "create k b s = (s', r', False)" "rid r' = rid r" "lookup k s' = Some r'" "rows s' = rows s"
    by blast
  from ok_create [OF b Cons.prems(1)] step(1) have "ok k s'" by simp
  from Cons.IH [OF this step(3)] Cons.prems(3) step show ?case by auto
qed simp

lemma replay_after_create:
  assumes "fits k a" and "ok k s" and "create k a s = (s1, r1, c)" and "\<forall>b \<in> set bs. fits k b"
  shows "\<exists>r2. lookup k (foldl (\<lambda>s b. fst (create k b s)) s1 bs) = Some r2 \<and> rid r2 = rid r1 \<and>
    rows (foldl (\<lambda>s b. fst (create k b s)) s1 bs) = rows s1"
proof (rule replays [OF _ _ assms(4)])
  show "ok k s1" using ok_create [OF assms(1,2)] assms(3) by simp
  show "lookup k s1 = Some r1" by (rule created_findable [OF assms(1-3)])
qed

end

text \<open>
  A bounded resource handed out as tickets: a live ticket is freed once, however often and in
  whatever order its owners call \<open>free\<close>, and freeing one ticket never touches another.
\<close>

locale slot_gate =
  fixes invar :: "'g \<Rightarrow> bool"
    and live :: "'g \<Rightarrow> nat \<Rightarrow> bool"
    and used :: "'g \<Rightarrow> int"
    and free :: "nat \<Rightarrow> 'g \<Rightarrow> 'g"
  assumes invar_free: "invar g \<Longrightarrow> invar (free t g)"
    and free_live: "invar g \<Longrightarrow> live g t \<Longrightarrow> used (free t g) = used g - 1 \<and> \<not> live (free t g) t"
    and free_dead: "invar g \<Longrightarrow> \<not> live g t \<Longrightarrow> used (free t g) = used g \<and> \<not> live (free t g) t"
    and free_other: "invar g \<Longrightarrow> t \<noteq> u \<Longrightarrow> live (free t g) u = live g u"
begin

lemma free_all:
  "invar g \<Longrightarrow> live g t \<Longrightarrow> used (foldl (\<lambda>g t. free t g) g (replicate (Suc n) t)) = used g - 1"
proof (induction n arbitrary: g)
  case 0
  then show ?case by (simp add: free_live)
next
  case (Suc n)
  have dead: "used (foldl (\<lambda>g t. free t g) h (replicate m t)) = used h"
    if "invar h" "\<not> live h t" for h m
    using that by (induction m arbitrary: h) (auto simp: free_dead invar_free)
  from Suc.prems have "used (free t g) = used g - 1" "\<not> live (free t g) t" "invar (free t g)"
    by (auto simp: free_live invar_free)
  with dead [of "free t g" "Suc n"] show ?case by simp
qed

end

end
