(* ===== verification/Admission.thy ===== *)
theory Admission
  imports Prelude
begin

text \<open>
  Admission control of agent streams: \<open>backend/app/core/admission.py\<close> and the life of one
  admitted stream in \<open>backend/app/api/routers/chat.py\<close> (\<open>_admit_agent_generation\<close> and
  \<open>_detached_sse_transport\<close>).

  The gate's counters and its lock-protected operations are one state \<open>gate\<close>. A ticket object
  is shared by the request, the transport generator, the worker thread and a finalizer, so the
  gate also holds the heap of tickets and an operation names a ticket by its index.
  \<open>acquired_at\<close> is a timestamp for metrics only and is not kept.
\<close>

section \<open>The gate\<close>

record ticket =
  consumes_slot :: bool
  tk_released :: bool
  tk_claimed :: bool

record gate =
  gate_enabled :: bool
  gate_limit :: "int option"
  conns_per_stream :: int
  in_flight :: int
  acquired :: int
  rejected :: int
  released :: int
  peak :: int
  tickets :: "ticket list"

text \<open>\<open>AgentStreamAdmissionGate.__init__\<close>\<close>

definition new_gate :: "int option \<Rightarrow> int \<Rightarrow> bool \<Rightarrow> gate" where
  "new_gate lim conns en =
     \<lparr>gate_enabled = en, gate_limit = map_option (max 1) lim, conns_per_stream = max 1 conns,
      in_flight = 0, acquired = 0, rejected = 0, released = 0, peak = 0, tickets = []\<rparr>"

text \<open>\<open>AdmissionTicket.__init__\<close>\<close>

definition new_ticket :: "bool \<Rightarrow> ticket" where
  "new_ticket c = \<lparr>consumes_slot = c, tk_released = False, tk_claimed = False\<rparr>"

text \<open>\<open>try_acquire\<close>: a ticket, or \<open>None\<close> when the gate is full.\<close>

definition try_acquire :: "gate \<Rightarrow> gate \<times> nat option" where
  "try_acquire g =
     (if \<not> gate_enabled g \<or> gate_limit g = None
      then (g\<lparr>tickets := tickets g @ [new_ticket False]\<rparr>, Some (length (tickets g)))
      else if in_flight g \<ge> the (gate_limit g)
      then (g\<lparr>rejected := rejected g + 1\<rparr>, None)
      else let n = in_flight g + 1 in
        (g\<lparr>in_flight := n, acquired := acquired g + 1,
           peak := (if n > peak g then n else peak g),
           tickets := tickets g @ [new_ticket True]\<rparr>, Some (length (tickets g))))"

text \<open>\<open>AgentStreamAdmissionGate._release\<close>: the check and the set happen under the gate lock.\<close>

definition gate_release :: "nat \<Rightarrow> gate \<Rightarrow> gate" where
  "gate_release t g =
     (if tk_released (tickets g ! t) then g
      else g\<lparr>tickets := (tickets g)[t := (tickets g ! t)\<lparr>tk_released := True\<rparr>],
             in_flight := max 0 (in_flight g - 1),
             released := released g + 1\<rparr>)"

text \<open>\<open>AdmissionTicket.release\<close>. No ticket exists outside the heap.\<close>

definition ticket_release :: "nat \<Rightarrow> gate \<Rightarrow> gate" where
  "ticket_release t g =
     (if t < length (tickets g) then
        if \<not> consumes_slot (tickets g ! t)
        then g\<lparr>tickets := (tickets g)[t := (tickets g ! t)\<lparr>tk_released := True\<rparr>]\<rparr>
        else gate_release t g
      else g)"

definition ticket_claim :: "nat \<Rightarrow> gate \<Rightarrow> gate" where
  "ticket_claim t g =
     (if t < length (tickets g)
      then g\<lparr>tickets := (tickets g)[t := (tickets g ! t)\<lparr>tk_claimed := True\<rparr>]\<rparr> else g)"

definition release_if_unclaimed :: "nat \<Rightarrow> gate \<Rightarrow> gate" where
  "release_if_unclaimed t g =
     (if t < length (tickets g) \<and> tk_claimed (tickets g ! t) then g else ticket_release t g)"

definition reset_metrics :: "gate \<Rightarrow> gate" where
  "reset_metrics g = g\<lparr>acquired := 0, released := 0, rejected := 0, peak := in_flight g\<rparr>"

text \<open>\<open>snapshot\<close>: the metrics dict, with \<open>available\<close> computed.\<close>

record gate_snapshot =
  snap_enabled :: bool
  snap_limit :: "int option"
  snap_in_flight :: int
  snap_available :: "int option"
  snap_peak :: int
  snap_acquired :: int
  snap_released :: int
  snap_rejected :: int
  snap_conns :: int

definition snapshot :: "gate \<Rightarrow> gate_snapshot" where
  "snapshot g =
     \<lparr>snap_enabled = gate_enabled g, snap_limit = gate_limit g, snap_in_flight = in_flight g,
      snap_available = map_option (\<lambda>l. max 0 (l - in_flight g)) (gate_limit g),
      snap_peak = peak g, snap_acquired = acquired g, snap_released = released g,
      snap_rejected = rejected g, snap_conns = conns_per_stream g\<rparr>"

section \<open>Sizing the gate from the connection pool\<close>

record stream_settings =
  admission_enabled :: bool
  max_concurrent :: int
  pool_size :: int
  pool_max_overflow :: int
  pool_reserve :: int
  connections_per_stream :: int

definition resolve_agent_stream_limit :: "stream_settings \<Rightarrow> int" where
  "resolve_agent_stream_limit c =
     (if max_concurrent c > 0 then max_concurrent c
      else let capacity = pool_size c + pool_max_overflow c;
               reserve = max 0 (pool_reserve c);
               usable = max 1 (capacity - reserve);
               per_stream = max 1 (connections_per_stream c)
           in max 1 (usable div per_stream))"

definition build_agent_stream_gate :: "stream_settings \<Rightarrow> gate" where
  "build_agent_stream_gate c =
     new_gate (if admission_enabled c then Some (resolve_agent_stream_limit c) else None)
       (connections_per_stream c) (admission_enabled c)"

section \<open>Operations in any order\<close>

datatype gate_op =
  Acquire | Claim nat | Release nat | Release_if_unclaimed nat | Reset_metrics

fun gate_step :: "gate \<Rightarrow> gate_op \<Rightarrow> gate" where
  "gate_step g Acquire = fst (try_acquire g)"
| "gate_step g (Claim t) = ticket_claim t g"
| "gate_step g (Release t) = ticket_release t g"
| "gate_step g (Release_if_unclaimed t) = release_if_unclaimed t g"
| "gate_step g Reset_metrics = reset_metrics g"

fun op_ticket :: "gate_op \<Rightarrow> nat option" where
  "op_ticket (Claim t) = Some t"
| "op_ticket (Release t) = Some t"
| "op_ticket (Release_if_unclaimed t) = Some t"
| "op_ticket _ = None"

text \<open>A ticket that holds a slot.\<close>

definition holds_slot :: "ticket \<Rightarrow> bool" where
  "holds_slot k \<longleftrightarrow> consumes_slot k \<and> \<not> tk_released k"

definition live_ticket :: "gate \<Rightarrow> nat \<Rightarrow> bool" where
  "live_ticket g t \<longleftrightarrow> t < length (tickets g) \<and> holds_slot (tickets g ! t)"

definition live_count :: "gate \<Rightarrow> int" where
  "live_count g = int (length (filter holds_slot (tickets g)))"

text \<open>
  What the gate keeps true: the counter is the number of tickets that hold a slot, it stays
  within the limit, an unlimited or disabled gate counts nothing, and the peak is a peak.
\<close>

definition gate_inv :: "gate \<Rightarrow> bool" where
  "gate_inv g \<longleftrightarrow>
     in_flight g = live_count g \<and> in_flight g \<le> peak g \<and>
     (case gate_limit g of None \<Rightarrow> in_flight g = 0 | Some l \<Rightarrow> 1 \<le> l \<and> in_flight g \<le> l) \<and>
     (\<not> gate_enabled g \<longrightarrow> in_flight g = 0)"

lemma holds_slot_new [simp]: "holds_slot (new_ticket c) = c"
  by (simp add: holds_slot_def new_ticket_def)

lemma filter_update_drop:
  "t < length xs \<Longrightarrow> P (xs ! t) \<Longrightarrow> \<not> P y \<Longrightarrow>
     Suc (length (filter P (xs[t := y]))) = length (filter P xs)"
proof (induction xs arbitrary: t)
  case (Cons x xs)
  then show ?case by (cases t) auto
qed simp

lemma filter_update_same:
  "t < length xs \<Longrightarrow> P y = P (xs ! t) \<Longrightarrow> length (filter P (xs[t := y])) = length (filter P xs)"
proof (induction xs arbitrary: t)
  case (Cons x xs)
  then show ?case by (cases t) auto
qed simp

lemma live_count_nonneg [simp]: "0 \<le> live_count g"
  by (simp add: live_count_def)

text \<open>The effect of a release on the count, whichever branch the code takes.\<close>

lemma ticket_release_live:
  assumes "gate_inv g" and "live_ticket g t"
  shows "in_flight (ticket_release t g) = in_flight g - 1"
    and "live_count (ticket_release t g) = live_count g - 1"
    and "released (ticket_release t g) = released g + 1"
proof -
  let ?k = "(tickets g ! t)\<lparr>tk_released := True\<rparr>"
  from assms(2) have t: "t < length (tickets g)" and k: "holds_slot (tickets g ! t)"
    by (auto simp: live_ticket_def)
  then have drop: "Suc (length (filter holds_slot ((tickets g)[t := ?k]))) =
      length (filter holds_slot (tickets g))"
    by (intro filter_update_drop) (auto simp: holds_slot_def)
  from t k have rel: "ticket_release t g = g\<lparr>tickets := (tickets g)[t := ?k],
      in_flight := max 0 (in_flight g - 1), released := released g + 1\<rparr>"
    by (simp add: ticket_release_def gate_release_def holds_slot_def)
  from drop assms(1) have "1 \<le> in_flight g"
    by (auto simp: gate_inv_def live_count_def)
  with rel show "in_flight (ticket_release t g) = in_flight g - 1" by simp
  from rel drop show "live_count (ticket_release t g) = live_count g - 1"
    by (simp add: live_count_def)
  from rel show "released (ticket_release t g) = released g + 1" by simp
qed

lemma ticket_release_dead:
  assumes "\<not> live_ticket g t"
  shows "in_flight (ticket_release t g) = in_flight g"
    and "live_count (ticket_release t g) = live_count g"
    and "released (ticket_release t g) = released g"
proof -
  have "length (filter holds_slot ((tickets g)[t := (tickets g ! t)\<lparr>tk_released := True\<rparr>])) =
      length (filter holds_slot (tickets g))" if "t < length (tickets g)"
    using that assms by (intro filter_update_same) (auto simp: live_ticket_def holds_slot_def)
  with assms show "live_count (ticket_release t g) = live_count g"
    by (auto simp: ticket_release_def gate_release_def live_count_def live_ticket_def holds_slot_def)
  show "in_flight (ticket_release t g) = in_flight g"
    using assms by (auto simp: ticket_release_def gate_release_def live_ticket_def holds_slot_def)
  show "released (ticket_release t g) = released g"
    using assms by (auto simp: ticket_release_def gate_release_def live_ticket_def holds_slot_def)
qed

lemma ticket_release_frame [simp]:
  "gate_enabled (ticket_release t g) = gate_enabled g"
  "gate_limit (ticket_release t g) = gate_limit g"
  "peak (ticket_release t g) = peak g"
  "acquired (ticket_release t g) = acquired g"
  "length (tickets (ticket_release t g)) = length (tickets g)"
  by (auto simp: ticket_release_def gate_release_def)

lemma ticket_release_inv: "gate_inv g \<Longrightarrow> gate_inv (ticket_release t g)"
proof (cases "live_ticket g t")
  case True
  assume "gate_inv g"
  note rel = ticket_release_live [OF this True]
  from rel(2) live_count_nonneg [of "ticket_release t g"] have "1 \<le> live_count g" by simp
  with rel \<open>gate_inv g\<close> show ?thesis by (auto simp: gate_inv_def split: option.splits)
next
  case False
  assume "gate_inv g"
  with ticket_release_dead [OF False] show ?thesis by (auto simp: gate_inv_def split: option.splits)
qed

lemma ticket_claim_live:
  "live_count (ticket_claim t g) = live_count g" "in_flight (ticket_claim t g) = in_flight g"
  "live_ticket (ticket_claim t g) u = live_ticket g u"
proof -
  have "length (filter holds_slot ((tickets g)[t := (tickets g ! t)\<lparr>tk_claimed := True\<rparr>])) =
      length (filter holds_slot (tickets g))" if "t < length (tickets g)"
    using that by (intro filter_update_same) (auto simp: holds_slot_def)
  then show "live_count (ticket_claim t g) = live_count g"
    by (auto simp: ticket_claim_def live_count_def)
qed (auto simp: ticket_claim_def live_ticket_def nth_list_update holds_slot_def)

lemma ticket_claim_inv: "gate_inv g \<Longrightarrow> gate_inv (ticket_claim t g)"
  using ticket_claim_live [of t g]
  by (auto simp: gate_inv_def ticket_claim_def split: option.splits if_splits)

lemma try_acquire_inv: "gate_inv g \<Longrightarrow> gate_inv (fst (try_acquire g))"
  by (auto simp: gate_inv_def try_acquire_def live_count_def Let_def split: option.splits)

lemma reset_metrics_inv: "gate_inv g \<Longrightarrow> gate_inv (reset_metrics g)"
  by (auto simp: gate_inv_def reset_metrics_def live_count_def split: option.splits)

lemma gate_step_inv: "gate_inv g \<Longrightarrow> gate_inv (gate_step g e)"
  by (cases e) (auto simp: try_acquire_inv ticket_claim_inv ticket_release_inv
      release_if_unclaimed_def reset_metrics_inv)

lemma new_gate_inv: "gate_inv (new_gate lim conns en)"
  by (auto simp: gate_inv_def new_gate_def live_count_def split: option.splits)

interpretation gate_machine: step_machine gate_step gate_inv
  by unfold_locales (rule gate_step_inv)

lemma gate_run_inv: "gate_inv (foldl gate_step (new_gate lim conns en) es)"
  by (rule gate_machine.run_inv) (rule new_gate_inv)

lemma gate_step_limit: "gate_limit (gate_step g e) = gate_limit g"
  by (cases e) (auto simp: try_acquire_def ticket_claim_def release_if_unclaimed_def
      reset_metrics_def Let_def)

lemma gate_run_limit: "gate_limit (foldl gate_step g es) = gate_limit g"
  by (induction es arbitrary: g) (auto simp: gate_step_limit)

text \<open>The gate is a \<open>slot_gate\<close>: a ticket's slot is freed once.\<close>

lemma live_after_release:
  "live_ticket (ticket_release t g) u \<longleftrightarrow> u \<noteq> t \<and> live_ticket g u"
  by (auto simp: ticket_release_def gate_release_def live_ticket_def holds_slot_def nth_list_update)

interpretation slots: slot_gate gate_inv live_ticket in_flight ticket_release
  by unfold_locales
    (simp_all add: ticket_release_inv ticket_release_live ticket_release_dead live_after_release)


section \<open>Properties of the gate\<close>

text \<open>
  C34. However requests, transports, workers and metric resets interleave their calls, a gate built
  with a limit never has more slot-holding tickets than that limit, and its counter is exactly the
  number of such tickets.
\<close>

theorem gate_never_over_admits:
  fixes lim conns :: int and en :: bool and es :: "gate_op list"
  defines "g \<equiv> foldl gate_step (new_gate (Some lim) conns en) es"
  shows "in_flight g = live_count g \<and> in_flight g \<le> max 1 lim"
proof -
  have "gate_inv g" unfolding g_def by (rule gate_run_inv)
  moreover have "gate_limit g = Some (max 1 lim)"
    unfolding g_def by (simp add: gate_run_limit) (simp add: new_gate_def)
  ultimately show ?thesis by (auto simp: gate_inv_def)
qed

text \<open>
  Releasing is idempotent: from any state of the gate's life, any positive number of releases
  of a ticket that holds a slot frees one slot, and the clamp at zero is never what limits it.
\<close>

lemma release_frees_one_slot:
  assumes "gate_inv g" and "live_ticket g t"
  shows "in_flight (foldl (\<lambda>g t. ticket_release t g) g (replicate (Suc n) t)) = in_flight g - 1"
  using assms by (rule slots.free_all)

text \<open>Without a metrics reset the counters balance: acquired is released plus in flight.\<close>

lemma counters_balance_step:
  assumes "gate_inv g" and "acquired g = released g + in_flight g" and "e \<noteq> Reset_metrics"
  shows "acquired (gate_step g e) = released (gate_step g e) + in_flight (gate_step g e)"
proof -
  have rel: "acquired (ticket_release t g) = released (ticket_release t g) + in_flight (ticket_release t g)" for t
    using assms ticket_release_live [of g t] ticket_release_dead [of g t] by fastforce
  show ?thesis
    using assms rel
    by (cases e) (auto simp: try_acquire_def ticket_claim_def release_if_unclaimed_def Let_def)
qed

text \<open>
  The metrics are honest: in a run without a metrics reset, acquired equals released plus in
  flight, so every slot that was ever taken is either still held or was given back.
\<close>

lemma gate_counters_balance:
  assumes "Reset_metrics \<notin> set es"
  shows "acquired (foldl gate_step (new_gate lim conns en) es) =
    released (foldl gate_step (new_gate lim conns en) es) +
    in_flight (foldl gate_step (new_gate lim conns en) es)"
  using assms
proof (induction es rule: rev_induct)
  case Nil
  then show ?case by (simp add: new_gate_def)
next
  case (snoc e es)
  then show ?case by (auto intro!: counters_balance_step [OF gate_run_inv])
qed

text \<open>
  The derived limit is honest against the pool: when no explicit limit is configured and the
  pool has room for one stream beyond the reserve, a gate at its limit leaves the reserve free.
\<close>

lemma derived_limit_respects_pool:
  assumes "max_concurrent c \<le> 0"
    and "max 1 (connections_per_stream c) \<le> pool_size c + pool_max_overflow c - max 0 (pool_reserve c)"
  shows "1 \<le> resolve_agent_stream_limit c \<and>
    resolve_agent_stream_limit c * max 1 (connections_per_stream c) + max 0 (pool_reserve c)
      \<le> pool_size c + pool_max_overflow c"
proof -
  define p where "p = max 1 (connections_per_stream c)"
  define u where "u = pool_size c + pool_max_overflow c - max 0 (pool_reserve c)"
  from assms(2) have pu: "1 \<le> p" "p \<le> u" by (simp_all add: p_def u_def)
  then have "p div p \<le> u div p" by (intro zdiv_mono1) auto
  with pu have "1 \<le> u div p" by simp
  moreover from pu have "0 \<le> u mod p" by simp
  with div_mult_mod_eq [of u p] have "u div p * p \<le> u" by linarith
  moreover have "resolve_agent_stream_limit c = max 1 (u div p)"
    using assms(1) pu by (simp add: resolve_agent_stream_limit_def Let_def p_def u_def)
  ultimately have "1 \<le> resolve_agent_stream_limit c \<and> resolve_agent_stream_limit c * p \<le> u"
    by simp
  then show ?thesis by (simp add: p_def u_def)
qed

end
