(* ===== verification/Stream_Lifecycle.thy ===== *)
theory Stream_Lifecycle
  imports Admission
begin

text \<open>
  The life of one admitted stream: the request dependency \<open>_admit_agent_generation\<close>, the
  transport generator and the worker thread of \<open>_detached_sse_transport\<close>, all in
  \<open>backend/app/api/routers/chat.py\<close>. The pieces run concurrently, so the life is a step
  relation; other streams use the same gate in between (rule \<open>other\<close>).
\<close>

section \<open>The step relation\<close>

text \<open>
  The generator \<open>events()\<close>: not built, built but never iterated, past \<open>worker.start()\<close>, closed
  (its \<open>finally\<close> has run) and garbage-collected, when the finalizer runs.
\<close>

datatype gen_state = No_gen | Built | Iterating | Closed | Collected

datatype worker_state = Not_started | Running | Finished

record stream_life =
  life_gate :: gate
  life_ticket :: nat
  request_open :: bool
  gen_of :: gen_state
  worker_of :: worker_state

text \<open>The request has been admitted; \<open>None\<close> is the HTTP 429 of a full gate.\<close>

definition admit :: "gate \<Rightarrow> stream_life result" where
  "admit g = (case try_acquire g of
      (_, None) \<Rightarrow> Inl (App_error 429 ''agent_stream_capacity_exceeded'')
    | (g', Some t) \<Rightarrow> Inr \<lparr>life_gate = g', life_ticket = t, request_open = True,
        gen_of = No_gen, worker_of = Not_started\<rparr>)"

text \<open>The subscriber disconnects: the generator is closed. The finalizer of the collected generator.\<close>

definition client_gone :: "stream_life \<Rightarrow> stream_life" where
  "client_gone s = s\<lparr>gen_of := Closed\<rparr>"

definition finalizer_runs :: "stream_life \<Rightarrow> stream_life" where
  "finalizer_runs s = s\<lparr>gen_of := Collected, life_gate := ticket_release (life_ticket s) (life_gate s)\<rparr>"

text \<open>
  One rule per piece of code that runs:
  \<^item> \<open>handoff\<close>: the handler builds the transport, which claims the ticket and registers the
    finalizer \<open>weakref.finalize(stream, lease.release)\<close>;
  \<^item> \<open>request_end\<close>: the dependency's \<open>finally\<close> calls \<open>release_if_unclaimed\<close>;
  \<^item> \<open>iterate\<close>: the body is iterated and \<open>worker.start()\<close> succeeds; \<open>start_fails\<close>: it raises, and
    the generator's \<open>finally\<close> releases because \<open>worker_started\<close> is still false;
  \<^item> \<open>worker_end\<close>: the worker's \<open>finally\<close> releases;
  \<^item> \<open>close_gen\<close>: the subscriber is gone, the generator's \<open>finally\<close> leaves the slot to the worker;
  \<^item> \<open>collect\<close>: the generator object is collected and its finalizer releases;
  \<^item> \<open>other\<close>: any gate operation of another stream.
\<close>

inductive life_step :: "stream_life \<Rightarrow> stream_life \<Rightarrow> bool" where
  handoff: "request_open s \<Longrightarrow> gen_of s = No_gen \<Longrightarrow>
    life_step s (s\<lparr>gen_of := Built, life_gate := ticket_claim (life_ticket s) (life_gate s)\<rparr>)"
| request_end: "request_open s \<Longrightarrow>
    life_step s (s\<lparr>request_open := False,
      life_gate := release_if_unclaimed (life_ticket s) (life_gate s)\<rparr>)"
| iterate: "gen_of s = Built \<Longrightarrow>
    life_step s (s\<lparr>gen_of := Iterating, worker_of := Running\<rparr>)"
| start_fails: "gen_of s = Built \<Longrightarrow>
    life_step s (s\<lparr>gen_of := Closed, life_gate := ticket_release (life_ticket s) (life_gate s)\<rparr>)"
| worker_end: "worker_of s = Running \<Longrightarrow>
    life_step s (s\<lparr>worker_of := Finished,
      life_gate := ticket_release (life_ticket s) (life_gate s)\<rparr>)"
| close_gen: "gen_of s = Iterating \<Longrightarrow> life_step s (client_gone s)"
| collect: "gen_of s = Built \<or> gen_of s = Closed \<Longrightarrow> life_step s (finalizer_runs s)"
| other: "op_ticket e \<noteq> Some (life_ticket s) \<Longrightarrow>
    life_step s (s\<lparr>life_gate := gate_step (life_gate s) e\<rparr>)"

inductive_cases life_stepE: "life_step s s'"

inductive life_reach :: "gate \<Rightarrow> stream_life \<Rightarrow> bool" for g :: gate where
  start: "admit g = Inr s \<Longrightarrow> life_reach g s"
| step: "life_reach g s \<Longrightarrow> life_step s s' \<Longrightarrow> life_reach g s'"

section \<open>The invariant\<close>

definition tick :: "stream_life \<Rightarrow> ticket" where
  "tick s = tickets (life_gate s) ! life_ticket s"

text \<open>Nothing the stream's own code still runs holds the slot any more.\<close>

definition settled :: "stream_life \<Rightarrow> bool" where
  "settled s \<longleftrightarrow> \<not> request_open s \<and> gen_of s \<in> {No_gen, Collected} \<and> worker_of s \<noteq> Running"

definition life_inv :: "stream_life \<Rightarrow> bool" where
  "life_inv s \<longleftrightarrow>
     gate_inv (life_gate s) \<and> life_ticket s < length (tickets (life_gate s)) \<and>
     (tk_claimed (tick s) \<longleftrightarrow> gen_of s \<noteq> No_gen) \<and>
     (tk_released (tick s) \<longleftrightarrow>
        (\<not> request_open s \<and> gen_of s = No_gen) \<or> gen_of s = Collected \<or>
        (gen_of s = Closed \<and> worker_of s = Not_started) \<or> worker_of s = Finished) \<and>
     (gen_of s \<in> {No_gen, Built} \<longrightarrow> worker_of s = Not_started) \<and>
     (gen_of s = Iterating \<longrightarrow> worker_of s \<noteq> Not_started)"

lemma release_ticket_at:
  "t < length (tickets g) \<Longrightarrow>
     tickets (ticket_release t g) ! u =
       (if u = t then (tickets g ! t)\<lparr>tk_released := True\<rparr> else tickets g ! u)"
  by (auto simp: ticket_release_def gate_release_def nth_list_update)

lemma claim_ticket_at:
  "t < length (tickets g) \<Longrightarrow>
     tickets (ticket_claim t g) ! u =
       (if u = t then (tickets g ! t)\<lparr>tk_claimed := True\<rparr> else tickets g ! u)"
  by (auto simp: ticket_claim_def nth_list_update)

lemma length_claim [simp]: "length (tickets (ticket_claim t g)) = length (tickets g)"
  by (simp add: ticket_claim_def)

lemma other_ticket_kept:
  assumes "op_ticket e \<noteq> Some t" and "t < length (tickets g)"
  shows "tickets (gate_step g e) ! t = tickets g ! t \<and> t < length (tickets (gate_step g e))"
proof -
  have rel: "tickets (ticket_release u g) ! t = tickets g ! t" if "u \<noteq> t" for u
    using that by (auto simp: ticket_release_def gate_release_def)
  show ?thesis
    using assms rel
    by (cases e) (auto simp: try_acquire_def ticket_claim_def release_if_unclaimed_def
        reset_metrics_def Let_def nth_append)
qed

lemma admit_inv: "gate_inv g \<Longrightarrow> admit g = Inr s \<Longrightarrow> life_inv s"
  using try_acquire_inv [of g]
  by (auto simp: admit_def life_inv_def tick_def try_acquire_def Let_def new_ticket_def
      split: if_splits prod.splits option.splits)

lemma life_step_inv: "life_step s s' \<Longrightarrow> life_inv s \<Longrightarrow> life_inv s'"
proof (induction rule: life_step.induct)
  case (handoff s)
  then show ?case by (auto simp: life_inv_def tick_def ticket_claim_inv claim_ticket_at)
next
  case (request_end s)
  then show ?case
    by (auto simp: life_inv_def tick_def release_if_unclaimed_def ticket_release_inv
        release_ticket_at split: if_splits)
next
  case (iterate s)
  then show ?case by (auto simp: life_inv_def tick_def)
next
  case (start_fails s)
  then show ?case by (auto simp: life_inv_def tick_def ticket_release_inv release_ticket_at)
next
  case (worker_end s)
  then show ?case by (auto simp: life_inv_def tick_def ticket_release_inv release_ticket_at)
next
  case (close_gen s)
  then show ?case by (auto simp: client_gone_def life_inv_def tick_def)
next
  case (collect s)
  then show ?case by (auto simp: finalizer_runs_def life_inv_def tick_def ticket_release_inv release_ticket_at)
next
  case (other e s)
  with other_ticket_kept [of e "life_ticket s" "life_gate s"]
  show ?case by (auto simp: life_inv_def tick_def gate_step_inv)
qed

lemma life_reach_inv: "life_reach g s \<Longrightarrow> gate_inv g \<Longrightarrow> life_inv s"
  by (induction rule: life_reach.induct) (auto intro: admit_inv life_step_inv)

section \<open>Properties\<close>

text \<open>
  No slot leaks: whatever way a stream ends (rejected after admission, never iterated, worker
  not startable, client gone, provider failed, normal end), once its request, its generator and
  its worker are through, its ticket is released and holds no slot.
\<close>

lemma settled_stream_leaks_no_slot:
  assumes "gate_inv g" and "life_reach g s" and "settled s"
  shows "tk_released (tick s) \<and> \<not> live_ticket (life_gate s) (life_ticket s)"
  using life_reach_inv [OF assms(2,1)] assms(3)
  by (auto simp: life_inv_def settled_def live_ticket_def holds_slot_def tick_def)

text \<open>A concrete life, up to the point where the worker generates and the client reads.\<close>

definition life_gate0 :: gate where
  "life_gate0 = new_gate (Some 1) 2 True"

definition life0 :: stream_life where
  "life0 = \<lparr>life_gate = fst (try_acquire life_gate0), life_ticket = 0, request_open = True,
     gen_of = No_gen, worker_of = Not_started\<rparr>"

definition life1 :: stream_life where
  "life1 = life0\<lparr>gen_of := Built, life_gate := ticket_claim 0 (life_gate life0)\<rparr>"

definition life2 :: stream_life where
  "life2 = life1\<lparr>request_open := False, life_gate := release_if_unclaimed 0 (life_gate life1)\<rparr>"

definition life3 :: stream_life where
  "life3 = life2\<lparr>gen_of := Iterating, worker_of := Running\<rparr>"

lemmas life_defs = life0_def life1_def life2_def life3_def

lemma life_ticket_0 [simp]:
  "life_ticket life0 = 0" "life_ticket life1 = 0" "life_ticket life2 = 0" "life_ticket life3 = 0"
  by (simp_all add: life_defs)

lemma life_reach_3: "life_reach life_gate0 life3"
proof -
  have "life_reach life_gate0 life0"
    by (rule life_reach.start) (simp add: admit_def life0_def life_gate0_def try_acquire_def new_gate_def)
  moreover have "life_step life0 life1"
    using life_step.handoff [of life0] by (simp add: life1_def) (simp add: life0_def)
  moreover have "life_step life1 life2"
    using life_step.request_end [of life1] by (simp add: life2_def) (simp add: life_defs)
  moreover have "life_step life2 life3"
    using life_step.iterate [of life2] by (simp add: life3_def) (simp add: life_defs)
  ultimately show ?thesis by (meson life_reach.step)
qed

lemma life_gate0_inv: "gate_inv life_gate0"
  by (simp add: life_gate0_def new_gate_inv)

text \<open>
  While the transport object is still referenced, a running generation keeps its slot: nobody
  but its own worker can have released it.
\<close>

lemma running_generation_keeps_slot:
  assumes "gate_inv g" and "life_reach g s" and "worker_of s = Running" and "gen_of s \<noteq> Collected"
  shows "\<not> tk_released (tick s)"
  using life_reach_inv [OF assms(2,1)] assms(3,4) by (auto simp: life_inv_def)

text \<open>
  C38. The finalizer does not look at the worker. From every reachable state in which a generation runs, holds
  a slot and has a subscriber: when the client disconnects and the generator is collected, the slot is free
  although the generation still runs, the counter is one less, and the gate, full or not, admits another
  stream next to it.
\<close>

theorem disconnect_frees_running_slot:
  assumes "gate_inv g" and "life_reach g s" and "gen_of s = Iterating" and "worker_of s = Running" and "consumes_slot (tick s)"
  shows "let s' = finalizer_runs (client_gone s) in
    life_reach g s' \<and> worker_of s' = Running \<and> live_ticket (life_gate s) (life_ticket s) \<and>
    \<not> live_ticket (life_gate s') (life_ticket s') \<and> in_flight (life_gate s') = in_flight (life_gate s) - 1 \<and>
    (\<exists>s2. admit (life_gate s') = Inr s2)"
proof -
  let ?g = "life_gate s"
  let ?g' = "ticket_release (life_ticket s) ?g"
  from life_reach_inv [OF assms(2,1)] have inv: "gate_inv ?g" "life_ticket s < length (tickets ?g)" by (simp_all add: life_inv_def)
  have "\<not> tk_released (tick s)" by (rule running_generation_keeps_slot [OF assms(1,2,4)]) (simp add: assms(3))
  with inv(2) assms(5) have live: "live_ticket ?g (life_ticket s)" by (simp add: live_ticket_def holds_slot_def tick_def)
  note less = ticket_release_live(1) [OF inv(1) live]
  have "life_reach g (client_gone s)" using assms(2) life_step.close_gen [OF assms(3)] by (rule life_reach.step)
  moreover have "life_step (client_gone s) (finalizer_runs (client_gone s))" by (rule life_step.collect) (simp add: client_gone_def)
  ultimately have reach: "life_reach g (finalizer_runs (client_gone s))" by (rule life_reach.step)
  have "snd (try_acquire ?g') \<noteq> None"
    using inv(1) less by (auto simp: try_acquire_def gate_inv_def Let_def split: option.splits)
  then have "\<exists>s2. admit ?g' = Inr s2" by (auto simp: admit_def split: prod.split option.split)
  with reach live less assms(4) show ?thesis
    by (simp add: Let_def finalizer_runs_def client_gone_def live_after_release)
qed

theorem disconnect_frees_running_slot_witness:
  "gate_limit (life_gate life3) = Some 1 \<and> in_flight (life_gate life3) = 1 \<and>
    (let s' = finalizer_runs (client_gone life3) in worker_of s' = Running \<and> in_flight (life_gate s') = 0 \<and>
      (\<exists>s2. admit (life_gate s') = Inr s2))"
proof -
  have s: "gen_of life3 = Iterating" "worker_of life3 = Running" "consumes_slot (tick life3)"
    "gate_limit (life_gate life3) = Some 1" "in_flight (life_gate life3) = 1"
    by (simp_all add: tick_def life_defs life_gate0_def new_gate_def new_ticket_def try_acquire_def
        ticket_claim_def release_if_unclaimed_def)
  from disconnect_frees_running_slot [OF life_gate0_inv life_reach_3 s(1-3)] s show ?thesis by (simp add: Let_def)
qed

end
