(* ===== verification/Network_Policy.thy ===== *)
theory Network_Policy
  imports Pystr
begin

text \<open>
  The outbound-network policy of a sandbox:
  \<open>backend/app/services/sandbox_network_policy.py\<close>. Host names, address classification,
  validation of a policy document, the decision on one CONNECT, loading a policy file and deriving
  an agent policy from approved hosts. Audit payloads and log lines are not kept; a denial keeps
  its reason.

  \<open>py_env\<close> bundles what the module takes from its surroundings: the IDNA codec on labels that are
  not ASCII, \<open>datetime.fromisoformat\<close> and \<open>isoformat\<close>, the digest of a document, and the two
  configured CIDR lists (already parsed, unparsable entries skipped as the code does).
\<close>

section \<open>Addresses and networks\<close>

datatype ip = V4 nat | V6 nat

datatype net = Net4 nat nat | Net6 nat nat

text \<open>\<open>address in network\<close>: false when the versions differ.\<close>

fun in_net :: "ip \<Rightarrow> net \<Rightarrow> bool" where
  "in_net (V4 a) (Net4 b p) \<longleftrightarrow> a div 2 ^ (32 - p) = b div 2 ^ (32 - p)"
| "in_net (V6 a) (Net6 b p) \<longleftrightarrow> a div 2 ^ (128 - p) = b div 2 ^ (128 - p)"
| "in_net _ _ \<longleftrightarrow> False"

definition quad :: "nat \<Rightarrow> nat \<Rightarrow> nat \<Rightarrow> nat \<Rightarrow> nat" where
  "quad a b c d = ((a * 256 + b) * 256 + c) * 256 + d"

text \<open>The top 16-bit group of an IPv6 address whose other groups are zero.\<close>

definition group1 :: "nat \<Rightarrow> nat" where
  "group1 a = a * 2 ^ 112"

definition groups2 :: "nat \<Rightarrow> nat \<Rightarrow> nat" where
  "groups2 a b = a * 2 ^ 112 + b * 2 ^ 96"

definition groups3 :: "nat \<Rightarrow> nat \<Rightarrow> nat \<Rightarrow> nat" where
  "groups3 a b c = a * 2 ^ 112 + b * 2 ^ 96 + c * 2 ^ 80"

definition documentation_ranges :: "net list" where
  "documentation_ranges =
     [Net4 (quad 192 0 2 0) 24, Net4 (quad 198 51 100 0) 24, Net4 (quad 203 0 113 0) 24,
      Net6 (groups2 0x2001 0xdb8) 32]"

definition known_metadata_addresses :: "ip list" where
  "known_metadata_addresses =
     [V4 (quad 169 254 169 254), V4 (quad 100 100 100 200), V4 (quad 192 0 0 192)]"

definition forbidden_families :: "(string \<times> net list) list" where
  "forbidden_families =
     [(''unspecified'', [Net4 (quad 0 0 0 0) 8, Net6 0 128]),
      (''loopback'', [Net4 (quad 127 0 0 0) 8, Net6 1 128]),
      (''private'', [Net4 (quad 10 0 0 0) 8, Net4 (quad 172 16 0 0) 12, Net4 (quad 192 168 0 0) 16,
         Net6 (group1 0xfc00) 7]),
      (''link_local'', [Net4 (quad 169 254 0 0) 16, Net6 (group1 0xfe80) 10]),
      (''multicast'', [Net4 (quad 224 0 0 0) 4, Net6 (group1 0xff00) 8]),
      (''carrier_grade_nat'', [Net4 (quad 100 64 0 0) 10]),
      (''broadcast'', [Net4 (quad 255 255 255 255) 32])]"

definition non_public_ranges :: "(string \<times> net list) list" where
  "non_public_ranges =
     [(''benchmarking'', [Net4 (quad 198 18 0 0) 15]),
      (''ietf_reserved'', [Net4 (quad 192 0 0 0) 24]),
      (''protocol_assignment'', [Net4 (quad 192 88 99 0) 24]),
      (''reserved'', [Net4 (quad 240 0 0 0) 4, Net6 (groups2 0x2001 0x10) 28])]"

text \<open>
  \<open>ipaddress\<close>'s \<open>is_global\<close>, with the tables of CPython 3.13: outside the shared address space and
  every private network, or in one of the exceptions.
\<close>

definition py_private :: "net list" where
  "py_private =
     [Net4 0 8, Net4 (quad 10 0 0 0) 8, Net4 (quad 127 0 0 0) 8, Net4 (quad 169 254 0 0) 16,
      Net4 (quad 172 16 0 0) 12, Net4 (quad 192 0 0 0) 24, Net4 (quad 192 0 0 170) 31,
      Net4 (quad 192 0 2 0) 24, Net4 (quad 192 168 0 0) 16, Net4 (quad 198 18 0 0) 15,
      Net4 (quad 198 51 100 0) 24, Net4 (quad 203 0 113 0) 24, Net4 (quad 240 0 0 0) 4,
      Net4 (quad 255 255 255 255) 32,
      Net6 1 128, Net6 0 128, Net6 (0xffff * 2 ^ 32) 96, Net6 (groups3 0x64 0xff9b 1) 48,
      Net6 (group1 0x100) 64, Net6 (group1 0x2001) 23, Net6 (groups2 0x2001 0xdb8) 32,
      Net6 (group1 0x2002) 16, Net6 (group1 0x3fff) 20, Net6 (group1 0xfc00) 7,
      Net6 (group1 0xfe80) 10]"

definition py_private_exceptions :: "net list" where
  "py_private_exceptions =
     [Net4 (quad 192 0 0 9) 32, Net4 (quad 192 0 0 10) 32,
      Net6 (groups2 0x2001 1 + 1) 128, Net6 (groups2 0x2001 1 + 2) 128,
      Net6 (groups2 0x2001 3) 32, Net6 (groups3 0x2001 4 0x112) 48,
      Net6 (groups2 0x2001 0x20) 28, Net6 (groups2 0x2001 0x30) 28]"

definition in_any :: "ip \<Rightarrow> net list \<Rightarrow> bool" where
  "in_any a ns \<longleftrightarrow> list_ex (in_net a) ns"

definition is_global :: "ip \<Rightarrow> bool" where
  "is_global a \<longleftrightarrow> \<not> in_net a (Net4 (quad 100 64 0 0) 10) \<and>
     \<not> (in_any a py_private \<and> \<not> in_any a py_private_exceptions)"

text \<open>\<open>address.ipv4_mapped\<close>, applied when it is not \<open>None\<close>.\<close>

fun unmap :: "ip \<Rightarrow> ip" where
  "unmap (V4 a) = V4 a"
| "unmap (V6 a) = (if a div 2 ^ 32 = 0xffff then V4 (a mod 2 ^ 32) else V6 a)"

section \<open>The environment\<close>

record py_env =
  idna_of :: "string \<Rightarrow> string option"
  iso_parse :: "string \<Rightarrow> instant option"
  iso_format :: "instant \<Rightarrow> string"
  digest_of :: "(string \<times> json) list \<Rightarrow> string"
  fake_ip_ranges :: "net list"
  deny_cidrs :: "net list"

text \<open>The category of the first family that holds the address.\<close>

fun family_of :: "ip \<Rightarrow> (string \<times> net list) list \<Rightarrow> string option" where
  "family_of a [] = None"
| "family_of a ((c, ns) # fs) = (if in_any a ns then Some c else family_of a fs)"

text \<open>\<open>classify_ip_address\<close>: \<open>None\<close> is a string that is no IP address.\<close>

definition classify_ip_address :: "py_env \<Rightarrow> ip option \<Rightarrow> string" where
  "classify_ip_address env value =
     (case value of None \<Rightarrow> ''invalid''
      | Some address0 \<Rightarrow>
          let address = unmap address0 in
          if address \<in> set known_metadata_addresses then ''metadata''
          else if in_any address (deny_cidrs env) then ''deployment_denied''
          else (case family_of address forbidden_families of
              Some category \<Rightarrow> category
            | None \<Rightarrow>
                if in_any address (fake_ip_ranges env) then ''public''
                else if in_any address documentation_ranges then ''documentation''
                else (case family_of address non_public_ranges of
                    Some category \<Rightarrow> category
                  | None \<Rightarrow> if \<not> is_global address then ''non_global'' else ''public'')))"

section \<open>Host names\<close>

datatype policy_exc = Egress_invalid string | Egress_denied string | Type_error

definition valid_label :: "string \<Rightarrow> bool" where
  "valid_label l \<longleftrightarrow> l \<noteq> [] \<and> length l \<le> 63 \<and> hd l \<noteq> CHR ''-'' \<and> last l \<noteq> CHR ''-'' \<and>
     list_all (\<lambda>c. is_alnum c \<or> c = CHR ''-'') l"

text \<open>\<open>label.encode("idna")\<close>: an ASCII label is returned as it is, unless it is too long.\<close>

definition idna_encode :: "py_env \<Rightarrow> string \<Rightarrow> string option" where
  "idna_encode env l =
     (if list_all is_ascii l then (if 64 \<le> length l then None else Some l) else idna_of env l)"

definition normalize_label :: "py_env \<Rightarrow> string \<Rightarrow> policy_exc + string" where
  "normalize_label env l =
     (case idna_encode env l of
        None \<Rightarrow> Inl (Egress_invalid ''hostname_idna_invalid'')
      | Some a \<Rightarrow> require (valid_label a) (Egress_invalid ''hostname_label_invalid'') (Inr a))"

text \<open>One octet of \<open>ipaddress.ip_address\<close>: digits, no leading zero, at most 255.\<close>

definition is_octet :: "string \<Rightarrow> bool" where
  "is_octet s \<longleftrightarrow> s \<noteq> [] \<and> list_all is_digit s \<and> length s \<le> 3 \<and>
     (s = ''0'' \<or> hd s \<noteq> CHR ''0'') \<and> digits_value 0 s \<le> 255"

text \<open>
  \<open>ip_address(candidate)\<close> succeeds: without a colon this can only be a dotted IPv4 address.
\<close>

definition is_ip_literal :: "string \<Rightarrow> bool" where
  "is_ip_literal s \<longleftrightarrow> length (split_on CHR ''.'' s) = 4 \<and> list_all is_octet (split_on CHR ''.'' s)"

definition drop_trailing_dot :: "string \<Rightarrow> string" where
  "drop_trailing_dot v = (if v \<noteq> [] \<and> last v = CHR ''.'' then butlast v else v)"

definition normalize_hostname :: "py_env \<Rightarrow> string \<Rightarrow> policy_exc + string" where
  "normalize_hostname env host =
     (let value = drop_trailing_dot (strip host) in
      require (value \<noteq> [] \<and> length value \<le> 253) (Egress_invalid ''hostname_out_of_range'')
       (let labels = split_on CHR ''.'' (casefold value) in
        require (2 \<le> length labels) (Egress_invalid ''hostname_requires_registered_domain'')
         (bind_r (map_r (normalize_label env) labels) (\<lambda>parts.
            let candidate = join_with CHR ''.'' parts in
            require (\<not> is_ip_literal candidate) (Egress_invalid ''hostname_must_be_domain'')
              (Inr candidate)))))"


section \<open>Policy documents\<close>

datatype capability = OFFLINE | FETCH | BROWSER | RESTRICTED_EGRESS

fun normalize_network_capability :: "json \<Rightarrow> policy_exc + capability" where
  "normalize_network_capability (JStr s) =
     (let candidate = map upper_char (strip s) in
      if candidate = ''OFFLINE'' then Inr OFFLINE
      else if candidate = ''FETCH'' then Inr FETCH
      else if candidate = ''BROWSER'' then Inr BROWSER
      else if candidate = ''RESTRICTED_EGRESS'' then Inr RESTRICTED_EGRESS
      else Inl (Egress_invalid ''policy_capability_invalid''))"
| "normalize_network_capability _ = Inl (Egress_invalid ''policy_capability_invalid'')"

record policy_host =
  ph_host :: string
  ph_ports :: "int list"
  ph_protocols :: "string list"

record egress_policy =
  pol_workspace :: string
  pol_approval :: string
  pol_issued :: instant
  pol_expires :: instant
  pol_hosts :: "policy_host list"
  pol_issuer :: string
  pol_digest :: string
  pol_raw :: "(string \<times> json) list"
  pol_allow_all :: bool
  pol_capability :: capability
  pol_max_requests :: "int option"
  pol_max_bytes :: "int option"
  pol_max_concurrency :: "int option"

definition is_expired :: "egress_policy \<Rightarrow> instant \<Rightarrow> bool" where
  "is_expired p now \<longleftrightarrow> now > pol_expires p"

fun parse_policy_datetime :: "py_env \<Rightarrow> json \<Rightarrow> policy_exc + instant" where
  "parse_policy_datetime env (JStr s) =
     (case iso_parse env s of
        None \<Rightarrow> Inl (Egress_invalid ''policy_datetime_invalid'')
      | Some t \<Rightarrow> Inr t)"
| "parse_policy_datetime env _ = Inl (Egress_invalid ''policy_datetime_invalid'')"

text \<open>\<open>isinstance(value, str) and value\<close>\<close>

fun nonempty_str :: "json \<Rightarrow> string \<Rightarrow> policy_exc + string" where
  "nonempty_str (JStr s) why = require (s \<noteq> []) (Egress_invalid why) (Inr s)"
| "nonempty_str _ why = Inl (Egress_invalid why)"

text \<open>The three optional limits: absent or null is no limit; a bool is not a number here.\<close>

fun parse_limit :: "string \<Rightarrow> json \<Rightarrow> policy_exc + int option" where
  "parse_limit why JNull = Inr None"
| "parse_limit why (JInt i) = require (0 < i) (Egress_invalid why) (Inr (Some i))"
| "parse_limit why _ = Inl (Egress_invalid why)"

definition protocol_port :: "string \<Rightarrow> int option" where
  "protocol_port p = (if p = ''http'' then Some 80 else if p = ''https'' then Some 443 else None)"

definition port_protocol :: "int \<Rightarrow> string" where
  "port_protocol n = (if n = 80 then ''http'' else ''https'')"

definition parse_port :: "json \<Rightarrow> policy_exc + int" where
  "parse_port j = (case as_int j of
      None \<Rightarrow> Inl (Egress_invalid ''policy_port_invalid'')
    | Some p \<Rightarrow>
        require (1 \<le> p \<and> p \<le> 65535) (Egress_invalid ''policy_port_invalid'')
         (require (p \<in> {80, 443}) (Egress_invalid ''policy_port_must_be_http_https'') (Inr p)))"

text \<open>\<open>protocol not in ALLOWED_PROTOCOL_PORTS\<close>; a list or dict is not hashable and raises.\<close>

fun parse_protocol :: "json \<Rightarrow> policy_exc + string" where
  "parse_protocol (JStr s) =
     require (protocol_port s \<noteq> None) (Egress_invalid ''policy_protocol_not_http_https'') (Inr s)"
| "parse_protocol (JList _) = Inl Type_error"
| "parse_protocol (JDict _) = Inl Type_error"
| "parse_protocol _ = Inl (Egress_invalid ''policy_protocol_not_http_https'')"

text \<open>\<open>isinstance(raw, list) and raw\<close>\<close>

fun nonempty_list :: "json \<Rightarrow> string \<Rightarrow> policy_exc + json list" where
  "nonempty_list (JList xs) why = require (xs \<noteq> []) (Egress_invalid why) (Inr xs)"
| "nonempty_list _ why = Inl (Egress_invalid why)"

definition host_text :: "json \<Rightarrow> string" where
  "host_text j = (if truthy j then py_str j else [])"

text \<open>One entry of \<open>hosts\<close>; \<open>seen\<close> are the hosts of the entries before it.\<close>

definition validate_host :: "py_env \<Rightarrow> string list \<Rightarrow> json \<Rightarrow> policy_exc + policy_host" where
  "validate_host env seen entry = (case entry of
      JDict d \<Rightarrow>
        bind_r (normalize_hostname env (host_text (jget d ''host''))) (\<lambda>host.
        require (host \<notin> set seen) (Egress_invalid ''policy_duplicate_host'')
        (bind_r (nonempty_list (jget_default d ''ports'' (JList [JInt 443])) ''policy_host_no_ports'')
          (\<lambda>raw_ports.
        bind_r (map_r parse_port raw_ports) (\<lambda>ports.
        bind_r (nonempty_list (jget_default d ''protocols'' (JList [JStr ''https'']))
          ''policy_host_no_protocols'') (\<lambda>raw_protocols.
        bind_r (map_r parse_protocol raw_protocols) (\<lambda>protocols.
        require (\<forall>p \<in> set protocols. the (protocol_port p) \<in> set ports)
          (Egress_invalid ''policy_protocol_port_mismatch'')
        (require (\<forall>n \<in> set ports. port_protocol n \<in> set protocols)
          (Egress_invalid ''policy_protocol_port_mismatch'')
        (Inr \<lparr>ph_host = host, ph_ports = sort (remdups ports), ph_protocols = protocols\<rparr>))))))))
    | _ \<Rightarrow> Inl (Egress_invalid ''policy_host_must_be_object''))"

fun validate_hosts :: "py_env \<Rightarrow> string list \<Rightarrow> json list \<Rightarrow> policy_exc + policy_host list" where
  "validate_hosts env seen [] = Inr []"
| "validate_hosts env seen (e # es) =
     bind_r (validate_host env seen e) (\<lambda>h.
       bind_r (validate_hosts env (ph_host h # seen) es) (\<lambda>hs. Inr (h # hs)))"

fun as_list :: "json \<Rightarrow> string \<Rightarrow> policy_exc + json list" where
  "as_list (JList xs) why = Inr xs"
| "as_list _ why = Inl (Egress_invalid why)"

text \<open>\<open>validate_egress_policy\<close>, check by check in the order of the code.\<close>

definition validate_egress_policy :: "py_env \<Rightarrow> json \<Rightarrow> instant \<Rightarrow> policy_exc + egress_policy" where
  "validate_egress_policy env data now = (case data of
      JDict d \<Rightarrow>
        let allow_all = (jget d ''allow_all_public'' = JBool True) in
        bind_r (normalize_network_capability
          (jget_default d ''capability'' (JStr ''RESTRICTED_EGRESS''))) (\<lambda>cap.
        bind_r (parse_policy_datetime env (jget d ''issued_at'')) (\<lambda>issued.
        bind_r (parse_policy_datetime env (jget d ''expires_at'')) (\<lambda>expires.
        bind_r (nonempty_str (jget d ''workspace_id'') ''policy_missing_workspace'') (\<lambda>ws.
        bind_r (nonempty_str (jget d ''approval_id'') ''policy_missing_approval'') (\<lambda>appr.
        bind_r (nonempty_str (jget d ''issuer'') ''policy_missing_issuer'') (\<lambda>issuer.
        require (\<not> expires \<le> issued) (Egress_invalid ''policy_expiry_before_issue'')
        (require (\<not> expires \<le> now) (Egress_invalid ''policy_expired'')
        (bind_r (parse_limit ''policy_max_requests_invalid'' (jget d ''max_requests'')) (\<lambda>mr.
        bind_r (parse_limit ''policy_max_bytes_invalid'' (jget d ''max_bytes'')) (\<lambda>mb.
        bind_r (parse_limit ''policy_max_concurrency_invalid'' (jget d ''max_concurrency'')) (\<lambda>mc.
        bind_r (as_list (jget d ''hosts'') ''policy_hosts_must_be_list'') (\<lambda>raw_hosts.
        require (raw_hosts \<noteq> [] \<or> allow_all) (Egress_invalid ''policy_empty_hosts'')
        (require (\<not> (cap = OFFLINE \<and> (raw_hosts \<noteq> [] \<or> allow_all)))
          (Egress_invalid ''policy_offline_has_hosts'')
        (bind_r (validate_hosts env [] raw_hosts) (\<lambda>hosts.
        Inr \<lparr>pol_workspace = ws, pol_approval = appr, pol_issued = issued, pol_expires = expires,
             pol_hosts = hosts, pol_issuer = issuer, pol_digest = digest_of env d, pol_raw = d,
             pol_allow_all = allow_all, pol_capability = cap, pol_max_requests = mr,
             pol_max_bytes = mb, pol_max_concurrency = mc\<rparr>)))))))))))))))
    | _ \<Rightarrow> Inl (Egress_invalid ''policy_must_be_object''))"

section \<open>One CONNECT\<close>

text \<open>\<open>_classify_all\<close>: no address, or one address that is not public, denies.\<close>

definition classify_all :: "py_env \<Rightarrow> ip option list \<Rightarrow> policy_exc + (ip option \<times> string) list" where
  "classify_all env addresses =
     (let classified = map (\<lambda>a. (a, classify_ip_address env a)) addresses in
      require (classified \<noteq> []) (Egress_denied ''dns_no_addresses'')
       (require (filter (\<lambda>x. snd x \<noteq> ''public'') classified = [])
         (Egress_denied ''dns_address_classified_forbidden'') (Inr classified)))"

text \<open>
  \<open>authorize_connect\<close>: the address to connect to, with the host name of the audit record. The
  resolver is the caller's; it answers when the connection is made.
\<close>

definition authorize_connect ::
  "py_env \<Rightarrow> egress_policy \<Rightarrow> string \<Rightarrow> int \<Rightarrow> string \<Rightarrow> (string \<Rightarrow> ip option list) \<Rightarrow> instant
     \<Rightarrow> policy_exc + ip option \<times> string" where
  "authorize_connect env policy host port protocol resolver now =
     require (\<not> is_expired policy now) (Egress_denied ''policy_expired'')
     (require (pol_capability policy \<noteq> OFFLINE) (Egress_denied ''capability_offline'')
     (require (protocol_port protocol = Some port) (Egress_denied ''port_protocol_not_allowed'')
     (case normalize_hostname env host of
        Inl (Egress_invalid why) \<Rightarrow> Inl (Egress_denied ''host_not_normalizable'')
      | Inl e \<Rightarrow> Inl e
      | Inr normalized \<Rightarrow>
          let rule = (if pol_allow_all policy then None
                      else find (\<lambda>h. ph_host h = normalized) (pol_hosts policy)) in
          require (pol_allow_all policy \<or> rule \<noteq> None) (Egress_denied ''host_not_in_allowlist'')
          (require (case rule of None \<Rightarrow> True
                    | Some r \<Rightarrow> port \<in> set (ph_ports r) \<and> protocol \<in> set (ph_protocols r))
             (Egress_denied ''port_protocol_not_allowed'')
          (bind_r (classify_all env (resolver normalized)) (\<lambda>classified.
             Inr (fst (hd classified), normalized)))))))"

section \<open>The policy file and derived policies\<close>

text \<open>The slot \<open>{workspace_id}.json\<close>: no file, text that is not JSON, or a document.\<close>

datatype policy_file = No_file | Unreadable | Document json

definition load_workspace_policy_file ::
  "py_env \<Rightarrow> policy_file \<Rightarrow> instant \<Rightarrow> policy_exc + egress_policy option" where
  "load_workspace_policy_file env f now = (case f of
      No_file \<Rightarrow> Inr None
    | Unreadable \<Rightarrow> Inr None
    | Document raw \<Rightarrow>
        (case validate_egress_policy env raw now of
           Inl (Egress_invalid why) \<Rightarrow> Inr None
         | Inl e \<Rightarrow> Inl e
         | Inr policy \<Rightarrow> if pol_capability policy = OFFLINE then Inr None else Inr (Some policy)))"

text \<open>\<open>store_workspace_policy_file\<close>: the file is replaced whole by the policy's document.\<close>

definition store_workspace_policy_file :: "egress_policy \<Rightarrow> policy_file" where
  "store_workspace_policy_file p = Document (JDict (pol_raw p))"

definition agent_ttl_default :: int where "agent_ttl_default = 86400"
definition agent_ttl_max :: int where "agent_ttl_max = 7 * 86400"
definition agent_ttl_margin :: int where "agent_ttl_margin = 1800"

definition agent_egress_policy_ttl_seconds :: "int option \<Rightarrow> int option \<Rightarrow> int" where
  "agent_egress_policy_ttl_seconds session container =
     (let bounds = filter (\<lambda>x. 0 < x)
            (map (\<lambda>v. case v of None \<Rightarrow> 0 | Some x \<Rightarrow> x) [session, container]);
          base = (if bounds \<noteq> [] then Max (set bounds) else agent_ttl_default)
      in max 60 (min agent_ttl_max (base + agent_ttl_margin)))"

text \<open>The document \<open>derive_egress_policy_for_agent\<close> builds.\<close>

definition agent_host_entry :: "string \<Rightarrow> json" where
  "agent_host_entry h = JDict [(''host'', JStr h), (''ports'', JList [JInt 443]),
     (''protocols'', JList [JStr ''https''])]"

definition opt_field :: "string \<Rightarrow> int option \<Rightarrow> (string \<times> json) list" where
  "opt_field k v = (case v of None \<Rightarrow> [] | Some i \<Rightarrow> [(k, JInt i)])"

definition agent_document ::
  "py_env \<Rightarrow> string \<Rightarrow> string list \<Rightarrow> int \<Rightarrow> bool \<Rightarrow> int option \<Rightarrow> int option \<Rightarrow> int option \<Rightarrow> instant
     \<Rightarrow> (string \<times> json) list" where
  "agent_document env ws hosts ttl allow_all mr mb mc issued =
     [(''workspace_id'', JStr ws),
      (''approval_id'', JStr ''agent_egress_authorization''),
      (''issuer'', JStr ''agent_egress_authorization''),
      (''capability'', JStr ''RESTRICTED_EGRESS''),
      (''issued_at'', JStr (iso_format env issued)),
      (''expires_at'', JStr (iso_format env (issued + ttl))),
      (''hosts'', JList (map agent_host_entry hosts))]
     @ opt_field ''max_requests'' mr @ opt_field ''max_bytes'' mb @ opt_field ''max_concurrency'' mc
     @ (if allow_all then [(''allow_all_public'', JBool True)] else [])"

definition derive_egress_policy_for_agent ::
  "py_env \<Rightarrow> string \<Rightarrow> string list \<Rightarrow> int \<Rightarrow> bool \<Rightarrow> int option \<Rightarrow> int option \<Rightarrow> int option \<Rightarrow> instant
     \<Rightarrow> policy_exc + egress_policy" where
  "derive_egress_policy_for_agent env ws allowed ttl allow_all mr mb mc now =
     require (ws \<noteq> []) (Egress_invalid ''policy_missing_workspace'')
     (require (0 < ttl \<and> ttl \<le> agent_ttl_max) (Egress_invalid ''policy_ttl_invalid'')
     (bind_r (map_r (normalize_hostname env) allowed) (\<lambda>names.
        let hosts = fromkeys names in
        require (hosts \<noteq> [] \<or> allow_all) (Egress_invalid ''policy_empty_hosts'')
        (validate_egress_policy env
          (JDict (agent_document env ws hosts ttl allow_all mr mb mc now)) now))))"


section \<open>Host names: lemmas\<close>

definition wf_host_name :: "string \<Rightarrow> bool" where
  "wf_host_name c \<longleftrightarrow> 2 \<le> length (split_on CHR ''.'' c) \<and>
     list_all valid_label (split_on CHR ''.'' c) \<and> \<not> is_ip_literal c"

lemma normalize_label_valid: "normalize_label env l = Inr a \<Longrightarrow> valid_label a"
  by (auto simp: normalize_label_def split: option.splits)

lemma normalize_label_ascii:
  "list_all is_ascii l \<Longrightarrow> normalize_label env l = Inr a \<Longrightarrow> a = l"
  by (auto simp: normalize_label_def idna_encode_def split: option.splits if_splits)

lemma alnum_ascii: "is_alnum c \<Longrightarrow> is_ascii c"
  by (auto simp: is_alnum_def is_ascii_def is_digit_def is_upper_def is_lower_def)

lemma label_char_facts [simp]:
  "\<not> is_alnum CHR ''.''" "is_ascii CHR ''-''" "\<not> is_space CHR ''-''" "\<not> is_upper CHR ''-''"
  by (simp_all add: is_alnum_def is_digit_def is_upper_def is_lower_def code_def is_ascii_def
      is_space_def)

lemma valid_label_ascii: "valid_label l \<Longrightarrow> list_all is_ascii l"
  by (auto simp: valid_label_def list_all_iff alnum_ascii)

lemma valid_label_no_dot: "valid_label l \<Longrightarrow> CHR ''.'' \<notin> set l"
  by (auto simp: valid_label_def list_all_iff)

lemma valid_label_ends: "valid_label l \<Longrightarrow> l \<noteq> [] \<and> is_alnum (hd l) \<and> is_alnum (last l)"
  by (auto simp: valid_label_def list_all_iff)

lemma normalize_label_self:
  "valid_label l \<Longrightarrow> normalize_label env l = Inr l"
proof -
  assume v: "valid_label l"
  then have "length l \<le> 63" by (simp add: valid_label_def)
  with v valid_label_ascii [OF v] show ?thesis by (simp add: normalize_label_def idna_encode_def)
qed

lemma normalize_hostname_parts:
  assumes "normalize_hostname env host = Inr c"
  obtains parts where "c = join_with CHR ''.'' parts" "split_on CHR ''.'' c = parts"
    "map_r (normalize_label env)
       (split_on CHR ''.'' (casefold (drop_trailing_dot (strip host)))) = Inr parts"
    "2 \<le> length parts" "list_all valid_label parts"
proof -
  let ?ls = "split_on CHR ''.'' (casefold (drop_trailing_dot (strip host)))"
  from assms obtain parts where
    p: "map_r (normalize_label env) ?ls = Inr parts" "2 \<le> length ?ls" "c = join_with CHR ''.'' parts"
    by (auto simp: normalize_hostname_def Let_def bind_r_Inr)
  from p(1) have all2: "list_all2 (\<lambda>l a. normalize_label env l = Inr a) ?ls parts"
    by (simp add: map_r_Inr)
  then have len: "length parts = length ?ls" by (simp add: list_all2_lengthD)
  from all2 have v: "list_all valid_label parts"
    by (auto simp: list_all2_conv_all_nth list_all_length intro: normalize_label_valid)
  with len p(2) have "split_on CHR ''.'' (join_with CHR ''.'' parts) = parts"
    by (intro split_join) (auto simp: list_all_iff valid_label_no_dot)
  with that p len v show ?thesis by metis
qed

text \<open>Whatever the input, an accepted name is a dotted DNS name and no address literal.\<close>

lemma normalize_hostname_wf:
  assumes "normalize_hostname env host = Inr c"
  shows "wf_host_name c"
proof -
  from assms have "\<not> is_ip_literal c"
    by (auto simp: normalize_hostname_def Let_def bind_r_Inr)
  with assms show ?thesis
    by (auto elim!: normalize_hostname_parts simp: wf_host_name_def)
qed

lemma join_ends:
  assumes "ws \<noteq> []" and "\<forall>w \<in> set ws. w \<noteq> []"
  shows "join_with c ws \<noteq> [] \<and> hd (join_with c ws) = hd (hd ws) \<and>
    last (join_with c ws) = last (last ws)"
  using assms by (induction c ws rule: join_with.induct) auto

text \<open>A lower-case well-formed name of legal length is its own canonical form.\<close>

lemma normalize_hostname_self:
  assumes wf: "wf_host_name c" and low: "casefold c = c" and len: "length c \<le> 253"
  shows "normalize_hostname env c = Inr c"
proof -
  let ?ws = "split_on CHR ''.'' c"
  from wf have v: "\<forall>w \<in> set ?ws. valid_label w" and n: "2 \<le> length ?ws"
    and nip: "\<not> is_ip_literal c" by (auto simp: wf_host_name_def list_all_iff)
  have c: "c = join_with CHR ''.'' ?ws" by (simp add: join_split)
  from v have ne: "\<forall>w \<in> set ?ws. w \<noteq> []" by (auto simp: valid_label_def)
  from join_ends [OF split_on_nonempty ne, of "CHR ''.''"] c
  have ends: "c \<noteq> []" "hd c = hd (hd ?ws)" "last c = last (last ?ws)" by auto
  have "hd ?ws \<in> set ?ws" "last ?ws \<in> set ?ws" by simp_all
  with v ends have al: "is_alnum (hd c)" "is_alnum (last c)"
    by (auto dest: valid_label_ends)
  then have s: "strip c = c" using ends(1)
    by (intro strip_id) (auto simp: is_alnum_not_space)
  from al(2) have "last c \<noteq> CHR ''.''" by auto
  with s have d: "drop_trailing_dot (strip c) = c" by (simp add: drop_trailing_dot_def)
  from v have "map_r (normalize_label env) ?ws = Inr ?ws"
    using map_r_all [of ?ws "normalize_label env" "\<lambda>l. l"] by (simp add: normalize_label_self)
  with d low len ends(1) n nip show ?thesis
    by (simp add: normalize_hostname_def Let_def join_split)
qed

lemma normalize_ascii_is_casefold:
  assumes "list_all is_ascii host" and "normalize_hostname env host = Inr c"
  shows "c = casefold (drop_trailing_dot (strip host)) \<and> length c \<le> 253"
proof -
  let ?v = "casefold (drop_trailing_dot (strip host))"
  have "set (drop_trailing_dot (strip host)) \<subseteq> set host"
    using set_strip [of host] by (auto simp: drop_trailing_dot_def dest: in_set_butlastD)
  with assms(1) have asc: "\<forall>x \<in> set ?v. is_ascii x"
    by (auto simp: casefold_def list_all_iff)
  from assms(2) obtain parts where
    p: "c = join_with CHR ''.'' parts"
      "map_r (normalize_label env) (split_on CHR ''.'' ?v) = Inr parts"
    by (rule normalize_hostname_parts) blast
  have "list_all is_ascii w" if "w \<in> set (split_on CHR ''.'' ?v)" for w
    using asc split_on_words_subset [OF that] by (auto simp: list_all_iff)
  with p(2) have "parts = split_on CHR ''.'' ?v"
    by (intro map_r_fixed [OF p(2)]) (auto intro: normalize_label_ascii)
  with p(1) have "c = ?v" by (simp add: join_split)
  moreover from assms(2) have "length ?v \<le> 253"
    by (auto simp: normalize_hostname_def Let_def)
  ultimately show ?thesis by simp
qed

lemma normalize_ascii_fixed:
  assumes "list_all is_ascii host" and "normalize_hostname env host = Inr c"
  shows "normalize_hostname env c = Inr c"
  using normalize_ascii_is_casefold [OF assms] normalize_hostname_wf [OF assms(2)]
  by (auto intro: normalize_hostname_self)

text \<open>
  Canonical host names are fixed points: the name an ASCII host is reviewed under normalizes to
  itself, so the approval queue, the policy file and the CONNECT check compare the same string.
\<close>

lemma normalize_hostname_idempotent:
  assumes "list_all is_ascii host" and "normalize_hostname env host = Inr c"
  shows "normalize_hostname env c = Inr c \<and> wf_host_name c"
  using normalize_ascii_fixed [OF assms] normalize_hostname_wf [OF assms(2)] by simp

text \<open>A concrete environment for witnesses: no IDNA, instants written in decimal.\<close>

definition plain_env :: py_env where
  "plain_env = \<lparr>idna_of = (\<lambda>_. None), iso_parse = parse_int, iso_format = show_int,
     digest_of = (\<lambda>_. ''digest''), fake_ip_ranges = [], deny_cidrs = []\<rparr>"

lemma normalize_examples:
  "normalize_hostname plain_env '' API.Example.com. '' = Inr ''api.example.com''"
  "normalize_hostname plain_env ''api.example.com'' = Inr ''api.example.com''"
  "normalize_hostname plain_env ''10.0.0.1'' = Inl (Egress_invalid ''hostname_must_be_domain'')"
  "normalize_hostname plain_env ''localhost'' =
     Inl (Egress_invalid ''hostname_requires_registered_domain'')"
  "normalize_hostname plain_env ''-a.example.com'' = Inl (Egress_invalid ''hostname_label_invalid'')"
  by code_simp+

section \<open>Addresses: lemmas and properties\<close>

lemma family_of_None: "family_of a fs = None \<longleftrightarrow> (\<forall>x \<in> set fs. \<not> in_any a (snd x))"
  by (induction fs) (auto split: if_splits)

lemma family_of_Some: "family_of a fs = Some c \<Longrightarrow> c \<in> fst ` set fs"
  by (induction fs) (auto split: if_splits)

lemma not_public_names [simp]:
  "''public'' \<notin> fst ` set forbidden_families" "''public'' \<notin> fst ` set non_public_ranges"
  by (simp_all add: forbidden_families_def non_public_ranges_def)

text \<open>
  What the classifier lets through: an address classified public is none of the metadata
  endpoints, is in no operator deny range and in no forbidden family (loopback, private,
  link-local, multicast, shared, broadcast), whatever the fake-IP escape hatch holds, and it is
  globally routable unless that hatch covers it. This holds for the unmapped address, so an
  IPv4-mapped spelling cannot pass where its IPv4 address is refused.
\<close>

lemma classified_public_is_safe:
  assumes "classify_ip_address env value = ''public''"
  obtains a where "value = Some a" "unmap a \<notin> set known_metadata_addresses"
    "\<not> in_any (unmap a) (deny_cidrs env)"
    "\<forall>x \<in> set forbidden_families. \<not> in_any (unmap a) (snd x)"
    "is_global (unmap a) \<or> in_any (unmap a) (fake_ip_ranges env)"
proof -
  from assms obtain a where a: "value = Some a"
    by (cases "value") (auto simp: classify_ip_address_def)
  have nf: "family_of (unmap a) forbidden_families \<noteq> Some ''public''"
    "family_of (unmap a) non_public_ranges \<noteq> Some ''public''"
    using family_of_Some not_public_names by metis+
  from assms a have m: "unmap a \<notin> set known_metadata_addresses"
    and d: "\<not> in_any (unmap a) (deny_cidrs env)"
    by (auto simp: classify_ip_address_def Let_def split: if_splits)
  with assms a nf have f: "family_of (unmap a) forbidden_families = None"
    by (auto simp: classify_ip_address_def Let_def split: option.splits)
  from assms a m d f nf have "is_global (unmap a) \<or> in_any (unmap a) (fake_ip_ranges env)"
    by (auto simp: classify_ip_address_def Let_def split: if_splits option.splits)
  with that a m d f show ?thesis by (simp add: family_of_None)
qed

lemmas address_tables = classify_ip_address_def Let_def known_metadata_addresses_def quad_def
  plain_env_def in_any_def forbidden_families_def documentation_ranges_def non_public_ranges_def
  is_global_def py_private_def py_private_exceptions_def group1_def groups2_def groups3_def

lemma public_example: "classify_ip_address plain_env (Some (V4 (quad 8 8 8 8))) = ''public''"
  by (simp add: address_tables)

text \<open>
  An address and its IPv4-mapped IPv6 spelling are classified alike.
\<close>

lemma mapped_address_classified_alike:
  assumes "d < 2 ^ 32"
  shows "classify_ip_address env (Some (V6 (0xffff * 2 ^ 32 + d))) =
    classify_ip_address env (Some (V4 d))"
proof -
  from assms have "(0xffff * 2 ^ 32 + d) div 2 ^ 32 = 0xffff" by simp
  moreover from assms have "(0xffff * 2 ^ 32 + d) mod 2 ^ 32 = d"
    by (simp only: mod_mult_self3 mod_less)
  ultimately have "unmap (V6 (0xffff * 2 ^ 32 + d)) = V4 d" by (simp del: power_numeral)
  then show ?thesis by (simp add: classify_ip_address_def)
qed

text \<open>
  The unmapping stops there: the instance-metadata and the loopback address, written with the
  well-known NAT64 prefix 64:ff9b::/96 or as an IPv4-compatible address, are classified public.
\<close>

lemma embedded_ipv4_classified_public:
  "classify_ip_address plain_env (Some (V6 (groups2 0x64 0xff9b + quad 169 254 169 254))) = ''public'' \<and>
   classify_ip_address plain_env (Some (V6 (groups2 0x64 0xff9b + quad 127 0 0 1))) = ''public'' \<and>
   classify_ip_address plain_env (Some (V6 (quad 127 0 0 1))) = ''public''"
  by (simp add: address_tables)

end
