(* ===== verification/Network_Policy_Facts.thy ===== *)
theory Network_Policy_Facts
  imports Network_Policy
begin

text \<open>
  What the policy layer promises: a validated document is well formed, a granted CONNECT respects
  the policy and reaches only public addresses, and the policy derived from approved hosts grants
  exactly those hosts.
\<close>

section \<open>Validated documents\<close>

text \<open>Well-formedness of a policy: the meaning of \<open>validate_egress_policy\<close> succeeding.\<close>

definition wf_policy_host :: "policy_host \<Rightarrow> bool" where
  "wf_policy_host h \<longleftrightarrow> wf_host_name (ph_host h) \<and> ph_ports h \<noteq> [] \<and>
     sorted (ph_ports h) \<and> distinct (ph_ports h) \<and> set (ph_ports h) \<subseteq> {80, 443} \<and> ph_protocols h \<noteq> [] \<and>
     set (ph_protocols h) \<subseteq> {''http'', ''https''} \<and>
     (\<forall>p \<in> set (ph_ports h). port_protocol p \<in> set (ph_protocols h)) \<and>
     (\<forall>q \<in> set (ph_protocols h). the (protocol_port q) \<in> set (ph_ports h))"

definition wf_policy :: "egress_policy \<Rightarrow> bool" where
  "wf_policy p \<longleftrightarrow> list_all wf_policy_host (pol_hosts p) \<and> distinct (map ph_host (pol_hosts p)) \<and>
     pol_issued p < pol_expires p \<and> pol_workspace p \<noteq> [] \<and> pol_approval p \<noteq> [] \<and>
     pol_issuer p \<noteq> [] \<and> (pol_hosts p \<noteq> [] \<or> pol_allow_all p) \<and> pol_capability p \<noteq> OFFLINE \<and>
     (\<forall>n. pol_max_requests p = Some n \<or> pol_max_bytes p = Some n \<or> pol_max_concurrency p = Some n
        \<longrightarrow> 0 < n)"

lemma parse_limit_pos: "parse_limit why j = Inr (Some n) \<Longrightarrow> 0 < n"
  by (cases j) auto

lemma nonempty_str_ok: "nonempty_str j why = Inr s \<Longrightarrow> s \<noteq> []"
  by (cases j) auto

lemma nonempty_list_ok: "nonempty_list j why = Inr xs \<Longrightarrow> xs \<noteq> []"
  by (cases j) auto

lemma parse_port_ok: "parse_port j = Inr p \<Longrightarrow> p = 80 \<or> p = 443"
  by (auto simp: parse_port_def split: option.splits)

lemma parse_protocol_ok: "parse_protocol j = Inr s \<Longrightarrow> s = ''http'' \<or> s = ''https''"
  by (cases j) (auto simp: protocol_port_def split: if_splits)

lemma map_r_set:
  assumes "map_r f xs = Inr ys" and "\<And>x y. f x = Inr y \<Longrightarrow> P y"
  shows "\<forall>y \<in> set ys. P y"
  using assms(1) by (induction xs arbitrary: ys) (auto simp: bind_r_Inr assms(2))

lemma map_r_Nil: "map_r f xs = Inr ys \<Longrightarrow> ys = [] \<longleftrightarrow> xs = []"
  by (cases xs) (auto simp: bind_r_Inr)

lemma validate_host_wf:
  assumes "validate_host env seen e = Inr h"
  shows "wf_policy_host h \<and> ph_host h \<notin> set seen"
proof -
  from assms obtain d host ports protocols raw1 raw2 where
    n: "normalize_hostname env (host_text (jget d ''host'')) = Inr host" "host \<notin> set seen" and
    ports: "raw1 \<noteq> []" "map_r parse_port raw1 = Inr ports" and
    protos: "raw2 \<noteq> []" "map_r parse_protocol raw2 = Inr protocols" and
    match: "\<forall>p \<in> set protocols. the (protocol_port p) \<in> set ports"
      "\<forall>n \<in> set ports. port_protocol n \<in> set protocols" and
    h: "h = \<lparr>ph_host = host, ph_ports = sort (remdups ports), ph_protocols = protocols\<rparr>"
    by (auto simp: validate_host_def bind_r_Inr split: json.splits dest!: nonempty_list_ok)
  have ps: "\<forall>p \<in> set ports. p = 80 \<or> p = 443" by (rule map_r_set [OF ports(2)]) (rule parse_port_ok)
  have qs: "\<forall>p \<in> set protocols. p = ''http'' \<or> p = ''https''"
    by (rule map_r_set [OF protos(2)]) (rule parse_protocol_ok)
  from ports protos have ne: "ports \<noteq> []" "protocols \<noteq> []" by (auto simp: map_r_Nil)
  then have "sort (remdups ports) \<noteq> []" by (metis remdups_eq_nil_iff set_empty set_sort)
  with n ne ps qs match h normalize_hostname_wf [OF n(1)] show ?thesis
    by (auto simp: wf_policy_host_def)
qed

lemma validate_hosts_wf:
  "validate_hosts env seen es = Inr hs \<Longrightarrow>
     list_all wf_policy_host hs \<and> distinct (map ph_host hs) \<and> ph_host ` set hs \<inter> set seen = {}"
proof (induction es arbitrary: seen hs)
  case (Cons e es)
  then obtain h hs' where "validate_host env seen e = Inr h"
    "validate_hosts env (ph_host h # seen) es = Inr hs'" "hs = h # hs'"
    by (auto simp: bind_r_Inr)
  with Cons.IH [of "ph_host h # seen" hs'] validate_host_wf [of env seen e h] show ?case by auto
qed auto

lemma validate_hosts_Nil: "validate_hosts env seen es = Inr hs \<Longrightarrow> hs = [] \<longleftrightarrow> es = []"
  by (cases es) (auto simp: bind_r_Inr)

lemma validate_hosts_ok:
  "validate_hosts env [] es = Inr hs \<Longrightarrow>
     list_all wf_policy_host hs \<and> distinct (map ph_host hs) \<and> (hs = [] \<longleftrightarrow> es = [])"
  using validate_hosts_wf [of env "[]" es hs] validate_hosts_Nil [of env "[]" es hs] by simp

text \<open>
  A document that passes validation is a well-formed policy that has not expired: canonical
  distinct host names, ports 80 and 443 only and matched with their protocols, positive limits. An
  OFFLINE document never passes: with hosts it contradicts itself, without hosts it is empty.
\<close>

lemma validated_policy_well_formed:
  assumes "validate_egress_policy env data now = Inr p"
  shows "wf_policy p \<and> now < pol_expires p"
  using assms
  by (cases data) (auto simp: validate_egress_policy_def Let_def bind_r_Inr wf_policy_def
      dest!: parse_limit_pos nonempty_str_ok validate_hosts_ok)

section \<open>A granted CONNECT\<close>

text \<open>
  C1. Soundness of the CONNECT decision, DNS rebinding included: a grant means the policy is in
  force, the port is the protocol's own, the canonical host is listed with that port and protocol
  (or the policy opted out of the host list), the resolver gave at least one address for exactly
  that canonical name, every address it gave at that moment is public, and the first is used.
\<close>

theorem granted_connect_is_sound:
  assumes "authorize_connect env p host port protocol resolver now = Inr (a, name)"
  shows "\<not> is_expired p now \<and> pol_capability p \<noteq> OFFLINE \<and> protocol_port protocol = Some port \<and>
    normalize_hostname env host = Inr name \<and>
    (pol_allow_all p \<or> (\<exists>h \<in> set (pol_hosts p). ph_host h = name \<and> port \<in> set (ph_ports h) \<and>
       protocol \<in> set (ph_protocols h))) \<and>
    resolver name \<noteq> [] \<and> a = hd (resolver name) \<and>
    (\<forall>b \<in> set (resolver name). classify_ip_address env b = ''public'')"
proof -
  from assms have basic: "\<not> is_expired p now" "pol_capability p \<noteq> OFFLINE"
    "protocol_port protocol = Some port"
    by (auto simp: authorize_connect_def)
  with assms obtain n where n: "normalize_hostname env host = Inr n"
    by (auto simp: authorize_connect_def split: sum.splits policy_exc.splits)
  with assms basic have rule: "pol_allow_all p \<or>
      (\<exists>h. find (\<lambda>h. ph_host h = n) (pol_hosts p) = Some h \<and> port \<in> set (ph_ports h) \<and>
        protocol \<in> set (ph_protocols h))"
    by (auto simp: authorize_connect_def Let_def split: if_splits option.splits)
  from n assms basic obtain cl where cl: "classify_all env (resolver n) = Inr cl"
    "a = fst (hd cl)" "name = n"
    by (auto simp: authorize_connect_def Let_def bind_r_Inr split: if_splits)
  from cl(1) have addr: "resolver n \<noteq> []"
    "\<forall>b \<in> set (resolver n). classify_ip_address env b = ''public''"
    "cl = map (\<lambda>a. (a, classify_ip_address env a)) (resolver n)"
    by (auto simp: classify_all_def Let_def filter_empty_conv)
  with cl(2) have "a = hd (resolver n)" by (simp add: hd_map)
  with basic n rule cl(3) addr show ?thesis by (auto simp: find_Some_iff)
qed


section \<open>Policies derived from approved hosts\<close>

definition agent_host :: "string \<Rightarrow> policy_host" where
  "agent_host n = \<lparr>ph_host = n, ph_ports = [443], ph_protocols = [''https'']\<rparr>"

lemma validate_agent_entry:
  assumes "normalize_hostname env n = Inr n" and "n \<notin> set seen"
  shows "validate_host env seen (agent_host_entry n) = Inr (agent_host n)"
proof -
  from assms(1) have "n \<noteq> []"
    by (auto simp: normalize_hostname_def drop_trailing_dot_def strip_def)
  with assms show ?thesis
    by (simp add: validate_host_def agent_host_entry_def jget_def jget_default_def dict_get_def
        host_text_def agent_host_def parse_port_def protocol_port_def port_protocol_def)
qed

lemma validate_agent_entries:
  "\<forall>n \<in> set ns. normalize_hostname env n = Inr n \<Longrightarrow> distinct ns \<Longrightarrow> set ns \<inter> set seen = {} \<Longrightarrow>
     validate_hosts env seen (map agent_host_entry ns) = Inr (map agent_host ns)"
proof (induction ns arbitrary: seen)
  case (Cons n ns)
  then have "validate_host env seen (agent_host_entry n) = Inr (agent_host n)"
    by (intro validate_agent_entry) auto
  moreover have "ph_host (agent_host n) = n" by (simp add: agent_host_def)
  ultimately show ?case using Cons by simp
qed simp

definition limit_ok :: "int option \<Rightarrow> bool" where
  "limit_ok v \<longleftrightarrow> (case v of None \<Rightarrow> True | Some i \<Rightarrow> 0 < i)"

lemma parse_limit_opt:
  "limit_ok v \<Longrightarrow> parse_limit why (case v of None \<Rightarrow> JNull | Some i \<Rightarrow> JInt i) = Inr v"
  by (cases v) (auto simp: limit_ok_def)

lemma agent_document_fields:
  fixes env ws hosts ttl all mr mb mc now
  defines "d \<equiv> agent_document env ws hosts ttl all mr mb mc now"
  shows "jget d ''workspace_id'' = JStr ws"
    "jget d ''approval_id'' = JStr ''agent_egress_authorization''"
    "jget d ''issuer'' = JStr ''agent_egress_authorization''"
    "jget_default d ''capability'' v = JStr ''RESTRICTED_EGRESS''"
    "jget d ''issued_at'' = JStr (iso_format env now)"
    "jget d ''expires_at'' = JStr (iso_format env (now + ttl))"
    "jget d ''hosts'' = JList (map agent_host_entry hosts)"
    "jget d ''max_requests'' = (case mr of None \<Rightarrow> JNull | Some i \<Rightarrow> JInt i)"
    "jget d ''max_bytes'' = (case mb of None \<Rightarrow> JNull | Some i \<Rightarrow> JInt i)"
    "jget d ''max_concurrency'' = (case mc of None \<Rightarrow> JNull | Some i \<Rightarrow> JInt i)"
    "(jget d ''allow_all_public'' = JBool True) = all"
  unfolding d_def agent_document_def jget_def jget_default_def dict_get_def opt_field_def
  by (auto split: option.split)

lemma restricted_capability:
  "normalize_network_capability (JStr ''RESTRICTED_EGRESS'') = Inr RESTRICTED_EGRESS"
  by code_simp

text \<open>What a derived policy is, when the derivation's own checks pass.\<close>

lemma derive_agent_policy:
  assumes iso: "\<forall>t. iso_parse env (iso_format env t) = Some t"
    and ws: "ws \<noteq> []" and ttl: "0 < ttl" "ttl \<le> agent_ttl_max"
    and names: "map_r (normalize_hostname env) allowed = Inr names"
    and fixed: "\<forall>n \<in> set names. normalize_hostname env n = Inr n"
    and some: "names \<noteq> [] \<or> all" and lims: "limit_ok mr" "limit_ok mb" "limit_ok mc"
  shows "\<exists>p. derive_egress_policy_for_agent env ws allowed ttl all mr mb mc now = Inr p \<and>
    pol_hosts p = map agent_host (fromkeys names) \<and> pol_allow_all p = all \<and>
    pol_capability p = RESTRICTED_EGRESS \<and> pol_expires p = now + ttl \<and> pol_issued p = now"
proof -
  let ?d = "agent_document env ws (fromkeys names) ttl all mr mb mc now"
  from fixed have "validate_hosts env [] (map agent_host_entry (fromkeys names)) =
      Inr (map agent_host (fromkeys names))"
    by (intro validate_agent_entries) simp_all
  with assms show ?thesis
    by (simp add: derive_egress_policy_for_agent_def Let_def validate_egress_policy_def
        agent_document_fields restricted_capability parse_limit_opt
        del: normalize_network_capability.simps)
qed

lemma find_agent_host:
  "find (\<lambda>h. ph_host h = n) (map agent_host ns) = (if n \<in> set ns then Some (agent_host n) else None)"
  by (induction ns) (auto simp: agent_host_def)

lemma classify_all_ok:
  "(\<exists>cl. classify_all env as = Inr cl) \<longleftrightarrow>
     as \<noteq> [] \<and> (\<forall>b \<in> set as. classify_ip_address env b = ''public'')"
  by (auto simp: classify_all_def Let_def filter_empty_conv)

text \<open>
  C2. A derived policy grants exactly the approved hosts. Take ASCII host names that normalize to
  \<open>names\<close>, a legal lifetime and limits: the derivation succeeds, and until it expires the CONNECT
  check grants HTTPS on 443 to precisely the hosts whose canonical form is one of \<open>names\<close> and that
  resolve to public addresses only; every other host, port, protocol or later time is refused.
\<close>

theorem derived_policy_grants_exactly_approved_hosts:
  assumes "\<forall>t. iso_parse env (iso_format env t) = Some t"
    and "ws \<noteq> []" and "0 < ttl" and "ttl \<le> agent_ttl_max"
    and "\<forall>h \<in> set allowed. list_all is_ascii h"
    and "map_r (normalize_hostname env) allowed = Inr names" and "names \<noteq> []"
    and "limit_ok mr" and "limit_ok mb" and "limit_ok mc"
  shows "\<exists>p. derive_egress_policy_for_agent env ws allowed ttl False mr mb mc now = Inr p \<and>
    (\<forall>host port protocol resolver t.
       (\<exists>r. authorize_connect env p host port protocol resolver t = Inr r) \<longleftrightarrow>
       t \<le> now + ttl \<and> port = 443 \<and> protocol = ''https'' \<and>
       (\<exists>n \<in> set names. normalize_hostname env host = Inr n \<and> resolver n \<noteq> [] \<and>
          (\<forall>b \<in> set (resolver n). classify_ip_address env b = ''public'')))"
proof -
  have fixed: "\<forall>n \<in> set names. normalize_hostname env n = Inr n"
  proof
    fix n assume "n \<in> set names"
    with assms(6) obtain h where "h \<in> set allowed" "normalize_hostname env h = Inr n"
      by (auto dest: map_r_origin)
    with assms(5) show "normalize_hostname env n = Inr n" by (auto intro: normalize_ascii_fixed)
  qed
  from derive_agent_policy [OF assms(1-4,6) fixed _ assms(8-10), of False now] assms(7)
  obtain p where p: "derive_egress_policy_for_agent env ws allowed ttl False mr mb mc now = Inr p"
    "pol_hosts p = map agent_host (fromkeys names)" "\<not> pol_allow_all p"
    "pol_capability p = RESTRICTED_EGRESS" "pol_expires p = now + ttl" by auto
  have "(\<exists>r. authorize_connect env p host port protocol resolver t = Inr r) \<longleftrightarrow>
       t \<le> now + ttl \<and> port = 443 \<and> protocol = ''https'' \<and>
       (\<exists>n \<in> set names. normalize_hostname env host = Inr n \<and> resolver n \<noteq> [] \<and>
          (\<forall>b \<in> set (resolver n). classify_ip_address env b = ''public''))"
    for host port protocol resolver t
  proof (cases "normalize_hostname env host")
    case (Inl e)
    then show ?thesis
      by (auto simp: authorize_connect_def split: policy_exc.splits)
  next
    case (Inr n)
    with classify_all_ok [of env "resolver n"] p show ?thesis
      by (auto simp: authorize_connect_def is_expired_def Let_def find_agent_host bind_r_Inr
          agent_host_def protocol_port_def split: if_splits)
  qed
  with p(1) show ?thesis by blast
qed


section \<open>Witnesses\<close>

definition example_document :: "(string \<times> json) list" where
  "example_document = agent_document plain_env ''ws1'' [''api.example.com''] 600 False
     (Some 2000) None (Some 8) 1000"

lemma plain_iso: "\<forall>t. iso_parse plain_env (iso_format plain_env t) = Some t"
  by (simp add: plain_env_def parse_int_show)

lemma example_validates:
  "\<exists>p. validate_egress_policy plain_env (JDict example_document) 1000 = Inr p \<and>
     pol_hosts p = [agent_host ''api.example.com''] \<and> pol_expires p = 1600 \<and>
     pol_capability p = RESTRICTED_EGRESS \<and> \<not> pol_allow_all p"
proof -
  have "\<forall>n \<in> set [''api.example.com'']. normalize_hostname plain_env n = Inr n"
    by (simp add: normalize_examples)
  then have "validate_hosts plain_env [] (map agent_host_entry [''api.example.com'']) =
      Inr (map agent_host [''api.example.com''])"
    by (rule validate_agent_entries) simp_all
  then show ?thesis
    using plain_iso
    by (simp add: example_document_def Let_def validate_egress_policy_def
        agent_document_fields restricted_capability limit_ok_def
        del: normalize_network_capability.simps validate_hosts.simps)
qed

lemma example_connect:
  assumes "pol_hosts p = [agent_host ''api.example.com'']" "pol_expires p = 1600"
    "pol_capability p = RESTRICTED_EGRESS" "\<not> pol_allow_all p"
  shows "authorize_connect plain_env p ''api.example.com'' 443 ''https''
    (\<lambda>_. [Some (V4 (quad 8 8 8 8))]) 1200 = Inr (Some (V4 (quad 8 8 8 8)), ''api.example.com'')"
  using assms
  by (simp add: authorize_connect_def is_expired_def normalize_examples agent_host_def
      protocol_port_def classify_all_def public_example)

theorem granted_connect_is_sound_witness:
  "\<exists>p. \<not> is_expired p 1200 \<and> (\<exists>h \<in> set (pol_hosts p). ph_host h = ''api.example.com'')"
  using example_validates granted_connect_is_sound [OF example_connect] by blast

theorem derived_policy_grants_exactly_approved_hosts_witness:
  "\<exists>p. derive_egress_policy_for_agent plain_env ''ws1'' ['' API.Example.com. ''] 600 False
     (Some 2000) None (Some 8) 1000 = Inr p"
proof -
  have asc: "\<forall>h \<in> set ['' API.Example.com. '']. list_all is_ascii h" by code_simp
  have m: "map_r (normalize_hostname plain_env) ['' API.Example.com. ''] = Inr [''api.example.com'']"
    by (simp add: normalize_examples)
  have ttl: "(0 :: int) < 600" "600 \<le> agent_ttl_max" by (simp_all add: agent_ttl_max_def)
  have lims: "limit_ok (Some 2000)" "limit_ok None" "limit_ok (Some 8)"
    by (simp_all add: limit_ok_def)
  have ne: "''ws1'' \<noteq> []" "[''api.example.com''] \<noteq> []" by simp_all
  show ?thesis
    by (rule exE [OF derived_policy_grants_exactly_approved_hosts
          [OF plain_iso ne(1) ttl asc m ne(2) lims, of 1000]])
      (rule exI, erule conjunct1)
qed

end
