(* ===== verification/Egress_Approvals.thy ===== *)
theory Egress_Approvals
  imports Network_Policy_Facts
begin

text \<open>
  The egress approval queue: \<open>backend/app/services/egress_approvals.py\<close>, class
  \<open>EgressApprovalService\<close>, with the two tables it writes (\<open>EgressAuthorizationRequest\<close> and
  \<open>HostAuthorizationGrant\<close>, rows of one workspace), the policy file slot of the workspace and the
  audit trail. Row ids are drawn from a counter; queries without an order read in insertion order.

  \<open>egress_cfg\<close> is what a service object is built with and what it reads from the workspace settings:
  the capability it serves, the unified allowlist (\<open>access_allow_all\<close>,
  \<open>access_allowlist_domains\<close>, \<open>sandbox_egress_allow_public\<close>) and the sandbox limits.
\<close>

section \<open>State\<close>

datatype decision = Allow_once | Allow_always | Deny

datatype req_status = Pending | Approved | Denied | Expired | Claimed | Consumed

record egress_request =
  er_id :: nat
  er_host :: string
  er_capability :: string
  er_requested_by :: string
  er_chat :: "string option"
  er_context :: "(string \<times> json) list"
  er_status :: req_status
  er_decision :: "decision option"
  er_allow_always :: bool
  er_decided_by :: "string option"
  er_decided_at :: "instant option"
  er_expires :: instant
  er_ttl :: int
  er_dedupe :: string
  er_claimed_by :: "string option"
  er_consumed_at :: "instant option"
  er_assistant_msg :: "string option"
  er_user_msg :: "string option"
  er_tool_call :: "string option"
  er_resume :: "(string \<times> json) list option"

record host_grant =
  hg_capability :: string
  hg_subject_type :: string
  hg_subject_id :: string
  hg_host :: string
  hg_source :: nat
  hg_granted_by :: string
  hg_granted_at :: instant
  hg_revoked :: "(instant \<times> string) option"

record egress_state =
  requests :: "egress_request list"
  grants :: "host_grant list"
  next_request :: nat
  policy_slot :: policy_file
  egress_audit :: "(string \<times> string \<times> nat \<times> string) list"

record egress_cfg =
  cfg_workspace :: string
  cfg_capability :: string
  cfg_allow_all :: bool
  cfg_allow_public :: bool
  cfg_allowlist :: "string list"
  cfg_workspace_ttl :: "int option"
  cfg_container_ttl :: "int option"
  cfg_max_requests :: int
  cfg_max_bytes :: int
  cfg_max_concurrency :: int

abbreviation agent_egress :: string where "agent_egress \<equiv> ''agent_egress''"

text \<open>\<open>_load\<close>: 404 when the request is not in this workspace.\<close>

definition load_request :: "nat \<Rightarrow> egress_state \<Rightarrow> egress_request result" where
  "load_request rid s = (case row_get er_id rid (requests s) of
      None \<Rightarrow> Inl (App_error 404 ''egress_authorization_not_found'')
    | Some r \<Rightarrow> Inr r)"

definition put_request :: "egress_request \<Rightarrow> egress_state \<Rightarrow> egress_state" where
  "put_request r s = s\<lparr>requests := row_mod er_id (er_id r) (\<lambda>_. r) (requests s)\<rparr>"

definition record_audit :: "string \<Rightarrow> string \<Rightarrow> nat \<Rightarrow> string \<Rightarrow> egress_state \<Rightarrow> egress_state" where
  "record_audit actor action rid outcome s =
     s\<lparr>egress_audit := egress_audit s @ [(actor, action, rid, outcome)]\<rparr>"

section \<open>Deriving the agent policy\<close>

definition active_grants :: "egress_cfg \<Rightarrow> egress_state \<Rightarrow> host_grant list" where
  "active_grants c s = filter (\<lambda>g. hg_capability g = agent_egress \<and> hg_subject_type g = ''workspace'' \<and>
     hg_subject_id g = cfg_workspace c \<and> hg_revoked g = None) (grants s)"

definition open_leases :: "egress_state \<Rightarrow> instant \<Rightarrow> egress_request list" where
  "open_leases s now = filter (\<lambda>r. er_capability r = agent_egress \<and> er_status r = Approved \<and>
     er_decision r = Some Allow_once \<and> er_consumed_at r = None \<and> \<not> er_expires r \<le> now) (requests s)"

text \<open>\<open>permissions\<close>: the document without its two timestamps.\<close>

definition permissions :: "egress_policy \<Rightarrow> (string \<times> json) list" where
  "permissions p = filter (\<lambda>kv. fst kv \<noteq> ''issued_at'' \<and> fst kv \<noteq> ''expires_at'') (pol_raw p)"

definition agent_issuer :: string where
  "agent_issuer = ''agent_egress_authorization''"

text \<open>A file of this service is removed when nothing is approved; any other file stays.\<close>

definition drop_derived_file :: "policy_file \<Rightarrow> policy_file" where
  "drop_derived_file f = (case f of
      Document (JDict d) \<Rightarrow> if jget d ''issuer'' = JStr agent_issuer then No_file else f
    | _ \<Rightarrow> f)"

text \<open>
  \<open>ensure_agent_egress_policy\<close>. The host set is a Python set; the model lists it in the order in
  which the code adds to it.
\<close>

definition ensure_agent_egress_policy ::
  "py_env \<Rightarrow> egress_cfg \<Rightarrow> instant \<Rightarrow> egress_state
     \<Rightarrow> policy_exc + egress_state \<times> egress_policy option" where
  "ensure_agent_egress_policy env c now s =
     bind_r (load_workspace_policy_file env (policy_slot s) now) (\<lambda>baseline.
       let reviewed = (case baseline of None \<Rightarrow> False | Some b \<Rightarrow> pol_issuer b \<noteq> agent_issuer);
           leases = open_leases s now;
           allow_all = (cfg_allow_all c \<or> cfg_allow_public c);
           hosts = fromkeys ((if reviewed then map ph_host (pol_hosts (the baseline)) else []) @
             map hg_host (active_grants c s) @ map er_host leases @
             (if allow_all then [] else cfg_allowlist c));
           expirations = (if reviewed then [pol_expires (the baseline)] else []) @ map er_expires leases
       in if hosts = [] \<and> \<not> allow_all
          then if reviewed then Inr (s, baseline)
               else Inr (s\<lparr>policy_slot := drop_derived_file (policy_slot s)\<rparr>, None)
          else
            let ttl0 = agent_egress_policy_ttl_seconds (cfg_workspace_ttl c) (cfg_container_ttl c);
                ttl = (if expirations = [] then ttl0
                       else max 60 (min ttl0 (Min (set expirations) - now)))
            in case derive_egress_policy_for_agent env (cfg_workspace c) hosts ttl allow_all
                      (Some (cfg_max_requests c)) (Some (cfg_max_bytes c))
                      (Some (max 1 (cfg_max_concurrency c))) now of
                 Inl (Egress_invalid why) \<Rightarrow> Inr (s, baseline)
               | Inl e \<Rightarrow> Inl e
               | Inr policy \<Rightarrow>
                   if baseline \<noteq> None \<and> pol_issuer (the baseline) = agent_issuer \<and>
                      pol_expires (the baseline) \<le> pol_expires policy \<and>
                      permissions (the baseline) = permissions policy
                   then Inr (s, baseline)
                   else Inr (s\<lparr>policy_slot := store_workspace_policy_file policy\<rparr>, Some policy))"

text \<open>
  The refresh after a decision: only for the agent capability, and an exception is logged and
  swallowed.
\<close>

definition refresh_policy :: "py_env \<Rightarrow> egress_cfg \<Rightarrow> instant \<Rightarrow> egress_state \<Rightarrow> egress_state" where
  "refresh_policy env c now s =
     (if cfg_capability c = agent_egress then
        (case ensure_agent_egress_policy env c now s of Inl e \<Rightarrow> s | Inr (s', _) \<Rightarrow> s')
      else s)"

text \<open>\<open>_upsert_workspace_grant\<close>: one row per capability, subject and host; a revoked row revives.\<close>

definition grant_key :: "host_grant \<Rightarrow> string \<times> string \<times> string \<times> string" where
  "grant_key g = (hg_capability g, hg_subject_type g, hg_subject_id g, hg_host g)"

definition upsert_workspace_grant ::
  "egress_cfg \<Rightarrow> egress_request \<Rightarrow> string \<Rightarrow> instant \<Rightarrow> egress_state \<Rightarrow> egress_state" where
  "upsert_workspace_grant c r granted_by now s =
     (let k = (er_capability r, ''workspace'', cfg_workspace c, er_host r) in
      case row_get grant_key k (grants s) of
        None \<Rightarrow> s\<lparr>grants := grants s @ [\<lparr>hg_capability = er_capability r,
          hg_subject_type = ''workspace'', hg_subject_id = cfg_workspace c, hg_host = er_host r,
          hg_source = er_id r, hg_granted_by = granted_by, hg_granted_at = now,
          hg_revoked = None\<rparr>]\<rparr>
      | Some _ \<Rightarrow> s\<lparr>grants := row_mod grant_key k (\<lambda>g. g\<lparr>hg_revoked := None, hg_source := er_id r,
          hg_granted_by := granted_by, hg_granted_at := now\<rparr>) (grants s)\<rparr>)"

section \<open>Requests\<close>

record create_args =
  ca_host :: string
  ca_by :: string
  ca_chat :: "string option"
  ca_purpose :: "string option"
  ca_context :: "(string \<times> json) list"
  ca_ttl :: json
  ca_dedupe :: "string option"
  ca_assistant_msg :: "string option"
  ca_user_msg :: "string option"
  ca_tool_call :: "string option"
  ca_resume :: "(string \<times> json) list option"

definition some_text :: "string option \<Rightarrow> bool" where
  "some_text v \<longleftrightarrow> (case v of None \<Rightarrow> False | Some s \<Rightarrow> s \<noteq> [])"

text \<open>A time to live that is no int (a bool is not one) or out of range falls back to 900.\<close>

definition request_ttl :: "json \<Rightarrow> int" where
  "request_ttl j = (case j of JInt i \<Rightarrow> if 0 < i \<and> i \<le> 86400 then i else 900 | _ \<Rightarrow> 900)"

definition request_source :: "create_args \<Rightarrow> string" where
  "request_source a = (case ca_dedupe a of Some d \<Rightarrow> d
     | None \<Rightarrow> (case ca_chat a of Some ch \<Rightarrow> ch | None \<Rightarrow> []))"

definition find_pending :: "string \<Rightarrow> string \<Rightarrow> string \<Rightarrow> egress_state \<Rightarrow> egress_request option" where
  "find_pending cap host source s =
     find (\<lambda>r. er_capability r = cap \<and> er_host r = host \<and> er_dedupe r = source \<and>
       er_status r = Pending) (requests s)"

text \<open>A reused pending row gets the correlation fields it lacks.\<close>

definition keep_or :: "string option \<Rightarrow> string option \<Rightarrow> string option" where
  "keep_or new old = (if some_text new \<and> \<not> some_text old then new else old)"

definition backfill :: "create_args \<Rightarrow> egress_request \<Rightarrow> egress_request" where
  "backfill a r = r\<lparr>er_assistant_msg := keep_or (ca_assistant_msg a) (er_assistant_msg r),
     er_user_msg := keep_or (ca_user_msg a) (er_user_msg r),
     er_tool_call := keep_or (ca_tool_call a) (er_tool_call r),
     er_resume := (if ca_resume a \<notin> {None, Some []} \<and> er_resume r \<in> {None, Some []}
       then ca_resume a else er_resume r)\<rparr>"

definition request_context :: "create_args \<Rightarrow> (string \<times> json) list" where
  "request_context a = (if some_text (ca_purpose a) \<and> map_of (ca_context a) ''purpose'' = None
     then ca_context a @ [(''purpose'', JStr (the (ca_purpose a)))] else ca_context a)"

definition new_request ::
  "egress_cfg \<Rightarrow> create_args \<Rightarrow> string \<Rightarrow> instant \<Rightarrow> nat \<Rightarrow> egress_request" where
  "new_request c a host now rid =
     \<lparr>er_id = rid, er_host = host, er_capability = cfg_capability c, er_requested_by = ca_by a,
      er_chat = ca_chat a, er_context = request_context a, er_status = Pending, er_decision = None,
      er_allow_always = False, er_decided_by = None, er_decided_at = None,
      er_expires = now + request_ttl (ca_ttl a), er_ttl = request_ttl (ca_ttl a),
      er_dedupe = request_source a, er_claimed_by = None, er_consumed_at = None,
      er_assistant_msg = ca_assistant_msg a, er_user_msg = ca_user_msg a,
      er_tool_call = ca_tool_call a, er_resume = ca_resume a\<rparr>"

definition add_request :: "egress_request \<Rightarrow> egress_state \<Rightarrow> egress_state" where
  "add_request r s = s\<lparr>requests := requests s @ [r], next_request := Suc (next_request s)\<rparr>"

text \<open>\<open>_auto_allowable\<close> and \<open>_auto_approve\<close>\<close>

definition auto_allowable :: "egress_cfg \<Rightarrow> string \<Rightarrow> bool" where
  "auto_allowable c host \<longleftrightarrow> cfg_allow_all c \<or> host \<in> set (cfg_allowlist c)"

definition auto_approve ::
  "py_env \<Rightarrow> egress_cfg \<Rightarrow> create_args \<Rightarrow> string \<Rightarrow> instant \<Rightarrow> egress_state
     \<Rightarrow> egress_state \<times> egress_request" where
  "auto_approve env c a host now s =
     (let r = (new_request c a host now (next_request s))\<lparr>er_status := Approved,
            er_decision := Some Allow_always, er_allow_always := True,
            er_decided_by := Some ''system:allowlist'', er_decided_at := Some now\<rparr>;
          s1 = upsert_workspace_grant c r ''system:allowlist'' now (add_request r s);
          s2 = record_audit (ca_by a) ''agent_egress.authorization_auto_approved'' (er_id r)
            ''approved'' s1
      in (refresh_policy env c now s2, r))"

text \<open>
  \<open>create_request\<close>. The partial unique index on pending rows covers workspace, host and source but
  not the capability, so a pending row of the other capability makes the insert fail.
\<close>

definition create_request ::
  "py_env \<Rightarrow> egress_cfg \<Rightarrow> create_args \<Rightarrow> instant \<Rightarrow> egress_state
     \<Rightarrow> (egress_state \<times> egress_request) result" where
  "create_request env c a now s =
     (case normalize_hostname env (ca_host a) of
        Inl e \<Rightarrow> Inl (App_error 422 ''egress_authorization_hostname_invalid'')
      | Inr canonical \<Rightarrow>
          (case find_pending (cfg_capability c) canonical (request_source a) s of
             Some r \<Rightarrow> let r' = backfill a r in Inr (put_request r' s, r')
           | None \<Rightarrow>
               if auto_allowable c canonical then Inr (auto_approve env c a canonical now s)
               else if \<exists>r \<in> set (requests s). er_host r = canonical \<and>
                 er_dedupe r = request_source a \<and> er_status r = Pending
               then Inl (Python_error ''IntegrityError'')
               else let r = new_request c a canonical now (next_request s) in
                 Inr (record_audit (ca_by a) ''agent_egress.authorization_requested'' (er_id r)
                   ''pending'' (add_request r s), r)))"

section \<open>Decisions and leases\<close>

definition parse_decision :: "string \<Rightarrow> decision option" where
  "parse_decision d = (if d = ''allow_once'' then Some Allow_once
     else if d = ''allow_always'' then Some Allow_always
     else if d = ''deny'' then Some Deny else None)"

text \<open>The decision itself, once every check has passed.\<close>

definition apply_decision ::
  "py_env \<Rightarrow> egress_cfg \<Rightarrow> egress_request \<Rightarrow> decision \<Rightarrow> string \<Rightarrow> instant \<Rightarrow> egress_state
     \<Rightarrow> egress_state \<times> egress_request" where
  "apply_decision env c r d actor now s =
     (let r' = r\<lparr>er_decision := Some d, er_allow_always := (d = Allow_always),
            er_status := (if d \<noteq> Deny then Approved else Denied),
            er_decided_by := Some actor, er_decided_at := Some now\<rparr>;
          s1 = put_request r' s;
          s2 = (if d = Allow_always then upsert_workspace_grant c r' actor now s1 else s1);
          s3 = record_audit actor ''agent_egress.authorization_decided'' (er_id r)
            (if d \<noteq> Deny then ''approved'' else ''denied'') s2
      in (refresh_policy env c now s3, r'))"

definition decide ::
  "py_env \<Rightarrow> egress_cfg \<Rightarrow> nat \<Rightarrow> string \<Rightarrow> string \<Rightarrow> bool \<Rightarrow> instant \<Rightarrow> egress_state
     \<Rightarrow> (egress_state \<times> egress_request) result" where
  "decide env c rid decision actor is_manager now s =
     bind_r (load_request rid s) (\<lambda>r.
       if er_status r \<noteq> Pending then Inr (s, r)
       else (case parse_decision decision of
           None \<Rightarrow> Inl (App_error 422 ''egress_authorization_decision_invalid'')
         | Some d \<Rightarrow>
             require (actor = er_requested_by r \<or> is_manager)
               (App_error 403 ''egress_authorization_not_decider'')
             (require (\<not> (d = Allow_always \<and> \<not> is_manager))
               (App_error 403 ''egress_authorization_require_manage'')
             (if er_expires r \<le> now
              then let r' = r\<lparr>er_status := Expired\<rparr> in Inr (put_request r' s, r')
              else Inr (apply_decision env c r d actor now s)))))"

text \<open>\<open>expire_stale\<close>: one UPDATE; the result is its row count.\<close>

definition stale_pending :: "instant \<Rightarrow> egress_request \<Rightarrow> bool" where
  "stale_pending now r \<longleftrightarrow> er_status r = Pending \<and> er_expires r \<le> now"

definition expire_stale :: "instant \<Rightarrow> egress_state \<Rightarrow> egress_state \<times> nat" where
  "expire_stale now s =
     (s\<lparr>requests := map (\<lambda>r. if stale_pending now r then r\<lparr>er_status := Expired\<rparr> else r) (requests s)\<rparr>,
      length (filter (stale_pending now) (requests s)))"

text \<open>
  \<open>list_requests\<close>: newest first, one page and the total.
\<close>

definition list_requests ::
  "string \<Rightarrow> bool \<Rightarrow> req_status option \<Rightarrow> string option \<Rightarrow> nat \<Rightarrow> nat \<Rightarrow> instant \<Rightarrow> egress_state
     \<Rightarrow> egress_state \<times> egress_request list \<times> nat" where
  "list_requests actor is_manager status requested_by offset limit now s =
     (let s' = fst (expire_stale now s);
          rows = filter (\<lambda>r. (is_manager \<or> er_requested_by r = actor) \<and>
            (some_text requested_by \<longrightarrow> er_requested_by r = the requested_by) \<and>
            (status \<noteq> None \<longrightarrow> er_status r = the status)) (requests s')
      in (s', take limit (drop offset (rev rows)), length rows))"

definition claimable :: "instant \<Rightarrow> egress_request \<Rightarrow> bool" where
  "claimable now r \<longleftrightarrow> er_status r = Approved \<and> er_decision r = Some Allow_once \<and>
     er_consumed_at r = None \<and> er_expires r > now"

text \<open>\<open>claim_once\<close>: the conditional UPDATE decides; the loser gets \<open>None\<close>.\<close>

definition claim_once ::
  "nat \<Rightarrow> string \<Rightarrow> instant \<Rightarrow> egress_state \<Rightarrow> (egress_state \<times> egress_request option) result" where
  "claim_once rid actor now s =
     bind_r (load_request rid s) (\<lambda>r.
       if claimable now r then
         let r' = r\<lparr>er_status := Claimed, er_claimed_by := Some actor, er_consumed_at := Some now\<rparr>
         in Inr (record_audit actor ''agent_egress.authorization_claimed'' rid ''claimed''
              (put_request r' s), Some r')
       else if er_status r = Approved \<and> er_expires r \<le> now
       then Inr (put_request (r\<lparr>er_status := Expired\<rparr>) s, None)
       else Inr (s, None))"

definition release_once :: "nat \<Rightarrow> egress_state \<Rightarrow> (egress_state \<times> egress_request) result" where
  "release_once rid s =
     bind_r (load_request rid s) (\<lambda>r.
       if er_status r = Claimed \<and> er_decision r = Some Allow_once then
         let r' = r\<lparr>er_status := Approved, er_claimed_by := None, er_consumed_at := None\<rparr>
         in Inr (record_audit (er_requested_by r) ''agent_egress.authorization_released'' rid
              ''approved'' (put_request r' s), r')
       else Inr (s, r))"

definition consume_once ::
  "py_env \<Rightarrow> egress_cfg \<Rightarrow> nat \<Rightarrow> instant \<Rightarrow> instant \<Rightarrow> egress_state
     \<Rightarrow> (egress_state \<times> egress_request) result" where
  "consume_once env c rid now clock s =
     bind_r (load_request rid s) (\<lambda>r.
       if er_decision r \<noteq> Some Allow_once then Inr (s, r)
       else if er_status r = Consumed then Inr (s, r)
       else
         let r' = r\<lparr>er_status := Consumed,
               er_consumed_at := (case er_consumed_at r of Some t \<Rightarrow> Some t | None \<Rightarrow> Some now)\<rparr>;
             s1 = record_audit (er_requested_by r) ''agent_egress.authorization_consumed'' rid
               ''consumed'' (put_request r' s)
         in Inr (refresh_policy env c clock s1, r'))"

text \<open>\<open>effective_allowed_hosts\<close>\<close>

definition effective_allowed_hosts :: "egress_cfg \<Rightarrow> string option \<Rightarrow> egress_state \<Rightarrow> string set" where
  "effective_allowed_hosts c actor s =
     set (map hg_host (filter (\<lambda>g. hg_capability g = cfg_capability c \<and> hg_revoked g = None \<and>
        (hg_subject_type g = ''workspace'' \<or>
         (hg_subject_type g = ''user'' \<and> actor = Some (hg_subject_id g)))) (grants s)))"

end
