(* ===== verification/Egress_Facts.thy ===== *)
theory Egress_Facts
  imports Egress_Approvals
begin

text \<open>
  What the approval queue keeps true over every run: canonical hosts only, coherent life cycles,
  one pending row per host and source, one grant row per key; who can create a grant; and that a
  lease is used by one execution.
\<close>

section \<open>Frames\<close>

lemma ensure_frame:
  assumes "ensure_agent_egress_policy env c now s = Inr (s', p)"
  shows "\<exists>f. s' = s\<lparr>policy_slot := f\<rparr>"
proof -
  from assms have "s' = s \<or> (\<exists>f. s' = s\<lparr>policy_slot := f\<rparr>)"
    unfolding ensure_agent_egress_policy_def
    by (auto simp: bind_r_Inr Let_def split: if_splits sum.splits policy_exc.splits)
  then show ?thesis by (metis egress_state.surjective egress_state.update_convs(4))
qed

lemma refresh_frame: "\<exists>f. refresh_policy env c now s = s\<lparr>policy_slot := f\<rparr>"
proof (cases "ensure_agent_egress_policy env c now s")
  case (Inl e)
  then have "refresh_policy env c now s = s\<lparr>policy_slot := policy_slot s\<rparr>"
    by (simp add: refresh_policy_def)
  then show ?thesis by blast
next
  case (Inr x)
  obtain s' p where x: "x = (s', p)" by (cases x)
  with Inr obtain f where "s' = s\<lparr>policy_slot := f\<rparr>" using ensure_frame by blast
  moreover have "s = s\<lparr>policy_slot := policy_slot s\<rparr>" by simp
  ultimately show ?thesis using Inr x by (cases "cfg_capability c = agent_egress")
    (auto simp: refresh_policy_def intro: exI [of _ "policy_slot s"])
qed

lemma refresh_simps [simp]:
  "requests (refresh_policy env c now s) = requests s"
  "grants (refresh_policy env c now s) = grants s"
  "next_request (refresh_policy env c now s) = next_request s"
  "egress_audit (refresh_policy env c now s) = egress_audit s"
  using refresh_frame [of env c now s] by auto

lemma audit_simps [simp]:
  "requests (record_audit a b i q s) = requests s" "grants (record_audit a b i q s) = grants s"
  "next_request (record_audit a b i q s) = next_request s"
  by (simp_all add: record_audit_def)

lemma upsert_simps [simp]:
  "requests (upsert_workspace_grant c r by now s) = requests s"
  "next_request (upsert_workspace_grant c r by now s) = next_request s"
  by (auto simp: upsert_workspace_grant_def Let_def split: option.splits)

lemma put_request_simps [simp]:
  "requests (put_request r s) = row_mod er_id (er_id r) (\<lambda>_. r) (requests s)"
  "grants (put_request r s) = grants s" "next_request (put_request r s) = next_request s"
  by (simp_all add: put_request_def)

lemma add_request_simps [simp]:
  "requests (add_request r s) = requests s @ [r]" "grants (add_request r s) = grants s"
  "next_request (add_request r s) = Suc (next_request s)"
  by (simp_all add: add_request_def)

section \<open>The invariant\<close>

text \<open>Status, decision and lease fields agree.\<close>

definition coherent :: "egress_request \<Rightarrow> bool" where
  "coherent r \<longleftrightarrow>
     (er_allow_always r \<longleftrightarrow> er_decision r = Some Allow_always) \<and>
     (er_status r = Pending \<longrightarrow>
        er_decision r = None \<and> er_consumed_at r = None \<and> er_claimed_by r = None) \<and>
     (er_status r = Approved \<longrightarrow> er_decision r \<in> {Some Allow_once, Some Allow_always} \<and>
        er_consumed_at r = None \<and> er_claimed_by r = None) \<and>
     (er_status r = Denied \<longrightarrow> er_decision r = Some Deny) \<and>
     (er_status r = Expired \<longrightarrow>
        er_decision r \<noteq> Some Deny \<and> er_consumed_at r = None \<and> er_claimed_by r = None) \<and>
     (er_status r = Claimed \<longrightarrow>
        er_decision r = Some Allow_once \<and> er_consumed_at r \<noteq> None \<and> er_claimed_by r \<noteq> None) \<and>
     (er_status r = Consumed \<longrightarrow> er_decision r = Some Allow_once \<and> er_consumed_at r \<noteq> None)"

definition req_ok :: "egress_request \<Rightarrow> bool" where
  "req_ok r \<longleftrightarrow> wf_host_name (er_host r) \<and> coherent r"

definition pending_key :: "egress_request \<Rightarrow> string \<times> string" where
  "pending_key r = (er_host r, er_dedupe r)"

text \<open>The partial unique index.\<close>

definition pending_unique :: "egress_request list \<Rightarrow> bool" where
  "pending_unique rs \<longleftrightarrow> distinct (map pending_key (filter (\<lambda>r. er_status r = Pending) rs))"

definition egress_inv :: "egress_state \<Rightarrow> bool" where
  "egress_inv s \<longleftrightarrow>
     distinct (map er_id (requests s)) \<and> (\<forall>r \<in> set (requests s). er_id r < next_request s) \<and>
     list_all req_ok (requests s) \<and> pending_unique (requests s) \<and>
     distinct (map grant_key (grants s)) \<and> (\<forall>g \<in> set (grants s). wf_host_name (hg_host g))"

lemma load_request_Inr:
  "load_request rid s = Inr r \<Longrightarrow> r \<in> set (requests s) \<and> er_id r = rid"
  by (auto simp: load_request_def dest: row_get_SomeD split: option.splits)

text \<open>Replacing a row by one that is no longer, or equally, pending keeps the index.\<close>

lemma pending_unique_mod:
  assumes "pending_unique rs"
    and "\<And>r. r \<in> set rs \<Longrightarrow> er_id r = i \<Longrightarrow>
      er_status (f r) = Pending \<Longrightarrow> er_status r = Pending \<and> pending_key (f r) = pending_key r"
  shows "pending_unique (row_mod er_id i f rs)"
  using assms
proof (induction rs)
  case (Cons q qs)
  have sub: "pending_key ` {r \<in> set (row_mod er_id i f qs). er_status r = Pending} \<subseteq>
      pending_key ` {r \<in> set qs. er_status r = Pending}"
  proof
    fix k assume "k \<in> pending_key ` {r \<in> set (row_mod er_id i f qs). er_status r = Pending}"
    then obtain r where r: "r \<in> set (row_mod er_id i f qs)" "er_status r = Pending" "k = pending_key r"
      by blast
    then obtain r0 where r0: "r0 \<in> set qs" "r = (if er_id r0 = i then f r0 else r0)"
      by (auto dest!: set_row_mod)
    with r Cons.prems(2) [of r0] have "er_status r0 = Pending \<and> pending_key r0 = k"
      by (cases "er_id r0 = i") auto
    with r0(1) show "k \<in> pending_key ` {r \<in> set qs. er_status r = Pending}" by blast
  qed
  have IH: "pending_unique (row_mod er_id i f qs)"
  proof (rule Cons.IH)
    show "pending_unique qs" using Cons.prems(1) by (simp add: pending_unique_def split: if_splits)
  qed (rule Cons.prems(2), auto)
  define q' where "q' = (if er_id q = i then f q else q)"
  have q': "er_status q' = Pending \<Longrightarrow> er_status q = Pending \<and> pending_key q' = pending_key q"
    using Cons.prems(2) [of q] by (auto simp: q'_def)
  have "pending_unique (q' # row_mod er_id i f qs)"
  proof (cases "er_status q' = Pending")
    case True
    with q' Cons.prems(1) have "pending_key q' \<notin> pending_key ` {r \<in> set qs. er_status r = Pending}"
      by (simp add: pending_unique_def)
    with sub IH True show ?thesis by (auto simp: pending_unique_def)
  next
    case False
    with IH show ?thesis by (simp add: pending_unique_def)
  qed
  then show ?case by (simp add: q'_def)
qed (simp add: pending_unique_def)

lemma inv_put_request:
  assumes inv: "egress_inv s" and r: "load_request rid s = Inr r"
    and r': "er_id r' = er_id r" "req_ok r'"
    and pend: "er_status r' = Pending \<Longrightarrow> er_status r = Pending \<and> pending_key r' = pending_key r"
  shows "egress_inv (put_request r' s)"
proof -
  from load_request_Inr [OF r] have mem: "r \<in> set (requests s)" "er_id r = rid" by auto
  from inv have dist: "distinct (map er_id (requests s))" by (simp add: egress_inv_def)
  have only: "q = r" if "q \<in> set (requests s)" "er_id q = er_id r" for q
    using that mem(1) dist by (auto simp: distinct_map dest: inj_onD)
  have ids: "map er_id (row_mod er_id (er_id r') (\<lambda>_. r') (requests s)) = map er_id (requests s)"
    by (rule row_mod_keys) simp
  have "pending_unique (row_mod er_id (er_id r') (\<lambda>_. r') (requests s))"
    using inv pend only r'(1) by (intro pending_unique_mod) (auto simp: egress_inv_def)
  moreover have "\<forall>q \<in> set (row_mod er_id (er_id r') (\<lambda>_. r') (requests s)).
      er_id q < next_request s \<and> req_ok q"
    using inv r' mem by (auto simp: egress_inv_def list_all_iff dest!: set_row_mod)
  ultimately show ?thesis
    using inv ids by (auto simp: egress_inv_def list_all_iff)
qed

lemma inv_refresh [simp]: "egress_inv (refresh_policy env c now s) = egress_inv s"
  by (simp add: egress_inv_def)

lemma inv_audit [simp]: "egress_inv (record_audit a b i q s) = egress_inv s"
  by (simp add: egress_inv_def)

lemma upsert_new:
  "row_get grant_key (er_capability r, ''workspace'', cfg_workspace c, er_host r) (grants s) = None \<Longrightarrow>
     grants (upsert_workspace_grant c r by now s) = grants s @ [\<lparr>hg_capability = er_capability r,
          hg_subject_type = ''workspace'', hg_subject_id = cfg_workspace c, hg_host = er_host r,
          hg_source = er_id r, hg_granted_by = by, hg_granted_at = now, hg_revoked = None\<rparr>]"
  by (simp add: upsert_workspace_grant_def)

lemma upsert_old:
  "row_get grant_key (er_capability r, ''workspace'', cfg_workspace c, er_host r) (grants s) = Some g \<Longrightarrow>
     grants (upsert_workspace_grant c r by now s) =
       row_mod grant_key (er_capability r, ''workspace'', cfg_workspace c, er_host r)
         (\<lambda>g. g\<lparr>hg_revoked := None, hg_source := er_id r, hg_granted_by := by, hg_granted_at := now\<rparr>)
         (grants s)"
  by (simp add: upsert_workspace_grant_def)

lemma inv_upsert:
  assumes "egress_inv s" and "wf_host_name (er_host r)"
  shows "egress_inv (upsert_workspace_grant c r by now s)"
proof (cases "row_get grant_key (er_capability r, ''workspace'', cfg_workspace c, er_host r) (grants s)")
  case None
  from upsert_new [OF this] None assms show ?thesis
    by (auto simp: egress_inv_def row_get_None_iff grant_key_def)
next
  case (Some g)
  have "map grant_key (row_mod grant_key k (\<lambda>g. g\<lparr>hg_revoked := None, hg_source := er_id r,
      hg_granted_by := by, hg_granted_at := now\<rparr>) (grants s)) = map grant_key (grants s)" for k
    by (rule row_mod_keys) (simp add: grant_key_def)
  with upsert_old [OF Some] assms show ?thesis
    by (auto simp: egress_inv_def dest!: set_row_mod)
qed

lemma inv_add_request:
  assumes "egress_inv s" and "er_id r = next_request s" and "req_ok r"
    and "er_status r = Pending \<Longrightarrow>
      \<not> (\<exists>q \<in> set (requests s). er_host q = er_host r \<and> er_dedupe q = er_dedupe r \<and> er_status q = Pending)"
  shows "egress_inv (add_request r s)"
  using assms
  by (force simp: egress_inv_def list_all_iff pending_unique_def pending_key_def)


section \<open>Every operation keeps the invariant\<close>

lemma inv_has_ok: "egress_inv s \<Longrightarrow> load_request rid s = Inr r \<Longrightarrow> req_ok r"
  by (auto simp: egress_inv_def list_all_iff dest: load_request_Inr)

lemma find_pending_Some:
  "find_pending cap host source s = Some r \<Longrightarrow>
     r \<in> set (requests s) \<and> er_capability r = cap \<and> er_host r = host \<and> er_dedupe r = source \<and>
     er_status r = Pending"
  by (auto simp: find_pending_def find_Some_iff)

lemma find_pending_None:
  "find_pending cap host source s = None \<longleftrightarrow>
     (\<forall>r \<in> set (requests s). \<not> (er_capability r = cap \<and> er_host r = host \<and> er_dedupe r = source \<and>
       er_status r = Pending))"
  by (auto simp: find_pending_def find_None_iff)

lemma load_of_member:
  assumes "egress_inv s" and "r \<in> set (requests s)"
  shows "load_request (er_id r) s = Inr r"
  using assms row_get_distinct [of er_id "requests s" r]
  by (simp add: egress_inv_def load_request_def)

lemma backfill_simps [simp]:
  "er_id (backfill a r) = er_id r" "er_host (backfill a r) = er_host r"
  "er_status (backfill a r) = er_status r" "er_dedupe (backfill a r) = er_dedupe r"
  "er_capability (backfill a r) = er_capability r"
  "req_ok (backfill a r) = req_ok r"
  by (simp_all add: backfill_def req_ok_def coherent_def)

lemma new_request_ok:
  "wf_host_name host \<Longrightarrow> req_ok (new_request c a host now rid)"
  by (simp add: req_ok_def coherent_def new_request_def)

lemma create_request_inv:
  assumes inv: "egress_inv s" and ok: "create_request env c a now s = Inr (s', r)"
  shows "egress_inv s'"
proof -
  from ok obtain host where host: "normalize_hostname env (ca_host a) = Inr host"
    by (auto simp: create_request_def split: sum.splits)
  then have wf: "wf_host_name host" by (rule normalize_hostname_wf)
  show ?thesis
  proof (cases "find_pending (cfg_capability c) host (request_source a) s")
    case (Some q)
    with ok host have s': "s' = put_request (backfill a q) s"
      by (auto simp: create_request_def Let_def)
    from find_pending_Some [OF Some] have q: "load_request (er_id q) s = Inr q"
      using load_of_member [OF inv] by blast
    from inv_has_ok [OF inv q] show ?thesis
      unfolding s' by (intro inv_put_request [OF inv q]) (auto simp: pending_key_def)
  next
    case None
    show ?thesis
    proof (cases "auto_allowable c host")
      case True
      let ?q = "(new_request c a host now (next_request s))\<lparr>er_status := Approved,
            er_decision := Some Allow_always, er_allow_always := True,
            er_decided_by := Some ''system:allowlist'', er_decided_at := Some now\<rparr>"
      have "egress_inv (add_request ?q s)"
        using wf by (intro inv_add_request [OF inv])
          (auto simp: new_request_def req_ok_def coherent_def)
      moreover have "wf_host_name (er_host ?q)" using wf by (simp add: new_request_def)
      ultimately have "egress_inv (upsert_workspace_grant c ?q ''system:allowlist'' now (add_request ?q s))"
        by (rule inv_upsert)
      with True None ok host show ?thesis
        by (auto simp: create_request_def auto_approve_def Let_def)
    next
      case False
      with None ok host have free: "\<not> (\<exists>q \<in> set (requests s). er_host q = host \<and>
          er_dedupe q = request_source a \<and> er_status q = Pending)"
        and s': "s' = record_audit (ca_by a) ''agent_egress.authorization_requested''
          (er_id (new_request c a host now (next_request s))) ''pending''
          (add_request (new_request c a host now (next_request s)) s)"
        by (auto simp: create_request_def Let_def split: if_splits)
      have "egress_inv (add_request (new_request c a host now (next_request s)) s)"
        using wf free by (intro inv_add_request [OF inv])
          (auto simp: new_request_def req_ok_def coherent_def)
      then show ?thesis unfolding s' by simp
    qed
  qed
qed

lemma apply_decision_inv:
  assumes "egress_inv s" and "load_request rid s = Inr r" and "er_status r = Pending"
  shows "egress_inv (fst (apply_decision env c r d actor now s))"
proof -
  let ?r = "r\<lparr>er_decision := Some d, er_allow_always := (d = Allow_always),
            er_status := (if d \<noteq> Deny then Approved else Denied),
            er_decided_by := Some actor, er_decided_at := Some now\<rparr>"
  from inv_has_ok [OF assms(1,2)] assms(3) have ok: "req_ok ?r"
    by (cases d) (auto simp: req_ok_def coherent_def)
  then have "egress_inv (put_request ?r s)"
    by (intro inv_put_request [OF assms(1,2)]) (auto split: if_splits)
  moreover have "wf_host_name (er_host ?r)" using ok by (simp add: req_ok_def)
  ultimately show ?thesis by (auto simp: apply_decision_def Let_def intro: inv_upsert)
qed

lemma decide_inv:
  assumes inv: "egress_inv s" and ok: "decide env c rid d actor m now s = Inr (s', r')"
  shows "egress_inv s'"
proof -
  from ok obtain r where r: "load_request rid s = Inr r" by (auto simp: decide_def bind_r_Inr)
  show ?thesis
  proof (cases "er_status r = Pending")
    case False
    with ok r inv show ?thesis by (auto simp: decide_def)
  next
    case True
    have "egress_inv (put_request (r\<lparr>er_status := Expired\<rparr>) s)"
      using inv_has_ok [OF inv r] True
      by (intro inv_put_request [OF inv r]) (auto simp: req_ok_def coherent_def)
    moreover have "egress_inv (fst (apply_decision env c r x actor now s))" for x
      by (rule apply_decision_inv [OF inv r True])
    ultimately show ?thesis
      using ok r True by (auto simp: decide_def Let_def split: option.splits if_splits) (metis fst_conv)+
  qed
qed

lemma expire_stale_inv:
  assumes "egress_inv s"
  shows "egress_inv (fst (expire_stale now s))"
proof -
  let ?f = "\<lambda>r. if stale_pending now r then r\<lparr>er_status := Expired\<rparr> else r"
  have ids: "map er_id (map ?f rs) = map er_id rs" for rs by (induction rs) auto
  have ok: "stale_pending now r \<Longrightarrow> req_ok r \<Longrightarrow> req_ok (r\<lparr>er_status := Expired\<rparr>)" for r
    by (auto simp: req_ok_def coherent_def stale_pending_def)
  have sub: "pending_key ` {r \<in> ?f ` set rs. er_status r = Pending} \<subseteq>
      pending_key ` {r \<in> set rs. er_status r = Pending}" for rs
    by (auto simp: stale_pending_def)
  have uniq: "pending_unique rs \<Longrightarrow> pending_unique (map ?f rs)" for rs
  proof (induction rs)
    case (Cons r rs)
    then have "pending_unique (map ?f rs)" by (auto simp: pending_unique_def split: if_splits)
    with Cons.prems sub [of rs] show ?case
      by (cases "stale_pending now r") (auto simp: pending_unique_def)
  qed (simp add: pending_unique_def)
  from assms have "distinct (map er_id (map ?f (requests s)))"
    by (simp only: ids egress_inv_def)
  moreover have "\<forall>r \<in> set (map ?f (requests s)). er_id r < next_request s \<and> req_ok r"
    using assms ok by (auto simp: egress_inv_def list_all_iff)
  ultimately show ?thesis
    using assms uniq [of "requests s"]
    by (simp add: expire_stale_def egress_inv_def list_all_iff del: map_map)
qed

lemma claim_once_inv:
  assumes inv: "egress_inv s" and ok: "claim_once rid actor now s = Inr (s', q)"
  shows "egress_inv s'"
proof -
  from ok obtain r where r: "load_request rid s = Inr r" by (auto simp: claim_once_def bind_r_Inr)
  note rok = inv_has_ok [OF inv r]
  have "claimable now r \<Longrightarrow> egress_inv (put_request (r\<lparr>er_status := Claimed,
      er_claimed_by := Some actor, er_consumed_at := Some now\<rparr>) s)"
    using rok by (intro inv_put_request [OF inv r])
      (auto simp: req_ok_def coherent_def claimable_def)
  moreover have "er_status r = Approved \<Longrightarrow> egress_inv (put_request (r\<lparr>er_status := Expired\<rparr>) s)"
    using rok by (intro inv_put_request [OF inv r]) (auto simp: req_ok_def coherent_def)
  ultimately show ?thesis
    using ok r inv by (auto simp: claim_once_def Let_def split: if_splits)
qed

lemma release_once_inv:
  assumes inv: "egress_inv s" and ok: "release_once rid s = Inr (s', q)"
  shows "egress_inv s'"
proof -
  from ok obtain r where r: "load_request rid s = Inr r" by (auto simp: release_once_def bind_r_Inr)
  have "er_status r = Claimed \<Longrightarrow> egress_inv (put_request (r\<lparr>er_status := Approved,
      er_claimed_by := None, er_consumed_at := None\<rparr>) s)"
    using inv_has_ok [OF inv r]
    by (intro inv_put_request [OF inv r]) (auto simp: req_ok_def coherent_def)
  with ok r inv show ?thesis by (auto simp: release_once_def Let_def split: if_splits)
qed

lemma consume_once_inv:
  assumes inv: "egress_inv s" and ok: "consume_once env c rid now clock s = Inr (s', q)"
  shows "egress_inv s'"
proof -
  from ok obtain r where r: "load_request rid s = Inr r" by (auto simp: consume_once_def bind_r_Inr)
  have "er_decision r = Some Allow_once \<Longrightarrow> egress_inv (put_request (r\<lparr>er_status := Consumed,
      er_consumed_at := (case er_consumed_at r of Some t \<Rightarrow> Some t | None \<Rightarrow> Some now)\<rparr>) s)"
    using inv_has_ok [OF inv r]
    by (intro inv_put_request [OF inv r])
      (auto simp: req_ok_def coherent_def split: option.splits req_status.splits)
  with ok r inv show ?thesis by (auto simp: consume_once_def Let_def split: if_splits)
qed

section \<open>Runs\<close>

text \<open>One call of the service, by either capability's service object; an error changes nothing.\<close>

datatype egress_op =
    Create egress_cfg create_args instant
  | Decide egress_cfg nat string string bool instant
  | Expire_stale instant
  | Claim_once nat string instant
  | Release_once nat
  | Consume_once egress_cfg nat instant
  | Refresh egress_cfg instant

definition after :: "egress_state \<Rightarrow> (egress_state \<times> 'a) result \<Rightarrow> egress_state" where
  "after s res = (case res of Inl e \<Rightarrow> s | Inr (s', _) \<Rightarrow> s')"

fun egress_step :: "py_env \<Rightarrow> egress_state \<Rightarrow> egress_op \<Rightarrow> egress_state" where
  "egress_step env s (Create c a now) = after s (create_request env c a now s)"
| "egress_step env s (Decide c rid d actor m now) = after s (decide env c rid d actor m now s)"
| "egress_step env s (Expire_stale now) = fst (expire_stale now s)"
| "egress_step env s (Claim_once rid actor now) = after s (claim_once rid actor now s)"
| "egress_step env s (Release_once rid) = after s (release_once rid s)"
| "egress_step env s (Consume_once c rid now) = after s (consume_once env c rid now now s)"
| "egress_step env s (Refresh c now) = refresh_policy env c now s"

lemma after_inv:
  "egress_inv s \<Longrightarrow> (\<And>s' x. res = Inr (s', x) \<Longrightarrow> egress_inv s') \<Longrightarrow> egress_inv (after s res)"
  by (auto simp: after_def split: sum.splits)

lemma egress_step_inv: "egress_inv s \<Longrightarrow> egress_inv (egress_step env s e)"
  by (cases e) (auto intro!: after_inv expire_stale_inv intro: create_request_inv decide_inv
      claim_once_inv release_once_inv consume_once_inv)

interpretation egress_machine: step_machine "egress_step env" egress_inv for env
  by unfold_locales (rule egress_step_inv)

definition empty_egress :: egress_state where
  "empty_egress = \<lparr>requests = [], grants = [], next_request = 0, policy_slot = No_file,
     egress_audit = []\<rparr>"

lemma empty_egress_inv: "egress_inv empty_egress"
  by (simp add: empty_egress_def egress_inv_def pending_unique_def)

end
