(* ===== verification/Egress_Properties.thy ===== *)
theory Egress_Properties
  imports Egress_Facts
begin

text \<open>
  The properties of the approval queue over runs of its service: invariant, authority of grants,
  exclusivity and finality of decisions and leases, duplicate suppression, and the policy a refresh
  leaves behind.
\<close>

section \<open>How one row evolves\<close>

text \<open>
  What any call may do to a row; \<open>rel\<close> says whether the lease of this row may be released.
\<close>

definition evolves :: "bool \<Rightarrow> egress_request \<Rightarrow> egress_request \<Rightarrow> bool" where
  "evolves rel r r' \<longleftrightarrow>
     er_id r' = er_id r \<and> er_host r' = er_host r \<and> er_capability r' = er_capability r \<and>
     er_dedupe r' = er_dedupe r \<and>
     (er_decision r \<noteq> None \<longrightarrow> er_decision r' = er_decision r \<and> er_decided_by r' = er_decided_by r) \<and>
     (er_status r \<noteq> Pending \<longrightarrow> er_status r' \<noteq> Pending \<and> er_decision r' = er_decision r) \<and>
     (er_status r = Denied \<longrightarrow> er_status r' = Denied) \<and>
     (er_status r = Consumed \<longrightarrow> er_status r' = Consumed) \<and>
     (er_status r = Expired \<longrightarrow> er_status r' \<in> {Expired, Consumed}) \<and>
     (\<not> rel \<and> er_status r = Claimed \<longrightarrow> er_status r' \<in> {Claimed, Consumed})"

lemma evolves_refl [simp]: "evolves rel r r"
  by (simp add: evolves_def)

lemma evolves_trans: "evolves rel r q \<Longrightarrow> evolves rel q p \<Longrightarrow> evolves rel r p"
  by (auto simp: evolves_def)

lemma evolves_weaken: "evolves False r q \<Longrightarrow> evolves rel r q"
  by (auto simp: evolves_def)

lemma coherent_undecided: "req_ok r \<Longrightarrow> er_status r = Pending \<Longrightarrow> er_decision r = None"
  by (simp add: req_ok_def coherent_def)

text \<open>Every row survives an operation that replaces one loaded row by an evolved one.\<close>

lemma put_evolves:
  assumes inv: "egress_inv s" and r: "load_request rid s = Inr r"
    and ev: "evolves rel r r'" and q: "q \<in> set (requests s)"
    and other: "q \<noteq> r \<Longrightarrow> evolves rel q q"
  shows "\<exists>q' \<in> set (requests (put_request r' s)). evolves rel q q'"
proof (cases "er_id q = rid")
  case True
  with load_of_member [OF inv q] r have "q = r" by simp
  with ev q load_request_Inr [OF r] show ?thesis
    by (auto simp: row_mod_def evolves_def intro!: bexI [of _ r'] image_eqI [of _ _ r])
next
  case False
  with q ev load_request_Inr [OF r] have "q \<in> set (requests (put_request r' s))"
    by (auto simp: row_mod_def evolves_def image_iff intro!: bexI [of _ q])
  then show ?thesis using evolves_refl by blast
qed

definition rows_evolve :: "nat option \<Rightarrow> egress_state \<Rightarrow> egress_state \<Rightarrow> bool" where
  "rows_evolve rel s s' \<longleftrightarrow>
     (\<forall>q \<in> set (requests s). \<exists>q' \<in> set (requests s'). evolves (rel = Some (er_id q)) q q')"

lemma rows_evolve_same: "requests s' = requests s \<Longrightarrow> rows_evolve rel s s'"
  unfolding rows_evolve_def by (metis evolves_refl)

lemma rows_evolve_more: "set (requests s) \<subseteq> set (requests s') \<Longrightarrow> rows_evolve rel s s'"
  unfolding rows_evolve_def by (metis evolves_refl subsetD)

lemma rows_evolve_put:
  assumes "egress_inv s" and "load_request rid s = Inr r"
    and "evolves (rel = Some rid) r r'" and "requests s' = requests (put_request r' s)"
  shows "rows_evolve rel s s'"
proof -
  have "\<exists>q' \<in> set (requests s'). evolves (rel = Some (er_id q)) q q'" if q: "q \<in> set (requests s)" for q
  proof (cases "er_id q = rid")
    case True
    with put_evolves [OF assms(1-3) q] assms(4) show ?thesis by simp
  next
    case False
    have "er_id r' = rid" using assms(3) load_request_Inr [OF assms(2)] by (simp add: evolves_def)
    with False q assms(4) have "q \<in> set (requests s')"
      by (auto simp: row_mod_def image_iff intro!: bexI [of _ q])
    then show ?thesis using evolves_refl by blast
  qed
  then show ?thesis by (simp add: rows_evolve_def)
qed

lemma create_evolves:
  assumes inv: "egress_inv s" and ok: "create_request env c a now s = Inr (s', r)"
  shows "rows_evolve rel s s'"
proof -
  from ok obtain host where host: "normalize_hostname env (ca_host a) = Inr host"
    by (auto simp: create_request_def split: sum.splits)
  show ?thesis
  proof (cases "find_pending (cfg_capability c) host (request_source a) s")
    case (Some q)
    with ok host have s': "s' = put_request (backfill a q) s"
      by (auto simp: create_request_def Let_def)
    from find_pending_Some [OF Some] have q: "load_request (er_id q) s = Inr q"
      using load_of_member [OF inv] by blast
    have "evolves x q (backfill a q)" for x by (simp add: evolves_def backfill_def)
    then show ?thesis using rows_evolve_put [OF inv q] s' by blast
  next
    case None
    with ok host have "set (requests s) \<subseteq> set (requests s')"
      by (auto simp: create_request_def auto_approve_def Let_def split: if_splits)
    then show ?thesis by (rule rows_evolve_more)
  qed
qed

lemma decide_evolves:
  assumes inv: "egress_inv s" and ok: "decide env c rid d actor m now s = Inr (s', r')"
  shows "rows_evolve rel s s'"
proof -
  from ok obtain r where r: "load_request rid s = Inr r" by (auto simp: decide_def bind_r_Inr)
  show ?thesis
  proof (cases "er_status r = Pending")
    case False
    with ok r show ?thesis by (auto simp: decide_def intro: rows_evolve_same)
  next
    case True
    with inv_has_ok [OF inv r] have "er_decision r = None" by (simp add: coherent_undecided)
    with True have ev: "evolves x r q" if "er_id q = er_id r" "er_host q = er_host r"
      "er_capability q = er_capability r" "er_dedupe q = er_dedupe r" for x q
      using that by (simp add: evolves_def)
    let ?as = "\<lambda>x. r\<lparr>er_decision := Some x, er_allow_always := (x = Allow_always),
            er_status := (if x \<noteq> Deny then Approved else Denied),
            er_decided_by := Some actor, er_decided_at := Some now\<rparr>"
    have reqs: "requests (fst (apply_decision env c r x actor now s)) = requests (put_request (?as x) s)" for x
      by (simp add: apply_decision_def Let_def)
    have ev': "evolves y r (?as x)" for x y by (rule ev) simp_all
    have ev'': "evolves y r (r\<lparr>er_status := Expired\<rparr>)" for y by (rule ev) simp_all
    from ok r True consider
        "s' = put_request (r\<lparr>er_status := Expired\<rparr>) s"
      | x where "s' = fst (apply_decision env c r x actor now s)"
      by (auto simp: decide_def Let_def split: option.splits if_splits) (metis fst_conv)+
    then show ?thesis
    proof cases
      case 1
      then show ?thesis by (intro rows_evolve_put [OF inv r ev'']) simp
    next
      case (2 x)
      show ?thesis unfolding 2 by (rule rows_evolve_put [OF inv r ev' reqs])
    qed
  qed
qed

lemma expire_evolves:
  assumes inv: "egress_inv s"
  shows "rows_evolve rel s (fst (expire_stale now s))"
proof -
  let ?f = "\<lambda>r. if stale_pending now r then r\<lparr>er_status := Expired\<rparr> else r"
  have "evolves x q (?f q)" if "q \<in> set (requests s)" for x q
  proof (cases "stale_pending now q")
    case True
    with inv that have "er_decision q = None" "er_status q = Pending"
      by (auto simp: egress_inv_def list_all_iff stale_pending_def intro: coherent_undecided)
    with True show ?thesis by (simp add: evolves_def)
  qed simp
  note ev = this
  have reqs: "requests (fst (expire_stale now s)) = map ?f (requests s)"
    by (simp add: expire_stale_def)
  show ?thesis unfolding rows_evolve_def reqs
  proof
    fix q assume q: "q \<in> set (requests s)"
    show "\<exists>q' \<in> set (map ?f (requests s)). evolves (rel = Some (er_id q)) q q'"
      by (rule bexI [of _ "?f q"], rule ev [OF q]) (unfold set_map, rule imageI [OF q])
  qed
qed

lemma claim_evolves:
  assumes inv: "egress_inv s" and ok: "claim_once rid actor now s = Inr (s', q)"
  shows "rows_evolve rel s s'"
proof -
  from ok obtain r where r: "load_request rid s = Inr r" by (auto simp: claim_once_def bind_r_Inr)
  let ?p = "r\<lparr>er_status := Claimed, er_claimed_by := Some actor, er_consumed_at := Some now\<rparr>"
  let ?e = "r\<lparr>er_status := Expired\<rparr>"
  have p: "claimable now r \<Longrightarrow> evolves y r ?p" for y by (simp add: evolves_def claimable_def)
  have e: "er_status r = Approved \<Longrightarrow> evolves y r ?e" for y by (simp add: evolves_def)
  from ok r have "s' = s \<or> claimable now r \<and> requests s' = requests (put_request ?p s) \<or>
      er_status r = Approved \<and> requests s' = requests (put_request ?e s)"
    unfolding claim_once_def by (auto simp: Let_def split: if_splits)
  with rows_evolve_put [OF inv r p] rows_evolve_put [OF inv r e] show ?thesis
    by (metis rows_evolve_same)
qed

lemma release_evolves:
  assumes inv: "egress_inv s" and ok: "release_once rid s = Inr (s', q)"
  shows "rows_evolve (Some rid) s s'"
proof -
  from ok obtain r where r: "load_request rid s = Inr r" by (auto simp: release_once_def bind_r_Inr)
  let ?p = "r\<lparr>er_status := Approved, er_claimed_by := None, er_consumed_at := None\<rparr>"
  have p: "er_status r = Claimed \<Longrightarrow> evolves (Some rid = Some rid) r ?p" by (simp add: evolves_def)
  from ok r have "s' = s \<or> er_status r = Claimed \<and> requests s' = requests (put_request ?p s)"
    unfolding release_once_def
    by (auto simp: Let_def split: if_splits)
  with rows_evolve_put [OF inv r p] show ?thesis by (metis rows_evolve_same)
qed

lemma consume_evolves:
  assumes inv: "egress_inv s" and ok: "consume_once env c rid now clock s = Inr (s', q)"
  shows "rows_evolve rel s s'"
proof -
  from ok obtain r where r: "load_request rid s = Inr r" by (auto simp: consume_once_def bind_r_Inr)
  let ?p = "r\<lparr>er_status := Consumed,
    er_consumed_at := (case er_consumed_at r of Some t \<Rightarrow> Some t | None \<Rightarrow> Some now)\<rparr>"
  from inv_has_ok [OF inv r] have st: "er_decision r = Some Allow_once \<Longrightarrow> er_status r \<notin> {Pending, Denied}"
    by (auto simp: req_ok_def coherent_def)
  have p: "er_decision r = Some Allow_once \<Longrightarrow> evolves y r ?p" for y
    using st by (simp add: evolves_def)
  from ok r have "s' = s \<or>
      er_decision r = Some Allow_once \<and> requests s' = requests (put_request ?p s)"
    unfolding consume_once_def
    by (auto simp: Let_def split: if_splits)
  with rows_evolve_put [OF inv r p] show ?thesis by (metis rows_evolve_same)
qed

text \<open>The row a step may release.\<close>

fun releases :: "egress_op \<Rightarrow> nat option" where
  "releases (Release_once rid) = Some rid"
| "releases _ = None"

lemma after_evolves:
  "(\<And>s' x. res = Inr (s', x) \<Longrightarrow> rows_evolve rel s s') \<Longrightarrow> rows_evolve rel s (after s res)"
  by (auto simp: after_def intro: rows_evolve_same split: sum.splits)

lemma step_evolves: "egress_inv s \<Longrightarrow> rows_evolve (releases e) s (egress_step env s e)"
  by (cases e) (auto intro!: after_evolves expire_evolves rows_evolve_same [OF refresh_simps(1)]
      intro: create_evolves decide_evolves claim_evolves release_evolves consume_evolves)

lemma run_evolves:
  assumes "egress_inv s" and "q \<in> set (requests s)"
  shows "\<exists>q' \<in> set (requests (foldl (egress_step env) s es)).
    evolves (\<exists>e \<in> set es. releases e = Some (er_id q)) q q'"
  using assms
proof (induction es arbitrary: s q)
  case (Cons e es)
  from step_evolves [OF Cons.prems(1), of e env] Cons.prems(2)
  obtain p where p: "p \<in> set (requests (egress_step env s e))"
    "evolves (releases e = Some (er_id q)) q p" by (auto simp: rows_evolve_def)
  then have "er_id p = er_id q" by (simp add: evolves_def)
  moreover from Cons.IH [OF egress_step_inv [OF Cons.prems(1)] p(1)]
  obtain q' where "q' \<in> set (requests (foldl (egress_step env) (egress_step env s e) es))"
    "evolves (\<exists>e \<in> set es. releases e = Some (er_id p)) p q'" by blast
  ultimately show ?case using p(2)
    by (intro bexI [of _ q']) (auto simp: evolves_def)
next
  case Nil
  then show ?case by (metis evolves_refl foldl_Nil)
qed

lemma load_after_run:
  assumes "egress_inv s" and "load_request rid s = Inr q"
  shows "\<exists>q'. load_request rid (foldl (egress_step env) s es) = Inr q' \<and>
    evolves (\<exists>e \<in> set es. releases e = Some rid) q q'"
proof -
  from load_request_Inr [OF assms(2)] have q: "q \<in> set (requests s)" "er_id q = rid" by auto
  from run_evolves [OF assms(1) q(1), of env es] q(2) obtain q' where
    q': "q' \<in> set (requests (foldl (egress_step env) s es))"
    "evolves (\<exists>e \<in> set es. releases e = Some rid) q q'" by auto
  moreover have "egress_inv (foldl (egress_step env) s es)" by (rule egress_machine.run_inv [OF assms(1)])
  moreover from q' q have "er_id q' = rid" by (simp add: evolves_def)
  ultimately show ?thesis using load_of_member by blast
qed

section \<open>Properties of runs\<close>

text \<open>
  C3. The queue's invariant holds after every sequence of calls, by service objects of either
  capability and any settings: row ids are unique, every host is a canonical registered name,
  status, decision and lease fields of every row agree, at most one request is pending per host
  and source, and there is one grant row per capability, subject and host.
\<close>

theorem egress_queue_invariant: "egress_inv (foldl (egress_step env) empty_egress es)"
  by (rule egress_machine.run_inv [OF empty_egress_inv])


lemma upsert_new_grant:
  assumes "g \<in> set (grants (upsert_workspace_grant c r by now s))" and "g \<notin> set (grants s)"
  shows "hg_host g = er_host r \<and> hg_capability g = er_capability r \<and> hg_granted_by g = by \<and>
    hg_source g = er_id r \<and> hg_subject_type g = ''workspace'' \<and> hg_subject_id g = cfg_workspace c"
proof (cases "row_get grant_key (er_capability r, ''workspace'', cfg_workspace c, er_host r) (grants s)")
  case None
  from upsert_new [OF this] assms show ?thesis by auto
next
  case (Some q)
  from upsert_old [OF Some] assms show ?thesis
    by (auto dest!: set_row_mod simp: grant_key_def split: if_splits)
qed

lemma decide_new_grant:
  assumes "decide env c rid d actor m now s = Inr (s', x)"
    and "g \<in> set (grants s')" and "g \<notin> set (grants s)"
  shows "\<exists>r. m \<and> d = ''allow_always'' \<and> load_request rid s = Inr r \<and> er_status r = Pending \<and>
    now < er_expires r \<and> hg_host g = er_host r \<and> hg_capability g = er_capability r \<and>
    hg_granted_by g = actor \<and> hg_source g = rid"
proof -
  from assms(1) obtain r where r: "load_request rid s = Inr r" by (auto simp: decide_def bind_r_Inr)
  from assms r have pend: "er_status r = Pending" by (auto simp: decide_def split: if_splits)
  with assms r obtain v where v: "parse_decision d = Some v"
    by (auto simp: decide_def split: option.splits)
  with assms r pend have ap: "\<not> er_expires r \<le> now" "s' = fst (apply_decision env c r v actor now s)"
    "\<not> (v = Allow_always \<and> \<not> m)"
    by (auto simp: decide_def Let_def split: if_splits)
  with assms have al: "v = Allow_always" by (auto simp: apply_decision_def Let_def split: if_splits)
  with ap assms have up: "g \<in> set (grants (upsert_workspace_grant c (r\<lparr>er_decision := Some v,
      er_allow_always := True, er_status := Approved, er_decided_by := Some actor,
      er_decided_at := Some now\<rparr>) actor now (put_request (r\<lparr>er_decision := Some v,
      er_allow_always := True, er_status := Approved, er_decided_by := Some actor,
      er_decided_at := Some now\<rparr>) s)))"
    by (simp add: apply_decision_def Let_def)
  have "d = ''allow_always''" using v al by (auto simp: parse_decision_def split: if_splits)
  with upsert_new_grant [OF up] assms(3) ap al pend r load_request_Inr [OF r] show ?thesis by simp
qed

lemma create_new_grant:
  assumes "create_request env c a now s = Inr (s', x)"
    and "g \<in> set (grants s')" and "g \<notin> set (grants s)"
  shows "normalize_hostname env (ca_host a) = Inr (hg_host g) \<and> auto_allowable c (hg_host g) \<and>
    hg_granted_by g = ''system:allowlist'' \<and> hg_capability g = cfg_capability c"
proof -
  from assms(1) obtain host where host: "normalize_hostname env (ca_host a) = Inr host"
    by (auto simp: create_request_def split: sum.splits)
  with assms have np: "find_pending (cfg_capability c) host (request_source a) s = None"
    by (auto simp: create_request_def Let_def split: option.splits)
  with assms host have al: "auto_allowable c host"
    by (auto simp: create_request_def Let_def split: if_splits)
  with np host assms have "g \<in> set (grants (fst (auto_approve env c a host now s)))"
    by (simp add: create_request_def)
  then have "hg_host g = host \<and> hg_granted_by g = ''system:allowlist'' \<and> hg_capability g = cfg_capability c"
    using upsert_new_grant assms(3)
    by (fastforce simp: auto_approve_def Let_def new_request_def)
  with al host show ?thesis by simp
qed

text \<open>
  C4. Who can create or revive a grant. Whatever call is made in whatever state, a grant that was
  not there before comes either from a manager deciding \<open>allow_always\<close> on a pending request that
  has not expired, for that request's host and capability and under the manager's name, or from a
  request for a host the workspace's allowlist already opens. Nobody else adds a host.
\<close>

theorem grants_need_authority:
  assumes "g \<in> set (grants (egress_step env s e))" and "g \<notin> set (grants s)"
  shows "(\<exists>c rid actor now r. e = Decide c rid ''allow_always'' actor True now \<and>
       load_request rid s = Inr r \<and> er_status r = Pending \<and> now < er_expires r \<and>
       hg_host g = er_host r \<and> hg_capability g = er_capability r \<and>
       hg_granted_by g = actor \<and> hg_source g = rid) \<or>
     (\<exists>c a now. e = Create c a now \<and> normalize_hostname env (ca_host a) = Inr (hg_host g) \<and>
       auto_allowable c (hg_host g) \<and> hg_granted_by g = ''system:allowlist'')"
proof (cases e)
  case (Create c a now)
  with assms show ?thesis
    by (auto simp: after_def split: sum.splits dest: create_new_grant)
next
  case (Decide c rid d actor m now)
  with assms have "\<exists>s' x. decide env c rid d actor m now s = Inr (s', x) \<and> g \<in> set (grants s')"
    by (auto simp: after_def split: sum.splits)
  then obtain s' x where "decide env c rid d actor m now s = Inr (s', x)" "g \<in> set (grants s')"
    by blast
  from decide_new_grant [OF this assms(2)] Decide show ?thesis by auto
next
  case (Claim_once rid actor now)
  with assms show ?thesis
    by (auto simp: after_def claim_once_def bind_r_Inr Let_def split: sum.splits if_splits)
next
  case (Release_once rid)
  with assms show ?thesis
    by (auto simp: after_def release_once_def bind_r_Inr Let_def split: sum.splits if_splits)
next
  case (Consume_once c rid now)
  with assms show ?thesis
    by (auto simp: after_def consume_once_def bind_r_Inr Let_def split: sum.splits if_splits)
qed (use assms in \<open>auto simp: expire_stale_def\<close>)

lemma claim_spent:
  "load_request rid s = Inr r \<Longrightarrow> er_status r \<in> {Claimed, Consumed} \<Longrightarrow>
     claim_once rid actor now s = Inr (s, None)"
  by (auto simp: claim_once_def claimable_def)

lemma claim_won:
  assumes inv: "egress_inv s" and ok: "claim_once rid actor now s = Inr (s1, Some r)"
  shows "load_request rid s1 = Inr r \<and> er_status r = Claimed \<and> er_decision r = Some Allow_once"
proof -
  from ok obtain q where q: "load_request rid s = Inr q" by (auto simp: claim_once_def bind_r_Inr)
  with ok have cl: "claimable now q" "r = q\<lparr>er_status := Claimed, er_claimed_by := Some actor,
      er_consumed_at := Some now\<rparr>" "requests s1 = requests (put_request r s)"
    by (auto simp: claim_once_def Let_def split: if_splits)
  have "row_get er_id rid (requests s1) = Some r"
    using q cl load_request_Inr [OF q]
    by (auto simp: row_get_mod_same load_request_def split: option.splits)
  with cl show ?thesis by (simp add: load_request_def claimable_def)
qed

text \<open>
  A lease is used by one execution. Once a claim has won, every later claim of the same lease
  loses, by any actor, at any time and after any calls in between, unless the winner's execution
  released it.
\<close>

lemma claimed_lease_is_exclusive:
  assumes "egress_inv s" and "claim_once rid actor now s = Inr (s1, Some r)"
    and "\<forall>e \<in> set es. e \<noteq> Release_once rid"
  shows "\<exists>s2. claim_once rid other later (foldl (egress_step env) s1 es) = Inr (s2, None)"
proof -
  from claim_won [OF assms(1,2)] have r: "load_request rid s1 = Inr r" "er_status r = Claimed" by auto
  from load_after_run [OF claim_once_inv [OF assms(1,2)] r(1), of env es] obtain q where
    q: "load_request rid (foldl (egress_step env) s1 es) = Inr q"
    "evolves (\<exists>e \<in> set es. releases e = Some rid) r q" by blast
  have "releases e = Some rid \<Longrightarrow> e = Release_once rid" for e by (cases e) auto
  with assms(3) q(2) r(2) have "er_status q \<in> {Claimed, Consumed}" by (auto simp: evolves_def)
  from claim_spent [OF q(1) this] show ?thesis by blast
qed

text \<open>
  Decisions are final, and so is consumption. After any further calls a decided request keeps
  its decision and its decider, never becomes pending again, a denied one stays denied, and a
  consumed lease stays consumed, even through a release.
\<close>

lemma decisions_are_final:
  assumes "egress_inv s" and "load_request rid s = Inr r" and "er_status r \<noteq> Pending"
  shows "\<exists>q. load_request rid (foldl (egress_step env) s es) = Inr q \<and>
    er_status q \<noteq> Pending \<and> er_decision q = er_decision r \<and> er_host q = er_host r \<and>
    (er_decision r \<noteq> None \<longrightarrow> er_decided_by q = er_decided_by r) \<and>
    (er_status r \<in> {Denied, Consumed} \<longrightarrow> er_status q = er_status r)"
  using load_after_run [OF assms(1,2), of env es] assms(3) by (auto simp: evolves_def)

section \<open>Concrete runs\<close>

definition example_cfg :: "string \<Rightarrow> bool \<Rightarrow> string list \<Rightarrow> egress_cfg" where
  "example_cfg cap allow_all allowlist = \<lparr>cfg_workspace = ''ws1'', cfg_capability = cap,
     cfg_allow_all = allow_all, cfg_allow_public = False, cfg_allowlist = allowlist,
     cfg_workspace_ttl = Some 100, cfg_container_ttl = None, cfg_max_requests = 2000,
     cfg_max_bytes = 1000000, cfg_max_concurrency = 8\<rparr>"

definition example_args :: "string \<Rightarrow> int \<Rightarrow> create_args" where
  "example_args host ttl = \<lparr>ca_host = host, ca_by = ''alice'', ca_chat = Some ''chat1'',
     ca_purpose = None, ca_context = [], ca_ttl = JInt ttl, ca_dedupe = None,
     ca_assistant_msg = None, ca_user_msg = None, ca_tool_call = None, ca_resume = None\<rparr>"

text \<open>Alice asks for one host, a manager answers; the capability is external acquisition.\<close>

definition example_run :: "string \<Rightarrow> egress_state" where
  "example_run d = foldl (egress_step plain_env) empty_egress
     [Create (example_cfg ''external_acquisition'' False []) (example_args ''api.example.com'' 600) 1000,
      Decide (example_cfg ''external_acquisition'' False []) 0 d ''bob'' True 1010]"

lemma example_run_inv: "egress_inv (example_run d)"
  unfolding example_run_def by (rule egress_machine.run_inv [OF empty_egress_inv])

lemma example_run_state:
  "map er_status (requests (example_run ''allow_once'')) = [Approved]"
  "map hg_host (grants (example_run ''allow_always'')) = [''api.example.com'']"
  by code_simp+

definition example_pending :: egress_state where
  "example_pending = egress_step plain_env empty_egress
     (Create (example_cfg ''external_acquisition'' False []) (example_args ''api.example.com'' 600) 1000)"

theorem grants_need_authority_witness:
  "\<exists>g r. g \<in> set (grants (egress_step plain_env example_pending
       (Decide (example_cfg ''external_acquisition'' False []) 0 ''allow_always'' ''bob'' True 1010))) \<and>
     load_request 0 example_pending = Inr r \<and> er_status r = Pending \<and> hg_host g = er_host r"
proof -
  let ?s = "egress_step plain_env example_pending
    (Decide (example_cfg ''external_acquisition'' False []) 0 ''allow_always'' ''bob'' True 1010)"
  have g: "map hg_host (grants ?s) = [''api.example.com'']" "grants example_pending = []" by code_simp+
  then obtain g where "g \<in> set (grants ?s)" "g \<notin> set (grants example_pending)" by auto
  from grants_need_authority [OF this] this(1) show ?thesis by auto
qed

section \<open>The insert under a duplicate key\<close>

text \<open>
  \<open>create_request\<close> as a creation under the key (canonical host, source): the interface of
  idempotent creation, for hosts that reach the queue and sources no other capability uses.
\<close>

definition queue_ok :: "egress_cfg \<Rightarrow> string \<times> string \<Rightarrow> egress_state \<Rightarrow> bool" where
  "queue_ok c k s \<longleftrightarrow> egress_inv s \<and>
     (\<forall>r \<in> set (requests s). pending_key r = k \<longrightarrow> er_status r = Pending \<longrightarrow>
        er_capability r = cfg_capability c)"

definition queue_fits ::
  "py_env \<Rightarrow> egress_cfg \<Rightarrow> string \<times> string \<Rightarrow> create_args \<times> instant \<Rightarrow> bool" where
  "queue_fits env c k a \<longleftrightarrow> normalize_hostname env (ca_host (fst a)) = Inr (fst k) \<and>
     request_source (fst a) = snd k \<and> \<not> auto_allowable c (fst k)"

definition queue_lookup :: "egress_cfg \<Rightarrow> string \<times> string \<Rightarrow> egress_state \<Rightarrow> egress_request option" where
  "queue_lookup c k s = find_pending (cfg_capability c) (fst k) (snd k) s"

definition queue_create ::
  "py_env \<Rightarrow> egress_cfg \<Rightarrow> string \<times> string \<Rightarrow> create_args \<times> instant \<Rightarrow> egress_state
     \<Rightarrow> egress_state \<times> egress_request \<times> bool" where
  "queue_create env c k a s = (case create_request env c (fst a) (snd a) s of
      Inl e \<Rightarrow> (s, new_request c (fst a) (fst k) (snd a) 0, False)
    | Inr (s', r) \<Rightarrow> (s', r, queue_lookup c k s = None))"

lemma find_row_mod_pending:
  assumes "find P rs = Some r" and "P (f r)" and "distinct (map er_id rs)"
  shows "find P (row_mod er_id (er_id r) (\<lambda>_. f r) rs) = Some (f r)"
  using assms
proof (induction rs)
  case (Cons q qs)
  show ?case
  proof (cases "P q")
    case True
    with Cons.prems show ?thesis by simp
  next
    case False
    with Cons.prems have "r \<in> set qs" by (auto simp: find_Some_iff)
    with Cons.prems(3) have "er_id q \<noteq> er_id r" by (auto simp: image_iff)
    with False Cons show ?thesis by simp
  qed
qed simp

lemma queue_hit:
  assumes ok: "queue_ok c k s" "queue_fits env c k a" and hit: "queue_lookup c k s = Some r"
  shows "create_request env c (fst a) (snd a) s = Inr (put_request (backfill (fst a) r) s, backfill (fst a) r) \<and>
    queue_lookup c k (put_request (backfill (fst a) r) s) = Some (backfill (fst a) r)"
proof -
  from ok hit have "create_request env c (fst a) (snd a) s = Inr (put_request (backfill (fst a) r) s, backfill (fst a) r)"
    by (auto simp: queue_ok_def queue_fits_def queue_lookup_def create_request_def Let_def)
  moreover from hit find_pending_Some have "er_status r = Pending" "er_capability r = cfg_capability c"
    "er_host r = fst k" "er_dedupe r = snd k" by (auto simp: queue_lookup_def dest: find_pending_Some)
  ultimately show ?thesis using find_row_mod_pending [of _ "requests s" r "backfill (fst a)"] ok hit
    by (simp add: queue_lookup_def find_pending_def queue_ok_def queue_fits_def egress_inv_def)
qed

lemma queue_miss:
  assumes ok: "queue_ok c k s" "queue_fits env c k a" and none: "queue_lookup c k s = None"
  defines "r \<equiv> new_request c (fst a) (fst k) (snd a) (next_request s)"
  shows "\<exists>s'. create_request env c (fst a) (snd a) s = Inr (s', r) \<and> requests s' = requests s @ [r] \<and>
    queue_lookup c k s' = Some r"
proof -
  from none have "\<forall>r \<in> set (requests s). \<not> (er_capability r = cfg_capability c \<and> er_host r = fst k \<and>
      er_dedupe r = snd k \<and> er_status r = Pending)" by (simp add: queue_lookup_def find_pending_None)
  with ok have free: "\<not> (\<exists>r \<in> set (requests s). er_host r = fst k \<and> er_dedupe r = snd k \<and>
      er_status r = Pending)" by (auto simp: queue_ok_def queue_fits_def pending_key_def)
  let ?s = "record_audit (ca_by (fst a)) ''agent_egress.authorization_requested'' (er_id r) ''pending''
      (add_request r s)"
  have "create_request env c (fst a) (snd a) s = Inr (?s, r)"
    using ok none free
    by (simp add: queue_ok_def queue_fits_def queue_lookup_def create_request_def r_def Let_def)
  moreover have "find_pending (cfg_capability c) (fst k) (snd k) ?s = Some r"
    using none ok by (simp add: queue_lookup_def find_pending_def find_snoc r_def new_request_def
        queue_ok_def queue_fits_def)
  ultimately show ?thesis by (auto simp: queue_lookup_def)
qed

interpretation queue: idempotent_create "queue_ok c" "queue_fits env c" "queue_lookup c"
  "queue_create env c" er_id "\<lambda>s. length (requests s)" for env c
proof
  fix k a s assume fits: "queue_fits env c k a" and ok: "queue_ok c k s"
  show "queue_ok c k (fst (queue_create env c k a s))"
  proof (cases "queue_lookup c k s")
    case None
    from queue_miss [OF ok fits this] obtain s' where s':
      "create_request env c (fst a) (snd a) s = Inr (s', new_request c (fst a) (fst k) (snd a) (next_request s))"
      "requests s' = requests s @ [new_request c (fst a) (fst k) (snd a) (next_request s)]" by blast
    with create_request_inv [OF _ s'(1)] ok show ?thesis
      by (auto simp: queue_create_def queue_ok_def new_request_def)
  next
    case (Some r)
    from queue_hit [OF ok fits this] have hit:
      "create_request env c (fst a) (snd a) s = Inr (put_request (backfill (fst a) r) s, backfill (fst a) r)" by simp
    from find_pending_Some Some have "er_capability r = cfg_capability c"
      by (auto simp: queue_lookup_def dest: find_pending_Some)
    with hit create_request_inv [OF _ hit] ok show ?thesis
      by (auto simp: queue_create_def queue_ok_def dest!: set_row_mod split: if_splits)
  qed
next
  fix k a s r assume fits: "queue_fits env c k a" and ok: "queue_ok c k s"
    and hit: "queue_lookup c k s = Some r"
  from queue_hit [OF ok fits hit] hit
  show "\<exists>s' r'. queue_create env c k a s = (s', r', False) \<and> er_id r' = er_id r \<and>
      queue_lookup c k s' = Some r' \<and> length (requests s') = length (requests s)"
    by (auto simp: queue_create_def)
next
  fix k a s assume fits: "queue_fits env c k a" and ok: "queue_ok c k s"
    and miss: "queue_lookup c k s = None"
  from queue_miss [OF ok fits miss] miss
  show "\<exists>s' r'. queue_create env c k a s = (s', r', True) \<and> queue_lookup c k s' = Some r' \<and>
      length (requests s') = Suc (length (requests s))"
    by (auto simp: queue_create_def)
qed

lemma queue_create_step:
  "fst (queue_create env c k a s) = egress_step env s (Create c (fst a) (snd a))"
  by (auto simp: queue_create_def after_def split: sum.splits)

text \<open>
  Repeated tool calls do not duplicate approval cards. A request for a host outside the
  allowlist leaves one pending row for its host and source, and any number of further calls for
  the same canonical host and source, whatever their time, purpose and correlation fields, answer
  with that row (filled in, same id) and add none.
\<close>

lemma duplicate_requests_share_one_row:
  assumes "queue_fits env c k (a, now)" and "queue_ok c k s"
    and "create_request env c a now s = Inr (s1, r1)" and "\<forall>b \<in> set bs. queue_fits env c k b"
  defines "s2 \<equiv> foldl (egress_step env) s1 (map (\<lambda>b. Create c (fst b) (snd b)) bs)"
  shows "\<exists>r2. find_pending (cfg_capability c) (fst k) (snd k) s2 = Some r2 \<and> er_id r2 = er_id r1 \<and>
    length (requests s2) = length (requests s1)"
proof -
  have "queue_create env c k (a, now) s = (s1, r1, queue_lookup c k s = None)"
    using assms(3) by (simp add: queue_create_def)
  from queue.replay_after_create [OF assms(1,2) this assms(4)] show ?thesis
    by (simp add: s2_def foldl_map queue_create_step queue_lookup_def)
qed

text \<open>
  The two capabilities share the pending index but not the duplicate check: while the external
  acquisition queue holds a pending request for a host, asking for the same host from the same chat
  for the agent sandbox is neither answered with that row nor queued; the insert raises
  \<open>IntegrityError\<close>.
\<close>

lemma other_capability_request_fails:
  "create_request plain_env (example_cfg ''agent_egress'' False [])
     (example_args ''api.example.com'' 600) 1005 example_pending = Inl (Python_error ''IntegrityError'')"
  by code_simp

section \<open>The policy a refresh leaves\<close>

text \<open>The hosts in force: active grants, open leases and the allowlist.\<close>

definition approved_hosts :: "egress_cfg \<Rightarrow> egress_state \<Rightarrow> instant \<Rightarrow> string set" where
  "approved_hosts c s now = hg_host ` set (active_grants c s) \<union> er_host ` set (open_leases s now) \<union>
     set (cfg_allowlist c)"

lemma validate_parts:
  assumes "validate_egress_policy env (JDict d) t = Inr p"
  shows "pol_raw p = d \<and> pol_allow_all p = (jget d ''allow_all_public'' = JBool True) \<and>
    (\<exists>hs. as_list (jget d ''hosts'') ''policy_hosts_must_be_list'' = Inr hs \<and>
      validate_hosts env [] hs = Inr (pol_hosts p))"
  using assms by (auto simp: validate_egress_policy_def bind_r_Inr Let_def)

lemma map_of_drop_two:
  "k \<noteq> a \<Longrightarrow> k \<noteq> b \<Longrightarrow> map_of (filter (\<lambda>kv. fst kv \<noteq> a \<and> fst kv \<noteq> b) d) k = map_of d k"
  by (induction d) auto

lemma jget_permissions:
  assumes "permissions p = permissions q" and "k \<noteq> ''issued_at''" and "k \<noteq> ''expires_at''"
  shows "jget (pol_raw p) k = jget (pol_raw q) k"
proof -
  note d = map_of_drop_two [OF assms(2,3)]
  have "map_of (pol_raw p) k = map_of (permissions p) k" "map_of (permissions q) k = map_of (pol_raw q) k"
    unfolding permissions_def by (rule d [symmetric], rule d)
  with assms(1) show ?thesis by (simp add: jget_def jget_default_def dict_get_def)
qed

lemma load_file_Some:
  assumes "load_workspace_policy_file env f now = Inr (Some b)"
  shows "\<exists>d. f = Document (JDict d) \<and> validate_egress_policy env (JDict d) now = Inr b"
proof -
  from assms obtain raw where "f = Document raw" "validate_egress_policy env raw now = Inr b"
    by (auto simp: load_workspace_policy_file_def split: policy_file.splits sum.splits
        policy_exc.splits if_splits)
  then show ?thesis by (cases raw) (auto simp: validate_egress_policy_def)
qed

lemma map_r_self: "\<forall>x \<in> set xs. f x = Inr x \<Longrightarrow> map_r f xs = Inr xs"
  using map_r_all [of xs f "\<lambda>x. x"] by simp

lemma store_load:
  assumes "derive_egress_policy_for_agent env ws hosts ttl all mr mb mc now = Inr p"
    and "pol_capability p = RESTRICTED_EGRESS"
  shows "load_workspace_policy_file env (store_workspace_policy_file p) now = Inr (Some p)"
proof -
  from assms(1) obtain d where "validate_egress_policy env (JDict d) now = Inr p"
    by (auto simp: derive_egress_policy_for_agent_def bind_r_Inr Let_def)
  with validate_parts [OF this] assms(2) show ?thesis
    by (simp add: load_workspace_policy_file_def store_workspace_policy_file_def)
qed

lemma ttl_bounds: "60 \<le> agent_egress_policy_ttl_seconds a b \<and> agent_egress_policy_ttl_seconds a b \<le> agent_ttl_max"
  by (simp add: agent_egress_policy_ttl_seconds_def Let_def agent_ttl_max_def)

text \<open>What the file must owe: it is readable without a Python error, and it is not a reviewed baseline.\<close>

definition agent_file :: "py_env \<Rightarrow> policy_file \<Rightarrow> instant \<Rightarrow> bool" where
  "agent_file env f now \<longleftrightarrow> (case load_workspace_policy_file env f now of
      Inl _ \<Rightarrow> False | Inr None \<Rightarrow> True | Inr (Some b) \<Rightarrow> pol_issuer b = agent_issuer)"

definition the_baseline :: "py_env \<Rightarrow> policy_file \<Rightarrow> instant \<Rightarrow> egress_policy option" where
  "the_baseline env f now = (case load_workspace_policy_file env f now of Inl _ \<Rightarrow> None | Inr b \<Rightarrow> b)"

lemma agent_file_load: "agent_file env f now \<Longrightarrow> load_workspace_policy_file env f now = Inr (the_baseline env f now)"
  by (auto simp: agent_file_def the_baseline_def split: sum.splits)

lemma agent_file_issuer: "agent_file env f now \<Longrightarrow> the_baseline env f now = Some b \<Longrightarrow> pol_issuer b = agent_issuer"
  by (auto simp: agent_file_def the_baseline_def split: sum.splits option.splits)

lemma effective_ttl_ok:
  fixes xs :: "instant list" and a b :: "int option" and now :: instant
  defines "t \<equiv> (if xs = [] then agent_egress_policy_ttl_seconds a b
       else max 60 (min (agent_egress_policy_ttl_seconds a b) (Min (set xs) - now)))"
  shows "0 < t" "t \<le> agent_ttl_max" "\<forall>x \<in> set xs. now + t \<le> max (now + 60) x"
proof -
  show "0 < t" "t \<le> agent_ttl_max"
    using ttl_bounds [of a b] by (auto simp: t_def agent_ttl_max_def)
  show "\<forall>x \<in> set xs. now + t \<le> max (now + 60) x"
  proof
    fix x assume "x \<in> set xs"
    then have "xs \<noteq> []" "Min (set xs) \<le> x" by auto
    then show "now + t \<le> max (now + 60) x" by (auto simp: t_def)
  qed
qed

definition limits_ok :: "egress_cfg \<Rightarrow> bool" where
  "limits_ok c \<longleftrightarrow> 0 < cfg_max_requests c \<and> 0 < cfg_max_bytes c"

text \<open>The refresh of a workspace without a reviewed baseline and without the allow-all mode.\<close>

lemma ensure_restricted:
  assumes iso: "\<forall>t. iso_parse env (iso_format env t) = Some t"
    and cfg: "cfg_workspace c \<noteq> []" "limits_ok c" "\<not> cfg_allow_all c" "\<not> cfg_allow_public c"
    and slot: "agent_file env (policy_slot s) now"
    and canon: "\<forall>h \<in> approved_hosts c s now. normalize_hostname env h = Inr h"
    and some: "approved_hosts c s now \<noteq> {}"
  shows "\<exists>s' p. ensure_agent_egress_policy env c now s = Inr (s', Some p) \<and>
    load_workspace_policy_file env (policy_slot s') now = Inr (Some p) \<and>
    ph_host ` set (pol_hosts p) = approved_hosts c s now \<and> \<not> pol_allow_all p \<and>
    (\<forall>r \<in> set (open_leases s now). pol_expires p \<le> max (now + 60) (er_expires r))"
proof -
  let ?b = "the_baseline env (policy_slot s) now"
  note load = agent_file_load [OF slot] and iss = agent_file_issuer [OF slot]
  let ?hs = "fromkeys (map hg_host (active_grants c s) @ map er_host (open_leases s now) @ cfg_allowlist c)"
  have hs: "set ?hs = approved_hosts c s now" by (auto simp: approved_hosts_def)
  let ?xs = "map er_expires (open_leases s now)"
  define t where "t = (if ?xs = [] then agent_egress_policy_ttl_seconds (cfg_workspace_ttl c) (cfg_container_ttl c)
     else max 60 (min (agent_egress_policy_ttl_seconds (cfg_workspace_ttl c) (cfg_container_ttl c))
       (Min (set ?xs) - now)))"
  note ttl = effective_ttl_ok [where xs = ?xs and now = now and a = "cfg_workspace_ttl c"
    and b = "cfg_container_ttl c", folded t_def]
  have names: "map_r (normalize_hostname env) ?hs = Inr ?hs" using canon hs by (intro map_r_self) simp
  have fixed: "\<forall>n \<in> set ?hs. normalize_hostname env n = Inr n" using canon hs by simp
  have ne: "?hs \<noteq> [] \<or> False" using some hs by (metis empty_set)
  have lims: "limit_ok (Some (cfg_max_requests c))" "limit_ok (Some (cfg_max_bytes c))"
    "limit_ok (Some (max 1 (cfg_max_concurrency c)))"
    using cfg(2) by (auto simp: limit_ok_def limits_ok_def)
  from derive_agent_policy [OF iso cfg(1) ttl(1,2) names fixed ne lims, where now = now]
  obtain q where q: "derive_egress_policy_for_agent env (cfg_workspace c) ?hs t False
      (Some (cfg_max_requests c)) (Some (cfg_max_bytes c)) (Some (max 1 (cfg_max_concurrency c))) now = Inr q"
    "pol_hosts q = map agent_host (fromkeys ?hs)" "\<not> pol_allow_all q"
    "pol_capability q = RESTRICTED_EGRESS" "pol_expires q = now + t" by auto
  then have q_hosts: "ph_host ` set (pol_hosts q) = approved_hosts c s now"
    using hs by (simp add: agent_host_def image_image)
  have q_exp: "\<forall>r \<in> set (open_leases s now). pol_expires q \<le> max (now + 60) (er_expires r)"
    using ttl(3) q(5) by simp
  let ?reuse = "?b \<noteq> None \<and> pol_issuer (the ?b) = agent_issuer \<and> pol_expires (the ?b) \<le> pol_expires q \<and>
    permissions (the ?b) = permissions q"
  have not_reviewed: "(case ?b of None \<Rightarrow> False | Some b \<Rightarrow> pol_issuer b \<noteq> agent_issuer) = False"
    using iss by (auto split: option.splits)
  have ens: "ensure_agent_egress_policy env c now s = (if ?reuse then Inr (s, ?b)
      else Inr (s\<lparr>policy_slot := store_workspace_policy_file q\<rparr>, Some q))"
  proof -
    have aa: "(cfg_allow_all c \<or> cfg_allow_public c) = False" using cfg(3,4) by simp
    have ne': "(?hs = [] \<and> \<not> False) = False" using ne by blast
    show ?thesis
      unfolding ensure_agent_egress_policy_def load bind_r_simps Let_def not_reviewed
      by (simp only: aa if_False append_Nil ne' t_def [symmetric] q(1) sum.case)
  qed
  show ?thesis
  proof (cases ?reuse)
    case False
    with ens q_hosts q(3) q_exp store_load [OF q(1,4)] show ?thesis by auto
  next
    case True
    then obtain b where b: "?b = Some b" by blast
    with load have "load_workspace_policy_file env (policy_slot s) now = Inr (Some b)" by simp
    from load_file_Some [OF this] obtain d where d: "validate_egress_policy env (JDict d) now = Inr b"
      by blast
    from q(1) obtain d' where d': "validate_egress_policy env (JDict d') now = Inr q"
      by (auto simp: derive_egress_policy_for_agent_def bind_r_Inr Let_def)
    from True b have perm: "permissions b = permissions q" by simp
    have "jget d ''hosts'' = jget d' ''hosts''" "jget d ''allow_all_public'' = jget d' ''allow_all_public''"
      using jget_permissions [OF perm, of "''hosts''"] jget_permissions [OF perm, of "''allow_all_public''"]
        validate_parts [OF d] validate_parts [OF d'] by auto
    with validate_parts [OF d] validate_parts [OF d'] have "pol_hosts b = pol_hosts q"
      "pol_allow_all b = pol_allow_all q" by auto
    with True b ens load q_hosts q_exp q(3) show ?thesis
      by (intro exI [of _ s] exI [of _ b]) fastforce
  qed
qed

lemma nonempty_str_Inr: "nonempty_str j why = Inr s \<longleftrightarrow> j = JStr s \<and> s \<noteq> []"
  by (cases j) auto

lemma ensure_nothing_approved:
  assumes cfg: "\<not> cfg_allow_all c" "\<not> cfg_allow_public c"
    and slot: "agent_file env (policy_slot s) now" and none: "approved_hosts c s now = {}"
  shows "\<exists>s'. ensure_agent_egress_policy env c now s = Inr (s', None) \<and>
    load_workspace_policy_file env (policy_slot s') now = Inr None"
proof -
  let ?b = "the_baseline env (policy_slot s) now"
  note load = agent_file_load [OF slot] and iss = agent_file_issuer [OF slot]
  from none have empty: "active_grants c s = []" "open_leases s now = []" "cfg_allowlist c = []"
    by (auto simp: approved_hosts_def)
  have ens: "ensure_agent_egress_policy env c now s =
      Inr (s\<lparr>policy_slot := drop_derived_file (policy_slot s)\<rparr>, None)"
    using iss cfg empty load by (auto simp: ensure_agent_egress_policy_def Let_def split: option.splits)
  have "load_workspace_policy_file env (drop_derived_file (policy_slot s)) now = Inr None"
  proof (cases ?b)
    case None
    with load show ?thesis
      by (auto simp: drop_derived_file_def load_workspace_policy_file_def split: policy_file.splits json.splits)
  next
    case (Some b)
    with load have "load_workspace_policy_file env (policy_slot s) now = Inr (Some b)" by simp
    from load_file_Some [OF this] obtain d where d: "policy_slot s = Document (JDict d)"
      "validate_egress_policy env (JDict d) now = Inr b" by blast
    then have "jget d ''issuer'' = JStr (pol_issuer b)"
      by (auto simp: validate_egress_policy_def bind_r_Inr Let_def nonempty_str_Inr)
    with iss [OF Some] d show ?thesis
      by (simp add: drop_derived_file_def load_workspace_policy_file_def)
  qed
  with ens show ?thesis by simp
qed

text \<open>
  C5. What a refresh leaves in force, for a workspace with neither a reviewed baseline nor the
  allow-all mode. The refresh succeeds and the policy file loads as exactly the policy it returns.
  With nothing approved there is no policy: the sandbox is offline. Otherwise the policy's hosts
  are exactly the active grants, the open leases and the allowlist; a revoked grant or a consumed
  or expired lease is not among them, and it expires no later than any open lease in it or, when
  that is later, one minute after the refresh.
\<close>

theorem refresh_enforces_exactly_the_approvals:
  assumes "\<forall>t. iso_parse env (iso_format env t) = Some t"
    and "cfg_workspace c \<noteq> []" "limits_ok c" "\<not> cfg_allow_all c" "\<not> cfg_allow_public c"
    and "agent_file env (policy_slot s) now"
    and "\<forall>h \<in> approved_hosts c s now. normalize_hostname env h = Inr h"
  shows "\<exists>s' po. ensure_agent_egress_policy env c now s = Inr (s', po) \<and>
    load_workspace_policy_file env (policy_slot s') now = Inr po \<and>
    (approved_hosts c s now = {} \<longrightarrow> po = None) \<and>
    (approved_hosts c s now \<noteq> {} \<longrightarrow> (\<exists>p. po = Some p \<and>
       ph_host ` set (pol_hosts p) = approved_hosts c s now \<and> \<not> pol_allow_all p \<and>
       (\<forall>r \<in> set (open_leases s now). pol_expires p \<le> max (now + 60) (er_expires r))))"
proof (cases "approved_hosts c s now = {}")
  case True
  with ensure_nothing_approved [OF assms(4,5,6) True] show ?thesis by auto
next
  case False
  with ensure_restricted [OF assms False] show ?thesis by fastforce
qed

theorem refresh_enforces_exactly_the_approvals_witness:
  "\<exists>s' p. ensure_agent_egress_policy plain_env (example_cfg ''agent_egress'' False [''api.example.com''])
      1000 empty_egress = Inr (s', Some p) \<and> ph_host ` set (pol_hosts p) = {''api.example.com''}"
proof -
  let ?c = "example_cfg ''agent_egress'' False [''api.example.com'']"
  have c: "cfg_workspace ?c \<noteq> []" "limits_ok ?c" "\<not> cfg_allow_all ?c" "\<not> cfg_allow_public ?c"
    by (simp_all add: example_cfg_def limits_ok_def)
  have f: "agent_file plain_env (policy_slot empty_egress) 1000"
    by (simp add: empty_egress_def agent_file_def load_workspace_policy_file_def)
  have h: "approved_hosts ?c empty_egress 1000 = {''api.example.com''}"
    by (simp add: approved_hosts_def active_grants_def open_leases_def empty_egress_def example_cfg_def)
  then have "\<forall>h \<in> approved_hosts ?c empty_egress 1000. normalize_hostname plain_env h = Inr h"
    by (simp add: normalize_examples)
  from refresh_enforces_exactly_the_approvals [OF plain_iso c f this] h show ?thesis by fastforce
qed

text \<open>A manager allows a host once, for five seconds; the approval refreshes the policy file.\<close>

definition short_lease :: egress_state where
  "short_lease = foldl (egress_step plain_env) empty_egress
     [Create (example_cfg ''agent_egress'' False []) (example_args ''api.example.com'' 5) 10,
      Decide (example_cfg ''agent_egress'' False []) 0 ''allow_once'' ''bob'' True 11]"

definition lease_document :: "(string \<times> json) list" where
  "lease_document = agent_document plain_env ''ws1'' [''api.example.com''] 60 False (Some 2000)
     (Some 1000000) (Some 8) 11"

lemma short_lease_slot: "policy_slot short_lease = Document (JDict lease_document)"
  "map er_expires (requests short_lease) = [15]"
  by code_simp+

lemma lease_document_valid:
  "\<exists>p. validate_egress_policy plain_env (JDict lease_document) 60 = Inr p \<and>
     pol_hosts p = [agent_host ''api.example.com''] \<and> pol_expires p = 71 \<and>
     pol_capability p = RESTRICTED_EGRESS \<and> \<not> pol_allow_all p"
proof -
  have "\<forall>n \<in> set [''api.example.com'']. normalize_hostname plain_env n = Inr n"
    by (simp add: normalize_examples)
  then have "validate_hosts plain_env [] (map agent_host_entry [''api.example.com'']) =
      Inr (map agent_host [''api.example.com''])"
    by (rule validate_agent_entries) simp_all
  then show ?thesis
    using plain_iso
    by (simp add: lease_document_def Let_def validate_egress_policy_def
        agent_document_fields restricted_capability limit_ok_def
        del: normalize_network_capability.simps validate_hosts.simps)
qed

text \<open>
  The one-minute floor outlives short leases: a host allowed once until 15 is still granted
  by the derived policy at 60.
\<close>

lemma policy_outlives_lease:
  "map er_expires (requests short_lease) = [15] \<and>
   (\<exists>p. load_workspace_policy_file plain_env (policy_slot short_lease) 60 = Inr (Some p) \<and>
      authorize_connect plain_env p ''api.example.com'' 443 ''https''
        (\<lambda>_. [Some (V4 (quad 8 8 8 8))]) 60 = Inr (Some (V4 (quad 8 8 8 8)), ''api.example.com''))"
proof -
  from lease_document_valid obtain p where
    p: "validate_egress_policy plain_env (JDict lease_document) 60 = Inr p"
      "pol_hosts p = [agent_host ''api.example.com'']" "pol_expires p = 71"
      "pol_capability p = RESTRICTED_EGRESS" "\<not> pol_allow_all p" by blast
  then have "load_workspace_policy_file plain_env (policy_slot short_lease) 60 = Inr (Some p)"
    by (simp add: short_lease_slot load_workspace_policy_file_def)
  moreover from p have "authorize_connect plain_env p ''api.example.com'' 443 ''https''
      (\<lambda>_. [Some (V4 (quad 8 8 8 8))]) 60 = Inr (Some (V4 (quad 8 8 8 8)), ''api.example.com'')"
    by (simp add: authorize_connect_def is_expired_def normalize_examples agent_host_def
        protocol_port_def classify_all_def public_example)
  ultimately show ?thesis using short_lease_slot(2) by blast
qed

text \<open>A workspace with a baseline reviewed by operations, and one host granted by the queue.\<close>

definition reviewed_document :: "(string \<times> json) list" where
  "reviewed_document = [(''workspace_id'', JStr ''ws1''), (''approval_id'', JStr ''review-7''),
     (''issuer'', JStr ''secops''), (''issued_at'', JStr ''0''), (''expires_at'', JStr ''300''),
     (''hosts'', JList [agent_host_entry ''partner.example.org''])]"

definition reviewed_state :: egress_state where
  "reviewed_state = empty_egress\<lparr>policy_slot := Document (JDict reviewed_document),
     grants := [\<lparr>hg_capability = ''agent_egress'', hg_subject_type = ''workspace'', hg_subject_id = ''ws1'',
       hg_host = ''api.example.com'', hg_source = 0, hg_granted_by = ''bob'', hg_granted_at = 5,
       hg_revoked = None\<rparr>]\<rparr>"

definition loaded_hosts :: "egress_state \<Rightarrow> instant \<Rightarrow> string list" where
  "loaded_hosts s now = (case load_workspace_policy_file plain_env (policy_slot s) now of
     Inr (Some p) \<Rightarrow> map ph_host (pol_hosts p) | _ \<Rightarrow> [])"

definition union_document :: "(string \<times> json) list" where
  "union_document = agent_document plain_env ''ws1'' [''partner.example.org'', ''api.example.com''] 290
     False (Some 2000) (Some 1000000) (Some 8) 10"

lemma refresh_once:
  "refresh_policy plain_env (example_cfg ''agent_egress'' False []) 10 reviewed_state =
     reviewed_state\<lparr>policy_slot := Document (JDict union_document)\<rparr>"
  by code_simp

lemma refresh_twice:
  "loaded_hosts (refresh_policy plain_env (example_cfg ''agent_egress'' False []) 11
     (reviewed_state\<lparr>policy_slot := Document (JDict union_document)\<rparr>)) 11 = [''api.example.com'']"
  by code_simp

lemma reviewed_loads: "loaded_hosts reviewed_state 10 = [''partner.example.org'']"
  "loaded_hosts (reviewed_state\<lparr>policy_slot := Document (JDict union_document)\<rparr>) 10 =
     [''partner.example.org'', ''api.example.com'']"
  by code_simp+

text \<open>
  A reviewed baseline survives one refresh only. The first refresh unions it with the grants,
  but stores the union in the baseline's own file under the agent's issuer, so the second refresh
  no longer sees a reviewed baseline and drops its hosts.
\<close>

lemma second_refresh_drops_reviewed_hosts:
  "let c = example_cfg ''agent_egress'' False [];
       s1 = refresh_policy plain_env c 10 reviewed_state;
       s2 = refresh_policy plain_env c 11 s1
   in loaded_hosts reviewed_state 10 = [''partner.example.org''] \<and>
      loaded_hosts s1 10 = [''partner.example.org'', ''api.example.com''] \<and>
      loaded_hosts s2 11 = [''api.example.com'']"
  by (simp only: Let_def refresh_once refresh_twice reviewed_loads simp_thms)

end
