(* ===== verification/Mastery.thy ===== *)
theory Mastery
  imports Prelude Pystr Complex_Main "HOL-Library.List_Lexorder" "HOL-Library.Char_ord"
begin

text \<open>
  Milestones and review scheduling: \<open>backend/app/services/mastery.py\<close>, class \<open>MasteryService\<close>,
  with the tables it writes (graph nodes, evidence, schedules, session cursors, message admissions
  and review jobs of one workspace).

  The durable work is a queue of review jobs. A session cursor counts the messages not yet
  reviewed; a job snapshots the cursor when it is enqueued and moves it when it completes.
  \<open>run_body\<close>'s exception (a database error) is the argument \<open>fault\<close>; a process that dies between the
  two transactions of \<open>_execute_job\<close> stops after \<open>start_job\<close>. Human texts (reasons, summaries) and
  the audit trail are left out; a review digest is a function of the configuration.
\<close>

section \<open>State\<close>

record mnode =
  mn_id :: string
  mn_stars :: int
  mn_retrieval :: string
  mn_evidence :: string

record mschedule =
  sc_node :: string
  sc_next :: "instant option"
  sc_last_recall :: "instant option"
  sc_pending :: int

record mcursor =
  mc_session :: string
  mc_pending :: int
  mc_counts :: "(string, int) dict"
  mc_nodes :: "string list"
  mc_activity :: int
  mc_processed :: int
  mc_enqueued :: int
  mc_last_message :: "string option"
  mc_last_activity :: instant
  mc_idle_due :: "instant option"
  mc_last_processed :: "instant option"

record mactivity =
  ma_message :: string
  ma_session :: string
  ma_version :: int
  ma_nodes :: "string list"
  ma_at :: instant

record mevidence =
  ev_id :: nat
  ev_node :: string
  ev_source :: string
  ev_confidence :: rat
  ev_status :: string
  ev_meta :: "(string, json) dict"

datatype job_status = Queued | Running | Completed | Failed

datatype job_key = Session_key string int | Periodic_key string

datatype job_kind = Node_review | Session_activity | Due_schedule

record job_report =
  rp_kind :: job_kind
  rp_requested_at :: instant
  rp_session :: string
  rp_version :: int
  rp_pending :: int
  rp_counts :: "(string, int) dict"
  rp_messages :: "string list"
  rp_triggers :: "string list"
  rp_snapshot :: "(string \<times> instant) list"
  rp_marked :: "string list"
  rp_missing :: "string list"
  rp_completed_at :: "instant option"

record mjob =
  mj_id :: nat
  mj_trigger :: string
  mj_status :: job_status
  mj_key :: "job_key option"
  mj_attempts :: int
  mj_started :: "instant option"
  mj_completed :: "instant option"
  mj_error :: string
  mj_nodes :: "string list"
  mj_report :: job_report

record mstate =
  m_nodes :: "mnode list"
  m_schedules :: "mschedule list"
  m_cursors :: "mcursor list"
  m_activities :: "mactivity list"
  m_evidence :: "mevidence list"
  m_jobs :: "mjob list"

record mconfig =
  cf_threshold :: int
  cf_idle :: int
  cf_lease :: int
  cf_attempts :: int
  cf_digest :: "(string \<times> instant) list \<Rightarrow> string"

section \<open>Schedules and evidence\<close>

definition review_interval_days :: "int list" where
  "review_interval_days = [1, 3, 7, 14, 30, 45, 60, 90]"

definition day :: int where "day = 86400"

text \<open>\<open>ensure_schedule\<close>: the node's schedule, created without a review date when there is none.\<close>

definition ensure_schedule :: "string \<Rightarrow> mstate \<Rightarrow> mstate" where
  "ensure_schedule nid s = (case row_get sc_node nid (m_schedules s) of
      Some _ \<Rightarrow> s
    | None \<Rightarrow> s\<lparr>m_schedules := m_schedules s @ [\<lparr>sc_node = nid, sc_next = None,
        sc_last_recall = None, sc_pending = 0\<rparr>]\<rparr>)"

definition set_node :: "string \<Rightarrow> (mnode \<Rightarrow> mnode) \<Rightarrow> mstate \<Rightarrow> mstate" where
  "set_node nid f s = s\<lparr>m_nodes := row_mod mn_id nid f (m_nodes s)\<rparr>"

definition set_schedule :: "string \<Rightarrow> (mschedule \<Rightarrow> mschedule) \<Rightarrow> mstate \<Rightarrow> mstate" where
  "set_schedule nid f s = s\<lparr>m_schedules := row_mod sc_node nid f (m_schedules s)\<rparr>"

text \<open>\<open>_mark_success\<close>: the interval follows the stars, capped at the two shortest when assisted.\<close>

definition interval_index :: "int \<Rightarrow> bool \<Rightarrow> nat" where
  "interval_index stars assisted =
     (let i = min (nat (max (stars - 1) 0)) (length review_interval_days - 1)
      in if assisted then min i 1 else i)"

definition accepted_count :: "string \<Rightarrow> mstate \<Rightarrow> nat" where
  "accepted_count nid s = length (take 3
     (filter (\<lambda>e. ev_node e = nid \<and> ev_status e = ''accepted'') (m_evidence s)))"

definition mark_success :: "string \<Rightarrow> int \<Rightarrow> bool \<Rightarrow> instant \<Rightarrow> mstate \<Rightarrow> mstate" where
  "mark_success nid stars assisted clock s =
     (let days = review_interval_days ! interval_index stars assisted;
          multi = (2 \<le> accepted_count nid s)
      in set_schedule nid (\<lambda>c. c\<lparr>sc_last_recall := Some clock, sc_next := Some (clock + days * day)\<rparr>)
        (set_node nid (\<lambda>n. n\<lparr>mn_retrieval := ''fresh'',
            mn_evidence := (if multi then ''multi'' else ''single'')\<rparr>) s))"

definition mark_conflict :: "string \<Rightarrow> instant \<Rightarrow> mstate \<Rightarrow> mstate" where
  "mark_conflict nid clock s =
     set_schedule nid (\<lambda>c. c\<lparr>sc_next := Some clock\<rparr>)
       (set_node nid (\<lambda>n. n\<lparr>mn_retrieval := ''relearning'', mn_evidence := ''conflicted''\<rparr>) s)"

definition set_meta :: "nat \<Rightarrow> (string, json) dict \<Rightarrow> mstate \<Rightarrow> mstate" where
  "set_meta eid meta s = s\<lparr>m_evidence := row_mod ev_id eid (\<lambda>e. e\<lparr>ev_meta := meta\<rparr>) (m_evidence s)\<rparr>"

definition high_quality :: "mevidence \<Rightarrow> bool" where
  "high_quality e \<longleftrightarrow> (ev_source e = ''exercise'' \<and> 4 / 5 \<le> ev_confidence e) \<or>
     (ev_source e \<in> {''artifact'', ''user_correction''} \<and> 17 / 20 \<le> ev_confidence e) \<or>
     jget (ev_meta e) ''first_effective_inquiry'' = JBool True"

definition clamp_stars :: "int \<Rightarrow> int" where
  "clamp_stars n = max 0 (min 15 n)"

text \<open>\<open>apply_evidence\<close>: the result is whether a star was awarded.\<close>

definition apply_evidence ::
  "mevidence \<Rightarrow> mnode \<Rightarrow> int \<Rightarrow> int \<Rightarrow> instant \<Rightarrow> mstate \<Rightarrow> mstate \<times> bool" where
  "apply_evidence e n attempt_index hint_count clock s0 =
     (let s = ensure_schedule (mn_id n) s0;
          assisted = (attempt_index > 1 \<or> hint_count > 0);
          old = clamp_stars (mn_stars n) in
      if truthy (jget (ev_meta e) ''mastery_event_applied'') then (s, False)
      else if ev_status e = ''accepted'' then
        let candidate = (if high_quality e then min 15 (old + 1) else old);
            stars = max old candidate;
            awarded = (stars > old);
            s1 = set_node (mn_id n) (\<lambda>r. r\<lparr>mn_stars := stars\<rparr>) s;
            s2 = mark_success (mn_id n) stars assisted clock s1;
            meta = AList.update ''mastery_awarded_star'' (JBool awarded)
              (AList.update ''mastery_event_applied'' (JBool True) (ev_meta e))
        in (set_meta (ev_id e) meta s2, awarded)
      else if ev_source e = ''exercise'' \<and> ev_confidence e < 1 / 2 then
        let s1 = set_node (mn_id n) (\<lambda>r. r\<lparr>mn_stars := old\<rparr>) s
        in (set_meta (ev_id e) (AList.update ''mastery_event_applied'' (JBool True) (ev_meta e))
             (mark_conflict (mn_id n) clock s1), False)
      else (set_node (mn_id n) (\<lambda>r. r\<lparr>mn_stars := old\<rparr>) s, False))"

section \<open>Jobs\<close>

definition enqueue_job ::
  "string \<Rightarrow> string list \<Rightarrow> job_report \<Rightarrow> job_key option \<Rightarrow> mstate \<Rightarrow> mstate \<times> mjob \<times> bool" where
  "enqueue_job trigger nodes report key s =
     (case (if key = None then None else row_get mj_key key (m_jobs s)) of
        Some j \<Rightarrow> (s, j, False)
      | None \<Rightarrow>
          let j = \<lparr>mj_id = length (m_jobs s), mj_trigger = trigger, mj_status = Queued, mj_key = key,
                mj_attempts = 0, mj_started = None, mj_completed = None, mj_error = [],
                mj_nodes = nodes, mj_report = report\<rparr>
          in (s\<lparr>m_jobs := m_jobs s @ [j]\<rparr>, j, True))"

definition set_job :: "nat \<Rightarrow> (mjob \<Rightarrow> mjob) \<Rightarrow> mstate \<Rightarrow> mstate" where
  "set_job i f s = s\<lparr>m_jobs := row_mod mj_id i f (m_jobs s)\<rparr>"

definition set_cursor :: "string \<Rightarrow> (mcursor \<Rightarrow> mcursor) \<Rightarrow> mstate \<Rightarrow> mstate" where
  "set_cursor sid f s = s\<lparr>m_cursors := row_mod mc_session sid f (m_cursors s)\<rparr>"

definition blank_report :: "job_kind \<Rightarrow> instant \<Rightarrow> job_report" where
  "blank_report k now = \<lparr>rp_kind = k, rp_requested_at = now, rp_session = [], rp_version = 0,
     rp_pending = 0, rp_counts = [], rp_messages = [], rp_triggers = [], rp_snapshot = [],
     rp_marked = [], rp_missing = [], rp_completed_at = None\<rparr>"

text \<open>The snapshot of a cursor.\<close>

definition session_report :: "mcursor \<Rightarrow> string \<Rightarrow> instant \<Rightarrow> mstate \<Rightarrow> job_report" where
  "session_report c trigger now s = (blank_report Session_activity now)\<lparr>rp_session := mc_session c,
     rp_version := mc_activity c, rp_pending := mc_pending c, rp_counts := mc_counts c,
     rp_messages := map ma_message (filter (\<lambda>a. ma_session a = mc_session c \<and>
       mc_processed c < ma_version a \<and> ma_version a \<le> mc_activity c) (m_activities s)),
     rp_triggers := [trigger]\<rparr>"

definition add_trigger :: "string \<Rightarrow> mjob \<Rightarrow> mjob" where
  "add_trigger trigger j =
     (let ts = (if rp_triggers (mj_report j) = [] then [mj_trigger j] else rp_triggers (mj_report j))
      in if trigger \<in> set ts then j
         else j\<lparr>mj_report := (mj_report j)\<lparr>rp_triggers := ts @ [trigger]\<rparr>\<rparr>)"

definition enqueue_session_job ::
  "mcursor \<Rightarrow> string \<Rightarrow> instant \<Rightarrow> bool \<Rightarrow> mstate \<Rightarrow> mstate \<times> nat \<times> bool" where
  "enqueue_session_job c trigger now force s =
     (case enqueue_job trigger (map fst (mc_counts c)) (session_report c trigger now s)
          (Some (Session_key (mc_session c) (mc_activity c))) s of
        (s1, j, created) \<Rightarrow>
          let s2 = (if created then s1
                else set_job (mj_id j) (\<lambda>j. let j' = add_trigger trigger j in
                  if force \<and> mj_status j = Queued then j'\<lparr>mj_trigger := trigger\<rparr> else j') s1);
              s3 = (if created \<or> force
                then set_cursor (mc_session c)
                  (\<lambda>x. x\<lparr>mc_enqueued := max (mc_enqueued x) (mc_activity c)\<rparr>) s2
                else s2)
          in (s3, mj_id j, created))"

section \<open>Messages\<close>

text \<open>\<open>ensure_session_state\<close>\<close>

definition ensure_cursor :: "string \<Rightarrow> instant \<Rightarrow> mstate \<Rightarrow> mstate" where
  "ensure_cursor sid now s = (case row_get mc_session sid (m_cursors s) of
      Some _ \<Rightarrow> s
    | None \<Rightarrow> s\<lparr>m_cursors := m_cursors s @ [\<lparr>mc_session = sid, mc_pending = 0, mc_counts = [],
        mc_nodes = [], mc_activity = 0, mc_processed = 0, mc_enqueued = 0, mc_last_message = None,
        mc_last_activity = now, mc_idle_due = None, mc_last_processed = None\<rparr>]\<rparr>)"

definition bump :: "(string, int) dict \<Rightarrow> string \<Rightarrow> (string, int) dict" where
  "bump d n = AList.update n (dict_get d n 0 + 1) d"

definition touch_cursor :: "mconfig \<Rightarrow> string \<Rightarrow> string list \<Rightarrow> instant \<Rightarrow> mcursor \<Rightarrow> mcursor" where
  "touch_cursor cf message nodes now c =
     (let counts = foldl bump (mc_counts c) nodes in
      c\<lparr>mc_pending := mc_pending c + 1, mc_activity := mc_activity c + 1,
        mc_last_message := Some message, mc_last_activity := now,
        mc_idle_due := Some (now + max 1 (cf_idle cf)), mc_counts := counts, mc_nodes := map fst counts\<rparr>)"

text \<open>\<open>_evidence_for_message\<close>: conversation evidence of this message on this node.\<close>

definition evidence_for_message :: "string \<Rightarrow> string \<Rightarrow> mstate \<Rightarrow> mevidence option" where
  "evidence_for_message message nid s = find (\<lambda>e. ev_node e = nid \<and> ev_source e = ''conversation'' \<and>
     jget (ev_meta e) ''message_id'' = JStr message) (m_evidence s)"

definition inquiry :: "string \<Rightarrow> string \<Rightarrow> mnode \<Rightarrow> nat \<Rightarrow> mevidence" where
  "inquiry message sid n i = \<lparr>ev_id = i, ev_node = mn_id n, ev_source = ''conversation'',
     ev_confidence = 1 / 2, ev_status = ''accepted'',
     ev_meta = [(''message_id'', JStr message), (''session_id'', JStr sid),
       (''first_effective_inquiry'', JBool (mn_stars n = 0)),
       (''attribution'', JStr ''explicit_node_selection'')]\<rparr>"

text \<open>The evidence of one message on one node; the list collects the nodes that won a star.\<close>

definition inquire ::
  "string \<Rightarrow> string \<Rightarrow> instant \<Rightarrow> string \<Rightarrow> mstate \<times> string list \<Rightarrow> (mstate \<times> string list) result" where
  "inquire message sid clock nid = (\<lambda>(s, awarded).
     case row_get mn_id nid (m_nodes s) of
       None \<Rightarrow> Inl (App_error 404 ''not_found'')
     | Some n \<Rightarrow>
         if evidence_for_message message nid s \<noteq> None then Inr (s, awarded)
         else
           let e = inquiry message sid n (length (m_evidence s));
               s1 = ensure_schedule nid (s\<lparr>m_evidence := m_evidence s @ [e]\<rparr>);
               s2 = set_schedule nid (\<lambda>c. c\<lparr>sc_pending := sc_pending c + 1\<rparr>) s1;
               (s3, star) = apply_evidence e n 1 0 clock s2
           in Inr (s3, if star then awarded @ [nid] else awarded))"

fun fold_r :: "('a \<Rightarrow> 's \<Rightarrow> 'e + 's) \<Rightarrow> 'a list \<Rightarrow> 's \<Rightarrow> 'e + 's" where
  "fold_r f [] s = Inr s"
| "fold_r f (x # xs) s = bind_r (f x s) (fold_r f xs)"

text \<open>The admission of a message: its cursor moves and its activity row is written.\<close>

definition admit_message ::
  "mconfig \<Rightarrow> string \<Rightarrow> string \<Rightarrow> string list \<Rightarrow> instant \<Rightarrow> mstate \<Rightarrow> mstate" where
  "admit_message cf message sid nodes now s =
     (let s1 = set_cursor sid (touch_cursor cf message nodes now) (ensure_cursor sid now s);
          version = (case row_get mc_session sid (m_cursors s1) of None \<Rightarrow> 0 | Some c \<Rightarrow> mc_activity c)
      in s1\<lparr>m_activities := m_activities s1 @ [\<lparr>ma_message = message, ma_session = sid,
           ma_version = version, ma_nodes = nodes, ma_at = now\<rparr>]\<rparr>)"

definition threshold_job :: "mconfig \<Rightarrow> string \<Rightarrow> instant \<Rightarrow> mstate \<Rightarrow> mstate" where
  "threshold_job cf sid now s = (case row_get mc_session sid (m_cursors s) of
      None \<Rightarrow> s
    | Some c \<Rightarrow>
        if max 1 (cf_threshold cf) \<le> mc_pending c \<and> mc_enqueued c \<le> mc_processed c
        then fst (enqueue_session_job c ''message_threshold'' now False s) else s)"

definition record_message ::
  "mconfig \<Rightarrow> string \<Rightarrow> string \<Rightarrow> string list \<Rightarrow> instant \<Rightarrow> instant \<Rightarrow> mstate
     \<Rightarrow> (mstate \<times> string list) result" where
  "record_message cf message sid node_ids now clock s =
     (let nodes = fromkeys node_ids in
      if row_get ma_message message (m_activities s) \<noteq> None then Inr (s, [])
      else bind_r (fold_r (inquire message sid clock) nodes (admit_message cf message sid nodes now s, []))
        (\<lambda>(s3, awarded). Inr (threshold_job cf sid now s3, awarded)))"

section \<open>Execution\<close>

text \<open>\<open>_mark_nodes_due\<close>: the nodes marked and the ids that name no node.\<close>

definition is_due :: "instant \<Rightarrow> mstate \<Rightarrow> mnode \<Rightarrow> bool" where
  "is_due now s n \<longleftrightarrow> (case row_get sc_node (mn_id n) (m_schedules s) of
       None \<Rightarrow> False
     | Some c \<Rightarrow> (case sc_next c of None \<Rightarrow> False | Some t \<Rightarrow> t \<le> now)) \<and> mn_retrieval n \<noteq> ''relearning''"

definition mark_nodes_due ::
  "string list \<Rightarrow> instant \<Rightarrow> mstate \<Rightarrow> mstate \<times> string list \<times> string list" where
  "mark_nodes_due ids now s =
     (let unique = fromkeys ids;
          present = filter (\<lambda>i. row_get mn_id i (m_nodes s) \<noteq> None) unique;
          marked = filter (\<lambda>i. is_due now s (the (row_get mn_id i (m_nodes s)))) present;
          s' = foldl (\<lambda>s i. set_node i (\<lambda>n. n\<lparr>mn_retrieval := ''due''\<rparr>) s) s marked
      in (s', marked, filter (\<lambda>i. row_get mn_id i (m_nodes s) = None) unique))"

text \<open>\<open>_complete_session_cursor\<close>: subtract what the job has seen.\<close>

definition subtract_counts :: "(string, int) dict \<Rightarrow> (string, int) dict \<Rightarrow> (string, int) dict" where
  "subtract_counts done counts =
     foldl (\<lambda>d (n, k). let left = dict_get d n 0 - k in
       if left > 0 then AList.update n left d else AList.delete n d) counts done"

definition settle_schedules :: "(string, int) dict \<Rightarrow> mstate \<Rightarrow> mstate" where
  "settle_schedules done s = foldl (\<lambda>s (n, k).
     set_schedule n (\<lambda>c. c\<lparr>sc_pending := max 0 (sc_pending c - k)\<rparr>) s) s done"

definition settle_cursor :: "mconfig \<Rightarrow> job_report \<Rightarrow> instant \<Rightarrow> mcursor \<Rightarrow> mcursor" where
  "settle_cursor cf r now c =
     (let counts = subtract_counts (rp_counts r) (mc_counts c);
          pending = max 0 (mc_pending c - rp_pending r)
      in c\<lparr>mc_processed := max (mc_processed c) (rp_version r), mc_pending := pending,
           mc_counts := counts, mc_nodes := map fst counts, mc_last_processed := Some now,
           mc_enqueued := 0,
           mc_idle_due := (if pending = 0 then None
             else Some (mc_last_activity c + max 1 (cf_idle cf)))\<rparr>)"

definition complete_session_cursor :: "mconfig \<Rightarrow> job_report \<Rightarrow> instant \<Rightarrow> mstate \<Rightarrow> mstate" where
  "complete_session_cursor cf r now s =
     (case row_get mc_session (rp_session r) (m_cursors s) of
        None \<Rightarrow> s
      | Some _ \<Rightarrow> set_cursor (rp_session r) (settle_cursor cf r now) (settle_schedules (rp_counts r) s))"

text \<open>\<open>_execute_job\<close>, its two transactions. \<open>fault\<close>: the second one raises and is rolled back.\<close>

definition start_job :: "nat \<Rightarrow> instant \<Rightarrow> mstate \<Rightarrow> mstate" where
  "start_job i now s = set_job i (\<lambda>j. j\<lparr>mj_status := Running, mj_attempts := mj_attempts j + 1,
     mj_started := Some now, mj_error := []\<rparr>) s"

definition job_body :: "mconfig \<Rightarrow> mjob \<Rightarrow> instant \<Rightarrow> mstate \<Rightarrow> mstate" where
  "job_body cf j now s =
     (let r = mj_report j;
          (s1, marked, missing) = mark_nodes_due (mj_nodes j) now s;
          s2 = (if rp_kind r = Session_activity then complete_session_cursor cf r now s1 else s1)
      in set_job (mj_id j) (\<lambda>x. x\<lparr>mj_report := r\<lparr>rp_marked := marked, rp_missing := missing,
             rp_completed_at := Some now\<rparr>, mj_status := Completed, mj_completed := Some now,
             mj_error := []\<rparr>) s2)"

definition fail_job :: "mconfig \<Rightarrow> nat \<Rightarrow> mstate \<Rightarrow> mstate" where
  "fail_job cf i s = set_job i (\<lambda>j.
     let again = (mj_attempts j < max 1 (cf_attempts cf)) in
     j\<lparr>mj_status := (if again then Queued else Failed),
       mj_started := (if again then None else mj_started j),
       mj_error := ''scheduler execution failed''\<rparr>) s"

definition execute_job ::
  "mconfig \<Rightarrow> nat \<Rightarrow> instant \<Rightarrow> bool \<Rightarrow> mstate \<Rightarrow> (mstate \<times> job_status) result" where
  "execute_job cf i now fault s = (case row_get mj_id i (m_jobs s) of
      None \<Rightarrow> Inl (App_error 404 ''not_found'')
    | Some j0 \<Rightarrow>
        if mj_status j0 \<in> {Completed, Failed} then Inr (s, mj_status j0)
        else
          let s1 = start_job i now s in
          (case row_get mj_id i (m_jobs s1) of
             None \<Rightarrow> Inl (App_error 404 ''not_found'')
           | Some j \<Rightarrow>
               let s2 = (if fault then fail_job cf i s1 else job_body cf j now s1)
               in Inr (s2, case row_get mj_id i (m_jobs s2) of Some j \<Rightarrow> mj_status j | None \<Rightarrow> Failed)))"

text \<open>\<open>_recover_expired_jobs\<close>\<close>

definition lease_expired :: "mconfig \<Rightarrow> instant \<Rightarrow> mjob \<Rightarrow> bool" where
  "lease_expired cf now j \<longleftrightarrow> mj_status j = Running \<and>
     (case mj_started j of None \<Rightarrow> False | Some t \<Rightarrow> t \<le> now - max 1 (cf_lease cf))"

definition recover_job :: "mconfig \<Rightarrow> mjob \<Rightarrow> mjob" where
  "recover_job cf j = (if max 1 (cf_attempts cf) \<le> mj_attempts j
     then j\<lparr>mj_status := Failed, mj_error := ''Scheduler lease expired after maximum attempts''\<rparr>
     else j\<lparr>mj_status := Queued, mj_started := None, mj_error := ''Recovered after scheduler lease expiry''\<rparr>)"

definition recover_expired_jobs :: "mconfig \<Rightarrow> instant \<Rightarrow> mstate \<Rightarrow> mstate \<times> nat list \<times> nat list" where
  "recover_expired_jobs cf now s =
     (let expired = filter (lease_expired cf now) (m_jobs s);
          over = (\<lambda>j. max 1 (cf_attempts cf) \<le> mj_attempts j)
      in (s\<lparr>m_jobs := map (\<lambda>j. if lease_expired cf now j then recover_job cf j else j) (m_jobs s)\<rparr>,
          map mj_id (filter (\<lambda>j. \<not> over j) expired), map mj_id (filter over expired)))"

section \<open>Reviews and the scheduler\<close>

text \<open>\<open>_due_nodes\<close> and \<open>_due_snapshot\<close>\<close>

definition due_nodes :: "instant \<Rightarrow> mstate \<Rightarrow> mnode list" where
  "due_nodes now s = List.map_filter (\<lambda>c. row_get mn_id (sc_node c) (m_nodes s))
     (filter (\<lambda>c. case sc_next c of None \<Rightarrow> False | Some t \<Rightarrow> t \<le> now) (m_schedules s))"

definition due_snapshot :: "mnode list \<Rightarrow> mstate \<Rightarrow> (string \<times> instant) list" where
  "due_snapshot ns s = List.map_filter (\<lambda>n.
     (case row_get sc_node (mn_id n) (m_schedules s) of
        None \<Rightarrow> None
      | Some c \<Rightarrow> map_option (Pair (mn_id n)) (sc_next c))) ns"

definition session_waiting :: "mcursor \<Rightarrow> bool" where
  "session_waiting c \<longleftrightarrow> mc_enqueued c \<le> mc_processed c"

text \<open>
  One enqueue loop of the tick over the cursors it selected; the row is read again, as the ORM
  object is shared. The result lists the jobs created with their sessions.
\<close>

definition enqueue_sessions ::
  "string \<Rightarrow> instant \<Rightarrow> string list \<Rightarrow> mstate \<Rightarrow> mstate \<times> (nat \<times> string) list" where
  "enqueue_sessions trigger now sids s = foldl (\<lambda>(s, made) sid.
     (case row_get mc_session sid (m_cursors s) of
        None \<Rightarrow> (s, made)
      | Some c \<Rightarrow>
          (case enqueue_session_job c trigger now False s of
             (s', i, created) \<Rightarrow> (s', if created then made @ [(i, sid)] else made)))) (s, []) sids"

definition enqueue_due :: "mconfig \<Rightarrow> instant \<Rightarrow> mstate \<Rightarrow> mstate \<times> nat list" where
  "enqueue_due cf now s =
     (let due = due_nodes now s in
      if due = [] then (s, [])
      else
        let snap = due_snapshot due s in
        (case enqueue_job ''periodic'' (map mn_id due)
            ((blank_report Due_schedule now)\<lparr>rp_snapshot := snap\<rparr>)
            (Some (Periodic_key (cf_digest cf (sort_key fst snap)))) s of
           (s', j, created) \<Rightarrow> (s', if created then [mj_id j] else [])))"

text \<open>Draining the queue; \<open>fault i\<close> says whether the body of job \<open>i\<close> raises in this tick.\<close>

definition drain ::
  "mconfig \<Rightarrow> instant \<Rightarrow> (nat \<Rightarrow> bool) \<Rightarrow> nat list \<Rightarrow> mstate \<times> nat list \<times> nat list
     \<Rightarrow> mstate \<times> nat list \<times> nat list" where
  "drain cf now fault ids st = foldl (\<lambda>(s, completed, failed) i.
     (case execute_job cf i now (fault i) s of
        Inl e \<Rightarrow> (s, completed, failed)
      | Inr (s', status) \<Rightarrow>
          (s', if status = Completed then completed @ [i] else completed,
           if status = Failed then failed @ [i] else failed))) st ids"

record tick_view =
  tv_recovered :: "nat list"
  tv_enqueued :: "nat list"
  tv_completed :: "nat list"
  tv_failed :: "nat list"
  tv_threshold :: "string list"
  tv_idle :: "string list"
  tv_due :: "string list"

definition scheduler_tick ::
  "mconfig \<Rightarrow> instant \<Rightarrow> bool \<Rightarrow> (nat \<Rightarrow> bool) \<Rightarrow> mstate \<Rightarrow> mstate \<times> tick_view" where
  "scheduler_tick cf now execute fault s0 =
     (case recover_expired_jobs cf now s0 of (s1, recovered, exhausted) \<Rightarrow>
      let full = filter (\<lambda>c. max 1 (cf_threshold cf) \<le> mc_pending c \<and> session_waiting c) (m_cursors s1);
          (s2, byThreshold) = enqueue_sessions ''message_threshold'' now (map mc_session full) s1;
          idle = filter (\<lambda>c. 0 < mc_pending c \<and>
            (case mc_idle_due c of None \<Rightarrow> False | Some t \<Rightarrow> t \<le> now) \<and> session_waiting c) (m_cursors s2);
          (s3, byIdle) = enqueue_sessions ''idle'' now
            (filter (\<lambda>sid. sid \<notin> snd ` set byThreshold) (map mc_session idle)) s2;
          due = map mn_id (due_nodes now s3);
          (s4, periodic) = enqueue_due cf now s3;
          queued = map mj_id (filter (\<lambda>j. mj_status j = Queued) (m_jobs s4));
          (s5, completed, failed) =
            (if execute then drain cf now fault queued (s4, [], exhausted) else (s4, [], exhausted))
      in (s5, \<lparr>tv_recovered = recovered, tv_enqueued = map fst byThreshold @ map fst byIdle @ periodic,
           tv_completed = completed, tv_failed = failed, tv_threshold = map snd byThreshold,
           tv_idle = map snd byIdle, tv_due = due\<rparr>))"

text \<open>\<open>run_review\<close>: the given nodes, or those that are due.\<close>

definition run_review ::
  "mconfig \<Rightarrow> string \<Rightarrow> string list option \<Rightarrow> instant \<Rightarrow> bool \<Rightarrow> mstate \<Rightarrow> (mstate \<times> mjob) result" where
  "run_review cf trigger node_ids now fault s =
     bind_r (case node_ids of
         Some (i # is) \<Rightarrow> map_r (\<lambda>i. case row_get mn_id i (m_nodes s) of
             None \<Rightarrow> Inl (App_error 404 ''not_found'') | Some n \<Rightarrow> Inr n) (fromkeys (i # is))
       | _ \<Rightarrow> Inr (due_nodes now s)) (\<lambda>nodes.
     case enqueue_job trigger (map mn_id nodes) (blank_report Node_review now) None s of
       (s1, j, _) \<Rightarrow>
         bind_r (execute_job cf (mj_id j) now fault s1) (\<lambda>(s2, _).
           case row_get mj_id (mj_id j) (m_jobs s2) of
             None \<Rightarrow> Inl (App_error 404 ''not_found'')
           | Some j' \<Rightarrow> Inr (s2, j')))"

definition add_nodes :: "string list \<Rightarrow> mcursor \<Rightarrow> mcursor" where
  "add_nodes ids c = (let counts = foldl (\<lambda>d n. if map_of d n = None then AList.update n 0 d else d)
       (mc_counts c) ids
     in c\<lparr>mc_counts := counts, mc_nodes := map fst counts\<rparr>)"

text \<open>\<open>run_session_review\<close>: one forced job for the session, executed at once.\<close>

definition run_session_review ::
  "mconfig \<Rightarrow> string \<Rightarrow> string \<Rightarrow> string list option \<Rightarrow> instant \<Rightarrow> bool \<Rightarrow> mstate
     \<Rightarrow> (mstate \<times> mjob) result" where
  "run_session_review cf sid trigger node_ids now fault s =
     (let s1 = ensure_cursor sid now s;
          ids = (case node_ids of None \<Rightarrow> [] | Some is \<Rightarrow> fromkeys is) in
      require (list_all (\<lambda>i. row_get mn_id i (m_nodes s1) \<noteq> None) ids) (App_error 404 ''not_found'')
      (let s2 = (if ids = [] then s1 else set_cursor sid (add_nodes ids) s1) in
       case row_get mc_session sid (m_cursors s2) of
         None \<Rightarrow> Inl (Python_error ''unreachable'')
       | Some c \<Rightarrow>
           (case enqueue_session_job c trigger now True s2 of (s3, i, _) \<Rightarrow>
             bind_r (execute_job cf i now fault s3) (\<lambda>(s4, _).
               case row_get mj_id i (m_jobs s4) of
                 None \<Rightarrow> Inl (App_error 404 ''not_found'')
               | Some j \<Rightarrow> Inr (s4, j)))))"

end
