(* ===== verification/Mastery_Facts.thy ===== *)
theory Mastery_Facts
  imports Mastery
begin

text \<open>
  Properties of the mastery service: stars only grow, evidence counts once, review intervals,
  idempotent message admission, bounded retries, and one job per dedupe key.
\<close>

section \<open>Calls and runs\<close>

text \<open>
  The calls of the service. \<open>Start\<close> and \<open>Finish\<close> are the two transactions of \<open>_execute_job\<close> as
  separate steps, so that anything may happen while a job runs and a scheduler may die before the
  second one; \<open>Session_review\<close> is the forced review when a session closes.
\<close>

datatype sched_op =
    Message string string "string list" instant instant
  | Evidence nat int int instant
  | Tick instant bool "nat \<Rightarrow> bool"
  | Review string "string list option" instant bool
  | Start nat instant
  | Finish nat instant bool

definition m_after :: "mstate \<Rightarrow> (mstate \<times> 'a) result \<Rightarrow> mstate" where
  "m_after s res = (case res of Inl e \<Rightarrow> s | Inr (s', _) \<Rightarrow> s')"

definition is_queued :: "nat \<Rightarrow> mstate \<Rightarrow> bool" where
  "is_queued i s \<longleftrightarrow> (case row_get mj_id i (m_jobs s) of None \<Rightarrow> False | Some j \<Rightarrow> mj_status j = Queued)"

text \<open>The second transaction of a running job: it fails, or its body completes it.\<close>

definition end_execution :: "mconfig \<Rightarrow> nat \<Rightarrow> instant \<Rightarrow> bool \<Rightarrow> mstate \<Rightarrow> mstate" where
  "end_execution cf i now fault s = (case row_get mj_id i (m_jobs s) of
      None \<Rightarrow> s
    | Some j \<Rightarrow> if mj_status j \<noteq> Running then s
        else if fault then fail_job cf i s else job_body cf j now s)"

fun sched_step :: "mconfig \<Rightarrow> mstate \<Rightarrow> sched_op \<Rightarrow> mstate" where
  "sched_step cf s (Message m sid ns now clock) = m_after s (record_message cf m sid ns now clock s)"
| "sched_step cf s (Evidence eid att hint clock) =
     (case row_get ev_id eid (m_evidence s) of None \<Rightarrow> s | Some e \<Rightarrow>
       (case row_get mn_id (ev_node e) (m_nodes s) of None \<Rightarrow> s
        | Some n \<Rightarrow> fst (apply_evidence e n att hint clock s)))"
| "sched_step cf s (Tick now execute fault) = fst (scheduler_tick cf now execute fault s)"
| "sched_step cf s (Review trigger ids now fault) = m_after s (run_review cf trigger ids now fault s)"
| "sched_step cf s (Start i now) = (if is_queued i s then start_job i now s else s)"
| "sched_step cf s (Finish i now fault) = end_execution cf i now fault s"

datatype m_op = Sched sched_op | Session_review string string "string list option" instant bool

fun m_step :: "mconfig \<Rightarrow> mstate \<Rightarrow> m_op \<Rightarrow> mstate" where
  "m_step cf s (Sched e) = sched_step cf s e"
| "m_step cf s (Session_review sid trigger ids now fault) =
     m_after s (run_session_review cf sid trigger ids now fault s)"

section \<open>Frames\<close>

lemma set_simps [simp]:
  "m_nodes (set_schedule i f s) = m_nodes s" "m_nodes (set_job k g s) = m_nodes s"
  "m_nodes (set_cursor i h s) = m_nodes s" "m_nodes (set_meta k d s) = m_nodes s"
  "m_nodes (ensure_schedule i s) = m_nodes s" "m_nodes (ensure_cursor i now s) = m_nodes s"
  "m_nodes (start_job k now s) = m_nodes s" "m_nodes (fail_job cf k s) = m_nodes s"
  "m_jobs (set_schedule i f s) = m_jobs s" "m_jobs (set_cursor i h s) = m_jobs s"
  "m_jobs (set_meta k d s) = m_jobs s" "m_jobs (ensure_schedule i s) = m_jobs s"
  "m_jobs (ensure_cursor i now s) = m_jobs s" "m_jobs (set_node i q s) = m_jobs s"
  "m_jobs (set_job k g s) = row_mod mj_id k g (m_jobs s)"
  "m_nodes (set_node i q s) = row_mod mn_id i q (m_nodes s)"
  by (auto simp: set_schedule_def set_job_def set_cursor_def set_meta_def ensure_schedule_def
      ensure_cursor_def start_job_def fail_job_def set_node_def split: option.splits)

lemma enqueue_nodes [simp]: "m_nodes (fst (enqueue_job t ns r k s)) = m_nodes s"
  by (auto simp: enqueue_job_def Let_def split: option.splits)

lemma enqueue_session_nodes [simp]: "m_nodes (fst (enqueue_session_job c t now f s)) = m_nodes s"
proof -
  obtain s1 j b where e: "enqueue_job t (map fst (mc_counts c)) (session_report c t now s)
      (Some (Session_key (mc_session c) (mc_activity c))) s = (s1, j, b)" by (metis prod_cases3)
  then have "m_nodes s1 = m_nodes s" by (metis enqueue_nodes fst_conv)
  then show ?thesis by (simp add: enqueue_session_job_def e Let_def)
qed

lemma admit_nodes [simp]: "m_nodes (admit_message cf m sid ns now s) = m_nodes s"
  by (simp add: admit_message_def Let_def)

lemma threshold_nodes [simp]: "m_nodes (threshold_job cf sid now s) = m_nodes s"
  by (simp add: threshold_job_def split: option.splits)

lemma settle_schedules_simps [simp]:
  "m_nodes (settle_schedules done s) = m_nodes s" "m_jobs (settle_schedules done s) = m_jobs s"
  unfolding settle_schedules_def by (induction "done" arbitrary: s) (auto split: prod.splits)

lemma complete_cursor_simps [simp]:
  "m_nodes (complete_session_cursor cf r now s) = m_nodes s"
  "m_jobs (complete_session_cursor cf r now s) = m_jobs s"
  by (auto simp: complete_session_cursor_def split: option.splits)

section \<open>Stars\<close>

text \<open>Every node with a legal number of stars still has at least as many, and a legal number.\<close>

definition stars_ok :: "mnode \<Rightarrow> bool" where
  "stars_ok n \<longleftrightarrow> 0 \<le> mn_stars n \<and> mn_stars n \<le> 15"

definition stars_grow :: "mstate \<Rightarrow> mstate \<Rightarrow> bool" where
  "stars_grow s s' \<longleftrightarrow> (\<forall>i n. row_get mn_id i (m_nodes s) = Some n \<longrightarrow> stars_ok n \<longrightarrow>
     (\<exists>n'. row_get mn_id i (m_nodes s') = Some n' \<and> mn_stars n \<le> mn_stars n' \<and> stars_ok n'))"

lemma grow_trans: "stars_grow a b \<Longrightarrow> stars_grow b c \<Longrightarrow> stars_grow a c"
  unfolding stars_grow_def by (meson order_trans)

lemma grow_same [simp]: "m_nodes s' = m_nodes s \<Longrightarrow> stars_grow s s'"
  by (simp add: stars_grow_def)

lemma grow_set_node:
  assumes "\<And>n. mn_id (f n) = mn_id n"
    and "\<And>n. row_get mn_id i (m_nodes s) = Some n \<Longrightarrow> stars_ok n \<Longrightarrow>
      mn_stars n \<le> mn_stars (f n) \<and> stars_ok (f n)"
  shows "stars_grow s (set_node i f s)"
proof -
  have "\<exists>n'. row_get mn_id k (row_mod mn_id i f (m_nodes s)) = Some n' \<and> mn_stars n \<le> mn_stars n' \<and>
      stars_ok n'" if n: "row_get mn_id k (m_nodes s) = Some n" "stars_ok n" for k n
  proof (cases "k = i")
    case True
    have "row_get mn_id i (row_mod mn_id i f (m_nodes s)) = map_option f (row_get mn_id i (m_nodes s))"
      by (rule row_get_mod_same) (simp add: assms(1))
    with True n assms(2) show ?thesis by auto
  next
    case False
    then have "row_get mn_id k (row_mod mn_id i f (m_nodes s)) = row_get mn_id k (m_nodes s)"
      by (rule row_get_mod_other) (simp add: assms(1))
    with n show ?thesis by simp
  qed
  then show ?thesis by (simp add: stars_grow_def)
qed

lemma grow_mark: "(\<And>n. mn_id (f n) = mn_id n) \<Longrightarrow> (\<And>n. mn_stars (f n) = mn_stars n) \<Longrightarrow>
    stars_grow s (set_node i f s)"
  by (rule grow_set_node) (auto simp: stars_ok_def)

lemma mark_success_grow: "stars_grow s (mark_success i stars assisted clock s)"
proof -
  have "stars_grow s (set_node i (\<lambda>n. n\<lparr>mn_retrieval := ''fresh'', mn_evidence := x\<rparr>) s)" for x
    by (rule grow_mark) simp_all
  then show ?thesis unfolding mark_success_def Let_def
    by (rule grow_trans) (rule grow_same, simp)
qed

lemma mark_conflict_grow: "stars_grow s (mark_conflict i clock s)"
proof -
  have "stars_grow s (set_node i (\<lambda>n. n\<lparr>mn_retrieval := ''relearning'', mn_evidence := ''conflicted''\<rparr>) s)"
    by (rule grow_mark) simp_all
  then show ?thesis unfolding mark_conflict_def
    by (rule grow_trans) (rule grow_same, simp)
qed

lemma apply_evidence_grow:
  assumes "row_get mn_id (mn_id n) (m_nodes s) = Some n"
  shows "stars_grow s (fst (apply_evidence e n att hint clock s))"
proof -
  let ?s = "ensure_schedule (mn_id n) s"
  have base: "stars_grow s ?s" by simp
  have set: "stars_grow ?s (set_node (mn_id n) (\<lambda>r. r\<lparr>mn_stars := k\<rparr>) ?s)"
    if "clamp_stars (mn_stars n) \<le> k" "k \<le> 15" for k
    using assms that by (intro grow_set_node) (auto simp: stars_ok_def clamp_stars_def)
  have meta: "stars_grow a (set_meta i d b)" if "stars_grow a b" for a b i d
    using that by (elim grow_trans) simp
  let ?old = "clamp_stars (mn_stars n)"
  have old: "?old \<le> 15" by (simp add: clamp_stars_def)
  have star: "stars_grow s (set_meta i d (mark_success (mn_id n) k assisted clock
      (set_node (mn_id n) (\<lambda>r. r\<lparr>mn_stars := k\<rparr>) ?s)))" if "?old \<le> k" "k \<le> 15" for i d k assisted
    by (rule meta) (rule grow_trans [OF base grow_trans [OF set [OF that] mark_success_grow]])
  have keep: "stars_grow s (set_node (mn_id n) (\<lambda>r. r\<lparr>mn_stars := ?old\<rparr>) ?s)"
    by (rule grow_trans [OF base set]) (simp_all add: old)
  have conf: "stars_grow s (set_meta i d (mark_conflict (mn_id n) clock
      (set_node (mn_id n) (\<lambda>r. r\<lparr>mn_stars := ?old\<rparr>) ?s)))" for i d
    by (rule meta) (rule grow_trans [OF keep mark_conflict_grow])
  show ?thesis
    unfolding apply_evidence_def Let_def
    using base keep conf star [of "max ?old (min 15 (?old + 1))"] star [of ?old] old by auto
qed

definition inquiry_base :: "string \<Rightarrow> mevidence \<Rightarrow> mstate \<Rightarrow> mstate" where
  "inquiry_base nid e s = set_schedule nid (\<lambda>c. c\<lparr>sc_pending := sc_pending c + 1\<rparr>)
     (ensure_schedule nid (s\<lparr>m_evidence := m_evidence s @ [e]\<rparr>))"

lemma inquiry_base_simps [simp]:
  "m_nodes (inquiry_base nid e s) = m_nodes s" "m_jobs (inquiry_base nid e s) = m_jobs s"
  by (simp_all add: inquiry_base_def)

lemma inquire_cases:
  assumes "inquire m sid clock nid (s, aw) = Inr (s', aw')"
  shows "s' = s \<or> (\<exists>n e. row_get mn_id nid (m_nodes s) = Some n \<and> mn_id n = nid \<and>
    s' = fst (apply_evidence e n 1 0 clock (inquiry_base nid e s)))"
proof -
  from assms obtain n where n: "row_get mn_id nid (m_nodes s) = Some n"
    by (auto simp: inquire_def split: option.splits)
  show ?thesis
  proof (cases "evidence_for_message m nid s = None")
    case False
    with assms n show ?thesis by (auto simp: inquire_def)
  next
    case True
    with assms n have "s' = fst (apply_evidence (inquiry m sid n (length (m_evidence s))) n 1 0 clock
        (inquiry_base nid (inquiry m sid n (length (m_evidence s))) s))"
      by (auto simp: inquire_def Let_def inquiry_base_def split: prod.splits)
    with n row_get_key [OF n] show ?thesis by blast
  qed
qed

lemma inquire_grow:
  assumes "inquire m sid clock nid (s, aw) = Inr (s', aw')"
  shows "stars_grow s s'"
  using inquire_cases [OF assms]
proof (elim disjE exE conjE)
  fix n e assume n: "row_get mn_id nid (m_nodes s) = Some n" "mn_id n = nid"
    and s': "s' = fst (apply_evidence e n 1 0 clock (inquiry_base nid e s))"
  then have "stars_grow (inquiry_base nid e s) s'" by (simp add: apply_evidence_grow)
  then show ?thesis by (rule grow_trans [OF grow_same, rotated]) simp
qed simp

lemma inquiries_grow:
  "fold_r (inquire m sid clock) ns (s, aw) = Inr (s', aw') \<Longrightarrow> stars_grow s s'"
proof (induction ns arbitrary: s aw)
  case (Cons n ns)
  then obtain s1 aw1 where "inquire m sid clock n (s, aw) = Inr (s1, aw1)"
    "fold_r (inquire m sid clock) ns (s1, aw1) = Inr (s', aw')" by (auto simp: bind_r_Inr)
  with Cons.IH inquire_grow show ?case by (blast intro: grow_trans)
qed simp

lemma record_message_grow:
  assumes "record_message cf m sid ns now clock s = Inr (s', aw)"
  shows "stars_grow s s'"
proof (cases "row_get ma_message m (m_activities s) = None")
  case False
  with assms show ?thesis by (simp add: record_message_def Let_def)
next
  case True
  with assms obtain s3 where
    "fold_r (inquire m sid clock) (fromkeys ns) (admit_message cf m sid (fromkeys ns) now s, []) = Inr (s3, aw)"
    "s' = threshold_job cf sid now s3"
    by (auto simp: record_message_def Let_def bind_r_Inr)
  from inquiries_grow [OF this(1)] have "stars_grow (admit_message cf m sid (fromkeys ns) now s) s3" .
  moreover have "stars_grow s (admit_message cf m sid (fromkeys ns) now s)" by simp
  moreover have "stars_grow s3 s'" by (simp add: \<open>s' = threshold_job cf sid now s3\<close>)
  ultimately show ?thesis by (blast intro: grow_trans)
qed

lemma mark_due_grow: "stars_grow s (fst (mark_nodes_due ids now s))"
proof -
  have one: "stars_grow s (set_node i (\<lambda>n. n\<lparr>mn_retrieval := ''due''\<rparr>) s)" for s i
    by (rule grow_mark) simp_all
  have "stars_grow s (foldl (\<lambda>s i. set_node i (\<lambda>n. n\<lparr>mn_retrieval := ''due''\<rparr>) s) s xs)" for xs
  proof (induction xs arbitrary: s)
    case (Cons x xs)
    from grow_trans [OF one Cons.IH] show ?case by simp
  qed simp
  then show ?thesis by (simp add: mark_nodes_due_def Let_def)
qed

lemma job_body_grow: "stars_grow s (job_body cf j now s)"
proof -
  obtain s1 marked missing where m: "mark_nodes_due (mj_nodes j) now s = (s1, marked, missing)"
    by (metis prod_cases3)
  then have "stars_grow s s1" using mark_due_grow by (metis fst_conv)
  then show ?thesis
    by (rule grow_trans) (rule grow_same, simp add: job_body_def m Let_def)
qed

lemma finish_grow: "stars_grow s (end_execution cf i now fault s)"
  using job_body_grow by (auto simp: end_execution_def split: option.splits)

lemma execute_grow:
  assumes "execute_job cf i now fault s = Inr (s', st)"
  shows "stars_grow s s'"
proof -
  have start: "stars_grow s (start_job i now s)" by simp
  have "stars_grow (start_job i now s) (if fault then fail_job cf i (start_job i now s)
      else job_body cf j now (start_job i now s))" for j
    using job_body_grow by (cases fault) auto
  from grow_trans [OF start this] assms show ?thesis
    by (auto simp: execute_job_def Let_def split: option.splits if_splits)
qed

lemma enqueue_sessions_nodes: "m_nodes (fst (enqueue_sessions t now sids s)) = m_nodes s"
proof -
  have step: "m_nodes (fst (case row_get mc_session sid (m_cursors s) of None \<Rightarrow> (s, made)
      | Some c \<Rightarrow> (case enqueue_session_job c t now False s of
          (s', i, created) \<Rightarrow> (s', if created then made @ [(i, sid)] else made)))) = m_nodes s"
    for s sid made
  proof (cases "row_get mc_session sid (m_cursors s)")
    case (Some c)
    obtain s' i b where e: "enqueue_session_job c t now False s = (s', i, b)" by (metis prod_cases3)
    then have "m_nodes s' = m_nodes s" by (metis enqueue_session_nodes fst_conv)
    with Some e show ?thesis by simp
  qed simp
  have "m_nodes (fst (foldl (\<lambda>(s, made) sid.
     (case row_get mc_session sid (m_cursors s) of None \<Rightarrow> (s, made)
      | Some c \<Rightarrow> (case enqueue_session_job c t now False s of
          (s', i, created) \<Rightarrow> (s', if created then made @ [(i, sid)] else made)))) (s, made) sids)) =
      m_nodes s" for made
    by (induction sids rule: rev_induct) (simp_all add: step split: prod.splits, metis fst_conv step)
  then show ?thesis by (simp add: enqueue_sessions_def)
qed

lemma enqueue_due_nodes: "m_nodes (fst (enqueue_due cf now s)) = m_nodes s"
proof (cases "due_nodes now s = []")
  case False
  let ?snap = "due_snapshot (due_nodes now s) s"
  obtain s' j b where e: "enqueue_job ''periodic'' (map mn_id (due_nodes now s))
      ((blank_report Due_schedule now)\<lparr>rp_snapshot := ?snap\<rparr>)
      (Some (Periodic_key (cf_digest cf (sort_key fst ?snap)))) s = (s', j, b)" by (metis prod_cases3)
  then have "m_nodes s' = m_nodes s" by (metis enqueue_nodes fst_conv)
  with False e show ?thesis by (simp add: enqueue_due_def Let_def)
qed (simp add: enqueue_due_def)

lemma drain_grow: "stars_grow s (fst (drain cf now fault ids (s, cs, fs)))"
proof (induction ids arbitrary: s cs fs)
  case Nil
  then show ?case by (simp add: drain_def)
next
  case (Cons i ids)
  show ?case
  proof (cases "execute_job cf i now (fault i) s")
    case (Inl e)
    with Cons.IH show ?thesis by (simp add: drain_def)
  next
    case (Inr x)
    obtain s' st where x: "x = (s', st)" by (cases x)
    with execute_grow Inr have "stars_grow s s'" by blast
    from grow_trans [OF this Cons.IH] Inr x show ?thesis by (simp add: drain_def)
  qed
qed

lemma tick_grow: "stars_grow s (fst (scheduler_tick cf now execute fault s))"
proof -
  obtain s1 rec exh where r: "recover_expired_jobs cf now s = (s1, rec, exh)" by (metis prod_cases3)
  define full where "full = map mc_session (filter (\<lambda>c. max 1 (cf_threshold cf) \<le> mc_pending c \<and>
    session_waiting c) (m_cursors s1))"
  obtain s2 bt where t: "enqueue_sessions ''message_threshold'' now full s1 = (s2, bt)" by (metis surj_pair)
  define idle where "idle = filter (\<lambda>sid. sid \<notin> snd ` set bt) (map mc_session (filter (\<lambda>c. 0 < mc_pending c \<and>
    (case mc_idle_due c of None \<Rightarrow> False | Some t \<Rightarrow> t \<le> now) \<and> session_waiting c) (m_cursors s2)))"
  obtain s3 bi where i: "enqueue_sessions ''idle'' now idle s2 = (s3, bi)" by (metis surj_pair)
  obtain s4 per where d: "enqueue_due cf now s3 = (s4, per)" by (metis surj_pair)
  have "m_nodes s1 = m_nodes s" using r by (auto simp: recover_expired_jobs_def Let_def)
  moreover have "m_nodes s2 = m_nodes s1" using enqueue_sessions_nodes t by (metis fst_conv)
  moreover have "m_nodes s3 = m_nodes s2" using enqueue_sessions_nodes i by (metis fst_conv)
  moreover have "m_nodes s4 = m_nodes s3" using enqueue_due_nodes d by (metis fst_conv)
  ultimately have base: "stars_grow s s4" by simp
  have "fst (scheduler_tick cf now execute fault s) = (if execute
      then fst (drain cf now fault (map mj_id (filter (\<lambda>j. mj_status j = Queued) (m_jobs s4))) (s4, [], exh))
      else s4)"
    unfolding scheduler_tick_def r Let_def prod.case full_def [symmetric] t idle_def [symmetric] i d
    by (cases execute) (simp_all add: case_prod_beta)
  with base grow_trans [OF base drain_grow] show ?thesis by simp
qed

lemma run_review_grow:
  assumes "run_review cf trigger ids now fault s = Inr (s', j)"
  shows "stars_grow s s'"
proof -
  define k where "k = (\<lambda>ns :: mnode list. case enqueue_job trigger (map mn_id ns)
      (blank_report Node_review now) None s of
       (s1, j, _) \<Rightarrow> bind_r (execute_job cf (mj_id j) now fault s1) (\<lambda>(s2, _).
           case row_get mj_id (mj_id j) (m_jobs s2) of
             None \<Rightarrow> Inl (App_error 404 ''not_found'') | Some j' \<Rightarrow> Inr (s2, j')))"
  from assms obtain ns where ns: "k ns = Inr (s', j)"
    unfolding run_review_def k_def [symmetric] by (simp only: bind_r_Inr) blast
  obtain s1 j1 b where e: "enqueue_job trigger (map mn_id ns) (blank_report Node_review now) None s = (s1, j1, b)"
    by (metis prod_cases3)
  have "m_nodes s1 = m_nodes s" using e enqueue_nodes by (metis fst_conv)
  moreover from ns [unfolded k_def] e obtain st where "execute_job cf (mj_id j1) now fault s1 = Inr (s', st)"
    by (auto simp: bind_r_Inr split: option.splits)
  ultimately show ?thesis using execute_grow by (metis grow_same grow_trans)
qed

lemma session_review_grow:
  assumes "run_session_review cf sid trigger ids now fault s = Inr (s', j)"
  shows "stars_grow s s'"
proof -
  define s1 where "s1 = ensure_cursor sid now s"
  define ns where "ns = (case ids of None \<Rightarrow> [] | Some is \<Rightarrow> fromkeys is)"
  define s2 where "s2 = (if ns = [] then s1 else set_cursor sid (add_nodes ns) s1)"
  have n2: "m_nodes s2 = m_nodes s" by (simp add: s1_def s2_def)
  from assms obtain c where c: "row_get mc_session sid (m_cursors s2) = Some c"
    by (auto simp: run_session_review_def Let_def s1_def ns_def s2_def split: option.splits if_splits)
  obtain s3 i b where e: "enqueue_session_job c trigger now True s2 = (s3, i, b)" by (metis prod_cases3)
  have "m_nodes s3 = m_nodes s" using e n2 enqueue_session_nodes by (metis fst_conv)
  moreover from assms c e obtain st where "execute_job cf i now fault s3 = Inr (s', st)"
    unfolding run_session_review_def Let_def s1_def [symmetric] ns_def [symmetric] s2_def [symmetric]
    by (auto simp: bind_r_Inr split: option.splits)
  ultimately show ?thesis using execute_grow by (metis grow_same grow_trans)
qed

lemma m_after_grow:
  "(\<And>s' x. res = Inr (s', x) \<Longrightarrow> stars_grow s s') \<Longrightarrow> stars_grow s (m_after s res)"
  by (auto simp: m_after_def split: sum.splits)

lemma m_step_grow: "stars_grow s (m_step cf s e)"
proof (cases e)
  case (Sched f)
  show ?thesis
  proof (cases f)
    case (Evidence eid att hint clock)
    have "stars_grow s (fst (apply_evidence ev n att hint clock s))"
      if "row_get mn_id (ev_node ev) (m_nodes s) = Some n" for ev n
      using that row_get_key [OF that] by (intro apply_evidence_grow) simp
    with Evidence Sched show ?thesis by (auto split: option.splits)
  next
    case (Tick now execute fault)
    with Sched tick_grow show ?thesis by simp
  qed (use Sched in \<open>auto intro!: m_after_grow finish_grow intro: record_message_grow run_review_grow\<close>)
next
  case (Session_review sid trigger ids now fault)
  then show ?thesis by (auto intro!: m_after_grow intro: session_review_grow)
qed

interpretation star_machine: step_machine "m_step cf" "stars_grow s0" for cf s0
  by unfold_locales (rule grow_trans [OF _ m_step_grow])

text \<open>
  Stars never decrease. Over every sequence of messages, evidence, scheduler ticks with or
  without job failures, reviews, crashes and session closings, a node that starts with 0 to 15
  stars stays in the graph, never loses a star and never exceeds 15.
\<close>

lemma stars_never_decrease:
  assumes "row_get mn_id i (m_nodes s) = Some n" and "0 \<le> mn_stars n" and "mn_stars n \<le> 15"
  shows "\<exists>n'. row_get mn_id i (m_nodes (foldl (m_step cf) s es)) = Some n' \<and>
    mn_stars n \<le> mn_stars n' \<and> mn_stars n' \<le> 15"
proof -
  have "stars_grow s (foldl (m_step cf) s es)" by (rule star_machine.run_inv) simp
  with assms show ?thesis by (auto simp: stars_grow_def stars_ok_def)
qed

section \<open>Bounded retries and one job per key\<close>

definition max_attempts :: "mconfig \<Rightarrow> int" where
  "max_attempts cf = max 1 (cf_attempts cf)"

definition job_ok :: "mconfig \<Rightarrow> mjob \<Rightarrow> bool" where
  "job_ok cf j \<longleftrightarrow> 0 \<le> mj_attempts j \<and> mj_attempts j \<le> max_attempts cf \<and>
     (mj_status j = Queued \<longrightarrow> mj_attempts j < max_attempts cf) \<and>
     (mj_status j = Failed \<longrightarrow> mj_attempts j = max_attempts cf)"

definition jobs_indexed :: "mjob list \<Rightarrow> bool" where
  "jobs_indexed js \<longleftrightarrow> map mj_id js = [0..<length js] \<and>
     distinct (filter (\<lambda>k. k \<noteq> None) (map mj_key js))"

definition job_inv :: "mconfig \<Rightarrow> mstate \<Rightarrow> bool" where
  "job_inv cf s \<longleftrightarrow> jobs_indexed (m_jobs s) \<and> list_all (job_ok cf) (m_jobs s)"

lemma indexed_get:
  assumes "jobs_indexed js"
  shows "row_get mj_id i js = (if i < length js then Some (js ! i) else None)"
proof (cases "i < length js")
  case True
  from assms have m: "map mj_id js = [0..<length js]" by (simp add: jobs_indexed_def)
  then have "map mj_id js ! i = [0..<length js] ! i" by simp
  with True have "mj_id (js ! i) = i" by simp
  moreover have "distinct (map mj_id js)" by (simp add: m)
  ultimately show ?thesis using row_get_distinct [of mj_id js "js ! i"] True by simp
next
  case False
  from assms have "mj_id ` set js = {0..<length js}"
    unfolding jobs_indexed_def by (metis atLeastLessThan_upt set_map)
  with False show ?thesis by (simp add: row_get_None_iff)
qed

lemma indexed_mod:
  assumes "jobs_indexed js" and "\<And>j. mj_id (f j) = mj_id j" and "\<And>j. mj_key (f j) = mj_key j"
  shows "jobs_indexed (row_mod mj_id i f js)"
proof -
  have "map mj_id (row_mod mj_id i f js) = map mj_id js" by (rule row_mod_keys) (rule assms(2))
  moreover have "map mj_key (row_mod mj_id i f js) = map mj_key js" by (rule row_mod_keys) (rule assms(3))
  ultimately show ?thesis using assms(1) by (simp add: jobs_indexed_def)
qed

lemma job_inv_mod:
  assumes "job_inv cf s" and "\<And>j. mj_id (f j) = mj_id j" and "\<And>j. mj_key (f j) = mj_key j"
    and "\<And>j. row_get mj_id i (m_jobs s) = Some j \<Longrightarrow> job_ok cf j \<Longrightarrow> job_ok cf (f j)"
    and "m_jobs s' = row_mod mj_id i f (m_jobs s)"
  shows "job_inv cf s'"
proof -
  have ix: "jobs_indexed (m_jobs s)" using assms(1) by (simp add: job_inv_def)
  have "job_ok cf j" if j: "j \<in> set (row_mod mj_id i f (m_jobs s))" for j
  proof -
    from set_row_mod [OF j] obtain j0 where
      j0: "j0 \<in> set (m_jobs s)" "j = (if mj_id j0 = i then f j0 else j0)" by blast
    from j0(1) assms(1) have ok: "job_ok cf j0" by (simp add: job_inv_def list_all_iff)
    have "distinct (map mj_id (m_jobs s))" using ix by (simp add: jobs_indexed_def)
    from row_get_distinct [OF this j0(1)] have "mj_id j0 = i \<Longrightarrow> row_get mj_id i (m_jobs s) = Some j0" by simp
    with ok j0(2) assms(4) show ?thesis by (cases "mj_id j0 = i") auto
  qed
  with indexed_mod [OF ix assms(2,3)] assms(5) show ?thesis by (simp add: job_inv_def list_all_iff)
qed

lemma key_free:
  "row_get mj_key k js = None \<Longrightarrow> k \<noteq> None \<Longrightarrow> k \<notin> set (filter (\<lambda>k. k \<noteq> None) (map mj_key js))"
  by (auto simp: row_get_None_iff)

lemma max_attempts_pos [simp]: "0 < max_attempts cf" "0 \<le> max_attempts cf" "\<not> max_attempts cf \<le> 0"
  by (simp_all add: max_attempts_def)

lemma enqueue_inv:
  assumes inv: "job_inv cf s" and e: "enqueue_job t ns r k s = (s', j, b)"
  shows "job_inv cf s' \<and> (b \<longrightarrow> row_get mj_id (mj_id j) (m_jobs s') = Some j \<and> mj_status j = Queued)"
proof (cases "if k = None then None else row_get mj_key k (m_jobs s)")
  case (Some q)
  with e inv show ?thesis by (simp add: enqueue_job_def)
next
  case None
  let ?j = "\<lparr>mj_id = length (m_jobs s), mj_trigger = t, mj_status = Queued, mj_key = k,
                mj_attempts = 0, mj_started = None, mj_completed = None, mj_error = [],
                mj_nodes = ns, mj_report = r\<rparr>"
  from None e have s': "s' = s\<lparr>m_jobs := m_jobs s @ [?j]\<rparr>" "j = ?j" by (auto simp: enqueue_job_def Let_def)
  have ix: "jobs_indexed (m_jobs s @ [?j])"
    using inv None key_free [of k "m_jobs s"] by (auto simp: job_inv_def jobs_indexed_def split: if_splits)
  moreover have "job_ok cf ?j" by (simp add: job_ok_def)
  ultimately show ?thesis using inv s' indexed_get [OF ix, of "length (m_jobs s)"]
    by (auto simp: job_inv_def)
qed

lemma add_trigger_simps [simp]:
  "mj_id (add_trigger t j) = mj_id j" "mj_key (add_trigger t j) = mj_key j"
  "mj_status (add_trigger t j) = mj_status j" "mj_attempts (add_trigger t j) = mj_attempts j"
  by (simp_all add: add_trigger_def Let_def)

lemma enqueue_session_inv:
  assumes "job_inv cf s"
  shows "job_inv cf (fst (enqueue_session_job c t now f s))"
proof -
  obtain s1 j b where e: "enqueue_job t (map fst (mc_counts c)) (session_report c t now s)
      (Some (Session_key (mc_session c) (mc_activity c))) s = (s1, j, b)" by (metis prod_cases3)
  let ?g = "\<lambda>j. let j' = add_trigger t j in if f \<and> mj_status j = Queued then j'\<lparr>mj_trigger := t\<rparr> else j'"
  from enqueue_inv [OF assms e] have s1: "job_inv cf s1" by simp
  have "job_inv cf (set_job (mj_id j) ?g s1)"
    by (rule job_inv_mod [OF s1, of ?g "mj_id j"]) (simp_all add: Let_def job_ok_def)
  with s1 have "job_inv cf (if b then s1 else set_job (mj_id j) ?g s1)" by simp
  then show ?thesis by (auto simp: enqueue_session_job_def e Let_def job_inv_def)
qed

lemma start_inv:
  assumes "job_inv cf s" and "is_queued i s"
  shows "job_inv cf (start_job i now s)"
  by (rule job_inv_mod [OF assms(1), of _ i]) (use assms(2) in
      \<open>auto simp: start_job_def is_queued_def job_ok_def split: option.splits\<close>)

lemma mark_due_jobs [simp]: "m_jobs (fst (mark_nodes_due ids now s)) = m_jobs s"
proof -
  have "m_jobs (foldl (\<lambda>s i. set_node i (\<lambda>n. n\<lparr>mn_retrieval := ''due''\<rparr>) s) s xs) = m_jobs s" for xs
    by (induction xs arbitrary: s) simp_all
  then show ?thesis by (simp add: mark_nodes_due_def Let_def)
qed

lemma job_body_jobs:
  "\<exists>r. m_jobs (job_body cf j now s) = row_mod mj_id (mj_id j) (\<lambda>x. x\<lparr>mj_report := r,
     mj_status := Completed, mj_completed := Some now, mj_error := []\<rparr>) (m_jobs s)"
proof -
  obtain s1 marked missing where m: "mark_nodes_due (mj_nodes j) now s = (s1, marked, missing)"
    by (metis prod_cases3)
  then have "m_jobs s1 = m_jobs s" by (metis mark_due_jobs fst_conv)
  then show ?thesis by (auto simp: job_body_def m Let_def)
qed

lemma finish_inv:
  assumes "job_inv cf s"
  shows "job_inv cf (end_execution cf i now fault s)"
proof (cases "row_get mj_id i (m_jobs s)")
  case None
  with assms show ?thesis by (simp add: end_execution_def)
next
  case (Some j)
  then have id: "mj_id j = i" by (rule row_get_key)
  show ?thesis
  proof (cases "mj_status j = Running")
    case False
    with Some assms show ?thesis by (simp add: end_execution_def)
  next
    case running: True
    show ?thesis
    proof (cases fault)
      case True
      let ?f = "\<lambda>j. let again = (mj_attempts j < max 1 (cf_attempts cf)) in
        j\<lparr>mj_status := (if again then Queued else Failed), mj_started := (if again then None else mj_started j),
        mj_error := ''scheduler execution failed''\<rparr>"
      have "job_inv cf (fail_job cf i s)"
        by (rule job_inv_mod [OF assms, of ?f i])
          (auto simp: fail_job_def Let_def job_ok_def max_attempts_def)
      with Some running True show ?thesis by (simp add: end_execution_def)
    next
      case False
      obtain r where r: "m_jobs (job_body cf j now s) = row_mod mj_id (mj_id j) (\<lambda>x. x\<lparr>mj_report := r,
          mj_status := Completed, mj_completed := Some now, mj_error := []\<rparr>) (m_jobs s)"
        using job_body_jobs by blast
      have "job_inv cf (job_body cf j now s)"
        by (rule job_inv_mod [OF assms _ _ _ r]) (simp_all add: job_ok_def)
      with Some running False show ?thesis by (simp add: end_execution_def)
    qed
  qed
qed

text \<open>Executing a queued job keeps the bound, settles its status and leaves every other job alone.\<close>

lemma execute_queued:
  assumes inv: "job_inv cf s" and q: "is_queued i s"
    and ex: "execute_job cf i now fault s = Inr (s', st)"
  shows "job_inv cf s' \<and> (\<forall>k. k \<noteq> i \<longrightarrow> row_get mj_id k (m_jobs s') = row_get mj_id k (m_jobs s)) \<and>
    (st = Failed \<longrightarrow> fault \<and> (\<exists>j. row_get mj_id i (m_jobs s') = Some j \<and> mj_attempts j = max_attempts cf)) \<and>
    (\<not> fault \<longrightarrow> st = Completed)"
proof -
  let ?s1 = "start_job i now s"
  let ?f = "\<lambda>j. j\<lparr>mj_status := Running, mj_attempts := mj_attempts j + 1, mj_started := Some now, mj_error := []\<rparr>"
  have i1: "job_inv cf ?s1" by (rule start_inv [OF inv q])
  from q obtain j0 where j0: "row_get mj_id i (m_jobs s) = Some j0" "mj_status j0 = Queued"
    by (auto simp: is_queued_def split: option.splits)
  have "row_get mj_id i (row_mod mj_id i ?f (m_jobs s)) = map_option ?f (row_get mj_id i (m_jobs s))"
    by (rule row_get_mod_same) simp
  then have g1: "row_get mj_id i (m_jobs ?s1) = Some (?f j0)" using j0 by (simp add: start_job_def)
  have o1: "k \<noteq> i \<Longrightarrow> row_get mj_id k (m_jobs ?s1) = row_get mj_id k (m_jobs s)" for k
    unfolding start_job_def set_simps by (rule row_get_mod_other) simp_all
  from row_get_key [OF g1] have idj: "mj_id j0 = i" by simp
  define s2 where "s2 = (if fault then fail_job cf i ?s1 else job_body cf (?f j0) now ?s1)"
  obtain g where g: "m_jobs s2 = row_mod mj_id i g (m_jobs ?s1)" "\<And>j. mj_id (g j) = mj_id j"
    "\<And>j. mj_key (g j) = mj_key j" "\<And>j. mj_attempts (g j) = mj_attempts j"
    "\<And>j. mj_status (g j) = (if fault then if mj_attempts j < max_attempts cf then Queued else Failed else Completed)"
  proof (cases fault)
    case True
    show ?thesis
      by (rule that [of "\<lambda>j. let again = (mj_attempts j < max 1 (cf_attempts cf)) in
        j\<lparr>mj_status := (if again then Queued else Failed), mj_started := (if again then None else mj_started j),
        mj_error := ''scheduler execution failed''\<rparr>"])
        (simp_all add: True s2_def fail_job_def Let_def max_attempts_def)
  next
    case False
    from job_body_jobs [of cf "?f j0" now ?s1] obtain r where
      h: "m_jobs s2 = row_mod mj_id i (\<lambda>x. x\<lparr>mj_report := r, mj_status := Completed,
        mj_completed := Some now, mj_error := []\<rparr>) (m_jobs ?s1)" using False idj by (auto simp: s2_def)
    show ?thesis by (rule that [OF h]) (simp_all add: False)
  qed
  have g2: "row_get mj_id i (m_jobs s2) = Some (g (?f j0))"
    unfolding g(1) using g1 by (subst row_get_mod_same) (simp_all add: g(2))
  have o2: "k \<noteq> i \<Longrightarrow> row_get mj_id k (m_jobs s2) = row_get mj_id k (m_jobs ?s1)" for k
    unfolding g(1) by (rule row_get_mod_other) (simp_all add: g(2))
  have i2: "job_inv cf s2"
    by (rule job_inv_mod [OF i1 g(2,3) _ g(1)]) (auto simp: job_ok_def g(4,5))
  have "s' = s2" "st = mj_status (g (?f j0))"
    using ex j0 g1 g2 by (auto simp: execute_job_def Let_def s2_def [symmetric])
  moreover have "job_ok cf (g (?f j0))"
    using i2 g2 row_get_SomeD [OF g2] by (auto simp: job_inv_def list_all_iff)
  ultimately show ?thesis using i2 o1 o2 g2 by (auto simp: g(5) job_ok_def split: if_splits)
qed

lemma drain_inv:
  assumes "job_inv cf s" and "\<forall>i \<in> set ids. is_queued i s" and "distinct ids"
  shows "job_inv cf (fst (drain cf now fault ids (s, cs, fs)))"
  using assms
proof (induction ids arbitrary: s cs fs)
  case Nil
  then show ?case by (simp add: drain_def)
next
  case (Cons i ids)
  show ?case
  proof (cases "execute_job cf i now (fault i) s")
    case (Inl e)
    with Cons show ?thesis by (simp add: drain_def)
  next
    case (Inr x)
    obtain s' st where x: "x = (s', st)" by (cases x)
    have "is_queued i s" using Cons.prems(2) by simp
    from execute_queued [OF Cons.prems(1) this] Inr x have
      s': "job_inv cf s'" "\<forall>k. k \<noteq> i \<longrightarrow> row_get mj_id k (m_jobs s') = row_get mj_id k (m_jobs s)"
      by blast+
    have "\<forall>k \<in> set ids. is_queued k s'"
      using Cons.prems(2,3) s'(2) by (auto simp: is_queued_def)
    from Cons.IH [OF s'(1) this] Cons.prems(3) Inr x show ?thesis by (simp add: drain_def)
  qed
qed

lemma enqueue_sessions_inv: "job_inv cf s \<Longrightarrow> job_inv cf (fst (enqueue_sessions t now sids s))"
proof -
  have "job_inv cf (fst (foldl (\<lambda>(s, made) sid.
     (case row_get mc_session sid (m_cursors s) of None \<Rightarrow> (s, made)
      | Some c \<Rightarrow> (case enqueue_session_job c t now False s of
          (s', i, created) \<Rightarrow> (s', if created then made @ [(i, sid)] else made)))) (s, made) sids))"
    if "job_inv cf s" for s made
    using that
  proof (induction sids arbitrary: s made)
    case (Cons sid sids)
    show ?case
    proof (cases "row_get mc_session sid (m_cursors s)")
      case (Some c)
      obtain s' i b where e: "enqueue_session_job c t now False s = (s', i, b)" by (metis prod_cases3)
      then have "job_inv cf s'" using enqueue_session_inv [OF Cons.prems] by (metis fst_conv)
      from Cons.IH [OF this] Some e show ?thesis by simp
    qed (use Cons in simp)
  qed simp
  then show "job_inv cf s \<Longrightarrow> job_inv cf (fst (enqueue_sessions t now sids s))"
    by (simp add: enqueue_sessions_def)
qed

lemma enqueue_due_inv:
  assumes "job_inv cf s"
  shows "job_inv cf (fst (enqueue_due cf now s))"
proof (cases "due_nodes now s = []")
  case False
  let ?snap = "due_snapshot (due_nodes now s) s"
  obtain s' j b where e: "enqueue_job ''periodic'' (map mn_id (due_nodes now s))
      ((blank_report Due_schedule now)\<lparr>rp_snapshot := ?snap\<rparr>)
      (Some (Periodic_key (cf_digest cf (sort_key fst ?snap)))) s = (s', j, b)" by (metis prod_cases3)
  from enqueue_inv [OF assms e] False e show ?thesis by (simp add: enqueue_due_def Let_def)
qed (simp add: enqueue_due_def assms)

lemma recover_inv:
  assumes "job_inv cf s"
  shows "job_inv cf (fst (recover_expired_jobs cf now s))"
proof -
  let ?f = "\<lambda>j. if lease_expired cf now j then recover_job cf j else j"
  have keep: "mj_id (?f j) = mj_id j \<and> mj_key (?f j) = mj_key j" for j by (simp add: recover_job_def)
  then have "map mj_id (map ?f js) = map mj_id js" "map mj_key (map ?f js) = map mj_key js" for js by simp_all
  moreover have "job_ok cf j \<Longrightarrow> job_ok cf (?f j)" for j
    by (auto simp: job_ok_def recover_job_def max_attempts_def)
  then have "list_all (job_ok cf) js \<Longrightarrow> list_all (job_ok cf) (map ?f js)" for js
    by (induction js) auto
  ultimately show ?thesis using assms
    by (simp add: job_inv_def jobs_indexed_def recover_expired_jobs_def Let_def del: map_map)
qed

lemma tick_inv:
  assumes "job_inv cf s"
  shows "job_inv cf (fst (scheduler_tick cf now execute fault s))"
proof -
  obtain s1 rec exh where r: "recover_expired_jobs cf now s = (s1, rec, exh)" by (metis prod_cases3)
  define full where "full = map mc_session (filter (\<lambda>c. max 1 (cf_threshold cf) \<le> mc_pending c \<and>
    session_waiting c) (m_cursors s1))"
  obtain s2 bt where t: "enqueue_sessions ''message_threshold'' now full s1 = (s2, bt)" by (metis surj_pair)
  define idle where "idle = filter (\<lambda>sid. sid \<notin> snd ` set bt) (map mc_session (filter (\<lambda>c. 0 < mc_pending c \<and>
    (case mc_idle_due c of None \<Rightarrow> False | Some t \<Rightarrow> t \<le> now) \<and> session_waiting c) (m_cursors s2)))"
  obtain s3 bi where i: "enqueue_sessions ''idle'' now idle s2 = (s3, bi)" by (metis surj_pair)
  obtain s4 per where d: "enqueue_due cf now s3 = (s4, per)" by (metis surj_pair)
  have "job_inv cf s1" using recover_inv [OF assms] r by (metis fst_conv)
  then have "job_inv cf s2" using enqueue_sessions_inv t by (metis fst_conv)
  then have "job_inv cf s3" using enqueue_sessions_inv i by (metis fst_conv)
  then have s4: "job_inv cf s4" using enqueue_due_inv d by (metis fst_conv)
  let ?q = "map mj_id (filter (\<lambda>j. mj_status j = Queued) (m_jobs s4))"
  have dist: "distinct (map mj_id (m_jobs s4))" using s4 by (simp add: job_inv_def jobs_indexed_def)
  then have "distinct ?q" by (metis distinct_map_filter)
  moreover have "\<forall>i \<in> set ?q. is_queued i s4"
    using row_get_distinct [OF dist] by (auto simp: is_queued_def)
  ultimately have "job_inv cf (fst (drain cf now fault ?q (s4, [], exh)))" by (intro drain_inv s4)
  moreover have "fst (scheduler_tick cf now execute fault s) =
      (if execute then fst (drain cf now fault ?q (s4, [], exh)) else s4)"
    unfolding scheduler_tick_def r Let_def prod.case full_def [symmetric] t idle_def [symmetric] i d
    by (cases execute) (simp_all add: case_prod_beta)
  ultimately show ?thesis using s4 by simp
qed

lemma run_review_inv:
  assumes inv: "job_inv cf s" and ok: "run_review cf trigger ids now fault s = Inr (s', j)"
  shows "job_inv cf s'"
proof -
  define k where "k = (\<lambda>ns :: mnode list. case enqueue_job trigger (map mn_id ns)
      (blank_report Node_review now) None s of
       (s1, j, _) \<Rightarrow> bind_r (execute_job cf (mj_id j) now fault s1) (\<lambda>(s2, _).
           case row_get mj_id (mj_id j) (m_jobs s2) of
             None \<Rightarrow> Inl (App_error 404 ''not_found'') | Some j' \<Rightarrow> Inr (s2, j')))"
  from ok obtain ns where ns: "k ns = Inr (s', j)"
    unfolding run_review_def k_def [symmetric] by (simp only: bind_r_Inr) blast
  obtain s1 j1 b where e: "enqueue_job trigger (map mn_id ns) (blank_report Node_review now) None s = (s1, j1, b)"
    by (metis prod_cases3)
  from enqueue_inv [OF inv e] e have s1: "job_inv cf s1" "is_queued (mj_id j1) s1"
    by (auto simp: is_queued_def enqueue_job_def Let_def)
  from ns [unfolded k_def] e obtain st where "execute_job cf (mj_id j1) now fault s1 = Inr (s', st)"
    by (auto simp: bind_r_Inr split: option.splits)
  from execute_queued [OF s1 this] show ?thesis by simp
qed

lemma apply_evidence_jobs [simp]: "m_jobs (fst (apply_evidence e n att hint clock s)) = m_jobs s"
  by (simp add: apply_evidence_def mark_success_def mark_conflict_def Let_def)

lemma inquiries_jobs:
  "fold_r (inquire m sid clock) ns (s, aw) = Inr (s', aw') \<Longrightarrow> m_jobs s' = m_jobs s"
proof (induction ns arbitrary: s aw)
  case (Cons n ns)
  then obtain s1 aw1 where st: "inquire m sid clock n (s, aw) = Inr (s1, aw1)"
    "fold_r (inquire m sid clock) ns (s1, aw1) = Inr (s', aw')" by (auto simp: bind_r_Inr)
  from inquire_cases [OF st(1)] have "m_jobs s1 = m_jobs s" by auto
  with Cons.IH [OF st(2)] show ?case by simp
qed simp

lemma record_message_inv:
  assumes inv: "job_inv cf s" and ok: "record_message cf m sid ns now clock s = Inr (s', aw)"
  shows "job_inv cf s'"
proof (cases "row_get ma_message m (m_activities s) = None")
  case False
  with assms show ?thesis by (simp add: record_message_def Let_def)
next
  case True
  with ok obtain s3 where
    r: "fold_r (inquire m sid clock) (fromkeys ns) (admit_message cf m sid (fromkeys ns) now s, []) = Inr (s3, aw)"
    "s' = threshold_job cf sid now s3"
    by (auto simp: record_message_def Let_def bind_r_Inr)
  have "m_jobs s3 = m_jobs s" using inquiries_jobs [OF r(1)] by (simp add: admit_message_def Let_def)
  then have "job_inv cf s3" using inv by (simp add: job_inv_def)
  then show ?thesis unfolding r(2) threshold_job_def
    by (auto intro: enqueue_session_inv split: option.splits)
qed

lemma sched_step_inv: "job_inv cf s \<Longrightarrow> job_inv cf (sched_step cf s e)"
proof (induction e)
  case (Evidence eid att hint clock)
  then show ?case using apply_evidence_jobs by (auto simp: job_inv_def split: option.splits)
qed (auto simp: m_after_def intro: tick_inv record_message_inv run_review_inv start_inv finish_inv split: sum.splits)

interpretation job_machine: step_machine "sched_step cf" "job_inv cf" for cf
  by unfold_locales (rule sched_step_inv)

text \<open>
  Retries are bounded. Over every run of messages, evidence, ticks with arbitrary job failures,
  reviews, job starts and ends, no job is attempted more often than the configured maximum (at
  least one), a queued job always has an attempt left, a job is failed only after all of them, and
  at most one job exists per dedupe key.
\<close>

lemma job_attempts_bounded:
  assumes "m_jobs s = []"
  shows "list_all (\<lambda>j. mj_attempts j \<le> max 1 (cf_attempts cf) \<and>
      (mj_status j = Queued \<longrightarrow> mj_attempts j < max 1 (cf_attempts cf)) \<and>
      (mj_status j = Failed \<longrightarrow> mj_attempts j = max 1 (cf_attempts cf)))
      (m_jobs (foldl (sched_step cf) s es)) \<and>
    distinct (filter (\<lambda>k. k \<noteq> None) (map mj_key (m_jobs (foldl (sched_step cf) s es))))"
proof -
  have "job_inv cf s" using assms by (simp add: job_inv_def jobs_indexed_def)
  from job_machine.run_inv [OF this, of es] show ?thesis
    by (auto simp: job_inv_def jobs_indexed_def job_ok_def list_all_iff max_attempts_def)
qed

section \<open>One job per activity version\<close>

definition keyed_enqueue ::
  "job_key \<Rightarrow> string \<times> string list \<times> job_report \<Rightarrow> mstate \<Rightarrow> mstate \<times> mjob \<times> bool" where
  "keyed_enqueue k a s = enqueue_job (fst a) (fst (snd a)) (snd (snd a)) (Some k) s"

interpretation job_queue: idempotent_create "\<lambda>_ _. True" "\<lambda>_ _. True"
  "\<lambda>k s. row_get mj_key (Some k) (m_jobs s)" keyed_enqueue mj_id "\<lambda>s. length (m_jobs s)"
  by unfold_locales (auto simp: keyed_enqueue_def enqueue_job_def Let_def row_get_append)

lemma enqueue_session_parts:
  fixes c t now f s
  defines "k \<equiv> Session_key (mc_session c) (mc_activity c)"
  defines "a \<equiv> (t, map fst (mc_counts c), session_report c t now s)"
  assumes "keyed_enqueue k a s = (s1, j, b)" and "enqueue_session_job c t now f s = (s2, i, b2)"
  shows "i = mj_id j \<and> b2 = b \<and> length (m_jobs s2) = length (m_jobs s1) \<and>
    map mj_key (m_jobs s2) = map mj_key (m_jobs s1) \<and> map mj_id (m_jobs s2) = map mj_id (m_jobs s1)"
proof -
  from assms(3) have e: "enqueue_job t (map fst (mc_counts c)) (session_report c t now s)
      (Some (Session_key (mc_session c) (mc_activity c))) s = (s1, j, b)"
    by (simp add: keyed_enqueue_def a_def k_def)
  let ?g = "\<lambda>j. let j' = add_trigger t j in if f \<and> mj_status j = Queued then j'\<lparr>mj_trigger := t\<rparr> else j'"
  have "map mj_key (row_mod mj_id (mj_id j) ?g (m_jobs s1)) = map mj_key (m_jobs s1)"
    "map mj_id (row_mod mj_id (mj_id j) ?g (m_jobs s1)) = map mj_id (m_jobs s1)"
    by (rule row_mod_keys, simp add: Let_def)+
  with assms(4) show ?thesis by (auto simp: enqueue_session_job_def e Let_def split: if_splits)
qed

lemma row_get_proj:
  assumes "map key rs = map key ss" and "map p rs = map p ss" and "row_get key k rs = Some r"
  shows "\<exists>q. row_get key k ss = Some q \<and> p q = p r"
  using assms
proof (induction rs arbitrary: ss)
  case (Cons x rs)
  then obtain y ys where "ss = y # ys" by (cases ss) auto
  with Cons show ?case by (auto split: if_splits)
qed simp

text \<open>
  A session's activity is reviewed by one job per version. However often and by whatever
  trigger (threshold, idle, forced) a job is asked for a cursor at the same activity version, the
  first job is the one every later call returns, and no other is added.
\<close>

lemma one_job_per_activity_version:
  assumes "enqueue_session_job c t now f s = (s1, i, b)"
    and "mc_session c' = mc_session c" and "mc_activity c' = mc_activity c"
    and "enqueue_session_job c' t' now' f' s1 = (s2, i', b')"
  shows "i' = i \<and> \<not> b' \<and> length (m_jobs s2) = length (m_jobs s1)"
proof -
  let ?k = "Session_key (mc_session c) (mc_activity c)"
  obtain sa ja ba where a: "keyed_enqueue ?k (t, map fst (mc_counts c), session_report c t now s) s = (sa, ja, ba)"
    by (metis prod_cases3)
  from enqueue_session_parts [OF a assms(1)] have p: "i = mj_id ja" "map mj_key (m_jobs s1) = map mj_key (m_jobs sa)"
    "map mj_id (m_jobs s1) = map mj_id (m_jobs sa)" by auto
  have "row_get mj_key (Some ?k) (m_jobs sa) = Some ja"
    by (rule job_queue.created_findable [OF TrueI TrueI a])
  from row_get_proj [OF p(2) [symmetric] p(3) [symmetric] this] p(1)
  obtain q where q: "row_get mj_key (Some ?k) (m_jobs s1) = Some q" "mj_id q = i" by auto
  let ?b = "(t', map fst (mc_counts c'), session_report c' t' now' s1)"
  from job_queue.hit [OF TrueI TrueI q(1), of ?b] q(2) obtain sb jb where
    b: "keyed_enqueue ?k ?b s1 = (sb, jb, False)" "mj_id jb = i" "length (m_jobs sb) = length (m_jobs s1)"
    by auto
  from enqueue_session_parts [of c' t' now' s1 sb jb False f' s2 i' b'] b(1) assms(2-4) b(2,3)
  show ?thesis by simp
qed

section \<open>Evidence\<close>

lemma ensure_schedule_get: "\<exists>c. row_get sc_node i (m_schedules (ensure_schedule i s)) = Some c"
  by (auto simp: ensure_schedule_def row_get_append split: option.splits)

lemma ensure_schedule_same: "row_get sc_node i (m_schedules s) = Some c \<Longrightarrow> ensure_schedule i s = s"
  by (simp add: ensure_schedule_def)

lemma schedule_simps [simp]:
  "m_schedules (set_node i q s) = m_schedules s" "m_schedules (set_meta k d s) = m_schedules s"
  "m_schedules (set_schedule i g s) = row_mod sc_node i g (m_schedules s)"
  "m_evidence (set_node i q s) = m_evidence s" "m_evidence (set_schedule i g s) = m_evidence s"
  "m_evidence (ensure_schedule i s) = m_evidence s"
  "m_evidence (set_meta k d s) = row_mod ev_id k (\<lambda>e. e\<lparr>ev_meta := d\<rparr>) (m_evidence s)"
  by (simp_all add: set_node_def set_meta_def set_schedule_def ensure_schedule_def split: option.splits)

lemma mark_simps [simp]:
  "m_evidence (mark_success i k a clock s) = m_evidence s" "m_evidence (mark_conflict i clock s) = m_evidence s"
  by (simp_all add: mark_success_def mark_conflict_def Let_def)

lemma schedule_set_get:
  assumes "row_get sc_node i (m_schedules s) = Some c" and "\<And>c. sc_node (f c) = sc_node c"
  shows "row_get sc_node i (m_schedules (set_schedule i f s)) = Some (f c)"
  using assms(1) by (simp add: row_get_mod_same [where f = f] assms(2))

definition marks :: "mevidence \<Rightarrow> bool" where
  "marks e \<longleftrightarrow> ev_status e = ''accepted'' \<or> (ev_source e = ''exercise'' \<and> ev_confidence e < 1 / 2)"

lemma apply_marks:
  assumes e: "row_get ev_id (ev_id e) (m_evidence s) = Some e" and m: "marks e"
  shows "\<exists>e1 c. row_get ev_id (ev_id e) (m_evidence (fst (apply_evidence e n att hint clock s))) = Some e1 \<and>
    truthy (jget (ev_meta e1) ''mastery_event_applied'') \<and>
    row_get sc_node (mn_id n) (m_schedules (fst (apply_evidence e n att hint clock s))) = Some c"
proof -
  let ?s = "ensure_schedule (mn_id n) s"
  obtain c where c: "row_get sc_node (mn_id n) (m_schedules ?s) = Some c" using ensure_schedule_get by blast
  have meta: "row_get ev_id (ev_id e) (row_mod ev_id (ev_id e) (\<lambda>e. e\<lparr>ev_meta := d\<rparr>) (m_evidence s)) =
      Some (e\<lparr>ev_meta := d\<rparr>)" for d
    using e by (subst row_get_mod_same) simp_all
  have sched: "\<exists>c'. row_get sc_node (mn_id n) (row_mod sc_node (mn_id n) g (m_schedules ?s)) = Some c'"
    if "\<And>c. sc_node (g c) = sc_node c" for g
    using c that by (subst row_get_mod_same) simp_all
  have upd: "truthy (jget (AList.update ''mastery_awarded_star'' x
      (AList.update ''mastery_event_applied'' (JBool True) d)) ''mastery_event_applied'')"
    "truthy (jget (AList.update ''mastery_event_applied'' (JBool True) d) ''mastery_event_applied'')" for x d
    by (simp_all add: jget_def jget_default_def)
  show ?thesis
  proof (cases "truthy (jget (ev_meta e) ''mastery_event_applied'')")
    case True
    with e c show ?thesis by (simp add: apply_evidence_def Let_def)
  next
    case False
    with m c meta sched upd show ?thesis
      by (auto simp: apply_evidence_def Let_def mark_success_def mark_conflict_def marks_def)
  qed
qed

text \<open>
  Evidence counts once. After accepted evidence, or a failed exercise, has been applied, the
  evidence row says so, and applying it again, by any retry with any attempt count at any later
  time, awards nothing and changes nothing: no star, no schedule, no node state.
\<close>

lemma evidence_counts_once:
  fixes n :: mnode and att hint :: int and clock :: instant
  assumes "row_get ev_id (ev_id e) (m_evidence s) = Some e" and "marks e"
  defines "s1 \<equiv> fst (apply_evidence e n att hint clock s)"
  shows "\<exists>e1. row_get ev_id (ev_id e) (m_evidence s1) = Some e1 \<and>
    (\<forall>n1 att' hint' clock'. mn_id n1 = mn_id n \<longrightarrow>
       apply_evidence e1 n1 att' hint' clock' s1 = (s1, False))"
proof -
  from apply_marks [OF assms(1,2), of n att hint clock] obtain e1 c where
    "row_get ev_id (ev_id e) (m_evidence s1) = Some e1"
    "truthy (jget (ev_meta e1) ''mastery_event_applied'')"
    "row_get sc_node (mn_id n) (m_schedules s1) = Some c" unfolding s1_def by blast
  then show ?thesis by (auto simp: apply_evidence_def Let_def ensure_schedule_same)
qed

text \<open>
  The review interval. Accepted evidence applied for the first time makes the node fresh, adds
  at most one star, and only for high-quality evidence below 15, and sets the next review
  1, 3, 7, 14, 30, 45, 60 or 90 days ahead according to the node's new stars when the recall was
  independent; after a retry or with a hint it is 1 day up to one star and 3 days from two on.
\<close>

lemma review_interval_follows_stars:
  assumes "row_get mn_id (mn_id n) (m_nodes s) = Some n" and "stars_ok n"
    and "ev_status e = ''accepted''" and "\<not> truthy (jget (ev_meta e) ''mastery_event_applied'')"
  shows "\<exists>n' c. row_get mn_id (mn_id n) (m_nodes (fst (apply_evidence e n att hint clock s))) = Some n' \<and>
    row_get sc_node (mn_id n) (m_schedules (fst (apply_evidence e n att hint clock s))) = Some c \<and>
    mn_retrieval n' = ''fresh'' \<and>
    mn_stars n' = (if high_quality e \<and> mn_stars n < 15 then mn_stars n + 1 else mn_stars n) \<and>
    snd (apply_evidence e n att hint clock s) = (mn_stars n < mn_stars n') \<and>
    sc_last_recall c = Some clock \<and>
    sc_next c = Some (clock + 86400 *
      (if 1 < att \<or> 0 < hint then if mn_stars n' \<le> 1 then 1 else 3
       else [1, 3, 7, 14, 30, 45, 60, 90] ! min (nat (mn_stars n' - 1)) 7))"
proof -
  let ?s = "ensure_schedule (mn_id n) s"
  obtain c where c: "row_get sc_node (mn_id n) (m_schedules ?s) = Some c" using ensure_schedule_get by blast
  define k where "k = max (mn_stars n) (if high_quality e then min 15 (mn_stars n + 1) else mn_stars n)"
  define assisted where "assisted = (1 < att \<or> 0 < hint)"
  have old: "clamp_stars (mn_stars n) = mn_stars n" using assms(2) by (simp add: clamp_stars_def stars_ok_def)
  have k: "k = (if high_quality e \<and> mn_stars n < 15 then mn_stars n + 1 else mn_stars n)"
    using assms(2) by (auto simp: k_def stars_ok_def)
  let ?days = "review_interval_days ! interval_index k assisted"
  have days: "?days = (if assisted then if k \<le> 1 then 1 else 3
       else [1, 3, 7, 14, 30, 45, 60, 90] ! min (nat (k - 1)) 7)"
    by (auto simp: review_interval_days_def interval_index_def Let_def nth_Cons' min_def max_def)
  define d where "d = AList.update ''mastery_awarded_star'' (JBool (mn_stars n < k))
    (AList.update ''mastery_event_applied'' (JBool True) (ev_meta e))"
  have ap: "apply_evidence e n att hint clock s = (set_meta (ev_id e) d
      (mark_success (mn_id n) k assisted clock (set_node (mn_id n) (\<lambda>r. r\<lparr>mn_stars := k\<rparr>) ?s)), mn_stars n < k)"
    using assms(3,4) unfolding apply_evidence_def Let_def old k_def assisted_def d_def by simp
  have "\<exists>n'. row_get mn_id (mn_id n) (m_nodes (fst (apply_evidence e n att hint clock s))) = Some n' \<and>
      mn_stars n' = k \<and> mn_retrieval n' = ''fresh''"
    using assms(1) by (simp add: ap mark_success_def Let_def row_get_mod_same)
  then obtain n' where n': "row_get mn_id (mn_id n) (m_nodes (fst (apply_evidence e n att hint clock s))) = Some n'"
    "mn_stars n' = k" "mn_retrieval n' = ''fresh''" by blast
  let ?c = "c\<lparr>sc_last_recall := Some clock, sc_next := Some (clock + ?days * day)\<rparr>"
  have c': "row_get sc_node (mn_id n) (m_schedules (fst (apply_evidence e n att hint clock s))) = Some ?c"
    using c by (simp add: ap mark_success_def Let_def row_get_mod_same)
  have "clock + ?days * day = clock + 86400 * (if 1 < att \<or> 0 < hint then if k \<le> 1 then 1 else 3
       else [1, 3, 7, 14, 30, 45, 60, 90] ! min (nat (k - 1)) 7)"
    unfolding assisted_def [symmetric] days [symmetric] day_def by (simp only: mult.commute)
  then have due: "sc_next ?c = Some (clock + 86400 * (if 1 < att \<or> 0 < hint then if mn_stars n' \<le> 1 then 1 else 3
       else [1, 3, 7, 14, 30, 45, 60, 90] ! min (nat (mn_stars n' - 1)) 7))"
    unfolding n'(2) by (simp del: Num.numeral_eq_one_iff)
  have snd: "snd (apply_evidence e n att hint clock s) = (mn_stars n < mn_stars n')"
    by (simp add: ap n'(2))
  have last: "sc_last_recall ?c = Some clock" by simp
  show ?thesis
    by (intro exI conjI) (rule n'(1), rule c', rule n'(3), unfold n'(2), rule k, rule snd [unfolded n'(2)],
        rule last, rule due [unfolded n'(2)])
qed

section \<open>Messages\<close>

lemma activity_simps [simp]:
  "m_activities (set_schedule i f s) = m_activities s" "m_activities (set_job k g s) = m_activities s"
  "m_activities (set_cursor i h s) = m_activities s" "m_activities (set_meta k d s) = m_activities s"
  "m_activities (ensure_schedule i s) = m_activities s" "m_activities (ensure_cursor i now s) = m_activities s"
  "m_activities (set_node i q s) = m_activities s"
  by (auto simp: set_schedule_def set_job_def set_cursor_def set_meta_def ensure_schedule_def
      ensure_cursor_def set_node_def split: option.splits)

lemma apply_evidence_activities [simp]:
  "m_activities (fst (apply_evidence e n att hint clock s)) = m_activities s"
  by (simp add: apply_evidence_def mark_success_def mark_conflict_def Let_def)

lemma inquiries_activities:
  "fold_r (inquire m sid clock) ns (s, aw) = Inr (s', aw') \<Longrightarrow> m_activities s' = m_activities s"
proof (induction ns arbitrary: s aw)
  case (Cons n ns)
  then obtain s1 aw1 where st: "inquire m sid clock n (s, aw) = Inr (s1, aw1)"
    "fold_r (inquire m sid clock) ns (s1, aw1) = Inr (s', aw')" by (auto simp: bind_r_Inr)
  from inquire_cases [OF st(1)] have "m_activities s1 = m_activities s" by (auto simp: inquiry_base_def)
  with Cons.IH [OF st(2)] show ?case by simp
qed simp

lemma enqueue_session_activities [simp]:
  "m_activities (fst (enqueue_session_job c t now f s)) = m_activities s"
proof -
  obtain s1 j b where e: "enqueue_job t (map fst (mc_counts c)) (session_report c t now s)
      (Some (Session_key (mc_session c) (mc_activity c))) s = (s1, j, b)" by (metis prod_cases3)
  then have "m_activities s1 = m_activities s" by (auto simp: enqueue_job_def Let_def split: option.splits)
  then show ?thesis by (simp add: enqueue_session_job_def e Let_def)
qed

text \<open>
  A message is admitted once. Recording it writes exactly one activity row; recording the same
  message again, whatever the session, the nodes or the time, succeeds, awards nothing and leaves
  every table as it is.
\<close>

lemma message_admitted_once:
  assumes "record_message cf m sid ns now clock s = Inr (s1, awarded)"
    and "row_get ma_message m (m_activities s) = None"
  shows "length (m_activities s1) = Suc (length (m_activities s)) \<and>
    record_message cf' m sid' ns' now' clock' s1 = Inr (s1, [])"
proof -
  from assms obtain s3 where
    r: "fold_r (inquire m sid clock) (fromkeys ns) (admit_message cf m sid (fromkeys ns) now s, []) = Inr (s3, awarded)"
    "s1 = threshold_job cf sid now s3"
    by (auto simp: record_message_def Let_def bind_r_Inr)
  have "m_activities s1 = m_activities s3" by (simp add: r(2) threshold_job_def split: option.splits)
  also have "\<dots> = m_activities (admit_message cf m sid (fromkeys ns) now s)"
    by (rule inquiries_activities [OF r(1)])
  finally obtain a where a: "m_activities s1 = m_activities s @ [a]" "ma_message a = m"
    by (auto simp: admit_message_def Let_def)
  with assms(2) have "row_get ma_message m (m_activities s1) \<noteq> None" by (simp add: row_get_append)
  with a show ?thesis by (simp add: record_message_def Let_def)
qed

section \<open>The session cursor\<close>

lemma get_bump: "dict_get (foldl bump d ns) n 0 = dict_get d n 0 + int (count_list ns n)"
  by (induction ns arbitrary: d) (auto simp: bump_def)

lemma get_subtract:
  "distinct (map fst done) \<Longrightarrow> \<forall>k. 0 \<le> dict_get d k 0 \<Longrightarrow>
     dict_get (subtract_counts done d) n 0 =
       (case map_of done n of None \<Rightarrow> dict_get d n 0 | Some k \<Rightarrow> max 0 (dict_get d n 0 - k))"
proof (induction "done" arbitrary: d)
  case Nil
  then show ?case by (simp add: subtract_counts_def)
next
  case (Cons x xs)
  obtain m k where x: "x = (m, k)" by (cases x)
  define d' where "d' = (let left = dict_get d m 0 - k in
    if left > 0 then AList.update m left d else AList.delete m d)"
  have get: "dict_get d' j 0 = (if j = m then max 0 (dict_get d m 0 - k) else dict_get d j 0)" for j
    by (simp add: d'_def Let_def)
  with Cons.prems have "\<forall>j. 0 \<le> dict_get d' j 0" by simp
  with Cons.IH [of d'] Cons.prems(1) x have
    "dict_get (subtract_counts xs d') n 0 =
       (case map_of xs n of None \<Rightarrow> dict_get d' n 0 | Some k \<Rightarrow> max 0 (dict_get d' n 0 - k))" by simp
  moreover have "subtract_counts (x # xs) d = subtract_counts xs d'"
    by (simp add: subtract_counts_def x d'_def)
  moreover have "map_of xs n = None" if "n = m" using Cons.prems(1) x that
    by (simp add: map_of_eq_None_iff)
  ultimately show ?case using x get by (auto split: option.split)
qed

lemma count_distinct: "distinct xs \<Longrightarrow> count_list xs n = (if n \<in> set xs then 1 else 0)"
  by (induction xs) auto

section \<open>Concrete runs\<close>

definition example_config :: mconfig where
  "example_config = \<lparr>cf_threshold = 2, cf_idle = 300, cf_lease = 300, cf_attempts = 1,
     cf_digest = (\<lambda>_. ''d'')\<rparr>"

definition example_node :: "string \<Rightarrow> int \<Rightarrow> mnode" where
  "example_node i k = \<lparr>mn_id = i, mn_stars = k, mn_retrieval = ''unverified'', mn_evidence = ''none''\<rparr>"

definition example_mastery :: mstate where
  "example_mastery = \<lparr>m_nodes = [example_node ''n1'' 0, example_node ''n2'' 14], m_schedules = [],
     m_cursors = [], m_activities = [], m_evidence = [], m_jobs = []\<rparr>"

definition exercise :: "string \<Rightarrow> rat \<Rightarrow> string \<Rightarrow> nat \<Rightarrow> mevidence" where
  "exercise nid conf st i = \<lparr>ev_id = i, ev_node = nid, ev_source = ''exercise'', ev_confidence = conf,
     ev_status = st, ev_meta = []\<rparr>"

end
