(* ===== verification/Session_Reviews.thy ===== *)
theory Session_Reviews
  imports Mastery_Facts "HOL-Library.Sublist"
begin

text \<open>
  What becomes of the messages of a session under the scheduler. The tables are projected to one
  session (its cursor, its admitted messages and its review jobs), an abstract transition system
  says how such a projection may move, every operation of the service is shown to be a sequence of
  its moves, and the properties are proved on the moves.
\<close>

section \<open>One session\<close>

definition of_session :: "string \<Rightarrow> mjob \<Rightarrow> bool" where
  "of_session sid j \<longleftrightarrow> rp_kind (mj_report j) = Session_activity \<and> rp_session (mj_report j) = sid"

definition session_jobs :: "string \<Rightarrow> mstate \<Rightarrow> mjob list" where
  "session_jobs sid s = filter (of_session sid) (m_jobs s)"

definition mail_of :: "string \<Rightarrow> mstate \<Rightarrow> mactivity list" where
  "mail_of sid s = filter (\<lambda>a. ma_session a = sid) (m_activities s)"

type_synonym session_view = "mcursor option \<times> mactivity list \<times> mjob list"

definition view :: "string \<Rightarrow> mstate \<Rightarrow> session_view" where
  "view sid s = (row_get mc_session sid (m_cursors s), mail_of sid s, session_jobs sid s)"

text \<open>The messages after a version, the messages up to a version, and how many of them name a node.\<close>

definition later :: "int \<Rightarrow> mactivity list \<Rightarrow> mactivity list" where
  "later v as = filter (\<lambda>a. v < ma_version a) as"

definition upto_version :: "int \<Rightarrow> mactivity list \<Rightarrow> mactivity list" where
  "upto_version v as = filter (\<lambda>a. ma_version a \<le> v) as"

definition naming :: "string \<Rightarrow> mactivity list \<Rightarrow> mactivity list" where
  "naming n as = filter (\<lambda>a. n \<in> set (ma_nodes a)) as"

lemmas version_defs = later_def upto_version_def naming_def

section \<open>The moves of a session\<close>

text \<open>What a job keeps for life.\<close>

definition brief :: "mjob \<Rightarrow> nat \<times> job_key option \<times> job_kind \<times> string \<times> int \<times> int \<times> (string, int) dict \<times> string list" where
  "brief j = (mj_id j, mj_key j, rp_kind (mj_report j), rp_session (mj_report j), rp_version (mj_report j),
     rp_pending (mj_report j), rp_counts (mj_report j), rp_messages (mj_report j))"

definition open_job :: "mjob \<Rightarrow> bool" where
  "open_job j \<longleftrightarrow> mj_status j \<in> {Queued, Running}"

definition same_job :: "mjob \<Rightarrow> mjob \<Rightarrow> bool" where
  "same_job j j' \<longleftrightarrow> brief j' = brief j \<and>
     (mj_status j' = mj_status j \<or> open_job j \<and> mj_status j' \<noteq> Completed)"

definition new_cursor :: "string \<Rightarrow> instant \<Rightarrow> mcursor" where
  "new_cursor sid now = \<lparr>mc_session = sid, mc_pending = 0, mc_counts = [], mc_nodes = [],
     mc_activity = 0, mc_processed = 0, mc_enqueued = 0, mc_last_message = None,
     mc_last_activity = now, mc_idle_due = None, mc_last_processed = None\<rparr>"

definition opened_cursor :: "string \<Rightarrow> instant \<Rightarrow> mcursor option \<Rightarrow> mcursor" where
  "opened_cursor sid now o1 = (case o1 of None \<Rightarrow> new_cursor sid now | Some c \<Rightarrow> c)"

definition reported :: "mcursor \<Rightarrow> mactivity list \<Rightarrow> mjob \<Rightarrow> bool" where
  "reported c as j \<longleftrightarrow> rp_version (mj_report j) = mc_activity c \<and> rp_pending (mj_report j) = mc_pending c \<and>
     rp_counts (mj_report j) = mc_counts c \<and>
     rp_messages (mj_report j) = map ma_message (upto_version (mc_activity c) (later (mc_processed c) as))"

inductive session_move :: "mconfig \<Rightarrow> string \<Rightarrow> session_view \<Rightarrow> session_view \<Rightarrow> bool"
  for cf :: mconfig and sid :: string where
  relist: "list_all2 same_job js js' \<Longrightarrow> session_move cf sid (c, as, js) (c, as, js')"
| arrive: "distinct ns \<Longrightarrow> c' = touch_cursor cf m ns now (opened_cursor sid now c) \<Longrightarrow>
    ma_version a = mc_activity c' \<Longrightarrow> ma_nodes a = ns \<Longrightarrow>
    session_move cf sid (c, as, js) (Some c', as @ [a], js)"
| enqueue: "session_waiting c \<Longrightarrow> 0 < mc_pending c \<Longrightarrow> open_job j \<Longrightarrow> reported c as j \<Longrightarrow>
    mj_id j \<notin> mj_id ` set js \<Longrightarrow>
    session_move cf sid (Some c, as, js)
      (Some (c\<lparr>mc_enqueued := max (mc_enqueued c) (mc_activity c)\<rparr>), as, js @ [j])"
| complete: "j \<in> set js \<Longrightarrow> open_job j \<Longrightarrow> (\<And>x. brief x = brief j \<Longrightarrow> brief (g x) = brief x) \<Longrightarrow>
    (\<And>x. mj_status (g x) = Completed) \<Longrightarrow>
    session_move cf sid (Some c, as, js) (Some (settle_cursor cf (mj_report j) now c), as,
      row_mod mj_id (mj_id j) g js)"

section \<open>The accounting of a session\<close>

definition open_ok :: "mcursor \<Rightarrow> mactivity list \<Rightarrow> mjob \<Rightarrow> bool" where
  "open_ok c as j \<longleftrightarrow> (let r = mj_report j; seen = upto_version (rp_version r) (later (mc_processed c) as) in
     rp_version r = mc_enqueued c \<and> mc_processed c < rp_version r \<and> rp_version r \<le> mc_activity c \<and>
     rp_pending r = int (length seen) \<and> distinct (map fst (rp_counts r)) \<and>
     (\<forall>n. dict_get (rp_counts r) n 0 = int (length (naming n seen))) \<and>
     rp_messages r = map ma_message seen)"

definition cursor_counts :: "mcursor \<Rightarrow> mactivity list \<Rightarrow> bool" where
  "cursor_counts c as \<longleftrightarrow> mc_processed c \<le> mc_activity c \<and> (\<forall>a \<in> set as. ma_version a \<le> mc_activity c) \<and>
     mc_pending c = int (length (later (mc_processed c) as)) \<and> distinct (map fst (mc_counts c)) \<and>
     (\<forall>n. dict_get (mc_counts c) n 0 = int (length (naming n (later (mc_processed c) as)))) \<and>
     (mc_idle_due c = None \<longleftrightarrow> mc_pending c = 0)"

definition jobs_account :: "mcursor \<Rightarrow> mactivity list \<Rightarrow> mjob list \<Rightarrow> bool" where
  "jobs_account c as js \<longleftrightarrow> distinct (map (\<lambda>j. rp_version (mj_report j)) js) \<and> distinct (map mj_id js) \<and>
     (\<forall>j \<in> set js. if mj_status j = Completed then rp_version (mj_report j) \<le> mc_processed c
        else open_ok c as j) \<and>
     (\<forall>a \<in> set as. ma_version a \<le> mc_processed c \<longrightarrow>
        (\<exists>j \<in> set js. mj_status j = Completed \<and> ma_message a \<in> set (rp_messages (mj_report j))))"

fun mail_ok :: "session_view \<Rightarrow> bool" where
  "mail_ok (None, as, js) \<longleftrightarrow> as = [] \<and> js = []"
| "mail_ok (Some c, as, js) \<longleftrightarrow> cursor_counts c as \<and> jobs_account c as js"

lemma brief_fields:
  "brief j' = brief j \<Longrightarrow> mj_id j' = mj_id j \<and> mj_key j' = mj_key j \<and> rp_kind (mj_report j') = rp_kind (mj_report j) \<and>
     rp_session (mj_report j') = rp_session (mj_report j) \<and> rp_version (mj_report j') = rp_version (mj_report j) \<and>
     rp_pending (mj_report j') = rp_pending (mj_report j) \<and> rp_counts (mj_report j') = rp_counts (mj_report j) \<and>
     rp_messages (mj_report j') = rp_messages (mj_report j)"
  by (simp add: brief_def)

lemma open_ok_brief: "brief j' = brief j \<Longrightarrow> open_ok c as j' = open_ok c as j"
  using brief_fields [of j' j] by (simp add: open_ok_def Let_def)

lemma relist_maps:
  assumes "list_all2 same_job js js'"
  shows "map (\<lambda>j. rp_version (mj_report j)) js' = map (\<lambda>j. rp_version (mj_report j)) js \<and>
    map mj_id js' = map mj_id js"
  using assms by (induction rule: list_all2_induct) (auto simp: same_job_def dest: brief_fields)

lemma relist_back: "list_all2 same_job js js' \<Longrightarrow> j' \<in> set js' \<Longrightarrow> \<exists>j \<in> set js. same_job j j'"
  by (metis list_all2_conv_all_nth in_set_conv_nth)

lemma relist_forth: "list_all2 same_job js js' \<Longrightarrow> j \<in> set js \<Longrightarrow> \<exists>j' \<in> set js'. same_job j j'"
  by (metis list_all2_conv_all_nth in_set_conv_nth)

lemma relist_account:
  assumes "list_all2 same_job js js'" and acc: "jobs_account c as js"
  shows "jobs_account c as js'"
proof -
  note m = relist_maps [OF assms(1)]
  have "if mj_status j' = Completed then rp_version (mj_report j') \<le> mc_processed c else open_ok c as j'"
    if j': "j' \<in> set js'" for j'
  proof -
    obtain j where j: "j \<in> set js" "same_job j j'" using relist_back [OF assms(1) j'] by blast
    with acc have "if mj_status j = Completed then rp_version (mj_report j) \<le> mc_processed c else open_ok c as j"
      by (simp add: jobs_account_def)
    with j(2) brief_fields [of j' j] open_ok_brief [of j' j] show ?thesis
      by (auto simp: same_job_def open_job_def)
  qed
  moreover have "\<exists>j \<in> set js'. mj_status j = Completed \<and> ma_message a \<in> set (rp_messages (mj_report j))"
    if "a \<in> set as" "ma_version a \<le> mc_processed c" for a
  proof -
    from acc that have "\<exists>j \<in> set js. mj_status j = Completed \<and> ma_message a \<in> set (rp_messages (mj_report j))"
      by (simp add: jobs_account_def)
    then obtain j where j: "j \<in> set js" "mj_status j = Completed"
      "ma_message a \<in> set (rp_messages (mj_report j))" by blast
    obtain j' where "j' \<in> set js'" "same_job j j'" using relist_forth [OF assms(1) j(1)] by blast
    with j(2,3) brief_fields [of j' j] show ?thesis by (auto simp: same_job_def open_job_def)
  qed
  ultimately show ?thesis using acc m by (simp add: jobs_account_def)
qed

lemma later_append: "later v (as @ bs) = later v as @ later v bs"
  by (simp add: version_defs)

lemma naming_append: "naming n (as @ bs) = naming n as @ naming n bs"
  by (simp add: version_defs)

lemma touch_fields:
  fixes c :: mcursor
  assumes "distinct ns"
  and c': "c' = touch_cursor cf m ns now c"
  shows "mc_pending c' = mc_pending c + 1 \<and> mc_activity c' = mc_activity c + 1 \<and>
    mc_processed c' = mc_processed c \<and> mc_enqueued c' = mc_enqueued c \<and> mc_idle_due c' \<noteq> None \<and>
    dict_get (mc_counts c') n 0 = dict_get (mc_counts c) n 0 + (if n \<in> set ns then 1 else 0) \<and>
    (distinct (map fst (mc_counts c)) \<longrightarrow> distinct (map fst (mc_counts c')))"
proof -
  have "distinct (map fst d) \<Longrightarrow> distinct (map fst (foldl bump d ns))" for d
    by (induction ns arbitrary: d) (simp_all add: bump_def distinct_update)
  then show ?thesis using assms(1) by (simp add: c' touch_cursor_def Let_def get_bump count_distinct)
qed

lemma arrive_counts:
  assumes "cursor_counts c as" and "distinct ns" and "c' = touch_cursor cf m ns now c"
    and "ma_version a = mc_activity c'" and "ma_nodes a = ns"
  shows "cursor_counts c' (as @ [a])"
proof -
  note f = touch_fields [OF assms(2,3)]
  have v: "ma_version a = mc_activity c + 1" "mc_processed c' = mc_processed c" using f assms(4) by auto
  have ge: "mc_processed c \<le> mc_activity c" using assms(1) by (simp add: cursor_counts_def)
  have l: "later (mc_processed c) (as @ [a]) = later (mc_processed c) as @ [a]"
    using v ge by (simp add: version_defs)
  have n: "naming n (later (mc_processed c) as @ [a]) =
      naming n (later (mc_processed c) as) @ (if n \<in> set ns then [a] else [])" for n
    using assms(5) by (simp add: naming_def)
  have d: "dict_get (mc_counts c') n 0 =
      int (length (naming n (later (mc_processed c') (as @ [a]))))" for n
    unfolding v(2) l n using f assms(1) by (simp add: cursor_counts_def)
  have p: "mc_pending c' = int (length (later (mc_processed c') (as @ [a])))"
    unfolding v(2) l using f assms(1) by (simp add: cursor_counts_def)
  have "mc_idle_due c' \<noteq> None" "mc_pending c' \<noteq> 0" using f assms(1) by (auto simp: cursor_counts_def)
  with p d f v ge assms(1) show ?thesis by (auto simp: cursor_counts_def)
qed

lemma arrive_account:
  assumes "jobs_account c as js" and "mc_activity c < ma_version a" and "mc_processed c \<le> mc_activity c"
    and "mc_processed c' = mc_processed c" and "mc_enqueued c' = mc_enqueued c" and "mc_activity c \<le> mc_activity c'"
  shows "jobs_account c' (as @ [a]) js"
proof -
  have "open_ok c' (as @ [a]) j" if "open_ok c as j" for j
  proof -
    have "rp_version (mj_report j) < ma_version a" using that assms(2) by (simp add: open_ok_def Let_def)
    then have "upto_version (rp_version (mj_report j)) (later (mc_processed c) (as @ [a])) =
        upto_version (rp_version (mj_report j)) (later (mc_processed c) as)" by (simp add: version_defs)
    with that assms(4-6) show ?thesis by (auto simp: open_ok_def Let_def)
  qed
  with assms show ?thesis by (auto simp: jobs_account_def split: if_splits)
qed

lemma enqueue_account:
  assumes cc: "cursor_counts c as" and acc: "jobs_account c as js" and w: "session_waiting c" "0 < mc_pending c"
    and j: "open_job j" "reported c as j" "mj_id j \<notin> mj_id ` set js"
  shows "jobs_account (c\<lparr>mc_enqueued := max (mc_enqueued c) (mc_activity c)\<rparr>) as (js @ [j])"
proof -
  have "later (mc_processed c) as \<noteq> []" using cc w(2) by (auto simp: cursor_counts_def)
  then obtain a where "a \<in> set as" "mc_processed c < ma_version a" by (auto simp: later_def filter_empty_conv)
  with cc have new: "mc_processed c < mc_activity c" by (auto simp: cursor_counts_def)
  have closed: "mj_status x = Completed \<and> rp_version (mj_report x) \<le> mc_processed c" if "x \<in> set js" for x
  proof -
    have "\<not> open_ok c as x" using w(1) by (auto simp: session_waiting_def open_ok_def Let_def)
    with acc that show ?thesis unfolding jobs_account_def by metis
  qed
  have all: "upto_version (mc_activity c) (later (mc_processed c) as) = later (mc_processed c) as"
    unfolding upto_version_def by (rule filter_True) (use cc in \<open>auto simp: cursor_counts_def later_def\<close>)
  have "mj_status j \<noteq> Completed" using j(1) by (auto simp: open_job_def)
  moreover have "open_ok (c\<lparr>mc_enqueued := max (mc_enqueued c) (mc_activity c)\<rparr>) as j"
    using j(2) cc new w(1) all by (simp add: open_ok_def reported_def cursor_counts_def session_waiting_def Let_def)
  moreover have "rp_version (mj_report j) \<notin> (\<lambda>j. rp_version (mj_report j)) ` set js"
    using closed new j(2) by (fastforce simp: reported_def)
  ultimately show ?thesis using acc closed j(3) by (auto simp: jobs_account_def)
qed

lemma split_later:
  assumes "p < v"
  shows "length (later p as) = length (upto_version v (later p as)) + length (later v as)"
    and "length (naming n (later p as)) =
      length (naming n (upto_version v (later p as))) + length (naming n (later v as))"
  using assms by (induction as) (auto simp: version_defs)

lemma settled_fields:
  fixes now :: instant and cf :: mconfig
  assumes cc: "cursor_counts c as" and o: "open_ok c as j"
  defines "v \<equiv> rp_version (mj_report j)" and "c' \<equiv> settle_cursor cf (mj_report j) now c"
  shows "mc_processed c' = v \<and> mc_enqueued c' = 0 \<and> cursor_counts c' as"
proof -
  let ?p = "mc_processed c"
  let ?seen = "upto_version v (later ?p as)"
  have v: "?p < v" "v \<le> mc_activity c" using o by (auto simp: open_ok_def Let_def v_def)
  note sp = split_later [OF v(1), where as = as]
  have pend: "max 0 (mc_pending c - rp_pending (mj_report j)) = int (length (later v as))"
    using cc o sp(1) by (simp add: cursor_counts_def open_ok_def Let_def v_def)
  have nn: "\<forall>k. 0 \<le> dict_get (mc_counts c) k 0" using cc by (simp add: cursor_counts_def)
  have dr: "distinct (map fst (rp_counts (mj_report j)))" using o by (simp add: open_ok_def Let_def)
  have val: "dict_get (subtract_counts (rp_counts (mj_report j)) (mc_counts c)) n 0 =
      int (length (naming n (later v as)))" for n
  proof -
    have c: "dict_get (mc_counts c) n 0 = int (length (naming n (later ?p as)))"
      using cc by (simp add: cursor_counts_def)
    have r: "dict_get (rp_counts (mj_report j)) n 0 = int (length (naming n ?seen))"
      using o by (simp add: open_ok_def Let_def v_def)
    show ?thesis
    proof (cases "map_of (rp_counts (mj_report j)) n")
      case None
      with r have "length (naming n ?seen) = 0" by (simp add: dict_get_def)
      with None c sp(2) [where n = n] show ?thesis unfolding get_subtract [OF dr nn] by simp
    next
      case (Some k)
      with r have "k = int (length (naming n ?seen))" by (simp add: dict_get_def)
      with Some c sp(2) [where n = n] show ?thesis unfolding get_subtract [OF dr nn] by simp
    qed
  qed
  have dist: "distinct (map fst (subtract_counts d e))" if "distinct (map fst e)" for d e :: "(string, int) dict"
    using that unfolding subtract_counts_def
    by (induction d arbitrary: e) (auto simp: Let_def distinct_update distinct_delete)
  from cc have "distinct (map fst (mc_counts c))" "mc_processed c \<le> mc_activity c"
    "\<forall>a \<in> set as. ma_version a \<le> mc_activity c" by (simp_all add: cursor_counts_def)
  with pend val dist v show ?thesis
    by (auto simp: c'_def settle_cursor_def cursor_counts_def Let_def v_def)
qed

text \<open>At most one job of a session is not completed.\<close>

lemma only_unfinished:
  assumes acc: "jobs_account c as js" and j: "j \<in> set js" "mj_status j \<noteq> Completed"
    and x: "x \<in> set js" "mj_status x \<noteq> Completed"
  shows "x = j"
proof -
  have "open_ok c as j" "open_ok c as x" using assms by (auto simp: jobs_account_def)
  then have "rp_version (mj_report x) = rp_version (mj_report j)" by (simp add: open_ok_def Let_def)
  moreover have "inj_on (\<lambda>j. rp_version (mj_report j)) (set js)"
    using acc by (simp add: jobs_account_def distinct_map)
  ultimately show ?thesis using j(1) x(1) by (auto dest: inj_onD)
qed

lemma complete_account:
  assumes cc: "cursor_counts c as" and acc: "jobs_account c as js" and j: "j \<in> set js" "open_job j"
    and g: "\<And>x. brief x = brief j \<Longrightarrow> brief (g x) = brief x" "\<And>x. mj_status (g x) = Completed"
  shows "jobs_account (settle_cursor cf (mj_report j) now c) as (row_mod mj_id (mj_id j) g js)"
proof -
  let ?c = "settle_cursor cf (mj_report j) now c"
  let ?js = "row_mod mj_id (mj_id j) g js"
  let ?v = "rp_version (mj_report j)"
  have nc: "mj_status j \<noteq> Completed" using j(2) by (auto simp: open_job_def)
  have o: "open_ok c as j" using acc j(1) nc by (auto simp: jobs_account_def)
  note f = settled_fields [OF cc o, of cf now]
  have lt: "mc_processed c < ?v" using o by (simp add: open_ok_def Let_def)
  have inj: "inj_on mj_id (set js)" using acc by (simp add: jobs_account_def distinct_map)
  have mod: "?js = map (\<lambda>x. if x = j then g j else x) js"
    unfolding row_mod_def using inj j(1) by (auto dest: inj_onD)
  have b: "brief (g j) = brief j" by (rule g(1)) simp
  have maps: "map (\<lambda>j. rp_version (mj_report j)) ?js = map (\<lambda>j. rp_version (mj_report j)) js"
    "map mj_id ?js = map mj_id js"
    unfolding mod using brief_fields [OF b] by simp_all
  have comp: "mj_status x = Completed \<and> rp_version (mj_report x) \<le> ?v" if x: "x \<in> set ?js" for x
  proof -
    from x obtain y where y: "y \<in> set js" "x = (if y = j then g j else y)" by (auto simp: mod)
    show ?thesis
    proof (cases "y = j")
      case True
      with y g(2) brief_fields [OF b] show ?thesis by simp
    next
      case False
      with only_unfinished [OF acc j(1) nc y(1)] have "mj_status y = Completed" by blast
      moreover from this have "rp_version (mj_report y) \<le> mc_processed c"
        using acc y(1) by (auto simp: jobs_account_def)
      ultimately show ?thesis using y False lt by simp
    qed
  qed
  have cover: "\<exists>x \<in> set ?js. ma_message a \<in> set (rp_messages (mj_report x))"
    if a: "a \<in> set as" "ma_version a \<le> ?v" for a
  proof (cases "ma_version a \<le> mc_processed c")
    case True
    with acc a have "\<exists>x \<in> set js. mj_status x = Completed \<and> ma_message a \<in> set (rp_messages (mj_report x))"
      by (simp add: jobs_account_def)
    then obtain x where "x \<in> set js" "mj_status x = Completed" "ma_message a \<in> set (rp_messages (mj_report x))"
      by blast
    with nc have "x \<in> set ?js" by (auto simp: mod)
    with \<open>ma_message a \<in> set (rp_messages (mj_report x))\<close> show ?thesis by blast
  next
    case False
    with a o have "ma_message a \<in> set (rp_messages (mj_report j))"
      by (auto simp: open_ok_def Let_def version_defs)
    with brief_fields [OF b] j(1) show ?thesis by (auto simp: mod)
  qed
  from acc maps comp cover f show ?thesis by (auto simp: jobs_account_def)
qed

lemma move_mail:
  assumes "session_move cf sid v v'" and "mail_ok v"
  shows "mail_ok v'"
  using assms
proof cases
  case (relist js js' c as)
  with assms(2) relist_account show ?thesis by (cases c) auto
next
  case (arrive ns c' m now c a as js)
  let ?c = "opened_cursor sid now c"
  have ok: "cursor_counts ?c as \<and> jobs_account ?c as js"
    using assms(2) arrive(1) by (cases c)
      (simp_all add: opened_cursor_def new_cursor_def cursor_counts_def jobs_account_def version_defs)
  then have le: "mc_processed ?c \<le> mc_activity ?c" by (simp add: cursor_counts_def)
  note f = touch_fields [OF arrive(3,4)]
  have "cursor_counts c' (as @ [a])" using arrive_counts ok arrive(3-6) by blast
  moreover have "jobs_account c' (as @ [a]) js"
    using ok le f arrive(5) by (intro arrive_account [of ?c]) auto
  ultimately show ?thesis using arrive(2) by simp
next
  case (enqueue c j as js)
  from assms(2) enqueue(1) have ok: "cursor_counts c as" "jobs_account c as js" by simp_all
  from enqueue_account [OF this enqueue(3-7)] ok(1) enqueue(2) show ?thesis
    by (simp add: cursor_counts_def)
next
  case (complete j js g c as now)
  from assms(2) complete(1) have ok: "cursor_counts c as" "jobs_account c as js" by simp_all
  then have "open_ok c as j" using complete(3,4) by (auto simp: jobs_account_def open_job_def split: if_splits)
  with complete_account [OF ok complete(3-6)] settled_fields [OF ok(1)] complete(2) show ?thesis by simp
qed

section \<open>A session that has lost its job\<close>

definition stalled_view :: "session_view \<Rightarrow> bool" where
  "stalled_view v \<longleftrightarrow> mail_ok v \<and> (\<exists>j \<in> set (snd (snd v)). mj_status j = Failed)"

definition job_states :: "mjob list \<Rightarrow> (nat \<times> job_status) list" where
  "job_states js = map (\<lambda>j. (mj_id j, mj_status j)) js"

definition same_stall :: "session_view \<Rightarrow> session_view \<Rightarrow> bool" where
  "same_stall v v' \<longleftrightarrow> job_states (snd (snd v')) = job_states (snd (snd v)) \<and>
     map_option (\<lambda>c. (mc_enqueued c, mc_processed c)) (fst v') =
       map_option (\<lambda>c. (mc_enqueued c, mc_processed c)) (fst v) \<and>
     prefix (fst (snd v)) (fst (snd v'))"

lemma relist_finished:
  assumes "list_all2 same_job js js'" and "\<forall>j \<in> set js. \<not> open_job j"
  shows "job_states js' = job_states js"
  using assms unfolding job_states_def
  by (induction rule: list_all2_induct) (auto simp: same_job_def dest: brief_fields)

lemma stalled_open:
  assumes "mail_ok (Some c, as, js)" and "j \<in> set js" "mj_status j = Failed"
  shows "(\<forall>x \<in> set js. \<not> open_job x) \<and> \<not> session_waiting c"
proof -
  have acc: "jobs_account c as js" using assms(1) by simp
  have "\<not> open_job x" if "x \<in> set js" for x
    using only_unfinished [OF acc assms(2) _ that] assms(3) by (auto simp: open_job_def)
  moreover have "open_ok c as j" using acc assms(2,3) by (auto simp: jobs_account_def)
  ultimately show ?thesis by (auto simp: open_ok_def session_waiting_def Let_def)
qed

lemma stalled_viewD:
  "stalled_view (Some c, as, js) \<Longrightarrow> (\<forall>x \<in> set js. \<not> open_job x) \<and> \<not> session_waiting c"
  "\<not> stalled_view (None, as, js)"
  using stalled_open by (auto simp: stalled_view_def simp del: mail_ok.simps(2))

lemma failed_kept:
  assumes "job_states js' = job_states js" and "\<exists>j \<in> set js. mj_status j = Failed"
  shows "\<exists>j \<in> set js'. mj_status j = Failed"
proof -
  have "Failed \<in> snd ` set (job_states js)" using assms(2) by (force simp: job_states_def)
  with assms(1) have "Failed \<in> snd ` set (job_states js')" by simp
  then show ?thesis by (force simp: job_states_def)
qed

lemma stalled_move:
  assumes mv: "session_move cf sid v v'" and st: "stalled_view v"
  shows "stalled_view v' \<and> same_stall v v'"
proof -
  have ok: "mail_ok v" using st by (simp add: stalled_view_def)
  have "same_stall v v'"
    using mv
  proof cases
    case (relist js js' c as)
    with st have "\<forall>j \<in> set js. \<not> open_job j" using stalled_viewD by (cases c) blast+
    from relist_finished [OF relist(3) this] relist(1,2) show ?thesis by (simp add: same_stall_def)
  next
    case (arrive ns c' m now c a as js)
    with st obtain c0 where "c = Some c0" using stalled_viewD(2) by (cases c) blast+
    with arrive touch_fields [OF arrive(3,4)] show ?thesis by (simp add: same_stall_def opened_cursor_def)
  next
    case (enqueue c j as js)
    with st show ?thesis using stalled_viewD(1) by blast
  next
    case (complete j js g c as now)
    with st show ?thesis using stalled_viewD(1) by blast
  qed
  with move_mail [OF mv ok] st failed_kept show ?thesis
    by (auto simp: stalled_view_def same_stall_def)
qed

lemma moves_mail: "(session_move cf sid)\<^sup>*\<^sup>* v v' \<Longrightarrow> mail_ok v \<Longrightarrow> mail_ok v'"
  by (induction rule: rtranclp_induct) (auto intro: move_mail)

lemma moves_stalled: "(session_move cf sid)\<^sup>*\<^sup>* v v' \<Longrightarrow> stalled_view v \<Longrightarrow> stalled_view v' \<and> same_stall v v'"
proof (induction rule: rtranclp_induct)
  case base
  then show ?case by (simp add: same_stall_def)
next
  case (step u w)
  with stalled_move [OF step(2)] show ?case by (fastforce simp: same_stall_def intro: prefix_order.trans)
qed

section \<open>The service moves its sessions\<close>

definition tidy :: "mstate \<Rightarrow> bool" where
  "tidy s \<longleftrightarrow> map mj_id (m_jobs s) = [0..<length (m_jobs s)] \<and> distinct (map mc_session (m_cursors s))"

definition simulated :: "mconfig \<Rightarrow> string \<Rightarrow> mstate \<Rightarrow> mstate \<Rightarrow> bool" where
  "simulated cf sid s s' \<longleftrightarrow> (tidy s \<longrightarrow> mail_ok (view sid s) \<longrightarrow>
     tidy s' \<and> (session_move cf sid)\<^sup>*\<^sup>* (view sid s) (view sid s'))"

lemma sim_refl [simp]: "simulated cf sid s s"
  by (simp add: simulated_def)

lemma sim_trans: "simulated cf sid s t \<Longrightarrow> simulated cf sid t u \<Longrightarrow> simulated cf sid s u"
  unfolding simulated_def by (meson moves_mail rtranclp_trans)

lemma filter_mod:
  assumes "\<And>x. x \<in> set xs \<Longrightarrow> key x = i \<Longrightarrow> P (g x) = P x"
  shows "filter P (row_mod key i g xs) = row_mod key i g (filter P xs)"
  using assms by (induction xs) auto

lemma relist_filter:
  assumes "\<And>j. j \<in> set js \<Longrightarrow> same_job j (f j)"
  shows "list_all2 same_job (filter (of_session sid) js) (filter (of_session sid) (map f js))"
proof -
  have "of_session sid (f j) = of_session sid j" if "j \<in> set js" for j
    using assms [OF that] brief_fields [of "f j" j] by (simp add: same_job_def of_session_def)
  with assms show ?thesis by (induction js) auto
qed

lemma sim_jobs:
  assumes "m_cursors s' = m_cursors s" "m_activities s' = m_activities s" "m_jobs s' = map f (m_jobs s)"
    and "\<And>j. j \<in> set (m_jobs s) \<Longrightarrow> same_job j (f j)"
  shows "simulated cf sid s s'"
proof -
  have "session_move cf sid (view sid s) (view sid s')"
    using assms(1,2) relist_filter [of "m_jobs s" f sid] assms(4)
    by (simp add: view_def mail_of_def session_jobs_def assms(3) session_move.relist)
  moreover have "mj_id (f j) = mj_id j" if "j \<in> set (m_jobs s)" for j
    using assms(4) [OF that] brief_fields [of "f j" j] by (simp add: same_job_def)
  then have "map mj_id (m_jobs s') = map mj_id (m_jobs s)" by (simp add: assms(3))
  moreover have "length (m_jobs s') = length (m_jobs s)" by (simp add: assms(3))
  ultimately show ?thesis using assms(1) by (simp add: simulated_def tidy_def r_into_rtranclp)
qed

lemma sim_same:
  assumes "m_cursors s' = m_cursors s" "m_activities s' = m_activities s" "m_jobs s' = m_jobs s"
  shows "simulated cf sid s s'"
  using assms by (simp add: simulated_def view_def mail_of_def session_jobs_def tidy_def)

lemma cursor_simps [simp]:
  "m_cursors (set_schedule i f s) = m_cursors s" "m_cursors (set_job k g s) = m_cursors s"
  "m_cursors (set_meta k d s) = m_cursors s" "m_cursors (ensure_schedule i s) = m_cursors s"
  "m_cursors (set_node i q s) = m_cursors s"
  "m_cursors (set_cursor i h s) = row_mod mc_session i h (m_cursors s)"
  by (auto simp: set_schedule_def set_job_def set_cursor_def set_meta_def ensure_schedule_def
      set_node_def split: option.splits)

lemma apply_evidence_cursors [simp]: "m_cursors (fst (apply_evidence e n att hint clock s)) = m_cursors s"
  by (simp add: apply_evidence_def mark_success_def mark_conflict_def Let_def)

lemma mark_due_frame [simp]:
  "m_cursors (fst (mark_nodes_due ids now s)) = m_cursors s"
  "m_activities (fst (mark_nodes_due ids now s)) = m_activities s"
proof -
  have "m_cursors (foldl (\<lambda>s i. set_node i (\<lambda>n. n\<lparr>mn_retrieval := ''due''\<rparr>) s) s xs) = m_cursors s \<and>
    m_activities (foldl (\<lambda>s i. set_node i (\<lambda>n. n\<lparr>mn_retrieval := ''due''\<rparr>) s) s xs) = m_activities s" for xs
    by (induction xs arbitrary: s) simp_all
  then show "m_cursors (fst (mark_nodes_due ids now s)) = m_cursors s"
    "m_activities (fst (mark_nodes_due ids now s)) = m_activities s"
    by (simp_all add: mark_nodes_due_def Let_def)
qed

lemma settle_schedules_frame [simp]:
  "m_cursors (settle_schedules done s) = m_cursors s" "m_activities (settle_schedules done s) = m_activities s"
  unfolding settle_schedules_def by (induction "done" arbitrary: s) (auto split: prod.splits)

definition finished :: "string list \<Rightarrow> string list \<Rightarrow> instant \<Rightarrow> mjob \<Rightarrow> mjob \<Rightarrow> mjob" where
  "finished marked missing now j x = x\<lparr>mj_report := (mj_report j)\<lparr>rp_marked := marked, rp_missing := missing,
     rp_completed_at := Some now\<rparr>, mj_status := Completed, mj_completed := Some now, mj_error := []\<rparr>"

lemma finished_simps [simp]:
  "mj_id (finished a b now j x) = mj_id x" "mj_status (finished a b now j x) = Completed"
  "of_session sid (finished a b now j x) = of_session sid j"
  "brief x = brief j \<Longrightarrow> brief (finished a b now j x) = brief j"
  by (simp_all add: finished_def of_session_def brief_def)

text \<open>The body of a job writes the job and, for a session job, the cursor of its session.\<close>

lemma body_frame:
  obtains a b where
    "m_jobs (job_body cf j now s) = row_mod mj_id (mj_id j) (finished a b now j) (m_jobs s)"
    "m_activities (job_body cf j now s) = m_activities s"
    "m_cursors (job_body cf j now s) = (if rp_kind (mj_report j) = Session_activity
       then row_mod mc_session (rp_session (mj_report j)) (settle_cursor cf (mj_report j) now) (m_cursors s)
       else m_cursors s)"
proof -
  obtain s1 a b where m: "mark_nodes_due (mj_nodes j) now s = (s1, a, b)" by (metis prod_cases3)
  then have s1: "m_jobs s1 = m_jobs s" "m_cursors s1 = m_cursors s" "m_activities s1 = m_activities s"
    using mark_due_jobs mark_due_frame by (metis fst_conv)+
  have g: "(\<lambda>x. x\<lparr>mj_report := (mj_report j)\<lparr>rp_marked := a, rp_missing := b, rp_completed_at := Some now\<rparr>,
      mj_status := Completed, mj_completed := Some now, mj_error := []\<rparr>) = finished a b now j"
    by (simp add: finished_def fun_eq_iff)
  have "row_mod mc_session k f cs = cs" if "row_get mc_session k cs = None" for k f and cs :: "mcursor list"
    using that by (intro row_mod_absent) (simp add: row_get_None_iff)
  then show ?thesis
    by (intro that [of a b]) (auto simp: job_body_def m Let_def g s1 complete_session_cursor_def split: option.splits)
qed

lemma settle_session [simp]: "mc_session (settle_cursor cf r now c) = mc_session c"
  by (simp add: settle_cursor_def Let_def)

lemma sim_body:
  assumes "row_get mj_id i (m_jobs s) = Some j" and "open_job j"
  shows "simulated cf sid s (job_body cf j now s)"
  unfolding simulated_def
proof (intro impI)
  assume t: "tidy s" and ok: "mail_ok (view sid s)"
  obtain a b where fr:
    "m_jobs (job_body cf j now s) = row_mod mj_id (mj_id j) (finished a b now j) (m_jobs s)"
    "m_activities (job_body cf j now s) = m_activities s"
    "m_cursors (job_body cf j now s) = (if rp_kind (mj_report j) = Session_activity
       then row_mod mc_session (rp_session (mj_report j)) (settle_cursor cf (mj_report j) now) (m_cursors s)
       else m_cursors s)" by (rule body_frame)
  let ?g = "finished a b now j"
  let ?s = "job_body cf j now s"
  have j: "j \<in> set (m_jobs s)" using row_get_SomeD [OF assms(1)] by simp
  have dist: "distinct (map mj_id (m_jobs s))" using t by (simp add: tidy_def)
  have only: "x = j" if "x \<in> set (m_jobs s)" "mj_id x = mj_id j" for x
    using row_get_distinct [OF dist that(1)] row_get_distinct [OF dist j] that(2) by (metis option.inject)
  have js: "session_jobs sid ?s = row_mod mj_id (mj_id j) ?g (session_jobs sid s)"
    unfolding session_jobs_def fr(1) by (rule filter_mod) (use only in auto)
  have "map mj_id (m_jobs ?s) = map mj_id (m_jobs s)" unfolding fr(1) by (rule row_mod_keys) simp
  moreover have "map mc_session (m_cursors ?s) = map mc_session (m_cursors s)"
    unfolding fr(3) by (auto intro: row_mod_keys)
  ultimately have tidy: "tidy ?s" using t by (simp add: tidy_def fr(1))
  have "(session_move cf sid)\<^sup>*\<^sup>* (view sid s) (view sid ?s)"
  proof (cases "of_session sid j")
    case False
    have "mj_id j \<notin> mj_id ` set (session_jobs sid s)" using only False by (auto simp: session_jobs_def)
    then have "session_jobs sid ?s = session_jobs sid s" unfolding js by (rule row_mod_absent)
    moreover have "row_get mc_session sid (m_cursors ?s) = row_get mc_session sid (m_cursors s)"
      using False by (auto simp: fr(3) of_session_def intro: row_get_mod_other)
    ultimately have "view sid ?s = view sid s" by (simp add: view_def mail_of_def fr(2))
    then show ?thesis by simp
  next
    case True
    then have r: "rp_kind (mj_report j) = Session_activity" "rp_session (mj_report j) = sid"
      by (simp_all add: of_session_def)
    have in_js: "j \<in> set (session_jobs sid s)" using j True by (simp add: session_jobs_def)
    then obtain c where c: "row_get mc_session sid (m_cursors s) = Some c"
      using ok by (cases "row_get mc_session sid (m_cursors s)") (auto simp: view_def)
    have "row_get mc_session sid (m_cursors ?s) = Some (settle_cursor cf (mj_report j) now c)"
      using c r by (simp add: fr(3) row_get_mod_same)
    moreover have "session_move cf sid (Some c, mail_of sid s, session_jobs sid s)
        (Some (settle_cursor cf (mj_report j) now c), mail_of sid s,
         row_mod mj_id (mj_id j) ?g (session_jobs sid s))"
      by (rule session_move.complete [OF in_js assms(2)]) simp_all
    ultimately show ?thesis using c js by (simp add: view_def mail_of_def fr(2) r_into_rtranclp)
  qed
  with tidy show "tidy ?s \<and> (session_move cf sid)\<^sup>*\<^sup>* (view sid s) (view sid ?s)" by simp
qed

lemma sim_add_job:
  assumes "m_cursors s' = m_cursors s" "m_activities s' = m_activities s" "m_jobs s' = m_jobs s @ [j]"
    and "mj_id j = length (m_jobs s)" and "rp_kind (mj_report j) \<noteq> Session_activity"
  shows "simulated cf sid s s'"
  using assms by (simp add: simulated_def view_def mail_of_def session_jobs_def of_session_def tidy_def)

lemma row_mod_map: "row_mod key k f rs = map (\<lambda>r. if key r = k then f r else r) rs"
  by (simp add: row_mod_def)

lemma sim_set_job:
  assumes "\<And>j. j \<in> set (m_jobs s) \<Longrightarrow> mj_id j = i \<Longrightarrow> same_job j (f j)"
  shows "simulated cf sid s (set_job i f s)"
  by (rule sim_jobs [where f = "\<lambda>r. if mj_id r = i then f r else r"])
    (use assms in \<open>auto simp: set_job_def row_mod_map same_job_def\<close>)

lemma add_trigger_same: "same_job j (add_trigger t j)"
  by (simp add: same_job_def brief_def add_trigger_def Let_def)

lemma sim_enqueue_session:
  assumes c: "row_get mc_session k (m_cursors s) = Some c" and w: "session_waiting c" "0 < mc_pending c"
  shows "simulated cf sid s (fst (enqueue_session_job c t now False s))"
proof -
  let ?key = "Session_key (mc_session c) (mc_activity c)"
  have k: "mc_session c = k" using c by (rule row_get_key)
  show ?thesis
  proof (cases "row_get mj_key (Some ?key) (m_jobs s)")
    case (Some j)
    then have "fst (enqueue_session_job c t now False s) = set_job (mj_id j) (\<lambda>j. let j' = add_trigger t j in j') s"
      by (simp add: enqueue_session_job_def enqueue_job_def Let_def)
    moreover have "simulated cf sid s (set_job (mj_id j) (add_trigger t) s)"
      by (rule sim_set_job) (rule add_trigger_same)
    ultimately show ?thesis by (simp add: Let_def)
  next
    case None
    define j where "j = \<lparr>mj_id = length (m_jobs s), mj_trigger = t, mj_status = Queued, mj_key = Some ?key,
      mj_attempts = 0, mj_started = None, mj_completed = None, mj_error = [],
      mj_nodes = map fst (mc_counts c), mj_report = session_report c t now s\<rparr>"
    let ?f = "\<lambda>x. x\<lparr>mc_enqueued := max (mc_enqueued x) (mc_activity c)\<rparr>"
    define s' where "s' = set_cursor k ?f (s\<lparr>m_jobs := m_jobs s @ [j]\<rparr>)"
    have e: "fst (enqueue_session_job c t now False s) = s'"
      using None k by (simp add: enqueue_session_job_def enqueue_job_def Let_def j_def s'_def)
    have rep: "rp_kind (mj_report j) = Session_activity" "rp_session (mj_report j) = k"
      by (simp_all add: j_def session_report_def blank_report_def k)
    have s': "m_jobs s' = m_jobs s @ [j]" "m_activities s' = m_activities s"
      "m_cursors s' = row_mod mc_session k ?f (m_cursors s)" by (simp_all add: s'_def)
    have mv: "view sid s' = view sid s \<or> session_move cf sid (view sid s) (view sid s')" if t: "tidy s"
    proof (cases "k = sid")
      case False
      then have "row_get mc_session sid (m_cursors s') = row_get mc_session sid (m_cursors s)"
        unfolding s' by (intro row_get_mod_other) auto
      with False rep s' show ?thesis
        by (simp add: view_def mail_of_def session_jobs_def of_session_def)
    next
      case True
      have cs: "row_get mc_session sid (m_cursors s') = Some (?f c)"
        using c True by (simp add: s' row_get_mod_same)
      have "mj_id ` set (m_jobs s) = {0..<length (m_jobs s)}"
        using t unfolding tidy_def by (metis atLeastLessThan_upt set_map)
      then have "mj_id j \<notin> mj_id ` set (session_jobs sid s)" by (auto simp: session_jobs_def j_def)
      moreover have "reported c (mail_of sid s) j"
        using k True by (auto simp: reported_def j_def session_report_def mail_of_def version_defs
            blank_report_def conj_commute conj_left_commute intro!: arg_cong [of _ _ "map ma_message"] filter_cong)
      ultimately have "session_move cf sid (Some c, mail_of sid s, session_jobs sid s)
          (Some (c\<lparr>mc_enqueued := max (mc_enqueued c) (mc_activity c)\<rparr>), mail_of sid s,
           session_jobs sid s @ [j])"
        by (intro session_move.enqueue w) (simp_all add: open_job_def j_def)
      with c True cs s' rep show ?thesis
        by (simp add: view_def mail_of_def session_jobs_def of_session_def)
    qed
    have "tidy s'" if "tidy s"
    proof -
      have "map mc_session (m_cursors s') = map mc_session (m_cursors s)"
        unfolding s' by (rule row_mod_keys) simp
      with that s' show ?thesis by (simp add: tidy_def j_def)
    qed
    with mv e show ?thesis by (auto simp: simulated_def)
  qed
qed

lemma sim_admit: "distinct ns \<Longrightarrow> simulated cf sid s (admit_message cf m k ns now s)"
proof -
  assume d: "distinct ns"
  let ?s = "ensure_cursor k now s"
  define c where "c = opened_cursor k now (row_get mc_session k (m_cursors s))"
  have kc: "mc_session c = k"
    by (auto simp: c_def opened_cursor_def new_cursor_def split: option.splits dest: row_get_key)
  have e: "row_get mc_session k (m_cursors ?s) = Some c" "m_jobs ?s = m_jobs s" "m_activities ?s = m_activities s"
    by (auto simp: c_def opened_cursor_def ensure_cursor_def new_cursor_def row_get_append split: option.splits)
  have eo: "i \<noteq> k \<Longrightarrow> row_get mc_session i (m_cursors ?s) = row_get mc_session i (m_cursors s)" for i
    by (auto simp: ensure_cursor_def row_get_append split: option.splits)
  have ed: "distinct (map mc_session (m_cursors s)) \<Longrightarrow> distinct (map mc_session (m_cursors ?s))"
    by (auto simp: ensure_cursor_def row_get_None_iff split: option.splits)
  let ?f = "touch_cursor cf m ns now"
  have fs: "mc_session (?f x) = mc_session x" for x by (simp add: touch_cursor_def Let_def)
  let ?s' = "admit_message cf m k ns now s"
  have cur: "m_cursors ?s' = row_mod mc_session k ?f (m_cursors ?s)" by (simp add: admit_message_def Let_def)
  have get: "row_get mc_session k (m_cursors ?s') = Some (?f c)"
    unfolding cur using e(1) by (subst row_get_mod_same) (simp_all add: fs)
  let ?a = "\<lparr>ma_message = m, ma_session = k, ma_version = mc_activity (?f c), ma_nodes = ns, ma_at = now\<rparr>"
  have acts: "m_activities ?s' = m_activities s @ [?a]" "m_jobs ?s' = m_jobs s"
    using get cur e by (simp_all add: admit_message_def Let_def)
  have mv: "view sid ?s' = view sid s \<or> session_move cf sid (view sid s) (view sid ?s')"
  proof (cases "k = sid")
    case False
    then have "row_get mc_session sid (m_cursors ?s') = row_get mc_session sid (m_cursors s)"
      unfolding cur using eo [of sid] by (simp add: row_get_mod_other fs)
    with False acts show ?thesis by (simp add: view_def mail_of_def session_jobs_def)
  next
    case True
    have "session_move cf sid (row_get mc_session sid (m_cursors s), mail_of sid s, session_jobs sid s)
        (Some (?f c), mail_of sid s @ [?a], session_jobs sid s)"
      by (rule session_move.arrive [OF d, of _ cf m now]) (simp_all add: c_def True)
    with True get acts show ?thesis by (simp add: view_def mail_of_def session_jobs_def)
  qed
  have "map mc_session (m_cursors ?s') = map mc_session (m_cursors ?s)"
    unfolding cur by (rule row_mod_keys) (rule fs)
  with ed acts have "tidy s \<Longrightarrow> tidy ?s'" by (simp add: tidy_def)
  with mv show ?thesis by (auto simp: simulated_def)
qed

lemma sim_if_tidy: "(tidy s \<Longrightarrow> simulated cf sid s s') \<Longrightarrow> simulated cf sid s s'"
  by (simp add: simulated_def)

lemma tidy_only:
  assumes "tidy s" and "row_get mj_id i (m_jobs s) = Some j" and "x \<in> set (m_jobs s)" "mj_id x = i"
  shows "x = j"
proof -
  have "distinct (map mj_id (m_jobs s))" using assms(1) by (simp add: tidy_def)
  from row_get_distinct [OF this assms(3)] assms(2,4) show ?thesis by (metis option.inject)
qed

lemma sim_start:
  assumes "row_get mj_id i (m_jobs s) = Some j" and "open_job j"
  shows "simulated cf sid s (start_job i now s)"
proof (rule sim_if_tidy)
  assume t: "tidy s"
  show ?thesis unfolding start_job_def
  proof (rule sim_set_job)
    fix x assume "x \<in> set (m_jobs s)" "mj_id x = i"
    then have "x = j" by (rule tidy_only [OF t assms(1)])
    with assms(2) show "same_job x (x\<lparr>mj_status := Running, mj_attempts := mj_attempts x + 1,
        mj_started := Some now, mj_error := []\<rparr>)" by (simp add: same_job_def brief_def)
  qed
qed

lemma sim_fail:
  assumes "row_get mj_id i (m_jobs s) = Some j" and "open_job j"
  shows "simulated cf sid s (fail_job cf i s)"
proof (rule sim_if_tidy)
  assume t: "tidy s"
  show ?thesis unfolding fail_job_def
  proof (rule sim_set_job)
    fix x assume "x \<in> set (m_jobs s)" "mj_id x = i"
    then have "x = j" by (rule tidy_only [OF t assms(1)])
    with assms(2) show "same_job x (let again = (mj_attempts x < max 1 (cf_attempts cf)) in
        x\<lparr>mj_status := (if again then Queued else Failed),
          mj_started := (if again then None else mj_started x),
          mj_error := ''scheduler execution failed''\<rparr>)" by (simp add: same_job_def brief_def Let_def)
  qed
qed

lemma sim_finish: "simulated cf sid s (end_execution cf i now fault s)"
  using sim_fail [of i s] sim_body [of i s]
  by (auto simp: end_execution_def open_job_def split: option.splits)

lemma sim_execute:
  assumes "execute_job cf i now fault s = Inr (s', st)"
  shows "simulated cf sid s s'"
proof -
  from assms obtain j where j: "row_get mj_id i (m_jobs s) = Some j"
    by (auto simp: execute_job_def split: option.splits)
  show ?thesis
  proof (cases "mj_status j \<in> {Completed, Failed}")
    case True
    with assms j have "s' = s" unfolding execute_job_def by simp
    then show ?thesis by simp
  next
    case False
    then have o: "open_job j" by (cases "mj_status j") (auto simp: open_job_def)
    let ?f = "\<lambda>j. j\<lparr>mj_status := Running, mj_attempts := mj_attempts j + 1, mj_started := Some now, mj_error := []\<rparr>"
    let ?s1 = "start_job i now s"
    have j1: "row_get mj_id i (m_jobs ?s1) = Some (?f j)"
      unfolding start_job_def set_simps using j by (subst row_get_mod_same) simp_all
    have o1: "open_job (?f j)" by (simp add: open_job_def)
    have "s' = (if fault then fail_job cf i ?s1 else job_body cf (?f j) now ?s1)"
      using assms j j1 False by (simp add: execute_job_def Let_def)
    with sim_fail [OF j1 o1] sim_body [OF j1 o1] have "simulated cf sid ?s1 s'" by simp
    with sim_start [OF j o] show ?thesis by (rule sim_trans)
  qed
qed

lemma sim_drain: "simulated cf sid s (fst (drain cf now fault ids (s, cs, fs)))"
proof (induction ids arbitrary: s cs fs)
  case Nil
  then show ?case by (simp add: drain_def)
next
  case (Cons i ids)
  show ?case
  proof (cases "execute_job cf i now (fault i) s")
    case (Inl e)
    with Cons.IH show ?thesis by (simp add: drain_def)
  next
    case (Inr x)
    obtain s' st where x: "x = (s', st)" by (cases x)
    from sim_trans [OF sim_execute [OF Inr [unfolded x]] Cons.IH] Inr x show ?thesis by (simp add: drain_def)
  qed
qed

lemma sim_recover: "simulated cf sid s (fst (recover_expired_jobs cf now s))"
  by (rule sim_jobs [where f = "\<lambda>j. if lease_expired cf now j then recover_job cf j else j"])
    (auto simp: recover_expired_jobs_def Let_def same_job_def brief_def recover_job_def lease_expired_def open_job_def)

lemma enqueue_other_cursor:
  assumes "k \<noteq> mc_session c"
  shows "row_get mc_session k (m_cursors (fst (enqueue_session_job c t now f s))) = row_get mc_session k (m_cursors s)"
proof -
  obtain s1 j b where e: "enqueue_job t (map fst (mc_counts c)) (session_report c t now s)
      (Some (Session_key (mc_session c) (mc_activity c))) s = (s1, j, b)" by (metis prod_cases3)
  then have "m_cursors s1 = m_cursors s" by (auto simp: enqueue_job_def Let_def split: option.splits)
  with assms show ?thesis by (simp add: enqueue_session_job_def e Let_def row_get_mod_other)
qed

definition ripe :: "mstate \<Rightarrow> string \<Rightarrow> bool" where
  "ripe s k \<longleftrightarrow> (\<exists>c :: mcursor. row_get mc_session k (m_cursors s) = Some c \<and> session_waiting c \<and> 0 < mc_pending c)"

lemma sim_enqueue_sessions:
  assumes "\<forall>k \<in> set ks. ripe s k" and "distinct ks"
  shows "simulated cf sid s (fst (enqueue_sessions t now ks s))"
proof -
  have "simulated cf sid s (fst (foldl (\<lambda>(s, made) sid.
     (case row_get mc_session sid (m_cursors s) of None \<Rightarrow> (s, made)
      | Some c \<Rightarrow> (case enqueue_session_job c t now False s of
          (s', i, created) \<Rightarrow> (s', if created then made @ [(i, sid)] else made)))) (s, made) ks))" for made
    using assms
  proof (induction ks arbitrary: s made)
    case (Cons k ks)
    then obtain c where c: "row_get mc_session k (m_cursors s) = Some c" "session_waiting c" "0 < mc_pending c"
      by (auto simp: ripe_def)
    obtain s' i b where e: "enqueue_session_job c t now False s = (s', i, b)" by (metis prod_cases3)
    have s': "simulated cf sid s s'" using sim_enqueue_session [OF c] e by (metis fst_conv)
    have "row_get mc_session x (m_cursors s') = row_get mc_session x (m_cursors s)" if "x \<in> set ks" for x
    proof -
      have "x \<noteq> mc_session c" using that Cons.prems(2) row_get_key [OF c(1)] by auto
      from enqueue_other_cursor [OF this, of t now False s] e show ?thesis by simp
    qed
    then have "\<forall>x \<in> set ks. ripe s' x" using Cons.prems(1) by (auto simp: ripe_def)
    from sim_trans [OF s' Cons.IH [OF this]] Cons.prems(2) c e show ?case by simp
  qed simp
  then show ?thesis by (simp add: enqueue_sessions_def)
qed

lemma sim_enqueue_job:
  assumes "enqueue_job t ns r k s = (s', j, b)" and "rp_kind r \<noteq> Session_activity"
  shows "simulated cf sid s s'"
proof (cases "if k = None then None else row_get mj_key k (m_jobs s)")
  case (Some q)
  with assms(1) show ?thesis by (simp add: enqueue_job_def)
next
  case None
  with assms show ?thesis by (intro sim_add_job [where j = j]) (auto simp: enqueue_job_def Let_def)
qed

lemma sim_enqueue_due: "simulated cf sid s (fst (enqueue_due cf now s))"
proof (cases "due_nodes now s = []")
  case False
  let ?snap = "due_snapshot (due_nodes now s) s"
  obtain s' j b where e: "enqueue_job ''periodic'' (map mn_id (due_nodes now s))
      ((blank_report Due_schedule now)\<lparr>rp_snapshot := ?snap\<rparr>)
      (Some (Periodic_key (cf_digest cf (sort_key fst ?snap)))) s = (s', j, b)" by (metis prod_cases3)
  have "simulated cf sid s s'" by (rule sim_enqueue_job [OF e]) (simp add: blank_report_def)
  with False e show ?thesis by (simp add: enqueue_due_def Let_def)
qed (simp add: enqueue_due_def)

lemma ripe_rows:
  assumes "tidy s" and "\<And>c. P c \<Longrightarrow> session_waiting c \<and> 0 < mc_pending c"
  shows "(\<forall>k \<in> set (map mc_session (filter P (m_cursors s))). ripe s k) \<and>
    distinct (map mc_session (filter P (m_cursors s)))"
proof -
  have d: "distinct (map mc_session (m_cursors s))" using assms(1) by (simp add: tidy_def)
  have "ripe s (mc_session c)" if "c \<in> set (m_cursors s)" "P c" for c
    using row_get_distinct [OF d that(1)] assms(2) [OF that(2)] by (auto simp: ripe_def)
  with d show ?thesis by (auto simp: distinct_map_filter)
qed

lemma sim_tick: "simulated cf sid s (fst (scheduler_tick cf now execute fault s))"
proof -
  obtain s1 rec exh where r: "recover_expired_jobs cf now s = (s1, rec, exh)" by (metis prod_cases3)
  define full where "full = map mc_session (filter (\<lambda>c. max 1 (cf_threshold cf) \<le> mc_pending c \<and>
    session_waiting c) (m_cursors s1))"
  obtain s2 bt where t: "enqueue_sessions ''message_threshold'' now full s1 = (s2, bt)" by (metis surj_pair)
  define rows where "rows = map mc_session (filter (\<lambda>c. 0 < mc_pending c \<and>
    (case mc_idle_due c of None \<Rightarrow> False | Some t \<Rightarrow> t \<le> now) \<and> session_waiting c) (m_cursors s2))"
  define idle where "idle = filter (\<lambda>sid. sid \<notin> snd ` set bt) rows"
  obtain s3 bi where i: "enqueue_sessions ''idle'' now idle s2 = (s3, bi)" by (metis surj_pair)
  obtain s4 per where d: "enqueue_due cf now s3 = (s4, per)" by (metis surj_pair)
  let ?q = "map mj_id (filter (\<lambda>j. mj_status j = Queued) (m_jobs s4))"
  have "simulated cf sid s s1" using sim_recover r by (metis fst_conv)
  moreover have "simulated cf sid s1 s2"
  proof (rule sim_if_tidy)
    assume "tidy s1"
    then have "(\<forall>k \<in> set full. ripe s1 k) \<and> distinct full" unfolding full_def by (rule ripe_rows) simp
    then show ?thesis using sim_enqueue_sessions t by (metis fst_conv)
  qed
  moreover have "simulated cf sid s2 s3"
  proof (rule sim_if_tidy)
    assume "tidy s2"
    then have "(\<forall>k \<in> set rows. ripe s2 k) \<and> distinct rows" unfolding rows_def by (rule ripe_rows) simp
    then have "(\<forall>k \<in> set idle. ripe s2 k) \<and> distinct idle" by (simp add: idle_def)
    then show ?thesis using sim_enqueue_sessions i by (metis fst_conv)
  qed
  moreover have "simulated cf sid s3 s4" using sim_enqueue_due d by (metis fst_conv)
  ultimately have base: "simulated cf sid s s4" by (blast intro: sim_trans)
  have "fst (scheduler_tick cf now execute fault s) =
      (if execute then fst (drain cf now fault ?q (s4, [], exh)) else s4)"
    unfolding scheduler_tick_def r Let_def prod.case full_def [symmetric] t rows_def [symmetric]
      idle_def [symmetric] i d
    by (cases execute) (simp_all add: case_prod_beta)
  with base sim_trans [OF base sim_drain] show ?thesis by simp
qed

lemma sim_review:
  assumes "run_review cf trigger ids now fault s = Inr (s', j)"
  shows "simulated cf sid s s'"
proof -
  define k where "k = (\<lambda>ns :: mnode list. case enqueue_job trigger (map mn_id ns)
      (blank_report Node_review now) None s of
       (s1, j, _) \<Rightarrow> bind_r (execute_job cf (mj_id j) now fault s1) (\<lambda>(s2, _).
           case row_get mj_id (mj_id j) (m_jobs s2) of
             None \<Rightarrow> Inl (App_error 404 ''not_found'') | Some j' \<Rightarrow> Inr (s2, j')))"
  from assms obtain ns where ns: "k ns = Inr (s', j)"
    unfolding run_review_def k_def [symmetric] by (simp only: bind_r_Inr) blast
  obtain s1 j1 b where e: "enqueue_job trigger (map mn_id ns) (blank_report Node_review now) None s = (s1, j1, b)"
    by (metis prod_cases3)
  have "simulated cf sid s s1" by (rule sim_enqueue_job [OF e]) (simp add: blank_report_def)
  moreover from ns [unfolded k_def] e obtain st where "execute_job cf (mj_id j1) now fault s1 = Inr (s', st)"
    by (auto simp: bind_r_Inr split: option.splits)
  ultimately show ?thesis using sim_execute sim_trans by blast
qed

lemma inquiries_cursors:
  "fold_r (inquire m sid clock) ns (s, aw) = Inr (s', aw') \<Longrightarrow> m_cursors s' = m_cursors s"
proof (induction ns arbitrary: s aw)
  case (Cons n ns)
  then obtain s1 aw1 where st: "inquire m sid clock n (s, aw) = Inr (s1, aw1)"
    "fold_r (inquire m sid clock) ns (s1, aw1) = Inr (s', aw')" by (auto simp: bind_r_Inr)
  from inquire_cases [OF st(1)] have "m_cursors s1 = m_cursors s" by (auto simp: inquiry_base_def)
  with Cons.IH [OF st(2)] show ?case by simp
qed simp

lemma sim_message:
  assumes "record_message cf m k ns now clock s = Inr (s', aw)"
  shows "simulated cf sid s s'"
proof (cases "row_get ma_message m (m_activities s) = None")
  case False
  with assms show ?thesis by (simp add: record_message_def Let_def)
next
  case True
  let ?s1 = "admit_message cf m k (fromkeys ns) now s"
  from True assms obtain s3 where
    r: "fold_r (inquire m k clock) (fromkeys ns) (?s1, []) = Inr (s3, aw)" "s' = threshold_job cf k now s3"
    by (auto simp: record_message_def Let_def bind_r_Inr)
  have "simulated cf sid s ?s1" by (rule sim_admit) simp
  moreover have "simulated cf sid ?s1 s3"
    using inquiries_cursors [OF r(1)] inquiries_activities [OF r(1)] inquiries_jobs [OF r(1)] by (rule sim_same)
  moreover have "simulated cf sid s3 s'"
  proof (cases "row_get mc_session k (m_cursors s3)")
    case None
    with r(2) show ?thesis by (simp add: threshold_job_def)
  next
    case (Some c)
    with sim_enqueue_session [OF Some] show ?thesis by (auto simp: r(2) threshold_job_def session_waiting_def)
  qed
  ultimately show ?thesis by (blast intro: sim_trans)
qed

lemma sim_step: "simulated cf sid s (sched_step cf s e)"
proof (cases e)
  case (Evidence eid att hint clock)
  then show ?thesis by (auto split: option.splits intro!: sim_same)
next
  case (Tick now execute fault)
  then show ?thesis by (simp add: sim_tick)
next
  case (Start i now)
  then show ?thesis
    using sim_start [of i s] by (auto simp: is_queued_def open_job_def split: option.splits)
next
  case (Finish i now fault)
  then show ?thesis by (simp add: sim_finish)
qed (auto simp: m_after_def split: sum.splits intro: sim_message sim_review)

lemma sim_run: "simulated cf sid s (foldl (sched_step cf) s es)"
  by (induction es arbitrary: s) (auto intro: sim_trans sim_step)

text \<open>What a run from a workspace without activity reaches.\<close>

definition quiet :: "mstate \<Rightarrow> bool" where
  "quiet s \<longleftrightarrow> m_cursors s = [] \<and> m_activities s = [] \<and> m_jobs s = []"

lemma quiet_run:
  assumes "quiet s"
  shows "tidy (foldl (sched_step cf) s es) \<and> mail_ok (view sid (foldl (sched_step cf) s es))"
proof -
  have "tidy s" "mail_ok (view sid s)"
    using assms by (simp_all add: quiet_def tidy_def view_def mail_of_def session_jobs_def)
  with sim_run [of cf sid s es] show ?thesis unfolding simulated_def by (blast intro: moves_mail)
qed

section \<open>The properties\<close>



section \<open>Concrete runs\<close>

text \<open>Two messages reach the threshold; the job's only attempt fails in the next tick.\<close>

definition stalled_run :: "sched_op list" where
  "stalled_run = [Message ''m1'' ''chat1'' [''n1''] 10 10, Message ''m2'' ''chat1'' [''n1''] 20 20,
     Tick 30 True (\<lambda>_. True)]"

definition later_run :: "sched_op list" where
  "later_run = [Message ''m3'' ''chat1'' [''n1''] 40 40, Message ''m4'' ''chat1'' [''n1''] 50 50,
     Tick 60 True (\<lambda>_. False), Tick 5000 True (\<lambda>_. False)]"

definition stalled :: mstate where
  "stalled = foldl (sched_step example_config) example_mastery stalled_run"

lemma example_quiet: "quiet example_mastery"
  by (simp add: quiet_def example_mastery_def)

lemma stalled_jobs: "map mj_status (session_jobs ''chat1'' stalled) = [Failed] \<and>
    job_states (session_jobs ''chat1'' stalled) = [(0, Failed)]"
  by code_simp


text \<open>A job started, a message while it runs, its completion: one message is left, and it is pending.\<close>

definition review_run :: "sched_op list" where
  "review_run = [Message ''m1'' ''chat1'' [''n1''] 10 10, Message ''m2'' ''chat1'' [''n1'', ''n2''] 20 20,
     Start 0 30, Message ''m3'' ''chat1'' [''n2''] 40 40, Finish 0 50 False]"

definition reviewed :: mstate where
  "reviewed = foldl (sched_step example_config) example_mastery review_run"

lemma reviewed_cursor: "map_option (\<lambda>c. (mc_processed c, mc_pending c, mc_counts c))
    (row_get mc_session ''chat1'' (m_cursors reviewed)) = Some (2, 1, [(''n2'', 1)])"
  by code_simp


section \<open>How a message is lost\<close>

text \<open>
  The accounting subtracts the number a job saw when it was enqueued, whatever has been reviewed
  since. A forced review of a session that has a queued job covers the messages of that job as well;
  when the older job runs afterwards it subtracts them a second time, from a message that arrived in
  between: \<open>m4\<close> is in no report, and nothing is pending.
\<close>

lemma overlapping_review_loses_message:
  "let s = foldl (m_step example_config) example_mastery
      [Sched (Message ''m1'' ''chat1'' [''n1''] 10 10), Sched (Message ''m2'' ''chat1'' [''n1''] 20 20),
       Sched (Message ''m3'' ''chat1'' [''n1''] 25 25), Session_review ''chat1'' ''session_end'' None 30 False,
       Sched (Message ''m4'' ''chat1'' [''n1''] 40 40), Sched (Tick 50 True (\<lambda>_. False))]
   in map (\<lambda>c. (mc_activity c, mc_processed c, mc_pending c, mc_idle_due c)) (m_cursors s) = [(4, 3, 0, None)] \<and>
     map mj_status (m_jobs s) = [Completed, Completed] \<and>
     map (\<lambda>j. rp_messages (mj_report j)) (m_jobs s) = [[''m1'', ''m2''], [''m1'', ''m2'', ''m3'']]"
  by code_simp

text \<open>
  The second transaction does not ask whether the job is still running either. A worker that stalls
  past its lease completes the job again after another one has, and subtracts its messages twice.
\<close>

definition twice_completed :: mstate where
  "twice_completed = (let s = foldl (sched_step example_config) example_mastery
      [Message ''m1'' ''chat1'' [''n1''] 10 10, Message ''m2'' ''chat1'' [''n1''] 20 20, Start 0 30,
       Finish 0 60 False, Message ''m3'' ''chat1'' [''n1''] 70 70]
    in job_body example_config (the (row_get mj_id 0 (m_jobs s))) 80 s)"

lemma second_completion_loses_message:
  "map (\<lambda>c. (mc_activity c, mc_processed c, mc_pending c)) (m_cursors twice_completed) = [(3, 2, 0)]"
  by code_simp

end
