(* ===== verification/Graph_Algorithms.thy ===== *)
theory Graph_Algorithms
  imports Prelude
begin

text \<open>
  The two graph searches of \<open>backend/app/services/graph_changes.py\<close>:
  \<open>_has_prerequisite_cycle\<close> (depth-first, with the sets \<open>visiting\<close> and \<open>visited\<close>) and
  \<open>_contains_depths\<close> (breadth-first layers under the root). The depth-first search is proved
  equivalent to the existence of a cycle; the breadth-first one terminates and only reaches what
  is reachable.

  The Python recursion depth is bounded by the number of vertices, which the model's fuel states;
  the equivalence shows that it never runs out.
\<close>

type_synonym arcs = "(string \<times> string) list"

section \<open>Cycles\<close>

text \<open>The adjacency dict and its keys.\<close>

definition successors :: "arcs \<Rightarrow> string \<Rightarrow> string list" where
  "successors es v = map snd (filter (\<lambda>e. fst e = v) es)"

definition vertices :: "arcs \<Rightarrow> string list" where
  "vertices es = fromkeys (concat (map (\<lambda>e. [fst e, snd e]) es))"

text \<open>
  \<open>dfs(node)\<close>: the answer and the set \<open>visited\<close> afterwards. \<open>visiting\<close> is restored by every call
  that answers False, so it is passed down only.
\<close>

fun dfs :: "nat \<Rightarrow> arcs \<Rightarrow> string \<Rightarrow> string list \<Rightarrow> string list \<Rightarrow> bool \<times> string list"
and dfs_any :: "nat \<Rightarrow> arcs \<Rightarrow> string list \<Rightarrow> string list \<Rightarrow> string list \<Rightarrow> bool \<times> string list" where
  "dfs 0 es v visiting visited = (False, visited)"
| "dfs (Suc n) es v visiting visited =
     (if v \<in> set visiting then (True, visited)
      else if v \<in> set visited then (False, visited)
      else (case dfs_any n es (successors es v) (v # visiting) visited of
          (True, vs) \<Rightarrow> (True, vs)
        | (False, vs) \<Rightarrow> (False, v # vs)))"
| "dfs_any n es [] visiting visited = (False, visited)"
| "dfs_any n es (v # vs) visiting visited =
     (case dfs n es v visiting visited of
        (True, ws) \<Rightarrow> (True, ws)
      | (False, ws) \<Rightarrow> dfs_any n es vs visiting ws)"

definition has_prerequisite_cycle :: "arcs \<Rightarrow> bool" where
  "has_prerequisite_cycle es =
     fst (dfs_any (Suc (length (vertices es))) es (vertices es) [] [])"

lemma in_successors: "w \<in> set (successors es v) \<longleftrightarrow> (v, w) \<in> set es"
  by (force simp: successors_def)

lemma set_vertices: "set (vertices es) = fst ` set es \<union> snd ` set es"
  by (force simp: vertices_def)

text \<open>A positive answer exhibits a cycle.\<close>

lemma dfs_sound:
  "fst (dfs n es v visiting visited) \<Longrightarrow> \<forall>u \<in> set visiting. (u, v) \<in> (set es)\<^sup>+ \<Longrightarrow>
     \<exists>x. (x, x) \<in> (set es)\<^sup>+"
  "fst (dfs_any n es vs visiting visited) \<Longrightarrow> \<forall>v \<in> set vs. \<forall>u \<in> set visiting. (u, v) \<in> (set es)\<^sup>+ \<Longrightarrow>
     \<exists>x. (x, x) \<in> (set es)\<^sup>+"
proof (induction n es v visiting visited and n es vs visiting visited rule: dfs_dfs_any.induct)
  case (2 n es v visiting visited)
  show ?case
  proof (cases "v \<in> set visiting")
    case True
    with 2(3) show ?thesis by auto
  next
    case False
    with 2(2) have nv: "v \<notin> set visited" by (auto split: if_splits)
    have "fst (dfs_any n es (successors es v) (v # visiting) visited)"
      using 2(2) False nv by (auto split: prod.splits bool.splits)
    moreover have "\<forall>w \<in> set (successors es v). \<forall>u \<in> set (v # visiting). (u, w) \<in> (set es)\<^sup>+"
      using 2(3) by (auto simp: in_successors intro: trancl_into_trancl)
    ultimately show ?thesis using 2(1) [OF False nv] by blast
  qed
next
  case (4 n es v vs visiting visited)
  obtain b ws where d: "dfs n es v visiting visited = (b, ws)" by (metis surj_pair)
  show ?case
  proof (cases b)
    case True
    with 4 d show ?thesis by simp
  next
    case False
    with 4(2)[OF d [symmetric]] 4(3,4) d show ?thesis by simp
  qed
qed simp_all

text \<open>A negative answer leaves a closed set of vertices without a cycle.\<close>

definition clean :: "arcs \<Rightarrow> string list \<Rightarrow> bool" where
  "clean es vs \<longleftrightarrow> (\<forall>x \<in> set vs. (x, x) \<notin> (set es)\<^sup>+ \<and> (\<forall>y. (x, y) \<in> set es \<longrightarrow> y \<in> set vs))"

lemma clean_closed: "(x, y) \<in> (set es)\<^sup>+ \<Longrightarrow> clean es vs \<Longrightarrow> x \<in> set vs \<Longrightarrow> y \<in> set vs"
  by (induction rule: trancl_induct) (auto simp: clean_def)

definition room :: "arcs \<Rightarrow> string list \<Rightarrow> nat" where
  "room es visiting = card (set (vertices es) - set visiting)"

lemma room_step:
  assumes "v \<in> set (vertices es)" and "v \<notin> set visiting"
  shows "room es (v # visiting) < room es visiting"
proof -
  have "set (vertices es) - set (v # visiting) \<subset> set (vertices es) - set visiting" using assms by auto
  then show ?thesis unfolding room_def by (rule psubset_card_mono [rotated]) simp
qed

lemma dfs_complete:
  "\<not> fst (dfs n es v visiting visited) \<Longrightarrow> v \<in> set (vertices es) \<Longrightarrow> room es visiting < n \<Longrightarrow>
     clean es visited \<Longrightarrow> set visiting \<inter> set visited = {} \<Longrightarrow>
     clean es (snd (dfs n es v visiting visited)) \<and> v \<in> set (snd (dfs n es v visiting visited)) \<and>
     set visited \<subseteq> set (snd (dfs n es v visiting visited)) \<and>
     set visiting \<inter> set (snd (dfs n es v visiting visited)) = {}"
  "\<not> fst (dfs_any n es vs visiting visited) \<Longrightarrow> set vs \<subseteq> set (vertices es) \<Longrightarrow> room es visiting < n \<Longrightarrow>
     clean es visited \<Longrightarrow> set visiting \<inter> set visited = {} \<Longrightarrow>
     clean es (snd (dfs_any n es vs visiting visited)) \<and>
     set vs \<subseteq> set (snd (dfs_any n es vs visiting visited)) \<and>
     set visited \<subseteq> set (snd (dfs_any n es vs visiting visited)) \<and>
     set visiting \<inter> set (snd (dfs_any n es vs visiting visited)) = {}"
proof (induction n es v visiting visited and n es vs visiting visited rule: dfs_dfs_any.induct)
  case (2 n es v visiting visited)
  then have nv: "v \<notin> set visiting" by auto
  show ?case
  proof (cases "v \<in> set visited")
    case True
    with nv 2 show ?thesis by simp
  next
    case False
    obtain b ws where d: "dfs_any n es (successors es v) (v # visiting) visited = (b, ws)" by (metis surj_pair)
    with 2(2) nv False have b: "\<not> b" by (auto split: bool.splits)
    have "set (successors es v) \<subseteq> set (vertices es)" by (force simp: in_successors set_vertices)
    moreover have "room es (v # visiting) < n" using room_step [OF 2(3) nv] 2(4) by simp
    moreover have "set (v # visiting) \<inter> set visited = {}" using 2(6) False by auto
    ultimately have ih: "clean es ws" "set (successors es v) \<subseteq> set ws" "set visited \<subseteq> set ws"
      "v \<notin> set ws" "set visiting \<inter> set ws = {}"
      using 2(1) [OF nv False] 2(5) d b by auto
    have "(v, v) \<notin> (set es)\<^sup>+"
    proof
      assume "(v, v) \<in> (set es)\<^sup>+"
      then obtain w where w: "(v, w) \<in> set es" "(w, v) \<in> (set es)\<^sup>*" by (meson tranclD)
      then have "w \<in> set ws" using ih(2) by (auto simp: in_successors)
      with w(2) ih(1) have "v \<in> set ws" by (auto simp: rtrancl_eq_or_trancl dest: clean_closed)
      with ih(4) show False by simp
    qed
    then have "clean es (v # ws)" using ih(1,2) by (auto simp: clean_def in_successors)
    with nv False d b ih show ?thesis by auto
  qed
next
  case (4 n es v vs visiting visited)
  obtain b ws where d: "dfs n es v visiting visited = (b, ws)" by (metis surj_pair)
  with 4(3) have b: "\<not> b" by (auto split: bool.splits)
  from 4(1) 4(4-7) d b have one: "clean es ws" "v \<in> set ws" "set visited \<subseteq> set ws" "set visiting \<inter> set ws = {}"
    by auto
  have "\<not> fst (dfs_any n es vs visiting ws)" using 4(3) d b by simp
  with 4(2) [OF d [symmetric]] b 4(4,5) one
  have "clean es (snd (dfs_any n es vs visiting ws)) \<and> set vs \<subseteq> set (snd (dfs_any n es vs visiting ws)) \<and>
     set ws \<subseteq> set (snd (dfs_any n es vs visiting ws)) \<and>
     set visiting \<inter> set (snd (dfs_any n es vs visiting ws)) = {}" by auto
  with d b one show ?case by auto
qed auto

lemma no_cycle_outside: "(x, x) \<in> (set es)\<^sup>+ \<Longrightarrow> x \<in> set (vertices es)"
  by (force simp: set_vertices dest: tranclD)

lemma cycle_iff: "has_prerequisite_cycle es \<longleftrightarrow> (\<exists>x. (x, x) \<in> (set es)\<^sup>+)"
proof
  assume "has_prerequisite_cycle es"
  then show "\<exists>x. (x, x) \<in> (set es)\<^sup>+"
    unfolding has_prerequisite_cycle_def by (rule dfs_sound(2)) simp
next
  assume "\<exists>x. (x, x) \<in> (set es)\<^sup>+"
  then obtain x where x: "(x, x) \<in> (set es)\<^sup>+" by blast
  show "has_prerequisite_cycle es"
  proof (rule ccontr)
    assume no: "\<not> has_prerequisite_cycle es"
    let ?r = "dfs_any (Suc (length (vertices es))) es (vertices es) [] []"
    have "room es [] < Suc (length (vertices es))" by (simp add: room_def card_length less_Suc_eq_le)
    with no have "clean es (snd ?r)" "set (vertices es) \<subseteq> set (snd ?r)"
      using dfs_complete(2) [of "Suc (length (vertices es))" es "vertices es" "[]" "[]"]
      by (auto simp: has_prerequisite_cycle_def clean_def)
    with no_cycle_outside [OF x] x show False by (auto simp: clean_def)
  qed
qed

text \<open>
  C36. The cycle check is exact: it answers True precisely when the edges contain a directed cycle,
  for every edge list, duplicates and self-loops included.
\<close>

theorem cycle_check_exact: "has_prerequisite_cycle es \<longleftrightarrow> (\<exists>x. (x, x) \<in> (set es)\<^sup>+)"
  by (rule cycle_iff)

section \<open>Layers\<close>

text \<open>
  \<open>_contains_depths\<close> with the edges restricted to the given nodes. A child is recorded, and queued,
  when it is new or when the new depth is smaller.
\<close>

definition inner_edges :: "string list \<Rightarrow> arcs \<Rightarrow> arcs" where
  "inner_edges node_ids es = filter (\<lambda>e. fst e \<in> set node_ids \<and> snd e \<in> set node_ids) es"

definition parents_of :: "arcs \<Rightarrow> string \<Rightarrow> string list" where
  "parents_of es v = map fst (filter (\<lambda>e. snd e = v) es)"

fun relax :: "nat \<Rightarrow> string list \<Rightarrow> (string, nat) dict \<times> string list \<Rightarrow> (string, nat) dict \<times> string list" where
  "relax d [] st = st"
| "relax d (c # cs) (depths, queue) =
     (case map_of depths c of
        None \<Rightarrow> relax d cs (AList.update c d depths, queue @ [c])
      | Some k \<Rightarrow> if d < k then relax d cs (AList.update c d depths, queue @ [c])
          else relax d cs (depths, queue))"

text \<open>For termination: the vertices not reached yet, then the sum of the recorded depths.\<close>

definition unreached :: "arcs \<Rightarrow> (string, nat) dict \<Rightarrow> nat" where
  "unreached es depths = card (set (vertices es) - fst ` set depths)"

definition depth_sum :: "(string, nat) dict \<Rightarrow> nat" where
  "depth_sum depths = sum_list (map snd depths)"

lemma fst_update [simp]: "fst ` set (AList.update k v d) = insert k (fst ` set d)"
  by (induction d) auto

lemma unreached_update:
  assumes "c \<in> set (vertices es)" and "map_of d c = None"
  shows "unreached es (AList.update c k d) < unreached es d"
proof -
  have "c \<notin> fst ` set d" using assms(2) by (simp add: map_of_eq_None_iff)
  with assms(1) have "set (vertices es) - fst ` set (AList.update c k d) \<subset> set (vertices es) - fst ` set d"
    by auto
  then show ?thesis unfolding unreached_def by (rule psubset_card_mono [rotated]) simp
qed

lemma depth_sum_update: "map_of d c = Some k \<Longrightarrow> j < k \<Longrightarrow> depth_sum (AList.update c j d) < depth_sum d"
  by (induction d) (auto simp: depth_sum_def split: if_splits)

lemma unreached_same: "map_of d c = Some k \<Longrightarrow> unreached es (AList.update c j d) = unreached es d"
proof -
  assume "map_of d c = Some k"
  then have "c \<in> fst ` set d" by (metis map_of_eq_None_iff option.distinct(1))
  then show ?thesis by (simp add: unreached_def insert_absorb)
qed

lemma relax_measure:
  assumes "set cs \<subseteq> set (vertices es)" and "relax d cs (depths, queue) = (depths', queue')"
  shows "unreached es depths' < unreached es depths \<or>
    unreached es depths' = unreached es depths \<and>
      (depth_sum depths' < depth_sum depths \<or> depths' = depths \<and> queue' = queue)"
  using assms
proof (induction d cs "(depths, queue)" arbitrary: depths queue rule: relax.induct)
  case (2 d c cs depths queue)
  show ?case
  proof (cases "map_of depths c")
    case None
    have "unreached es (AList.update c d depths) < unreached es depths"
      using unreached_update [OF _ None] 2(4) by simp
    moreover from 2(1) [OF None] 2(4,5) None have "unreached es depths' < unreached es (AList.update c d depths) \<or>
        unreached es depths' = unreached es (AList.update c d depths)" by auto
    ultimately show ?thesis by linarith
  next
    case (Some k)
    show ?thesis
    proof (cases "d < k")
      case True
      from 2(2) [OF Some True] 2(4,5) Some True
      have "unreached es depths' < unreached es (AList.update c d depths) \<or>
          unreached es depths' = unreached es (AList.update c d depths) \<and>
          (depth_sum depths' < depth_sum (AList.update c d depths) \<or> depths' = AList.update c d depths)" by auto
      with depth_sum_update [OF Some True] unreached_same [OF Some, of es d] show ?thesis by fastforce
    next
      case False
      with 2(3) [OF Some False] 2(4,5) Some show ?thesis by auto
    qed
  qed
qed simp

function layers :: "arcs \<Rightarrow> (string, nat) dict \<Rightarrow> string list \<Rightarrow> (string, nat) dict" where
  "layers es depths [] = depths"
| "layers es depths (c # queue) =
     (let st = relax (Suc (dict_get depths c 0)) (successors es c) (depths, queue)
      in layers es (fst st) (snd st))"
  by pat_completeness auto

termination layers
proof (relation "inv_image (less_than <*lex*> less_than <*lex*> less_than)
    (\<lambda>(es, depths, queue). (unreached es depths, depth_sum depths, length queue))")
  show "wf (inv_image (less_than <*lex*> less_than <*lex*> less_than)
    (\<lambda>(es, depths, queue :: string list). (unreached es depths, depth_sum depths, length queue)))"
    by auto
next
  fix es :: arcs and depths :: "(string, nat) dict" and c queue st
  assume st: "st = relax (Suc (dict_get depths c 0)) (successors es c) (depths, queue)"
  have sub: "set (successors es c) \<subseteq> set (vertices es)" by (force simp: in_successors set_vertices)
  have "relax (Suc (dict_get depths c 0)) (successors es c) (depths, queue) = (fst st, snd st)"
    by (simp add: st)
  from relax_measure [OF sub this]
  show "((es, fst st, snd st), (es, depths, c # queue)) \<in>
      inv_image (less_than <*lex*> less_than <*lex*> less_than)
        (\<lambda>(es, depths, queue). (unreached es depths, depth_sum depths, length queue))"
    by (cases st) auto
qed

definition contains_depths :: "string \<Rightarrow> string list \<Rightarrow> arcs \<Rightarrow> (string, nat) dict" where
  "contains_depths root node_ids es = layers (inner_edges node_ids es) [(root, 0)] [root]"

text \<open>What has a depth is reachable from the root, in exactly that many steps.\<close>

definition layered :: "arcs \<Rightarrow> string \<Rightarrow> (string, nat) dict \<Rightarrow> string list \<Rightarrow> bool" where
  "layered es root depths queue \<longleftrightarrow>
     (\<forall>v k. map_of depths v = Some k \<longrightarrow> (root, v) \<in> set es ^^ k) \<and>
     (\<forall>v \<in> set queue. map_of depths v \<noteq> None)"

lemma layered_put:
  assumes l: "layered es root depths queue" and c: "(root, c) \<in> set es ^^ d"
  shows "layered es root (AList.update c d depths) (queue @ [c])"
proof -
  have l1: "\<forall>v k. map_of depths v = Some k \<longrightarrow> (root, v) \<in> set es ^^ k"
    and l2: "\<forall>v \<in> set queue. map_of depths v \<noteq> None" using l by (simp_all add: layered_def)
  have "(root, v) \<in> set es ^^ k" if "map_of (AList.update c d depths) v = Some k" for v k
    using that l1 c by (cases "v = c") (simp_all add: update_conv')
  moreover have "map_of (AList.update c d depths) v \<noteq> None" if "v \<in> set (queue @ [c])" for v
    using that l2 by (cases "v = c") (simp_all add: update_conv')
  ultimately show ?thesis by (simp add: layered_def)
qed

lemma relax_layered:
  assumes "layered es root depths queue" and "\<forall>c \<in> set cs. (root, c) \<in> set es ^^ d"
    and "relax d cs (depths, queue) = (depths', queue')"
  shows "layered es root depths' queue'"
  using assms
proof (induction d cs "(depths, queue)" arbitrary: depths queue rule: relax.induct)
  case (2 d c cs depths queue)
  have put: "layered es root (AList.update c d depths) (queue @ [c])"
    using 2(4,5) by (intro layered_put) simp_all
  show ?case
  proof (cases "map_of depths c")
    case None
    with 2(1) [OF None put] 2(5,6) show ?thesis by simp
  next
    case (Some k)
    with 2(2) [OF Some _ put] 2(3) [OF Some _ 2(4)] 2(5,6) show ?thesis by (cases "d < k") simp_all
  qed
qed simp

lemma layers_layered:
  "layered es root depths queue \<Longrightarrow> map_of (layers es depths queue) v = Some k \<Longrightarrow>
     (root, v) \<in> set es ^^ k"
proof (induction es depths queue rule: layers.induct)
  case (1 es depths)
  then show ?case by (simp add: layered_def)
next
  case (2 es depths c queue)
  from 2(2) obtain j where j: "map_of depths c = Some j" by (auto simp: layered_def)
  with 2(2) have "(root, c) \<in> set es ^^ j" by (simp add: layered_def)
  then have "\<forall>w \<in> set (successors es c). (root, w) \<in> set es ^^ Suc (dict_get depths c 0)"
    using j by (auto simp: in_successors dict_get_def intro: relpow_Suc_I)
  note arcs = this
  have base: "layered es root depths queue" using 2(2) by (simp add: layered_def)
  obtain d' q' where st: "relax (Suc (dict_get depths c 0)) (successors es c) (depths, queue) = (d', q')"
    by (metis surj_pair)
  from relax_layered [OF base arcs st] have "layered es root d' q'" .
  with 2(1) [OF refl] 2(3) st show ?case by (simp add: Let_def)
qed

lemma contains_depths_reach:
  assumes "map_of (contains_depths root node_ids es) v = Some k"
  shows "(root, v) \<in> set (inner_edges node_ids es) ^^ k"
proof -
  have "layered (inner_edges node_ids es) root [(root, 0)] [root]"
    by (auto simp: layered_def split: if_splits)
  from layers_layered [OF this] assms show ?thesis by (simp only: contains_depths_def)
qed

end
