(* ===== verification/Graph_Changes.thy ===== *)
theory Graph_Changes
  imports Graph_Algorithms Pystr "HOL-Library.List_Lexorder" "HOL-Library.Char_ord"
begin

text \<open>
  Conversation graph proposals: \<open>backend/app/services/graph_changes.py\<close>, class
  \<open>GraphChangeSetService\<close>, with the proposal schema of
  \<open>backend/app/domain/schemas/graphs.py\<close>. A model proposes nodes and edges, the proposal is
  validated against the target graph, stored, and later confirmed, rejected or undone by a user.

  The tables are those of one workspace. Row ids are drawn from a counter; a graph node's id is
  \<open>uuid n\<close>, because proposals mix node ids and their own references in one name space. The
  production session does not flush before a query (\<open>autoflush=False\<close>): a query sees the rows as
  last flushed, which the model writes out where it matters (\<open>publish_created_graph\<close>, \<open>undo\<close>).
  Left out: the chat card mirrored from a change set, the cover image and the audit trail.
  Label comparison is ASCII case folding with white space collapsed.
\<close>

section \<open>Proposals\<close>

datatype change_kind = Add | Update

record node_change =
  nc_ref :: string
  nc_change :: change_kind
  nc_node_id :: "string option"
  nc_label :: string
  nc_description :: string
  nc_type :: string

record edge_change =
  ec_source :: string
  ec_target :: string
  ec_relation :: string

record proposal =
  pp_title :: string
  pp_summary :: string
  pp_nodes :: "node_change list"
  pp_edges :: "edge_change list"

definition node_types :: "string list" where
  "node_types = [''root'', ''concept'', ''practice'', ''assessment'']"

definition edge_relations :: "string list" where
  "edge_relations = [''contains'', ''prerequisite'', ''related'', ''contrast'', ''application'']"

definition bounded :: "nat \<Rightarrow> nat \<Rightarrow> 'a list \<Rightarrow> bool" where
  "bounded lo hi s \<longleftrightarrow> lo \<le> length s \<and> length s \<le> hi"

text \<open>The pydantic model: field bounds and the three validators.\<close>

definition ref_char :: "char \<Rightarrow> bool" where
  "ref_char c \<longleftrightarrow> is_alnum c \<or> c \<in> {CHR ''_'', CHR ''.'', CHR '':'', CHR ''-''}"

definition node_change_ok :: "node_change \<Rightarrow> bool" where
  "node_change_ok n \<longleftrightarrow> bounded 1 80 (nc_ref n) \<and> is_alnum (hd (nc_ref n)) \<and> list_all ref_char (nc_ref n) \<and>
     (case nc_node_id n of None \<Rightarrow> True | Some i \<Rightarrow> bounded 1 36 i) \<and>
     bounded 1 200 (nc_label n) \<and> bounded 1 2000 (nc_description n) \<and> nc_type n \<in> set node_types \<and>
     (nc_change n = Add \<longrightarrow> nc_node_id n = None) \<and> (nc_change n = Update \<longrightarrow> nc_node_id n \<noteq> None)"

definition edge_change_ok :: "edge_change \<Rightarrow> bool" where
  "edge_change_ok e \<longleftrightarrow> bounded 1 80 (ec_source e) \<and> bounded 1 80 (ec_target e) \<and>
     ec_relation e \<in> set edge_relations \<and> ec_source e \<noteq> ec_target e"

definition proposal_ok :: "proposal \<Rightarrow> bool" where
  "proposal_ok p \<longleftrightarrow> bounded 1 80 (pp_title p) \<and> bounded 1 2000 (pp_summary p) \<and>
     bounded 1 16 (pp_nodes p) \<and> length (pp_edges p) \<le> 32 \<and>
     list_all node_change_ok (pp_nodes p) \<and> list_all edge_change_ok (pp_edges p) \<and>
     distinct (map nc_ref (pp_nodes p))"

section \<open>State\<close>

record gnode =
  gn_id :: string
  gn_graph :: nat
  gn_label :: string
  gn_description :: string
  gn_type :: string

record gedge =
  ge_id :: nat
  ge_graph :: nat
  ge_source :: string
  ge_target :: string
  ge_relation :: string

record ggraph =
  gr_id :: nat
  gr_goal :: nat
  gr_title :: string
  gr_status :: string
  gr_revision :: int
  gr_published :: "instant option"

record node_snapshot =
  sn_id :: string
  sn_label :: string
  sn_description :: string
  sn_type :: string

record grevision =
  gv_graph :: nat
  gv_revision :: int
  gv_type :: string
  gv_resource :: nat
  gv_before_revision :: int
  gv_before_nodes :: "node_snapshot list"

datatype cs_status = Proposed | Confirmed | Rejected | Undone

record change_set =
  cs_id :: nat
  cs_session :: nat
  cs_goal :: nat
  cs_graph :: "nat option"
  cs_mode :: string
  cs_status :: cs_status
  cs_base :: int
  cs_confirmed :: "int option"
  cs_proposal :: proposal
  cs_node_ids :: "(string \<times> string) list"
  cs_edge_ids :: "nat list"
  cs_reviewer :: "string option"
  cs_reviewed_at :: "instant option"
  cs_reason :: string

record gsession =
  se_id :: nat
  se_goal :: "nat option"
  se_graph :: "nat option"
  se_status :: string

record ggoal =
  gl_id :: nat
  gl_status :: string

record gstate =
  gs_graphs :: "ggraph list"
  gs_nodes :: "gnode list"
  gs_edges :: "gedge list"
  gs_revisions :: "grevision list"
  gs_changes :: "change_set list"
  gs_sessions :: "gsession list"
  gs_goals :: "ggoal list"
  gs_next :: nat

section \<open>Validation\<close>

text \<open>\<open>_normalize_label\<close>: \<open>" ".join(label.casefold().split())\<close>\<close>

fun words_of :: "string \<Rightarrow> string \<Rightarrow> string list" where
  "words_of acc [] = (if acc = [] then [] else [rev acc])"
| "words_of acc (c # cs) =
     (if is_space c then (if acc = [] then words_of [] cs else rev acc # words_of [] cs)
      else words_of (c # acc) cs)"

definition normalize_label_key :: "string \<Rightarrow> string" where
  "normalize_label_key l = join_with CHR '' '' (words_of [] (casefold l))"

abbreviation invalid :: "string \<Rightarrow> app_error" where
  "invalid why \<equiv> App_error 502 why"

definition arcs_of :: "string \<Rightarrow> edge_change list \<Rightarrow> arcs" where
  "arcs_of rel es = map (\<lambda>e. (ec_source e, ec_target e)) (filter (\<lambda>e. ec_relation e = rel) es)"

definition stored_arcs :: "string \<Rightarrow> gedge list \<Rightarrow> arcs" where
  "stored_arcs rel es = map (\<lambda>e. (ge_source e, ge_target e)) (filter (\<lambda>e. ge_relation e = rel) es)"

definition added_refs :: "proposal \<Rightarrow> string list" where
  "added_refs p = map nc_ref (filter (\<lambda>n. nc_change n = Add) (pp_nodes p))"

text \<open>The checks on one added node of an update: a single parent, already there, one layer above.\<close>

definition check_added ::
  "string list \<Rightarrow> (string, nat) dict \<Rightarrow> (string, nat) dict \<Rightarrow> arcs \<Rightarrow> string \<Rightarrow> unit result" where
  "check_added existing_ids existing_depths depths inner ref =
     (case parents_of inner ref of
        [parent] \<Rightarrow>
          require (parent \<in> set existing_ids) (invalid ''graph_proposal_hierarchy_invalid'')
          (case map_of existing_depths parent of
             None \<Rightarrow> Inl (invalid ''graph_proposal_hierarchy_invalid'')
           | Some d \<Rightarrow> require (map_of depths ref = Some (d + 1))
               (invalid ''graph_proposal_hierarchy_invalid'') (Inr ()))
      | _ \<Rightarrow> Inl (invalid ''graph_proposal_orphaned_nodes''))"

text \<open>
  \<open>_validate_contains_hierarchy\<close>. \<open>types\<close> is \<open>projected_node_types\<close>.
\<close>

definition validate_contains_hierarchy ::
  "proposal \<Rightarrow> bool \<Rightarrow> string list \<Rightarrow> gedge list \<Rightarrow> (string, string) dict \<Rightarrow> unit result" where
  "validate_contains_hierarchy p create existing_ids existing_edges types =
     (case map fst (filter (\<lambda>x. snd x = ''root'') types) of
        [root] \<Rightarrow>
          let proposed = arcs_of ''contains'' (pp_edges p);
              existing = stored_arcs ''contains'' existing_edges;
              projected = existing @ proposed;
              ids = map fst types in
          require (list_all (\<lambda>e. fst e \<in> set ids \<and> snd e \<in> set ids) proposed)
            (invalid ''graph_proposal_out_of_scope'')
          (require (list_all (\<lambda>e. fst e \<noteq> snd e) proposed) (invalid ''graph_proposal_hierarchy_invalid'')
          (require (\<not> has_prerequisite_cycle projected) (invalid ''graph_proposal_contains_cycle'')
          (let depths = contains_depths root ids projected;
               inner = inner_edges ids projected in
           require (parents_of inner root = []) (invalid ''graph_proposal_hierarchy_invalid'')
           (require (list_all (\<lambda>v. v = root \<or> length (remdups (parents_of inner v)) \<le> 1) ids)
             (invalid ''graph_proposal_hierarchy_invalid'')
           (require (list_all (\<lambda>v. v = root \<or> map_of depths v \<noteq> None) ids)
             (invalid ''graph_proposal_orphaned_nodes'')
           (require (list_all (\<lambda>v. v = root \<or> parents_of inner v \<noteq> []) ids)
             (invalid ''graph_proposal_orphaned_nodes'')
           (if create then
              require (1 \<in> snd ` set depths) (invalid ''graph_proposal_hierarchy_invalid'')
              (require (list_all (\<lambda>x. snd x \<le> 3) depths) (invalid ''graph_proposal_hierarchy_invalid'')
              (require (list_all (\<lambda>v. v = root \<or>
                   map_of depths v = map_option Suc (map_of depths (hd (parents_of inner v)))) ids)
                 (invalid ''graph_proposal_hierarchy_invalid'') (Inr ())))
            else if added_refs p = [] then Inr ()
            else
              require (root \<in> set existing_ids) (invalid ''graph_proposal_hierarchy_invalid'')
              (bind_r (map_r (check_added existing_ids (contains_depths root existing_ids existing)
                   depths inner) (sort (added_refs p))) (\<lambda>_. Inr ())))))))))
      | _ \<Rightarrow> Inl (invalid ''graph_proposal_invalid''))"

text \<open>One node of an update: the projected types and labels and the nodes updated so far.\<close>

type_synonym scan = "(string, string) dict \<times> (string, string) dict \<times> string list"

definition scan_update_node :: "string list \<Rightarrow> node_change \<Rightarrow> scan \<Rightarrow> scan result" where
  "scan_update_node existing_ids n = (\<lambda>(types, labels, updated).
     let key = normalize_label_key (nc_label n) in
     bind_r
       (case (nc_change n, nc_node_id n) of
          (Update, Some i) \<Rightarrow>
            require (i \<in> set existing_ids) (invalid ''graph_proposal_out_of_scope'')
            (require (i \<notin> set updated) (invalid ''graph_proposal_invalid'')
            (require (map_of labels key \<in> {None, Some i}) (invalid ''graph_proposal_duplicate_label'')
            (Inr (AList.update i (nc_type n) types,
                  AList.update key i (filter (\<lambda>x. snd x \<noteq> i) labels), i # updated))))
        | (Update, None) \<Rightarrow> Inl (invalid ''graph_proposal_out_of_scope'')
        | (Add, _) \<Rightarrow>
            require (nc_type n \<noteq> ''root'') (invalid ''graph_proposal_invalid'')
            (require (map_of labels key = None) (invalid ''graph_proposal_duplicate_label'')
            (Inr (AList.update (nc_ref n) (nc_type n) types,
                  AList.update key (nc_ref n) labels, updated))))
       (\<lambda>st. require (nc_ref n \<notin> set existing_ids) (invalid ''graph_proposal_invalid'') (Inr st)))"

fun scan_nodes :: "string list \<Rightarrow> node_change list \<Rightarrow> scan \<Rightarrow> scan result" where
  "scan_nodes ids [] st = Inr st"
| "scan_nodes ids (n # ns) st = bind_r (scan_update_node ids n st) (scan_nodes ids ns)"

fun check_edges ::
  "string list \<Rightarrow> (string \<times> string \<times> string) list \<Rightarrow> edge_change list \<Rightarrow> unit result" where
  "check_edges allowed seen [] = Inr ()"
| "check_edges allowed seen (e # es) =
     require (ec_source e \<in> set allowed \<and> ec_target e \<in> set allowed) (invalid ''graph_proposal_out_of_scope'')
     (require (ec_source e \<noteq> ec_target e) (invalid ''graph_proposal_self_loop'')
     (require ((ec_source e, ec_target e, ec_relation e) \<notin> set seen) (invalid ''graph_proposal_invalid'')
     (check_edges allowed ((ec_source e, ec_target e, ec_relation e) # seen) es)))"

text \<open>The checks both modes share after the projection.\<close>

definition validate_edges ::
  "proposal \<Rightarrow> bool \<Rightarrow> string list \<Rightarrow> gedge list \<Rightarrow> (string, string) dict \<Rightarrow> unit result" where
  "validate_edges p create existing_ids existing_edges types =
     (let refs = map nc_ref (pp_nodes p) in
      bind_r (check_edges (refs @ existing_ids) [] (pp_edges p)) (\<lambda>_.
      require (list_all (\<lambda>r. \<exists>e \<in> set (pp_edges p). ec_source e = r \<or> ec_target e = r) (added_refs p))
        (invalid ''graph_proposal_orphaned_nodes'')
      (require (\<not> has_prerequisite_cycle
           (stored_arcs ''prerequisite'' existing_edges @ arcs_of ''prerequisite'' (pp_edges p)))
         (invalid ''graph_proposal_prerequisite_cycle'')
      (validate_contains_hierarchy p create existing_ids existing_edges types))))"

definition graph_nodes :: "nat \<Rightarrow> gstate \<Rightarrow> gnode list" where
  "graph_nodes g s = filter (\<lambda>n. gn_graph n = g) (gs_nodes s)"

definition graph_edges :: "nat \<Rightarrow> gstate \<Rightarrow> gedge list" where
  "graph_edges g s = filter (\<lambda>e. ge_graph e = g) (gs_edges s)"

definition validate_proposal :: "proposal \<Rightarrow> string \<Rightarrow> nat option \<Rightarrow> gstate \<Rightarrow> unit result" where
  "validate_proposal p mode graph s =
     (if mode = ''create'' then
        require (graph = None) (App_error 409 ''graph_create_target_invalid'')
        (require (2 \<le> length (pp_nodes p)) (invalid ''graph_proposal_invalid'')
        (require (list_all (\<lambda>n. nc_change n = Add) (pp_nodes p)) (invalid ''graph_proposal_invalid'')
        (require (length (filter (\<lambda>n. nc_type n = ''root'') (pp_nodes p)) = 1) (invalid ''graph_proposal_invalid'')
        (require (distinct (map (\<lambda>n. normalize_label_key (nc_label n)) (pp_nodes p)))
           (invalid ''graph_proposal_duplicate_label'')
        (validate_edges p True [] [] (map (\<lambda>n. (nc_ref n, nc_type n)) (pp_nodes p)))))))
      else if mode = ''update'' then
        (case graph of
           None \<Rightarrow> Inl (App_error 409 ''graph_update_target_required'')
         | Some g \<Rightarrow>
             let ns = graph_nodes g s; ids = map gn_id ns;
                 labels = foldl (\<lambda>d n. AList.update (normalize_label_key (gn_label n)) (gn_id n) d) [] ns
             in bind_r (scan_nodes ids (pp_nodes p) (map (\<lambda>n. (gn_id n, gn_type n)) ns, labels, []))
                (\<lambda>(types, _, _).
                  require (length (filter (\<lambda>x. snd x = ''root'') types) = 1) (invalid ''graph_proposal_invalid'')
                  (validate_edges p False ids (graph_edges g s) types)))
      else Inl (App_error 422 ''graph_change_mode_invalid''))"

section \<open>Proposing\<close>

definition load_session :: "nat \<Rightarrow> gstate \<Rightarrow> gsession result" where
  "load_session sid s = (case row_get se_id sid (gs_sessions s) of
      None \<Rightarrow> Inl (App_error 404 ''not_found'') | Some x \<Rightarrow> Inr x)"

definition load_change_set :: "nat \<Rightarrow> nat \<Rightarrow> gstate \<Rightarrow> change_set result" where
  "load_change_set sid cid s =
     bind_r (load_session sid s) (\<lambda>_.
       case row_get cs_id cid (gs_changes s) of
         None \<Rightarrow> Inl (App_error 404 ''not_found'')
       | Some c \<Rightarrow> require (cs_session c = sid) (App_error 404 ''graph_change_set_not_in_session'') (Inr c))"

definition ensure_can_propose :: "nat \<Rightarrow> gstate \<Rightarrow> unit result" where
  "ensure_can_propose sid s =
     bind_r (load_session sid s) (\<lambda>_.
       require (\<not> (\<exists>c \<in> set (gs_changes s). cs_session c = sid \<and> cs_status c = Proposed))
         (App_error 409 ''graph_change_pending_review'') (Inr ()))"

definition create_proposal ::
  "nat \<Rightarrow> nat \<Rightarrow> nat option \<Rightarrow> string \<Rightarrow> int \<Rightarrow> proposal \<Rightarrow> gstate \<Rightarrow> (gstate \<times> nat) result" where
  "create_proposal sid goal graph mode base p s =
     bind_r (validate_proposal p mode graph s) (\<lambda>_.
       Inr (s\<lparr>gs_changes := gs_changes s @ [\<lparr>cs_id = gs_next s, cs_session = sid, cs_goal = goal,
            cs_graph = graph, cs_mode = mode, cs_status = Proposed, cs_base = base, cs_confirmed = None,
            cs_proposal = p, cs_node_ids = [], cs_edge_ids = [], cs_reviewer = None,
            cs_reviewed_at = None, cs_reason = []\<rparr>], gs_next := Suc (gs_next s)\<rparr>, gs_next s))"

section \<open>Confirming\<close>

definition put_change :: "change_set \<Rightarrow> gstate \<Rightarrow> gstate" where
  "put_change c s = s\<lparr>gs_changes := row_mod cs_id (cs_id c) (\<lambda>_. c) (gs_changes s)\<rparr>"

definition snapshot_node :: "gnode \<Rightarrow> node_snapshot" where
  "snapshot_node n = \<lparr>sn_id = gn_id n, sn_label = gn_label n, sn_description = gn_description n,
     sn_type = gn_type n\<rparr>"

text \<open>One node change: the reference's node id and the snapshot taken before an update.\<close>

type_synonym materialized = "gstate \<times> (string \<times> string) list \<times> node_snapshot list"

definition apply_node ::
  "(nat \<Rightarrow> string) \<Rightarrow> nat \<Rightarrow> node_change \<Rightarrow> materialized \<Rightarrow> materialized result" where
  "apply_node uuid g n = (\<lambda>(s, refs, before).
     case nc_change n of
       Add \<Rightarrow>
         let i = uuid (gs_next s) in
         Inr (s\<lparr>gs_nodes := gs_nodes s @ [\<lparr>gn_id = i, gn_graph = g, gn_label = nc_label n,
                gn_description = nc_description n, gn_type = nc_type n\<rparr>], gs_next := Suc (gs_next s)\<rparr>,
              AList.update (nc_ref n) i refs, before)
     | Update \<Rightarrow>
         (case row_get gn_id (case nc_node_id n of None \<Rightarrow> [] | Some i \<Rightarrow> i) (graph_nodes g s) of
            None \<Rightarrow> Inl (App_error 409 ''graph_node_changed'')
          | Some old \<Rightarrow>
              Inr (s\<lparr>gs_nodes := row_mod gn_id (gn_id old) (\<lambda>x. x\<lparr>gn_label := nc_label n,
                     gn_description := nc_description n, gn_type := nc_type n\<rparr>) (gs_nodes s)\<rparr>,
                   AList.update (nc_ref n) (gn_id old) refs, before @ [snapshot_node old])))"

fun apply_nodes ::
  "(nat \<Rightarrow> string) \<Rightarrow> nat \<Rightarrow> node_change list \<Rightarrow> materialized \<Rightarrow> materialized result" where
  "apply_nodes uuid g [] st = Inr st"
| "apply_nodes uuid g (n # ns) st = bind_r (apply_node uuid g n st) (apply_nodes uuid g ns)"

definition resolve_ref :: "(string \<times> string) list \<Rightarrow> string list \<Rightarrow> string \<Rightarrow> string result" where
  "resolve_ref refs existing r = (case map_of refs r of
      Some i \<Rightarrow> Inr i
    | None \<Rightarrow> require (r \<in> set existing) (App_error 409 ''graph_edge_target_changed'') (Inr r))"

definition edge_key :: "gedge \<Rightarrow> string \<times> string \<times> string" where
  "edge_key e = (ge_source e, ge_target e, ge_relation e)"

text \<open>Each edge once: a key the graph already has, or this proposal just made, is skipped.\<close>

fun apply_edges ::
  "nat \<Rightarrow> (string \<times> string) list \<Rightarrow> edge_change list \<Rightarrow> gstate \<times> nat list \<Rightarrow> (gstate \<times> nat list) result" where
  "apply_edges g refs [] st = Inr st"
| "apply_edges g refs (e # es) (s, made) =
     bind_r (resolve_ref refs (map gn_id (graph_nodes g s)) (ec_source e)) (\<lambda>a.
     bind_r (resolve_ref refs (map gn_id (graph_nodes g s)) (ec_target e)) (\<lambda>b.
       if (a, b, ec_relation e) \<in> edge_key ` set (graph_edges g s) then apply_edges g refs es (s, made)
       else apply_edges g refs es
         (s\<lparr>gs_edges := gs_edges s @ [\<lparr>ge_id = gs_next s, ge_graph = g, ge_source = a, ge_target = b,
              ge_relation = ec_relation e\<rparr>], gs_next := Suc (gs_next s)\<rparr>, made @ [gs_next s])))"

definition set_graph :: "nat \<Rightarrow> (ggraph \<Rightarrow> ggraph) \<Rightarrow> gstate \<Rightarrow> gstate" where
  "set_graph g f s = s\<lparr>gs_graphs := row_mod gr_id g f (gs_graphs s)\<rparr>"

definition set_goal :: "nat \<Rightarrow> (ggoal \<Rightarrow> ggoal) \<Rightarrow> gstate \<Rightarrow> gstate" where
  "set_goal i f s = s\<lparr>gs_goals := row_mod gl_id i f (gs_goals s)\<rparr>"

definition set_session :: "nat \<Rightarrow> (gsession \<Rightarrow> gsession) \<Rightarrow> gstate \<Rightarrow> gstate" where
  "set_session i f s = s\<lparr>gs_sessions := row_mod se_id i f (gs_sessions s)\<rparr>"

text \<open>
  \<open>_publish_created_graph\<close>. The sessions to bind are queried before the confirmation of this change
  set is flushed, from the rows \<open>flushed\<close>.
\<close>

definition publish_created_graph :: "nat \<Rightarrow> nat \<Rightarrow> change_set list \<Rightarrow> instant \<Rightarrow> gstate \<Rightarrow> gstate" where
  "publish_created_graph g goal flushed now s =
     (case row_get gr_id g (gs_graphs s) of
        None \<Rightarrow> s
      | Some gr \<Rightarrow>
          if gr_status gr \<noteq> ''candidate'' then s
          else
            let s1 = set_graph g (\<lambda>x. x\<lparr>gr_status := ''published'', gr_published := Some now\<rparr>) s;
                s2 = set_goal goal (\<lambda>x. x\<lparr>gl_status := ''approved''\<rparr>) s1;
                sids = map cs_session (filter (\<lambda>c. cs_graph c = Some g \<and> cs_status c = Confirmed) flushed)
            in s2\<lparr>gs_sessions := map (\<lambda>x. if se_id x \<in> set sids \<and> se_goal x = Some goal \<and>
                  se_graph x = None \<and> se_status x = ''active'' then x\<lparr>se_graph := Some g\<rparr> else x)
                (gs_sessions s2)\<rparr>)"

text \<open>The target graph of a confirmation, checked; None for a proposal that creates one.\<close>

definition confirm_target :: "change_set \<Rightarrow> ggoal \<Rightarrow> gstate \<Rightarrow> ggraph option result" where
  "confirm_target c goal s =
     (if cs_mode c = ''update'' then
        (case (case cs_graph c of None \<Rightarrow> None | Some g \<Rightarrow> row_get gr_id g (gs_graphs s)) of
           None \<Rightarrow> Inl (App_error 404 ''graph_not_found'')
         | Some gr \<Rightarrow>
             require (gr_goal gr = gl_id goal) (App_error 409 ''graph_goal_mismatch'')
             (require (gr_revision gr = cs_base c) (App_error 409 ''graph_revision_conflict'')
             (Inr (Some gr))))
      else
        require (gl_status goal \<in> {''confirmed'', ''candidate_ready'', ''approved''})
          (App_error 409 ''goal_not_confirmed_for_graph'') (Inr None))"

text \<open>The graph row the changes go to: a new candidate, or the target at its next revision.\<close>

definition open_graph :: "ggraph option \<Rightarrow> ggoal \<Rightarrow> proposal \<Rightarrow> gstate \<Rightarrow> gstate \<times> nat \<times> int \<times> int" where
  "open_graph target goal p s = (case target of
      None \<Rightarrow>
        let g = gs_next s;
            s1 = s\<lparr>gs_graphs := gs_graphs s @ [\<lparr>gr_id = g, gr_goal = gl_id goal, gr_title = pp_title p,
              gr_status = ''candidate'', gr_revision = 1, gr_published = None\<rparr>], gs_next := Suc g\<rparr>
        in (set_goal (gl_id goal) (\<lambda>x. if gl_status x = ''confirmed''
              then x\<lparr>gl_status := ''candidate_ready''\<rparr> else x) s1, g, 0, 1)
    | Some gr \<Rightarrow> (set_graph (gr_id gr) (\<lambda>x. x\<lparr>gr_revision := gr_revision x + 1\<rparr>) s,
        gr_id gr, gr_revision gr, gr_revision gr + 1))"

definition finish_confirm ::
  "change_set \<Rightarrow> ggoal \<Rightarrow> string \<Rightarrow> instant \<Rightarrow> nat \<Rightarrow> int \<Rightarrow> int \<Rightarrow> materialized \<Rightarrow> nat list
     \<Rightarrow> gstate \<times> change_set" where
  "finish_confirm c goal actor now g before tip m made =
     (case m of (s, refs, snaps) \<Rightarrow>
      let create = (cs_mode c = ''create'');
          s1 = s\<lparr>gs_revisions := gs_revisions s @ [\<lparr>gv_graph = g, gv_revision = tip,
            gv_type = (if create then ''conversation_graph_create'' else ''conversation_graph_update''),
            gv_resource = cs_id c, gv_before_revision = before, gv_before_nodes = snaps\<rparr>]\<rparr>;
          c' = c\<lparr>cs_graph := Some g, cs_status := Confirmed, cs_confirmed := Some tip,
            cs_reviewer := Some actor, cs_reviewed_at := Some now, cs_node_ids := refs,
            cs_edge_ids := made\<rparr>;
          published = (case row_get gr_id g (gs_graphs s1) of None \<Rightarrow> False
            | Some gr \<Rightarrow> gr_status gr = ''published'');
          s2 = (if create then publish_created_graph g (gl_id goal) (gs_changes s1) now s1
            else if published then set_session (cs_session c) (\<lambda>x. x\<lparr>se_graph := Some g\<rparr>) s1
            else s1);
          s3 = set_session (cs_session c) (\<lambda>x. if se_goal x = None then x\<lparr>se_goal := Some (gl_id goal)\<rparr> else x) s2
      in (put_change c' s3, c'))"

definition confirm ::
  "(nat \<Rightarrow> string) \<Rightarrow> nat \<Rightarrow> nat \<Rightarrow> string \<Rightarrow> instant \<Rightarrow> gstate \<Rightarrow> (gstate \<times> change_set) result" where
  "confirm uuid sid cid actor now s =
     bind_r (load_change_set sid cid s) (\<lambda>c.
       if cs_status c = Confirmed then Inr (s, c)
       else
       require (cs_status c \<noteq> Undone) (App_error 409 ''graph_change_set_undone'')
       (require (cs_status c \<noteq> Rejected) (App_error 409 ''graph_change_set_rejected'')
       (case row_get gl_id (cs_goal c) (gs_goals s) of
          None \<Rightarrow> Inl (App_error 404 ''goal_not_found'')
        | Some goal \<Rightarrow>
            let p = cs_proposal c in
            require (proposal_ok p) (Python_error ''ValidationError'')
            (bind_r (confirm_target c goal s) (\<lambda>target.
             bind_r (validate_proposal p (cs_mode c) (map_option gr_id target) s) (\<lambda>_.
             case open_graph target goal p s of (s1, g, before, tip) \<Rightarrow>
               bind_r (apply_nodes uuid g (pp_nodes p) (s1, [], [])) (\<lambda>(s2, refs, snaps).
               bind_r (apply_edges g refs (pp_edges p) (s2, [])) (\<lambda>(s3, made).
                 Inr (finish_confirm c goal actor now g before tip (s3, refs, snaps) made))))))) ))"

section \<open>Rejecting and undoing\<close>

definition reject ::
  "nat \<Rightarrow> nat \<Rightarrow> string \<Rightarrow> string \<Rightarrow> instant \<Rightarrow> gstate \<Rightarrow> (gstate \<times> change_set) result" where
  "reject sid cid reason actor now s =
     bind_r (load_change_set sid cid s) (\<lambda>c.
       if cs_status c = Rejected then Inr (s, c)
       else
       require (cs_status c \<noteq> Confirmed) (App_error 409 ''graph_change_set_confirmed'')
       (require (cs_status c \<noteq> Undone) (App_error 409 ''graph_change_set_undone'')
       (let c' = c\<lparr>cs_status := Rejected, cs_reviewer := Some actor, cs_reviewed_at := Some now,
              cs_reason := strip reason\<rparr>
        in Inr (put_change c' s, c'))))"

definition restore_node :: "nat \<Rightarrow> node_snapshot \<Rightarrow> gnode \<Rightarrow> gnode" where
  "restore_node g sn n = (if gn_graph n = g
     then n\<lparr>gn_label := (if sn_label sn = [] then gn_label n else sn_label sn),
            gn_description := sn_description sn,
            gn_type := (if sn_type sn = [] then gn_type n else sn_type sn)\<rparr>
     else n)"

text \<open>The nodes the proposal added: the ids of the references whose change is an addition.\<close>

definition created_node_ids :: "change_set \<Rightarrow> string list" where
  "created_node_ids c = map snd (filter (\<lambda>x. fst x \<in> set (added_refs (cs_proposal c))) (cs_node_ids c))"

text \<open>
  The three steps on nodes and edges: drop the created edges, restore the updated nodes, drop the
  created nodes with every edge at them.
\<close>

definition revert_content :: "nat \<Rightarrow> change_set \<Rightarrow> node_snapshot list \<Rightarrow> gstate \<Rightarrow> gstate" where
  "revert_content g c snaps s =
     (let created = created_node_ids c;
          edges = filter (\<lambda>e. \<not> (ge_graph e = g \<and> ge_id e \<in> set (cs_edge_ids c))) (gs_edges s);
          nodes = foldl (\<lambda>ns sn. row_mod gn_id (sn_id sn) (restore_node g sn) ns) (gs_nodes s) snaps
      in s\<lparr>gs_edges := filter (\<lambda>e. \<not> (ge_graph e = g \<and>
              (ge_source e \<in> set created \<or> ge_target e \<in> set created))) edges,
           gs_nodes := filter (\<lambda>n. \<not> (gn_graph n = g \<and> gn_id n \<in> set created)) nodes\<rparr>)"

text \<open>
  \<open>undo\<close>. Whether the graph is left without nodes is asked before the deletions are flushed, so the
  query still sees the nodes about to be deleted (\<open>graph_nodes g s\<close>, not \<open>graph_nodes g s1\<close>).
\<close>

definition undo ::
  "nat \<Rightarrow> nat \<Rightarrow> string \<Rightarrow> instant \<Rightarrow> gstate \<Rightarrow> (gstate \<times> change_set) result" where
  "undo sid cid actor now s =
     bind_r (load_change_set sid cid s) (\<lambda>c.
       if cs_status c = Undone then Inr (s, c)
       else
       require (cs_status c = Confirmed) (App_error 409 ''graph_change_set_not_confirmed'')
       (case (cs_graph c, cs_confirmed c) of
          (Some g, Some tip) \<Rightarrow>
            (case row_get gr_id g (gs_graphs s) of
               None \<Rightarrow> Inl (App_error 404 ''graph_not_found'')
             | Some gr \<Rightarrow>
                 require (gr_revision gr = tip) (App_error 409 ''graph_revision_conflict'')
                 (case find (\<lambda>v. gv_graph v = g \<and> gv_revision v = tip \<and> gv_resource v = cid) (gs_revisions s) of
                    None \<Rightarrow> Inl (App_error 409 ''graph_revision_missing'')
                  | Some v \<Rightarrow>
                      require (proposal_ok (cs_proposal c) \<or> cs_node_ids c = []) (Python_error ''ValidationError'')
                      (let s1 = revert_content g c (gv_before_nodes v) s;
                           reviewed = c\<lparr>cs_status := Undone, cs_confirmed := None,
                             cs_reviewer := Some actor, cs_reviewed_at := Some now\<rparr> in
                       if cs_mode c = ''create'' \<and> graph_nodes g s = [] then
                         let s2 = s1\<lparr>gs_edges := filter (\<lambda>e. ge_graph e \<noteq> g) (gs_edges s1),
                               gs_revisions := filter (\<lambda>x. \<not> (gv_graph x = g \<and> gv_resource x = cid)) (gs_revisions s1),
                               gs_graphs := row_del gr_id g (gs_graphs s1)\<rparr>;
                             s3 = set_session sid (\<lambda>x. if se_graph x = Some g then x\<lparr>se_graph := None\<rparr> else x) s2;
                             c' = reviewed\<lparr>cs_graph := None\<rparr>
                         in Inr (put_change c' s3, c')
                       else
                         let s2 = s1\<lparr>gs_revisions := gs_revisions s1 @ [\<lparr>gv_graph = g, gv_revision = gr_revision gr + 1,
                               gv_type = ''conversation_graph_undo'', gv_resource = cid,
                               gv_before_revision = gr_revision gr, gv_before_nodes = []\<rparr>]\<rparr>;
                             s3 = set_graph g (\<lambda>x. x\<lparr>gr_revision := gr_revision gr + 1\<rparr>) s2
                         in Inr (put_change reviewed s3, reviewed))))
        | _ \<Rightarrow> Inl (App_error 409 ''graph_change_set_missing_result'')))"

end
