(* ===== verification/Graph_Facts.thy ===== *)
theory Graph_Facts
  imports Graph_Changes
begin

text \<open>
  What a validated new graph looks like.
\<close>

section \<open>A validated new graph\<close>

lemma parents_iff: "u \<in> set (parents_of es v) \<longleftrightarrow> (u, v) \<in> set es"
  by (force simp: parents_of_def)

lemma inner_edges_all:
  "list_all (\<lambda>e. fst e \<in> set ids \<and> snd e \<in> set ids) es \<Longrightarrow> inner_edges ids es = es"
  by (simp add: inner_edges_def filter_id_conv list_all_iff)

lemma remdups_le_one:
  assumes "length (remdups xs) \<le> 1" and "a \<in> set xs" and "b \<in> set xs"
  shows "a = b"
proof -
  have "card (set xs) \<le> 1" using assms(1) by (simp add: length_remdups_card_conv)
  with assms(2,3) show ?thesis by (metis List.finite_set card_le_Suc0_iff_eq One_nat_def)
qed

lemma hierarchy_root:
  "validate_contains_hierarchy p create ids es types = Inr u \<Longrightarrow>
     \<exists>root. map fst (filter (\<lambda>x. snd x = ''root'') types) = [root]"
  by (auto simp: validate_contains_hierarchy_def split: list.splits)

lemma hierarchy_create:
  assumes "validate_contains_hierarchy p True [] [] types = Inr u"
    and "map fst (filter (\<lambda>x. snd x = ''root'') types) = [root]"
  defines "arcs \<equiv> arcs_of ''contains'' (pp_edges p)" and "ids \<equiv> map fst types"
  shows "\<not> has_prerequisite_cycle arcs \<and> inner_edges ids arcs = arcs \<and> parents_of arcs root = [] \<and>
    (\<forall>v \<in> set ids. v \<noteq> root \<longrightarrow> length (remdups (parents_of arcs v)) \<le> 1 \<and> parents_of arcs v \<noteq> [] \<and>
       map_of (contains_depths root ids arcs) v \<noteq> None) \<and>
    (\<forall>x \<in> set (contains_depths root ids arcs). snd x \<le> 3)"
proof -
  have ex: "stored_arcs ''contains'' [] @ arcs_of ''contains'' (pp_edges p) = arcs"
    by (simp add: stored_arcs_def arcs_def)
  have inner: "inner_edges ids arcs = arcs"
    using assms(1,2) unfolding validate_contains_hierarchy_def
    by (intro inner_edges_all) (simp add: Let_def ids_def arcs_def)
  from assms(1) show ?thesis
    unfolding validate_contains_hierarchy_def assms(2) list.case Let_def ex require_Inr
      ids_def [symmetric] inner if_True
    by (auto simp: list_all_iff)
qed

text \<open>
  C37. A validated new graph is a layered tree. There is exactly one root; the root has no parent;
  every other node has exactly one parent and is reached from the root by one to three containment
  steps; containment has no cycle, and neither have the prerequisites; and no two labels coincide.
\<close>

theorem validated_graph_is_layered_tree:
  assumes "validate_proposal p ''create'' graph s = Inr u" and "distinct (map nc_ref (pp_nodes p))"
  defines "arcs \<equiv> arcs_of ''contains'' (pp_edges p)"
  shows "\<exists>root. map nc_ref (filter (\<lambda>n. nc_type n = ''root'') (pp_nodes p)) = [root] \<and>
    (\<forall>x. (x, root) \<notin> set arcs) \<and>
    (\<forall>v \<in> nc_ref ` set (pp_nodes p). v \<noteq> root \<longrightarrow> (\<exists>!u. (u, v) \<in> set arcs) \<and>
       (\<exists>k \<in> {1, 2, 3}. (root, v) \<in> set arcs ^^ k)) \<and>
    (\<forall>x. (x, x) \<notin> (set arcs)\<^sup>+) \<and>
    (\<forall>x. (x, x) \<notin> (set (arcs_of ''prerequisite'' (pp_edges p)))\<^sup>+) \<and>
    distinct (map (\<lambda>n. normalize_label_key (nc_label n)) (pp_nodes p))"
proof -
  let ?types = "map (\<lambda>n. (nc_ref n, nc_type n)) (pp_nodes p)"
  from assms(1) have v: "validate_edges p True [] [] ?types = Inr u"
    and labels: "distinct (map (\<lambda>n. normalize_label_key (nc_label n)) (pp_nodes p))"
    by (simp_all add: validate_proposal_def)
  then have pre: "\<not> has_prerequisite_cycle (arcs_of ''prerequisite'' (pp_edges p))"
    and h: "validate_contains_hierarchy p True [] [] ?types = Inr u"
    by (auto simp: validate_edges_def Let_def bind_r_Inr stored_arcs_def)
  from hierarchy_root [OF h] obtain root where
    r: "map fst (filter (\<lambda>x. snd x = ''root'') ?types) = [root]" by (elim exE)
  have ids: "map fst ?types = map nc_ref (pp_nodes p)" by (induction "pp_nodes p") auto
  have roots: "map fst (filter (\<lambda>x. snd x = ''root'') ?types) =
      map nc_ref (filter (\<lambda>n. nc_type n = ''root'') (pp_nodes p))"
    by (induction "pp_nodes p") (auto simp: comp_def filter_map)
  note hc = hierarchy_create [OF h r, folded arcs_def, unfolded ids]
  let ?ids = "map nc_ref (pp_nodes p)"
  have node: "(\<exists>!u. (u, v) \<in> set arcs) \<and> (\<exists>k \<in> {1, 2, 3}. (root, v) \<in> set arcs ^^ k)"
    if v: "v \<in> set ?ids" "v \<noteq> root" for v
  proof -
    from hc v have le: "length (remdups (parents_of arcs v)) \<le> 1" and ne: "parents_of arcs v \<noteq> []"
      and d: "map_of (contains_depths root ?ids arcs) v \<noteq> None" by auto
    from ne obtain u where u: "u \<in> set (parents_of arcs v)" by (metis list.set_sel(1))
    have "\<exists>!u. (u, v) \<in> set arcs"
      using u remdups_le_one [OF le] unfolding parents_iff by (intro ex1I [of _ u]) auto
    moreover from d obtain k where k: "map_of (contains_depths root ?ids arcs) v = Some k" by blast
    then have k3: "k \<le> 3" using hc by (force dest: map_of_SomeD)
    from contains_depths_reach [OF k] hc have reach: "(root, v) \<in> set arcs ^^ k" by simp
    then have "k \<noteq> 0" using v(2) by (auto intro: ccontr)
    with k3 have "k \<in> {1, 2, 3}" by auto
    with reach have "\<exists>k \<in> {1, 2, 3}. (root, v) \<in> set arcs ^^ k" by blast
    ultimately show ?thesis by blast
  qed
  have nopar: "(x, root) \<notin> set arcs" for x
    using hc by (metis empty_iff empty_set parents_iff)
  have acyc: "(x, x) \<notin> (set arcs)\<^sup>+" "(x, x) \<notin> (set (arcs_of ''prerequisite'' (pp_edges p)))\<^sup>+" for x
    using hc pre by (auto simp: cycle_iff)
  show ?thesis
    using r [unfolded roots] nopar node acyc labels by (intro exI [of _ root]) auto
qed

definition tree_node :: "string \<Rightarrow> string \<Rightarrow> node_change" where
  "tree_node r t = \<lparr>nc_ref = r, nc_change = Add, nc_node_id = None, nc_label = r, nc_description = ''d'',
     nc_type = t\<rparr>"

definition tree_edge :: "string \<Rightarrow> string \<Rightarrow> edge_change" where
  "tree_edge a b = \<lparr>ec_source = a, ec_target = b, ec_relation = ''contains''\<rparr>"

text \<open>A root with a child and a grandchild, in an empty database.\<close>

definition tree_proposal :: proposal where
  "tree_proposal = \<lparr>pp_title = ''T'', pp_summary = ''s'',
     pp_nodes = [tree_node ''R'' ''root'', tree_node ''A'' ''concept'', tree_node ''B'' ''practice''],
     pp_edges = [tree_edge ''R'' ''A'', tree_edge ''A'' ''B'']\<rparr>"

definition empty_graphs :: gstate where
  "empty_graphs = \<lparr>gs_graphs = [], gs_nodes = [], gs_edges = [], gs_revisions = [], gs_changes = [],
     gs_sessions = [], gs_goals = [], gs_next = 0\<rparr>"

theorem validated_graph_is_layered_tree_witness:
  "\<exists>root. map nc_ref (filter (\<lambda>n. nc_type n = ''root'') (pp_nodes tree_proposal)) = [root] \<and>
     distinct (map (\<lambda>n. normalize_label_key (nc_label n)) (pp_nodes tree_proposal))"
proof -
  have "validate_proposal tree_proposal ''create'' None empty_graphs = Inr ()" by code_simp
  from validated_graph_is_layered_tree [OF this] show ?thesis by (fastforce simp: tree_proposal_def tree_node_def)
qed

end
