(* ===== verification/Graph_Undo.thy ===== *)
theory Graph_Undo
  imports Graph_Facts
begin

text \<open>
  Confirming a proposal and undoing it. \<open>graphs_ok\<close> is what the database keeps true of ids and
  references; under it the undo of a confirmed update gives back the nodes and edges as they were.
\<close>

section \<open>Updates and snapshots\<close>

text \<open>The ids the updates name, as the scan of a valid proposal collects them.\<close>

definition update_ids :: "node_change list \<Rightarrow> string list" where
  "update_ids ns = map (\<lambda>n. the (nc_node_id n)) (filter (\<lambda>n. nc_change n = Update) ns)"

lemma scan_one:
  "scan_update_node ids n (t, l, u) = Inr (t', l', u') \<Longrightarrow>
     nc_ref n \<notin> set ids \<and>
     (nc_change n = Add \<longrightarrow> u' = u) \<and>
     (nc_change n = Update \<longrightarrow> (\<exists>i. nc_node_id n = Some i \<and> i \<in> set ids \<and> i \<notin> set u \<and> u' = i # u))"
  by (cases "nc_change n"; cases "nc_node_id n") (auto simp: scan_update_node_def Let_def bind_r_Inr)

lemma scan_all:
  "scan_nodes ids ns (t, l, u) = Inr (t', l', u') \<Longrightarrow>
     distinct (update_ids ns) \<and> set (update_ids ns) \<inter> set u = {} \<and> set (update_ids ns) \<subseteq> set ids \<and>
     (\<forall>n \<in> set ns. nc_change n = Update \<longrightarrow> nc_node_id n \<noteq> None)"
proof (induction ns arbitrary: t l u)
  case Nil
  then show ?case by (simp add: update_ids_def)
next
  case (Cons n ns)
  then obtain t1 l1 u1 where one: "scan_update_node ids n (t, l, u) = Inr (t1, l1, u1)"
    and rest: "scan_nodes ids ns (t1, l1, u1) = Inr (t', l', u')"
    by (auto simp: bind_r_Inr)
  from Cons.IH [OF rest] scan_one [OF one] show ?case
    by (cases "nc_change n") (auto simp: update_ids_def)
qed

text \<open>Restoring a list of snapshots, node by node.\<close>

definition restored :: "nat \<Rightarrow> node_snapshot list \<Rightarrow> gnode \<Rightarrow> gnode" where
  "restored g snaps n = foldl (\<lambda>n sn. if gn_id n = sn_id sn then restore_node g sn n else n) n snaps"

lemma restore_id [simp]: "gn_id (restore_node g sn n) = gn_id n" "gn_graph (restore_node g sn n) = gn_graph n"
  by (simp_all add: restore_node_def)

lemma restored_map:
  "foldl (\<lambda>ns sn. row_mod gn_id (sn_id sn) (restore_node g sn) ns) ns snaps = map (restored g snaps) ns"
proof (induction snaps arbitrary: ns)
  case Nil
  then show ?case by (simp add: restored_def)
next
  case (Cons sn snaps)
  have "row_mod gn_id (sn_id sn) (restore_node g sn) ns =
      map (\<lambda>n. if gn_id n = sn_id sn then restore_node g sn n else n) ns"
    by (simp add: row_mod_def)
  with Cons.IH show ?case by (simp add: restored_def comp_def)
qed

lemma restored_other: "gn_id n \<notin> sn_id ` set snaps \<Longrightarrow> restored g snaps n = n"
  by (induction snaps arbitrary: n) (auto simp: restored_def)

lemma restored_one:
  assumes "distinct (map sn_id snaps)" and "sn \<in> set snaps" and "sn_id sn = gn_id n"
  shows "restored g snaps n = restore_node g sn n"
  using assms
proof (induction snaps arbitrary: n)
  case (Cons x snaps)
  show ?case
  proof (cases "x = sn")
    case True
    with Cons.prems have "gn_id (restore_node g sn n) \<notin> sn_id ` set snaps" by auto
    from restored_other [OF this, of g] True Cons.prems(3) show ?thesis by (simp add: restored_def)
  next
    case False
    with Cons.prems have sn: "sn \<in> set snaps" by auto
    with Cons.prems(1,3) have "sn_id x \<noteq> gn_id n" by (metis distinct.simps(2) imageI list.set_map list.simps(9))
    note this sn
    with Cons.IH [OF _ sn Cons.prems(3)] Cons.prems(1) \<open>sn_id x \<noteq> gn_id n\<close> show ?thesis
      by (simp add: restored_def)
  qed
qed simp

lemma restored_id [simp]: "gn_id (restored g snaps n) = gn_id n" "gn_graph (restored g snaps n) = gn_graph n"
  by (induction snaps arbitrary: n) (auto simp: restored_def)

lemma restore_snapshot:
  "gn_id b = gn_id a \<Longrightarrow> gn_graph b = gn_graph a \<Longrightarrow> gn_graph a = g \<Longrightarrow> gn_label a \<noteq> [] \<Longrightarrow> gn_type a \<noteq> [] \<Longrightarrow>
     restore_node g (snapshot_node a) b = a"
  by (cases a; cases b) (simp add: restore_node_def snapshot_node_def)

section \<open>Confirming an update\<close>

text \<open>
  What the primary keys and foreign keys give: node ids are unique, new ids (\<open>uuid\<close> of a counter that
  only grows) are not in use, as a node or at the end of an edge, edge ids are below the counter, no
  revision is ahead of its graph, and node columns are not empty.
\<close>

definition graphs_ok :: "(nat \<Rightarrow> string) \<Rightarrow> gstate \<Rightarrow> bool" where
  "graphs_ok uuid s \<longleftrightarrow> distinct (map gn_id (gs_nodes s)) \<and>
     (\<forall>n \<in> set (gs_nodes s). (\<forall>k \<ge> gs_next s. gn_id n \<noteq> uuid k) \<and> gn_label n \<noteq> [] \<and> gn_type n \<noteq> []) \<and>
     (\<forall>e \<in> set (gs_edges s). ge_id e < gs_next s \<and> (\<forall>k \<ge> gs_next s. ge_source e \<noteq> uuid k \<and> ge_target e \<noteq> uuid k)) \<and>
     (\<forall>v \<in> set (gs_revisions s). \<forall>gr \<in> set (gs_graphs s). gv_graph v = gr_id gr \<longrightarrow> gv_revision v \<le> gr_revision gr)"

text \<open>The new ids.\<close>

definition fresh_ids :: "(nat \<Rightarrow> string) \<Rightarrow> nat \<Rightarrow> string set" where
  "fresh_ids uuid k0 = uuid ` {k0..}"

text \<open>
  The state of the node loop over the old nodes \<open>ns\<close>: the old nodes in their places, those without a
  snapshot untouched; after them the new ones, each with its reference recorded.
\<close>

definition kept :: "node_snapshot list \<Rightarrow> gnode \<Rightarrow> gnode \<Rightarrow> bool" where
  "kept snaps a b \<longleftrightarrow> gn_id b = gn_id a \<and> gn_graph b = gn_graph a \<and>
     (gn_id a \<notin> sn_id ` set snaps \<longrightarrow> b = a)"

definition mat_ok ::
  "(nat \<Rightarrow> string) \<Rightarrow> nat \<Rightarrow> gnode list \<Rightarrow> nat \<Rightarrow> string set \<Rightarrow> materialized \<Rightarrow> bool" where
  "mat_ok uuid g ns k0 adds m \<longleftrightarrow> (case m of (s, refs, snaps) \<Rightarrow>
     k0 \<le> gs_next s \<and>
     (\<exists>upd made. gs_nodes s = upd @ made \<and>
        list_all2 (kept snaps) ns upd \<and>
        (\<forall>n \<in> set made. gn_graph n = g \<and> gn_id n \<in> fresh_ids uuid k0 \<and>
           (\<exists>r \<in> adds. (r, gn_id n) \<in> set refs))) \<and>
     (\<forall>x \<in> set refs. fst x \<in> adds \<longrightarrow> snd x \<in> fresh_ids uuid k0) \<and>
     distinct (map sn_id snaps) \<and>
     (\<forall>sn \<in> set snaps. \<exists>a \<in> set ns. gn_graph a = g \<and> sn = snapshot_node a))"

lemma set_update_absent: "k \<notin> fst ` set d \<Longrightarrow> set (AList.update k v d) = insert (k, v) (set d)"
  by (induction d) auto

lemma keys_update: "fst ` set (AList.update k v d) = insert k (fst ` set d)"
  by (induction d) auto

lemma mat_okI:
  assumes "k0 \<le> gs_next s" and "gs_nodes s = upd @ made" and "list_all2 (kept snaps) ns upd"
    and "\<forall>n \<in> set made. gn_graph n = g \<and> gn_id n \<in> fresh_ids uuid k0 \<and>
      (\<exists>r \<in> adds. (r, gn_id n) \<in> set refs)"
    and "\<forall>x \<in> set refs. fst x \<in> adds \<longrightarrow> snd x \<in> fresh_ids uuid k0"
    and "distinct (map sn_id snaps)"
    and "\<forall>sn \<in> set snaps. \<exists>a \<in> set ns. gn_graph a = g \<and> sn = snapshot_node a"
  shows "mat_ok uuid g ns k0 adds (s, refs, snaps)"
  unfolding mat_ok_def prod.case using assms by blast

lemma mat_add:
  assumes "mat_ok uuid g ns k0 adds (s, refs, snaps)" and "nc_change n = Add"
    and "nc_ref n \<in> adds" and "nc_ref n \<notin> fst ` set refs"
    and "apply_node uuid g n (s, refs, snaps) = Inr m"
  shows "mat_ok uuid g ns k0 adds m"
proof -
  let ?new = "\<lparr>gn_id = uuid (gs_next s), gn_graph = g, gn_label = nc_label n,
    gn_description = nc_description n, gn_type = nc_type n\<rparr>"
  from assms(2,5) have m: "m = (s\<lparr>gs_nodes := gs_nodes s @ [?new], gs_next := Suc (gs_next s)\<rparr>,
      AList.update (nc_ref n) (uuid (gs_next s)) refs, snaps)"
    by (simp add: apply_node_def Let_def)
  from assms(1) obtain upd made where u: "gs_nodes s = upd @ made" "list_all2 (kept snaps) ns upd"
    "\<forall>x \<in> set made. gn_graph x = g \<and> gn_id x \<in> fresh_ids uuid k0 \<and> (\<exists>r \<in> adds. (r, gn_id x) \<in> set refs)"
    and k: "k0 \<le> gs_next s"
    unfolding mat_ok_def by auto
  have fresh: "uuid (gs_next s) \<in> fresh_ids uuid k0" using k by (simp add: fresh_ids_def)
  show ?thesis
    unfolding m
  proof (rule mat_okI)
    show "gs_nodes (s\<lparr>gs_nodes := gs_nodes s @ [?new], gs_next := Suc (gs_next s)\<rparr>) = upd @ (made @ [?new])"
      by (simp add: u(1))
  qed (use assms(1,3) u k fresh in \<open>auto simp: mat_ok_def set_update_absent [OF assms(4)]\<close>)
qed

lemma row_get_old:
  assumes "row_get gn_id i (filter (\<lambda>n. gn_graph n = g) (upd @ made)) = Some old"
    and "list_all2 (kept snaps) ns upd" and "i \<notin> sn_id ` set snaps"
    and "i \<notin> gn_id ` set made"
  shows "old \<in> set ns \<and> gn_id old = i \<and> gn_graph old = g"
proof -
  from row_get_SomeD [OF assms(1)] assms(4) have "old \<in> set upd" "gn_id old = i" "gn_graph old = g" by auto
  with assms(2,3) show ?thesis unfolding list_all2_conv_all_nth kept_def in_set_conv_nth by metis
qed

lemma snapshot_id: "sn_id (snapshot_node n) = gn_id n"
  by (simp add: snapshot_node_def)

lemma mat_update:
  assumes "mat_ok uuid g ns k0 adds (s, refs, snaps)" and "nc_change n = Update"
    and "nc_ref n \<notin> adds" and "nc_ref n \<notin> fst ` set refs"
    and "nc_node_id n = Some i" and "i \<notin> sn_id ` set snaps" and "i \<notin> fresh_ids uuid k0"
    and "apply_node uuid g n (s, refs, snaps) = Inr m"
  shows "mat_ok uuid g ns k0 adds m \<and> sn_id ` set (snd (snd m)) = insert i (sn_id ` set snaps)"
proof -
  let ?f = "\<lambda>x. x\<lparr>gn_label := nc_label n, gn_description := nc_description n, gn_type := nc_type n\<rparr>"
  from assms(1) obtain upd made where u: "gs_nodes s = upd @ made" "list_all2 (kept snaps) ns upd"
    "\<forall>x \<in> set made. gn_graph x = g \<and> gn_id x \<in> fresh_ids uuid k0 \<and> (\<exists>r \<in> adds. (r, gn_id x) \<in> set refs)"
    unfolding mat_ok_def by auto
  from assms(2,5,8) obtain old where old: "row_get gn_id i (graph_nodes g s) = Some old"
    and m: "m = (s\<lparr>gs_nodes := row_mod gn_id (gn_id old) ?f (gs_nodes s)\<rparr>,
      AList.update (nc_ref n) (gn_id old) refs, snaps @ [snapshot_node old])"
    by (auto simp: apply_node_def split: option.splits)
  have nm: "i \<notin> gn_id ` set made" using u(3) assms(7) by auto
  from old have "row_get gn_id i (filter (\<lambda>n. gn_graph n = g) (upd @ made)) = Some old"
    by (simp add: graph_nodes_def u(1))
  from row_get_old [OF this u(2) assms(6) nm] have o: "old \<in> set ns" "gn_id old = i" "gn_graph old = g"
    by auto
  have made: "row_mod gn_id i ?f made = made" using nm by (rule row_mod_absent)
  have kept': "list_all2 (kept (snaps @ [snapshot_node old])) ns (row_mod gn_id i ?f upd)"
    using u(2) o(2) unfolding list_all2_conv_all_nth
    by (auto simp: row_mod_def kept_def snapshot_node_def)
  have refs: "\<forall>x \<in> set (AList.update (nc_ref n) (gn_id old) refs). fst x \<in> adds \<longrightarrow> snd x \<in> fresh_ids uuid k0"
    using assms(1,3) by (auto simp: mat_ok_def set_update_absent [OF assms(4)])
  have base: "distinct (map sn_id snaps)" "\<forall>sn \<in> set snaps. \<exists>a \<in> set ns. gn_graph a = g \<and> sn = snapshot_node a"
    using assms(1) unfolding mat_ok_def prod.case by simp_all
  have snaps: "distinct (map sn_id (snaps @ [snapshot_node old]))"
    "\<forall>sn \<in> set (snaps @ [snapshot_node old]). \<exists>a \<in> set ns. gn_graph a = g \<and> sn = snapshot_node a"
    using base assms(6) o by (auto simp: snapshot_id)
  have "mat_ok uuid g ns k0 adds m"
    unfolding m
  proof (rule mat_okI [OF _ _ kept' _ refs snaps])
    show "gs_nodes (s\<lparr>gs_nodes := row_mod gn_id (gn_id old) ?f (gs_nodes s)\<rparr>) = row_mod gn_id i ?f upd @ made"
      using made by (simp add: u(1) o(2) row_mod_def)
  qed (use assms(1) u(3) in \<open>auto simp: mat_ok_def set_update_absent [OF assms(4)]\<close>)
  then show ?thesis using o by (simp add: m snapshot_node_def)
qed

text \<open>What the loops leave alone.\<close>

lemma apply_node_frame:
  "apply_node uuid g n (s, refs, snaps) = Inr (s', refs', snaps') \<Longrightarrow>
     s' = s\<lparr>gs_nodes := gs_nodes s', gs_next := gs_next s'\<rparr> \<and> gs_next s \<le> gs_next s'"
  by (auto simp: apply_node_def Let_def split: change_kind.splits option.splits)

lemma apply_node_keys:
  "apply_node uuid g n (s, refs, snaps) = Inr (s', refs', snaps') \<Longrightarrow>
     fst ` set refs' = insert (nc_ref n) (fst ` set refs)"
  by (simp add: apply_node_def Let_def keys_update split: change_kind.splits option.splits)
    (metis keys_update)+

lemma apply_nodes_frame:
  "apply_nodes uuid g ns (s, refs, snaps) = Inr (s', refs', snaps') \<Longrightarrow>
     s' = s\<lparr>gs_nodes := gs_nodes s', gs_next := gs_next s'\<rparr> \<and> gs_next s \<le> gs_next s'"
proof (induction ns arbitrary: s refs snaps)
  case (Cons n ns)
  then obtain s1 refs1 snaps1 where one: "apply_node uuid g n (s, refs, snaps) = Inr (s1, refs1, snaps1)"
    and rest: "apply_nodes uuid g ns (s1, refs1, snaps1) = Inr (s', refs', snaps')"
    by (auto simp: bind_r_Inr)
  from Cons.IH [OF rest] apply_node_frame [OF one] show ?case by (cases s; cases s1; cases s') auto
qed simp

lemma apply_nodes_ok:
  assumes "apply_nodes uuid g changes (s, refs, snaps) = Inr m"
    and "mat_ok uuid g ns k0 adds (s, refs, snaps)"
    and "distinct (map nc_ref changes)" and "fst ` set refs \<inter> nc_ref ` set changes = {}"
    and "distinct (update_ids changes)" and "set (update_ids changes) \<inter> sn_id ` set snaps = {}"
    and "set (update_ids changes) \<inter> fresh_ids uuid k0 = {}"
    and "\<forall>n \<in> set changes. (nc_ref n \<in> adds \<longleftrightarrow> nc_change n = Add) \<and>
      (nc_change n = Update \<longrightarrow> nc_node_id n \<noteq> None)"
  shows "mat_ok uuid g ns k0 adds m"
  using assms
proof (induction changes arbitrary: s refs snaps)
  case (Cons n changes)
  from Cons.prems(1) obtain s1 refs1 snaps1 where
    one: "apply_node uuid g n (s, refs, snaps) = Inr (s1, refs1, snaps1)"
    and rest: "apply_nodes uuid g changes (s1, refs1, snaps1) = Inr m"
    by (auto simp: bind_r_Inr)
  have keys: "fst ` set refs1 = insert (nc_ref n) (fst ` set refs)" by (rule apply_node_keys [OF one])
  have new: "nc_ref n \<notin> fst ` set refs" using Cons.prems(4) by auto
  have "mat_ok uuid g ns k0 adds (s1, refs1, snaps1) \<and> set (update_ids changes) \<inter> sn_id ` set snaps1 = {}"
  proof (cases "nc_change n")
    case Add
    then have "snaps1 = snaps" "nc_ref n \<in> adds" "update_ids (n # changes) = update_ids changes"
      using one Cons.prems(8) by (auto simp: apply_node_def Let_def update_ids_def)
    with mat_add [OF Cons.prems(2) Add _ new one] Cons.prems(6) show ?thesis by simp
  next
    case Update
    then obtain i where i: "nc_node_id n = Some i" using Cons.prems(8) by auto
    with Update have ids: "update_ids (n # changes) = i # update_ids changes" by (simp add: update_ids_def)
    have "nc_ref n \<notin> adds" "i \<notin> sn_id ` set snaps" "i \<notin> fresh_ids uuid k0"
      using Cons.prems(6-8) Update by (auto simp: ids)
    from mat_update [OF Cons.prems(2) Update this(1) new i this(2,3) one] Cons.prems(5,6)
    show ?thesis by (auto simp: ids)
  qed
  with keys Cons.prems(3-5,7,8) show ?case
    by (intro Cons.IH [OF rest]) (auto simp: update_ids_def split: if_splits)
qed simp

lemma apply_edges_made:
  "apply_edges g refs es (s, made) = Inr (s', made') \<Longrightarrow>
     \<exists>new n'. s' = s\<lparr>gs_edges := gs_edges s @ new, gs_next := n'\<rparr> \<and> made' = made @ map ge_id new \<and>
       gs_next s \<le> n' \<and> (\<forall>e \<in> set new. ge_graph e = g \<and> gs_next s \<le> ge_id e)"
proof (induction es arbitrary: s made)
  case Nil
  then show ?case by (intro exI [of _ "[]"] exI [of _ "gs_next s"]) simp
next
  case (Cons e es)
  from Cons.prems obtain a b where ab:
    "(if (a, b, ec_relation e) \<in> edge_key ` set (graph_edges g s) then apply_edges g refs es (s, made)
       else apply_edges g refs es
         (s\<lparr>gs_edges := gs_edges s @ [\<lparr>ge_id = gs_next s, ge_graph = g, ge_source = a, ge_target = b,
              ge_relation = ec_relation e\<rparr>], gs_next := Suc (gs_next s)\<rparr>, made @ [gs_next s])) = Inr (s', made')"
    by (auto simp: bind_r_Inr)
  show ?case
  proof (cases "(a, b, ec_relation e) \<in> edge_key ` set (graph_edges g s)")
    case True
    with ab show ?thesis by (intro Cons.IH) simp
  next
    case False
    let ?e = "\<lparr>ge_id = gs_next s, ge_graph = g, ge_source = a, ge_target = b, ge_relation = ec_relation e\<rparr>"
    from False ab Cons.IH obtain new n' where
      "s' = s\<lparr>gs_edges := (gs_edges s @ [?e]) @ new, gs_next := n'\<rparr>"
      "made' = (made @ [gs_next s]) @ map ge_id new" "Suc (gs_next s) \<le> n'"
      "\<forall>e \<in> set new. ge_graph e = g \<and> Suc (gs_next s) \<le> ge_id e"
      by fastforce
    then show ?thesis by (intro exI [of _ "?e # new"] exI [of _ n']) auto
  qed
qed

lemma validated_updates:
  assumes "validate_proposal p ''update'' (Some g) s = Inr u"
  shows "distinct (update_ids (pp_nodes p)) \<and> set (update_ids (pp_nodes p)) \<subseteq> gn_id ` set (gs_nodes s) \<and>
    (\<forall>n \<in> set (pp_nodes p). nc_change n = Update \<longrightarrow> nc_node_id n \<noteq> None)"
proof -
  from assms obtain t l u' where "scan_nodes (map gn_id (graph_nodes g s)) (pp_nodes p)
      (map (\<lambda>n. (gn_id n, gn_type n)) (graph_nodes g s),
       foldl (\<lambda>d n. AList.update (normalize_label_key (gn_label n)) (gn_id n) d) [] (graph_nodes g s), [])
      = Inr (t, l, u')"
    by (auto simp: validate_proposal_def Let_def bind_r_Inr)
  from scan_all [OF this] show ?thesis by (auto simp: graph_nodes_def)
qed

text \<open>The successful path of \<open>confirm\<close> in update mode.\<close>

lemma confirm_update:
  assumes "load_change_set sid cid s = Inr c" and "cs_status c = Proposed" and "cs_mode c = ''update''"
    and "confirm uuid sid cid actor now s = Inr r"
  shows "\<exists>goal gr s2 refs snaps s3 made. cs_graph c = Some (gr_id gr) \<and>
    row_get gr_id (gr_id gr) (gs_graphs s) = Some gr \<and> gr_revision gr = cs_base c \<and>
    proposal_ok (cs_proposal c) \<and> validate_proposal (cs_proposal c) ''update'' (Some (gr_id gr)) s = Inr () \<and>
    apply_nodes uuid (gr_id gr) (pp_nodes (cs_proposal c))
      (set_graph (gr_id gr) (\<lambda>x. x\<lparr>gr_revision := gr_revision x + 1\<rparr>) s, [], []) = Inr (s2, refs, snaps) \<and>
    apply_edges (gr_id gr) refs (pp_edges (cs_proposal c)) (s2, []) = Inr (s3, made) \<and>
    finish_confirm c goal actor now (gr_id gr) (gr_revision gr) (gr_revision gr + 1) (s3, refs, snaps) made = r \<and>
    row_get gl_id (cs_goal c) (gs_goals s) = Some goal \<and> gr_goal gr = gl_id goal"
proof -
  from assms obtain goal target where "proposal_ok (cs_proposal c)"
    and goal: "row_get gl_id (cs_goal c) (gs_goals s) = Some goal" and t: "confirm_target c goal s = Inr target"
    and v: "validate_proposal (cs_proposal c) ''update'' (map_option gr_id target) s = Inr ()"
    and rest: "(case open_graph target goal (cs_proposal c) s of (s1, g, before, tip) \<Rightarrow>
        bind_r (apply_nodes uuid g (pp_nodes (cs_proposal c)) (s1, [], [])) (\<lambda>(s2, refs, snaps).
        bind_r (apply_edges g refs (pp_edges (cs_proposal c)) (s2, [])) (\<lambda>(s3, made).
          Inr (finish_confirm c goal actor now g before tip (s3, refs, snaps) made)))) = Inr r"
    by (auto simp: confirm_def bind_r_Inr Let_def split: option.splits)
  from t assms(3) obtain gr where gr: "target = Some gr" "gr_revision gr = cs_base c"
    and g: "cs_graph c = Some (gr_id gr)" "row_get gr_id (gr_id gr) (gs_graphs s) = Some gr"
      "gr_goal gr = gl_id goal"
    by (auto simp: confirm_target_def dest: row_get_key split: option.splits)
  from rest obtain s2 refs snaps s3 made where
    "apply_nodes uuid (gr_id gr) (pp_nodes (cs_proposal c))
      (set_graph (gr_id gr) (\<lambda>x. x\<lparr>gr_revision := gr_revision x + 1\<rparr>) s, [], []) = Inr (s2, refs, snaps)"
    "apply_edges (gr_id gr) refs (pp_edges (cs_proposal c)) (s2, []) = Inr (s3, made)"
    "r = finish_confirm c goal actor now (gr_id gr) (gr_revision gr) (gr_revision gr + 1) (s3, refs, snaps) made"
    by (auto simp: gr open_graph_def bind_r_Inr)
  with g goal gr(2) \<open>proposal_ok (cs_proposal c)\<close> v [unfolded gr(1) option.map] show ?thesis
    by (intro exI [of _ goal] exI [of _ gr] exI [of _ s2] exI [of _ refs] exI [of _ snaps] exI [of _ s3]
        exI [of _ made]) simp
qed

lemma finish_update:
  assumes "finish_confirm c goal actor now g before tip (s3, refs, snaps) made = (s1, c1)"
    and "cs_mode c = ''update''"
  shows "gs_nodes s1 = gs_nodes s3 \<and> gs_edges s1 = gs_edges s3 \<and> gs_graphs s1 = gs_graphs s3 \<and>
    gs_changes s1 = row_mod cs_id (cs_id c) (\<lambda>_. c1) (gs_changes s3) \<and>
    map se_id (gs_sessions s1) = map se_id (gs_sessions s3) \<and> gs_goals s1 = gs_goals s3 \<and>
    (\<exists>v. gs_revisions s1 = gs_revisions s3 @ [v] \<and> gv_graph v = g \<and> gv_revision v = tip \<and>
       gv_resource v = cs_id c \<and> gv_before_nodes v = snaps) \<and>
    c1 = c\<lparr>cs_graph := Some g, cs_status := Confirmed, cs_confirmed := Some tip, cs_reviewer := Some actor,
      cs_reviewed_at := Some now, cs_node_ids := refs, cs_edge_ids := made\<rparr>"
proof -
  have ids: "map se_id (gs_sessions (set_session i f s)) = map se_id (gs_sessions s)"
    if "\<And>x. se_id (f x) = se_id x" for i f s
    using that by (simp add: set_session_def row_mod_def comp_def if_distrib cong: if_cong)
  from assms(1) show ?thesis
    unfolding finish_confirm_def prod.case Let_def assms(2)
    by (auto simp: put_change_def set_session_def row_mod_keys split: option.splits if_splits)
qed

section \<open>Undoing it\<close>

lemma graphs_ok_fresh:
  assumes "graphs_ok uuid s" and "n \<in> set (gs_nodes s)"
  shows "gn_id n \<notin> fresh_ids uuid (gs_next s)"
  using assms by (auto simp: graphs_ok_def fresh_ids_def)

lemma graphs_ok_edge:
  assumes "graphs_ok uuid s" and "e \<in> set (gs_edges s)"
  shows "ge_id e < gs_next s" "ge_source e \<notin> fresh_ids uuid (gs_next s)"
    "ge_target e \<notin> fresh_ids uuid (gs_next s)"
  using assms by (auto simp: graphs_ok_def fresh_ids_def)

lemma restored_kept:
  assumes ok: "graphs_ok uuid s" and a: "a \<in> set (gs_nodes s)" and k: "kept snaps a b"
    and snaps: "distinct (map sn_id snaps)"
      "\<forall>sn \<in> set snaps. \<exists>a \<in> set (gs_nodes s). gn_graph a = g \<and> sn = snapshot_node a"
  shows "restored g snaps b = a"
proof (cases "gn_id a \<in> sn_id ` set snaps")
  case True
  then obtain sn x where sn: "sn \<in> set snaps" "sn_id sn = gn_id a"
    and x: "x \<in> set (gs_nodes s)" "gn_graph x = g" "sn = snapshot_node x"
    using snaps(2) by force
  have "x = a" using ok x sn(2) a by (auto simp: graphs_ok_def snapshot_id dest: inj_onD simp: distinct_map)
  moreover have "restored g snaps b = restore_node g sn b"
    using restored_one [OF snaps(1) sn(1)] sn(2) k by (simp add: kept_def)
  ultimately show ?thesis using ok a k x by (auto simp: graphs_ok_def kept_def intro: restore_snapshot)
next
  case False
  with k show ?thesis by (simp add: kept_def restored_other)
qed

lemma revert_exact:
  assumes ok: "graphs_ok uuid s"
    and m: "mat_ok uuid g (gs_nodes s) (gs_next s) (set (added_refs (cs_proposal c))) (s2, cs_node_ids c, snaps)"
    and t: "gs_nodes t = gs_nodes s2" "gs_edges t = gs_edges s @ new"
    and new: "cs_edge_ids c = map ge_id new" "\<forall>e \<in> set new. ge_graph e = g \<and> gs_next s \<le> ge_id e"
  shows "gs_nodes (revert_content g c snaps t) = gs_nodes s \<and> gs_edges (revert_content g c snaps t) = gs_edges s"
proof -
  let ?F = "fresh_ids uuid (gs_next s)"
  let ?c = "set (created_node_ids c)"
  from m obtain upd made where u: "gs_nodes s2 = upd @ made" "list_all2 (kept snaps) (gs_nodes s) upd"
    "\<forall>n \<in> set made. gn_graph n = g \<and> gn_id n \<in> ?F \<and>
      (\<exists>r \<in> set (added_refs (cs_proposal c)). (r, gn_id n) \<in> set (cs_node_ids c))"
    and sub: "?c \<subseteq> ?F"
    and snaps: "distinct (map sn_id snaps)"
      "\<forall>sn \<in> set snaps. \<exists>a \<in> set (gs_nodes s). gn_graph a = g \<and> sn = snapshot_node a"
    unfolding mat_ok_def by (auto simp: created_node_ids_def)
  have old: "map (restored g snaps) upd = gs_nodes s"
    using u(2) restored_kept [OF ok _ _ snaps]
    by (simp add: list_all2_conv_all_nth list_eq_iff_nth_eq)
  have made: "gn_id n \<in> ?c \<and> gn_graph n = g" if "n \<in> set made" for n
    using u(3) that by (force simp: created_node_ids_def)
  have gone: "filter (\<lambda>n. \<not> (gn_graph n = g \<and> gn_id n \<in> ?c)) (map (restored g snaps) made) = []"
    using made by (auto simp: filter_empty_conv)
  have stay: "filter (\<lambda>n. \<not> (gn_graph n = g \<and> gn_id n \<in> ?c)) (gs_nodes s) = gs_nodes s"
    using sub graphs_ok_fresh [OF ok] by (auto simp: filter_id_conv)
  have e1: "filter (\<lambda>e. \<not> (ge_graph e = g \<and> ge_id e \<in> set (cs_edge_ids c))) (gs_edges t) = gs_edges s"
    using graphs_ok_edge(1) [OF ok] new by (fastforce simp: t(2) filter_id_conv filter_empty_conv)
  have e2: "filter (\<lambda>e. \<not> (ge_graph e = g \<and> (ge_source e \<in> ?c \<or> ge_target e \<in> ?c))) (gs_edges s) = gs_edges s"
    using sub graphs_ok_edge [OF ok] by (auto simp: filter_id_conv)
  from gone stay e1 e2 show ?thesis
    by (simp add: revert_content_def Let_def restored_map t(1) u(1) old)
qed

text \<open>The pieces of \<open>undo\<close> on a change set that was just confirmed.\<close>

lemma load_after:
  assumes "load_change_set sid cid s = Inr c" and "map se_id (gs_sessions s1) = map se_id (gs_sessions s)"
    and "gs_changes s1 = row_mod cs_id (cs_id c) (\<lambda>_. c1) (gs_changes s)"
    and "cs_id c1 = cs_id c" "cs_session c1 = cs_session c"
  shows "load_change_set sid cid s1 = Inr c1 \<and> cs_id c = cid \<and> cs_session c = sid"
proof -
  from assms(1) have c: "row_get cs_id cid (gs_changes s) = Some c" "cs_session c = sid"
    and se: "row_get se_id sid (gs_sessions s) \<noteq> None"
    by (auto simp: load_change_set_def load_session_def bind_r_Inr split: option.splits)
  have id: "cs_id c = cid" using c(1) by (rule row_get_key)
  have "se_id ` set (gs_sessions s1) = se_id ` set (gs_sessions s)"
    using arg_cong [OF assms(2), of set] by simp
  with se have "row_get se_id sid (gs_sessions s1) \<noteq> None" by (simp add: row_get_None_iff)
  moreover have "row_get cs_id cid (gs_changes s1) = Some c1"
    using row_get_mod_same [of cs_id cid "\<lambda>_. c1" "gs_changes s"] c id assms(3,4) by simp
  ultimately show ?thesis
    using c(2) id assms(5) by (auto simp: load_change_set_def load_session_def)
qed

lemma undo_update:
  assumes "load_change_set sid cid s = Inr c" and "cs_status c = Confirmed" and "cs_mode c = ''update''"
    and "cs_graph c = Some g" and "cs_confirmed c = Some (gr_revision gr)"
    and "row_get gr_id g (gs_graphs s) = Some gr" and "proposal_ok (cs_proposal c)"
    and "find (\<lambda>v. gv_graph v = g \<and> gv_revision v = gr_revision gr \<and> gv_resource v = cid) (gs_revisions s) = Some v"
  shows "\<exists>s2 c2. undo sid cid actor now s = Inr (s2, c2) \<and> cs_status c2 = Undone \<and>
    gs_nodes s2 = gs_nodes (revert_content g c (gv_before_nodes v) s) \<and>
    gs_edges s2 = gs_edges (revert_content g c (gv_before_nodes v) s) \<and>
    map_option gr_revision (row_get gr_id g (gs_graphs s2)) = Some (gr_revision gr + 1)"
proof -
  have keep: "gs_graphs (revert_content g c snaps s) = gs_graphs s" for snaps
    by (simp add: revert_content_def Let_def)
  have get: "row_get gr_id g (row_mod gr_id g (\<lambda>x. x\<lparr>gr_revision := k\<rparr>) (gs_graphs s)) =
      Some (gr\<lparr>gr_revision := k\<rparr>)"
    for k using row_get_mod_same [of gr_id g "\<lambda>x. x\<lparr>gr_revision := k\<rparr>" "gs_graphs s"] assms(6) by simp
  show ?thesis
    unfolding undo_def assms(1) bind_r_simps Let_def
    using assms(2-8) by (simp add: put_change_def set_graph_def keep get)
qed

lemma confirmed_frame:
  assumes "apply_nodes uuid g ns (set_graph g f s, [], []) = Inr (s2, refs, snaps)"
    and "apply_edges g refs es (s2, []) = Inr (s3, made)"
  shows "gs_graphs s3 = row_mod gr_id g f (gs_graphs s) \<and> gs_revisions s3 = gs_revisions s \<and>
    gs_changes s3 = gs_changes s \<and> gs_sessions s3 = gs_sessions s \<and> gs_goals s3 = gs_goals s \<and>
    gs_nodes s3 = gs_nodes s2 \<and>
    (\<exists>new. gs_edges s3 = gs_edges s @ new \<and> made = map ge_id new \<and>
       (\<forall>e \<in> set new. ge_graph e = g \<and> gs_next s \<le> ge_id e))"
proof -
  let ?s1 = "set_graph g f s"
  have f1: "s2 = ?s1\<lparr>gs_nodes := gs_nodes s2, gs_next := gs_next s2\<rparr>" and le: "gs_next s \<le> gs_next s2"
    using apply_nodes_frame [OF assms(1)] by (auto simp: set_graph_def)
  have f2: "gs_graphs s2 = row_mod gr_id g f (gs_graphs s)" "gs_revisions s2 = gs_revisions s"
    "gs_changes s2 = gs_changes s" "gs_sessions s2 = gs_sessions s" "gs_edges s2 = gs_edges s" "gs_goals s2 = gs_goals s"
    by (subst f1, simp add: set_graph_def)+
  from apply_edges_made [OF assms(2)] obtain new n' where
    n: "s3 = s2\<lparr>gs_edges := gs_edges s2 @ new, gs_next := n'\<rparr>" "made = map ge_id new"
    "\<forall>e \<in> set new. ge_graph e = g \<and> gs_next s2 \<le> ge_id e" by auto
  show ?thesis using n le by (auto simp: f2 intro!: exI [of _ new])
qed

lemma find_append_None: "find P xs = None \<Longrightarrow> find P (xs @ ys) = find P ys"
  by (induction xs) (auto split: if_splits)

lemma kept_refl: "list_all2 (kept snaps) ns ns"
  by (simp add: list_all2_conv_all_nth kept_def)

text \<open>
  C6. Undo is exact. Confirm a proposed update (additions, changed labels, descriptions and types, new
  edges), then undo it: the undo succeeds, every node and every edge of the database is back as it was,
  in its place, and the graph's revision has advanced by two, so that older proposals do not apply to it.
\<close>

theorem undo_restores_updated_graph:
  assumes ok: "graphs_ok uuid s" and load: "load_change_set sid cid s = Inr c"
    and "cs_status c = Proposed" and upd: "cs_mode c = ''update''"
    and "confirm uuid sid cid actor now s = Inr (s1, c1)"
  shows "\<exists>s2 c2. undo sid cid actor' now' s1 = Inr (s2, c2) \<and> cs_status c2 = Undone \<and>
    gs_nodes s2 = gs_nodes s \<and> gs_edges s2 = gs_edges s \<and>
    (\<exists>gr. cs_graph c = Some (gr_id gr) \<and> row_get gr_id (gr_id gr) (gs_graphs s) = Some gr \<and>
       map_option gr_revision (row_get gr_id (gr_id gr) (gs_graphs s2)) = Some (gr_revision gr + 2))"
proof -
  from confirm_update [OF load assms(3,4,5)] obtain goal gr s2 refs snaps s3 made where
    g: "cs_graph c = Some (gr_id gr)" "row_get gr_id (gr_id gr) (gs_graphs s) = Some gr"
    and p: "proposal_ok (cs_proposal c)"
    and v: "validate_proposal (cs_proposal c) ''update'' (Some (gr_id gr)) s = Inr ()"
    and nodes: "apply_nodes uuid (gr_id gr) (pp_nodes (cs_proposal c))
      (set_graph (gr_id gr) (\<lambda>x. x\<lparr>gr_revision := gr_revision x + 1\<rparr>) s, [], []) = Inr (s2, refs, snaps)"
    and edges: "apply_edges (gr_id gr) refs (pp_edges (cs_proposal c)) (s2, []) = Inr (s3, made)"
    and fin: "finish_confirm c goal actor now (gr_id gr) (gr_revision gr) (gr_revision gr + 1)
      (s3, refs, snaps) made = (s1, c1)"
    by (elim exE conjE) (rule that; assumption)
  let ?f = "\<lambda>x. x\<lparr>gr_revision := gr_revision x + 1\<rparr>"
  let ?adds = "set (added_refs (cs_proposal c))"
  note fr = confirmed_frame [OF nodes edges]
  note fu = finish_update [OF fin upd]
  have dist: "distinct (map nc_ref (pp_nodes (cs_proposal c)))" using p by (simp add: proposal_ok_def)
  have adds: "nc_ref n \<in> ?adds \<longleftrightarrow> nc_change n = Add" if "n \<in> set (pp_nodes (cs_proposal c))" for n
    using dist that by (auto simp: added_refs_def distinct_map dest: inj_onD)
  have start: "mat_ok uuid (gr_id gr) (gs_nodes s) (gs_next s) ?adds (set_graph (gr_id gr) ?f s, [], [])"
    by (rule mat_okI [where upd = "gs_nodes s" and made = "[]"]) (simp_all add: set_graph_def kept_refl)
  have old: "set (update_ids (pp_nodes (cs_proposal c))) \<inter> fresh_ids uuid (gs_next s) = {}"
    using validated_updates [OF v] graphs_ok_fresh [OF ok] by blast
  have m: "mat_ok uuid (gr_id gr) (gs_nodes s) (gs_next s) ?adds (s2, refs, snaps)"
    using validated_updates [OF v] adds old dist
    by (intro apply_nodes_ok [OF nodes start]) simp_all
  have c1: "load_change_set sid cid s1 = Inr c1" "cs_id c = cid"
    using load_after [OF load, of s1 c1] fr fu by simp_all
  have gr1: "row_get gr_id (gr_id gr) (gs_graphs s1) = Some (gr\<lparr>gr_revision := gr_revision gr + 1\<rparr>)"
    using row_get_mod_same [of gr_id "gr_id gr" ?f "gs_graphs s"] fr fu g(2) by simp
  obtain w where w: "gs_revisions s1 = gs_revisions s @ [w]" "gv_graph w = gr_id gr"
    "gv_revision w = gr_revision gr + 1" "gv_resource w = cid" "gv_before_nodes w = snaps"
    using fr fu c1(2) by auto
  have "find (\<lambda>v. gv_graph v = gr_id gr \<and> gv_revision v = gr_revision gr + 1 \<and> gv_resource v = cid)
      (gs_revisions s) = None"
    using ok row_get_SomeD [OF g(2)] by (fastforce simp: find_None_iff graphs_ok_def)
  then have found: "find (\<lambda>v. gv_graph v = gr_id gr \<and> gv_revision v = gr_revision gr + 1 \<and> gv_resource v = cid)
      (gs_revisions s1) = Some w" by (simp add: w find_append_None)
  obtain s4 c4 where u: "undo sid cid actor' now' s1 = Inr (s4, c4)" "cs_status c4 = Undone"
    "gs_nodes s4 = gs_nodes (revert_content (gr_id gr) c1 snaps s1)"
    "gs_edges s4 = gs_edges (revert_content (gr_id gr) c1 snaps s1)"
    "map_option gr_revision (row_get gr_id (gr_id gr) (gs_graphs s4)) = Some (gr_revision gr + 2)"
    using undo_update [OF c1(1), of "gr_id gr" "gr\<lparr>gr_revision := gr_revision gr + 1\<rparr>" w actor' now']
      fu upd gr1 p found w(5) by auto
  from fr obtain new where new: "gs_edges s3 = gs_edges s @ new" "made = map ge_id new"
    "\<forall>e \<in> set new. ge_graph e = gr_id gr \<and> gs_next s \<le> ge_id e" by blast
  have "gs_nodes (revert_content (gr_id gr) c1 snaps s1) = gs_nodes s \<and>
      gs_edges (revert_content (gr_id gr) c1 snaps s1) = gs_edges s"
    by (rule revert_exact [OF ok, of _ _ s2 _ _ new]) (use fr fu m new in simp_all)
  with u g show ?thesis by (intro exI [of _ s4] exI [of _ c4] exI [of _ gr] conjI) simp_all
qed

text \<open>A published graph with a root, two topics and a prerequisite between them.\<close>

definition example_uuid :: "nat \<Rightarrow> string" where
  "example_uuid k = CHR ''n'' # replicate k CHR ''x''"

definition example_gnode :: "string \<Rightarrow> string \<Rightarrow> gnode" where
  "example_gnode i t = \<lparr>gn_id = i, gn_graph = 0, gn_label = i, gn_description = ''d'', gn_type = t\<rparr>"

definition example_change :: "string \<Rightarrow> nat option \<Rightarrow> proposal \<Rightarrow> change_set" where
  "example_change mode g p = \<lparr>cs_id = 4, cs_session = 1, cs_goal = 2, cs_graph = g, cs_mode = mode,
     cs_status = Proposed, cs_base = 1, cs_confirmed = None, cs_proposal = p, cs_node_ids = [],
     cs_edge_ids = [], cs_reviewer = None, cs_reviewed_at = None, cs_reason = []\<rparr>"

definition example_session :: "nat option \<Rightarrow> gsession" where
  "example_session g = \<lparr>se_id = 1, se_goal = Some 2, se_graph = g, se_status = ''active''\<rparr>"

definition example_goal :: "string \<Rightarrow> ggoal" where
  "example_goal st = \<lparr>gl_id = 2, gl_status = st\<rparr>"

definition topics :: "proposal \<Rightarrow> gstate" where
  "topics p = \<lparr>gs_graphs = [\<lparr>gr_id = 0, gr_goal = 2, gr_title = ''T'', gr_status = ''published'',
       gr_revision = 1, gr_published = Some 0\<rparr>],
     gs_nodes = [example_gnode ''R'' ''root'', example_gnode ''A'' ''concept'', example_gnode ''B'' ''concept''],
     gs_edges = [\<lparr>ge_id = 0, ge_graph = 0, ge_source = ''R'', ge_target = ''A'', ge_relation = ''contains''\<rparr>,
       \<lparr>ge_id = 1, ge_graph = 0, ge_source = ''R'', ge_target = ''B'', ge_relation = ''contains''\<rparr>,
       \<lparr>ge_id = 2, ge_graph = 0, ge_source = ''A'', ge_target = ''B'', ge_relation = ''prerequisite''\<rparr>],
     gs_revisions = [], gs_changes = [example_change ''update'' (Some 0) p],
     gs_sessions = [example_session (Some 0)], gs_goals = [example_goal ''approved''], gs_next = 5\<rparr>"

text \<open>Rename \<open>A\<close> and add \<open>C\<close> below it.\<close>

definition growing :: proposal where
  "growing = \<lparr>pp_title = ''T'', pp_summary = ''s'',
     pp_nodes = [\<lparr>nc_ref = ''a'', nc_change = Update, nc_node_id = Some ''A'', nc_label = ''A2'',
         nc_description = ''d'', nc_type = ''concept''\<rparr>, tree_node ''C'' ''concept''],
     pp_edges = [tree_edge ''A'' ''C'']\<rparr>"

theorem undo_restores_updated_graph_witness:
  "\<exists>s1 c1 s2 c2. confirm example_uuid 1 4 ''u'' 9 (topics growing) = Inr (s1, c1) \<and>
     length (gs_nodes s1) = 4 \<and> undo 1 4 ''u'' 10 s1 = Inr (s2, c2) \<and>
     gs_nodes s2 = gs_nodes (topics growing) \<and> gs_edges s2 = gs_edges (topics growing)"
proof -
  have ok: "graphs_ok example_uuid (topics growing)"
    by (auto simp: graphs_ok_def topics_def example_gnode_def example_uuid_def)
  have load: "load_change_set 1 4 (topics growing) = Inr (example_change ''update'' (Some 0) growing)"
    by code_simp
  have "map_sum id (\<lambda>x. length (gs_nodes (fst x))) (confirm example_uuid 1 4 ''u'' 9 (topics growing)) = Inr 4"
    by code_simp
  then obtain s1 c1 where c: "confirm example_uuid 1 4 ''u'' 9 (topics growing) = Inr (s1, c1)"
    and n: "length (gs_nodes s1) = 4"
    by (cases "confirm example_uuid 1 4 ''u'' 9 (topics growing)") auto
  have "cs_status (example_change ''update'' (Some 0) growing) = Proposed"
    "cs_mode (example_change ''update'' (Some 0) growing) = ''update''"
    by (simp_all add: example_change_def)
  from undo_restores_updated_graph [OF ok load this c, of "''u''" 10] c n show ?thesis by metis
qed

section \<open>Competing and repeated confirmations\<close>

lemma load_other:
  assumes "load_change_set sid cid s = Inr c" and "map se_id (gs_sessions s1) = map se_id (gs_sessions s)"
    and "gs_changes s1 = row_mod cs_id k (\<lambda>_. c1) (gs_changes s)" and "cs_id c1 = k" and "k \<noteq> cid"
  shows "load_change_set sid cid s1 = Inr c"
proof -
  have "se_id ` set (gs_sessions s1) = se_id ` set (gs_sessions s)"
    using arg_cong [OF assms(2), of set] by simp
  with assms(1) have "row_get se_id sid (gs_sessions s1) \<noteq> None"
    by (auto simp: load_change_set_def load_session_def bind_r_Inr row_get_None_iff split: option.splits)
      (metis not_None_eq row_get_None_iff)
  moreover have "row_get cs_id cid (gs_changes s1) = row_get cs_id cid (gs_changes s)"
    using row_get_mod_other [of cid k cs_id "\<lambda>_. c1" "gs_changes s"] assms(3-5) by auto
  ultimately show ?thesis
    using assms(1) by (auto simp: load_change_set_def load_session_def bind_r_Inr split: option.splits)
qed

text \<open>
  Two proposals for the same graph revision do not both apply. When each could be confirmed in the
  state \<open>s\<close>, confirming one makes the other fail with a revision conflict, whoever confirms it and when,
  while confirming the first one again returns it and changes nothing.
\<close>

lemma second_confirmation_conflicts:
  assumes "load_change_set sid cid s = Inr c" and "cs_status c = Proposed" and "cs_mode c = ''update''"
    and "confirm uuid sid cid actor now s = Inr (s1, c1)"
    and "load_change_set sid' cid' s = Inr d" and "cs_status d = Proposed" and "cs_mode d = ''update''"
    and "confirm uuid sid' cid' actor now s = Inr r" and "cs_graph d = cs_graph c" and "cid' \<noteq> cid"
  shows "confirm uuid sid' cid' actor' now' s1 = Inl (App_error 409 ''graph_revision_conflict'') \<and>
    confirm uuid sid cid actor' now' s1 = Inr (s1, c1)"
proof -
  from confirm_update [OF assms(1-4)] obtain goal gr s2 refs snaps s3 made where
    g: "cs_graph c = Some (gr_id gr)" "row_get gr_id (gr_id gr) (gs_graphs s) = Some gr"
    and nodes: "apply_nodes uuid (gr_id gr) (pp_nodes (cs_proposal c))
      (set_graph (gr_id gr) (\<lambda>x. x\<lparr>gr_revision := gr_revision x + 1\<rparr>) s, [], []) = Inr (s2, refs, snaps)"
    and edges: "apply_edges (gr_id gr) refs (pp_edges (cs_proposal c)) (s2, []) = Inr (s3, made)"
    and fin: "finish_confirm c goal actor now (gr_id gr) (gr_revision gr) (gr_revision gr + 1)
      (s3, refs, snaps) made = (s1, c1)"
    by (elim exE conjE) (rule that; assumption)
  note fr = confirmed_frame [OF nodes edges] and fu = finish_update [OF fin assms(3)]
  from confirm_update [OF assms(5-8)] assms(9) g obtain goal' where
    goal': "row_get gl_id (cs_goal d) (gs_goals s) = Some goal'" "gr_goal gr = gl_id goal'"
    and d: "gr_revision gr = cs_base d" "proposal_ok (cs_proposal d)" by auto
  have gr1: "row_get gr_id (gr_id gr) (gs_graphs s1) = Some (gr\<lparr>gr_revision := gr_revision gr + 1\<rparr>)"
    using row_get_mod_same [of gr_id "gr_id gr" "\<lambda>x. x\<lparr>gr_revision := gr_revision x + 1\<rparr>" "gs_graphs s"]
      fr fu g(2) by simp
  have c1: "load_change_set sid cid s1 = Inr c1" "cs_id c = cid" "cs_status c1 = Confirmed"
    using load_after [OF assms(1), of s1 c1] fr fu by simp_all
  have "load_change_set sid' cid' s1 = Inr d"
    using load_other [OF assms(5), of s1 cid c1] fr fu c1(2) assms(10) by simp
  then have "confirm uuid sid' cid' actor' now' s1 = Inl (App_error 409 ''graph_revision_conflict'')"
    using assms(6,7,9) g goal' d gr1 fr fu by (simp add: confirm_def confirm_target_def)
  moreover have "confirm uuid sid cid actor' now' s1 = Inr (s1, c1)"
    using c1 by (simp add: confirm_def)
  ultimately show ?thesis by simp
qed

text \<open>A second proposal for the same revision: a node \<open>D\<close> below \<open>B\<close>.\<close>

definition other_growing :: proposal where
  "other_growing = \<lparr>pp_title = ''T'', pp_summary = ''s'', pp_nodes = [tree_node ''D'' ''concept''],
     pp_edges = [tree_edge ''B'' ''D'']\<rparr>"

definition other_change :: change_set where
  "other_change = (example_change ''update'' (Some 0) other_growing)\<lparr>cs_id := 3\<rparr>"

definition two_proposals :: gstate where
  "two_proposals = (topics growing)\<lparr>gs_changes := [example_change ''update'' (Some 0) growing, other_change]\<rparr>"

section \<open>Where the guarantees end\<close>

text \<open>Both topics are updated under references of their own, and the new edge uses the references.\<close>

definition renaming_cycle :: proposal where
  "renaming_cycle = \<lparr>pp_title = ''T'', pp_summary = ''s'',
     pp_nodes = [\<lparr>nc_ref = ''x'', nc_change = Update, nc_node_id = Some ''A'', nc_label = ''A'',
         nc_description = ''d'', nc_type = ''concept''\<rparr>,
       \<lparr>nc_ref = ''y'', nc_change = Update, nc_node_id = Some ''B'', nc_label = ''B'',
         nc_description = ''d'', nc_type = ''concept''\<rparr>],
     pp_edges = [\<lparr>ec_source = ''y'', ec_target = ''x'', ec_relation = ''prerequisite''\<rparr>]\<rparr>"

definition prerequisites :: "gstate \<Rightarrow> arcs" where
  "prerequisites s = stored_arcs ''prerequisite'' (graph_edges 0 s)"

text \<open>
  The prerequisite check reads the proposal's references as they stand, the confirmation resolves
  them to node ids: an edge between the references of two updated nodes passes the check and closes a
  prerequisite cycle with the edge that is already stored.
\<close>

lemma confirmed_update_closes_cycle:
  "\<not> has_prerequisite_cycle (prerequisites (topics renaming_cycle)) \<and>
   map_sum id (\<lambda>x. has_prerequisite_cycle (prerequisites (fst x)))
     (confirm example_uuid 1 4 ''u'' 9 (topics renaming_cycle)) = Inr True"
  by code_simp

text \<open>A session without a graph and its proposal to create one.\<close>

definition before_creation :: gstate where
  "before_creation = \<lparr>gs_graphs = [], gs_nodes = [], gs_edges = [], gs_revisions = [],
     gs_changes = [(example_change ''create'' None tree_proposal)\<lparr>cs_base := 0\<rparr>],
     gs_sessions = [example_session None], gs_goals = [example_goal ''confirmed''], gs_next = 5\<rparr>"

text \<open>
  Creating a graph and undoing it. The confirmation publishes the graph but does not bind the
  session to it, because the query for the sessions runs before the confirmed change set is flushed;
  and the undo removes every node and edge but keeps the published graph, because the query for
  remaining nodes runs before the deletions are flushed.
\<close>

lemma undone_creation_keeps_graph:
  "(case confirm example_uuid 1 4 ''u'' 9 before_creation of
      Inl e \<Rightarrow> False
    | Inr (s1, c1) \<Rightarrow>
        map gr_status (gs_graphs s1) = [''published''] \<and> map se_graph (gs_sessions s1) = [None] \<and>
        length (gs_nodes s1) = 3 \<and>
        (case undo 1 4 ''u'' 10 s1 of
           Inl e \<Rightarrow> False
         | Inr (s2, c2) \<Rightarrow>
             map gr_status (gs_graphs s2) = [''published''] \<and> gs_nodes s2 = [] \<and> gs_edges s2 = [] \<and>
             cs_status c2 = Undone \<and> cs_graph c2 \<noteq> None))"
  by code_simp

end
