(* ===== verification/Durable_Queue.thy ===== *)
theory Durable_Queue
  imports Pystr "HOL-Library.Product_Lexorder"
begin

text \<open>
  The durable job queue, \<open>backend/app/services/durable_queue.py\<close>: a table of jobs that workers lease.
  Every change a worker makes to a job it holds is one conditional UPDATE on the lease owner and the
  lease token. Instants are milliseconds here, because a job can be put back after a tenth of a second.
  The clock, the token of a claim (\<open>uuid4\<close>, a counter here) and the handlers of the job kinds are
  parameters.
\<close>

section \<open>Jobs\<close>

datatype dj_status = Waiting | Leased | Done | Dead | Cancelled

record djob =
  dj_id :: nat
  dj_workspace :: string
  dj_kind :: string
  dj_payload :: json
  dj_dedupe :: "string option"
  dj_priority :: int
  dj_max :: int
  dj_status :: dj_status
  dj_available :: instant
  dj_created :: instant
  dj_attempts :: int
  dj_owner :: "string option"
  dj_token :: "nat option"
  dj_lease_end :: "instant option"
  dj_started :: "instant option"
  dj_completed :: "instant option"
  dj_error :: "string option"

text \<open>The table, with the next job id and the next lease token.\<close>

record job_table =
  jobs :: "djob list"
  next_job :: nat
  next_token :: nat

text \<open>A \<open>DurableQueue\<close> object: its worker, its limits and the workspace it served last.\<close>

record dqueue =
  dq_worker :: string
  dq_lease :: int
  dq_attempts :: int
  dq_last :: "string option"

definition new_queue :: "string \<Rightarrow> int \<Rightarrow> int \<Rightarrow> dqueue" where
  "new_queue worker lease_seconds max_attempts =
     \<lparr>dq_worker = worker, dq_lease = max 1 lease_seconds, dq_attempts = max 1 max_attempts, dq_last = None\<rparr>"

section \<open>Enqueueing\<close>

record work =
  w_workspace :: string
  w_kind :: string
  w_payload :: json
  w_dedupe :: "string option"
  w_priority :: int
  w_max :: "int option"
  w_available :: "instant option"

definition find_dedupe :: "string \<Rightarrow> string option \<Rightarrow> job_table \<Rightarrow> djob option" where
  "find_dedupe ws key t =
     (if key = None then None else find (\<lambda>j. dj_workspace j = ws \<and> dj_dedupe j = key) (jobs t))"

definition fresh_job :: "dqueue \<Rightarrow> work \<Rightarrow> instant \<Rightarrow> nat \<Rightarrow> djob" where
  "fresh_job q w clock i =
     \<lparr>dj_id = i, dj_workspace = w_workspace w, dj_kind = w_kind w, dj_payload = w_payload w,
      dj_dedupe = w_dedupe w, dj_priority = w_priority w,
      dj_max = (case w_max w of None \<Rightarrow> dq_attempts q | Some m \<Rightarrow> if m = 0 then dq_attempts q else m),
      dj_status = Waiting, dj_available = (case w_available w of None \<Rightarrow> clock | Some a \<Rightarrow> a),
      dj_created = clock, dj_attempts = 0, dj_owner = None, dj_token = None, dj_lease_end = None,
      dj_started = None, dj_completed = None, dj_error = None\<rparr>"

text \<open>
  \<open>enqueue\<close>. An empty dedupe key is not looked up, but the unique constraint still sees it. A concurrent
  insert of the same key ends in the same two answers through the \<open>IntegrityError\<close> branch.
\<close>

definition enqueue :: "dqueue \<Rightarrow> work \<Rightarrow> instant \<Rightarrow> job_table \<Rightarrow> (job_table \<times> djob) result" where
  "enqueue q w clock t =
     (case (if w_dedupe w = Some [] then None else find_dedupe (w_workspace w) (w_dedupe w) t) of
        Some j \<Rightarrow> require (dj_kind j = w_kind w \<and> dj_payload j = w_payload w)
          (Python_error ''ValueError'') (Inr (t, j))
      | None \<Rightarrow>
          require (find_dedupe (w_workspace w) (w_dedupe w) t = None) (Python_error ''IntegrityError'')
          (let j = fresh_job q w clock (next_job t)
           in Inr (t\<lparr>jobs := jobs t @ [j], next_job := Suc (next_job t)\<rparr>, j)))"

text \<open>\<open>enqueue_document_job\<close>: one job per dispatch generation of a document.\<close>

definition document_work :: "string \<Rightarrow> string \<Rightarrow> string \<Rightarrow> work" where
  "document_work ws doc token =
     \<lparr>w_workspace = ws, w_kind = ''document.parse_index'',
      w_payload = JDict [(''document_job_id'', JStr doc), (''execution_token'', JStr token)],
      w_dedupe = Some (''document.parse_index:'' @ doc @ '':'' @ token), w_priority = 0, w_max = None,
      w_available = None\<rparr>"

section \<open>Claiming\<close>

definition eligible :: "instant \<Rightarrow> djob \<Rightarrow> bool" where
  "eligible now j \<longleftrightarrow> dj_status j = Waiting \<and> dj_available j \<le> now \<or>
     dj_status j = Leased \<and> (\<exists>e \<in> set_option (dj_lease_end j). e \<le> now)"

text \<open>The ORDER BY clause: another workspace first, then priority, then age.\<close>

definition claim_rank :: "string option \<Rightarrow> djob \<Rightarrow> nat \<times> int \<times> int \<times> int" where
  "claim_rank served j =
     (if served = Some (dj_workspace j) then 1 else 0, - dj_priority j, dj_available j, dj_created j)"

fun first_by :: "('a \<Rightarrow> 'k::linorder) \<Rightarrow> 'a list \<Rightarrow> 'a option" where
  "first_by f [] = None"
| "first_by f (x # xs) = (case first_by f xs of
      None \<Rightarrow> Some x | Some y \<Rightarrow> if f x \<le> f y then Some x else Some y)"

text \<open>The SELECT of \<open>claim_next\<close>.\<close>

definition candidate :: "dqueue \<Rightarrow> string option \<Rightarrow> instant \<Rightarrow> job_table \<Rightarrow> djob option" where
  "candidate q kind now t = first_by (claim_rank (dq_last q))
     (filter (\<lambda>j. eligible now j \<and> (kind \<in> {None, Some []} \<or> kind = Some (dj_kind j))) (jobs t))"

text \<open>Its conditional UPDATE, which looks at the row again; \<open>None\<close> when another worker was faster.\<close>

definition lease_job :: "dqueue \<Rightarrow> nat \<Rightarrow> instant \<Rightarrow> djob \<Rightarrow> djob" where
  "lease_job q token now j = j\<lparr>dj_status := Leased, dj_owner := Some (dq_worker q), dj_token := Some token,
     dj_lease_end := Some (now + 1000 * dq_lease q), dj_attempts := dj_attempts j + 1,
     dj_started := (case dj_started j of None \<Rightarrow> Some now | Some s \<Rightarrow> Some s), dj_error := None\<rparr>"

definition claim_take :: "dqueue \<Rightarrow> nat \<Rightarrow> instant \<Rightarrow> job_table \<Rightarrow> job_table \<times> djob option" where
  "claim_take q i now t = (case row_get dj_id i (jobs t) of
      None \<Rightarrow> (t, None)
    | Some j \<Rightarrow>
        if eligible now j then
          (t\<lparr>jobs := row_mod dj_id i (lease_job q (next_token t) now) (jobs t),
             next_token := Suc (next_token t)\<rparr>, Some (lease_job q (next_token t) now j))
        else (t, None))"

definition claim_next ::
  "dqueue \<Rightarrow> string option \<Rightarrow> instant \<Rightarrow> job_table \<Rightarrow> (dqueue \<times> job_table) \<times> djob option" where
  "claim_next q kind now t = (case candidate q kind now t of
      None \<Rightarrow> ((q, t), None)
    | Some j \<Rightarrow> (case claim_take q (dj_id j) now t of
        (t', r) \<Rightarrow> ((q\<lparr>dq_last := Some (dj_workspace j)\<rparr>, t'), r)))"

section \<open>What the holder of a lease can do\<close>

text \<open>The WHERE clause they share: still leased, by this worker, under this token.\<close>

definition holds :: "dqueue \<Rightarrow> djob \<Rightarrow> djob \<Rightarrow> bool" where
  "holds q h j \<longleftrightarrow> dj_id j = dj_id h \<and> dj_status j = Leased \<and> dj_owner j = Some (dq_worker q) \<and>
     dj_token j = dj_token h"

definition fenced :: "dqueue \<Rightarrow> djob \<Rightarrow> (djob \<Rightarrow> djob) \<Rightarrow> job_table \<Rightarrow> job_table \<times> bool" where
  "fenced q h f t = (t\<lparr>jobs := map (\<lambda>j. if holds q h j then f j else j) (jobs t)\<rparr>,
     \<exists>j \<in> set (jobs t). holds q h j)"

definition complete :: "dqueue \<Rightarrow> djob \<Rightarrow> instant \<Rightarrow> job_table \<Rightarrow> job_table \<times> bool" where
  "complete q h now = fenced q h
     (\<lambda>j. j\<lparr>dj_status := Done, dj_completed := Some now, dj_lease_end := None\<rparr>)"

text \<open>\<open>min(60, 2 ** max(0, attempt_count - 1))\<close> seconds.\<close>

definition backoff :: "int \<Rightarrow> int" where
  "backoff attempts = 1000 * min 60 (2 ^ nat (attempts - 1))"

definition fail :: "dqueue \<Rightarrow> djob \<Rightarrow> string \<Rightarrow> instant \<Rightarrow> job_table \<Rightarrow> job_table \<times> bool" where
  "fail q h error now =
     (let terminal = dj_attempts h \<ge> dj_max h in
      fenced q h (\<lambda>j. j\<lparr>dj_status := (if terminal then Dead else Waiting),
        dj_error := Some (take 500 error), dj_owner := None, dj_token := None, dj_lease_end := None,
        dj_completed := (if terminal then Some now else None),
        dj_available := (if terminal then dj_available j else now + backoff (dj_attempts h))\<rparr>))"

definition rearm :: "dqueue \<Rightarrow> djob \<Rightarrow> int \<Rightarrow> instant \<Rightarrow> job_table \<Rightarrow> job_table \<times> bool" where
  "rearm q h delay now = fenced q h (\<lambda>j. j\<lparr>dj_status := Waiting, dj_attempts := 0, dj_owner := None,
     dj_token := None, dj_lease_end := None, dj_available := now + max 10 delay\<rparr>)"

definition cancel :: "nat \<Rightarrow> string \<Rightarrow> instant \<Rightarrow> job_table \<Rightarrow> job_table \<times> bool" where
  "cancel i ws now t =
     (let open_job = (\<lambda>j. dj_id j = i \<and> dj_workspace j = ws \<and> dj_status j \<in> {Waiting, Leased}) in
      (t\<lparr>jobs := map (\<lambda>j. if open_job j then j\<lparr>dj_status := Cancelled, dj_completed := Some now,
            dj_lease_end := None\<rparr> else j) (jobs t)\<rparr>, \<exists>j \<in> set (jobs t). open_job j))"

section \<open>Running a job\<close>

text \<open>
  \<open>run_one_durable_job\<close>. What the handler of the job's kind did is a parameter: it finished, it asks to be
  run again (only these kinds do), or it raised.
\<close>

datatype outcome = Finished | Unfinished int | Raised string

definition rerun_kinds :: "string list" where
  "rerun_kinds = [''learning.package.build'', ''sticker.index'', ''memory.extract'', ''subapp.event.process'']"

definition job_kinds :: "string list" where
  "job_kinds = rerun_kinds @ [''graph.cover.ai'', ''learning.package.grade'', ''document.parse_index'',
     ''chat.continue_stream'', ''sticker.semantic'']"

definition settle_job :: "dqueue \<Rightarrow> djob \<Rightarrow> outcome \<Rightarrow> instant \<Rightarrow> job_table \<Rightarrow> job_table \<times> bool" where
  "settle_job q h out now =
     (if dj_kind h \<notin> set job_kinds then fail q h (''Unsupported durable job kind: '' @ dj_kind h) now
      else (case out of
        Raised e \<Rightarrow> fail q h e now
      | Finished \<Rightarrow> complete q h now
      | Unfinished d \<Rightarrow> if dj_kind h \<in> set rerun_kinds then rearm q h d now else complete q h now))"

definition run_one ::
  "string \<Rightarrow> int \<Rightarrow> int \<Rightarrow> (djob \<Rightarrow> outcome) \<Rightarrow> instant \<Rightarrow> instant \<Rightarrow> job_table \<Rightarrow> job_table \<times> djob option" where
  "run_one worker lease attempts handler now later t =
     (case claim_next (new_queue worker lease attempts) None now t of
        ((q, t1), None) \<Rightarrow> (t1, None)
      | ((q, t1), Some j) \<Rightarrow> (fst (settle_job q j (handler j) later t1), Some j))"

end
