(* ===== verification/Durable_Facts.thy ===== *)
theory Durable_Facts
  imports Durable_Queue
begin

text \<open>
  The durable queue under any number of workers: which claims are served first, that a worker whose
  lease was taken over cannot touch the job, that ended jobs stay ended, and what bounds the attempts.
\<close>

section \<open>Workers and their leases\<close>

text \<open>The table with every lease that was ever handed out, the newest first: the worker and its copy.\<close>

record q_world =
  wd_table :: job_table
  wd_leases :: "(string \<times> djob) list"

text \<open>
  One database statement of one worker. A claim may come at any time after its SELECT, and a holder may
  settle its job at any time, also long after its lease has expired.
\<close>

inductive q_step :: "q_world \<Rightarrow> q_world \<Rightarrow> bool" where
  q_enqueue: "enqueue q w clock (wd_table s) = Inr (t, j) \<Longrightarrow> q_step s (s\<lparr>wd_table := t\<rparr>)"
| q_claim: "claim_take q i now (wd_table s) = (t, Some j) \<Longrightarrow>
    q_step s \<lparr>wd_table = t, wd_leases = (dq_worker q, j) # wd_leases s\<rparr>"
| q_settle: "(dq_worker q, h) \<in> set (wd_leases s) \<Longrightarrow> settle_job q h out now (wd_table s) = (t, b) \<Longrightarrow>
    q_step s (s\<lparr>wd_table := t\<rparr>)"
| q_cancel: "cancel i ws now (wd_table s) = (t, b) \<Longrightarrow> q_step s (s\<lparr>wd_table := t\<rparr>)"

inductive_cases q_stepE: "q_step s s'"

definition empty_world :: q_world where
  "empty_world = \<lparr>wd_table = \<lparr>jobs = [], next_job = 0, next_token = 0\<rparr>, wd_leases = []\<rparr>"

inductive q_reach :: "q_world \<Rightarrow> bool" where
  q_init: "q_reach empty_world"
| q_next: "q_reach s \<Longrightarrow> q_step s s' \<Longrightarrow> q_reach s'"

text \<open>The newest lease of a job.\<close>

definition latest :: "nat \<Rightarrow> (string \<times> djob) list \<Rightarrow> (string \<times> djob) option" where
  "latest i ls = find (\<lambda>x. dj_id (snd x) = i) ls"

definition leased_right :: "(string \<times> djob) list \<Rightarrow> djob \<Rightarrow> bool" where
  "leased_right ls j \<longleftrightarrow> (dj_status j = Leased \<longrightarrow>
     (\<exists>w h. latest (dj_id j) ls = Some (w, h) \<and> dj_owner j = Some w \<and> dj_token j = dj_token h))"

definition q_inv :: "q_world \<Rightarrow> bool" where
  "q_inv s \<longleftrightarrow> distinct (map dj_id (jobs (wd_table s))) \<and>
     (\<forall>j \<in> set (jobs (wd_table s)). dj_id j < next_job (wd_table s) \<and> leased_right (wd_leases s) j) \<and>
     (\<forall>x \<in> set (wd_leases s). \<exists>k < next_token (wd_table s). dj_token (snd x) = Some k) \<and>
     distinct (map (\<lambda>x. dj_token (snd x)) (wd_leases s))"

text \<open>Settling and cancelling change rows in place and leave nothing leased behind.\<close>

definition ends_leases :: "(djob \<Rightarrow> djob) \<Rightarrow> bool" where
  "ends_leases f \<longleftrightarrow> (\<forall>j. dj_id (f j) = dj_id j \<and> (f j = j \<or> dj_status (f j) \<noteq> Leased \<and>
     dj_status j \<in> {Waiting, Leased}))"

lemma settle_in_place:
  "\<exists>f. ends_leases f \<and> fst (settle_job q h out now t) = t\<lparr>jobs := map f (jobs t)\<rparr>"
proof -
  have fence: "\<exists>f. ends_leases f \<and> fst (fenced q h g t) = t\<lparr>jobs := map f (jobs t)\<rparr>"
    if "\<And>j. dj_id (g j) = dj_id j \<and> dj_status (g j) \<noteq> Leased" for g
    using that by (intro exI [of _ "\<lambda>j. if holds q h j then g j else j"])
      (auto simp: ends_leases_def fenced_def holds_def)
  show ?thesis
    unfolding settle_job_def complete_def fail_def rearm_def Let_def
    by (auto split: outcome.splits intro!: fence)
qed

lemma cancel_in_place:
  "\<exists>f. ends_leases f \<and> fst (cancel i ws now t) = t\<lparr>jobs := map f (jobs t)\<rparr>"
  unfolding cancel_def Let_def fst_conv
  by (intro exI conjI) (rule_tac [2] refl, auto simp: ends_leases_def)

lemma same_ids: "ends_leases f \<Longrightarrow> dj_id \<circ> f = dj_id"
  by (auto simp: ends_leases_def)

lemma in_place_inv:
  assumes "q_inv s" and "ends_leases f"
  shows "q_inv (s\<lparr>wd_table := (wd_table s)\<lparr>jobs := map f (jobs (wd_table s))\<rparr>\<rparr>)"
proof -
  have "leased_right (wd_leases s) (f j)" if "j \<in> set (jobs (wd_table s))" for j
    using assms that unfolding q_inv_def ends_leases_def leased_right_def by metis
  with assms same_ids [OF assms(2)] show ?thesis
    by (auto simp: q_inv_def ends_leases_def)
qed

lemma enqueue_cases:
  "enqueue q w clock t = Inr (t', j) \<Longrightarrow> t' = t \<or>
     t' = t\<lparr>jobs := jobs t @ [fresh_job q w clock (next_job t)], next_job := Suc (next_job t)\<rparr>"
  by (auto simp: enqueue_def Let_def split: option.splits if_splits)

lemma claim_take_cases:
  "claim_take q i now t = (t', Some j) \<Longrightarrow> \<exists>j0. row_get dj_id i (jobs t) = Some j0 \<and> eligible now j0 \<and>
     j = lease_job q (next_token t) now j0 \<and>
     t' = t\<lparr>jobs := row_mod dj_id i (lease_job q (next_token t) now) (jobs t), next_token := Suc (next_token t)\<rparr>"
  by (auto simp: claim_take_def split: option.splits if_splits)

lemma lease_job_fields [simp]:
  "dj_id (lease_job q k now j) = dj_id j" "dj_status (lease_job q k now j) = Leased"
  "dj_owner (lease_job q k now j) = Some (dq_worker q)" "dj_token (lease_job q k now j) = Some k"
  "dj_workspace (lease_job q k now j) = dj_workspace j"
  by (simp_all add: lease_job_def)

lemma latest_Cons: "latest i ((w, h) # ls) = (if dj_id h = i then Some (w, h) else latest i ls)"
  by (simp add: latest_def)

lemma claim_inv:
  assumes "q_inv s" and "claim_take q i now (wd_table s) = (t, Some j)"
  shows "q_inv \<lparr>wd_table = t, wd_leases = (dq_worker q, j) # wd_leases s\<rparr>"
proof -
  let ?k = "next_token (wd_table s)"
  from claim_take_cases [OF assms(2)] obtain j0 where
    j0: "row_get dj_id i (jobs (wd_table s)) = Some j0" and j: "j = lease_job q ?k now j0"
    and t: "t = (wd_table s)\<lparr>jobs := row_mod dj_id i (lease_job q ?k now) (jobs (wd_table s)), next_token := Suc ?k\<rparr>"
    by blast
  from row_get_key [OF j0] have i: "dj_id j = i" by (simp add: j)
  have row: "leased_right ((dq_worker q, j) # wd_leases s) x \<and> dj_id x < next_job (wd_table s)"
    if x: "x \<in> set (row_mod dj_id i (lease_job q ?k now) (jobs (wd_table s)))" for x
  proof -
    from set_row_mod [OF x] obtain r where r: "r \<in> set (jobs (wd_table s))"
      and xr: "x = (if dj_id r = i then lease_job q ?k now r else r)" by blast
    from assms(1) r have old: "leased_right (wd_leases s) r" "dj_id r < next_job (wd_table s)"
      by (auto simp: q_inv_def)
    show ?thesis
    proof (cases "dj_id r = i")
      case True
      with old i show ?thesis by (simp add: xr leased_right_def latest_Cons j)
    next
      case False
      with old i show ?thesis by (simp add: xr leased_right_def latest_Cons)
    qed
  qed
  have "Some ?k \<notin> (\<lambda>x. dj_token (snd x)) ` set (wd_leases s)"
    using assms(1) by (fastforce simp: q_inv_def)
  moreover have "map dj_id (row_mod dj_id i (lease_job q ?k now) (jobs (wd_table s))) = map dj_id (jobs (wd_table s))"
    by (rule row_mod_keys) simp
  moreover have "\<forall>x \<in> set (wd_leases s). \<exists>k < Suc ?k. dj_token (snd x) = Some k"
    using assms(1) unfolding q_inv_def by (meson less_SucI)
  ultimately show ?thesis
    using assms(1) row unfolding q_inv_def t by (simp add: j)
qed

lemma step_inv: "q_step s s' \<Longrightarrow> q_inv s \<Longrightarrow> q_inv s'"
proof (induction rule: q_step.induct)
  case (q_enqueue q w clock s t j)
  then have "next_job (wd_table s) \<notin> dj_id ` set (jobs (wd_table s))" by (auto simp: q_inv_def)
  with enqueue_cases [OF q_enqueue(1)] q_enqueue(2) show ?case
    by (auto simp: q_inv_def fresh_job_def leased_right_def less_Suc_eq)
next
  case (q_claim q i now s t j)
  then show ?case by (intro claim_inv)
next
  case (q_settle q h s out now t b)
  with settle_in_place [of q h out now "wd_table s"] in_place_inv [of s] show ?case by auto
next
  case (q_cancel i ws now s t b)
  with cancel_in_place [of i ws now "wd_table s"] in_place_inv [of s] show ?case by auto
qed

lemma reach_inv: "q_reach s \<Longrightarrow> q_inv s"
proof (induction rule: q_reach.induct)
  case q_init
  then show ?case by (simp add: q_inv_def empty_world_def)
qed (rule step_inv)

lemma latest_append:
  "latest i (ls @ ls') = (case latest i ls of Some x \<Rightarrow> Some x | None \<Rightarrow> latest i ls')"
  by (induction ls) (auto simp: latest_def)

lemma latest_mem: "latest i ls = Some x \<Longrightarrow> x \<in> set ls \<and> dj_id (snd x) = i"
  by (auto simp: latest_def find_Some_iff)

lemma latest_None_iff: "latest i ls = None \<longleftrightarrow> (\<forall>x \<in> set ls. dj_id (snd x) \<noteq> i)"
  by (induction ls) (auto simp: latest_def)

lemma superseded_holds_nothing:
  assumes "q_inv s" and "wd_leases s = newer @ (w, h) # older"
    and "\<exists>x \<in> set newer. dj_id (snd x) = dj_id h" and "j \<in> set (jobs (wd_table s))"
  shows "\<not> holds q h j"
proof
  assume hold: "holds q h j"
  then have eq: "dj_id j = dj_id h" "dj_token j = dj_token h" "dj_status j = Leased" by (simp_all add: holds_def)
  from assms(3) obtain x where x: "latest (dj_id h) newer = Some x"
    using latest_None_iff [of "dj_id h" newer] by (cases "latest (dj_id h) newer") auto
  then have lx: "latest (dj_id h) (wd_leases s) = Some x" by (simp add: assms(2) latest_append)
  from assms(1,4) have "leased_right (wd_leases s) j" by (simp add: q_inv_def)
  with eq lx have "dj_token (snd x) = dj_token h" by (cases x) (simp add: leased_right_def)
  moreover from latest_mem [OF x] have "dj_token (snd x) \<in> (\<lambda>x. dj_token (snd x)) ` set newer" by simp
  ultimately show False using assms(1) by (auto simp: q_inv_def assms(2))
qed

lemma fenced_nothing: "\<forall>j \<in> set (jobs t). \<not> holds q h j \<Longrightarrow> fenced q h f t = (t, False)"
  by (simp add: fenced_def map_idI)

text \<open>A document job, leased by worker \<open>A\<close> for a second and, when that is over, by worker \<open>B\<close>.\<close>

definition worker_queue :: "string \<Rightarrow> dqueue" where
  "worker_queue w = new_queue w 1 3"

definition one_job :: job_table where
  "one_job = \<lparr>jobs = [fresh_job (worker_queue ''A'') (document_work ''ws'' ''d'' ''t'') 0 0], next_job = 1, next_token = 0\<rparr>"

definition lease_of :: "string \<Rightarrow> instant \<Rightarrow> job_table \<Rightarrow> job_table \<times> djob" where
  "lease_of w now t = (case claim_take (worker_queue w) 0 now t of (t', Some j) \<Rightarrow> (t', j)
     | (t', None) \<Rightarrow> (t', fresh_job (worker_queue w) (document_work [] [] []) 0 9))"

definition takeover :: q_world where
  "takeover = (let (t1, a) = lease_of ''A'' 5 one_job; (t2, b) = lease_of ''B'' 2000 t1
     in \<lparr>wd_table = t2, wd_leases = [(''B'', b), (''A'', a)]\<rparr>)"

lemma worker_queue_name [simp]: "dq_worker (worker_queue w) = w"
  by (simp add: worker_queue_def new_queue_def)

lemma enqueued_reach: "q_reach (empty_world\<lparr>wd_table := one_job\<rparr>)"
proof (rule q_next [OF q_init])
  have "enqueue (worker_queue ''A'') (document_work ''ws'' ''d'' ''t'') 0 (wd_table empty_world) =
      Inr (one_job, fresh_job (worker_queue ''A'') (document_work ''ws'' ''d'' ''t'') 0 0)"
    by code_simp
  then show "q_step empty_world (empty_world\<lparr>wd_table := one_job\<rparr>)" by (rule q_enqueue)
qed

lemma takeover_reach: "q_reach takeover"
proof -
  let ?a = "lease_of ''A'' 5 one_job"
  let ?b = "lease_of ''B'' 2000 (fst ?a)"
  have a: "claim_take (worker_queue ''A'') 0 5 one_job = (fst ?a, Some (snd ?a))" by code_simp
  have b: "claim_take (worker_queue ''B'') 0 2000 (fst ?a) = (fst ?b, Some (snd ?b))" by code_simp
  have "q_reach \<lparr>wd_table = fst ?a, wd_leases = [(''A'', snd ?a)]\<rparr>"
    using q_next [OF enqueued_reach q_claim, of "worker_queue ''A''" 0 5] a by (simp add: empty_world_def)
  from q_next [OF this q_claim, of "worker_queue ''B''" 0 2000] b show ?thesis
    by (simp add: takeover_def split_beta Let_def)
qed

text \<open>
  C7. A worker that lost its lease is fenced off. In every state that claims, completions, failures,
  re-arms and cancellations by any workers can lead to: once a job has been leased again, nothing the
  earlier holder reports about it (success, a retry, an error, at whatever time) changes the table,
  and it is told so.
\<close>

theorem superseded_worker_is_fenced:
  assumes "q_reach s" and "wd_leases s = newer @ (dq_worker q, h) # older"
    and "\<exists>x \<in> set newer. dj_id (snd x) = dj_id h"
  shows "settle_job q h out now (wd_table s) = (wd_table s, False)"
proof -
  have "\<forall>j \<in> set (jobs (wd_table s)). \<not> holds q h j"
    using superseded_holds_nothing [OF reach_inv [OF assms(1)] assms(2,3)] by blast
  then show ?thesis
    by (simp add: settle_job_def complete_def fail_def rearm_def Let_def fenced_nothing split: outcome.split)
qed

theorem superseded_worker_is_fenced_witness:
  "\<exists>a. dj_attempts a = 1 \<and> settle_job (worker_queue ''A'') a Finished 2001 (wd_table takeover) = (wd_table takeover, False)"
proof -
  let ?a = "snd (lease_of ''A'' 5 one_job)"
  let ?b = "snd (lease_of ''B'' 2000 (fst (lease_of ''A'' 5 one_job)))"
  have l: "wd_leases takeover = [(''B'', ?b)] @ (dq_worker (worker_queue ''A''), ?a) # []"
    by (simp add: takeover_def split_beta Let_def)
  have "dj_id ?b = dj_id ?a" "dj_attempts ?a = 1" by code_simp+
  with superseded_worker_is_fenced [OF takeover_reach l, of Finished 2001] show ?thesis by auto
qed

section \<open>Ended jobs\<close>

definition ended :: "djob \<Rightarrow> bool" where
  "ended j \<longleftrightarrow> dj_status j \<in> {Done, Dead, Cancelled}"

lemma row_get_map:
  "(\<And>r. key (f r) = key r) \<Longrightarrow> row_get key k (map f rs) = map_option f (row_get key k rs)"
  by (induction rs) auto

lemma in_place_ended:
  assumes "ends_leases f" and "row_get dj_id i js = Some j" and "ended j"
  shows "row_get dj_id i (map f js) = Some j"
  using assms row_get_map [of dj_id f i js] by (auto simp: ends_leases_def ended_def)

lemma step_ended:
  "q_step s s' \<Longrightarrow> row_get dj_id i (jobs (wd_table s)) = Some j \<Longrightarrow> ended j \<Longrightarrow>
     row_get dj_id i (jobs (wd_table s')) = Some j"
proof (induction rule: q_step.induct)
  case (q_enqueue q w clock s t j')
  from enqueue_cases [OF q_enqueue(1)] q_enqueue(2) show ?case by (auto simp: row_get_append)
next
  case (q_claim q k now s t j')
  from claim_take_cases [OF q_claim(1)] obtain j0 where
    j0: "row_get dj_id k (jobs (wd_table s)) = Some j0" "eligible now j0"
    and t: "jobs t = row_mod dj_id k (lease_job q (next_token (wd_table s)) now) (jobs (wd_table s))" by auto
  have "k \<noteq> i" using j0 q_claim(2,3) by (auto simp: eligible_def ended_def)
  with q_claim(2) show ?case by (simp add: t row_get_mod_other)
next
  case (q_settle q h s out now t b)
  with settle_in_place [of q h out now "wd_table s"] in_place_ended show ?case by fastforce
next
  case (q_cancel k ws now s t b)
  with cancel_in_place [of k ws now "wd_table s"] in_place_ended show ?case by fastforce
qed

text \<open>
  Ended jobs stay ended. Whatever workers do after a job is completed, failed for good or
  cancelled, its row keeps every field: it is not run again, and its result is not overwritten.
\<close>

lemma ended_jobs_stay_ended:
  assumes "q_step\<^sup>*\<^sup>* s s'" and "row_get dj_id i (jobs (wd_table s)) = Some j"
    and "dj_status j \<in> {Done, Dead, Cancelled}"
  shows "row_get dj_id i (jobs (wd_table s')) = Some j"
  using assms
proof (induction rule: rtranclp_induct)
  case (step s1 s2)
  then show ?case by (simp add: step_ended [of s1 s2] ended_def)
qed simp

section \<open>Which job is claimed\<close>

lemma first_by_None: "first_by f xs = None \<longleftrightarrow> xs = []"
  by (cases xs) (auto split: option.splits)

lemma first_by_least: "first_by f xs = Some x \<Longrightarrow> x \<in> set xs \<and> (\<forall>y \<in> set xs. f x \<le> f y)"
proof (induction xs arbitrary: x)
  case (Cons a xs)
  show ?case
  proof (cases "first_by f xs")
    case None
    with Cons.prems show ?thesis by (simp add: first_by_None)
  next
    case (Some b)
    from Cons.IH [OF this] have b: "b \<in> set xs" "\<forall>y \<in> set xs. f b \<le> f y" by simp_all
    show ?thesis
    proof (cases "f a \<le> f b")
      case True
      with Cons.prems Some have "x = a" by simp
      moreover have "\<forall>y \<in> set xs. f a \<le> f y" using b(2) order_trans [OF True] by blast
      ultimately show ?thesis by simp
    next
      case False
      with Cons.prems Some have "x = b" by simp
      moreover have "f b \<le> f a" using False by simp
      ultimately show ?thesis using b by simp
    qed
  qed
qed simp

definition wanted :: "string option \<Rightarrow> instant \<Rightarrow> djob \<Rightarrow> bool" where
  "wanted kind now j \<longleftrightarrow> eligible now j \<and> (kind \<in> {None, Some []} \<or> kind = Some (dj_kind j))"

lemma claim_next_Some:
  assumes "claim_next q kind now t = ((q', t'), Some r)" and "distinct (map dj_id (jobs t))"
  shows "\<exists>j \<in> set (jobs t). wanted kind now j \<and> r = lease_job q (next_token t) now j \<and>
    dq_last q' = Some (dj_workspace j) \<and>
    (\<forall>k \<in> set (jobs t). wanted kind now k \<longrightarrow> claim_rank (dq_last q) j \<le> claim_rank (dq_last q) k)"
proof -
  from assms(1) obtain j where j: "candidate q kind now t = Some j"
    and take: "claim_take q (dj_id j) now t = (t', Some r)" and q': "q' = q\<lparr>dq_last := Some (dj_workspace j)\<rparr>"
    by (auto simp: claim_next_def split: option.splits prod.splits)
  from first_by_least [OF j [unfolded candidate_def]]
  have best: "j \<in> set (jobs t)" "wanted kind now j"
    "\<forall>k \<in> set (jobs t). wanted kind now k \<longrightarrow> claim_rank (dq_last q) j \<le> claim_rank (dq_last q) k"
    by (auto simp: wanted_def)
  from claim_take_cases [OF take] row_get_distinct [OF assms(2) best(1)]
  have "r = lease_job q (next_token t) now j" by auto
  with best q' show ?thesis by auto
qed

text \<open>
  The claim of one queue object is fair and never idle. With a job it may run, it gets one; the job
  it gets was due (or its lease had run out), is of the wanted kind, and no other such job comes before
  it by priority and then age, except that the workspace served by the previous claim stands back
  whenever another workspace has such a job.
\<close>

lemma claim_is_fair:
  assumes "distinct (map dj_id (jobs t))" and "j0 \<in> set (jobs t)" and "wanted kind now j0"
  shows "\<exists>q' t' j. claim_next q kind now t = ((q', t'), Some (lease_job q (next_token t) now j)) \<and>
    j \<in> set (jobs t) \<and> wanted kind now j \<and> dq_last q' = Some (dj_workspace j) \<and>
    (dq_last q = Some (dj_workspace j) \<longrightarrow>
       (\<forall>k \<in> set (jobs t). wanted kind now k \<longrightarrow> dj_workspace k = dj_workspace j)) \<and>
    (\<forall>k \<in> set (jobs t). wanted kind now k \<and>
         (dq_last q = Some (dj_workspace k) \<longleftrightarrow> dq_last q = Some (dj_workspace j)) \<longrightarrow>
       dj_priority k \<le> dj_priority j \<and>
       (dj_priority k = dj_priority j \<longrightarrow> (dj_available j, dj_created j) \<le> (dj_available k, dj_created k)))"
proof -
  have "candidate q kind now t \<noteq> None"
    using assms(2,3) by (auto simp: candidate_def first_by_None wanted_def filter_empty_conv)
  then obtain j1 where j1: "candidate q kind now t = Some j1" by blast
  from first_by_least [OF j1 [unfolded candidate_def]] have "j1 \<in> set (jobs t)" "eligible now j1" by auto
  with row_get_distinct [OF assms(1)] have "\<exists>r. snd (claim_next q kind now t) = Some r"
    by (auto simp: claim_next_def j1 claim_take_def)
  then obtain q' t' r where c: "claim_next q kind now t = ((q', t'), Some r)"
    by (cases "claim_next q kind now t") auto
  from claim_next_Some [OF c assms(1)] obtain j where
    j: "j \<in> set (jobs t)" "wanted kind now j" "r = lease_job q (next_token t) now j"
      "dq_last q' = Some (dj_workspace j)"
    and best: "\<forall>k \<in> set (jobs t). wanted kind now k \<longrightarrow> claim_rank (dq_last q) j \<le> claim_rank (dq_last q) k"
    by blast
  have fair: "dj_workspace k = dj_workspace j"
    if "k \<in> set (jobs t)" "wanted kind now k" "dq_last q = Some (dj_workspace j)" for k
  proof -
    have "claim_rank (dq_last q) j \<le> claim_rank (dq_last q) k" using best that(1,2) by blast
    with that(3) show ?thesis by (simp add: claim_rank_def split: if_splits)
  qed
  have ordered: "dj_priority k \<le> dj_priority j \<and>
      (dj_priority k = dj_priority j \<longrightarrow> (dj_available j, dj_created j) \<le> (dj_available k, dj_created k))"
    if "k \<in> set (jobs t)" "wanted kind now k"
      "dq_last q = Some (dj_workspace k) \<longleftrightarrow> dq_last q = Some (dj_workspace j)" for k
  proof -
    have "claim_rank (dq_last q) j \<le> claim_rank (dq_last q) k" using best that(1,2) by blast
    with that(3) show ?thesis by (auto simp: claim_rank_def split: if_splits)
  qed
  have "claim_next q kind now t = ((q', t'), Some (lease_job q (next_token t) now j))"
    using c j(3) by simp
  then show ?thesis
    using j(1,2,4) fair ordered
    by (intro exI [of _ q'] exI [of _ t'] exI [of _ j] conjI) (assumption | blast)+
qed

text \<open>Two jobs of a busy workspace and one of another, which came last.\<close>

definition busy_table :: job_table where
  "busy_table = (let q = worker_queue ''A'';
       j = (\<lambda>ws i. fresh_job q (document_work ws [CHR ''d''] [char_of (48 + i)]) (int i) i)
     in \<lparr>jobs = [j ''busy'' 0, j ''busy'' 1, j ''other'' 2], next_job = 3, next_token = 0\<rparr>)"

section \<open>How often a job is attempted\<close>

text \<open>
  \<open>failed_attempts i s n s'\<close>: in a run from \<open>s\<close> to \<open>s'\<close> job \<open>i\<close> was claimed \<open>n\<close> times, each time by any worker
  and at any time it was eligible, and each time that worker reported that its handler raised. Between and
  during the attempts anything may happen that leaves the row of the job alone: other workers and
  other jobs, but no second claim of an expired lease.
\<close>

definition job_row :: "nat \<Rightarrow> q_world \<Rightarrow> djob option" where
  "job_row i s = row_get dj_id i (jobs (wd_table s))"

definition aside :: "nat \<Rightarrow> q_world \<Rightarrow> q_world \<Rightarrow> bool" where
  "aside i s s' \<longleftrightarrow> q_step s s' \<and> job_row i s' = job_row i s"

inductive failed_attempts :: "nat \<Rightarrow> q_world \<Rightarrow> nat \<Rightarrow> q_world \<Rightarrow> bool" for i s where
  no_attempt: "failed_attempts i s 0 s"
| meanwhile: "failed_attempts i s n s1 \<Longrightarrow> aside i s1 s2 \<Longrightarrow> failed_attempts i s n s2"
| attempt: "failed_attempts i s n s1 \<Longrightarrow> claim_take q i now (wd_table s1) = (t, Some h) \<Longrightarrow>
    (aside i)\<^sup>*\<^sup>* \<lparr>wd_table = t, wd_leases = (dq_worker q, h) # wd_leases s1\<rparr> s2 \<Longrightarrow>
    settle_job q h (Raised e) later (wd_table s2) = (t', b) \<Longrightarrow>
    failed_attempts i s (Suc n) (s2\<lparr>wd_table := t'\<rparr>)"

lemma aside_run: "(aside i)\<^sup>*\<^sup>* s s' \<Longrightarrow> q_step\<^sup>*\<^sup>* s s' \<and> job_row i s' = job_row i s"
proof (induction rule: rtranclp_induct)
  case (step s1 s2)
  then show ?case by (auto simp: aside_def intro: rtranclp.rtrancl_into_rtrancl)
qed simp

lemma steps_inv: "q_step\<^sup>*\<^sup>* s s' \<Longrightarrow> q_inv s \<Longrightarrow> q_inv s'"
  by (induction rule: rtranclp_induct) (auto intro: step_inv)

text \<open>What the report of a failure makes of the row.\<close>

definition failed_row :: "djob \<Rightarrow> string \<Rightarrow> instant \<Rightarrow> djob \<Rightarrow> djob" where
  "failed_row h error now j = (let terminal = dj_attempts h \<ge> dj_max h in
     j\<lparr>dj_status := (if terminal then Dead else Waiting),
        dj_error := Some (take 500 error), dj_owner := None, dj_token := None, dj_lease_end := None,
        dj_completed := (if terminal then Some now else None),
        dj_available := (if terminal then dj_available j else now + backoff (dj_attempts h))\<rparr>)"

lemma raised_row:
  assumes "row_get dj_id i (jobs t) = Some j" and "holds q h j" and "distinct (map dj_id (jobs t))"
  shows "\<exists>e'. row_get dj_id i (jobs (fst (settle_job q h (Raised e) now t))) = Some (failed_row h e' now j)"
proof -
  from row_get_key [OF assms(1)] have i: "dj_id j = i" .
  have "row_get dj_id i (map (\<lambda>j. if holds q h j then failed_row h e' now j else j) (jobs t)) = Some (failed_row h e' now j)" for e'
    using assms(1,2) by (subst row_get_map) (auto simp: failed_row_def Let_def)
  moreover have "fst (fail q h e' now t) = t\<lparr>jobs := map (\<lambda>j. if holds q h j then failed_row h e' now j else j) (jobs t)\<rparr>" for e'
    by (simp add: fail_def fenced_def failed_row_def Let_def)
  moreover have "\<exists>e'. settle_job q h (Raised e) now t = fail q h e' now t" by (cases "dj_kind h \<in> set job_kinds") (auto simp: settle_job_def)
  then obtain e' where "settle_job q h (Raised e) now t = fail q h e' now t" by blast
  ultimately show ?thesis by auto
qed

text \<open>The job after so many attempts: waiting for the next one, or dead.\<close>

definition tried :: "int \<Rightarrow> nat \<Rightarrow> djob \<Rightarrow> bool" where
  "tried lim n j \<longleftrightarrow> dj_attempts j = int n \<and> dj_max j = lim \<and> dj_status j = (if int n < max 1 lim then Waiting else Dead)"

lemma failed_attempts_row:
  assumes "failed_attempts i s n s'" and "q_inv s" and "job_row i s = Some j" and "tried lim 0 j"
  shows "q_step\<^sup>*\<^sup>* s s' \<and> int n \<le> max 1 lim \<and> (\<exists>j'. job_row i s' = Some j' \<and> tried lim n j')"
  using assms(1)
proof induction
  case no_attempt
  with assms(3,4) show ?case by auto
next
  case (meanwhile n s1 s2)
  then show ?case by (auto simp: aside_def intro: rtranclp.rtrancl_into_rtrancl)
next
  case (attempt n s1 q now t h s2 e later t' b)
  from attempt.IH obtain k where run: "q_step\<^sup>*\<^sup>* s s1" and k: "job_row i s1 = Some k" "tried lim n k" by blast
  from claim_take_cases [OF attempt.hyps(2)] k(1) have el: "eligible now k"
    and h: "h = lease_job q (next_token (wd_table s1)) now k"
    and t: "jobs t = row_mod dj_id i (lease_job q (next_token (wd_table s1)) now) (jobs (wd_table s1))"
    by (auto simp: job_row_def)
  let ?c = "\<lparr>wd_table = t, wd_leases = (dq_worker q, h) # wd_leases s1\<rparr>"
  have low: "int n < max 1 lim" "dj_status k = Waiting"
    using el k(2) by (auto simp: eligible_def tried_def split: if_splits)
  have claimed: "job_row i ?c = Some h" using k(1) by (simp add: job_row_def t h row_get_mod_same)
  from aside_run [OF attempt.hyps(3)] have mid: "q_step\<^sup>*\<^sup>* ?c s2" "job_row i s2 = Some h" using claimed by simp_all
  have "q_step s1 ?c" by (rule q_claim [OF attempt.hyps(2)])
  with run mid(1) have run2: "q_step\<^sup>*\<^sup>* s s2" by (meson rtranclp.rtrancl_into_rtrancl rtranclp_trans)
  from steps_inv [OF this assms(2)] have ids: "distinct (map dj_id (jobs (wd_table s2)))" by (simp add: q_inv_def)
  have "holds q h h" by (simp add: holds_def h)
  from raised_row [OF mid(2) [unfolded job_row_def] this ids, of e later] attempt.hyps(4)
  obtain e' where row: "job_row i (s2\<lparr>wd_table := t'\<rparr>) = Some (failed_row h e' later h)" by (auto simp: job_row_def)
  have lease: "(dq_worker q, h) \<in> set (wd_leases s2)" using mid(1)
  proof (induction rule: rtranclp_induct)
    case (step a c)
    from step.hyps(2) step.IH show ?case by cases auto
  qed simp
  have "q_step s2 (s2\<lparr>wd_table := t'\<rparr>)" by (rule q_settle [OF lease attempt.hyps(4)])
  with run2 have "q_step\<^sup>*\<^sup>* s (s2\<lparr>wd_table := t'\<rparr>)" by (rule rtranclp.rtrancl_into_rtrancl)
  moreover have "tried lim (Suc n) (failed_row h e' later h)"
    using k(2) low by (auto simp: tried_def failed_row_def Let_def h lease_job_def)
  ultimately show ?case using row low(1) by auto
qed

text \<open>
  C8. A job whose attempts are reported as failed is given up. In every state the queue can reach, for a
  waiting job of any kind that has not been tried, and whatever workers and other jobs do in between: it is
  claimed at most as often as its limit allows (at least once); after fewer failures it waits and can be
  claimed again when its back-off is over, and once the limit is reached it is dead and stays so. An
  attempt that ends without a report, by a crash, is not of this kind.
\<close>

theorem failing_job_is_given_up:
  assumes "q_reach s" and "job_row i s = Some j" and "dj_status j = Waiting" and "dj_attempts j = 0"
    and "failed_attempts i s n s'"
  shows "int n \<le> max 1 (dj_max j) \<and> (\<exists>j'. job_row i s' = Some j' \<and> dj_attempts j' = int n \<and>
    (if int n < max 1 (dj_max j)
     then dj_status j' = Waiting \<and> (\<forall>now \<ge> dj_available j'. eligible now j')
     else dj_status j' = Dead \<and> (\<forall>s''. q_step\<^sup>*\<^sup>* s' s'' \<longrightarrow> job_row i s'' = Some j')))"
proof -
  have "tried (dj_max j) 0 j" using assms(3,4) by (simp add: tried_def)
  from failed_attempts_row [OF assms(5) reach_inv [OF assms(1)] assms(2) this] obtain j' where
    j': "int n \<le> max 1 (dj_max j)" "job_row i s' = Some j'" "tried (dj_max j) n j'" by blast
  have "job_row i s'' = Some j'" if "q_step\<^sup>*\<^sup>* s' s''" "dj_status j' = Dead" for s''
    using ended_jobs_stay_ended [OF that(1), of i j'] j'(2) that(2) by (simp add: job_row_def)
  with j' show ?thesis by (auto simp: tried_def eligible_def)
qed

theorem failing_job_is_given_up_witness:
  "\<exists>s'. failed_attempts 0 (empty_world\<lparr>wd_table := one_job\<rparr>) 1 s' \<and>
    (\<exists>j'. job_row 0 s' = Some j' \<and> dj_attempts j' = 1 \<and> dj_status j' = Waiting)"
proof -
  let ?s = "empty_world\<lparr>wd_table := one_job\<rparr>"
  let ?q = "worker_queue ''A''"
  let ?a = "lease_of ''A'' 5 one_job"
  let ?b = "settle_job ?q (snd ?a) (Raised ''boom'') 9 (fst ?a)"
  have take: "claim_take ?q 0 5 (wd_table ?s) = (fst ?a, Some (snd ?a))" by code_simp
  have "failed_attempts 0 ?s (Suc 0) (\<lparr>wd_table = fst ?a, wd_leases = (dq_worker ?q, snd ?a) # wd_leases ?s\<rparr>\<lparr>wd_table := fst ?b\<rparr>)"
    by (rule attempt [OF no_attempt take rtranclp.rtrancl_refl, of "''boom''" 9 _ "snd ?b"]) simp
  then obtain s' where s': "failed_attempts 0 ?s 1 s'" by auto
  have j: "job_row 0 ?s = Some (hd (jobs one_job))" "dj_status (hd (jobs one_job)) = Waiting" "dj_attempts (hd (jobs one_job)) = 0"
    "dj_max (hd (jobs one_job)) = 3" by code_simp+
  from failing_job_is_given_up [OF enqueued_reach j(1-3) s'] s' show ?thesis by (auto simp: j(4))
qed

text \<open>A worker that crashes in each attempt: the lease is claimed again when it has run out.\<close>

fun crashing_rounds :: "nat \<Rightarrow> job_table" where
  "crashing_rounds 0 = one_job"
| "crashing_rounds (Suc n) =
     snd (fst (claim_next (worker_queue ''A'') None (1000 * int n) (crashing_rounds n)))"

text \<open>
  A job that crashes its worker is attempted for ever. The limit is tested when a failure is reported
  and not when an expired lease is claimed again: after n + 1 crashes the job, allowed three attempts,
  is leased for the attempt number n + 1, whatever n is.
\<close>

lemma crashing_job_is_never_given_up:
  "\<exists>j. jobs (crashing_rounds (Suc n)) = [j] \<and> dj_max j = 3 \<and> dj_status j = Leased \<and>
     dj_attempts j = int n + 1"
proof -
  have "\<exists>j. jobs (crashing_rounds (Suc n)) = [j] \<and> dj_max j = 3 \<and> dj_status j = Leased \<and>
     dj_attempts j = int n + 1 \<and> dj_lease_end j = Some (1000 * int n + 1000)"
  proof (induction n)
    case 0
    then show ?case
      by (simp add: one_job_def fresh_job_def document_work_def worker_queue_def new_queue_def
          claim_next_def candidate_def claim_take_def eligible_def lease_job_def)
  next
    case (Suc n)
    then obtain j where j: "jobs (crashing_rounds (Suc n)) = [j]" "dj_max j = 3" "dj_status j = Leased"
      "dj_attempts j = int n + 1" "dj_lease_end j = Some (1000 * int n + 1000)" by blast
    have "eligible (1000 * int (Suc n)) j" using j(3,5) by (simp add: eligible_def algebra_simps)
    then have "jobs (crashing_rounds (Suc (Suc n))) =
        [lease_job (worker_queue ''A'') (next_token (crashing_rounds (Suc n))) (1000 * int (Suc n)) j]"
      unfolding crashing_rounds.simps(2) [of "Suc n"]
      by (simp add: claim_next_def candidate_def claim_take_def j(1) del: crashing_rounds.simps)
    with j show ?case by (simp add: lease_job_def worker_queue_def new_queue_def algebra_simps)
  qed
  then show ?thesis by blast
qed

text \<open>
  The worker loop forgets whom it served. A queue object that claims twice serves the other
  workspace second; the worker loop makes a new queue object for each job, so its second job is again
  one of the busy workspace.
\<close>

lemma worker_loop_is_not_fair:
  "let q = worker_queue ''A'';
       (q1, t1) = fst (claim_next q None 10 busy_table);
       second = snd (claim_next q1 None 11 t1);
       r1 = run_one ''A'' 1 3 (\<lambda>_. Finished) 10 10 busy_table;
       r2 = run_one ''A'' 1 3 (\<lambda>_. Finished) 11 11 (fst r1)
   in map_option dj_workspace second = Some ''other'' \<and>
      map_option dj_workspace (snd r1) = Some ''busy'' \<and> map_option dj_workspace (snd r2) = Some ''busy''"
  by code_simp

section \<open>Dedupe keys\<close>

text \<open>Work under one dedupe key: workspace, key, kind and payload.\<close>

type_synonym work_key = "string \<times> string \<times> string \<times> json"

definition work_fits :: "work_key \<Rightarrow> dqueue \<times> work \<times> instant \<Rightarrow> bool" where
  "work_fits k a \<longleftrightarrow> (case k of (ws, key, kind, payload) \<Rightarrow> case a of (q, w, clock) \<Rightarrow>
     w_workspace w = ws \<and> w_dedupe w = Some key \<and> key \<noteq> [] \<and> w_kind w = kind \<and> w_payload w = payload)"

definition keyed_job :: "work_key \<Rightarrow> job_table \<Rightarrow> djob option" where
  "keyed_job k t = (case k of (ws, key, _) \<Rightarrow> find_dedupe ws (Some key) t)"

definition key_ok :: "work_key \<Rightarrow> job_table \<Rightarrow> bool" where
  "key_ok k t \<longleftrightarrow> (case k of (ws, key, kind, payload) \<Rightarrow>
     \<forall>j \<in> set_option (find_dedupe ws (Some key) t). dj_kind j = kind \<and> dj_payload j = payload)"

definition keyed_work ::
  "work_key \<Rightarrow> dqueue \<times> work \<times> instant \<Rightarrow> job_table \<Rightarrow> job_table \<times> djob \<times> bool" where
  "keyed_work k a t = (case a of (q, w, clock) \<Rightarrow> (case enqueue q w clock t of
      Inr (t', j) \<Rightarrow> (t', j, length (jobs t') \<noteq> length (jobs t))
    | Inl e \<Rightarrow> (t, fresh_job q w clock (next_job t), False)))"

lemma find_dedupe_new:
  "find_dedupe ws (Some key) t = None \<Longrightarrow> dj_workspace j = ws \<Longrightarrow> dj_dedupe j = Some key \<Longrightarrow>
     find_dedupe ws (Some key) (t\<lparr>jobs := jobs t @ [j], next_job := n\<rparr>) = Some j"
  by (induction "jobs t" arbitrary: t) (auto simp: find_dedupe_def find_None_iff find_Some_iff nth_append
      intro!: exI [of _ "length (jobs _)"])

interpretation work_queue: idempotent_create key_ok work_fits keyed_job keyed_work dj_id
  "\<lambda>t. length (jobs t)"
proof unfold_locales
  fix k a t
  assume "work_fits k a" "key_ok k t"
  then show "key_ok k (fst (keyed_work k a t))"
    by (cases k; cases a) (auto simp: work_fits_def key_ok_def keyed_work_def enqueue_def Let_def find_dedupe_new
        fresh_job_def split: option.splits sum.splits if_splits)
next
  fix k a t r
  assume "work_fits k a" "key_ok k t" "keyed_job k t = Some r"
  then show "\<exists>s' r'. keyed_work k a t = (s', r', False) \<and> dj_id r' = dj_id r \<and> keyed_job k s' = Some r' \<and>
      length (jobs s') = length (jobs t)"
    by (cases k; cases a) (auto simp: work_fits_def key_ok_def keyed_work_def keyed_job_def enqueue_def)
next
  fix k a t
  assume "work_fits k a" "key_ok k t" "keyed_job k t = None"
  then show "\<exists>s' r'. keyed_work k a t = (s', r', True) \<and> keyed_job k s' = Some r' \<and>
      length (jobs s') = Suc (length (jobs t))"
    by (cases k; cases a) (auto simp: work_fits_def keyed_work_def keyed_job_def enqueue_def Let_def
        find_dedupe_new fresh_job_def)
qed

lemma enqueued_once:
  assumes "work_fits k a" and "key_ok k t" and "keyed_work k a t = (t1, j1, c)" and "\<forall>b \<in> set bs. work_fits k b"
  shows "\<exists>j2. keyed_job k (foldl (\<lambda>t b. fst (keyed_work k b t)) t1 bs) = Some j2 \<and> dj_id j2 = dj_id j1 \<and>
    length (jobs (foldl (\<lambda>t b. fst (keyed_work k b t)) t1 bs)) = length (jobs t1)"
  by (rule work_queue.replay_after_create [OF assms])

end
