(* ===== verification/Voice_Results.thy ===== *)
theory Voice_Results
  imports Pystr "HOL-Library.Char_ord" "HOL-Library.List_Lexorder" "HOL-Library.Sublist"
begin

text \<open>
  Results of background tasks in a voice session, \<open>backend/app/voice/coordinator.py\<close>: the link between a
  task and the session with its requirement version, the inbox its results are captured in, and the
  speech deliveries. The rows are those of one workspace and tenant. Instants in a cancellation
  checkpoint are kept as numbers; playback events are not modelled.
\<close>

section \<open>Task policies\<close>

definition voice_roles :: "string list" where
  "voice_roles = [''generic'', ''research'', ''reason'', ''tool'']"

definition normalize_voice_role :: "string option \<Rightarrow> string" where
  "normalize_voice_role role =
     (let n = casefold (strip (case role of None \<Rightarrow> ''generic'' | Some r \<Rightarrow> if r = [] then ''generic'' else r))
      in if n \<in> set voice_roles then n else ''generic'')"

definition research_tools :: "string list" where
  "research_tools = [''search_web'', ''fetch_web_page'', ''sandbox_download'', ''parallel_web_research'']"

definition known_voice_tools :: "string list" where
  "known_voice_tools = [''get_current_time'', ''search_web'', ''fetch_web_page'', ''parallel_web_research'',
     ''sandbox_download'', ''sandbox_env_info'', ''sandbox_list_files'', ''sandbox_grep'', ''sandbox_read_file'',
     ''sandbox_write_file'', ''sandbox_append_file'', ''sandbox_edit_file'', ''sandbox_delete_file'',
     ''sandbox_exec'', ''sandbox_bash'', ''sandbox_todo'', ''sandbox_apply_patch'', ''sandbox_git'',
     ''sandbox_skill_list'', ''sandbox_skill_read'', ''lg_graph_read'', ''lg_graph_create'',
     ''lg_graph_propose_change'', ''lg_learning_mastery_read'', ''lg_learning_evidence_record'',
     ''voice_practice_create'', ''lg_review_list_due'', ''lg_roadmap_read'', ''lg_schedule_list'',
     ''canvas_get_render_contract'', ''canvas_emit_trusted_component'', ''sandbox_publish_file'',
     ''sandbox_publish_image'']"

text \<open>\<open>sorted({...})\<close>\<close>

definition resolve_voice_tool_policy :: "string option \<Rightarrow> string list option \<Rightarrow> string list" where
  "resolve_voice_tool_policy role requested =
     (let r = normalize_voice_role role in
      if r = ''tool'' then
        sort (remdups (filter (\<lambda>x. x \<in> set known_voice_tools)
          (map strip (filter (\<lambda>x. x \<noteq> []) (case requested of None \<Rightarrow> [] | Some xs \<Rightarrow> xs)))))
      else if r = ''research'' then research_tools else [])"

text \<open>One requested path: slashes turned, leading ones dropped; \<open>None\<close> when it is refused.\<close>

definition work_path :: "string \<Rightarrow> string option" where
  "work_path item =
     (let v = dropWhile (\<lambda>c. c = CHR ''/'')
        (map (\<lambda>c. if c = CHR 0x5C then CHR ''/'' else c) (strip item)) in
      if v = [] \<or> take 3 v = ''../'' \<or> sublist ''/../'' v then None
      else if take 5 v = ''work/'' then Some v else None)"

definition resolve_voice_write_policy :: "string option \<Rightarrow> string list option \<Rightarrow> string list" where
  "resolve_voice_write_policy role requested =
     (if normalize_voice_role role \<noteq> ''tool'' then []
      else foldl (\<lambda>acc item. case work_path item of
          None \<Rightarrow> acc | Some v \<Rightarrow> if v \<in> set acc then acc else acc @ [take 240 v])
        [] (case requested of None \<Rightarrow> [] | Some xs \<Rightarrow> xs))"

lemma work_path_examples:
  "work_path ''/work/notes.md'' = Some ''work/notes.md''"
  "work_path ''work/../secret'' = None" and "work_path ''notes.md'' = None"
  "work_path ''work/..'' = Some ''work/..''"
  by code_simp+

section \<open>Rows\<close>

definition terminal_statuses :: "string list" where
  "terminal_statuses = [''SUCCEEDED'', ''PARTIAL'', ''FAILED'', ''TIMED_OUT'', ''CANCELLED'', ''INTERRUPTED'']"

definition success_statuses :: "string list" where
  "success_statuses = [''SUCCEEDED'', ''PARTIAL'']"

text \<open>The fields of a \<open>SandboxAgentTask\<close> the coordinator reads.\<close>

record vtask =
  vt_id :: string
  vt_status :: string
  vt_reason :: string
  vt_seq :: int
  vt_finished :: "instant option"
  vt_text :: string
  vt_deliverables :: "(string \<times> json) list"

text \<open>What \<open>_task_fingerprint\<close> digests; two fingerprints are equal when these are.\<close>

type_synonym fingerprint = "string \<times> string \<times> instant option \<times> string \<times> (string \<times> json) list"

definition task_fingerprint :: "vtask \<Rightarrow> fingerprint" where
  "task_fingerprint t = (vt_id t, vt_status t, vt_finished t, vt_text t, vt_deliverables t)"

record vlink =
  vl_id :: nat
  vl_voice :: nat
  vl_chat :: nat
  vl_subagent :: string
  vl_key :: "string option"
  vl_status :: string
  vl_title :: string
  vl_prompt :: string
  vl_original :: string
  vl_requirement :: int
  vl_result_version :: int
  vl_seq :: int
  vl_job :: "string option"
  vl_tools :: "string list"
  vl_approval :: string
  vl_approval_end :: "instant option"
  vl_cancel_requested :: "instant option"
  vl_cancel_ack :: "instant option"
  vl_checkpoint :: "(string, json) dict"

datatype inbox_status = Pending_result | Ready | Failed_result | Stale | Delivered | Dismissed

record vresult =
  vr_id :: nat
  vr_voice :: nat
  vr_link :: nat
  vr_subagent :: string
  vr_requirement :: int
  vr_version :: int
  vr_print :: fingerprint
  vr_status :: inbox_status
  vr_type :: string
  vr_summary :: string
  vr_payload :: "(string \<times> json) list"
  vr_sources :: nat
  vr_error :: string
  vr_delivered :: "instant option"
  vr_dismissed :: "instant option"
  vr_stale :: "instant option"

datatype playback = Claimed_speech | Enqueued | Speaking | Played | Interrupted | Failed_speech

record vdelivery =
  vd_voice :: nat
  vd_result :: nat
  vd_requirement :: int
  vd_version :: int
  vd_key :: string
  vd_speech :: nat
  vd_playback :: playback
  vd_before :: inbox_status
  vd_interrupted :: "instant option"
  vd_ended :: "instant option"

record vstate =
  vs_links :: "vlink list"
  vs_results :: "vresult list"
  vs_deliveries :: "vdelivery list"
  vs_next :: nat

definition set_link :: "nat \<Rightarrow> (vlink \<Rightarrow> vlink) \<Rightarrow> vstate \<Rightarrow> vstate" where
  "set_link i f s = s\<lparr>vs_links := row_mod vl_id i f (vs_links s)\<rparr>"

definition set_result :: "nat \<Rightarrow> (vresult \<Rightarrow> vresult) \<Rightarrow> vstate \<Rightarrow> vstate" where
  "set_result i f s = s\<lparr>vs_results := row_mod vr_id i f (vs_results s)\<rparr>"

definition noted :: "(string \<times> json) list \<Rightarrow> (string, json) dict \<Rightarrow> (string, json) dict" where
  "noted kvs d = foldl (\<lambda>d kv. AList.update (fst kv) (snd kv) d) d kvs"

section \<open>Links\<close>

definition find_link :: "nat \<Rightarrow> string \<Rightarrow> vstate \<Rightarrow> vlink option" where
  "find_link voice sub s = find (\<lambda>l. vl_voice l = voice \<and> vl_subagent l = sub) (vs_links s)"

definition required_link :: "nat \<Rightarrow> string \<Rightarrow> vstate \<Rightarrow> vlink result" where
  "required_link voice sub s = (case find_link voice sub s of
      None \<Rightarrow> Inl (App_error 404 ''voice_task_not_found'') | Some l \<Rightarrow> Inr l)"

definition find_key :: "string option \<Rightarrow> vstate \<Rightarrow> vlink option" where
  "find_key key s = (if key \<in> {None, Some []} then None else find (\<lambda>l. vl_key l = key) (vs_links s))"

record reservation =
  rv_voice :: nat
  rv_chat :: nat
  rv_prompt :: string
  rv_title :: string
  rv_role :: "string option"
  rv_key :: "string option"
  rv_requirement :: int
  rv_tools :: "string list option"
  rv_status :: string
  rv_approval :: string
  rv_approval_end :: "instant option"

text \<open>
  \<open>reserve_link\<close>. The placeholder subagent id (\<open>pending_\<close> and a uuid) comes from \<open>uuid\<close>. An empty
  idempotency key is not looked up, but it is a value of the unique column.
\<close>

definition reserve_link ::
  "(nat \<Rightarrow> string) \<Rightarrow> reservation \<Rightarrow> vstate \<Rightarrow> (vstate \<times> vlink \<times> bool) result" where
  "reserve_link uuid r s = (case find_key (rv_key r) s of
      Some l \<Rightarrow> Inr (s, l, False)
    | None \<Rightarrow>
        require (\<not> (rv_key r = Some [] \<and> Some [] \<in> vl_key ` set (vs_links s))) (Python_error ''IntegrityError'')
        (let l = \<lparr>vl_id = vs_next s, vl_voice = rv_voice r, vl_chat = rv_chat r,
               vl_subagent = ''pending_'' @ uuid (vs_next s), vl_key = rv_key r, vl_status = rv_status r,
               vl_title = rv_title r, vl_prompt = rv_prompt r, vl_original = rv_prompt r,
               vl_requirement = max 1 (rv_requirement r), vl_result_version = 0, vl_seq = 0, vl_job = None,
               vl_tools = resolve_voice_tool_policy (rv_role r) (rv_tools r), vl_approval = rv_approval r,
               vl_approval_end = rv_approval_end r, vl_cancel_requested = None, vl_cancel_ack = None,
               vl_checkpoint = []\<rparr>
         in Inr (s\<lparr>vs_links := vs_links s @ [l], vs_next := Suc (vs_next s)\<rparr>, l, True)))"

definition approve_link :: "vlink \<Rightarrow> instant \<Rightarrow> vstate \<Rightarrow> vstate \<times> vlink result" where
  "approve_link l now s =
     (if vl_status l \<noteq> ''waiting_approval'' then (s, Inl (App_error 409 ''voice_task_not_awaiting_approval''))
      else if (\<exists>e \<in> set_option (vl_approval_end l). e \<le> now)
      then (set_link (vl_id l) (\<lambda>x. x\<lparr>vl_status := ''CANCELLED'', vl_approval := ''expired''\<rparr>) s,
        Inl (App_error 409 ''voice_task_approval_expired''))
      else (set_link (vl_id l) (\<lambda>x. x\<lparr>vl_approval := ''approved''\<rparr>) s, Inr (l\<lparr>vl_approval := ''approved''\<rparr>)))"

definition reject_link :: "vlink \<Rightarrow> string \<Rightarrow> instant \<Rightarrow> vstate \<Rightarrow> (vstate \<times> vlink) result" where
  "reject_link l reason now s =
     require (vl_status l = ''waiting_approval'') (App_error 409 ''voice_task_not_awaiting_approval'')
     (let f = (\<lambda>x. x\<lparr>vl_status := ''CANCELLED'', vl_approval := ''rejected'',
            vl_checkpoint := noted [(''phase'', JStr ''approval_rejected''),
              (''reason'', JStr (take 160 (if reason = [] then ''user_rejected'' else reason))),
              (''rejected_at'', JInt now)] (vl_checkpoint x)\<rparr>)
      in Inr (set_link (vl_id l) f s, f l))"

definition complete_link :: "vlink \<Rightarrow> string \<Rightarrow> string option \<Rightarrow> string \<Rightarrow> vstate \<Rightarrow> vstate" where
  "complete_link l sub job status = set_link (vl_id l)
     (\<lambda>x. x\<lparr>vl_subagent := sub, vl_job := job, vl_status := status\<rparr>)"

definition request_cancel :: "vlink \<Rightarrow> string \<Rightarrow> instant \<Rightarrow> vstate \<Rightarrow> vstate" where
  "request_cancel l reason now s =
     (if vl_status l \<in> set terminal_statuses then s
      else set_link (vl_id l) (\<lambda>x.
        let at = (case vl_cancel_requested x of Some t \<Rightarrow> t | None \<Rightarrow> now) in
        x\<lparr>vl_cancel_requested := Some at,
          vl_checkpoint := noted [(''phase'', JStr ''requested''), (''reason'', JStr (take 160 reason)),
            (''requested_at'', JInt at), (''job_id'', case vl_job x of None \<Rightarrow> JNull | Some j \<Rightarrow> JStr j)]
            (vl_checkpoint x)\<rparr>) s)"

text \<open>The status and the sequence number of a toolkit snapshot, each optional.\<close>

record snapshot_view =
  sv_status :: string
  sv_seq :: int
  sv_job :: string

definition observe_task :: "string \<Rightarrow> int \<Rightarrow> vlink \<Rightarrow> vlink" where
  "observe_task status seq l = l\<lparr>vl_status := status, vl_seq := max (vl_seq l) seq\<rparr>"

definition acknowledge_cancel :: "vlink \<Rightarrow> snapshot_view \<Rightarrow> instant \<Rightarrow> vstate \<Rightarrow> vstate" where
  "acknowledge_cancel l v now = set_link (vl_id l) (\<lambda>x0.
     let status = (if sv_status v = [] then vl_status x0 else sv_status v);
         x = observe_task status (sv_seq v) x0;
         ack = (if status \<in> set terminal_statuses then Some now else vl_cancel_ack x)
     in x\<lparr>vl_cancel_ack := ack,
          vl_checkpoint := noted [(''phase'', JStr (if ack \<noteq> None then ''acknowledged'' else ''pending'')),
            (''observed_status'', JStr status), (''observed_event_seq'', JInt (vl_seq x)),
            (''job_id'', if sv_job v \<noteq> [] then JStr (sv_job v)
               else (case vl_job x of None \<Rightarrow> JNull | Some j \<Rightarrow> JStr j)),
            (''acknowledged_at'', case ack of None \<Rightarrow> JNull | Some t \<Rightarrow> JInt t)] (vl_checkpoint x)\<rparr>)"

text \<open>\<open>revise_requirement\<close>: the version goes up and the results waiting for an older one become stale.\<close>

definition revise_requirement ::
  "vlink \<Rightarrow> string \<Rightarrow> string option \<Rightarrow> string \<Rightarrow> instant \<Rightarrow> vstate \<Rightarrow> vstate" where
  "revise_requirement l prompt title text now s =
     (let version = max 1 (vl_requirement l) + 1;
          f = (\<lambda>x. x\<lparr>vl_requirement := version, vl_prompt := prompt,
            vl_title := (case title of None \<Rightarrow> vl_title x | Some t \<Rightarrow> t), vl_status := ''revision_pending'',
            vl_cancel_requested := Some now, vl_cancel_ack := None,
            vl_checkpoint := noted [(''phase'', JStr ''superseded''), (''note'', JStr (take 500 text)),
              (''requested_at'', JInt now), (''previous_requirement_version'', JInt (version - 1))]
              (vl_checkpoint x)\<rparr>)
      in (set_link (vl_id l) f s)\<lparr>vs_results := map (\<lambda>r.
            if vr_link r = vl_id l \<and> vr_requirement r < version \<and> vr_status r \<in> {Pending_result, Ready}
            then r\<lparr>vr_status := Stale, vr_stale := Some now\<rparr> else r) (vs_results s)\<rparr>)"

definition mark_cancel_superseded :: "vlink \<Rightarrow> string \<Rightarrow> instant \<Rightarrow> vstate \<Rightarrow> vstate" where
  "mark_cancel_superseded l status now = set_link (vl_id l) (\<lambda>x. x\<lparr>vl_cancel_ack := Some now,
     vl_status := status, vl_checkpoint := noted [(''phase'', JStr ''superseded''),
       (''observed_status'', JStr status), (''acknowledged_at'', JInt now)] (vl_checkpoint x)\<rparr>)"

definition complete_revision :: "vlink \<Rightarrow> snapshot_view \<Rightarrow> instant \<Rightarrow> vstate \<Rightarrow> vstate" where
  "complete_revision l v now = set_link (vl_id l) (\<lambda>x.
     let status = (if sv_status v = [] then ''queued'' else sv_status v);
         job = (if sv_job v = [] then vl_job x else Some (sv_job v))
     in x\<lparr>vl_status := status, vl_job := job, vl_cancel_ack := Some now,
          vl_checkpoint := noted [(''phase'', JStr ''superseded''), (''observed_status'', JStr status),
            (''replacement_job_id'', case job of None \<Rightarrow> JNull | Some j \<Rightarrow> JStr j),
            (''acknowledged_at'', JInt now)] (vl_checkpoint x)\<rparr>)"

section \<open>Capturing results\<close>

fun first_truthy :: "json list \<Rightarrow> json" where
  "first_truthy [] = JNull"
| "first_truthy [x] = x"
| "first_truthy (x # y # xs) = (if truthy x then x else first_truthy (y # xs))"

fun as_dict :: "json \<Rightarrow> (string \<times> json) list" where
  "as_dict (JDict d) = d"
| "as_dict _ = []"

fun list_len :: "json \<Rightarrow> nat" where
  "list_len (JList xs) = length xs"
| "list_len _ = 0"

text \<open>\<open>_result_payload\<close>: payload, summary, number of sources, safe error.\<close>

definition result_payload :: "vtask \<Rightarrow> (string \<times> json) list \<times> string \<times> nat \<times> string" where
  "result_payload t =
     (let d = vt_deliverables t;
          a = as_dict (jget d ''agent_result'');
          summary = strip (py_str (first_truthy [jget a ''short_answer'', jget d ''short_answer'',
            jget d ''summary'', JStr (vt_text t), JStr []]));
          d1 = (if summary \<noteq> [] \<and> ''summary'' \<notin> fst ` set d
            then AList.update ''summary'' (JStr (take 4000 summary)) d else d);
          sources = first_truthy [jget a ''sources'', jget d1 ''sources'', jget d1 ''evidence'', JList []];
          d2 = (if a \<noteq> [] then AList.update ''agent_result'' (JDict a) d1 else d1);
          error = (if vt_status t \<in> set success_statuses then []
            else take 160 (if vt_reason t \<noteq> [] then vt_reason t
              else if vt_status t \<noteq> [] then vt_status t else ''agent_task_failed''))
      in (d2, take 4000 summary, list_len sources, error))"

definition link_of_task :: "vtask \<Rightarrow> vstate \<Rightarrow> vlink option" where
  "link_of_task t s = find (\<lambda>l. vl_subagent l = vt_id t) (vs_links s)"

definition new_result :: "vlink \<Rightarrow> vtask \<Rightarrow> nat \<Rightarrow> vresult" where
  "new_result l t i = (case result_payload t of (payload, summary, n, error) \<Rightarrow>
     \<lparr>vr_id = i, vr_voice = vl_voice l, vr_link = vl_id l, vr_subagent = vl_subagent l,
      vr_requirement = max 1 (vl_requirement l), vr_version = max 0 (vl_result_version l) + 1,
      vr_print = task_fingerprint t,
      vr_status = (if vt_status t \<in> set success_statuses then Ready else Failed_result),
      vr_type = (if vt_status t \<in> set success_statuses then ''agent_result''
        else if vt_status t = ''CANCELLED'' then ''cancelled'' else ''agent_failure''),
      vr_summary = summary, vr_payload = payload, vr_sources = n, vr_error = error, vr_delivered = None,
      vr_dismissed = None, vr_stale = None\<rparr>)"

definition captured_link :: "vtask \<Rightarrow> instant \<Rightarrow> vlink \<Rightarrow> vlink" where
  "captured_link t now x =
     (let y = observe_task (vt_status t) (vt_seq t) (x\<lparr>vl_result_version := max 0 (vl_result_version x) + 1\<rparr>);
          seen = [(''observed_status'', JStr (vt_status t)), (''observed_event_seq'', JInt (vt_seq t))]
      in if vl_cancel_requested y = None then y
         else if vt_status t = ''CANCELLED''
         then y\<lparr>vl_cancel_ack := Some now,
             vl_checkpoint := noted (seen @ [(''acknowledged_at'', JInt now)]) (vl_checkpoint y)\<rparr>
         else y\<lparr>vl_checkpoint := noted seen (vl_checkpoint y)\<rparr>)"

text \<open>
  \<open>capture_voice_task_outcome\<close>. The loser of two concurrent captures gets the winner's row through the
  \<open>IntegrityError\<close> branch, which is the answer it would get by running second.
\<close>

definition capture_outcome :: "vtask \<Rightarrow> instant \<Rightarrow> vstate \<Rightarrow> vstate \<times> vresult option" where
  "capture_outcome t now s = (case link_of_task t s of
      None \<Rightarrow> (s, None)
    | Some l \<Rightarrow>
        if vt_status t \<notin> set terminal_statuses
        then (set_link (vl_id l) (observe_task (vt_status t) (vt_seq t)) s, None)
        else (case row_get vr_print (task_fingerprint t) (vs_results s) of
            Some r \<Rightarrow> (set_link (vl_id l) (observe_task (vt_status t) (vt_seq t)) s, Some r)
          | None \<Rightarrow>
              let r = new_result l t (vs_next s)
              in ((set_link (vl_id l) (captured_link t now) s)
                   \<lparr>vs_results := vs_results s @ [r], vs_next := Suc (vs_next s)\<rparr>, Some r)))"

text \<open>\<open>reconcile_link\<close>: with the task's row when there is one, otherwise from the snapshot.\<close>

definition reconcile_link ::
  "vlink \<Rightarrow> vtask option \<Rightarrow> snapshot_view \<Rightarrow> instant \<Rightarrow> vstate \<Rightarrow> vstate \<times> vresult option" where
  "reconcile_link l task v now s = (case task of
      Some t \<Rightarrow> capture_outcome t now s
    | None \<Rightarrow> (set_link (vl_id l) (\<lambda>x. observe_task (if sv_status v = [] then vl_status x else sv_status v) (sv_seq v) x) s, None))"

section \<open>Delivering results\<close>

definition get_result :: "nat \<Rightarrow> nat \<Rightarrow> vstate \<Rightarrow> vresult result" where
  "get_result voice i s = (case find (\<lambda>r. vr_id r = i \<and> vr_voice r = voice) (vs_results s) of
      None \<Rightarrow> Inl (App_error 404 ''voice_result_not_found'') | Some r \<Rightarrow> Inr r)"

definition delivery_by_key :: "string \<Rightarrow> vstate \<Rightarrow> vdelivery option" where
  "delivery_by_key key s = (if key = [] then None else row_get vd_key key (vs_deliveries s))"

definition over :: "vdelivery \<Rightarrow> bool" where
  "over d \<longleftrightarrow> vd_playback d \<in> {Interrupted, Failed_speech}"

definition drop_delivery :: "vdelivery \<Rightarrow> vstate \<Rightarrow> vstate" where
  "drop_delivery d s = s\<lparr>vs_deliveries := row_del vd_result (vd_result d) (vs_deliveries s)\<rparr>"

text \<open>A new handoff of a result to the tutor.\<close>

definition claim_speech :: "vresult \<Rightarrow> string \<Rightarrow> instant \<Rightarrow> vstate \<Rightarrow> vstate \<times> vresult \<times> vdelivery" where
  "claim_speech r key now s =
     (let d = \<lparr>vd_voice = vr_voice r, vd_result = vr_id r, vd_requirement = vr_requirement r,
            vd_version = vr_version r, vd_key = key, vd_speech = vs_next s, vd_playback = Claimed_speech,
            vd_before = vr_status r, vd_interrupted = None, vd_ended = None\<rparr>;
          f = (\<lambda>x. x\<lparr>vr_status := (if vr_status x \<in> {Failed_result, Stale} then vr_status x else Delivered),
            vr_delivered := (case vr_delivered x of Some t \<Rightarrow> Some t | None \<Rightarrow> Some now)\<rparr>)
      in ((set_result (vr_id r) f s)\<lparr>vs_deliveries := vs_deliveries s @ [d], vs_next := Suc (vs_next s)\<rparr>, f r, d))"

text \<open>The second half of \<open>deliver_result\<close>: a live delivery of the result answers, else a new one is made.\<close>

definition deliver_fresh ::
  "vresult \<Rightarrow> string \<Rightarrow> instant \<Rightarrow> vstate \<Rightarrow> vstate \<times> vresult \<times> vdelivery \<times> bool" where
  "deliver_fresh r key now s = (case row_get vd_result (vr_id r) (vs_deliveries s) of
      Some d \<Rightarrow> if over d then (case claim_speech r key now (drop_delivery d s) of (s', r', d') \<Rightarrow> (s', r', d', True))
        else (s, r, d, False)
    | None \<Rightarrow> (case claim_speech r key now s of (s', r', d') \<Rightarrow> (s', r', d', True)))"

text \<open>
  \<open>deliver_result\<close>. The state comes with an error too, because a result found stale is marked before
  the error is raised.
\<close>

definition deliver_result ::
  "nat \<Rightarrow> nat \<Rightarrow> string \<Rightarrow> instant \<Rightarrow> vstate \<Rightarrow> vstate \<times> (vresult \<times> vdelivery \<times> bool) result" where
  "deliver_result voice i key now s = (case get_result voice i s of
      Inl e \<Rightarrow> (s, Inl e)
    | Inr r \<Rightarrow>
        let link = row_get vl_id (vr_link r) (vs_links s) in
        if vr_status r = Stale \<or> (\<exists>l \<in> set_option link. vr_requirement r < (if vl_requirement l = 0 then 1 else vl_requirement l))
        then (set_result i (\<lambda>x. x\<lparr>vr_status := Stale, vr_stale := Some now\<rparr>) s, Inl (App_error 409 ''voice_result_stale''))
        else if vr_status r = Dismissed then (s, Inl (App_error 409 ''voice_result_dismissed''))
        else (case delivery_by_key key s of
            Some d \<Rightarrow>
              if vd_result d \<noteq> i then (s, Inl (App_error 409 ''voice_delivery_idempotency_conflict''))
              else if \<not> over d then (s, Inr (r, d, False))
              else (case deliver_fresh r key now (drop_delivery d s) of (s', x) \<Rightarrow> (s', Inr x))
          | None \<Rightarrow> (case deliver_fresh r key now s of (s', x) \<Rightarrow> (s', Inr x))))"

definition update_speech :: "nat \<Rightarrow> nat \<Rightarrow> string \<Rightarrow> instant \<Rightarrow> vstate \<Rightarrow> (vstate \<times> playback option) result" where
  "update_speech voice speech st now s = (case row_get vd_speech speech (vs_deliveries s) of
      None \<Rightarrow> Inr (s, None)
    | Some d \<Rightarrow>
        if vd_voice d \<noteq> voice then Inr (s, None)
        else bind_r (get_result voice (vd_result d) s) (\<lambda>r.
          let n = casefold (strip st);
              put = (\<lambda>f. s\<lparr>vs_deliveries := row_mod vd_speech speech f (vs_deliveries s)\<rparr>) in
          if n = ''enqueued'' then Inr (put (\<lambda>x. x\<lparr>vd_playback := Enqueued\<rparr>), Some Enqueued)
          else if n = ''started'' then Inr (put (\<lambda>x. x\<lparr>vd_playback := Speaking\<rparr>), Some Speaking)
          else if n \<in> {''played'', ''finished''} then
            Inr (put (\<lambda>x. x\<lparr>vd_playback := Played,
              vd_ended := (case vd_ended x of Some t \<Rightarrow> Some t | None \<Rightarrow> Some now)\<rparr>), Some Played)
          else if n \<in> {''interrupted'', ''failed''} then
            let p = (if n = ''interrupted'' then Interrupted else Failed_speech);
                s1 = put (\<lambda>x. x\<lparr>vd_playback := p,
                  vd_interrupted := (case vd_interrupted x of Some t \<Rightarrow> Some t | None \<Rightarrow> Some now)\<rparr>)
            in Inr (set_result (vr_id r) (\<lambda>x. if vr_status x = Delivered then x\<lparr>vr_status := Ready\<rparr> else x) s1, Some p)
          else Inl (App_error 422 ''invalid_speech_delivery_state'')))"

definition release_delivery :: "nat \<Rightarrow> nat \<Rightarrow> string \<Rightarrow> vstate \<Rightarrow> (vstate \<times> vresult) result" where
  "release_delivery voice i key s = bind_r (get_result voice i s) (\<lambda>r.
     case delivery_by_key key s of
       None \<Rightarrow> Inr (s, r)
     | Some d \<Rightarrow>
         if vd_result d \<noteq> i then Inr (s, r)
         else
           let f = (\<lambda>x. if vr_status x \<in> {Delivered, Failed_result}
                 then x\<lparr>vr_status := (if vd_before d \<in> {Ready, Failed_result, Stale} then vd_before d else Ready),
                   vr_delivered := None\<rparr> else x)
           in Inr (drop_delivery d (set_result i f s), f r))"

definition dismiss_result :: "nat \<Rightarrow> nat \<Rightarrow> instant \<Rightarrow> vstate \<Rightarrow> (vstate \<times> vresult) result" where
  "dismiss_result voice i now s = bind_r (get_result voice i s) (\<lambda>r.
     if vr_status r \<in> {Ready, Stale}
     then let f = (\<lambda>x. x\<lparr>vr_status := Dismissed, vr_dismissed := Some now\<rparr>)
       in Inr (set_result i f s, f r)
     else Inr (s, r))"

end
