(* ===== verification/Voice_Facts.thy ===== *)
theory Voice_Facts
  imports Voice_Results
begin

text \<open>
  The voice result inbox over every sequence of calls: an outcome is captured once, a result belongs to
  one version of one link, it is handed out once at a time, and only while it answers the current
  requirement.
\<close>

section \<open>Calls in any order\<close>

datatype v_op =
  Reserve reservation
| Approve nat string instant
| Reject nat string string instant
| Complete_link nat string string "string option" string
| Request_cancel nat string string instant
| Acknowledge_cancel nat string snapshot_view instant
| Revise nat string string "string option" string instant
| Supersede nat string string instant
| Complete_revision nat string snapshot_view instant
| Capture vtask instant
| Deliver nat nat string instant
| Update_speech nat nat string instant
| Release_delivery nat nat string
| Dismiss_result nat nat instant

definition with_link :: "nat \<Rightarrow> string \<Rightarrow> vstate \<Rightarrow> (vlink \<Rightarrow> vstate) \<Rightarrow> vstate" where
  "with_link voice sub s f = (case required_link voice sub s of Inl e \<Rightarrow> s | Inr l \<Rightarrow> f l)"

definition ok_state :: "vstate \<Rightarrow> (vstate \<times> 'a) result \<Rightarrow> vstate" where
  "ok_state s r = (case r of Inl e \<Rightarrow> s | Inr x \<Rightarrow> fst x)"

fun v_step :: "(nat \<Rightarrow> string) \<Rightarrow> vstate \<Rightarrow> v_op \<Rightarrow> vstate" where
  "v_step uuid s (Reserve r) = ok_state s (reserve_link uuid r s)"
| "v_step uuid s (Approve v sub now) = with_link v sub s (\<lambda>l. fst (approve_link l now s))"
| "v_step uuid s (Reject v sub why now) = with_link v sub s (\<lambda>l. ok_state s (reject_link l why now s))"
| "v_step uuid s (Complete_link v sub new job st) = with_link v sub s (\<lambda>l. complete_link l new job st s)"
| "v_step uuid s (Request_cancel v sub why now) = with_link v sub s (\<lambda>l. request_cancel l why now s)"
| "v_step uuid s (Acknowledge_cancel v sub w now) = with_link v sub s (\<lambda>l. acknowledge_cancel l w now s)"
| "v_step uuid s (Revise v sub p t n now) = with_link v sub s (\<lambda>l. revise_requirement l p t n now s)"
| "v_step uuid s (Supersede v sub st now) = with_link v sub s (\<lambda>l. mark_cancel_superseded l st now s)"
| "v_step uuid s (Complete_revision v sub w now) = with_link v sub s (\<lambda>l. complete_revision l w now s)"
| "v_step uuid s (Capture t now) = fst (capture_outcome t now s)"
| "v_step uuid s (Deliver v i key now) = (if key = [] then s else fst (deliver_result v i key now s))"
| "v_step uuid s (Update_speech v sp st now) = ok_state s (update_speech v sp st now s)"
| "v_step uuid s (Release_delivery v i key) = ok_state s (release_delivery v i key s)"
| "v_step uuid s (Dismiss_result v i now) = ok_state s (dismiss_result v i now s)"

section \<open>The invariant\<close>

text \<open>A result and the link it came from.\<close>

definition answers :: "vlink list \<Rightarrow> vresult \<Rightarrow> bool" where
  "answers ls r \<longleftrightarrow> (\<exists>l \<in> set ls. vl_id l = vr_link r \<and> 1 \<le> vr_requirement r \<and>
     vr_requirement r \<le> vl_requirement l \<and> 1 \<le> vr_version r \<and> vr_version r \<le> vl_result_version l)"

definition links_ok :: "vstate \<Rightarrow> bool" where
  "links_ok s \<longleftrightarrow> distinct (map vl_id (vs_links s)) \<and>
     (\<forall>l \<in> set (vs_links s). vl_id l < vs_next s \<and> 1 \<le> vl_requirement l \<and> 0 \<le> vl_result_version l)"

definition results_ok :: "vstate \<Rightarrow> bool" where
  "results_ok s \<longleftrightarrow> distinct (map vr_id (vs_results s)) \<and> distinct (map vr_print (vs_results s)) \<and>
     distinct (map (\<lambda>r. (vr_link r, vr_version r)) (vs_results s)) \<and>
     (\<forall>r \<in> set (vs_results s). vr_id r < vs_next s \<and> answers (vs_links s) r)"

definition deliveries_ok :: "vstate \<Rightarrow> bool" where
  "deliveries_ok s \<longleftrightarrow> distinct (map vd_result (vs_deliveries s)) \<and>
     distinct (map vd_key (vs_deliveries s)) \<and> distinct (map vd_speech (vs_deliveries s)) \<and>
     (\<forall>d \<in> set (vs_deliveries s). vd_speech d < vs_next s \<and> vd_result d \<in> vr_id ` set (vs_results s))"

definition v_inv :: "vstate \<Rightarrow> bool" where
  "v_inv s \<longleftrightarrow> links_ok s \<and> results_ok s \<and> deliveries_ok s"

text \<open>Changes of a link that keep its id and never turn its versions back.\<close>

definition link_grows :: "(vlink \<Rightarrow> vlink) \<Rightarrow> bool" where
  "link_grows f \<longleftrightarrow> (\<forall>l. vl_id (f l) = vl_id l \<and> vl_requirement l \<le> vl_requirement (f l) \<and>
     vl_result_version l \<le> vl_result_version (f l))"

lemma answers_mod:
  assumes "answers ls r" and "link_grows f"
  shows "answers (row_mod vl_id i f ls) r"
proof -
  from assms(1) obtain l where l: "l \<in> set ls" "vl_id l = vr_link r" "1 \<le> vr_requirement r"
    "vr_requirement r \<le> vl_requirement l" "1 \<le> vr_version r" "vr_version r \<le> vl_result_version l"
    by (auto simp: answers_def)
  let ?l = "if vl_id l = i then f l else l"
  have "?l \<in> set (row_mod vl_id i f ls)" using l(1) by (auto simp: row_mod_def)
  moreover have "vl_id ?l = vl_id l" "vl_requirement l \<le> vl_requirement ?l"
    "vl_result_version l \<le> vl_result_version ?l" using assms(2) by (simp_all add: link_grows_def)
  ultimately show ?thesis using l(2-) by (auto simp: answers_def intro!: bexI [of _ ?l])
qed

lemma row_mod_ids:
  assumes "link_grows f" shows "map vl_id (row_mod vl_id i f ls) = map vl_id ls"
  using assms by (intro row_mod_keys) (simp add: link_grows_def)

lemma set_link_inv:
  assumes "v_inv s" and "link_grows f"
  shows "v_inv (set_link i f s)"
proof -
  have "vl_id l < vs_next s \<and> 1 \<le> vl_requirement l \<and> 0 \<le> vl_result_version l"
    if "l \<in> set (row_mod vl_id i f (vs_links s))" for l
  proof -
    from set_row_mod [OF that] obtain l0 where l0: "l0 \<in> set (vs_links s)" "l = (if vl_id l0 = i then f l0 else l0)"
      by blast
    then have "vl_id l0 < vs_next s" "1 \<le> vl_requirement l0" "0 \<le> vl_result_version l0"
      using assms(1) by (auto simp: v_inv_def links_ok_def)
    moreover have "vl_id (f l0) = vl_id l0" "vl_requirement l0 \<le> vl_requirement (f l0)"
      "vl_result_version l0 \<le> vl_result_version (f l0)" using assms(2) by (simp_all add: link_grows_def)
    ultimately show ?thesis using l0(2) by auto
  qed
  with assms row_mod_ids [OF assms(2)] answers_mod [OF _ assms(2)] show ?thesis
    by (simp add: v_inv_def links_ok_def results_ok_def deliveries_ok_def set_link_def)
qed

text \<open>Changes of results that keep what the invariant reads.\<close>

definition result_stays :: "(vresult \<Rightarrow> vresult) \<Rightarrow> bool" where
  "result_stays f \<longleftrightarrow> (\<forall>r. vr_id (f r) = vr_id r \<and> vr_print (f r) = vr_print r \<and> vr_link (f r) = vr_link r \<and>
     vr_version (f r) = vr_version r \<and> vr_requirement (f r) = vr_requirement r)"

lemma map_results_inv:
  assumes "v_inv s" and "result_stays f"
  shows "v_inv (s\<lparr>vs_results := map f (vs_results s)\<rparr>)"
proof -
  have "vr_id \<circ> f = vr_id" "vr_print \<circ> f = vr_print" "(\<lambda>r. (vr_link r, vr_version r)) \<circ> f = (\<lambda>r. (vr_link r, vr_version r))"
    using assms(2) by (auto simp: result_stays_def)
  moreover have "answers ls (f r) = answers ls r" for ls r
    using assms(2) by (simp add: answers_def result_stays_def)
  moreover have "vr_id ` f ` X = vr_id ` X" for X
    using assms(2) by (simp add: result_stays_def image_image)
  ultimately show ?thesis
    using assms by (simp add: v_inv_def links_ok_def results_ok_def deliveries_ok_def result_stays_def)
qed

lemma set_result_inv:
  assumes "v_inv s" and "result_stays f"
  shows "v_inv (set_result i f s)"
proof -
  have "result_stays (\<lambda>r. if vr_id r = i then f r else r)" using assms(2) by (simp add: result_stays_def)
  from map_results_inv [OF assms(1) this] show ?thesis by (simp add: set_result_def row_mod_def)
qed

section \<open>Every call keeps it\<close>

lemma required_linkD: "required_link v sub s = Inr l \<Longrightarrow> l \<in> set (vs_links s) \<and> vl_voice l = v \<and> vl_subagent l = sub"
  by (auto simp: required_link_def find_link_def find_Some_iff split: option.splits)

lemma same_row:
  assumes "v_inv s" and "l \<in> set (vs_links s)" and "x \<in> set (vs_links s)" and "vl_id x = vl_id l"
  shows "x = l"
  using assms by (auto simp: v_inv_def links_ok_def distinct_map dest: inj_onD)

lemma row_mod_cong:
  "(\<And>x. x \<in> set xs \<Longrightarrow> key x = k \<Longrightarrow> f x = g x) \<Longrightarrow> row_mod key k f xs = row_mod key k g xs"
  by (auto simp: row_mod_def)

lemma reserve_inv:
  assumes "v_inv s"
  shows "v_inv (ok_state s (reserve_link uuid r s))"
proof (cases "reserve_link uuid r s")
  case (Inr x)
  obtain s' l b where x: "x = (s', l, b)" by (cases x)
  from Inr x have "s' = s \<or> (s' = s\<lparr>vs_links := vs_links s @ [l], vs_next := Suc (vs_next s)\<rparr> \<and>
      vl_id l = vs_next s \<and> 1 \<le> vl_requirement l \<and> vl_result_version l = 0)"
    by (auto simp: reserve_link_def Let_def split: option.splits)
  moreover have "vs_next s \<notin> vl_id ` set (vs_links s)" using assms by (auto simp: v_inv_def links_ok_def)
  ultimately show ?thesis
    using assms by (auto simp: Inr x ok_state_def v_inv_def links_ok_def results_ok_def deliveries_ok_def
        answers_def less_Suc_eq)
qed (simp add: ok_state_def assms)

lemma approve_inv: "v_inv s \<Longrightarrow> v_inv (fst (approve_link l now s))"
  by (auto simp: approve_link_def link_grows_def intro: set_link_inv)

lemma reject_inv: "v_inv s \<Longrightarrow> v_inv (ok_state s (reject_link l why now s))"
  by (auto simp: reject_link_def ok_state_def require_def Let_def link_grows_def intro: set_link_inv)

lemma link_calls_inv:
  assumes "v_inv s"
  shows "v_inv (complete_link l new job st s)" "v_inv (request_cancel l why now s)"
    "v_inv (acknowledge_cancel l w now s)" "v_inv (mark_cancel_superseded l st now s)"
    "v_inv (complete_revision l w now s)"
  using assms
  by (auto simp: complete_link_def request_cancel_def acknowledge_cancel_def mark_cancel_superseded_def
      complete_revision_def observe_task_def Let_def link_grows_def intro: set_link_inv)

lemma revise_inv:
  assumes "v_inv s" and "l \<in> set (vs_links s)"
  shows "v_inv (revise_requirement l p t n now s)"
proof -
  let ?k = "max 1 (vl_requirement l) + 1"
  define f where "f x = x\<lparr>vl_requirement := max ?k (vl_requirement x), vl_prompt := p,
    vl_title := (case t of None \<Rightarrow> vl_title x | Some t \<Rightarrow> t), vl_status := ''revision_pending'',
    vl_cancel_requested := Some now, vl_cancel_ack := None,
    vl_checkpoint := noted [(''phase'', JStr ''superseded''), (''note'', JStr (take 500 n)),
      (''requested_at'', JInt now), (''previous_requirement_version'', JInt (?k - 1))]
      (vl_checkpoint x)\<rparr>" for x :: vlink
  define g where "g r = (if vr_link r = vl_id l \<and> vr_requirement r < ?k \<and> vr_status r \<in> {Pending_result, Ready}
    then r\<lparr>vr_status := Stale, vr_stale := Some now\<rparr> else r)" for r :: vresult
  define F where "F x = x\<lparr>vl_requirement := ?k, vl_prompt := p,
    vl_title := (case t of None \<Rightarrow> vl_title x | Some t \<Rightarrow> t), vl_status := ''revision_pending'',
    vl_cancel_requested := Some now, vl_cancel_ack := None,
    vl_checkpoint := noted [(''phase'', JStr ''superseded''), (''note'', JStr (take 500 n)),
      (''requested_at'', JInt now), (''previous_requirement_version'', JInt (?k - 1))]
      (vl_checkpoint x)\<rparr>" for x :: vlink
  have "F x = f x" if "x \<in> set (vs_links s)" "vl_id x = vl_id l" for x
    using same_row [OF assms that] by (simp add: F_def f_def)
  then have "row_mod vl_id (vl_id l) F (vs_links s) = row_mod vl_id (vl_id l) f (vs_links s)"
    by (rule row_mod_cong)
  then have "revise_requirement l p t n now s =
      (set_link (vl_id l) f s)\<lparr>vs_results := map g (vs_results (set_link (vl_id l) f s))\<rparr>"
    unfolding revise_requirement_def Let_def F_def [symmetric] g_def [symmetric] by (simp add: set_link_def)
  moreover have "link_grows f" "result_stays g" by (auto simp: link_grows_def result_stays_def f_def g_def)
  ultimately show ?thesis using map_results_inv [OF set_link_inv [OF assms(1)]] by simp
qed

lemma capture_inv:
  assumes "v_inv s"
  shows "v_inv (fst (capture_outcome t now s))"
proof (cases "link_of_task t s")
  case None
  with assms show ?thesis by (simp add: capture_outcome_def)
next
  case (Some l)
  then have l: "l \<in> set (vs_links s)" by (auto simp: link_of_task_def find_Some_iff)
  have seen: "v_inv (set_link (vl_id l) (observe_task (vt_status t) (vt_seq t)) s)"
    using assms by (rule set_link_inv) (simp add: link_grows_def observe_task_def)
  show ?thesis
  proof (cases "vt_status t \<in> set terminal_statuses \<and> row_get vr_print (task_fingerprint t) (vs_results s) = None")
    case False
    with Some seen show ?thesis by (auto simp: capture_outcome_def split: option.splits)
  next
    case True
    let ?r = "new_result l t (vs_next s)"
    let ?s = "set_link (vl_id l) (captured_link t now) s"
    have grows: "link_grows (captured_link t now)"
      by (auto simp: link_grows_def captured_link_def observe_task_def Let_def)
    have inv: "v_inv ?s" using assms grows by (rule set_link_inv)
    have st: "fst (capture_outcome t now s) = ?s\<lparr>vs_results := vs_results s @ [?r], vs_next := Suc (vs_next s)\<rparr>"
      using Some True by (simp add: capture_outcome_def Let_def)
    have r: "vr_id ?r = vs_next s" "vr_link ?r = vl_id l" "vr_print ?r = task_fingerprint t"
      "vr_requirement ?r = max 1 (vl_requirement l)" "vr_version ?r = max 0 (vl_result_version l) + 1"
      by (simp_all add: new_result_def split: prod.split)
    have lv: "1 \<le> vl_requirement l" "0 \<le> vl_result_version l"
      using assms l by (auto simp: v_inv_def links_ok_def)
    have "captured_link t now l \<in> set (vs_links ?s)"
      using l by (auto simp: set_link_def row_mod_def)
    moreover have c: "vl_id (captured_link t now l) = vl_id l" "vl_requirement (captured_link t now l) = vl_requirement l"
      "vl_result_version (captured_link t now l) = max 0 (vl_result_version l) + 1"
      by (simp_all add: captured_link_def observe_task_def Let_def)
    ultimately have ans: "answers (vs_links ?s) ?r"
      using lv unfolding answers_def by (intro bexI [of _ "captured_link t now l"]) (simp_all add: r c)
    have new: "(vl_id l, max 0 (vl_result_version l) + 1) \<noteq> (vr_link x, vr_version x)"
      if "x \<in> set (vs_results s)" for x
    proof
      assume eq: "(vl_id l, max 0 (vl_result_version l) + 1) = (vr_link x, vr_version x)"
      from assms that obtain y where y: "y \<in> set (vs_links s)" "vl_id y = vr_link x" "vr_version x \<le> vl_result_version y"
        by (auto simp: v_inv_def results_ok_def answers_def)
      with same_row [OF assms l y(1)] eq lv show False by simp
    qed
    have fresh: "vs_next s \<notin> vr_id ` set (vs_results s)" "task_fingerprint t \<notin> vr_print ` set (vs_results s)"
      using assms True by (auto simp: v_inv_def results_ok_def row_get_None_iff)
    have "results_ok (fst (capture_outcome t now s))"
      using inv ans new fresh unfolding st
      by (auto simp: v_inv_def results_ok_def r less_Suc_eq set_link_def)
    moreover have "links_ok (fst (capture_outcome t now s))" "deliveries_ok (fst (capture_outcome t now s))"
      using inv unfolding st by (auto simp: v_inv_def links_ok_def deliveries_ok_def set_link_def)
    ultimately show ?thesis by (simp add: v_inv_def)
  qed
qed

lemma distinct_filter_map: "distinct (map f xs) \<Longrightarrow> distinct (map f (filter P xs))"
  by (induction xs) auto

lemma drop_inv: "v_inv s \<Longrightarrow> v_inv (drop_delivery d s)"
  by (auto simp: v_inv_def links_ok_def results_ok_def deliveries_ok_def drop_delivery_def row_del_def
      distinct_filter_map)

lemma drop_fields [simp]:
  "vs_results (drop_delivery d s) = vs_results s" "vs_links (drop_delivery d s) = vs_links s"
  "vs_next (drop_delivery d s) = vs_next s"
  "vs_deliveries (drop_delivery d s) = filter (\<lambda>x. vd_result x \<noteq> vd_result d) (vs_deliveries s)"
  by (simp_all add: drop_delivery_def row_del_def)

lemma claim_speech_inv:
  assumes "v_inv s" and "vr_id r \<in> vr_id ` set (vs_results s)"
    and "vr_id r \<notin> vd_result ` set (vs_deliveries s)" and "key \<notin> vd_key ` set (vs_deliveries s)"
  shows "v_inv (fst (claim_speech r key now s))"
proof -
  let ?f = "\<lambda>x. x\<lparr>vr_status := (if vr_status x \<in> {Failed_result, Stale} then vr_status x else Delivered),
    vr_delivered := (case vr_delivered x of Some t \<Rightarrow> Some t | None \<Rightarrow> Some now)\<rparr>"
  have inv: "v_inv (set_result (vr_id r) ?f s)" using assms(1) by (rule set_result_inv) (simp add: result_stays_def)
  have ids: "vr_id ` set (row_mod vr_id (vr_id r) ?f (vs_results s)) = vr_id ` set (vs_results s)"
    using arg_cong [OF row_mod_keys [of vr_id "vr_id r" vr_id ?f "vs_results s"], of set] by simp
  have "vs_next s \<notin> vd_speech ` set (vs_deliveries s)" using assms(1) by (auto simp: v_inv_def deliveries_ok_def)
  then show ?thesis
    using inv assms(2-4) ids
    by (auto simp: claim_speech_def Let_def v_inv_def links_ok_def results_ok_def deliveries_ok_def set_result_def
        less_Suc_eq)
qed

lemma deliver_fresh_inv:
  assumes "v_inv s" and "vr_id r \<in> vr_id ` set (vs_results s)" and "key \<notin> vd_key ` set (vs_deliveries s)"
  shows "v_inv (fst (deliver_fresh r key now s))"
proof (cases "row_get vd_result (vr_id r) (vs_deliveries s)")
  case None
  then have "vr_id r \<notin> vd_result ` set (vs_deliveries s)" by (simp add: row_get_None_iff)
  from claim_speech_inv [OF assms(1,2) this assms(3)] None show ?thesis
    by (simp add: deliver_fresh_def split_beta)
next
  case (Some d)
  from row_get_key [OF Some] have d: "vd_result d = vr_id r" .
  have "v_inv (fst (claim_speech r key now (drop_delivery d s)))"
    using assms d by (intro claim_speech_inv drop_inv) auto
  with Some assms(1) show ?thesis by (simp add: deliver_fresh_def split_beta)
qed

lemma get_resultD: "get_result v i s = Inr r \<Longrightarrow> r \<in> set (vs_results s) \<and> vr_id r = i \<and> vr_voice r = v"
  by (auto simp: get_result_def find_Some_iff split: option.splits)

lemma by_keyD: "delivery_by_key key s = Some d \<Longrightarrow> d \<in> set (vs_deliveries s) \<and> vd_key d = key"
  using row_get_SomeD [of vd_key key "vs_deliveries s" d] by (auto simp: delivery_by_key_def split: if_splits)

lemma dropped_key:
  assumes "v_inv s" and "delivery_by_key key s = Some d"
  shows "key \<notin> vd_key ` set (vs_deliveries (drop_delivery d s))"
proof
  assume "key \<in> vd_key ` set (vs_deliveries (drop_delivery d s))"
  then obtain x where x: "x \<in> set (vs_deliveries s)" "vd_key x = key" "vd_result x \<noteq> vd_result d" by auto
  from by_keyD [OF assms(2)] assms(1) x have "x = d"
    by (auto simp: v_inv_def deliveries_ok_def distinct_map dest: inj_onD)
  with x show False by simp
qed

lemma deliver_inv:
  assumes "v_inv s" and "key \<noteq> []"
  shows "v_inv (fst (deliver_result v i key now s))"
proof (cases "get_result v i s")
  case (Inl e)
  with assms(1) show ?thesis by (simp add: deliver_result_def)
next
  case (Inr r)
  from get_resultD [OF Inr] have r: "vr_id r \<in> vr_id ` set (vs_results s)" by auto
  have stale: "v_inv (set_result i (\<lambda>x. x\<lparr>vr_status := Stale, vr_stale := Some now\<rparr>) s)"
    using assms(1) by (rule set_result_inv) (simp add: result_stays_def)
  show ?thesis
  proof (cases "delivery_by_key key s")
    case None
    then have "key \<notin> vd_key ` set (vs_deliveries s)"
      using assms(2) by (simp add: delivery_by_key_def row_get_None_iff)
    from deliver_fresh_inv [OF assms(1) r this, of now] None stale assms(1) show ?thesis
      by (simp add: deliver_result_def Inr Let_def split_beta)
  next
    case (Some d)
    have "v_inv (fst (deliver_fresh r key now (drop_delivery d s)))"
      using drop_inv [OF assms(1), of d] r dropped_key [OF assms(1) Some] by (intro deliver_fresh_inv) simp_all
    with Some stale assms(1) show ?thesis
      by (simp add: deliver_result_def Inr Let_def split_beta)
  qed
qed

lemma map_deliveries_inv:
  assumes "v_inv s" and f: "\<And>d. vd_result (f d) = vd_result d" "\<And>d. vd_key (f d) = vd_key d"
    "\<And>d. vd_speech (f d) = vd_speech d"
  shows "v_inv (s\<lparr>vs_deliveries := row_mod vd_speech k f (vs_deliveries s)\<rparr>)"
proof -
  have "vd_speech d < vs_next s \<and> vd_result d \<in> vr_id ` set (vs_results s)"
    if "d \<in> set (row_mod vd_speech k f (vs_deliveries s))" for d
    using set_row_mod [OF that] assms(1) f by (auto simp: v_inv_def deliveries_ok_def)
  with assms(1) row_mod_keys [of vd_speech k vd_result f, OF f(1)] row_mod_keys [of vd_speech k vd_key f, OF f(2)]
    row_mod_keys [of vd_speech k vd_speech f, OF f(3)] show ?thesis
    by (simp add: v_inv_def links_ok_def results_ok_def deliveries_ok_def)
qed

lemma update_speech_inv:
  assumes "v_inv s"
  shows "v_inv (ok_state s (update_speech v sp st now s))"
proof -
  have returned: "v_inv (set_result i (\<lambda>x. if vr_status x = Delivered then x\<lparr>vr_status := Ready\<rparr> else x)
      (s\<lparr>vs_deliveries := row_mod vd_speech sp f (vs_deliveries s)\<rparr>))"
    if "\<And>d. vd_result (f d) = vd_result d" "\<And>d. vd_key (f d) = vd_key d" "\<And>d. vd_speech (f d) = vd_speech d" for i f
    using map_deliveries_inv [OF assms that] by (rule set_result_inv) (simp add: result_stays_def)
  show ?thesis
    using assms unfolding update_speech_def Let_def
    by (auto simp: ok_state_def bind_r_def split: option.splits sum.splits if_splits
        intro!: map_deliveries_inv returned)
qed

lemma release_inv: "v_inv s \<Longrightarrow> v_inv (ok_state s (release_delivery v i key s))"
  by (auto simp: release_delivery_def ok_state_def bind_r_def Let_def result_stays_def
      split: option.splits sum.splits if_splits intro!: drop_inv set_result_inv)

lemma dismiss_inv: "v_inv s \<Longrightarrow> v_inv (ok_state s (dismiss_result v i now s))"
  by (auto simp: dismiss_result_def ok_state_def bind_r_def Let_def result_stays_def
      split: sum.splits if_splits intro!: set_result_inv)

lemma v_step_inv:
  assumes "v_inv s"
  shows "v_inv (v_step uuid s e)"
proof -
  have link: "v_inv (with_link v sub s f)"
    if "\<And>l. l \<in> set (vs_links s) \<Longrightarrow> v_inv (f l)" for v sub f
    using that assms required_linkD [of v sub s] by (auto simp: with_link_def split: sum.split)
  show ?thesis
    using assms
    by (cases e) (auto intro!: link simp: reserve_inv approve_inv reject_inv link_calls_inv revise_inv capture_inv
        deliver_inv update_speech_inv release_inv dismiss_inv)
qed

interpretation voice_machine: step_machine "v_step uuid" v_inv for uuid
  by unfold_locales (rule v_step_inv)

definition empty_voice :: vstate where
  "empty_voice = \<lparr>vs_links = [], vs_results = [], vs_deliveries = [], vs_next = 0\<rparr>"

lemma empty_voice_inv: "v_inv empty_voice"
  by (simp add: v_inv_def links_ok_def results_ok_def deliveries_ok_def empty_voice_def)

text \<open>
  The inbox is consistent after every sequence of calls. Every result answers a link that exists, for
  a requirement version that link has had and under a result version of its own; no task outcome is
  captured twice; and a result has at most one delivery, under a request id and a speech id that no
  other delivery has.
\<close>

lemma voice_inbox_invariant:
  "let s = foldl (v_step uuid) empty_voice es in
     distinct (map vr_print (vs_results s)) \<and> distinct (map (\<lambda>r. (vr_link r, vr_version r)) (vs_results s)) \<and>
     list_all (answers (vs_links s)) (vs_results s) \<and>
     distinct (map vd_result (vs_deliveries s)) \<and> distinct (map vd_key (vs_deliveries s)) \<and>
     distinct (map vd_speech (vs_deliveries s)) \<and>
     list_all (\<lambda>d. vd_result d \<in> vr_id ` set (vs_results s)) (vs_deliveries s)"
  using voice_machine.run_inv [OF empty_voice_inv, of uuid es]
  by (auto simp: Let_def v_inv_def results_ok_def deliveries_ok_def list_all_iff)

section \<open>Outcomes are captured once\<close>

definition prints :: "vstate \<Rightarrow> (fingerprint \<times> nat) list" where
  "prints s = map (\<lambda>r. (vr_print r, vr_id r)) (vs_results s)"

definition keeps_prints :: "vstate \<Rightarrow> vstate \<Rightarrow> bool" where
  "keeps_prints s s' \<longleftrightarrow> (\<exists>more. prints s' = prints s @ more)"

lemma keeps_refl [simp]: "keeps_prints s s"
  by (simp add: keeps_prints_def)

lemma keeps_trans: "keeps_prints s s' \<Longrightarrow> keeps_prints s' s'' \<Longrightarrow> keeps_prints s s''"
  by (auto simp: keeps_prints_def)

lemma prints_set_link [simp]: "prints (set_link i f s) = prints s"
  by (simp add: prints_def set_link_def)

lemma prints_drop [simp]: "prints (drop_delivery d s) = prints s"
  by (simp add: prints_def)

lemma prints_fields [simp]:
  "prints (s\<lparr>vs_deliveries := ds\<rparr>) = prints s" "prints (s\<lparr>vs_next := n\<rparr>) = prints s"
  "prints (s\<lparr>vs_links := ls\<rparr>) = prints s"
  by (simp_all add: prints_def)

lemma prints_map: "result_stays f \<Longrightarrow> prints (s\<lparr>vs_results := map f (vs_results s)\<rparr>) = prints s"
  by (simp add: prints_def result_stays_def)

lemma prints_set_result: "result_stays f \<Longrightarrow> prints (set_result i f s) = prints s"
  using prints_map [of "\<lambda>r. if vr_id r = i then f r else r" s]
  by (simp add: set_result_def row_mod_def result_stays_def)

lemma prints_claim: "prints (fst (claim_speech r key now s)) = prints s"
  by (simp add: claim_speech_def Let_def prints_set_result result_stays_def)

lemma prints_deliver: "prints (fst (deliver_result v i key now s)) = prints s"
  by (simp add: deliver_result_def deliver_fresh_def Let_def prints_set_result result_stays_def split_beta prints_claim
      split: sum.split option.split)

lemma prints_revise: "prints (revise_requirement l p t n now s) = prints s"
  by (simp add: revise_requirement_def Let_def prints_def set_link_def)

lemma step_keeps_prints: "keeps_prints s (v_step uuid s e)"
proof -
  have link: "prints (with_link v sub s f) = prints s" if "\<And>l. prints (f l) = prints s" for v sub f
    using that by (simp add: with_link_def split: sum.split)
  have same: "prints s' = prints s \<Longrightarrow> keeps_prints s s'" for s' by (simp add: keeps_prints_def)
  show ?thesis
  proof (cases e)
    case (Reserve r)
    then show ?thesis
      by (auto simp: ok_state_def reserve_link_def Let_def require_def intro!: same split: option.splits sum.splits)
  next
    case (Capture t now)
    then show ?thesis
      by (auto simp: capture_outcome_def Let_def keeps_prints_def prints_def set_link_def split: option.splits)
  next
    case (Update_speech v sp st now)
    then show ?thesis
      by (auto simp: ok_state_def update_speech_def bind_r_def Let_def prints_set_result result_stays_def
          intro!: same split: option.splits sum.splits if_splits)
  next
    case (Release_delivery v i key)
    then show ?thesis
      by (auto simp: ok_state_def release_delivery_def bind_r_def Let_def prints_set_result result_stays_def
          intro!: same split: option.splits sum.splits if_splits)
  next
    case (Dismiss_result v i now)
    then show ?thesis
      by (auto simp: ok_state_def dismiss_result_def bind_r_def Let_def prints_set_result result_stays_def
          intro!: same split: sum.splits if_splits)
  qed (auto intro!: same link simp: approve_link_def reject_link_def ok_state_def require_def Let_def complete_link_def
      request_cancel_def acknowledge_cancel_def prints_revise mark_cancel_superseded_def complete_revision_def prints_deliver)
qed

lemma run_keeps_prints: "keeps_prints s (foldl (v_step uuid) s es)"
  by (induction es arbitrary: s) (auto intro: keeps_trans step_keeps_prints)

lemma found_print: "map_option vr_id (row_get vr_print p (vs_results s)) = map_of (prints s) p"
proof -
  have "map_option vr_id (row_get vr_print p rs) = map_of (map (\<lambda>r. (vr_print r, vr_id r)) rs) p" for rs
    by (induction rs) auto
  then show ?thesis by (simp add: prints_def)
qed

text \<open>
  An outcome is captured once. When a task's outcome has been captured, then after any further calls
  a poll, a reconnect or the scheduler capturing the same outcome again adds no result: it answers with
  the row that is there, or with nothing when the link has moved on to another task.
\<close>

lemma outcome_captured_once:
  assumes "capture_outcome t now s = (s1, Some r)"
    and "capture_outcome t now' (foldl (v_step uuid) s1 es) = (s2, r')"
  shows "length (vs_results s2) = length (vs_results (foldl (v_step uuid) s1 es)) \<and>
    (r' = None \<or> map_option vr_id r' = Some (vr_id r))"
proof -
  let ?s = "foldl (v_step uuid) s1 es"
  from assms(1) have "map_option vr_id (row_get vr_print (task_fingerprint t) (vs_results s1)) = Some (vr_id r)"
    by (auto simp: capture_outcome_def Let_def row_get_append set_link_def new_result_def
        split: option.splits if_splits prod.splits)
  then have "map_of (prints s1) (task_fingerprint t) = Some (vr_id r)" by (simp add: found_print)
  moreover obtain more where "prints ?s = prints s1 @ more"
    using run_keeps_prints [of s1 uuid es] by (auto simp: keeps_prints_def)
  ultimately have "map_of (prints ?s) (task_fingerprint t) = Some (vr_id r)"
    by (simp add: map_add_dom_app_simps(1) domI)
  then obtain q where "row_get vr_print (task_fingerprint t) (vs_results ?s) = Some q" "vr_id q = vr_id r"
    by (auto simp: found_print [symmetric])
  with assms(2) show ?thesis
    by (auto simp: capture_outcome_def set_link_def split: option.splits if_splits)
qed

text \<open>A research task of session 1 and its outcome.\<close>

definition example_reservation :: reservation where
  "example_reservation = \<lparr>rv_voice = 1, rv_chat = 1, rv_prompt = ''p'', rv_title = ''t'', rv_role = Some ''research'',
     rv_key = Some ''k'', rv_requirement = 1, rv_tools = None, rv_status = ''creating'', rv_approval = ''none'',
     rv_approval_end = None\<rparr>"

definition example_task :: "string \<Rightarrow> vtask" where
  "example_task status = \<lparr>vt_id = ''job'', vt_status = status, vt_reason = [], vt_seq = 3, vt_finished = Some 5,
     vt_text = ''done'', vt_deliverables = []\<rparr>"

definition started_voice :: vstate where
  "started_voice = foldl (v_step (\<lambda>_. ''u'')) empty_voice
     [Reserve example_reservation, Complete_link 1 ''pending_u'' ''job'' None ''RUNNING'']"

section \<open>Deliveries\<close>

definition handed_out :: "instant \<Rightarrow> vresult \<Rightarrow> vresult" where
  "handed_out now x = x\<lparr>vr_status := (if vr_status x \<in> {Failed_result, Stale} then vr_status x else Delivered),
     vr_delivered := (case vr_delivered x of Some t \<Rightarrow> Some t | None \<Rightarrow> Some now)\<rparr>"

definition outdated :: "vstate \<Rightarrow> vresult \<Rightarrow> bool" where
  "outdated s r \<longleftrightarrow> vr_status r = Stale \<or> (\<exists>l \<in> set_option (row_get vl_id (vr_link r) (vs_links s)).
     vr_requirement r < (if vl_requirement l = 0 then 1 else vl_requirement l))"

lemma claim_speech_eq: "claim_speech r key now s =
  ((set_result (vr_id r) (handed_out now) s)
      \<lparr>vs_deliveries := vs_deliveries s @ [\<lparr>vd_voice = vr_voice r, vd_result = vr_id r,
        vd_requirement = vr_requirement r, vd_version = vr_version r, vd_key = key, vd_speech = vs_next s,
        vd_playback = Claimed_speech, vd_before = vr_status r, vd_interrupted = None, vd_ended = None\<rparr>],
       vs_next := Suc (vs_next s)\<rparr>,
   handed_out now r,
   \<lparr>vd_voice = vr_voice r, vd_result = vr_id r, vd_requirement = vr_requirement r, vd_version = vr_version r,
     vd_key = key, vd_speech = vs_next s, vd_playback = Claimed_speech, vd_before = vr_status r,
     vd_interrupted = None, vd_ended = None\<rparr>)"
  by (simp add: claim_speech_def handed_out_def [abs_def] Let_def)

lemma deliver_fresh_made:
  assumes "deliver_fresh r key now s = (s1, r1, d, True)" and "key \<notin> vd_key ` set (vs_deliveries s)"
  shows "\<exists>ds. vs_results s1 = row_mod vr_id (vr_id r) (handed_out now) (vs_results s) \<and> vs_links s1 = vs_links s \<and>
    vs_deliveries s1 = ds @ [d] \<and> vr_id r \<notin> vd_result ` set ds \<and> key \<notin> vd_key ` set ds \<and>
    vd_result d = vr_id r \<and> vd_key d = key \<and> \<not> over d \<and> r1 = handed_out now r"
proof -
  have made: "\<exists>ds. vs_results s1 = row_mod vr_id (vr_id r) (handed_out now) (vs_results t) \<and> vs_links s1 = vs_links t \<and>
    vs_deliveries s1 = ds @ [d] \<and> ds = vs_deliveries t \<and>
    vd_result d = vr_id r \<and> vd_key d = key \<and> \<not> over d \<and> r1 = handed_out now r"
    if "claim_speech r key now t = (s1, r1, d)" for t
    using that by (auto simp: claim_speech_eq set_result_def over_def)
  show ?thesis
  proof (cases "row_get vd_result (vr_id r) (vs_deliveries s)")
    case None
    with assms(1) have "claim_speech r key now s = (s1, r1, d)" by (simp add: deliver_fresh_def split_beta prod_eq_iff)
    from made [OF this] None assms(2) show ?thesis by (auto simp: row_get_None_iff)
  next
    case (Some e)
    with assms(1) have "claim_speech r key now (drop_delivery e s) = (s1, r1, d)"
      by (simp add: deliver_fresh_def split_beta prod_eq_iff split: if_splits)
    from made [OF this] row_get_key [OF Some] assms(2) show ?thesis by auto
  qed
qed

lemma deliver_made:
  assumes "v_inv s" and "key \<noteq> []" and "deliver_result v i key now s = (s1, Inr (r, d, True))"
  shows "\<exists>r0 ds. get_result v i s = Inr r0 \<and> \<not> outdated s r0 \<and> vr_status r0 \<noteq> Dismissed \<and>
    vs_results s1 = row_mod vr_id i (handed_out now) (vs_results s) \<and> vs_links s1 = vs_links s \<and>
    vs_deliveries s1 = ds @ [d] \<and> i \<notin> vd_result ` set ds \<and> key \<notin> vd_key ` set ds \<and>
    vd_result d = i \<and> vd_key d = key \<and> \<not> over d \<and> r = handed_out now r0"
proof -
  from assms(3) obtain r0 where r0: "get_result v i s = Inr r0" by (auto simp: deliver_result_def split: sum.splits)
  from get_resultD [OF r0] have i: "vr_id r0 = i" by simp
  from assms(3) have ok: "\<not> outdated s r0" "vr_status r0 \<noteq> Dismissed"
    by (auto simp: deliver_result_def r0 Let_def outdated_def split: if_splits)
  have rest: "(case delivery_by_key key s of
            Some d \<Rightarrow>
              if vd_result d \<noteq> i then (s, Inl (App_error 409 ''voice_delivery_idempotency_conflict''))
              else if \<not> over d then (s, Inr (r0, d, False))
              else (case deliver_fresh r0 key now (drop_delivery d s) of (s', x) \<Rightarrow> (s', Inr x))
          | None \<Rightarrow> (case deliver_fresh r0 key now s of (s', x) \<Rightarrow> (s', Inr x))) = (s1, Inr (r, d, True))"
    using assms(3) ok unfolding deliver_result_def r0 sum.case Let_def outdated_def by (simp split: if_splits)
  show ?thesis
  proof (cases "delivery_by_key key s")
    case None
    then have k: "key \<notin> vd_key ` set (vs_deliveries s)"
      using assms(2) by (simp add: delivery_by_key_def row_get_None_iff)
    from rest None have "deliver_fresh r0 key now s = (s1, r, d, True)" by (simp add: split_beta prod_eq_iff)
    from deliver_fresh_made [OF this k] ok r0 show ?thesis by (auto simp: i)
  next
    case (Some e)
    with rest have "deliver_fresh r0 key now (drop_delivery e s) = (s1, r, d, True)"
      by (simp add: split_beta prod_eq_iff split: if_splits)
    from deliver_fresh_made [OF this dropped_key [OF assms(1) Some]] ok r0 show ?thesis by (auto simp: i)
  qed
qed

lemma find_row_mod:
  assumes "\<And>r. P (f r) = P r"
  shows "find P (row_mod key k f rs) = map_option (\<lambda>r. if key r = k then f r else r) (find P rs)"
  using assms by (induction rs) auto

text \<open>
  C33. Only current results are handed out, and each to one speech. In every state of the inbox: a result
  that is newly delivered is neither dismissed nor stale, and the requirement version stamped on it is the one
  its link has at that moment; and when the result is delivered again before any other call, under the same
  request id or any unused one, the same speech is returned and nothing changes.
\<close>

theorem delivery_is_current_and_single:
  assumes "deliver_result v i key now (foldl (v_step uuid) empty_voice es) = (s1, Inr (r, d, True))"
    and "key \<noteq> []" and "key' \<notin> vd_key ` set (vs_deliveries s1) - {key}"
  shows "(\<exists>l \<in> set (vs_links s1). vl_id l = vr_link r \<and> vr_requirement r = vl_requirement l) \<and>
    vr_status r \<in> {Delivered, Failed_result} \<and>
    deliver_result v i key' now' s1 = (s1, Inr (r, d, False))"
proof -
  let ?s = "foldl (v_step uuid) empty_voice es"
  have inv: "v_inv ?s" by (rule voice_machine.run_inv [OF empty_voice_inv])
  from deliver_made [OF inv assms(2,1)] obtain r0 ds where
    r0: "get_result v i ?s = Inr r0" "\<not> outdated ?s r0" "vr_status r0 \<noteq> Dismissed"
    and res: "vs_results s1 = row_mod vr_id i (handed_out now) (vs_results ?s)" and links: "vs_links s1 = vs_links ?s"
    and ds: "vs_deliveries s1 = ds @ [d]" "i \<notin> vd_result ` set ds" "key \<notin> vd_key ` set ds"
    and d: "vd_result d = i" "vd_key d = key" "\<not> over d" and r: "r = handed_out now r0" by blast
  from get_resultD [OF r0(1)] have m: "r0 \<in> set (vs_results ?s)" "vr_id r0 = i" by simp_all
  have same: "vr_link r = vr_link r0" "vr_requirement r = vr_requirement r0" "vr_id r = i"
    "vr_status r = (if vr_status r0 = Failed_result then Failed_result else Delivered)"
    using r0(2) m(2) by (auto simp: r handed_out_def outdated_def)
  from inv m(1) obtain l where l: "l \<in> set (vs_links ?s)" "vl_id l = vr_link r0"
    "1 \<le> vr_requirement r0" "vr_requirement r0 \<le> vl_requirement l"
    by (auto simp: v_inv_def results_ok_def answers_def)
  have lrow: "row_get vl_id (vr_link r0) (vs_links ?s) = Some l"
    using row_get_distinct [of vl_id "vs_links ?s" l] inv l(1,2) by (simp add: v_inv_def links_ok_def)
  with r0(2) have "\<not> vr_requirement r0 < (if vl_requirement l = 0 then 1 else vl_requirement l)"
    by (simp add: outdated_def)
  with l(3,4) have eq: "vr_requirement r0 = vl_requirement l" by (simp split: if_splits)
  have get: "get_result v i s1 = Inr r"
  proof -
    have "find (\<lambda>x. vr_id x = i \<and> vr_voice x = v) (vs_results s1) =
        map_option (\<lambda>x. if vr_id x = i then handed_out now x else x) (find (\<lambda>x. vr_id x = i \<and> vr_voice x = v) (vs_results ?s))"
      unfolding res by (rule find_row_mod) (simp add: handed_out_def)
    with r0(1) m(2) show ?thesis by (auto simp: get_result_def r split: option.splits)
  qed
  have cur: "\<not> outdated s1 r"
    using same eq l(3) by (auto simp: outdated_def links lrow)
  have by_result: "row_get vd_result i (vs_deliveries s1) = Some d"
    using ds(2) d(1) row_get_None_iff [of vd_result i ds] by (simp add: ds(1) row_get_append)
  have by_key: "delivery_by_key key' s1 = (if key' = key then Some d else None)"
    using ds d(2) assms(2,3) row_get_None_iff [of vd_key key' ds]
    by (auto simp: delivery_by_key_def row_get_append split: option.splits)
  have "deliver_result v i key' now' s1 = (s1, Inr (r, d, False))"
    using cur same(4) d by (simp add: deliver_result_def get outdated_def Let_def by_key deliver_fresh_def by_result same(3)
        split: if_splits)
  with same eq l show ?thesis by (auto simp: links)
qed

text \<open>The inbox of the example when the task has succeeded and its outcome is captured.\<close>

abbreviation done_events :: "v_op list" where
  "done_events \<equiv> [Reserve example_reservation, Complete_link 1 ''pending_u'' ''job'' None ''RUNNING'',
     Capture (example_task ''SUCCEEDED'') 6]"

theorem delivery_is_current_and_single_witness:
  "\<exists>s1 r d. deliver_result 1 1 ''req12345'' 7 (foldl (v_step (\<lambda>_. ''u'')) empty_voice done_events) = (s1, Inr (r, d, True)) \<and>
     vr_status r \<in> {Delivered, Failed_result} \<and>
     deliver_result 1 1 ''req12345'' 9 s1 = (s1, Inr (r, d, False))"
proof -
  let ?x = "deliver_result 1 1 ''req12345'' 7 (foldl (v_step (\<lambda>_. ''u'')) empty_voice done_events)"
  have "(case snd ?x of Inr (r, d, fresh) \<Rightarrow> fresh | Inl e \<Rightarrow> False) \<and> map vd_key (vs_deliveries (fst ?x)) = [''req12345'']"
    by code_simp
  then obtain s1 r d where c: "?x = (s1, Inr (r, d, True))" and k: "map vd_key (vs_deliveries s1) = [''req12345'']"
    by (cases ?x) (auto split: sum.splits prod.splits)
  from arg_cong [OF k, of set] have "''req12345'' \<notin> vd_key ` set (vs_deliveries s1) - {''req12345''}" by simp
  from delivery_is_current_and_single [OF c _ this] c show ?thesis by blast
qed

section \<open>A revision overtaken by the run it replaces\<close>

text \<open>
  \<open>revise_task\<close> commits the new requirement version before it cancels the old run. An outcome the old run
  leaves in between is stamped with the version it does not answer, so it is not stale and is delivered.
\<close>

lemma overtaken_revision_is_delivered:
  "let s = foldl (v_step (\<lambda>_. ''u'')) empty_voice
     [Reserve example_reservation, Complete_link 1 ''pending_u'' ''job'' None ''RUNNING'',
      Revise 1 ''job'' ''q'' None ''n'' 5, Capture (example_task ''SUCCEEDED'') 6];
    (s1, x) = deliver_result 1 1 ''req12345'' 7 s
  in (case x of Inr (r, d, fresh) \<Rightarrow> vr_requirement r = 2 \<and> vr_status r = Delivered \<and> fresh | Inl e \<Rightarrow> False)"
  by code_simp

end
