(* ===== verification/Speech_Floor.thy ===== *)
theory Speech_Floor
  imports Pystr
begin

text \<open>
  Who may speak in a voice session: \<open>backend/app/voice/speech_floor.py\<close>. A lease is an optimistic token,
  not a lock: it is reserved while the floor is free and has to be valid again when speech is dispatched.
  Times are milliseconds of the monotonic clock. The frame classes are those of the pipecat library; a
  frame of the model says which class it is and what the floor reads of it.
\<close>

section \<open>The floor\<close>

record speech_lease =
  ls_owner :: string
  ls_revision :: nat

record speech_floor =
  sf_revision :: nat
  sf_lease :: "speech_lease option"
  sf_user :: bool
  sf_generating :: bool
  sf_pending :: bool
  sf_audio :: bool
  sf_tools :: "string set"
  sf_quiet :: instant
  sf_closed :: bool

definition free_floor :: speech_floor where
  "free_floor = \<lparr>sf_revision = 0, sf_lease = None, sf_user = False, sf_generating = False, sf_pending = False,
     sf_audio = False, sf_tools = {}, sf_quiet = 0, sf_closed = False\<rparr>"

definition busy :: "instant \<Rightarrow> speech_floor \<Rightarrow> bool" where
  "busy now f \<longleftrightarrow> sf_closed f \<or> sf_user f \<or> sf_generating f \<or> sf_pending f \<or> sf_audio f \<or> sf_tools f \<noteq> {} \<or>
     now < sf_quiet f"

definition reserve :: "string \<Rightarrow> instant \<Rightarrow> speech_floor \<Rightarrow> speech_floor \<times> speech_lease option" where
  "reserve owner now f =
     (if busy now f \<or> sf_lease f \<noteq> None then (f, None)
      else let l = \<lparr>ls_owner = owner, ls_revision = sf_revision f\<rparr> in (f\<lparr>sf_lease := Some l\<rparr>, Some l))"

definition lease_valid :: "instant \<Rightarrow> speech_lease \<Rightarrow> speech_floor \<Rightarrow> bool" where
  "lease_valid now l f \<longleftrightarrow> sf_lease f = Some l \<and> ls_revision l = sf_revision f \<and> \<not> busy now f"

definition release_lease :: "speech_lease \<Rightarrow> speech_floor \<Rightarrow> speech_floor" where
  "release_lease l f = (if sf_lease f = Some l then f\<lparr>sf_lease := None\<rparr> else f)"

definition interrupt :: "speech_floor \<Rightarrow> speech_floor" where
  "interrupt f = f\<lparr>sf_revision := Suc (sf_revision f), sf_lease := None, sf_generating := False,
     sf_pending := False, sf_audio := False, sf_tools := {}\<rparr>"

definition playback_ended :: "speech_floor \<Rightarrow> speech_floor" where
  "playback_ended f = f\<lparr>sf_audio := False,
     sf_lease := (if \<not> sf_generating f \<and> sf_tools f = {} \<and> \<not> sf_pending f then None else sf_lease f)\<rparr>"

section \<open>Frames\<close>

text \<open>
  \<open>Transcription\<close> carries the text and whether its result is still under review. The end of a tool call
  carries the frame's \<open>run_llm\<close>, where \<open>None\<close> is a frame without that attribute, \<open>Some None\<close> one with
  Python's \<open>None\<close>.
\<close>

datatype frame = Cancel_frame | End_frame | Interruption_frame | Error_frame | User_started | User_stopped
  | Context_frame | Transcription string bool | Messages_append | Response_start | Response_end
  | Calls_started "string list" | Call_ended string "bool option option" | Text_frame string | Bot_started
  | Other_frame

definition bump_revision :: "speech_floor \<Rightarrow> speech_floor" where
  "bump_revision f = f\<lparr>sf_revision := Suc (sf_revision f)\<rparr>"

text \<open>
  \<open>observe\<close>, with what it raises. \<open>heard\<close>: a transcription is also an instance of \<open>TextFrame\<close>, so that
  it counts as text where it is not on the input side.
\<close>

fun observe :: "bool \<Rightarrow> bool \<Rightarrow> instant \<Rightarrow> frame \<Rightarrow> speech_floor \<Rightarrow> speech_floor \<times> app_error option" where
  "observe heard input now Cancel_frame f = ((interrupt f)\<lparr>sf_closed := True\<rparr>, None)"
| "observe heard input now End_frame f = ((interrupt f)\<lparr>sf_closed := True\<rparr>, None)"
| "observe heard input now Interruption_frame f = (interrupt f, None)"
| "observe heard input now Error_frame f =
     (f\<lparr>sf_generating := False, sf_pending := False, sf_tools := {},
        sf_lease := (if \<not> sf_audio f then None else sf_lease f)\<rparr>, None)"
| "observe heard input now User_started f = ((bump_revision f)\<lparr>sf_user := True\<rparr>, None)"
| "observe heard input now User_stopped f = ((bump_revision f)\<lparr>sf_user := False, sf_quiet := now + 1000\<rparr>, None)"
| "observe heard input now Context_frame f =
     (if input then ((bump_revision f)\<lparr>sf_pending := True\<rparr>, None) else (f, None))"
| "observe heard input now (Transcription s review) f =
     (if input then ((bump_revision f)\<lparr>sf_quiet := now + 1000,
          sf_pending := (sf_pending f \<or> strip s \<noteq> [] \<and> \<not> review)\<rparr>, None)
      else (f\<lparr>sf_audio := (sf_audio f \<or> heard \<and> strip s \<noteq> [])\<rparr>, None))"
| "observe heard input now Messages_append f =
     (if input then ((bump_revision f)\<lparr>sf_quiet := now + 1000\<rparr>, None) else (f, None))"
| "observe heard input now Response_start f =
     (if input then (f, None) else ((bump_revision f)\<lparr>sf_generating := True, sf_pending := False\<rparr>, None))"
| "observe heard input now (Calls_started ids) f =
     (if input then (f, None) else (f\<lparr>sf_tools := sf_tools f \<union> set ids\<rparr>, None))"
| "observe heard input now (Call_ended i run) f =
     (if input then (f, None)
      else let g = f\<lparr>sf_tools := sf_tools f - {i}\<rparr> in
        (case run of
          None \<Rightarrow> (g, Some (Python_error ''AttributeError''))
        | Some r \<Rightarrow> (if r \<noteq> Some False then (g\<lparr>sf_pending := True\<rparr>, None) else (g, None))))"
| "observe heard input now (Text_frame s) f =
     (if input \<or> strip s = [] then (f, None) else (f\<lparr>sf_audio := True\<rparr>, None))"
| "observe heard input now Bot_started f = (if input then (f, None) else (f\<lparr>sf_audio := True\<rparr>, None))"
| "observe heard input now Response_end f =
     (if input then (f, None)
      else (f\<lparr>sf_generating := False,
          sf_lease := (if \<not> sf_audio f \<and> sf_tools f = {} \<and> \<not> sf_pending f then None else sf_lease f)\<rparr>, None))"
| "observe heard input now Other_frame f = (f, None)"

section \<open>Admitting a request\<close>

text \<open>
  \<open>VoiceInputFloorProcessor.process_frame\<close> for a frame that carries a lease. The decision is taken with
  the future not cancelled and the lease valid; a delivery waits for the journal first and then decides
  again, so other frames come between the two steps.
\<close>

definition admit_now :: "bool \<Rightarrow> bool \<Rightarrow> speech_lease \<Rightarrow> frame \<Rightarrow> instant \<Rightarrow> speech_floor \<Rightarrow> speech_floor \<times> bool" where
  "admit_now heard cancelled l fr now f =
     (if \<not> cancelled \<and> lease_valid now l f then (fst (observe heard True now fr (f\<lparr>sf_pending := True\<rparr>)), True)
      else (release_lease l f, False))"

definition admit_start ::
  "bool \<Rightarrow> bool \<Rightarrow> bool \<Rightarrow> speech_lease \<Rightarrow> frame \<Rightarrow> instant \<Rightarrow> speech_floor \<Rightarrow> speech_floor \<times> bool option" where
  "admit_start heard cancelled delivery l fr now f =
     (if delivery \<and> \<not> cancelled \<and> lease_valid now l f then (f, None)
      else (case admit_now heard cancelled l fr now f of (g, b) \<Rightarrow> (g, Some b)))"

definition admit_resume ::
  "bool \<Rightarrow> bool \<Rightarrow> bool \<Rightarrow> speech_lease \<Rightarrow> frame \<Rightarrow> instant \<Rightarrow> speech_floor \<Rightarrow> speech_floor \<times> bool" where
  "admit_resume heard prepared cancelled l fr now f =
     (if prepared then admit_now heard cancelled l fr now f else (release_lease l f, False))"

section \<open>Calls in any order\<close>

datatype floor_op = Reserve string | Release speech_lease | Interrupt | Playback_ended | Close
  | Observe bool frame | Admit_start bool bool speech_lease frame | Admit_resume bool bool speech_lease frame

text \<open>\<open>Close\<close> is \<open>stop\<close> of the result bridge, which sets \<open>closed\<close>. Each call comes with the time it is made.\<close>

fun floor_step :: "bool \<Rightarrow> speech_floor \<Rightarrow> floor_op \<times> instant \<Rightarrow> speech_floor" where
  "floor_step heard f (Reserve owner, now) = fst (reserve owner now f)"
| "floor_step heard f (Release l, now) = release_lease l f"
| "floor_step heard f (Interrupt, now) = interrupt f"
| "floor_step heard f (Playback_ended, now) = playback_ended f"
| "floor_step heard f (Close, now) = f\<lparr>sf_closed := True\<rparr>"
| "floor_step heard f (Observe input fr, now) = fst (observe heard input now fr f)"
| "floor_step heard f (Admit_start c d l fr, now) = fst (admit_start heard c d l fr now f)"
| "floor_step heard f (Admit_resume p c l fr, now) = fst (admit_resume heard p c l fr now f)"

text \<open>What tells the floor that the user is active, or that another answer begins.\<close>

fun activity :: "floor_op \<Rightarrow> bool" where
  "activity Interrupt = True"
| "activity (Observe input fr) = (case fr of
      Cancel_frame \<Rightarrow> True | End_frame \<Rightarrow> True | Interruption_frame \<Rightarrow> True | User_started \<Rightarrow> True
    | User_stopped \<Rightarrow> True | Context_frame \<Rightarrow> input | Transcription s review \<Rightarrow> input
    | Messages_append \<Rightarrow> input | Response_start \<Rightarrow> \<not> input | _ \<Rightarrow> False)"
| "activity _ = False"

section \<open>Revisions\<close>

lemma bump_simps [simp]:
  "sf_revision (bump_revision f) = Suc (sf_revision f)" "sf_quiet (bump_revision f) = sf_quiet f"
  "sf_closed (bump_revision f) = sf_closed f" "sf_user (bump_revision f) = sf_user f"
  "sf_pending (bump_revision f) = sf_pending f" "sf_lease (bump_revision f) = sf_lease f"
  "sf_audio (bump_revision f) = sf_audio f" "sf_generating (bump_revision f) = sf_generating f"
  "sf_tools (bump_revision f) = sf_tools f"
  by (simp_all add: bump_revision_def)

lemma observe_revision:
  "sf_revision f \<le> sf_revision (fst (observe heard input now fr f)) \<and>
   (activity (Observe input fr) \<longrightarrow> sf_revision f < sf_revision (fst (observe heard input now fr f)))"
  by (cases fr) (simp_all add: interrupt_def Let_def split: option.split)

lemma admit_revision: "sf_revision f \<le> sf_revision (fst (admit_now heard c l fr now f))"
  using observe_revision [of "f\<lparr>sf_pending := True\<rparr>" heard True now fr]
  by (simp add: admit_now_def release_lease_def)

lemma step_revision:
  "sf_revision f \<le> sf_revision (floor_step heard f (e, now)) \<and>
   (activity e \<longrightarrow> sf_revision f < sf_revision (floor_step heard f (e, now)))"
proof (cases e)
  case (Observe input fr)
  then show ?thesis using observe_revision [of f heard input now fr] by simp
next
  case (Admit_start c d l fr)
  then show ?thesis using admit_revision [of f heard c l fr now] by (simp add: admit_start_def split_beta)
next
  case (Admit_resume p c l fr)
  then show ?thesis using admit_revision [of f heard c l fr now] by (simp add: admit_resume_def release_lease_def)
qed (simp_all add: reserve_def release_lease_def interrupt_def playback_ended_def Let_def)

interpretation floor_revisions: fenced "floor_step heard" "\<lambda>_. True" sf_revision for heard
  by unfold_locales (use step_revision in \<open>auto simp: split_paired_all\<close>)

text \<open>
  Whatever the user does takes the floor away. A lease reserved before the user starts or stops
  speaking, types, is transcribed or interrupts, or before another answer begins, is never valid again,
  whatever else happens in between: a request that carries it is not admitted, not even when it was
  accepted once and waited for the journal.
\<close>

lemma user_activity_revokes_floor:
  assumes "reserve owner now f = (f1, Some l)" and "activity e"
  shows "let f2 = foldl (floor_step heard) f1 (es @ (e, t) # es') in
    \<not> lease_valid now' l f2 \<and> \<not> snd (admit_now heard cancelled l fr now' f2) \<and>
    \<not> snd (admit_resume heard prepared cancelled l fr now' f2)"
proof -
  from assms(1) have "ls_revision l = sf_revision f1"
    by (auto simp: reserve_def Let_def split: if_splits)
  also have "\<dots> < sf_revision (foldl (floor_step heard) f1 (es @ (e, t) # es'))"
    by (rule floor_revisions.overtaken) (use step_revision assms(2) in auto)
  finally show ?thesis by (simp add: lease_valid_def admit_now_def admit_resume_def Let_def)
qed

section \<open>Quiet and closed floors\<close>

text \<open>What the user says or types starts a second of quiet.\<close>

fun user_heard :: "floor_op \<Rightarrow> bool" where
  "user_heard (Observe input User_stopped) = True"
| "user_heard (Observe input (Transcription s review)) = input"
| "user_heard (Observe input Messages_append) = input"
| "user_heard _ = False"

lemma observe_quiet:
  "fst (observe heard input now fr f) = g \<Longrightarrow>
   sf_quiet g = (if user_heard (Observe input fr) then now + 1000 else sf_quiet f) \<and> (sf_closed f \<longrightarrow> sf_closed g)"
  by (cases fr) (auto simp: interrupt_def Let_def split: option.splits if_splits)

lemma admit_quiet:
  "fst (admit_now heard c l fr now f) = g \<Longrightarrow> sf_quiet g \<in> {sf_quiet f, now + 1000} \<and> (sf_closed f \<longrightarrow> sf_closed g)"
  using observe_quiet [OF refl, of heard True now fr "f\<lparr>sf_pending := True\<rparr>"]
  by (auto simp: admit_now_def release_lease_def split: if_splits)

lemma step_quiet:
  "sf_quiet (floor_step heard f (e, now)) \<in> {sf_quiet f, now + 1000} \<and>
   (user_heard e \<longrightarrow> sf_quiet (floor_step heard f (e, now)) = now + 1000) \<and>
   (sf_closed f \<longrightarrow> sf_closed (floor_step heard f (e, now)))"
proof (cases e)
  case (Observe input fr)
  then show ?thesis using observe_quiet [OF refl, of heard input now fr f] by auto
next
  case (Admit_start c d l fr)
  then show ?thesis using admit_quiet [OF refl, of heard c l fr now f] by (auto simp: admit_start_def split_beta)
next
  case (Admit_resume p c l fr)
  then show ?thesis using admit_quiet [OF refl, of heard c l fr now f]
    by (auto simp: admit_resume_def release_lease_def)
qed (simp_all add: reserve_def release_lease_def interrupt_def playback_ended_def Let_def)

lemma run_quiet:
  "t + 1000 \<le> sf_quiet f \<Longrightarrow> \<forall>x \<in> set es. t \<le> snd x \<Longrightarrow> t + 1000 \<le> sf_quiet (foldl (floor_step heard) f es)"
proof (induction es arbitrary: f)
  case (Cons x es)
  have "t + 1000 \<le> sf_quiet (floor_step heard f x)"
    using step_quiet [of heard f "fst x" "snd x"] Cons.prems by auto
  from Cons.IH [OF this] Cons.prems show ?case by simp
qed simp

lemma run_closed: "sf_closed f \<Longrightarrow> sf_closed (foldl (floor_step heard) f es)"
proof (induction es arbitrary: f)
  case (Cons x es)
  with Cons.IH [of "floor_step heard f x"] step_quiet [of heard f "fst x" "snd x"] show ?case by simp
qed simp

lemma busy_floor_refuses: "busy now f \<Longrightarrow> reserve owner now f = (f, None) \<and> \<not> lease_valid now l f"
  by (simp add: reserve_def lease_valid_def)

text \<open>
  A second of silence. After the user stops speaking, is transcribed or types, the floor is free for
  nobody for a whole second, whatever happens meanwhile: no lease can be reserved and none is valid.
\<close>

lemma floor_quiet_after_user:
  assumes "user_heard e" and "\<forall>x \<in> set es. t \<le> snd x" and "now < t + 1000"
  shows "let g = foldl (floor_step heard) (floor_step heard f (e, t)) es
    in reserve owner now g = (g, None) \<and> \<not> lease_valid now l g"
proof -
  have "t + 1000 \<le> sf_quiet (floor_step heard f (e, t))" using step_quiet [of heard f e t] assms(1) by simp
  from run_quiet [OF this assms(2), of heard] assms(3) have "busy now (foldl (floor_step heard) (floor_step heard f (e, t)) es)"
    by (simp add: busy_def)
  then show ?thesis unfolding Let_def by (rule busy_floor_refuses)
qed

lemma closed_floor_is_silent:
  assumes "e \<in> {Close, Observe input Cancel_frame, Observe input End_frame}"
  shows "let g = foldl (floor_step heard) (floor_step heard f (e, t)) es
    in reserve owner now g = (g, None) \<and> \<not> lease_valid now l g"
proof -
  have "sf_closed (floor_step heard f (e, t))" using assms by auto
  from run_closed [OF this] show ?thesis unfolding Let_def by (intro busy_floor_refuses) (simp add: busy_def)
qed

section \<open>A spoken answer\<close>

abbreviation answer :: "string list \<Rightarrow> instant \<Rightarrow> (floor_op \<times> instant) list" where
  "answer ss t \<equiv> (Observe False Response_start, t) # map (\<lambda>s. (Observe False (Text_frame s), t)) ss @
     [(Observe False Response_end, t)]"

lemma texts_floor:
  "foldl (floor_step heard) f (map (\<lambda>s. (Observe False (Text_frame s), t)) ss) =
   f\<lparr>sf_audio := sf_audio f \<or> (\<exists>s \<in> set ss. strip s \<noteq> [])\<rparr>"
  by (induction ss arbitrary: f) auto

text \<open>
  The floor stays taken from the first spoken word until the transport reports that playback has ended,
  and is free again then, once the user's second of quiet is over.
\<close>

lemma spoken_answer_frees_floor:
  assumes "\<not> sf_closed f" and "\<not> sf_user f" and "sf_tools f = {}" and "\<exists>s \<in> set ss. strip s \<noteq> []"
  shows "let g = foldl (floor_step heard) f (answer ss t); h = floor_step heard g (Playback_ended, t') in
    busy now g \<and> (sf_quiet f \<le> now' \<longrightarrow> (\<exists>l. snd (reserve owner now' h) = Some l \<and> lease_valid now' l (fst (reserve owner now' h))))"
proof -
  have g: "foldl (floor_step heard) f (answer ss t) =
      (bump_revision f)\<lparr>sf_generating := False, sf_pending := False, sf_audio := True\<rparr>"
    using assms(4) by (simp add: texts_floor)
  show ?thesis unfolding g Let_def using assms
    by (auto simp: busy_def playback_ended_def reserve_def lease_valid_def Let_def)
qed

end
