(* ===== verification/Memory_Events.thy ===== *)
theory Memory_Events
  imports Pystr
begin

text \<open>
  The memory event store: \<open>backend/app/services/memory_event_store.py\<close> on the rows of
  \<open>backend/app/repositories/memory_events.py\<close>, with the credential gate of \<open>memory_sensitive_filter.py\<close>, the
  version chain of \<open>memory_upcasters.py\<close> and the envelope encryption of \<open>memory_crypto.py\<close>. Streams, keys and
  events are numbered as they are created. An append is the two halves a concurrent session can come
  between: what is looked up, and what is written with a compare-and-set on the stream's version.
  Correlation ids and free metadata of an event are left out.
\<close>

section \<open>The world outside\<close>

type_synonym payload = "(string \<times> json) list"

text \<open>
  Sealing under the data key with a number and opening again (Fernet), the hash of the canonical JSON
  text, the credential categories whose pattern a text matches, and the registered upcasters.
\<close>

record mcrypto =
  cr_seal :: "nat \<Rightarrow> payload \<Rightarrow> string"
  cr_open :: "nat \<Rightarrow> string \<Rightarrow> payload option"
  cr_hash :: "payload \<Rightarrow> string"
  cr_matches :: "string \<Rightarrow> string list"
  cr_upcaster :: "string \<times> nat \<Rightarrow> (payload \<Rightarrow> payload) option"

definition event_types :: "string list" where
  "event_types = [''memory.atom_created'', ''memory.atom_corrected'', ''memory.atom_confirmed'',
     ''memory.atom_superseded'', ''memory.atom_retracted'', ''memory.atom_delete_requested'',
     ''memory.atom_restored'', ''memory.atom_forgotten'', ''memory.scope_changed'',
     ''memory.sensitivity_changed'', ''memory.auto_recall_suppressed'', ''memory.feedback_recorded'',
     ''task.created'', ''task.stage_changed'', ''task.step_completed'', ''task.blocked'', ''task.resumed'',
     ''task.completed'', ''task.cancelled'', ''episode.opened'', ''episode.closed'', ''episode.corrected'',
     ''episode.invalidated'', ''artifact.revision_activated'', ''artifact.revision_invalidated'',
     ''learning.evidence_recorded'', ''learning.evidence_invalidated'', ''learning.node_state_changed'',
     ''agent.run_started'', ''agent.run_completed'', ''agent.run_failed'', ''strategy.candidate_created'',
     ''strategy.verified'', ''strategy.degraded'', ''strategy.deprecated'', ''strategy.disputed'']"

definition current_schema :: "string \<Rightarrow> nat option" where
  "current_schema t = (if t \<in> set event_types then Some 1 else None)"

abbreviation forgotten_type :: string where
  "forgotten_type \<equiv> ''memory.atom_forgotten''"

section \<open>The credential gate\<close>

definition sensitive_fields :: "string list" where
  "sensitive_fields = [''api_key'', ''apikey'', ''password'', ''cookie'', ''access_token'', ''refresh_token'',
     ''private_key'', ''authorization'']"

lemma json_child_sizes [termination_simp]:
  "(k, c) \<in> set d \<Longrightarrow> size c < Suc (size_list (size_prod size size) d)"
  "(i, v) \<in> set (enumerate n xs) \<Longrightarrow> size v < Suc (size_list size xs)"
proof -
  show "size c < Suc (size_list (size_prod size size) d)" if "(k, c) \<in> set d"
    using size_list_estimation' [of "(k, c)" d "size c" "size_prod size size"] that by simp
  show "size v < Suc (size_list size xs)" if "(i, v) \<in> set (enumerate n xs)"
    using size_list_estimation' [of v xs "size v" size] that by (auto simp: in_set_enumerate_eq)
qed

fun visit :: "(string \<Rightarrow> string list) \<Rightarrow> json \<Rightarrow> string \<Rightarrow> (string \<times> string) list" where
  "visit m (JDict d) path = concat (map (\<lambda>(k, c).
     let p = (if path \<noteq> [] then path @ ''.'' @ k else k) in
     (if casefold k \<in> set sensitive_fields \<and> c \<notin> {JNull, JStr [], JStr ''[REDACTED]''}
      then [(''sensitive_field'', p)] else []) @ visit m c p) d)"
| "visit m (JList xs) path =
     concat (map (\<lambda>(i, v). visit m v (path @ ''['' @ show_int (int i) @ '']'')) (enumerate 0 xs))"
| "visit m (JStr s) path = map (\<lambda>c. (c, if path = [] then ''$'' else path)) (m s)"
| "visit m _ path = []"

definition scan_payload :: "mcrypto \<Rightarrow> payload \<Rightarrow> (string \<times> string) list" where
  "scan_payload cr p = fromkeys (visit (cr_matches cr) (JDict p) [])"

section \<open>Upcasting\<close>

function upcast_from ::
  "(string \<times> nat \<Rightarrow> (payload \<Rightarrow> payload) option) \<Rightarrow> string \<Rightarrow> nat \<Rightarrow> nat \<Rightarrow> payload \<Rightarrow> (nat \<times> payload) result" where
  "upcast_from ups t current version value =
     (if version < current then
        (case ups (t, version) of
          None \<Rightarrow> Inl (Python_error ''ValueError'')
        | Some f \<Rightarrow> upcast_from ups t current (Suc version) (f value))
      else require (\<not> current < version) (Python_error ''ValueError'') (Inr (version, value)))"
  by auto
termination by (relation "measure (\<lambda>(ups, t, current, version, value). current - version)") auto

declare upcast_from.simps [simp del]

definition upcast :: "mcrypto \<Rightarrow> string \<Rightarrow> nat \<Rightarrow> payload \<Rightarrow> (nat \<times> payload) result" where
  "upcast cr t version value = upcast_from (cr_upcaster cr) t
     (case current_schema t of None \<Rightarrow> version | Some c \<Rightarrow> c) version value"

section \<open>Rows\<close>

record mscope =
  sc_tenant :: string
  sc_user :: string
  sc_workspace :: string
  sc_task :: "string option"
  sc_project :: "string option"
  sc_conversation :: "string option"

datatype stream_status = Active | Forgotten

record mstream =
  ms_id :: nat
  ms_type :: string
  ms_aggregate :: string
  ms_version :: nat
  ms_status :: stream_status
  ms_tenant :: string
  ms_subject :: "string option"
  ms_workspace :: "string option"
  ms_task :: "string option"

record mkey =
  pk_id :: nat
  pk_stream :: nat
  pk_event :: "nat option"
  pk_dek :: "nat option"
  pk_destroyed :: "instant option"
  pk_by :: "string option"
  pk_reason :: string

record mevent =
  ev_id :: nat
  ev_position :: nat
  ev_stream :: nat
  ev_version :: nat
  ev_type :: string
  ev_schema :: nat
  ev_producer :: string
  ev_actor :: string
  ev_tenant :: string
  ev_subject :: "string option"
  ev_workspace :: "string option"
  ev_task :: "string option"
  ev_conversation :: "string option"
  ev_project :: "string option"
  ev_key :: string
  ev_occurred :: instant
  ev_sensitivity :: string
  ev_cipher :: string
  ev_payload_key :: nat
  ev_hash :: string

datatype outbox_status = Queued_item | Leased_item | Failed_item | Succeeded_item | Dead_letter

record outbox_item =
  ob_id :: nat
  ob_event :: nat
  ob_tenant :: string
  ob_workspace :: "string option"
  ob_kind :: string
  ob_aggregate :: string
  ob_stream :: nat
  ob_version :: nat
  ob_status :: outbox_status
  ob_attempts :: nat
  ob_available :: instant
  ob_owner :: "string option"
  ob_until :: "instant option"
  ob_generation :: nat
  ob_error :: string

record mstore =
  st_streams :: "mstream list"
  st_keys :: "mkey list"
  st_events :: "mevent list"
  st_outbox :: "outbox_item list"
  st_next :: nat

definition empty_store :: mstore where
  "empty_store = \<lparr>st_streams = [], st_keys = [], st_events = [], st_outbox = [], st_next = 0\<rparr>"

section \<open>Lookups\<close>

definition in_tenant :: "mscope \<Rightarrow> mstream \<Rightarrow> bool" where
  "in_tenant sc st \<longleftrightarrow> ms_tenant st = sc_tenant sc \<and> ms_workspace st \<in> {Some (sc_workspace sc), None}"

definition stream_in_scope :: "mscope \<Rightarrow> (mstream \<Rightarrow> bool) \<Rightarrow> mstore \<Rightarrow> mstream option" where
  "stream_in_scope sc p s =
     find (\<lambda>st. in_tenant sc st \<and> ms_subject st \<in> {Some (sc_user sc), None} \<and> p st) (st_streams s)"

definition stream_by_identity :: "mscope \<Rightarrow> (mstream \<Rightarrow> bool) \<Rightarrow> mstore \<Rightarrow> mstream option" where
  "stream_by_identity sc p s = find (\<lambda>st. in_tenant sc st \<and> p st) (st_streams s)"

definition stream_for_aggregate :: "mscope \<Rightarrow> string \<Rightarrow> string \<Rightarrow> mstore \<Rightarrow> mstream option" where
  "stream_for_aggregate sc ty agg s =
     (let p = (\<lambda>st. ms_type st = ty \<and> ms_aggregate st = agg) in
      case stream_in_scope sc p s of Some st \<Rightarrow> Some st | None \<Rightarrow> stream_by_identity sc p s)"

definition require_stream :: "mscope \<Rightarrow> nat \<Rightarrow> mstore \<Rightarrow> mstream result" where
  "require_stream sc i s =
     (let p = (\<lambda>st. ms_id st = i) in
      case stream_in_scope sc p s of Some st \<Rightarrow> Inr st
      | None \<Rightarrow> (case stream_by_identity sc p s of Some st \<Rightarrow> Inr st
          | None \<Rightarrow> Inl (App_error 404 ''memory_stream_not_found'')))"

definition visible :: "mscope \<Rightarrow> mevent \<Rightarrow> bool" where
  "visible sc e \<longleftrightarrow> ev_tenant e = sc_tenant sc \<and> ev_workspace e \<in> {Some (sc_workspace sc), None} \<and>
     ev_subject e \<in> {Some (sc_user sc), None}"

definition event_by_id :: "mscope \<Rightarrow> nat \<Rightarrow> mstore \<Rightarrow> mevent option" where
  "event_by_id sc i s = find (\<lambda>e. ev_id e = i \<and> visible sc e) (st_events s)"

definition event_key :: "mevent \<Rightarrow> string \<times> string \<times> string" where
  "event_key e = (ev_tenant e, ev_producer e, ev_key e)"

definition event_by_idempotency :: "string \<Rightarrow> string \<Rightarrow> string \<Rightarrow> mstore \<Rightarrow> mevent option" where
  "event_by_idempotency tenant producer key s = row_get event_key (tenant, producer, key) (st_events s)"

text \<open>The events of the store are kept in the order of their global position.\<close>

definition events_after :: "mscope \<Rightarrow> nat \<Rightarrow> nat \<Rightarrow> mstore \<Rightarrow> mevent list" where
  "events_after sc position limit s =
     take limit (filter (\<lambda>e. position < ev_position e \<and> visible sc e) (st_events s))"

definition stream_events :: "mscope \<Rightarrow> nat \<Rightarrow> nat \<Rightarrow> mstore \<Rightarrow> mevent list result" where
  "stream_events sc i after s = bind_r (require_stream sc i s)
     (\<lambda>_. Inr (filter (\<lambda>e. ev_stream e = i \<and> after < ev_version e) (st_events s)))"

section \<open>Appending\<close>

record append_event =
  ap_type :: string
  ap_payload :: payload
  ap_key :: string
  ap_producer :: string
  ap_schema :: nat
  ap_actor :: string
  ap_occurred :: "instant option"
  ap_sensitivity :: string
  ap_conversation :: "string option"
  ap_project :: "string option"

text \<open>\<open>subject\<close>: \<open>None\<close> for the argument left out, \<open>Some x\<close> for the value \<open>x\<close>.\<close>

record append_args =
  aa_scope :: mscope
  aa_type :: string
  aa_aggregate :: string
  aa_expected :: "int option"
  aa_event :: append_event
  aa_kinds :: "string list"
  aa_subject :: "string option option"

text \<open>
  The first half: validation, the lookup of an earlier event under the key, the stream as this session
  sees it. \<open>Plan None\<close>: there is no stream yet; \<open>Plan (Some (i, v))\<close>: stream \<open>i\<close>, seen at version \<open>v\<close>.
\<close>

datatype append_plan = Replay mevent | Plan "(nat \<times> nat) option"

definition version_conflict :: app_error where
  "version_conflict = App_error 409 ''memory_stream_version_conflict''"

definition prepare_append :: "mcrypto \<Rightarrow> append_args \<Rightarrow> mstore \<Rightarrow> append_plan result" where
  "prepare_append cr a s =
     (let e = aa_event a; sc = aa_scope a in
      require (\<forall>v \<in> set_option (current_schema (ap_type e)). ap_schema e = v)
        (App_error 422 ''memory_event_schema_version_invalid'')
      (require (scan_payload cr (ap_payload e) = []) (App_error 422 ''sensitive_memory_payload_rejected'')
       (case event_by_idempotency (sc_tenant sc) (ap_producer e) (ap_key e) s of
         Some p \<Rightarrow> require (ev_hash p = cr_hash cr (ap_payload e) \<and> ev_type p = ap_type e)
           (App_error 409 ''memory_event_idempotency_conflict'') (Inr (Replay p))
       | None \<Rightarrow>
         (case stream_for_aggregate sc (aa_type a) (aa_aggregate a) s of
           Some st \<Rightarrow> Inr (Plan (Some (ms_id st, ms_version st)))
         | None \<Rightarrow> require (aa_expected a \<in> {None, Some 0}) version_conflict (Inr (Plan None))))))"

definition stream_key :: "mstream \<Rightarrow> string \<times> string \<times> string" where
  "stream_key st = (ms_tenant st, ms_type st, ms_aggregate st)"

text \<open>
  The stream an append writes to: the one it saw, a new one, or, when the insert of a new one fails
  because the aggregate is taken, the one that holds the key.
\<close>

definition open_stream :: "append_args \<Rightarrow> (nat \<times> nat) option \<Rightarrow> mstore \<Rightarrow> (mstore \<times> mstream \<times> nat) result" where
  "open_stream a plan s = (case plan of
      Some (i, v) \<Rightarrow> (case row_get ms_id i (st_streams s) of
          None \<Rightarrow> Inl (Python_error ''ObjectDeletedError'') | Some st \<Rightarrow> Inr (s, st, v))
    | None \<Rightarrow>
        let sc = aa_scope a in
        if (sc_tenant sc, aa_type a, aa_aggregate a) \<in> stream_key ` set (st_streams s)
        then (case stream_for_aggregate sc (aa_type a) (aa_aggregate a) s of
            None \<Rightarrow> Inl (Python_error ''IntegrityError'') | Some st \<Rightarrow> Inr (s, st, ms_version st))
        else
          let st = \<lparr>ms_id = st_next s, ms_type = aa_type a, ms_aggregate = aa_aggregate a, ms_version = 0,
                ms_status = Active, ms_tenant = sc_tenant sc,
                ms_subject = (case aa_subject a of None \<Rightarrow> Some (sc_user sc) | Some x \<Rightarrow> x),
                ms_workspace = Some (sc_workspace sc), ms_task = sc_task sc\<rparr>
          in Inr (s\<lparr>st_streams := st_streams s @ [st], st_next := Suc (st_next s)\<rparr>, st, 0))"

definition option_or :: "string option \<Rightarrow> string option \<Rightarrow> string option" where
  "option_or x y = (if x = None \<or> x = Some [] then y else x)"

text \<open>
  The rows of a new event, numbered from \<open>st_next\<close>: the key row with a fresh data key, the event, and one
  outbox row per projection.
\<close>

definition new_event :: "mcrypto \<Rightarrow> append_args \<Rightarrow> mstream \<Rightarrow> nat \<Rightarrow> instant \<Rightarrow> mstore \<Rightarrow> mevent" where
  "new_event cr a st version now s =
     (let e = aa_event a; sc = aa_scope a; n = st_next s in
      \<lparr>ev_id = n, ev_position = Suc (length (st_events s)), ev_stream = ms_id st, ev_version = version, ev_type = ap_type e,
       ev_schema = ap_schema e, ev_producer = ap_producer e, ev_actor = ap_actor e,
       ev_tenant = sc_tenant sc, ev_subject = ms_subject st, ev_workspace = Some (sc_workspace sc),
       ev_task = sc_task sc, ev_conversation = option_or (ap_conversation e) (sc_conversation sc),
       ev_project = option_or (ap_project e) (sc_project sc), ev_key = ap_key e,
       ev_occurred = (case ap_occurred e of None \<Rightarrow> now | Some t \<Rightarrow> t), ev_sensitivity = ap_sensitivity e,
       ev_cipher = cr_seal cr n (ap_payload e), ev_payload_key = n, ev_hash = cr_hash cr (ap_payload e)\<rparr>)"

definition new_key :: "mstream \<Rightarrow> mstore \<Rightarrow> mkey" where
  "new_key st s = \<lparr>pk_id = st_next s, pk_stream = ms_id st, pk_event = Some (st_next s), pk_dek = Some (st_next s),
     pk_destroyed = None, pk_by = None, pk_reason = []\<rparr>"

definition new_outbox :: "mevent \<Rightarrow> append_args \<Rightarrow> instant \<Rightarrow> nat \<Rightarrow> string \<Rightarrow> outbox_item" where
  "new_outbox e a now i kind = \<lparr>ob_id = i, ob_event = ev_id e, ob_tenant = ev_tenant e, ob_workspace = ev_workspace e,
     ob_kind = kind, ob_aggregate = aa_aggregate a, ob_stream = ev_stream e, ob_version = ev_version e,
     ob_status = Queued_item, ob_attempts = 0, ob_available = now, ob_owner = None, ob_until = None,
     ob_generation = 0, ob_error = []\<rparr>"

text \<open>
  The second half. The compare-and-set demands that the stream still has the version the session saw and
  has not been forgotten meanwhile; the unique columns are those of the event and of the outbox row.
\<close>

definition commit_append ::
  "mcrypto \<Rightarrow> append_args \<Rightarrow> (nat \<times> nat) option \<Rightarrow> instant \<Rightarrow> mstore \<Rightarrow> (mstore \<times> mevent) result" where
  "commit_append cr a plan now s = bind_r (open_stream a plan s) (\<lambda>(s1, st, v).
     let forgetting = (ap_type (aa_event a) = forgotten_type) in
     require (\<not> (ms_status st = Forgotten \<and> \<not> forgetting)) (App_error 410 ''memory_stream_forgotten'')
     (require (\<forall>x \<in> set_option (aa_expected a). x = int v) version_conflict
      (require (ms_version st = v) version_conflict
       (let e = new_event cr a st (Suc v) now s1 in
        require (event_key e \<notin> event_key ` set (st_events s1) \<and>
            (ev_stream e, ev_version e) \<notin> (\<lambda>x. (ev_stream x, ev_version x)) ` set (st_events s1) \<and>
            distinct (aa_kinds a))
          (Python_error ''IntegrityError'')
        (Inr (s1\<lparr>st_streams := row_mod ms_id (ms_id st) (\<lambda>x. x\<lparr>ms_version := Suc v\<rparr>) (st_streams s1),
              st_keys := st_keys s1 @ [new_key st s1], st_events := st_events s1 @ [e],
              st_outbox := st_outbox s1 @ map (\<lambda>(i, k). new_outbox e a now i k)
                (enumerate (Suc (st_next s1)) (aa_kinds a)),
              st_next := Suc (st_next s1) + length (aa_kinds a)\<rparr>, e))))))"

definition store_append :: "mcrypto \<Rightarrow> append_args \<Rightarrow> instant \<Rightarrow> mstore \<Rightarrow> (mstore \<times> mevent \<times> bool) result" where
  "store_append cr a now s = bind_r (prepare_append cr a s) (\<lambda>plan. case plan of
      Replay p \<Rightarrow> Inr (s, p, True)
    | Plan x \<Rightarrow> bind_r (commit_append cr a x now s) (\<lambda>(s', e). Inr (s', e, False)))"

section \<open>Reading, forgetting, replaying\<close>

definition decrypt :: "mcrypto \<Rightarrow> string \<Rightarrow> nat option \<Rightarrow> payload result" where
  "decrypt cr text dek = (case dek of
      None \<Rightarrow> Inl (Python_error ''EventPayloadUnavailable'')
    | Some k \<Rightarrow> if text = [] then Inl (Python_error ''EventPayloadUnavailable'')
        else (case cr_open cr k text of None \<Rightarrow> Inl (Python_error ''EventPayloadUnavailable'') | Some p \<Rightarrow> Inr p))"

definition read_payload :: "mcrypto \<Rightarrow> mscope \<Rightarrow> nat \<Rightarrow> mstore \<Rightarrow> payload result" where
  "read_payload cr sc i s = (case event_by_id sc i s of
      None \<Rightarrow> Inl (App_error 404 ''memory_event_not_found'')
    | Some e \<Rightarrow> (case row_get pk_id (ev_payload_key e) (st_keys s) of
        None \<Rightarrow> Inl (App_error 410 ''memory_event_payload_forgotten'')
      | Some k \<Rightarrow>
          require (pk_destroyed k = None) (App_error 410 ''memory_event_payload_forgotten'')
          (bind_r (decrypt cr (ev_cipher e) (pk_dek k)) (\<lambda>p.
           bind_r (upcast cr (ev_type e) (ev_schema e) p) (\<lambda>(version, q).
           require (\<not> version < ev_schema e) (Python_error ''RuntimeError'') (Inr q))))))"

definition destroy_key :: "string \<Rightarrow> string \<Rightarrow> instant \<Rightarrow> mkey \<Rightarrow> mkey" where
  "destroy_key actor reason now k = (if pk_destroyed k \<noteq> None then k
     else k\<lparr>pk_dek := None, pk_destroyed := Some now, pk_by := Some actor, pk_reason := take 240 reason\<rparr>)"

definition destroy_stream_payloads ::
  "mscope \<Rightarrow> nat \<Rightarrow> string \<Rightarrow> string \<Rightarrow> instant \<Rightarrow> mstore \<Rightarrow> (mstore \<times> nat) result" where
  "destroy_stream_payloads sc i actor reason now s = bind_r (require_stream sc i s) (\<lambda>st.
     let keys = filter (\<lambda>k. pk_stream k = ms_id st) (st_keys s) in
     Inr (s\<lparr>st_keys := map (\<lambda>k. if pk_stream k = ms_id st then destroy_key actor reason now k else k) (st_keys s),
            st_streams := row_mod ms_id (ms_id st) (\<lambda>x. x\<lparr>ms_status := Forgotten\<rparr>) (st_streams s)\<rparr>,
       length (filter (\<lambda>k. pk_destroyed k = None) keys)))"

text \<open>
  \<open>replay\<close> with a projector that folds events into a state \<open>'p\<close>. An error ends it; what was projected before
  the error stays.
\<close>

fun replay_events ::
  "mcrypto \<Rightarrow> mscope \<Rightarrow> mstore \<Rightarrow> ('p \<Rightarrow> mevent \<Rightarrow> payload \<Rightarrow> 'p) \<Rightarrow> mevent list \<Rightarrow> nat \<Rightarrow> 'p \<Rightarrow> 'p \<times> nat result" where
  "replay_events cr sc s f [] position p = (p, Inr position)"
| "replay_events cr sc s f (e # es) position p = (case read_payload cr sc (ev_id e) s of
      Inl x \<Rightarrow> (p, Inl x)
    | Inr q \<Rightarrow> replay_events cr sc s f es (ev_position e) (f p e q))"

definition replay ::
  "mcrypto \<Rightarrow> mscope \<Rightarrow> ('p \<Rightarrow> mevent \<Rightarrow> payload \<Rightarrow> 'p) \<Rightarrow> nat \<Rightarrow> nat \<Rightarrow> mstore \<Rightarrow> 'p \<Rightarrow> 'p \<times> nat result" where
  "replay cr sc f after limit s p = replay_events cr sc s f (events_after sc after limit s) after p"

end
