(* ===== verification/Memory_Event_Facts.thy ===== *)
theory Memory_Event_Facts
  imports Memory_Events
begin

text \<open>
  The event store under any interleaving of sessions: gap-free streams, one event per idempotency key,
  one winner among competing appends, payloads that stay readable until they are destroyed and never
  afterwards, and replays in pages.
\<close>

section \<open>Calls in any order\<close>

text \<open>
  The half of an append that writes, with whatever plan its session made in an earlier state, and the
  destruction of a stream's keys. A call that raises is rolled back.
\<close>

datatype ev_op = Commit append_args "(nat \<times> nat) option" instant
  | Destroy mscope nat string string instant

fun ev_step :: "mcrypto \<Rightarrow> mstore \<Rightarrow> ev_op \<Rightarrow> mstore" where
  "ev_step cr s (Commit a plan now) = (case commit_append cr a plan now s of Inl x \<Rightarrow> s | Inr (s', e) \<Rightarrow> s')"
| "ev_step cr s (Destroy sc i actor reason now) =
     (case destroy_stream_payloads sc i actor reason now s of Inl x \<Rightarrow> s | Inr (s', n) \<Rightarrow> s')"

section \<open>The invariant\<close>

definition rows_ok :: "mstore \<Rightarrow> bool" where
  "rows_ok s \<longleftrightarrow> distinct (map ms_id (st_streams s)) \<and> distinct (map stream_key (st_streams s)) \<and>
     distinct (map pk_id (st_keys s)) \<and> distinct (map ev_id (st_events s)) \<and>
     distinct (map event_key (st_events s)) \<and>
     (\<forall>st \<in> set (st_streams s). ms_id st < st_next s) \<and> (\<forall>k \<in> set (st_keys s). pk_id k < st_next s) \<and>
     (\<forall>e \<in> set (st_events s). ev_id e < st_next s)"

definition versions :: "nat \<Rightarrow> mevent list \<Rightarrow> nat list" where
  "versions i es = map ev_version (filter (\<lambda>e. ev_stream e = i) es)"

definition streams_ok :: "mstore \<Rightarrow> bool" where
  "streams_ok s \<longleftrightarrow> (\<forall>st \<in> set (st_streams s). versions (ms_id st) (st_events s) = [1..<Suc (ms_version st)]) \<and>
     (\<forall>e \<in> set (st_events s). ev_stream e \<in> ms_id ` set (st_streams s)) \<and>
     map ev_position (st_events s) = [1..<Suc (length (st_events s))]"

definition keyed :: "mstore \<Rightarrow> mevent \<Rightarrow> bool" where
  "keyed s e \<longleftrightarrow> (\<exists>k \<in> set (st_keys s). pk_id k = ev_payload_key e \<and> pk_stream k = ev_stream e)"

definition keys_ok :: "mstore \<Rightarrow> bool" where
  "keys_ok s \<longleftrightarrow> (\<forall>e \<in> set (st_events s). keyed s e) \<and>
     (\<forall>k \<in> set (st_keys s). pk_destroyed k \<noteq> None \<longrightarrow> pk_dek k = None)"

definition outbox_key :: "outbox_item \<Rightarrow> nat \<times> string" where
  "outbox_key x = (ob_event x, ob_kind x)"

definition outbox_ok :: "mstore \<Rightarrow> bool" where
  "outbox_ok s \<longleftrightarrow> distinct (map outbox_key (st_outbox s)) \<and>
     (\<forall>x \<in> set (st_outbox s). \<exists>e \<in> set (st_events s). ev_id e = ob_event x \<and> ev_stream e = ob_stream x \<and>
       ev_version e = ob_version x)"

definition store_inv :: "mstore \<Rightarrow> bool" where
  "store_inv s \<longleftrightarrow> rows_ok s \<and> streams_ok s \<and> keys_ok s \<and> outbox_ok s"

lemma empty_store_inv: "store_inv empty_store"
  by (simp add: store_inv_def rows_ok_def streams_ok_def keys_ok_def outbox_ok_def empty_store_def)

lemma versions_append [simp]: "versions i (es @ es') = versions i es @ versions i es'"
  by (simp add: versions_def)

lemma versions_single: "versions i [e] = (if ev_stream e = i then [ev_version e] else [])"
  by (simp add: versions_def)

lemma versions_none: "i \<notin> ev_stream ` set es \<Longrightarrow> versions i es = []"
  by (auto simp: versions_def filter_empty_conv)

section \<open>Appends\<close>

lemma stream_for_aggregate_mem: "stream_for_aggregate sc ty agg s = Some st \<Longrightarrow> st \<in> set (st_streams s)"
  by (auto simp: stream_for_aggregate_def stream_in_scope_def stream_by_identity_def find_Some_iff Let_def
      split: option.splits)

text \<open>The stream is one of the store, or a new one for an aggregate that had none.\<close>

lemma open_stream_cases:
  assumes "open_stream a plan s = Inr (s1, st, v)"
  shows "s1 = s \<and> st \<in> set (st_streams s) \<or>
    s1 = s\<lparr>st_streams := st_streams s @ [st], st_next := Suc (st_next s)\<rparr> \<and> ms_id st = st_next s \<and> ms_version st = 0 \<and>
    ms_status st = Active \<and> stream_key st \<notin> stream_key ` set (st_streams s)"
proof (cases plan)
  case None
  show ?thesis
  proof (cases "(sc_tenant (aa_scope a), aa_type a, aa_aggregate a) \<in> stream_key ` set (st_streams s)")
    case True
    with assms None show ?thesis
      by (auto simp: open_stream_def Let_def split: option.splits dest: stream_for_aggregate_mem)
  next
    case False
    with assms None show ?thesis by (simp add: open_stream_def Let_def) (auto simp: stream_key_def)
  qed
next
  case (Some x)
  with assms show ?thesis by (auto simp: open_stream_def split: option.splits prod.splits dest: row_get_SomeD)
qed

lemma open_stream_inv:
  assumes "store_inv s" and "open_stream a plan s = Inr (s1, st, v)"
  shows "store_inv s1 \<and> st \<in> set (st_streams s1) \<and> st_events s1 = st_events s \<and> st_keys s1 = st_keys s \<and>
    st_outbox s1 = st_outbox s \<and> st_next s \<le> st_next s1 \<and>
    (st_streams s1 = st_streams s \<or> st_streams s1 = st_streams s @ [st] \<and> ms_id st \<notin> ms_id ` set (st_streams s))"
  using open_stream_cases [OF assms(2)]
proof (elim disjE conjE)
  assume s1: "s1 = s\<lparr>st_streams := st_streams s @ [st], st_next := Suc (st_next s)\<rparr>"
    and st: "ms_id st = st_next s" "ms_version st = 0" and new: "stream_key st \<notin> stream_key ` set (st_streams s)"
  have fresh: "st_next s \<notin> ms_id ` set (st_streams s)" using assms(1) by (auto simp: store_inv_def rows_ok_def)
  then have "st_next s \<notin> ev_stream ` set (st_events s)" using assms(1) by (auto simp: store_inv_def streams_ok_def)
  from versions_none [OF this] fresh new st assms(1) have "store_inv s1"
    by (auto simp: store_inv_def rows_ok_def streams_ok_def keys_ok_def keyed_def outbox_ok_def s1 less_Suc_eq)
  with s1 st fresh show ?thesis by simp
qed (use assms(1) in simp)

lemma version_rows [simp]:
  "map ms_id (row_mod ms_id i (ms_version_update f) ss) = map ms_id ss"
  "map stream_key (row_mod ms_id i (ms_version_update f) ss) = map stream_key ss"
  "map ms_id (row_mod ms_id i (ms_status_update g) ss) = map ms_id ss"
  "map stream_key (row_mod ms_id i (ms_status_update g) ss) = map stream_key ss"
  by (simp_all add: row_mod_keys stream_key_def)

text \<open>What a successful append writes.\<close>

definition written :: "mcrypto \<Rightarrow> append_args \<Rightarrow> instant \<Rightarrow> mstore \<Rightarrow> mstream \<Rightarrow> mevent \<Rightarrow> mstore" where
  "written cr a now s st e = s\<lparr>st_streams := row_mod ms_id (ms_id st) (\<lambda>x. x\<lparr>ms_version := Suc (ms_version st)\<rparr>) (st_streams s),
     st_keys := st_keys s @ [new_key st s], st_events := st_events s @ [e],
     st_outbox := st_outbox s @ map (\<lambda>(i, k). new_outbox e a now i k) (enumerate (Suc (st_next s)) (aa_kinds a)),
     st_next := Suc (st_next s) + length (aa_kinds a)\<rparr>"

lemma commit_appendD:
  assumes "commit_append cr a plan now s = Inr (s', e)"
  obtains s1 st where "open_stream a plan s = Inr (s1, st, ms_version st)"
    and "e = new_event cr a st (Suc (ms_version st)) now s1" and "s' = written cr a now s1 st e"
    and "event_key e \<notin> event_key ` set (st_events s1)" and "distinct (aa_kinds a)"
    and "ms_status st = Forgotten \<Longrightarrow> ap_type (aa_event a) = forgotten_type"
proof -
  from assms obtain s1 st v where o: "open_stream a plan s = Inr (s1, st, v)" "ms_version st = v"
    and e: "e = new_event cr a st (Suc v) now s1"
      "event_key e \<notin> event_key ` set (st_events s1)" "distinct (aa_kinds a)"
      "ms_status st = Forgotten \<longrightarrow> ap_type (aa_event a) = forgotten_type"
    and s': "s' = written cr a now s1 st e"
    unfolding commit_append_def bind_r_Inr written_def Let_def by (auto split: prod.splits)
  show thesis by (rule that [of s1 st]) (use o e s' in auto)
qed

lemma new_event_fields [simp]:
  "ev_id (new_event cr a st v now s) = st_next s" "ev_stream (new_event cr a st v now s) = ms_id st"
  "ev_version (new_event cr a st v now s) = v" "ev_payload_key (new_event cr a st v now s) = st_next s"
  "ev_position (new_event cr a st v now s) = Suc (length (st_events s))"
  "ev_hash (new_event cr a st v now s) = cr_hash cr (ap_payload (aa_event a))"
  "ev_type (new_event cr a st v now s) = ap_type (aa_event a)"
  "ev_schema (new_event cr a st v now s) = ap_schema (aa_event a)"
  "ev_cipher (new_event cr a st v now s) = cr_seal cr (st_next s) (ap_payload (aa_event a))"
  "event_key (new_event cr a st v now s) =
     (sc_tenant (aa_scope a), ap_producer (aa_event a), ap_key (aa_event a))"
  by (simp_all add: new_event_def event_key_def Let_def)

lemma new_key_fields [simp]:
  "pk_id (new_key st s) = st_next s" "pk_stream (new_key st s) = ms_id st" "pk_destroyed (new_key st s) = None"
  "pk_dek (new_key st s) = Some (st_next s)"
  by (simp_all add: new_key_def)

lemma outbox_of_event:
  assumes "distinct (aa_kinds a)" and "ev_id e \<notin> ob_event ` set os" and "distinct (map outbox_key os)"
  shows "distinct (map outbox_key (os @ map (\<lambda>(i, k). new_outbox e a now i k) (enumerate n (aa_kinds a))))"
proof -
  have "map outbox_key (map (\<lambda>(i, k). new_outbox e a now i k) (enumerate n ks)) = map (\<lambda>k. (ev_id e, k)) ks" for n ks
    by (induction ks arbitrary: n) (simp_all add: outbox_key_def new_outbox_def)
  then have "map outbox_key (map (\<lambda>(i, k). new_outbox e a now i k) (enumerate n (aa_kinds a))) =
      map (\<lambda>k. (ev_id e, k)) (aa_kinds a)" .
  moreover from assms(1) have "distinct (map (\<lambda>k. (ev_id e, k)) (aa_kinds a))" by (simp add: distinct_map inj_on_def)
  moreover from assms(2) have "\<forall>x \<in> set os. ob_event x \<noteq> ev_id e" by (metis imageI)
  ultimately show ?thesis using assms(3) by (auto simp: outbox_key_def)
qed

lemma written_rows:
  assumes "store_inv s" and "event_key e \<notin> event_key ` set (st_events s)" and "ev_id e = st_next s"
  shows "rows_ok (written cr a now s st e)"
proof -
  from assms(1) have "st_next s \<notin> pk_id ` set (st_keys s)" "st_next s \<notin> ev_id ` set (st_events s)"
    by (auto simp: store_inv_def rows_ok_def)
  then show ?thesis
    using assms unfolding store_inv_def rows_ok_def written_def
    by (auto simp: less_Suc_eq trans_less_add1 dest!: set_row_mod)
qed

lemma written_streams:
  assumes "store_inv s" and "st \<in> set (st_streams s)" and "e = new_event cr a st (Suc (ms_version st)) now s"
  shows "streams_ok (written cr a now s st e)"
proof -
  let ?ss = "row_mod ms_id (ms_id st) (\<lambda>x. x\<lparr>ms_version := Suc (ms_version st)\<rparr>) (st_streams s)"
  have v: "versions (ms_id x) (st_events s @ [e]) = [1..<Suc (ms_version x)]" if x: "x \<in> set ?ss" for x
  proof -
    from set_row_mod [OF x] obtain r where r: "r \<in> set (st_streams s)"
      and xr: "x = (if ms_id r = ms_id st then r\<lparr>ms_version := Suc (ms_version st)\<rparr> else r)" by blast
    have old: "versions (ms_id r) (st_events s) = [1..<Suc (ms_version r)]" "versions (ms_id st) (st_events s) = [1..<Suc (ms_version st)]"
      using assms(1,2) r by (simp_all add: store_inv_def streams_ok_def)
    show ?thesis
    proof (cases "ms_id r = ms_id st")
      case True
      then show ?thesis using old by (simp add: xr assms(3) versions_single)
    next
      case False
      then show ?thesis using old by (simp add: xr assms(3) versions_single)
    qed
  qed
  have ids: "ms_id ` set ?ss = ms_id ` set (st_streams s)"
    by (metis list.set_map version_rows(1))
  have "map ev_position (st_events s @ [e]) = [1..<Suc (length (st_events s @ [e]))]"
    using assms(1) by (simp add: store_inv_def streams_ok_def assms(3))
  with v ids assms(1,2) show ?thesis
    by (simp add: streams_ok_def written_def store_inv_def assms(3))
qed

lemma written_keys: "store_inv s \<Longrightarrow> ev_payload_key e = st_next s \<Longrightarrow> ev_stream e = ms_id st \<Longrightarrow>
    keys_ok (written cr a now s st e)"
  by (auto simp: store_inv_def keys_ok_def keyed_def written_def)

lemma written_outbox:
  assumes "store_inv s" and "distinct (aa_kinds a)" and "ev_id e = st_next s"
  shows "outbox_ok (written cr a now s st e)"
proof -
  from assms(1) have old: "distinct (map outbox_key (st_outbox s))"
    and refs: "x \<in> set (st_outbox s) \<Longrightarrow> \<exists>e \<in> set (st_events s). ev_id e = ob_event x \<and> ev_stream e = ob_stream x \<and>
      ev_version e = ob_version x" for x by (simp_all add: store_inv_def outbox_ok_def)
  have "st_next s \<notin> ob_event ` set (st_outbox s)"
  proof
    assume "st_next s \<in> ob_event ` set (st_outbox s)"
    then obtain x where "x \<in> set (st_outbox s)" "ob_event x = st_next s" by auto
    with refs [of x] assms(1) show False by (auto simp: store_inv_def rows_ok_def)
  qed
  from outbox_of_event [OF assms(2) _ old, of e] this assms(3)
  have "distinct (map outbox_key (st_outbox (written cr a now s st e)))" by (simp add: written_def)
  moreover have "\<exists>y \<in> set (st_events (written cr a now s st e)). ev_id y = ob_event x \<and> ev_stream y = ob_stream x \<and>
      ev_version y = ob_version x" if "x \<in> set (st_outbox (written cr a now s st e))" for x
    using that refs [of x] by (auto simp: written_def new_outbox_def)
  ultimately show ?thesis by (simp add: outbox_ok_def)
qed

lemma commit_inv: "store_inv s \<Longrightarrow> commit_append cr a plan now s = Inr (s', e) \<Longrightarrow> store_inv s'"
proof (elim commit_appendD)
  fix s1 st
  assume inv: "store_inv s" and o: "open_stream a plan s = Inr (s1, st, ms_version st)"
    and e: "e = new_event cr a st (Suc (ms_version st)) now s1" and s': "s' = written cr a now s1 st e"
    and key: "event_key e \<notin> event_key ` set (st_events s1)" and d: "distinct (aa_kinds a)"
  from open_stream_inv [OF inv o] have i1: "store_inv s1" and st: "st \<in> set (st_streams s1)" by simp_all
  show "store_inv s'"
    using written_rows [OF i1 key] written_streams [OF i1 st e] written_keys [OF i1] written_outbox [OF i1 d]
    unfolding store_inv_def s' by (simp add: e)
qed

lemma destroy_streamD:
  assumes "destroy_stream_payloads sc i actor reason now s = Inr (s', n)"
  shows "s' = s\<lparr>st_keys := map (\<lambda>k. if pk_stream k = i then destroy_key actor reason now k else k) (st_keys s),
    st_streams := row_mod ms_id i (\<lambda>x. x\<lparr>ms_status := Forgotten\<rparr>) (st_streams s)\<rparr> \<and> i \<in> ms_id ` set (st_streams s)"
proof -
  from assms obtain st where st: "require_stream sc i s = Inr st"
    and s': "s' = s\<lparr>st_keys := map (\<lambda>k. if pk_stream k = ms_id st then destroy_key actor reason now k else k) (st_keys s),
      st_streams := row_mod ms_id (ms_id st) (\<lambda>x. x\<lparr>ms_status := Forgotten\<rparr>) (st_streams s)\<rparr>"
    unfolding destroy_stream_payloads_def bind_r_Inr Let_def by auto
  from st have "ms_id st = i \<and> st \<in> set (st_streams s)"
    by (auto simp: require_stream_def stream_in_scope_def stream_by_identity_def find_Some_iff Let_def split: option.splits)
  with s' show ?thesis by auto
qed

lemma destroy_key_fields [simp]:
  "pk_id (destroy_key actor reason now k) = pk_id k" "pk_stream (destroy_key actor reason now k) = pk_stream k"
  "pk_destroyed (destroy_key actor reason now k) \<noteq> None"
  by (simp_all add: destroy_key_def)

lemma destroy_inv:
  assumes "store_inv s" and "destroy_stream_payloads sc i actor reason now s = Inr (s', n)"
  shows "store_inv s'"
proof -
  let ?d = "\<lambda>k. if pk_stream k = i then destroy_key actor reason now k else k"
  let ?ss = "row_mod ms_id i (\<lambda>x. x\<lparr>ms_status := Forgotten\<rparr>) (st_streams s)"
  from destroy_streamD [OF assms(2)] have s': "s' = s\<lparr>st_keys := map ?d (st_keys s), st_streams := ?ss\<rparr>" by simp
  have ids: "ms_id ` set ?ss = ms_id ` set (st_streams s)" by (metis list.set_map version_rows(3))
  have old: "\<exists>r \<in> set (st_streams s). ms_id r = ms_id x \<and> ms_version r = ms_version x" if "x \<in> set ?ss" for x
    using set_row_mod [OF that] by auto
  have same: "map pk_id (map ?d (st_keys s)) = map pk_id (st_keys s)" by simp
  have "distinct (map pk_id (map ?d (st_keys s)))"
    unfolding same using assms(1) by (simp add: store_inv_def rows_ok_def)
  moreover have "\<forall>k \<in> set (map ?d (st_keys s)). pk_id k < st_next s"
    using assms(1) by (auto simp: store_inv_def rows_ok_def)
  moreover have "\<forall>x \<in> set ?ss. ms_id x < st_next s"
  proof
    fix x assume "x \<in> set ?ss"
    from old [OF this] assms(1) show "ms_id x < st_next s" by (auto simp: store_inv_def rows_ok_def)
  qed
  ultimately have "rows_ok s'" using assms(1) unfolding store_inv_def rows_ok_def s' by simp
  moreover from assms(1) old ids have "streams_ok s'" by (fastforce simp: store_inv_def streams_ok_def s')
  moreover have "keyed s' e" if "keyed s e" for e
  proof -
    from that obtain k where "k \<in> set (st_keys s)" "pk_id k = ev_payload_key e" "pk_stream k = ev_stream e"
      by (auto simp: keyed_def)
    then have "?d k \<in> set (st_keys s') \<and> pk_id (?d k) = ev_payload_key e \<and> pk_stream (?d k) = ev_stream e"
      by (simp add: s')
    then show ?thesis unfolding keyed_def by blast
  qed
  with assms(1) have "keys_ok s'" by (auto simp: store_inv_def keys_ok_def s' destroy_key_def)
  moreover from assms(1) have "outbox_ok s'" by (simp add: store_inv_def outbox_ok_def s')
  ultimately show ?thesis by (simp add: store_inv_def)
qed

interpretation store_machine: step_machine "ev_step cr" store_inv for cr
proof
  fix s :: mstore and e :: ev_op
  assume inv: "store_inv s"
  show "store_inv (ev_step cr s e)"
    by (cases e) (use inv commit_inv [OF inv] destroy_inv [OF inv] in \<open>auto split: sum.split\<close>)
qed

text \<open>
  C9. The event store stays consistent under every interleaving of sessions, each writing with whatever
  it had read earlier: the events of a stream carry exactly the versions from 1 to the stream's version,
  in order and without gaps; positions count the events; an aggregate has one stream and an idempotency
  key one event; every event has its key row; and the outbox has each projection of an event once and no
  row without its event.
\<close>

theorem memory_store_invariant:
  "let s = foldl (ev_step cr) empty_store es in
     list_all (\<lambda>st. map ev_version (filter (\<lambda>e. ev_stream e = ms_id st) (st_events s)) = [1..<Suc (ms_version st)])
       (st_streams s) \<and>
     map ev_position (st_events s) = [1..<Suc (length (st_events s))] \<and>
     distinct (map stream_key (st_streams s)) \<and> distinct (map event_key (st_events s)) \<and>
     list_all (keyed s) (st_events s) \<and> distinct (map outbox_key (st_outbox s)) \<and>
     list_all (\<lambda>x. list_ex (\<lambda>e. ev_id e = ob_event x \<and> ev_version e = ob_version x) (st_events s)) (st_outbox s)"
  using store_machine.run_inv [OF empty_store_inv, of cr es]
  unfolding Let_def store_inv_def rows_ok_def streams_ok_def keys_ok_def outbox_ok_def list_all_iff list_ex_iff versions_def
  by blast

section \<open>What only grows\<close>

definition grown :: "mstore \<Rightarrow> mstore \<Rightarrow> bool" where
  "grown s s' \<longleftrightarrow> (\<exists>es. st_events s' = st_events s @ es) \<and>
     (\<forall>i st. row_get ms_id i (st_streams s) = Some st \<longrightarrow> (\<exists>st'. row_get ms_id i (st_streams s') = Some st' \<and>
        ms_version st \<le> ms_version st' \<and> (ms_status st = Forgotten \<longrightarrow> ms_status st' = Forgotten))) \<and>
     (\<forall>i k. row_get pk_id i (st_keys s) = Some k \<longrightarrow> (\<exists>k'. row_get pk_id i (st_keys s') = Some k' \<and>
        pk_stream k' = pk_stream k \<and> (pk_destroyed k \<noteq> None \<longrightarrow> pk_destroyed k' \<noteq> None) \<and>
        (pk_destroyed k' = None \<longrightarrow> pk_dek k' = pk_dek k)))"

lemma grown_refl: "grown s s"
  by (simp add: grown_def)

lemma grown_trans: "grown s t \<Longrightarrow> grown t u \<Longrightarrow> grown s u"
  unfolding grown_def by (elim conjE, intro conjI) (metis append.assoc, metis order_trans, metis)

lemma grown_events: "grown s s' \<Longrightarrow> e \<in> set (st_events s) \<Longrightarrow> e \<in> set (st_events s')"
  by (auto simp: grown_def)

lemma grown_stream:
  assumes "grown s s'" and "row_get ms_id i (st_streams s) = Some st"
  obtains st' where "row_get ms_id i (st_streams s') = Some st'" and "ms_version st \<le> ms_version st'"
    and "ms_status st = Forgotten \<Longrightarrow> ms_status st' = Forgotten"
  using assms unfolding grown_def by metis

lemma grown_key:
  assumes "grown s s'" and "row_get pk_id i (st_keys s) = Some k"
  obtains k' where "row_get pk_id i (st_keys s') = Some k'" and "pk_destroyed k \<noteq> None \<Longrightarrow> pk_destroyed k' \<noteq> None"
  using assms unfolding grown_def by metis

lemma open_stream_grown: "open_stream a plan s = Inr (s1, st, v) \<Longrightarrow> grown s s1"
  by (drule open_stream_cases) (auto simp: grown_def row_get_append)

lemma written_grown: "row_get ms_id (ms_id st) (st_streams s) = Some st \<Longrightarrow> grown s (written cr a now s st e)"
  unfolding grown_def written_def
proof (intro conjI allI impI)
  fix i x
  assume st: "row_get ms_id (ms_id st) (st_streams s) = Some st" and x: "row_get ms_id i (st_streams s) = Some x"
  have "row_get ms_id i (row_mod ms_id (ms_id st) (\<lambda>x. x\<lparr>ms_version := Suc (ms_version st)\<rparr>) (st_streams s)) =
      Some (if i = ms_id st then x\<lparr>ms_version := Suc (ms_version st)\<rparr> else x)"
    using x by (cases "i = ms_id st") (simp_all add: row_get_mod_same row_get_mod_other)
  with st x show "\<exists>st'. row_get ms_id i (st_streams
      (s\<lparr>st_streams := row_mod ms_id (ms_id st) (\<lambda>x. x\<lparr>ms_version := Suc (ms_version st)\<rparr>) (st_streams s),
         st_keys := st_keys s @ [new_key st s], st_events := st_events s @ [e],
         st_outbox := st_outbox s @ map (\<lambda>(i, k). new_outbox e a now i k) (enumerate (Suc (st_next s)) (aa_kinds a)),
         st_next := Suc (st_next s) + length (aa_kinds a)\<rparr>)) = Some st' \<and> ms_version x \<le> ms_version st' \<and>
      (ms_status x = Forgotten \<longrightarrow> ms_status st' = Forgotten)"
    by auto
qed (auto simp: row_get_append)

lemma commit_grown:
  assumes "store_inv s" and "commit_append cr a plan now s = Inr (s', e)"
  shows "grown s s'"
  using assms(2)
proof (rule commit_appendD)
  fix s1 st
  assume o: "open_stream a plan s = Inr (s1, st, ms_version st)" and s': "s' = written cr a now s1 st e"
  from open_stream_inv [OF assms(1) o] have "store_inv s1" "st \<in> set (st_streams s1)" by simp_all
  then have "row_get ms_id (ms_id st) (st_streams s1) = Some st"
    by (intro row_get_distinct) (simp_all add: store_inv_def rows_ok_def)
  from written_grown [OF this] show "grown s s'" unfolding s' by (rule grown_trans [OF open_stream_grown [OF o]])
qed

lemma destroy_grown:
  assumes "destroy_stream_payloads sc i actor reason now s = Inr (s', n)"
  shows "grown s s'"
proof -
  let ?d = "\<lambda>k. if pk_stream k = i then destroy_key actor reason now k else k"
  from destroy_streamD [OF assms] have s': "st_keys s' = map ?d (st_keys s)" "st_events s' = st_events s"
    "st_streams s' = row_mod ms_id i (\<lambda>x. x\<lparr>ms_status := Forgotten\<rparr>) (st_streams s)" by simp_all
  have keys: "row_get pk_id j (map ?d ks) = map_option ?d (row_get pk_id j ks)" for j ks
    by (induction ks) auto
  have streams: "row_get ms_id j (row_mod ms_id i (\<lambda>x. x\<lparr>ms_status := Forgotten\<rparr>) ss) =
      map_option (\<lambda>x. if j = i then x\<lparr>ms_status := Forgotten\<rparr> else x) (row_get ms_id j ss)" for j ss
    by (cases "j = i") (simp_all add: row_get_mod_same row_get_mod_other option.map_ident)
  show ?thesis by (auto simp: grown_def s' keys streams destroy_key_def)
qed

lemma step_grown: "store_inv s \<Longrightarrow> grown s (ev_step cr s x)"
  by (cases x) (auto split: sum.split intro: commit_grown destroy_grown grown_refl)

lemma run_grown: "store_inv s \<Longrightarrow> grown s (foldl (ev_step cr) s es)"
proof (induction es arbitrary: s)
  case Nil
  then show ?case by (simp add: grown_refl)
next
  case (Cons x es)
  from grown_trans [OF step_grown [OF Cons.prems] Cons.IH [OF store_machine.step_inv [OF Cons.prems]]]
  show ?case by simp
qed

section \<open>Competing appends\<close>

text \<open>
  C10. Optimistic concurrency has one winner. Of two sessions that saw a stream at the same version, the
  second to write is refused, whatever was appended or destroyed in between and whatever it wanted to
  write: with a version conflict, or because the stream has been forgotten.
\<close>

theorem stale_append_conflicts:
  assumes "commit_append cr a (Some (i, v)) now (foldl (ev_step cr) empty_store before) = Inr (s1, e)"
  shows "commit_append cr b (Some (i, v)) now' (foldl (ev_step cr) s1 es) \<in>
    {Inl version_conflict, Inl (App_error 410 ''memory_stream_forgotten'')}"
proof -
  let ?s = "foldl (ev_step cr) empty_store before" and ?t = "foldl (ev_step cr) s1 es"
  have inv: "store_inv ?s" by (rule store_machine.run_inv [OF empty_store_inv])
  from assms obtain st where st: "row_get ms_id i (st_streams ?s) = Some st" "ms_version st = v"
    and s1: "s1 = written cr a now ?s st e"
    by (elim commit_appendD) (auto simp: open_stream_def split: option.splits)
  from row_get_key [OF st(1)] have "row_get ms_id i (st_streams s1) = Some (st\<lparr>ms_version := Suc v\<rparr>)"
    using st by (simp add: s1 written_def row_get_mod_same)
  then obtain st' where st': "row_get ms_id i (st_streams ?t) = Some st'" "Suc v \<le> ms_version st'"
    by (rule grown_stream [OF run_grown [OF commit_inv [OF inv assms], of cr es]]) simp
  then have "ms_version st' \<noteq> v" by simp
  with st'(1) show ?thesis
    by (auto simp: commit_append_def open_stream_def require_def Let_def)
qed

section \<open>Idempotency keys\<close>

lemma found_key_stays:
  "grown s s' \<Longrightarrow> event_by_idempotency tenant producer key s = Some e \<Longrightarrow>
   event_by_idempotency tenant producer key s' = Some e"
  by (auto simp: grown_def event_by_idempotency_def row_get_append)

lemma store_appendD:
  assumes "store_append cr a now s = Inr (s1, e, False)"
  shows "(\<exists>x. commit_append cr a x now s = Inr (s1, e)) \<and>
    event_by_idempotency (sc_tenant (aa_scope a)) (ap_producer (aa_event a)) (ap_key (aa_event a)) s = None \<and>
    (\<forall>v. current_schema (ap_type (aa_event a)) = Some v \<longrightarrow> ap_schema (aa_event a) = v)"
proof -
  from assms obtain plan where p: "prepare_append cr a s = Inr plan"
    and c: "(case plan of Replay q \<Rightarrow> Inr (s, q, True)
      | Plan x \<Rightarrow> bind_r (commit_append cr a x now s) (\<lambda>(s', e). Inr (s', e, False))) = Inr (s1, e, False)"
    unfolding store_append_def bind_r_Inr by blast
  from c obtain x where x: "plan = Plan x" "commit_append cr a x now s = Inr (s1, e)"
    by (cases plan) (auto simp: bind_r_Inr)
  from p show ?thesis unfolding x(1) using x(2) by (auto simp: prepare_append_def Let_def split: option.splits)
qed

text \<open>
  An append is recorded once. When an append has succeeded, then after any further calls of any
  sessions the same append under the same idempotency key answers with the event that was stored then
  and changes nothing.
\<close>

lemma append_is_idempotent:
  assumes "store_append cr a now (foldl (ev_step cr) empty_store before) = Inr (s1, e, replayed)"
  shows "store_append cr a now' (foldl (ev_step cr) s1 es) = Inr (foldl (ev_step cr) s1 es, e, True)"
proof -
  let ?s = "foldl (ev_step cr) empty_store before" and ?t = "foldl (ev_step cr) s1 es"
  let ?find = "event_by_idempotency (sc_tenant (aa_scope a)) (ap_producer (aa_event a)) (ap_key (aa_event a))"
  have inv: "store_inv ?s" by (rule store_machine.run_inv [OF empty_store_inv])
  have stored: "?find s1 = Some e \<and> ev_hash e = cr_hash cr (ap_payload (aa_event a)) \<and> ev_type e = ap_type (aa_event a) \<and>
    store_inv s1"
  proof (cases "?find ?s")
    case (Some p)
    with assms inv show ?thesis
      by (auto simp: store_append_def prepare_append_def bind_r_Inr Let_def)
  next
    case None
    with assms obtain x where c: "commit_append cr a x now ?s = Inr (s1, e)"
      unfolding store_append_def bind_r_Inr by (auto simp: prepare_append_def Let_def bind_r_Inr split: option.splits)
    then obtain u st where o: "open_stream a x ?s = Inr (u, st, ms_version st)" and s1: "s1 = written cr a now u st e"
      and e: "e = new_event cr a st (Suc (ms_version st)) now u" by (rule commit_appendD)
    from open_stream_inv [OF inv o] None have "?find u = None" by (simp add: event_by_idempotency_def)
    with commit_inv [OF inv c] show ?thesis
      by (simp add: s1 written_def e event_by_idempotency_def row_get_append)
  qed
  from found_key_stays [OF run_grown] stored have "?find ?t = Some e" by blast
  moreover from assms have "scan_payload cr (ap_payload (aa_event a)) = [] \<and>
      (\<forall>v \<in> set_option (current_schema (ap_type (aa_event a))). ap_schema (aa_event a) = v)"
    by (auto simp: store_append_def prepare_append_def bind_r_Inr Let_def)
  ultimately show ?thesis using stored by (simp add: store_append_def prepare_append_def Let_def)
qed

section \<open>Forgetting\<close>

lemma read_event:
  assumes "store_inv s" and "e \<in> set (st_events s)"
  shows "event_by_id sc (ev_id e) s = (if visible sc e then Some e else None)"
proof -
  have same: "x = e" if "x \<in> set (st_events s)" "ev_id x = ev_id e" for x
    using assms that by (auto simp: store_inv_def rows_ok_def distinct_map inj_on_def)
  show ?thesis
  proof (cases "event_by_id sc (ev_id e) s")
    case None
    with assms(2) show ?thesis by (auto simp: event_by_id_def find_None_iff)
  next
    case (Some x)
    then have "x \<in> set (st_events s)" "ev_id x = ev_id e" "visible sc x" by (auto simp: event_by_id_def find_Some_iff)
    with Some same [of x] show ?thesis by simp
  qed
qed

lemma key_of_event:
  assumes "store_inv s" and "e \<in> set (st_events s)"
  obtains k where "row_get pk_id (ev_payload_key e) (st_keys s) = Some k" and "pk_stream k = ev_stream e"
    and "k \<in> set (st_keys s)"
proof -
  from assms obtain k where k: "k \<in> set (st_keys s)" "pk_id k = ev_payload_key e" "pk_stream k = ev_stream e"
    by (auto simp: store_inv_def keys_ok_def keyed_def)
  from row_get_distinct [of pk_id, OF _ k(1)] assms(1) k show thesis
    by (intro that [of k]) (simp_all add: store_inv_def rows_ok_def)
qed

text \<open>
  C11. Forgotten is forgotten. Once the keys of a stream have been destroyed, no payload of an event it had
  can be read by anyone, whatever is called afterwards, and nothing but the record of the forgetting
  itself can be appended to it.
\<close>

theorem forgotten_payloads_stay_unreadable:
  assumes "destroy_stream_payloads sc i actor reason now (foldl (ev_step cr) empty_store before) = Inr (s1, n)"
    and "e \<in> set (st_events s1)" and "ev_stream e = i" and "ap_type (aa_event a) \<noteq> forgotten_type"
  shows "read_payload cr sc' (ev_id e) (foldl (ev_step cr) s1 es) \<in>
      {Inl (App_error 404 ''memory_event_not_found''), Inl (App_error 410 ''memory_event_payload_forgotten'')} \<and>
    commit_append cr a (Some (i, v)) now' (foldl (ev_step cr) s1 es) = Inl (App_error 410 ''memory_stream_forgotten'')"
proof -
  let ?s = "foldl (ev_step cr) empty_store before" and ?t = "foldl (ev_step cr) s1 es"
  have inv0: "store_inv ?s" by (rule store_machine.run_inv [OF empty_store_inv])
  have inv: "store_inv s1" by (rule destroy_inv [OF inv0 assms(1)])
  have grow: "grown s1 ?t" and invt: "store_inv ?t"
    by (rule run_grown [OF inv], rule store_machine.run_inv [OF inv])
  from destroy_streamD [OF assms(1)] have s1:
    "st_keys s1 = map (\<lambda>k. if pk_stream k = i then destroy_key actor reason now k else k) (st_keys ?s)"
    "st_streams s1 = row_mod ms_id i (\<lambda>x. x\<lparr>ms_status := Forgotten\<rparr>) (st_streams ?s)"
    "i \<in> ms_id ` set (st_streams ?s)" by simp_all
  obtain k where k: "row_get pk_id (ev_payload_key e) (st_keys s1) = Some k" "pk_stream k = ev_stream e" "k \<in> set (st_keys s1)"
    by (rule key_of_event [OF inv assms(2)])
  from k(3) have "k \<in> (\<lambda>k. if pk_stream k = i then destroy_key actor reason now k else k) ` set (st_keys ?s)"
    unfolding s1(1) set_map .
  then obtain k0 where k0: "k = (if pk_stream k0 = i then destroy_key actor reason now k0 else k0)" by (rule imageE)
  have d: "pk_destroyed k \<noteq> None"
    using k(2) assms(3) unfolding k0 by (cases "pk_stream k0 = i") simp_all
  obtain k' where "row_get pk_id (ev_payload_key e) (st_keys ?t) = Some k'" "pk_destroyed k' \<noteq> None"
    by (rule grown_key [OF grow k(1)]) (use d in blast)
  then have unread: "read_payload cr sc' (ev_id e) ?t \<in>
      {Inl (App_error 404 ''memory_event_not_found''), Inl (App_error 410 ''memory_event_payload_forgotten'')}"
    using read_event [OF invt grown_events [OF grow assms(2)]] by (auto simp: read_payload_def)
  from s1(3) row_get_None_iff [of ms_id i "st_streams ?s"] obtain st where
    "row_get ms_id i (st_streams ?s) = Some st" by auto
  then have "row_get ms_id i (st_streams s1) = Some (st\<lparr>ms_status := Forgotten\<rparr>)" by (simp add: s1(2) row_get_mod_same)
  then obtain st' where "row_get ms_id i (st_streams ?t) = Some st'" "ms_status st' = Forgotten"
    by (rule grown_stream [OF grow]) simp
  with unread assms(4) show ?thesis by (simp add: commit_append_def open_stream_def)
qed

section \<open>Reading back\<close>

lemma upcast_current:
  "(\<And>v. current_schema t = Some v \<Longrightarrow> version = v) \<Longrightarrow> upcast cr t version p = Inr (version, p)"
  by (auto simp: upcast_def upcast_from.simps split: option.split)

lemma commit_keeps_keys:
  "commit_append cr a plan now s = Inr (s', e) \<Longrightarrow> \<exists>ks. st_keys s' = st_keys s @ ks"
  by (erule commit_appendD) (auto simp: written_def dest!: open_stream_cases)

lemma key_stays:
  assumes "row_get pk_id j (st_keys s) = Some k" and "pk_stream k = i"
    and "list_all (\<lambda>x. case x of Destroy sc i' actor reason now \<Rightarrow> i' \<noteq> i | _ \<Rightarrow> True) es"
  shows "row_get pk_id j (st_keys (foldl (ev_step cr) s es)) = Some k"
  using assms(1,3)
proof (induction es arbitrary: s)
  case (Cons x es)
  have "row_get pk_id j (st_keys (ev_step cr s x)) = Some k"
  proof (cases x)
    case (Commit a plan now)
    with Cons.prems(1) show ?thesis by (auto simp: row_get_append split: sum.split dest!: commit_keeps_keys)
  next
    case (Destroy sc i' actor reason now)
    have "row_get pk_id j (map (\<lambda>k. if pk_stream k = i' then destroy_key actor reason now k else k) ks) =
        map_option (\<lambda>k. if pk_stream k = i' then destroy_key actor reason now k else k) (row_get pk_id j ks)" for ks
      by (induction ks) auto
    with Cons.prems Destroy assms(2) show ?thesis by (auto split: sum.split dest!: destroy_streamD)
  qed
  with Cons show ?case by simp
qed simp

text \<open>
  C12. What was stored is read back. A payload that was appended is what anyone who may see the event
  reads, after any further calls that do not forget its stream, provided only that a sealed payload can
  be opened again with its own key.
\<close>

theorem appended_payload_reads_back:
  assumes "store_append cr a now (foldl (ev_step cr) empty_store before) = Inr (s1, e, False)" and "visible sc e"
    and "list_all (\<lambda>x. case x of Destroy sc i actor reason now \<Rightarrow> i \<noteq> ev_stream e | _ \<Rightarrow> True) es"
    and "\<And>k. cr_seal cr k (ap_payload (aa_event a)) \<noteq> [] \<and>
      cr_open cr k (cr_seal cr k (ap_payload (aa_event a))) = Some (ap_payload (aa_event a))"
  shows "read_payload cr sc (ev_id e) (foldl (ev_step cr) s1 es) = Inr (ap_payload (aa_event a))"
proof -
  let ?s = "foldl (ev_step cr) empty_store before" and ?t = "foldl (ev_step cr) s1 es"
  have inv0: "store_inv ?s" by (rule store_machine.run_inv [OF empty_store_inv])
  from store_appendD [OF assms(1)] obtain x where c: "commit_append cr a x now ?s = Inr (s1, e)"
    and schema: "\<And>v. current_schema (ap_type (aa_event a)) = Some v \<Longrightarrow> ap_schema (aa_event a) = v" by blast
  have inv: "store_inv s1" by (rule commit_inv [OF inv0 c])
  have grow: "grown s1 ?t" and invt: "store_inv ?t" by (rule run_grown [OF inv], rule store_machine.run_inv [OF inv])
  from c obtain u st where u: "s1 = written cr a now u st e" "e = new_event cr a st (Suc (ms_version st)) now u"
    and o: "open_stream a x ?s = Inr (u, st, ms_version st)" by (rule commit_appendD)
  then have mem: "e \<in> set (st_events s1)" by (simp add: written_def)
  from open_stream_inv [OF inv0 o] have "store_inv u" by simp
  then have "row_get pk_id (st_next u) (st_keys u) = None" by (auto simp: store_inv_def rows_ok_def row_get_None_iff)
  then have "row_get pk_id (ev_payload_key e) (st_keys s1) = Some (new_key st u)"
    using row_get_snoc_new [of pk_id "new_key st u" "st_keys u"] by (simp add: u written_def)
  from key_stays [OF this _ assms(3)] have key: "row_get pk_id (ev_payload_key e) (st_keys ?t) = Some (new_key st u)"
    by (simp add: u)
  have "event_by_id sc (ev_id e) ?t = Some e" using read_event [OF invt grown_events [OF grow mem]] assms(2) by simp
  with key assms(4) [of "st_next u"] show ?thesis
    by (simp add: read_payload_def u decrypt_def upcast_current schema)
qed

section \<open>Replaying in pages\<close>

lemma sorted_after:
  assumes "sorted_wrt (\<lambda>x y. f x < (f y :: nat)) (xs @ [x] @ ys)"
  shows "filter (\<lambda>y. f x < f y) (xs @ [x] @ ys) = ys"
  using assms by (fastforce simp: sorted_wrt_append filter_empty_conv filter_id_conv)

lemma replay_events_append:
  "replay_events cr sc s f (es @ es') position p = (case replay_events cr sc s f es position p of
     (p1, Inl x) \<Rightarrow> (p1, Inl x) | (p1, Inr q) \<Rightarrow> replay_events cr sc s f es' q p1)"
  by (induction es arbitrary: position p) (auto split: sum.split)

lemma replay_events_position:
  "replay_events cr sc s f es position p = (p1, Inr q) \<Longrightarrow> q = (if es = [] then position else ev_position (last es))"
  by (induction es arbitrary: position p) (auto split: sum.splits if_splits)

text \<open>
  A replay can be done in pages. A replay of \<open>m\<close> events followed by one of \<open>n\<close> events from the position
  it returned projects exactly what one replay of \<open>m + n\<close> events projects: no event is skipped at the seam
  and none is applied twice.
\<close>

lemma replay_in_pages:
  assumes "replay cr sc f after m (foldl (ev_step cr) empty_store es) p = (p1, Inr q)"
  shows "replay cr sc f after (m + n) (foldl (ev_step cr) empty_store es) p =
    replay cr sc f q n (foldl (ev_step cr) empty_store es) p1"
proof -
  let ?s = "foldl (ev_step cr) empty_store es"
  let ?P = "\<lambda>e. after < ev_position e \<and> visible sc e"
  let ?xs = "filter ?P (st_events ?s)"
  have "map ev_position (st_events ?s) = [1..<Suc (length (st_events ?s))]"
    using store_machine.run_inv [OF empty_store_inv, of cr es] by (simp add: store_inv_def streams_ok_def)
  then have sorted: "sorted_wrt (\<lambda>x y. ev_position x < ev_position y) (st_events ?s)"
    by (metis sorted_wrt_map sorted_wrt_upt)
  have "filter (\<lambda>e. q < ev_position e \<and> visible sc e) (st_events ?s) = drop m ?xs"
  proof (cases "take m ?xs")
    case Nil
    with assms have "q = after" by (simp add: replay_def events_after_def)
    with Nil show ?thesis by (metis append_self_conv2 append_take_drop_id)
  next
    case (Cons y ys)
    with replay_events_position [OF assms [unfolded replay_def events_after_def]]
    have q: "q = ev_position (last (take m ?xs))" by simp
    have xs: "?xs = butlast (take m ?xs) @ [last (take m ?xs)] @ drop m ?xs"
      by (metis Cons append.assoc append_butlast_last_id append_take_drop_id list.distinct(1))
    from sorted have "sorted_wrt (\<lambda>x y. ev_position x < ev_position y) ?xs" by (rule sorted_wrt_filter)
    then have "filter (\<lambda>e. q < ev_position e) ?xs = drop m ?xs"
      unfolding q using sorted_after [of ev_position "butlast (take m ?xs)" "last (take m ?xs)" "drop m ?xs", folded xs] by blast
    moreover have "last (take m ?xs) \<in> set ?xs" by (metis Cons in_set_takeD last_in_set list.distinct(1))
    then have "after < q" by (simp add: q)
    then have "filter (\<lambda>e. q < ev_position e \<and> visible sc e) (st_events ?s) = filter (\<lambda>e. q < ev_position e) ?xs"
      unfolding filter_filter by (intro filter_cong) auto
    ultimately show ?thesis by simp
  qed
  then show ?thesis
    using assms by (simp add: replay_def events_after_def take_add replay_events_append)
qed

section \<open>Concrete runs\<close>

text \<open>A cipher for one payload, and the appends of a memory and of the record that it was forgotten.\<close>

definition example_payload :: payload where
  "example_payload = [(''memory_id'', JStr ''m1''), (''title'', JStr ''tea'')]"

definition example_crypto :: mcrypto where
  "example_crypto = \<lparr>cr_seal = \<lambda>_ _. ''sealed'', cr_open = \<lambda>_ _. Some example_payload, cr_hash = \<lambda>_. ''h'',
     cr_matches = \<lambda>_. [], cr_upcaster = \<lambda>_. None\<rparr>"

definition example_scope :: mscope where
  "example_scope = \<lparr>sc_tenant = ''t'', sc_user = ''u'', sc_workspace = ''w'', sc_task = None, sc_project = None,
     sc_conversation = None\<rparr>"

definition example_append :: "string \<Rightarrow> string \<Rightarrow> string \<Rightarrow> append_args" where
  "example_append agg ty key = \<lparr>aa_scope = example_scope, aa_type = ''memory_atom'', aa_aggregate = agg,
     aa_expected = None, aa_event = \<lparr>ap_type = ty, ap_payload = example_payload, ap_key = key, ap_producer = ''api'',
       ap_schema = 1, ap_actor = ''u'', ap_occurred = None, ap_sensitivity = ''normal'', ap_conversation = None,
       ap_project = None\<rparr>, aa_kinds = [''index''], aa_subject = None\<rparr>"

abbreviation created :: "string \<Rightarrow> string \<Rightarrow> append_args" where
  "created agg key \<equiv> example_append agg ''memory.atom_created'' key"

abbreviation stored_once :: mstore where
  "stored_once \<equiv> foldl (ev_step example_crypto) empty_store [Commit (created ''m1'' ''k1'') None 5]"

lemma stored_result:
  assumes "(case r of Inr (s, e, c) \<Rightarrow> P s e \<and> c = b | Inl x \<Rightarrow> False)"
  obtains s e where "r = Inr (s, e, b)" and "P s e"
  using assms by (cases r) auto

theorem stale_append_conflicts_witness:
  "\<exists>s1 e. commit_append example_crypto (created ''m1'' ''k2'') (Some (0, 1)) 6 stored_once = Inr (s1, e) \<and>
    commit_append example_crypto (created ''m1'' ''k3'') (Some (0, 1)) 7 (foldl (ev_step example_crypto) s1 []) \<in>
      {Inl version_conflict, Inl (App_error 410 ''memory_stream_forgotten'')}"
proof -
  have "case commit_append example_crypto (created ''m1'' ''k2'') (Some (0, 1)) 6 stored_once of
      Inr x \<Rightarrow> True | Inl x \<Rightarrow> False" by code_simp
  then obtain s1 e where c: "commit_append example_crypto (created ''m1'' ''k2'') (Some (0, 1)) 6 stored_once = Inr (s1, e)"
    by (auto split: sum.splits)
  from stale_append_conflicts [OF c] c show ?thesis by blast
qed

theorem forgotten_payloads_stay_unreadable_witness:
  "\<exists>s1 n. destroy_stream_payloads example_scope 0 ''u'' ''wish'' 8 stored_once = Inr (s1, n) \<and>
    read_payload example_crypto example_scope 1 (foldl (ev_step example_crypto) s1
      [Commit (example_append ''m1'' forgotten_type ''f'') (Some (0, 1)) 9]) \<in>
      {Inl (App_error 404 ''memory_event_not_found''), Inl (App_error 410 ''memory_event_payload_forgotten'')}"
proof -
  have "case destroy_stream_payloads example_scope 0 ''u'' ''wish'' 8 stored_once of
      Inr (s, n) \<Rightarrow> map ev_id (st_events s) = [1] \<and> map ev_stream (st_events s) = [0] | Inl x \<Rightarrow> False" by code_simp
  then obtain s1 n where c: "destroy_stream_payloads example_scope 0 ''u'' ''wish'' 8 stored_once = Inr (s1, n)"
    and ids: "map ev_id (st_events s1) = [1]" "map ev_stream (st_events s1) = [0]"
    by (auto split: sum.splits)
  from ids obtain e where e: "st_events s1 = [e]" "ev_id e = 1" "ev_stream e = 0" by auto
  have ty: "ap_type (aa_event (created ''m1'' ''k9'')) \<noteq> forgotten_type" by code_simp
  from e(1) have "e \<in> set (st_events s1)" by simp
  from conjunct1 [OF forgotten_payloads_stay_unreadable [OF c this e(3) ty]] c show ?thesis unfolding e(2) by blast
qed

theorem appended_payload_reads_back_witness:
  "\<exists>s1 e. store_append example_crypto (created ''m1'' ''k1'') 5 (foldl (ev_step example_crypto) empty_store []) = Inr (s1, e, False) \<and>
    read_payload example_crypto example_scope (ev_id e)
      (foldl (ev_step example_crypto) s1 [Commit (created ''m1'' ''k2'') (Some (0, 1)) 7]) = Inr example_payload"
proof -
  have "case store_append example_crypto (created ''m1'' ''k1'') 5 (foldl (ev_step example_crypto) empty_store []) of
      Inr (s, e, c) \<Rightarrow> visible example_scope e \<and> c = False | Inl x \<Rightarrow> False" by code_simp
  then obtain s1 e where
    c: "store_append example_crypto (created ''m1'' ''k1'') 5 (foldl (ev_step example_crypto) empty_store []) = Inr (s1, e, False)"
    and v: "visible example_scope e" by (rule stored_result)
  have p: "ap_payload (aa_event (created ''m1'' ''k1'')) = example_payload" by (simp add: example_append_def)
  from appended_payload_reads_back [OF c v, of "[Commit (created ''m1'' ''k2'') (Some (0, 1)) 7]"] c show ?thesis
    unfolding p by (simp add: example_crypto_def)
qed

text \<open>
  A forgotten event stops every replay that meets it: the second memory is never projected, and the
  position does not move past the first.
\<close>

lemma forgotten_event_stops_replay:
  "snd (replay example_crypto example_scope (\<lambda>n e x. Suc n) 0 500 (foldl (ev_step example_crypto) empty_store
     [Commit (created ''m1'' ''k1'') None 5, Commit (created ''m2'' ''k2'') None 6,
      Destroy example_scope 0 ''u'' ''wish'' 7]) 0) = Inl (App_error 410 ''memory_event_payload_forgotten'')"
  by code_simp

end
