(* ===== verification/Memory_Outbox.thy ===== *)
theory Memory_Outbox
  imports Memory_Events
begin

text \<open>
  The projection outbox, \<open>backend/app/services/memory_outbox.py\<close>: workers lease the rows the event store
  queued and report what their handlers made of them. A lease carries the generation of its claim, so a
  worker whose lease was taken over can tell. The table is the \<open>st_outbox\<close> of the store; handlers are
  a parameter.
\<close>

section \<open>Claiming\<close>

record outbox_worker =
  ow_name :: string
  ow_lease :: int
  ow_max :: nat

record outbox_claim =
  oc_item :: nat
  oc_generation :: nat

type_synonym outbox = "outbox_item list"

definition lease_over :: "instant \<Rightarrow> outbox_item \<Rightarrow> bool" where
  "lease_over now x \<longleftrightarrow> (\<exists>t \<in> set_option (ob_until x). t < now)"

definition claim_eligibility :: "instant \<Rightarrow> outbox_item \<Rightarrow> bool" where
  "claim_eligibility now x \<longleftrightarrow> ob_available x \<le> now \<and>
     (ob_status x = Queued_item \<or> ob_status x = Failed_item \<or> ob_status x = Leased_item \<and> lease_over now x)"

text \<open>Candidates by \<open>available_at\<close> and age; ids are drawn in order of creation.\<close>

definition outbox_candidates :: "instant \<Rightarrow> nat \<Rightarrow> outbox \<Rightarrow> nat list" where
  "outbox_candidates now limit items =
     take limit (map ob_id (sort_key ob_available (filter (claim_eligibility now) items)))"

definition claim_item :: "outbox_worker \<Rightarrow> nat \<Rightarrow> instant \<Rightarrow> outbox \<Rightarrow> outbox \<times> outbox_claim option" where
  "claim_item w i now items = (case row_get ob_id i items of
      None \<Rightarrow> (items, None)
    | Some x \<Rightarrow>
        if claim_eligibility now x then
          (row_mod ob_id i (\<lambda>x. x\<lparr>ob_status := Leased_item, ob_owner := Some (ow_name w),
             ob_until := Some (now + ow_lease w), ob_generation := Suc (ob_generation x)\<rparr>) items,
           Some \<lparr>oc_item = i, oc_generation = Suc (ob_generation x)\<rparr>)
        else (items, None))"

text \<open>\<open>_is_claim_owner\<close> and \<open>_claim_condition\<close>, the same test in Python and in SQL.\<close>

definition claim_condition :: "outbox_worker \<Rightarrow> outbox_claim \<Rightarrow> outbox_item \<Rightarrow> bool" where
  "claim_condition w c x \<longleftrightarrow> ob_id x = oc_item c \<and> ob_status x = Leased_item \<and> ob_owner x = Some (ow_name w) \<and>
     ob_generation x = oc_generation c"

definition update_claimed ::
  "outbox_worker \<Rightarrow> outbox_claim \<Rightarrow> (outbox_item \<Rightarrow> outbox_item) \<Rightarrow> outbox \<Rightarrow> outbox \<times> bool" where
  "update_claimed w c f items =
     (map (\<lambda>x. if claim_condition w c x then f x else x) items, list_ex (claim_condition w c) items)"

section \<open>Reporting\<close>

definition heartbeat :: "outbox_worker \<Rightarrow> outbox_claim \<Rightarrow> instant \<Rightarrow> outbox \<Rightarrow> outbox" where
  "heartbeat w c now items = map (\<lambda>x. if claim_condition w c x \<and> (\<exists>t \<in> set_option (ob_until x). now < t)
     then x\<lparr>ob_until := Some (now + ow_lease w)\<rparr> else x) items"

definition mark_succeeded :: "outbox_worker \<Rightarrow> outbox_claim \<Rightarrow> outbox \<Rightarrow> outbox \<times> bool" where
  "mark_succeeded w c items = update_claimed w c (\<lambda>x. x\<lparr>ob_status := Succeeded_item, ob_error := [],
     ob_owner := None, ob_until := None\<rparr>) items"

definition retry_delay :: "nat \<Rightarrow> int" where
  "retry_delay attempts = min 3600 (2 ^ min attempts 10)"

definition mark_failed ::
  "outbox_worker \<Rightarrow> outbox_claim \<Rightarrow> string \<Rightarrow> bool \<Rightarrow> instant \<Rightarrow> outbox \<Rightarrow> outbox \<times> outbox_status option" where
  "mark_failed w c error permanent now items = (case row_get ob_id (oc_item c) items of
      None \<Rightarrow> (items, None)
    | Some x \<Rightarrow>
        if \<not> claim_condition w c x then (items, None)
        else
          let attempts = Suc (ob_attempts x);
              dead = (permanent \<or> ow_max w \<le> attempts);
              f = (\<lambda>y. y\<lparr>ob_attempts := attempts, ob_error := take 2000 error, ob_owner := None, ob_until := None,
                ob_status := (if dead then Dead_letter else Failed_item),
                ob_available := (if dead then ob_available y else now + retry_delay attempts)\<rparr>)
          in (case update_claimed w c f items of (items', b) \<Rightarrow>
            (items', if b then Some (if dead then Dead_letter else Failed_item) else None)))"

definition retry_item :: "nat \<Rightarrow> instant \<Rightarrow> outbox \<Rightarrow> outbox \<times> bool" where
  "retry_item i now items =
     (let ok = (\<lambda>x. ob_id x = i \<and> (ob_status x \<in> {Failed_item, Dead_letter, Succeeded_item} \<or>
            ob_status x = Leased_item \<and> lease_over now x))
      in (map (\<lambda>x. if ok x then x\<lparr>ob_status := Queued_item, ob_available := now, ob_owner := None,
            ob_until := None\<rparr> else x) items, list_ex ok items))"

section \<open>One run of a worker\<close>

text \<open>What a handler does: nothing noteworthy, or an exception with its text, permanent or not.\<close>

datatype handled = Handled | Raised string bool

record run_report =
  rr_claimed :: nat
  rr_succeeded :: nat
  rr_failed :: nat
  rr_dead :: nat
  rr_lost :: nat

text \<open>
  One candidate of \<open>run_once\<close> from its claim at \<open>t\<close> to its report at \<open>t'\<close>. A missing handler is an exception too.
\<close>

definition run_candidate :: "outbox_worker \<Rightarrow> (string \<Rightarrow> (outbox_item \<Rightarrow> handled) option) \<Rightarrow> instant \<Rightarrow> instant \<Rightarrow>
    nat \<Rightarrow> outbox \<times> run_report \<Rightarrow> outbox \<times> run_report" where
  "run_candidate w handlers t t' i s = (case s of (items, r) \<Rightarrow>
     (case claim_item w i t items of
       (items1, None) \<Rightarrow> (items1, r)
     | (items1, Some c) \<Rightarrow>
         let r1 = r\<lparr>rr_claimed := Suc (rr_claimed r)\<rparr> in
         (case row_get ob_id i items1 of
           None \<Rightarrow> (items1, r1\<lparr>rr_lost := Suc (rr_lost r1)\<rparr>)
         | Some x \<Rightarrow>
             if \<not> claim_condition w c x then (items1, r1\<lparr>rr_lost := Suc (rr_lost r1)\<rparr>)
             else (case (case handlers (ob_kind x) of None \<Rightarrow> Raised (''no handler for '' @ ob_kind x) False | Some h \<Rightarrow> h x) of
               Handled \<Rightarrow> (case mark_succeeded w c items1 of (items2, b) \<Rightarrow>
                 (items2, if b then r1\<lparr>rr_succeeded := Suc (rr_succeeded r1)\<rparr> else r1\<lparr>rr_lost := Suc (rr_lost r1)\<rparr>))
             | Raised e permanent \<Rightarrow> (case mark_failed w c e permanent t' items1 of
                 (items2, Some Dead_letter) \<Rightarrow> (items2, r1\<lparr>rr_dead := Suc (rr_dead r1)\<rparr>)
               | (items2, Some _) \<Rightarrow> (items2, r1\<lparr>rr_failed := Suc (rr_failed r1)\<rparr>)
               | (items2, None) \<Rightarrow> (items2, r1\<lparr>rr_lost := Suc (rr_lost r1)\<rparr>))))))"

text \<open>\<open>clock k\<close> is the time of the \<open>k\<close>-th reading of the clock.\<close>

definition run_once :: "outbox_worker \<Rightarrow> (string \<Rightarrow> (outbox_item \<Rightarrow> handled) option) \<Rightarrow> (nat \<Rightarrow> instant) \<Rightarrow> nat \<Rightarrow>
    outbox \<Rightarrow> outbox \<times> run_report" where
  "run_once w handlers clock limit items =
     foldl (\<lambda>s (k, i). run_candidate w handlers (clock (2 * k + 1)) (clock (2 * k + 2)) i s)
       (items, \<lparr>rr_claimed = 0, rr_succeeded = 0, rr_failed = 0, rr_dead = 0, rr_lost = 0\<rparr>)
       (enumerate 0 (outbox_candidates (clock 0) limit items))"

section \<open>Workers in any order\<close>

text \<open>
  One statement of one worker, with any claim it may still believe in, at any time. The store adds rows
  under new ids.
\<close>

datatype outbox_op = Add_item outbox_item | Claim_item outbox_worker nat instant
  | Succeed outbox_worker outbox_claim | Fail outbox_worker outbox_claim string bool instant
  | Heartbeat outbox_worker outbox_claim instant | Retry_item nat instant

fun outbox_step :: "outbox \<Rightarrow> outbox_op \<Rightarrow> outbox" where
  "outbox_step items (Add_item x) = (if ob_id x \<in> ob_id ` set items then items else items @ [x])"
| "outbox_step items (Claim_item w i now) = fst (claim_item w i now items)"
| "outbox_step items (Succeed w c) = fst (mark_succeeded w c items)"
| "outbox_step items (Fail w c error permanent now) = fst (mark_failed w c error permanent now items)"
| "outbox_step items (Heartbeat w c now) = heartbeat w c now items"
| "outbox_step items (Retry_item i now) = fst (retry_item i now items)"

definition generation_of :: "nat \<Rightarrow> outbox \<Rightarrow> nat" where
  "generation_of i items = (case row_get ob_id i items of None \<Rightarrow> 0 | Some x \<Rightarrow> ob_generation x)"

text \<open>Steps that change rows in place and leave the id, and do not turn the generation back.\<close>

definition in_place :: "(outbox_item \<Rightarrow> outbox_item) \<Rightarrow> bool" where
  "in_place f \<longleftrightarrow> (\<forall>x. ob_id (f x) = ob_id x \<and> ob_generation x \<le> ob_generation (f x))"

definition changed :: "outbox \<Rightarrow> outbox \<Rightarrow> bool" where
  "changed items items' \<longleftrightarrow> (\<exists>f. in_place f \<and> items' = map f items)"

lemma changedI: "in_place f \<Longrightarrow> changed items (map f items)"
  by (auto simp: changed_def)

lemma changed_same: "changed items items"
  using changedI [of id items] by (simp add: in_place_def)

lemma changed_rows:
  assumes "changed items items'"
  shows "map ob_id items' = map ob_id items \<and> generation_of i items \<le> generation_of i items'"
proof -
  from assms obtain f where f: "in_place f" "items' = map f items" by (auto simp: changed_def)
  from f(1) show ?thesis unfolding f(2) by (induction items) (auto simp: in_place_def generation_of_def)
qed

lemma changed_claimed: "in_place f \<Longrightarrow> changed items (fst (update_claimed w c f items))"
  unfolding update_claimed_def fst_conv by (rule changedI) (simp add: in_place_def)

lemma step_changed: "changed items (outbox_step items e) \<or> (\<exists>x. e = Add_item x)"
proof (cases e)
  case (Claim_item w i now)
  then show ?thesis
    by (auto simp: claim_item_def row_mod_def in_place_def split: option.split intro!: changed_same changedI)
next
  case (Succeed w c)
  then show ?thesis by (auto simp: mark_succeeded_def in_place_def intro!: changed_claimed)
next
  case (Fail w c error permanent now)
  then show ?thesis
    by (auto simp: mark_failed_def Let_def split_beta in_place_def split: option.split intro!: changed_same changed_claimed)
next
  case (Heartbeat w c now)
  then show ?thesis by (auto simp: heartbeat_def in_place_def intro!: changedI)
next
  case (Retry_item i now)
  then show ?thesis by (auto simp: retry_item_def Let_def in_place_def intro!: changedI)
qed simp

lemma step_ids:
  assumes "distinct (map ob_id items)"
  shows "distinct (map ob_id (outbox_step items e))"
proof (cases "\<exists>x. e = Add_item x")
  case True
  with assms show ?thesis by auto
next
  case False
  with step_changed [of items e] changed_rows [of items "outbox_step items e"] assms show ?thesis by auto
qed

lemma step_generation: "generation_of i items \<le> generation_of i (outbox_step items e)"
proof (cases "\<exists>x. e = Add_item x")
  case True
  then show ?thesis by (auto simp: generation_of_def row_get_append split: option.splits if_splits)
next
  case False
  with step_changed [of items e] changed_rows [of items "outbox_step items e"] show ?thesis by auto
qed

interpretation generations: fenced outbox_step "\<lambda>items. distinct (map ob_id items)" "generation_of i" for i
  by unfold_locales (rule step_ids, assumption, rule step_generation)

lemma claimedD:
  assumes "claim_item w i now items = (items', Some c)"
  shows "oc_item c = i \<and> oc_generation c = Suc (generation_of i items) \<and> generation_of i items' = Suc (generation_of i items)"
  using assms by (auto simp: claim_item_def generation_of_def row_get_mod_same split: option.splits if_splits)

lemma overtaken_claim:
  assumes "distinct (map ob_id items)" and "oc_generation c < generation_of (oc_item c) items" and "x \<in> set items"
  shows "\<not> claim_condition w c x"
  using row_get_distinct [OF assms(1,3)] assms(2) by (auto simp: claim_condition_def generation_of_def)

text \<open>
  A worker whose outbox lease was taken over cannot touch the row. In every state of the outbox: once
  the row has been claimed again, by anyone, the worker of the earlier claim can neither report success
  nor failure nor extend its lease, whatever other calls come in between; each attempt leaves the table
  as it is and tells the worker so.
\<close>

lemma outbox_claim_is_fenced:
  assumes "claim_item w i now (foldl outbox_step [] before) = (s1, Some c)"
    and "claim_item w' i now' (foldl outbox_step s1 between) = (s2, Some c')"
  shows "let t = foldl outbox_step s2 after in mark_succeeded w c t = (t, False) \<and>
    mark_failed w c error permanent now'' t = (t, None) \<and> heartbeat w c now'' t = t"
proof -
  let ?t = "foldl outbox_step s2 after"
  from assms have s: "s1 = outbox_step (foldl outbox_step [] before) (Claim_item w i now)"
    "s2 = outbox_step (foldl outbox_step s1 between) (Claim_item w' i now')" by simp_all
  have d: "distinct (map ob_id (foldl outbox_step [] es))" for es by (rule generations.run_inv) simp
  from d [of "before @ [Claim_item w i now]"] s(1) have d1: "distinct (map ob_id s1)" by simp
  have t: "?t = foldl outbox_step s1 (between @ Claim_item w' i now' # after)" by (simp add: s(2))
  have "oc_item c = i" "oc_generation c = generation_of i s1" using claimedD [OF assms(1)] by simp_all
  moreover have "generation_of i s1 < generation_of i ?t"
    unfolding t by (rule generations.overtaken [OF d1]) (use claimedD [OF assms(2)] s(2) in simp)
  moreover have "distinct (map ob_id ?t)" unfolding t by (rule generations.run_inv [OF d1])
  ultimately have "\<not> claim_condition w c x" if "x \<in> set ?t" for x
    using that by (intro overtaken_claim [of ?t]) simp_all
  then show ?thesis
    by (auto simp: mark_succeeded_def mark_failed_def update_claimed_def heartbeat_def list_ex_iff Let_def map_idI
        split: option.split dest: row_get_SomeD)
qed

text \<open>Two workers, one row of the store, the first lease over when the second claims.\<close>

definition example_item :: outbox_item where
  "example_item = \<lparr>ob_id = 4, ob_event = 1, ob_tenant = ''t'', ob_workspace = Some ''w'', ob_kind = ''mem0'',
     ob_aggregate = ''m1'', ob_stream = 0, ob_version = 1, ob_status = Queued_item, ob_attempts = 0, ob_available = 5,
     ob_owner = None, ob_until = None, ob_generation = 0, ob_error = []\<rparr>"

abbreviation outbox_worker_named :: "string \<Rightarrow> outbox_worker" where
  "outbox_worker_named n \<equiv> \<lparr>ow_name = n, ow_lease = 120, ow_max = 8\<rparr>"

section \<open>Settled rows and reports\<close>

text \<open>A row that succeeded or went to the dead letters keeps still until someone retries it by hand.\<close>

lemma settled_row_stays:
  assumes "x \<in> set items" and "ob_status x \<in> {Succeeded_item, Dead_letter}" and "\<forall>now. e \<noteq> Retry_item (ob_id x) now"
    and "distinct (map ob_id items)"
  shows "x \<in> set (outbox_step items e)"
proof -
  have not_owned: "\<not> claim_condition w c x" for w c using assms(2) by (auto simp: claim_condition_def)
  have not_free: "\<not> claim_eligibility now x" for now using assms(2) by (auto simp: claim_eligibility_def)
  have found: "row_get ob_id (ob_id x) items = Some x" by (rule row_get_distinct [OF assms(4,1)])
  have kept: "x \<in> set (map f items)" if "f x = x" for f using assms(1) that by (force simp: image_iff)
  show ?thesis
  proof (cases e)
    case (Claim_item w i now)
    then show ?thesis
      using found not_free [of now] assms(1) kept by (auto simp: claim_item_def row_mod_def split: option.split)
  next
    case (Succeed w c)
    then show ?thesis by (auto simp: mark_succeeded_def update_claimed_def not_owned intro!: kept simp del: set_map)
  next
    case (Fail w c error permanent now)
    then show ?thesis
      using assms(1) by (auto simp: mark_failed_def update_claimed_def Let_def split_beta not_owned intro!: kept simp del: set_map
        split: option.split)
  next
    case (Heartbeat w c now)
    then show ?thesis by (auto simp: heartbeat_def not_owned intro!: kept simp del: set_map)
  next
    case (Retry_item i now)
    with assms(3) have "i \<noteq> ob_id x" by auto
    with Retry_item show ?thesis by (auto simp: retry_item_def Let_def intro!: kept simp del: set_map)
  qed (use assms(1) in simp)
qed

text \<open>Every claim of a run is accounted for exactly once in its report.\<close>

lemma run_report_adds_up:
  "rr_claimed (snd (run_once w handlers clock limit items)) = rr_succeeded (snd (run_once w handlers clock limit items)) +
     rr_failed (snd (run_once w handlers clock limit items)) + rr_dead (snd (run_once w handlers clock limit items)) +
     rr_lost (snd (run_once w handlers clock limit items))"
proof -
  let ?ok = "\<lambda>r. rr_claimed r = rr_succeeded r + rr_failed r + rr_dead r + rr_lost r"
  have one: "?ok (snd (run_candidate w handlers t t' i s))" if "?ok (snd s)" for t t' i s
    using that unfolding run_candidate_def Let_def by (cases s) (auto split: option.split handled.split prod.split outbox_status.split)
  have "?ok (snd (foldl (\<lambda>s (k, i). run_candidate w handlers (clock (2 * k + 1)) (clock (2 * k + 2)) i s) s xs))"
    if "?ok (snd s)" for s xs
    using that
  proof (induction xs arbitrary: s)
    case (Cons x xs)
    from Cons.IH [OF one [OF Cons.prems]] show ?case by (cases x) simp
  qed simp
  then show ?thesis unfolding run_once_def by simp
qed

end
