(* ===== verification/Billing.thy ===== *)
theory Billing
  imports Pystr Complex_Main
begin

text \<open>
  The spending ledger: \<open>backend/app/services/billing.py\<close>, class \<open>BillingService\<close>, on the exact amounts of
  \<open>backend/app/core/money.py\<close>: quotes, reservations against budget policies, settlement, release, recovery.
  Amounts are rationals: the code computes with 256 decimal digits, more than the products of rates and
  quantities need. The choice of a tariff and its peak multiplier are arguments of a quote.
\<close>

section \<open>Amounts\<close>

text \<open>\<open>decimal_amount\<close>: not negative, at most 64 integer and 96 fractional places.\<close>

definition amount_ok :: "rat \<Rightarrow> bool" where
  "amount_ok r \<longleftrightarrow> 0 \<le> r \<and> r < 10 ^ 64 \<and> snd (quotient_of (r * 10 ^ 96)) = 1"

definition amount :: "rat \<Rightarrow> rat result" where
  "amount r = require (amount_ok r) (Python_error ''ValueError'') (Inr r)"

definition or_zero :: "rat option \<Rightarrow> rat" where
  "or_zero x = (case x of None \<Rightarrow> 0 | Some r \<Rightarrow> r)"

definition sum_amounts :: "rat option list \<Rightarrow> rat result" where
  "sum_amounts xs = require (list_all amount_ok (List.map_filter id xs)) (Python_error ''ValueError'')
     (amount (sum_list (map or_zero xs)))"

definition currency_code :: "string \<Rightarrow> string result" where
  "currency_code s = (let u = map upper_char (strip s); c = (if u = ''RMB'' then ''CNY'' else u)
     in require (c \<in> {''USD'', ''CNY''}) (Python_error ''ValueError'') (Inr c))"

section \<open>Periods\<close>

text \<open>Days of a month, months counted from 0; the walk goes month by month from January 1970.\<close>

definition leap_year :: "nat \<Rightarrow> bool" where
  "leap_year y \<longleftrightarrow> 4 dvd y \<and> (\<not> 100 dvd y \<or> 400 dvd y)"

definition month_days :: "nat \<Rightarrow> nat \<Rightarrow> int" where
  "month_days y m = (if m = 1 then (if leap_year y then 29 else 28) else if m \<in> {3, 5, 8, 10} then 30 else 31)"

lemma month_days_pos [simp]: "0 < month_days y m"
  by (simp add: month_days_def)

function month_bounds :: "nat \<Rightarrow> nat \<Rightarrow> int \<Rightarrow> int \<Rightarrow> int \<times> int" where
  "month_bounds y m first day =
     (if day < first + month_days y m then (first, first + month_days y m)
      else month_bounds (if m = 11 then Suc y else y) (if m = 11 then 0 else Suc m) (first + month_days y m) day)"
  by auto
termination
  by (relation "measure (\<lambda>(y, m, first, day). nat (day + 1 - first))") (use month_days_pos in \<open>auto simp: zless_nat_eq_int_zless\<close>)

declare month_bounds.simps [simp del]

datatype period = Calendar_day | Calendar_month

definition parse_period :: "string \<Rightarrow> period result" where
  "parse_period s = (if s = ''calendar_day_utc'' then Inr Calendar_day
     else if s = ''calendar_month_utc'' then Inr Calendar_month
     else Inl (App_error 422 ''invalid_budget_period''))"

definition period_bounds :: "period \<Rightarrow> instant \<Rightarrow> instant \<times> instant" where
  "period_bounds p now = (case p of
      Calendar_day \<Rightarrow> (now - now mod 86400, now - now mod 86400 + 86400)
    | Calendar_month \<Rightarrow> (case month_bounds 1970 0 0 (now div 86400) of (a, b) \<Rightarrow> (86400 * a, 86400 * b)))"

section \<open>Rows\<close>

record budget_policy =
  bp_id :: nat
  bp_name :: string
  bp_provider :: string
  bp_model :: string
  bp_feature :: string
  bp_period :: period
  bp_currency :: string
  bp_soft :: "rat option"
  bp_hard :: "rat option"
  bp_enabled :: bool

record budget_alert =
  ba_policy :: nat
  ba_level :: string
  ba_open :: bool
  ba_start :: instant
  ba_end :: instant
  ba_currency :: "string option"
  ba_spent :: rat
  ba_reserved :: rat
  ba_projected :: rat
  ba_limit :: rat

datatype stage = Reserved | Settled | Released

record usage_event =
  ue_id :: nat
  ue_provider :: string
  ue_model :: string
  ue_feature :: string
  ue_currency :: "string option"
  ue_cost :: "rat option"
  ue_reserved :: "rat option"
  ue_stage :: stage
  ue_status :: string
  ue_source :: string
  ue_key :: "nat \<times> int"
  ue_attempt :: int
  ue_tokens :: "int \<times> int \<times> int \<times> int \<times> int"
  ue_price :: "nat option"
  ue_created :: instant
  ue_expires :: "instant option"

text \<open>A \<open>BillingQuote\<close>; its uuid is a number, so that an idempotency key is that number and the attempt.\<close>

record quote =
  bq_id :: nat
  bq_provider :: string
  bq_model :: string
  bq_feature :: string
  bq_remote :: bool
  bq_currency :: "string option"
  bq_price :: "nat option"
  bq_input :: rat
  bq_cached :: rat
  bq_write :: rat
  bq_output :: rat
  bq_fixed :: rat
  bq_multiplier :: rat
  bq_units :: "(string \<times> rat) list"
  bq_projected :: "rat option"
  bq_quoted :: instant
  bq_source :: string
  bq_reservation :: "nat option"

record billing =
  bl_policies :: "budget_policy list"
  bl_alerts :: "budget_alert list"
  bl_events :: "usage_event list"
  bl_next :: nat

section \<open>Policies\<close>

definition star :: "string \<Rightarrow> string" where
  "star s = (if strip s = [] then ''*'' else strip s)"

definition validate_limits :: "rat option \<Rightarrow> rat option \<Rightarrow> unit result" where
  "validate_limits soft hard =
     require (\<not> (soft = None \<and> hard = None)) (App_error 422 ''budget_limit_required'')
     (require (list_all amount_ok (List.map_filter id [soft, hard])) (Python_error ''ValueError'')
      (require (\<not> (\<exists>a \<in> set_option soft. \<exists>b \<in> set_option hard. b < a)) (App_error 422 ''invalid_budget_limits'') (Inr ())))"

definition policy_scope :: "budget_policy \<Rightarrow> string \<times> string \<times> string \<times> period \<times> string" where
  "policy_scope p = (bp_provider p, bp_model p, bp_feature p, bp_period p, bp_currency p)"

text \<open>\<open>providers\<close>: the ids of the providers of the workspace.\<close>

definition create_budget_policy :: "string set \<Rightarrow> string \<Rightarrow> string \<Rightarrow> string \<Rightarrow> string \<Rightarrow> string \<Rightarrow> rat option \<Rightarrow> rat option \<Rightarrow>
    string \<Rightarrow> bool \<Rightarrow> billing \<Rightarrow> (billing \<times> budget_policy) result" where
  "create_budget_policy providers name provider model feature per soft hard currency enabled s =
     bind_r (validate_limits soft hard) (\<lambda>_. bind_r (parse_period per) (\<lambda>pd. bind_r (currency_code currency) (\<lambda>c.
       let p = \<lparr>bp_id = bl_next s, bp_name = name, bp_provider = star provider, bp_model = star model,
             bp_feature = star feature, bp_period = pd, bp_currency = c, bp_soft = soft, bp_hard = hard,
             bp_enabled = enabled\<rparr>
       in require (bp_provider p = ''*'' \<or> bp_provider p \<in> providers) (App_error 404 ''provider_not_found'')
          (require (policy_scope p \<notin> policy_scope ` set (bl_policies s)) (App_error 409 ''budget_policy_scope_exists'')
           (Inr (s\<lparr>bl_policies := bl_policies s @ [p], bl_next := Suc (bl_next s)\<rparr>, p))))))"

definition update_budget_policy :: "nat \<Rightarrow> string \<Rightarrow> rat option \<Rightarrow> rat option \<Rightarrow> bool \<Rightarrow> string option \<Rightarrow> billing \<Rightarrow>
    (billing \<times> budget_policy) result" where
  "update_budget_policy i name soft hard enabled currency s = bind_r (validate_limits soft hard) (\<lambda>_.
     (case row_get bp_id i (bl_policies s) of
       None \<Rightarrow> Inl (App_error 404 ''not_found'')
     | Some p \<Rightarrow>
         bind_r (case currency of None \<Rightarrow> Inr (bp_currency p)
             | Some c \<Rightarrow> if c = [] then Inr (bp_currency p) else currency_code c) (\<lambda>c.
         require (c = bp_currency p) (App_error 409 ''budget_currency_immutable'')
         (let f = (\<lambda>p. p\<lparr>bp_name := name, bp_enabled := enabled, bp_soft := soft, bp_hard := hard\<rparr>)
          in Inr (s\<lparr>bl_policies := row_mod bp_id i f (bl_policies s)\<rparr>, f p)))))"

definition delete_budget_policy :: "nat \<Rightarrow> billing \<Rightarrow> billing result" where
  "delete_budget_policy i s = (case row_get bp_id i (bl_policies s) of
      None \<Rightarrow> Inl (App_error 404 ''not_found'')
    | Some p \<Rightarrow> Inr (s\<lparr>bl_policies := row_mod bp_id i (\<lambda>p. p\<lparr>bp_enabled := False\<rparr>) (bl_policies s)\<rparr>))"

section \<open>Totals\<close>

definition scope_matches :: "string \<Rightarrow> string \<Rightarrow> bool" where
  "scope_matches configured actual \<longleftrightarrow> configured = ''*'' \<or> configured = actual"

definition in_scope :: "budget_policy \<Rightarrow> string \<Rightarrow> string \<Rightarrow> string \<Rightarrow> bool" where
  "in_scope p provider model feature \<longleftrightarrow> scope_matches (bp_provider p) provider \<and> scope_matches (bp_model p) model \<and>
     scope_matches (bp_feature p) feature"

text \<open>An event that occupies the period: still reserved, whenever it was, or settled and created in it.\<close>

definition occupies :: "budget_policy \<Rightarrow> instant \<Rightarrow> instant \<Rightarrow> usage_event \<Rightarrow> bool" where
  "occupies p start finish e \<longleftrightarrow> (ue_stage e = Reserved \<or> start \<le> ue_created e \<and> ue_created e < finish) \<and>
     ue_stage e \<noteq> Released \<and> in_scope p (ue_provider e) (ue_model e) (ue_feature e)"

definition unresolved :: "usage_event \<Rightarrow> bool" where
  "unresolved e \<longleftrightarrow> ue_stage e = Settled \<and> ue_cost e = None \<or> ue_stage e = Reserved \<and> ue_reserved e = None"

definition totals_for_policy :: "budget_policy \<Rightarrow> instant \<Rightarrow> instant \<Rightarrow> usage_event list \<Rightarrow> (rat \<times> rat \<times> nat) result" where
  "totals_for_policy p start finish events =
     (let es = filter (\<lambda>e. ue_currency e = Some (bp_currency p) \<and> occupies p start finish e) events;
          legacy = filter (\<lambda>e. ue_currency e = None \<and> occupies p start finish e \<and> ue_status e \<noteq> ''non_billable'') events
      in bind_r (sum_amounts (map ue_cost (filter (\<lambda>e. ue_stage e = Settled) es))) (\<lambda>spent.
         bind_r (sum_amounts (map ue_reserved es)) (\<lambda>reserved.
         Inr (spent, reserved, length (filter unresolved es) + length legacy))))"

record budget_status =
  bs_policy :: nat
  bs_spent :: rat
  bs_reserved :: rat
  bs_remaining :: "rat option"
  bs_unknown :: nat
  bs_soft_exceeded :: bool
  bs_hard_exceeded :: bool

definition budget_statuses :: "instant \<Rightarrow> string option \<Rightarrow> billing \<Rightarrow> budget_status list result" where
  "budget_statuses now currency s =
     map_r (\<lambda>p. case period_bounds (bp_period p) now of (start, finish) \<Rightarrow>
         bind_r (totals_for_policy p start finish (bl_events s)) (\<lambda>(spent, reserved, unknown).
         let total = spent + reserved in
         Inr \<lparr>bs_policy = bp_id p, bs_spent = spent, bs_reserved = reserved,
           bs_remaining = (if unknown = 0 then map_option (\<lambda>h. max 0 (h - total)) (bp_hard p) else None),
           bs_unknown = unknown, bs_soft_exceeded = (\<exists>l \<in> set_option (bp_soft p). l \<le> total),
           bs_hard_exceeded = (\<exists>l \<in> set_option (bp_hard p). l \<le> total)\<rparr>))
       (filter (\<lambda>p. \<forall>c \<in> set_option currency. bp_currency p = c) (bl_policies s))"

section \<open>What a call costs\<close>

text \<open>The unit rates; \<open>Inr None\<close> when a quantity is missing. A quantity is \<open>None\<close> when it is not a decimal.\<close>

fun unit_costs :: "(string \<times> rat) list \<Rightarrow> (string \<times> rat option) list \<Rightarrow> rat \<Rightarrow> rat option result" where
  "unit_costs [] units acc = Inr (Some acc)"
| "unit_costs ((unit, rate) # rates) units acc =
     (if rate = 0 then unit_costs rates units acc
      else (case map_of units unit of
          None \<Rightarrow> Inr None
        | Some q \<Rightarrow> require (\<exists>x \<in> set_option q. amount_ok x) (Python_error ''ValueError'')
            (unit_costs rates units (acc + or_zero q * rate))))"

definition quote_cost :: "quote \<Rightarrow> int \<Rightarrow> int \<Rightarrow> int \<Rightarrow> int \<Rightarrow> (string \<times> rat option) list \<Rightarrow> rat option result" where
  "quote_cost q inp out cached created units =
     (if bq_multiplier q = 0 then Inr (Some 0)
      else bind_r (unit_costs (bq_units q) units
          ((of_int (inp - cached - created) * bq_input q + of_int cached * bq_cached q + of_int created * bq_write q +
             of_int out * bq_output q) / 1000000 + bq_fixed q))
        (\<lambda>x. Inr (case x of None \<Rightarrow> None
          | Some v \<Rightarrow> if amount_ok (v * bq_multiplier q) then Some (v * bq_multiplier q) else None)))"

section \<open>Reserving\<close>

definition matching_policies :: "quote \<Rightarrow> billing \<Rightarrow> budget_policy list" where
  "matching_policies q s = filter (\<lambda>p. bp_enabled p \<and> in_scope p (bq_provider q) (bq_model q) (bq_feature q) \<and>
     (bq_currency q = None \<or> bq_currency q = Some (bp_currency p))) (bl_policies s)"

definition persist_alert :: "budget_policy \<Rightarrow> string \<Rightarrow> instant \<Rightarrow> instant \<Rightarrow> rat \<Rightarrow> rat \<Rightarrow> rat \<Rightarrow> rat \<Rightarrow> billing \<Rightarrow> billing" where
  "persist_alert p level start finish spent reserved projected limit s =
     (let key = (\<lambda>a. ba_policy a = bp_id p \<and> ba_level a = level \<and> ba_start a = start);
          fresh = \<lparr>ba_policy = bp_id p, ba_level = level, ba_open = True, ba_start = start, ba_end = finish,
            ba_currency = Some (bp_currency p), ba_spent = spent, ba_reserved = reserved, ba_projected = projected,
            ba_limit = limit\<rparr>
      in s\<lparr>bl_alerts := (if list_ex key (bl_alerts s)
          then map (\<lambda>a. if key a then fresh\<lparr>ba_end := ba_end a\<rparr> else a) (bl_alerts s) else bl_alerts s @ [fresh])\<rparr>)"

text \<open>
  The loop over the policies: alerts are written as it goes, the last reason to refuse is kept and
  raised at the end.
\<close>

fun check_policies :: "quote \<Rightarrow> budget_policy list \<Rightarrow> app_error option \<Rightarrow> billing \<Rightarrow> (billing \<times> app_error option) result" where
  "check_policies q [] err s = Inr (s, err)"
| "check_policies q (p # ps) err s =
     (case period_bounds (bp_period p) (bq_quoted q) of (start, finish) \<Rightarrow>
      bind_r (totals_for_policy p start finish (bl_events s)) (\<lambda>(spent, reserved, unknown).
        if (bq_projected q = None \<or> unknown \<noteq> 0) \<and> bp_hard p \<noteq> None
        then check_policies q ps (Some (App_error 409 ''usage_price_required'')) s
        else (case bq_projected q of
            None \<Rightarrow> check_policies q ps err s
          | Some x \<Rightarrow>
              let s1 = (case bp_soft p of
                    Some l \<Rightarrow> if l \<le> spent + reserved + x then persist_alert p ''soft'' start finish spent reserved x l s else s
                  | None \<Rightarrow> s) in
              (case bp_hard p of
                Some h \<Rightarrow>
                  if h < spent + reserved + x
                  then check_policies q ps (Some (App_error 402 ''budget_hard_limit_exceeded''))
                    (persist_alert p ''hard'' start finish spent reserved x h s1)
                  else check_policies q ps err s1
              | None \<Rightarrow> check_policies q ps err s1))))"

definition reservation_event :: "quote \<Rightarrow> billing \<Rightarrow> usage_event" where
  "reservation_event q s = \<lparr>ue_id = bl_next s, ue_provider = bq_provider q, ue_model = bq_model q, ue_feature = bq_feature q,
     ue_currency = bq_currency q, ue_cost = None, ue_reserved = bq_projected q, ue_stage = Reserved,
     ue_status = ''reserved'', ue_source = bq_source q, ue_key = (bq_id q, 1), ue_attempt = 1,
     ue_tokens = (0, 0, 0, 0, 0), ue_price = bq_price q, ue_created = bq_quoted q,
     ue_expires = Some (bq_quoted q + 86400)\<rparr>"

text \<open>The state comes with an error too: the alerts of a refused call are committed before it is raised.\<close>

definition reserve_quote :: "quote \<Rightarrow> billing \<Rightarrow> billing \<times> quote result" where
  "reserve_quote q s = (case check_policies q (matching_policies q s) None s of
      Inl e \<Rightarrow> (s, Inl e)
    | Inr (s1, Some e) \<Rightarrow> (s1, Inl e)
    | Inr (s1, None) \<Rightarrow>
        (s1\<lparr>bl_events := bl_events s1 @ [reservation_event q s1], bl_next := Suc (bl_next s1)\<rparr>,
         Inr (q\<lparr>bq_reservation := Some (bl_next s1)\<rparr>)))"

text \<open>The tariff a quote is made from: a price row, as far as a quote reads it.\<close>

record tariff =
  ta_id :: nat
  ta_source :: string
  ta_currency :: string
  ta_input :: rat
  ta_cached :: "rat option"
  ta_write :: "rat option"
  ta_output :: rat
  ta_fixed :: rat
  ta_units :: "(string \<times> rat) list"
  ta_multiplier :: rat

record call_estimate =
  ce_provider :: string
  ce_model :: string
  ce_feature :: string
  ce_input :: int
  ce_output :: int
  ce_units :: "(string \<times> rat option) list"
  ce_remote :: bool

definition or_input :: "tariff \<Rightarrow> rat option \<Rightarrow> rat" where
  "or_input t x = (case x of None \<Rightarrow> ta_input t | Some r \<Rightarrow> r)"

text \<open>The quote before it is reserved: with the tariff's rates, or unpriced in the declared currency.\<close>

definition new_quote :: "call_estimate \<Rightarrow> tariff option \<Rightarrow> string option \<Rightarrow> instant \<Rightarrow> nat \<Rightarrow> quote result" where
  "new_quote c price declared now i =
     (let q = \<lparr>bq_id = i, bq_provider = ce_provider c, bq_model = ce_model c, bq_feature = ce_feature c, bq_remote = True,
            bq_currency = declared, bq_price = None, bq_input = 0, bq_cached = 0, bq_write = 0, bq_output = 0, bq_fixed = 0,
            bq_multiplier = 1, bq_units = [], bq_projected = None, bq_quoted = now, bq_source = ''unknown'',
            bq_reservation = None\<rparr>
      in case price of
          None \<Rightarrow> Inr q
        | Some t \<Rightarrow>
            let q1 = q\<lparr>bq_currency := Some (ta_currency t), bq_price := Some (ta_id t), bq_source := ta_source t,
                  bq_input := ta_input t, bq_output := ta_output t, bq_fixed := ta_fixed t, bq_cached := or_input t (ta_cached t),
                  bq_write := or_input t (ta_write t), bq_multiplier := ta_multiplier t, bq_units := ta_units t\<rparr>
            in bind_r (quote_cost q1 (max 0 (ce_input c)) (max 0 (ce_output c)) 0 0 (ce_units c))
                 (\<lambda>x. Inr (q1\<lparr>bq_projected := x\<rparr>)))"

definition local_quote :: "call_estimate \<Rightarrow> instant \<Rightarrow> nat \<Rightarrow> quote" where
  "local_quote c now i = \<lparr>bq_id = i, bq_provider = ce_provider c, bq_model = ce_model c, bq_feature = ce_feature c,
     bq_remote = False, bq_currency = Some ''USD'', bq_price = None, bq_input = 0, bq_cached = 0, bq_write = 0, bq_output = 0,
     bq_fixed = 0, bq_multiplier = 1, bq_units = [], bq_projected = Some 0, bq_quoted = now, bq_source = ''unknown'',
     bq_reservation = None\<rparr>"

definition preflight_model_call ::
  "call_estimate \<Rightarrow> tariff option \<Rightarrow> string option \<Rightarrow> bool \<Rightarrow> instant \<Rightarrow> billing \<Rightarrow> billing \<times> quote result" where
  "preflight_model_call c price declared reserve now s =
     (let s0 = s\<lparr>bl_next := Suc (bl_next s)\<rparr> in
      if \<not> ce_remote c then (s0, Inr (local_quote c now (bl_next s)))
      else (case new_quote c price declared now (bl_next s) of
          Inl e \<Rightarrow> (s, Inl e)
        | Inr q \<Rightarrow> if reserve then reserve_quote q s0 else (s0, Inr q)))"

section \<open>Settling\<close>

definition release_reservation :: "quote \<Rightarrow> string \<Rightarrow> billing \<Rightarrow> billing result" where
  "release_reservation q reason s = (case bq_reservation q of
      None \<Rightarrow> Inr s
    | Some i \<Rightarrow> (case row_get ue_id i (bl_events s) of
        None \<Rightarrow> Inl (App_error 404 ''not_found'')
      | Some e \<Rightarrow>
          if ue_stage e = Reserved
          then Inr (s\<lparr>bl_events := row_mod ue_id i (\<lambda>e. e\<lparr>ue_stage := Released, ue_status := reason, ue_reserved := None\<rparr>)
            (bl_events s)\<rparr>)
          else Inr s))"

record usage_report =
  ur_input :: int
  ur_output :: int
  ur_attempt :: int
  ur_cached :: int
  ur_created :: int
  ur_reasoning :: int
  ur_cost :: "rat option"
  ur_currency :: "string option"
  ur_reported :: bool
  ur_units :: "(string \<times> rat option) list"

definition usage_available :: "quote \<Rightarrow> usage_report \<Rightarrow> bool" where
  "usage_available q r \<longleftrightarrow>
     (let tokens_required = (bq_input q \<noteq> 0 \<or> bq_cached q \<noteq> 0 \<or> bq_write q \<noteq> 0 \<or> bq_output q \<noteq> 0);
          zero_tariff = (bq_multiplier q = 0 \<or> \<not> tokens_required \<and> bq_fixed q = 0 \<and> (\<forall>x \<in> set (bq_units q). snd x = 0))
      in ur_reported r \<or> zero_tariff \<or> ur_units r \<noteq> [] \<and> \<not> tokens_required)"

definition report_available :: "quote \<Rightarrow> usage_report \<Rightarrow> bool" where
  "report_available q r \<longleftrightarrow> ur_cost r \<noteq> None \<or> usage_available q r \<and> bq_price q \<noteq> None"

text \<open>Currency, amount, status and source of a settlement.\<close>

definition settle_amount :: "quote \<Rightarrow> usage_report \<Rightarrow> (string option \<times> rat option \<times> string \<times> string) result" where
  "settle_amount q r =
     (let inp = max 0 (ur_input r); out = max 0 (ur_output r);
          cached = min inp (max 0 (ur_cached r)); created = min (inp - cached) (max 0 (ur_created r)) in
      if \<not> bq_remote q then Inr (bq_currency q, Some 0, ''non_billable'', ''non_billable'')
      else (case ur_cost r of
          Some x \<Rightarrow> (case ur_currency r of
              None \<Rightarrow> Inl (App_error 422 ''reported_currency_required'')
            | Some c \<Rightarrow> require (c \<noteq> []) (App_error 422 ''reported_currency_required'')
                (bind_r (currency_code c) (\<lambda>cur. bind_r (amount x) (\<lambda>a.
                  Inr (Some cur, Some a, ''provider_reported'', ''provider_reported'')))))
        | None \<Rightarrow>
            if bq_price q \<noteq> None \<and> usage_available q r
            then bind_r (quote_cost q inp out cached created (ur_units r)) (\<lambda>a.
              Inr (bq_currency q, a, if a \<noteq> None then ''priced'' else ''unpriced_units'',
                if a \<noteq> None then bq_source q else ''unknown''))
            else Inr (bq_currency q, None, if bq_price q \<noteq> None then ''usage_missing'' else ''unpriced'', ''unknown'')))"

definition settled_event :: "quote \<Rightarrow> usage_report \<Rightarrow> string option \<times> rat option \<times> string \<times> string \<Rightarrow> usage_event \<Rightarrow> usage_event" where
  "settled_event q r x e = (case x of (currency, a, status, source) \<Rightarrow>
     (let inp = max 0 (ur_input r); out = max 0 (ur_output r);
          cached = min inp (max 0 (ur_cached r)); created = min (inp - cached) (max 0 (ur_created r)) in
      e\<lparr>ue_currency := currency, ue_cost := a, ue_status := status, ue_source := source, ue_stage := Settled,
        ue_attempt := max 1 (ur_attempt r), ue_reserved := (if a = None then bq_projected q else None),
        ue_tokens := (inp, out, cached, created, min out (max 0 (ur_reasoning r))),
        ue_price := bq_price q, ue_expires := None\<rparr>))"

text \<open>A new row for an attempt that has no reservation to settle.\<close>

definition attempt_event :: "quote \<Rightarrow> nat \<times> int \<Rightarrow> instant \<Rightarrow> nat \<Rightarrow> usage_event" where
  "attempt_event q key now i = \<lparr>ue_id = i, ue_provider = bq_provider q, ue_model = bq_model q, ue_feature = bq_feature q,
     ue_currency = None, ue_cost = None, ue_reserved = None, ue_stage = Settled, ue_status = ''unpriced'', ue_source = ''unknown'',
     ue_key = key, ue_attempt = 1, ue_tokens = (0, 0, 0, 0, 0), ue_price = None, ue_created = now, ue_expires = None\<rparr>"

definition record_usage :: "quote \<Rightarrow> usage_report \<Rightarrow> instant \<Rightarrow> billing \<Rightarrow> (billing \<times> usage_event) result" where
  "record_usage q r now s =
     (let key = (bq_id q, max 1 (ur_attempt r));
          write = (\<lambda>e s. bind_r (settle_amount q r) (\<lambda>x.
            let f = (\<lambda>e. (settled_event q r x e)\<lparr>ue_key := key\<rparr>)
            in Inr (s\<lparr>bl_events := row_mod ue_id (ue_id e) f (bl_events s)\<rparr>, f e)));
          fresh = (let e = attempt_event q key now (bl_next s)
            in write e (s\<lparr>bl_events := bl_events s @ [e], bl_next := Suc (bl_next s)\<rparr>))
      in case row_get ue_key key (bl_events s) of
          Some e \<Rightarrow>
            if ue_stage e = Settled \<and> (ue_cost e \<noteq> None \<or> \<not> report_available q r) then Inr (s, e)
            else write e s
        | None \<Rightarrow> (case bq_reservation q of
            None \<Rightarrow> fresh
          | Some i \<Rightarrow> (case row_get ue_id i (bl_events s) of
              None \<Rightarrow> Inl (App_error 404 ''not_found'')
            | Some e \<Rightarrow> if ue_stage e \<noteq> Reserved then fresh else write e s)))"

definition reconcile_expired :: "instant \<Rightarrow> billing \<Rightarrow> billing \<times> nat" where
  "reconcile_expired now s =
     (let due = (\<lambda>e. ue_stage e = Reserved \<and> (\<exists>t \<in> set_option (ue_expires e). t \<le> now)) in
      (s\<lparr>bl_events := map (\<lambda>e. if due e then e\<lparr>ue_stage := Settled, ue_cost := None,
          ue_status := ''interrupted_usage_missing'', ue_source := ''unknown'', ue_expires := None\<rparr> else e) (bl_events s)\<rparr>,
       length (filter due (bl_events s))))"

text \<open>\<open>reconcile_session\<close> for the quotes still pending in a session that is given up.\<close>

definition no_report :: usage_report where
  "no_report = \<lparr>ur_input = 0, ur_output = 0, ur_attempt = 1, ur_cached = 0, ur_created = 0, ur_reasoning = 0, ur_cost = None,
     ur_currency = None, ur_reported = False, ur_units = []\<rparr>"

fun reconcile_session :: "quote list \<Rightarrow> instant \<Rightarrow> billing \<Rightarrow> billing result" where
  "reconcile_session [] now s = Inr s"
| "reconcile_session (q # qs) now s = (case bq_reservation q of
      None \<Rightarrow> Inl (App_error 404 ''not_found'')
    | Some i \<Rightarrow> (case row_get ue_id i (bl_events s) of
        None \<Rightarrow> Inl (App_error 404 ''not_found'')
      | Some e \<Rightarrow>
          if ue_stage e = Reserved
          then bind_r (record_usage q no_report now s) (\<lambda>(s', e'). reconcile_session qs now s')
          else reconcile_session qs now s))"

end
