(* ===== verification/Billing_Facts.thy ===== *)
theory Billing_Facts
  imports Billing
begin

text \<open>
  What the ledger guarantees: periods partition time, a reservation is granted only within every hard
  limit, and under calls that settle within their quotes a hard limit is never exceeded; when a quote
  covers a call; that settling is done once; and the settlements no reservation covers.
\<close>

section \<open>Periods\<close>

lemma month_bounds_partition:
  "first \<le> day \<Longrightarrow> month_bounds y m first day = (a, b) \<Longrightarrow>
   first \<le> a \<and> a \<le> day \<and> day < b \<and> (\<forall>t. a \<le> t \<and> t < b \<longrightarrow> month_bounds y m first t = (a, b))"
proof (induction y m first day rule: month_bounds.induct)
  case (1 y m first day)
  show ?case
  proof (cases "day < first + month_days y m")
    case True
    with 1 have "a = first" "b = first + month_days y m" by (simp_all add: month_bounds.simps [of y m])
    with 1 True show ?thesis by (simp add: month_bounds.simps [of y m])
  next
    case False
    let ?y = "if m = 11 then Suc y else y" and ?m = "if m = 11 then 0 else Suc m" and ?f = "first + month_days y m"
    from False 1(3) have rec: "month_bounds ?y ?m ?f day = (a, b)" by (simp add: month_bounds.simps [of y m first day])
    from 1(1) [OF False _ rec] False
    have "?f \<le> a \<and> a \<le> day \<and> day < b \<and> (\<forall>t. a \<le> t \<and> t < b \<longrightarrow> month_bounds ?y ?m ?f t = (a, b))" by simp
    moreover have "0 \<le> month_days y m" by (rule less_imp_le) simp
    ultimately show ?thesis by (auto simp: month_bounds.simps [of y m first])
  qed
qed

text \<open>Every instant from 1970 on lies in its period, and all instants of a period have the same bounds.\<close>

lemma day_of: "86400 * (t div 86400) \<le> t \<and> t < 86400 * (t div 86400) + (86400 :: int)"
  using mult_div_mod_eq [of 86400 t] pos_mod_bound [of 86400 t] pos_mod_sign [of 86400 t] by linarith

lemma day_bounds: "period_bounds Calendar_day t = (86400 * (t div 86400), 86400 * (t div 86400) + 86400)"
  using minus_mod_eq_mult_div [of t 86400] by (simp only: period_bounds_def period.case)

lemma period_bounds_partition:
  assumes "0 \<le> now" and "period_bounds p now = (a, b)"
  shows "a \<le> now \<and> now < b \<and> (\<forall>t. a \<le> t \<and> t < b \<longrightarrow> period_bounds p t = (a, b))"
proof (cases p)
  case Calendar_day
  with assms have ab: "a = 86400 * (now div 86400)" "b = 86400 * (now div 86400) + 86400" by (simp_all add: day_bounds)
  have "period_bounds p t = (a, b)" if "a \<le> t" "t < b" for t
  proof -
    have "t div 86400 = now div 86400" using that day_of [of t] unfolding ab by linarith
    then show ?thesis unfolding Calendar_day ab day_bounds by (rule arg_cong)
  qed
  with day_of [of now] show ?thesis unfolding ab by blast
next
  case Calendar_month
  obtain c d where cd: "month_bounds 1970 0 0 (now div 86400) = (c, d)" by fastforce
  with assms Calendar_month have ab: "a = 86400 * c" "b = 86400 * d" by (simp_all add: period_bounds_def)
  have "0 \<le> now div 86400" using assms(1) by simp
  from month_bounds_partition [OF this cd] have m: "c \<le> now div 86400" "now div 86400 < d"
    "\<And>t. c \<le> t \<Longrightarrow> t < d \<Longrightarrow> month_bounds 1970 0 0 t = (c, d)" by simp_all
  have "c \<le> t div 86400 \<and> t div 86400 < d" if "a \<le> t" "t < b" for t
    using that day_of [of t] unfolding ab by linarith
  with m(3) have "\<forall>t. a \<le> t \<and> t < b \<longrightarrow> period_bounds p t = (a, b)"
    using Calendar_month ab by (auto simp: period_bounds_def)
  moreover have "a \<le> now \<and> now < b" using m(1,2) day_of [of now] unfolding ab by linarith
  ultimately show ?thesis by blast
qed

section \<open>Occupied amounts\<close>

text \<open>What an event takes from a budget, and all of them together.\<close>

definition contribution :: "budget_policy \<Rightarrow> instant \<Rightarrow> instant \<Rightarrow> usage_event \<Rightarrow> rat" where
  "contribution p a b e = (if ue_currency e = Some (bp_currency p) \<and> occupies p a b e
     then (if ue_stage e = Settled then or_zero (ue_cost e) else 0) + or_zero (ue_reserved e) else 0)"

definition occupied :: "budget_policy \<Rightarrow> instant \<Rightarrow> instant \<Rightarrow> usage_event list \<Rightarrow> rat" where
  "occupied p a b es = sum_list (map (contribution p a b) es)"

lemma sum_amountsD: "sum_amounts xs = Inr r \<Longrightarrow> r = sum_list (map or_zero xs)"
  by (simp add: sum_amounts_def amount_def)

lemma occupied_split:
  "occupied p a b es =
     sum_list (map (or_zero \<circ> ue_cost) (filter (\<lambda>e. ue_stage e = Settled)
       (filter (\<lambda>e. ue_currency e = Some (bp_currency p) \<and> occupies p a b e) es))) +
     sum_list (map (or_zero \<circ> ue_reserved) (filter (\<lambda>e. ue_currency e = Some (bp_currency p) \<and> occupies p a b e) es))"
  by (induction es) (auto simp: occupied_def contribution_def)

lemma totals_occupied:
  assumes "totals_for_policy p a b es = Inr (spent, reserved, unknown)"
  shows "spent + reserved = occupied p a b es"
  using assms unfolding totals_for_policy_def Let_def bind_r_Inr occupied_split
  by (auto dest!: sum_amountsD simp: comp_def)

section \<open>Granted reservations\<close>

lemma persist_alert_rows [simp]:
  "bl_events (persist_alert p level a b x y z l s) = bl_events s"
  "bl_policies (persist_alert p level a b x y z l s) = bl_policies s"
  "bl_next (persist_alert p level a b x y z l s) = bl_next s"
  by (simp_all add: persist_alert_def Let_def)

lemma check_policies_rows:
  "check_policies q ps err s = Inr (s1, err') \<Longrightarrow>
   bl_events s1 = bl_events s \<and> bl_policies s1 = bl_policies s \<and> bl_next s1 = bl_next s"
proof (induction ps arbitrary: err s)
  case (Cons p ps)
  from Cons.prems show ?case
    by (auto simp: bind_r_Inr Let_def split: prod.splits if_splits option.splits dest!: Cons.IH)
qed simp

text \<open>Every policy's part of a check that ends without an error.\<close>

lemma check_policies_granted:
  "check_policies q ps err s = Inr (s1, None) \<Longrightarrow> err = None \<and>
   (\<forall>p \<in> set ps. \<forall>h a b. bp_hard p = Some h \<longrightarrow> period_bounds (bp_period p) (bq_quoted q) = (a, b) \<longrightarrow>
     (\<exists>x. bq_projected q = Some x \<and> occupied p a b (bl_events s) + x \<le> h))"
proof (induction ps arbitrary: err s)
  case (Cons p ps)
  obtain a b where ab: "period_bounds (bp_period p) (bq_quoted q) = (a, b)" by fastforce
  with Cons.prems obtain sp re n where t: "totals_for_policy p a b (bl_events s) = Inr (sp, re, n)"
    and rest: "(if (bq_projected q = None \<or> n \<noteq> 0) \<and> bp_hard p \<noteq> None
        then check_policies q ps (Some (App_error 409 ''usage_price_required'')) s
        else (case bq_projected q of
            None \<Rightarrow> check_policies q ps err s
          | Some x \<Rightarrow>
              let s1 = (case bp_soft p of
                    Some l \<Rightarrow> if l \<le> sp + re + x then persist_alert p ''soft'' a b sp re x l s else s
                  | None \<Rightarrow> s) in
              (case bp_hard p of
                Some h \<Rightarrow>
                  if h < sp + re + x
                  then check_policies q ps (Some (App_error 402 ''budget_hard_limit_exceeded''))
                    (persist_alert p ''hard'' a b sp re x h s1)
                  else check_policies q ps err s1
              | None \<Rightarrow> check_policies q ps err s1))) = Inr (s1, None)"
    by (auto simp: bind_r_Inr)
  have alert: "bl_events (case bp_soft p of
        Some l \<Rightarrow> if l \<le> sp + re + x then persist_alert p ''soft'' a b sp re x l s else s | None \<Rightarrow> s) = bl_events s" for x
    by (simp split: option.split)
  from rest show ?case
  proof (cases "bq_projected q")
    case None
    with rest show ?thesis by (auto simp: ab split: if_splits dest!: Cons.IH)
  next
    case (Some x)
    show ?thesis
    proof (cases "bp_hard p")
      case None
      with rest Some show ?thesis using alert [of x] by (auto simp: Let_def dest!: Cons.IH)
    next
      case (Some h)
      with rest \<open>bq_projected q = Some x\<close> totals_occupied [OF t] show ?thesis
        using alert [of x] by (auto simp: Let_def ab split: if_splits dest!: Cons.IH)
    qed
  qed
qed simp

text \<open>
  A call is authorised only within the budgets. When a reservation is granted, every enabled policy
  whose scope and currency it touches and that has a hard limit still holds it: what is spent and
  reserved in the policy's period, the new reservation included, does not exceed the limit; and the
  amount of the call was known.
\<close>

lemma reservation_respects_hard_limits:
  assumes "reserve_quote q s = (s', Inr q')" and "p \<in> set (bl_policies s)" and "bp_enabled p"
    and "in_scope p (bq_provider q) (bq_model q) (bq_feature q)" and "bq_currency q = Some (bp_currency p)"
    and "bp_hard p = Some h" and "period_bounds (bp_period p) (bq_quoted q) = (a, b)"
    and "totals_for_policy p a b (bl_events s') = Inr (spent, reserved, unknown)"
  shows "spent + reserved \<le> h \<and> bq_projected q \<noteq> None \<and> bl_policies s' = bl_policies s"
proof -
  from assms(1) obtain s1 where c: "check_policies q (matching_policies q s) None s = Inr (s1, None)"
    and s': "s' = s1\<lparr>bl_events := bl_events s1 @ [reservation_event q s1], bl_next := Suc (bl_next s1)\<rparr>"
    by (auto simp: reserve_quote_def split: sum.splits prod.splits option.splits)
  have "p \<in> set (matching_policies q s)" using assms(2-5) by (simp add: matching_policies_def)
  with check_policies_granted [OF c] assms(6,7) obtain x where
    x: "bq_projected q = Some x" "occupied p a b (bl_events s) + x \<le> h" by blast
  from check_policies_rows [OF c] have rows: "bl_events s1 = bl_events s" "bl_policies s1 = bl_policies s" by simp_all
  have "contribution p a b (reservation_event q s1) = x"
    using assms(4,5) x(1) by (simp add: contribution_def reservation_event_def occupies_def or_zero_def)
  with x rows have "occupied p a b (bl_events s') \<le> h" by (simp add: s' occupied_def)
  with totals_occupied [OF assms(8)] x rows s' show ?thesis by simp
qed

section \<open>Runs of the ledger\<close>

text \<open>The ledger with the quotes that were handed out and not released.\<close>

record ledger =
  lg_billing :: billing
  lg_quotes :: "quote list"

text \<open>
  The calls a session makes, in any order and number, within one period \<open>[a, b)\<close> of the policy: quotes
  with a reservation, refused calls, settlements whose charge stays within the quote and its currency,
  releases of calls that were not made, and the recovery of expired reservations. A settlement may be of any
  attempt and be repeated, but it settles in place: it finds the row of its attempt, or a reservation that is
  still open, so that it opens no second row for a quote. The callers keep to it as long as a call ends
  before its reservation expires, for they take a fresh quote for every attempt.
\<close>

definition settles_in_place :: "quote \<Rightarrow> usage_report \<Rightarrow> billing \<Rightarrow> bool" where
  "settles_in_place q r s \<longleftrightarrow> \<not> bq_remote q \<or> row_get ue_key (bq_id q, max 1 (ur_attempt r)) (bl_events s) \<noteq> None \<or>
     (case bq_reservation q of None \<Rightarrow> False | Some i \<Rightarrow> (case row_get ue_id i (bl_events s) of None \<Rightarrow> False | Some e \<Rightarrow> ue_stage e = Reserved))"

definition within_quote :: "quote \<Rightarrow> usage_event \<Rightarrow> bool" where
  "within_quote q e \<longleftrightarrow> ue_cost e = None \<or> \<not> bq_remote q \<or>
     ue_currency e = bq_currency q \<and> or_zero (ue_cost e) \<le> or_zero (bq_projected q)"

inductive ledger_step :: "instant \<Rightarrow> instant \<Rightarrow> ledger \<Rightarrow> ledger \<Rightarrow> bool" for a b where
  granted: "preflight_model_call c price declared True now (lg_billing w) = (s, Inr q) \<Longrightarrow> a \<le> now \<Longrightarrow> now < b \<Longrightarrow>
    ledger_step a b w \<lparr>lg_billing = s, lg_quotes = q # lg_quotes w\<rparr>"
| refused: "preflight_model_call c price declared True now (lg_billing w) = (s, Inl e) \<Longrightarrow>
    ledger_step a b w (w\<lparr>lg_billing := s\<rparr>)"
| settled: "q \<in> set (lg_quotes w) \<Longrightarrow> record_usage q r now (lg_billing w) = Inr (s, e) \<Longrightarrow> settles_in_place q r (lg_billing w) \<Longrightarrow>
    within_quote q e \<Longrightarrow> ledger_step a b w (w\<lparr>lg_billing := s\<rparr>)"
| released: "q \<in> set (lg_quotes w) \<Longrightarrow> release_reservation q reason (lg_billing w) = Inr s \<Longrightarrow>
    ledger_step a b w \<lparr>lg_billing = s, lg_quotes = filter (\<lambda>x. x \<noteq> q) (lg_quotes w)\<rparr>"
| expired: "ledger_step a b w (w\<lparr>lg_billing := fst (reconcile_expired now (lg_billing w))\<rparr>)"

inductive ledger_reach :: "instant \<Rightarrow> instant \<Rightarrow> billing \<Rightarrow> ledger \<Rightarrow> bool" for a b s where
  start: "ledger_reach a b s \<lparr>lg_billing = s, lg_quotes = []\<rparr>"
| step: "ledger_reach a b s w \<Longrightarrow> ledger_step a b w w' \<Longrightarrow> ledger_reach a b s w'"

text \<open>What an event still holds of its quote.\<close>

definition held :: "quote \<Rightarrow> usage_event \<Rightarrow> bool" where
  "held q e \<longleftrightarrow> ue_stage e \<noteq> Released \<and> ue_provider e = bq_provider q \<and> ue_model e = bq_model q \<and> ue_feature e = bq_feature q \<and>
     (ue_cost e = None \<longrightarrow> ue_currency e = bq_currency q \<and> ue_reserved e = bq_projected q) \<and>
     (ue_cost e \<noteq> None \<longrightarrow> ue_stage e = Settled)"

text \<open>The one row a priced quote stands on.\<close>

definition stands_on :: "billing \<Rightarrow> quote \<Rightarrow> usage_event \<Rightarrow> bool" where
  "stands_on s q e \<longleftrightarrow> filter (\<lambda>x. fst (ue_key x) = bq_id q) (bl_events s) = [e] \<and> bq_reservation q = Some (ue_id e) \<and> held q e"

definition backed :: "billing \<Rightarrow> quote \<Rightarrow> bool" where
  "backed s q \<longleftrightarrow> bq_id q < bl_next s \<and> 0 \<le> or_zero (bq_projected q) \<and>
     (if bq_remote q then \<exists>e :: usage_event. stands_on s q e
      else bq_reservation q = None \<and> (\<forall>e \<in> set (bl_events s). fst (ue_key e) = bq_id q \<longrightarrow> ue_stage e = Settled \<and> ue_cost e \<noteq> None))"

lemma stands_onD:
  assumes "stands_on s q e"
  shows "e \<in> set (bl_events s)" and "fst (ue_key e) = bq_id q" and "bq_reservation q = Some (ue_id e)" and "held q e"
    and "x \<in> set (bl_events s) \<Longrightarrow> fst (ue_key x) = bq_id q \<Longrightarrow> x = e"
proof -
  have mem: "set (filter (\<lambda>x. fst (ue_key x) = bq_id q) (bl_events s)) = {e}" using assms by (simp add: stands_on_def)
  then show "e \<in> set (bl_events s)" "fst (ue_key e) = bq_id q" by auto
  show "x = e" if "x \<in> set (bl_events s)" "fst (ue_key x) = bq_id q" using mem that by auto
qed (use assms in \<open>simp_all add: stands_on_def\<close>)

definition events_ok :: "billing \<Rightarrow> bool" where
  "events_ok s \<longleftrightarrow> distinct (map ue_id (bl_events s)) \<and> distinct (map ue_key (bl_events s)) \<and>
     (\<forall>e \<in> set (bl_events s). ue_id e < bl_next s \<and> fst (ue_key e) < bl_next s \<and>
       0 \<le> or_zero (ue_cost e) \<and> 0 \<le> or_zero (ue_reserved e))"

definition ledger_inv :: "budget_policy list \<Rightarrow> instant \<Rightarrow> instant \<Rightarrow> ledger \<Rightarrow> bool" where
  "ledger_inv ps a b w \<longleftrightarrow> events_ok (lg_billing w) \<and> bl_policies (lg_billing w) = ps \<and>
     distinct (map bq_id (lg_quotes w)) \<and> (\<forall>q \<in> set (lg_quotes w). backed (lg_billing w) q) \<and>
     (\<forall>p \<in> set ps. \<forall>h. bp_enabled p \<longrightarrow> bp_hard p = Some h \<longrightarrow>
       (\<forall>t. a \<le> t \<and> t < b \<longrightarrow> period_bounds (bp_period p) t = (a, b)) \<longrightarrow>
       occupied p a b (bl_events (lg_billing w)) \<le> h)"

subsection \<open>New quotes\<close>

lemma or_zero_simps [simp]: "or_zero None = 0" "or_zero (Some r) = r"
  by (simp_all add: or_zero_def)

lemma amount_nonneg: "amount_ok r \<Longrightarrow> 0 \<le> r"
  by (simp add: amount_ok_def)

lemma quote_cost_nonneg: "quote_cost q inp out cached created units = Inr x \<Longrightarrow> 0 \<le> or_zero x"
  by (auto simp: quote_cost_def or_zero_def bind_r_Inr amount_nonneg split: if_splits option.splits)

lemma new_quote_fields:
  assumes "new_quote c price declared now i = Inr q"
  shows "bq_id q = i \<and> bq_remote q \<and> bq_quoted q = now \<and> bq_reservation q = None \<and> 0 \<le> or_zero (bq_projected q) \<and>
    bq_provider q = ce_provider c \<and> bq_model q = ce_model c \<and> bq_feature q = ce_feature c"
  using assms
  by (auto simp: new_quote_def Let_def bind_r_Inr split: option.splits dest: quote_cost_nonneg)

lemma reserve_quoteD:
  assumes "reserve_quote q s = (s', Inr q')"
  obtains s1 where "check_policies q (matching_policies q s) None s = Inr (s1, None)"
    and "s' = s1\<lparr>bl_events := bl_events s @ [reservation_event q s], bl_next := Suc (bl_next s)\<rparr>"
    and "q' = q\<lparr>bq_reservation := Some (bl_next s)\<rparr>" and "bl_policies s' = bl_policies s"
proof -
  from assms obtain s1 where c: "check_policies q (matching_policies q s) None s = Inr (s1, None)"
    and s': "s' = s1\<lparr>bl_events := bl_events s1 @ [reservation_event q s1], bl_next := Suc (bl_next s1)\<rparr>"
    and q': "q' = q\<lparr>bq_reservation := Some (bl_next s1)\<rparr>"
    by (auto simp: reserve_quote_def split: sum.splits prod.splits option.splits)
  from check_policies_rows [OF c] have "bl_events s1 = bl_events s" "bl_policies s1 = bl_policies s" "bl_next s1 = bl_next s"
    by simp_all
  with c s' q' show thesis by (intro that [of s1]) (simp_all add: reservation_event_def)
qed

lemma reserve_refused_rows: "reserve_quote q s = (s', Inl e) \<Longrightarrow> bl_events s' = bl_events s \<and> bl_policies s' = bl_policies s \<and> bl_next s' = bl_next s"
  by (auto simp: reserve_quote_def split: sum.splits prod.splits option.splits dest: check_policies_rows)

lemma granted_occupied:
  assumes "reserve_quote q s = (s', Inr q')" and "p \<in> set (bl_policies s)" and "bp_enabled p" and "bp_hard p = Some h"
    and "period_bounds (bp_period p) (bq_quoted q) = (a, b)" and "occupied p a b (bl_events s) \<le> h"
  shows "occupied p a b (bl_events s') \<le> h"
proof -
  from assms(1) obtain s1 where c: "check_policies q (matching_policies q s) None s = Inr (s1, None)"
    and s': "bl_events s' = bl_events s @ [reservation_event q s]" by (rule reserve_quoteD) simp
  show ?thesis
  proof (cases "in_scope p (bq_provider q) (bq_model q) (bq_feature q) \<and> bq_currency q = Some (bp_currency p)")
    case True
    then have "p \<in> set (matching_policies q s)" using assms(2,3) by (simp add: matching_policies_def)
    with check_policies_granted [OF c] assms(4,5) obtain x where
      "bq_projected q = Some x" "occupied p a b (bl_events s) + x \<le> h" by blast
    with True show ?thesis
      by (simp add: s' occupied_def contribution_def reservation_event_def occupies_def or_zero_def)
  next
    case False
    then have "contribution p a b (reservation_event q s) = 0"
      by (auto simp: contribution_def reservation_event_def occupies_def)
    with assms(6) show ?thesis by (simp add: s' occupied_def)
  qed
qed

subsection \<open>Changed events\<close>

lemma occupied_mod:
  assumes "\<And>e. e \<in> set es \<Longrightarrow> contribution p a b (f e) \<le> contribution p a b e"
  shows "occupied p a b (map f es) \<le> occupied p a b es"
  unfolding occupied_def map_map comp_def using assms by (intro sum_list_mono)

text \<open>Settling an event that is held within its quote never takes more from a budget than its reservation did.\<close>

lemma settled_contribution:
  assumes "held q e" and "ue_cost e = None" and "within_quote q e'" and "bq_remote q"
    and "e' = (settled_event q r (cur, x, st, so) e)\<lparr>ue_key := key\<rparr>" and "x = None \<Longrightarrow> cur = bq_currency q"
    and "0 \<le> or_zero (bq_projected q)"
  shows "contribution p a b e' \<le> contribution p a b e"
proof -
  have cur: "cur = bq_currency q" using assms(3-6) by (cases x) (auto simp: within_quote_def settled_event_def Let_def)
  have old: "ue_currency e = bq_currency q" "ue_reserved e = bq_projected q" "ue_stage e \<noteq> Released"
    using assms(1,2) by (simp_all add: held_def)
  have "occupies p a b e' \<Longrightarrow> occupies p a b e" using old(3)
    by (auto simp: occupies_def assms(5) settled_event_def Let_def)
  moreover have "or_zero (ue_cost e') + or_zero (ue_reserved e') \<le> or_zero (bq_projected q)"
    using assms(3,4) by (cases x) (auto simp: within_quote_def assms(5) settled_event_def Let_def or_zero_def)
  ultimately show ?thesis
    using assms(2,7) cur old by (auto simp: contribution_def assms(5) settled_event_def Let_def or_zero_def)
qed

lemma contribution_nonneg: "events_ok s \<Longrightarrow> e \<in> set (bl_events s) \<Longrightarrow> 0 \<le> contribution p a b e"
  by (auto simp: events_ok_def contribution_def)

lemma changed_inv:
  assumes inv: "ledger_inv ps a b w"
    and keep: "\<And>e. e \<in> set (bl_events (lg_billing w)) \<Longrightarrow> ue_id (g e) = ue_id e \<and> fst (ue_key (g e)) = fst (ue_key e) \<and>
      0 \<le> or_zero (ue_cost (g e)) \<and> 0 \<le> or_zero (ue_reserved (g e))"
    and keys: "distinct (map ue_key (map g (bl_events (lg_billing w))))"
    and less: "\<And>p e. e \<in> set (bl_events (lg_billing w)) \<Longrightarrow> contribution p a b (g e) \<le> contribution p a b e"
    and held: "\<And>q e. q \<in> set (lg_quotes w) \<Longrightarrow> P q \<Longrightarrow> e \<in> set (bl_events (lg_billing w)) \<Longrightarrow> fst (ue_key e) = bq_id q \<Longrightarrow>
      held q e \<Longrightarrow> held q (g e)"
    and paid: "\<And>e. e \<in> set (bl_events (lg_billing w)) \<Longrightarrow> ue_stage e = Settled \<Longrightarrow> ue_cost e \<noteq> None \<Longrightarrow> ue_stage (g e) = Settled \<and> ue_cost (g e) \<noteq> None"
  shows "ledger_inv ps a b \<lparr>lg_billing = (lg_billing w)\<lparr>bl_events := map g (bl_events (lg_billing w))\<rparr>,
    lg_quotes = filter P (lg_quotes w)\<rparr>"
proof -
  let ?s = "lg_billing w" and ?es = "bl_events (lg_billing w)"
  let ?s' = "?s\<lparr>bl_events := map g ?es\<rparr>"
  have cols: "map ue_id (map g ?es) = map ue_id ?es" using keep by simp
  from inv have ok: "events_ok ?s" by (simp add: ledger_inv_def)
  have "events_ok ?s'"
    unfolding events_ok_def using ok cols keep keys by (simp add: events_ok_def del: map_map)
  moreover have "backed ?s' q" if q: "q \<in> set (lg_quotes w)" "P q" for q
  proof -
    from inv q(1) have old: "backed ?s q" by (simp add: ledger_inv_def)
    show ?thesis
    proof (cases "bq_remote q")
      case True
      with old obtain e where "stands_on ?s q e" by (auto simp: backed_def)
      note e = stands_onD [OF this] this
      have "filter (\<lambda>x. fst (ue_key x) = bq_id q) (map g ?es) = map g (filter (\<lambda>x. fst (ue_key x) = bq_id q) ?es)"
        unfolding filter_map comp_def by (rule arg_cong [of _ _ "map g"], rule filter_cong) (use keep in simp_all)
      then have "stands_on ?s' q (g e)"
        using keep [OF e(1)] held [OF q e(1,2,4)] e(3,6) by (simp add: stands_on_def)
      with old True show ?thesis unfolding backed_def by auto
    next
      case False
      with old show ?thesis using keep paid by (fastforce simp: backed_def)
    qed
  qed
  moreover have "occupied p a b (map g ?es) \<le> occupied p a b ?es" for p by (rule occupied_mod) (rule less)
  ultimately show ?thesis using inv by (fastforce simp: ledger_inv_def distinct_map_filter intro: order_trans)
qed

lemma quote_event:
  assumes "ledger_inv ps a b w" and "q \<in> set (lg_quotes w)" and "bq_remote q"
  obtains e where "held q e" and "e \<in> set (bl_events (lg_billing w))"
    and "row_get ue_id (ue_id e) (bl_events (lg_billing w)) = Some e" and "bq_reservation q = Some (ue_id e)"
    and "fst (ue_key e) = bq_id q" and "\<forall>x \<in> set (bl_events (lg_billing w)). fst (ue_key x) = bq_id q \<longrightarrow> x = e"
proof -
  let ?es = "bl_events (lg_billing w)"
  from assms(1,2) have "backed (lg_billing w) q" by (simp add: ledger_inv_def)
  with assms(3) obtain e where "stands_on (lg_billing w) q e" by (auto simp: backed_def)
  note e = stands_onD [OF this]
  from assms(1) have "distinct (map ue_id ?es)" by (simp add: ledger_inv_def events_ok_def)
  from row_get_distinct [OF this e(1)] e(1-4) have "row_get ue_id (ue_id e) ?es = Some e" by simp
  then show thesis by (rule that [OF e(4,1) _ e(3,2)]) (use e(5) in blast)
qed

lemma same_quote: "ledger_inv ps a b w \<Longrightarrow> q \<in> set (lg_quotes w) \<Longrightarrow> q' \<in> set (lg_quotes w) \<Longrightarrow> bq_id q = bq_id q' \<Longrightarrow> q = q'"
  by (auto simp: ledger_inv_def distinct_map inj_on_def)

lemma same_id: "events_ok s \<Longrightarrow> e \<in> set (bl_events s) \<Longrightarrow> e' \<in> set (bl_events s) \<Longrightarrow> ue_id e = ue_id e' \<Longrightarrow> e = e'"
  by (auto simp: events_ok_def distinct_map inj_on_def)

lemma keys_same: "(\<And>e. ue_key (g e) = ue_key e) \<Longrightarrow> events_ok s \<Longrightarrow> distinct (map ue_key (map g (bl_events s)))"
  by (simp add: events_ok_def comp_def)

subsection \<open>Every call keeps the invariant\<close>

lemma expired_inv:
  assumes "ledger_inv ps a b w"
  shows "ledger_inv ps a b (w\<lparr>lg_billing := fst (reconcile_expired now (lg_billing w))\<rparr>)"
proof -
  let ?due = "\<lambda>e. ue_stage e = Reserved \<and> (\<exists>t \<in> set_option (ue_expires e). t \<le> now)"
  let ?g = "\<lambda>e. if ?due e then e\<lparr>ue_stage := Settled, ue_cost := None, ue_status := ''interrupted_usage_missing'',
    ue_source := ''unknown'', ue_expires := None\<rparr> else e"
  from assms have ok: "events_ok (lg_billing w)" by (simp add: ledger_inv_def)
  have "ledger_inv ps a b \<lparr>lg_billing = (lg_billing w)\<lparr>bl_events := map ?g (bl_events (lg_billing w))\<rparr>,
      lg_quotes = filter (\<lambda>_. True) (lg_quotes w)\<rparr>"
  proof (rule changed_inv [OF assms _ keys_same [OF _ ok]])
    fix p e
    assume "e \<in> set (bl_events (lg_billing w))"
    show "contribution p a b (?g e) \<le> contribution p a b e"
      using ok \<open>e \<in> _\<close> by (auto simp: contribution_def occupies_def events_ok_def)
  qed (use ok in \<open>auto simp: events_ok_def held_def\<close>)
  then show ?thesis by (cases w) (simp add: reconcile_expired_def Let_def)
qed

lemma released_inv:
  assumes "ledger_inv ps a b w" and "q \<in> set (lg_quotes w)" and "release_reservation q reason (lg_billing w) = Inr s"
  shows "ledger_inv ps a b \<lparr>lg_billing = s, lg_quotes = filter (\<lambda>x. x \<noteq> q) (lg_quotes w)\<rparr>"
proof -
  let ?es = "bl_events (lg_billing w)"
  from assms(1) have ok: "events_ok (lg_billing w)" by (simp add: ledger_inv_def)
  have same: "ledger_inv ps a b \<lparr>lg_billing = lg_billing w, lg_quotes = filter (\<lambda>x. x \<noteq> q) (lg_quotes w)\<rparr>"
    using changed_inv [OF assms(1), of "\<lambda>e. e" "\<lambda>x. x \<noteq> q"] ok by (simp add: events_ok_def)
  show ?thesis
  proof (cases "bq_remote q")
    case False
    with assms same show ?thesis by (simp add: ledger_inv_def backed_def release_reservation_def)
  next
    case True
    obtain e where e: "row_get ue_id (ue_id e) ?es = Some e" "bq_reservation q = Some (ue_id e)" "fst (ue_key e) = bq_id q"
      "e \<in> set ?es" "held q e" by (rule quote_event [OF assms(1,2) True])
    let ?f = "\<lambda>e. e\<lparr>ue_stage := Released, ue_status := reason, ue_reserved := None\<rparr>"
    show ?thesis
    proof (cases "ue_stage e = Reserved")
      case False
      with assms(3) e same show ?thesis by (simp add: release_reservation_def)
    next
      case R: True
      let ?g = "\<lambda>x. if ue_id x = ue_id e then ?f x else x"
      have s: "s = (lg_billing w)\<lparr>bl_events := map ?g ?es\<rparr>"
        using assms(3) e R by (simp add: release_reservation_def row_mod_def)
      have one: "x = e" if "x \<in> set ?es" "ue_id x = ue_id e" for x by (rule same_id [OF ok that(1) e(4) that(2)])
      show ?thesis
        unfolding s
      proof (rule changed_inv [OF assms(1) _ keys_same [OF _ ok]])
        fix p x
        assume x: "x \<in> set ?es"
        have "contribution p a b (?f x) = 0" by (simp add: contribution_def occupies_def)
        with contribution_nonneg [OF ok x, of p a b] show "contribution p a b (?g x) \<le> contribution p a b x" by auto
      next
        fix q' x
        assume q': "q' \<in> set (lg_quotes w)" "q' \<noteq> q" and x: "x \<in> set ?es" "fst (ue_key x) = bq_id q'" "held q' x"
        then have "ue_id x \<noteq> ue_id e" using one [of x] e(3) same_quote [OF assms(1,2) q'(1)] by auto
        with x show "held q' (?g x)" by simp
      next
        fix x
        assume x: "x \<in> set ?es" "ue_stage x = Settled" "ue_cost x \<noteq> None"
        with one [of x] R have "ue_id x \<noteq> ue_id e" by auto
        with x show "ue_stage (?g x) = Settled \<and> ue_cost (?g x) \<noteq> None" by simp
      qed (use ok in \<open>auto simp: events_ok_def\<close>)
    qed
  qed
qed

text \<open>One row rewritten, which no other quote that is kept stands on.\<close>

lemma settle_amountD:
  assumes "settle_amount q r = Inr (cur, x, st, src)"
  shows "0 \<le> or_zero x" and "x = None \<Longrightarrow> cur = bq_currency q" and "\<not> bq_remote q \<Longrightarrow> x = Some 0"
  using assms
  by (auto simp: settle_amount_def Let_def bind_r_Inr amount_def amount_nonneg split: if_splits option.splits
      dest: quote_cost_nonneg)

lemma row_mod_event:
  assumes ok: "events_ok s" and e: "e \<in> set (bl_events s)" and f: "f e = e'"
  shows "row_mod ue_id (ue_id e) f (bl_events s) = map (\<lambda>x. if ue_id x = ue_id e then e' else x) (bl_events s)"
  unfolding row_mod_def using same_id [OF ok _ e] f by auto

lemma row_mod_added: "k \<notin> key ` set rs \<Longrightarrow> row_mod key k f (rs @ [r]) = rs @ [if key r = k then f r else r]"
  by (induction rs) auto

lemma distinct_replaced:
  assumes "distinct (map key es)" and "key e' = key e \<or> key e' \<notin> key ` set es" and "\<And>x. x \<in> set es \<Longrightarrow> i x = i e \<Longrightarrow> x = e"
  shows "distinct (map key (map (\<lambda>x. if i x = i e then e' else x) es))"
  using assms
proof (induction es)
  case (Cons x es)
  let ?F = "\<lambda>x. if i x = i e then e' else x"
  have IH: "distinct (map key (map ?F es))"
  proof (rule Cons.IH)
    show "distinct (map key es)" "key e' = key e \<or> key e' \<notin> key ` set es" using Cons.prems(1,2) by auto
    show "y = e" if "y \<in> set es" "i y = i e" for y using Cons.prems(3) that by simp
  qed
  have "key (?F x) \<notin> set (map key (map ?F es))"
  proof
    assume "key (?F x) \<in> set (map key (map ?F es))"
    then obtain y where y: "y \<in> set es" "key (?F x) = key (?F y)" by auto
    have "key x \<noteq> key y" "y \<noteq> x" using Cons.prems(1) y(1) by auto
    with y Cons.prems(2,3) show False by (auto split: if_splits)
  qed
  with IH show ?case by (simp only: list.map distinct.simps simp_thms)
qed simp

lemma settled_remote_inv:
  assumes inv: "ledger_inv ps a b w" and q: "q \<in> set (lg_quotes w)" and rem: "bq_remote q" and plc: "settles_in_place q r (lg_billing w)"
    and run: "record_usage q r now (lg_billing w) = Inr (s, e')" and wq: "within_quote q e'"
  shows "ledger_inv ps a b (w\<lparr>lg_billing := s\<rparr>)"
proof -
  let ?es = "bl_events (lg_billing w)" and ?key = "(bq_id q, max 1 (ur_attempt r))"
  from inv q have ok: "events_ok (lg_billing w)" and pos: "0 \<le> or_zero (bq_projected q)"
    by (simp_all add: ledger_inv_def backed_def)
  obtain e where e: "held q e" "e \<in> set ?es" "row_get ue_id (ue_id e) ?es = Some e" "bq_reservation q = Some (ue_id e)" "fst (ue_key e) = bq_id q"
    and sole: "\<forall>x \<in> set ?es. fst (ue_key x) = bq_id q \<longrightarrow> x = e" by (rule quote_event [OF inv q rem])
  have find: "row_get ue_key ?key ?es = None \<and> ue_stage e = Reserved \<or> row_get ue_key ?key ?es = Some e \<and> ue_key e = ?key"
  proof (cases "row_get ue_key ?key ?es")
    case None
    with plc rem e(3,4) show ?thesis by (simp add: settles_in_place_def)
  next
    case (Some x)
    from row_get_SomeD [OF Some] have x: "x \<in> set ?es" "ue_key x = ?key" by simp_all
    moreover from x sole have "x = e" by (metis fst_conv)
    ultimately have "x = e" "ue_key x = ?key" by simp_all
    with Some show ?thesis by simp
  qed
  show ?thesis
  proof (cases "row_get ue_key ?key ?es = Some e \<and> ue_stage e = Settled \<and> (ue_cost e \<noteq> None \<or> \<not> report_available q r)")
    case True
    with run have "s = lg_billing w" by (simp add: record_usage_def Let_def)
    with inv show ?thesis by simp
  next
    case False
    let ?f = "\<lambda>y e. (settled_event q r y e)\<lparr>ue_key := ?key\<rparr>"
    have "bind_r (settle_amount q r) (\<lambda>y. Inr ((lg_billing w)\<lparr>bl_events := row_mod ue_id (ue_id e) (?f y) ?es\<rparr>, ?f y e)) = Inr (s, e')"
      using find
    proof
      assume "row_get ue_key ?key ?es = None \<and> ue_stage e = Reserved"
      with run e(3,4) show ?thesis by (simp add: record_usage_def Let_def)
    next
      assume "row_get ue_key ?key ?es = Some e \<and> ue_key e = ?key"
      with run False show ?thesis by (simp add: record_usage_def Let_def split: if_splits)
    qed
    then obtain cur x st src where amt: "settle_amount q r = Inr (cur, x, st, src)"
      and e': "e' = (settled_event q r (cur, x, st, src) e)\<lparr>ue_key := ?key\<rparr>"
      and s: "s = (lg_billing w)\<lparr>bl_events := row_mod ue_id (ue_id e) (?f (cur, x, st, src)) ?es\<rparr>"
      by (auto simp: bind_r_Inr)
    let ?g = "\<lambda>x. if ue_id x = ue_id e then e' else x"
    have s: "s = (lg_billing w)\<lparr>bl_events := map ?g ?es\<rparr>"
      unfolding s by (simp add: row_mod_event [OF ok e(2) refl] e')
    have open_e: "ue_cost e = None" using False find e(1) by (auto simp: held_def)
    have one: "x = e" if "x \<in> set ?es" "ue_id x = ue_id e" for x by (rule same_id [OF ok that(1) e(2) that(2)])
    have new: "ue_id e' = ue_id e" "fst (ue_key e') = fst (ue_key e)" "0 \<le> or_zero (ue_cost e')" "0 \<le> or_zero (ue_reserved e')" "held q e'"
      using settle_amountD(1,2) [OF amt] e(1,5) pos by (auto simp: e' settled_event_def Let_def held_def)
    have less: "contribution p a b e' \<le> contribution p a b e" for p
      by (rule settled_contribution [OF e(1) open_e wq rem e' settle_amountD(2) [OF amt] pos])
    have "ue_key e' = ue_key e \<or> ue_key e' \<notin> ue_key ` set ?es"
      using find by (auto simp: e' row_get_None_iff)
    then have keys: "distinct (map ue_key (map ?g ?es))"
      using ok one by (intro distinct_replaced) (simp_all add: events_ok_def)
    have "ledger_inv ps a b \<lparr>lg_billing = (lg_billing w)\<lparr>bl_events := map ?g ?es\<rparr>, lg_quotes = filter (\<lambda>_. True) (lg_quotes w)\<rparr>"
    proof (rule changed_inv [OF inv _ keys])
      fix q' x
      assume q': "q' \<in> set (lg_quotes w)" and x: "x \<in> set ?es" "fst (ue_key x) = bq_id q'" "held q' x"
      show "held q' (?g x)"
      proof (cases "ue_id x = ue_id e")
        case True
        with one x(1) have "x = e" by blast
        with x(2) e(5) have "bq_id q' = bq_id q" by simp
        with same_quote [OF inv q' q] new(5) True show ?thesis by simp
      qed (use x in simp)
    next
      fix x
      assume x: "x \<in> set ?es" "ue_stage x = Settled" "ue_cost x \<noteq> None"
      with one [of x] open_e have "ue_id x \<noteq> ue_id e" by auto
      with x show "ue_stage (?g x) = Settled \<and> ue_cost (?g x) \<noteq> None" by simp
    next
      fix x
      assume "x \<in> set ?es"
      with one [of x] new ok show "ue_id (?g x) = ue_id x \<and> fst (ue_key (?g x)) = fst (ue_key x) \<and> 0 \<le> or_zero (ue_cost (?g x)) \<and>
        0 \<le> or_zero (ue_reserved (?g x))" by (auto simp: events_ok_def)
    next
      fix p x
      assume "x \<in> set ?es"
      with one [of x] less show "contribution p a b (?g x) \<le> contribution p a b x" by auto
    qed
    then show ?thesis by (cases w) (simp add: s)
  qed
qed

text \<open>A row added, which changes no total for the worse.\<close>

lemma added_inv:
  assumes inv: "ledger_inv ps a b w" and s: "s = (lg_billing w)\<lparr>bl_alerts := al, bl_events := bl_events (lg_billing w) @ es, bl_next := n\<rparr>"
    and n: "bl_next (lg_billing w) \<le> n" and ok: "events_ok s"
    and qs: "distinct (map bq_id qs)" "\<And>q. q \<in> set qs \<Longrightarrow> q \<in> set (lg_quotes w) \<and> (\<forall>e \<in> set es. fst (ue_key e) = bq_id q \<longrightarrow>
        \<not> bq_remote q \<and> ue_stage e = Settled \<and> ue_cost e \<noteq> None) \<or> backed s q"
    and lim: "\<And>p h. p \<in> set ps \<Longrightarrow> bp_enabled p \<Longrightarrow> bp_hard p = Some h \<Longrightarrow>
        (\<forall>t. a \<le> t \<and> t < b \<longrightarrow> period_bounds (bp_period p) t = (a, b)) \<Longrightarrow> occupied p a b (bl_events (lg_billing w)) \<le> h \<Longrightarrow>
        occupied p a b (bl_events s) \<le> h"
  shows "ledger_inv ps a b \<lparr>lg_billing = s, lg_quotes = qs\<rparr>"
proof -
  have "backed s q" if q: "q \<in> set qs" for q
  proof -
    consider "q \<in> set (lg_quotes w)" "\<forall>e \<in> set es. fst (ue_key e) = bq_id q \<longrightarrow> \<not> bq_remote q \<and> ue_stage e = Settled \<and> ue_cost e \<noteq> None"
      | "backed s q" using qs(2) [OF q] by blast
    then show ?thesis
    proof cases
      case 1
      with inv have "backed (lg_billing w) q" by (simp add: ledger_inv_def)
      have "filter (\<lambda>x. fst (ue_key x) = bq_id q) es = []" if "bq_remote q" using 1(2) that by (auto simp: filter_empty_conv)
      then have "bq_remote q \<Longrightarrow> stands_on (lg_billing w) q e \<Longrightarrow> stands_on s q e" for e by (simp add: stands_on_def s)
      with \<open>backed (lg_billing w) q\<close> 1(2) n show ?thesis unfolding backed_def by (auto simp: s split: if_splits)
    qed
  qed
  with inv ok qs(1) lim show ?thesis by (simp add: ledger_inv_def s)
qed

lemma settled_local_inv:
  assumes inv: "ledger_inv ps a b w" and q: "q \<in> set (lg_quotes w)" and loc: "\<not> bq_remote q"
    and run: "record_usage q r now (lg_billing w) = Inr (s, e')"
  shows "ledger_inv ps a b (w\<lparr>lg_billing := s\<rparr>)"
proof -
  let ?s = "lg_billing w" and ?es = "bl_events (lg_billing w)"
  from inv q loc have bk: "bq_reservation q = None" "bq_id q < bl_next ?s"
    "\<And>e. e \<in> set ?es \<Longrightarrow> fst (ue_key e) = bq_id q \<Longrightarrow> ue_stage e = Settled \<and> ue_cost e \<noteq> None"
    and ok: "events_ok ?s" by (auto simp: ledger_inv_def backed_def)
  let ?key = "(bq_id q, max 1 (ur_attempt r))"
  show ?thesis
  proof (cases "row_get ue_key ?key ?es")
    case (Some e)
    then have "e \<in> set ?es" "fst (ue_key e) = bq_id q" by (auto dest: row_get_SomeD)
    with bk(3) run Some have "s = lg_billing w" by (simp add: record_usage_def Let_def)
    with inv show ?thesis by simp
  next
    case None
    then have free: "?key \<notin> ue_key ` set ?es" by (simp add: row_get_None_iff)
    have id: "bl_next ?s \<notin> ue_id ` set ?es" using ok by (auto simp: events_ok_def)
    let ?e = "attempt_event q ?key now (bl_next ?s)"
    from run None bk(1) obtain cur x st src where amt: "settle_amount q r = Inr (cur, x, st, src)"
      and e': "e' = (settled_event q r (cur, x, st, src) ?e)\<lparr>ue_key := ?key\<rparr>"
      and s: "s = ?s\<lparr>bl_events := ?es @ [e'], bl_next := Suc (bl_next ?s)\<rparr>"
      by (auto simp: record_usage_def Let_def bind_r_Inr row_mod_added [OF id] attempt_event_def)
    have x: "x = Some 0" by (rule settle_amountD(3) [OF amt loc])
    have new: "ue_id e' = bl_next ?s" "ue_key e' = ?key" "ue_stage e' = Settled" "ue_cost e' = Some 0" "ue_reserved e' = None"
      by (simp_all add: e' settled_event_def attempt_event_def Let_def x)
    have ok': "events_ok s" using ok free id new bk(2) by (auto simp: events_ok_def s intro: less_SucI)
    have s1: "s = ?s\<lparr>bl_alerts := bl_alerts ?s, bl_events := ?es @ [e'], bl_next := Suc (bl_next ?s)\<rparr>" by (simp add: s)
    have "ledger_inv ps a b \<lparr>lg_billing = s, lg_quotes = lg_quotes w\<rparr>"
    proof (rule added_inv [OF inv s1 _ ok'])
      show "x \<in> set (lg_quotes w) \<Longrightarrow> x \<in> set (lg_quotes w) \<and> (\<forall>e \<in> set [e']. fst (ue_key e) = bq_id x \<longrightarrow>
        \<not> bq_remote x \<and> ue_stage e = Settled \<and> ue_cost e \<noteq> None) \<or> backed s x" for x
        using same_quote [OF inv q, of x] loc new by auto
    qed (use inv new in \<open>auto simp: s ledger_inv_def occupied_def contribution_def\<close>)
    then show ?thesis by (cases w) simp
  qed
qed

lemma granted_inv:
  assumes inv: "ledger_inv ps a b w" and run: "preflight_model_call c price declared True now (lg_billing w) = (s, Inr q)"
    and now: "a \<le> now" "now < b"
  shows "ledger_inv ps a b \<lparr>lg_billing = s, lg_quotes = q # lg_quotes w\<rparr>"
proof -
  let ?s = "lg_billing w" and ?es = "bl_events (lg_billing w)"
  let ?t = "?s\<lparr>bl_next := Suc (bl_next ?s)\<rparr>"
  from inv have ok: "events_ok ?s" and dist: "distinct (map bq_id (lg_quotes w))" and pol: "bl_policies ?s = ps"
    and old: "\<And>q. q \<in> set (lg_quotes w) \<Longrightarrow> bq_id q < bl_next ?s" by (auto simp: ledger_inv_def backed_def)
  have free: "e \<in> set ?es \<Longrightarrow> fst (ue_key e) < bl_next ?s \<and> ue_id e < bl_next ?s" for e
    using ok by (simp add: events_ok_def)
  show ?thesis
  proof (cases "ce_remote c")
    case False
    with run have s: "s = ?t" "q = local_quote c now (bl_next ?s)" by (simp_all add: preflight_model_call_def Let_def)
    have ok': "events_ok s" using ok by (auto simp: events_ok_def s(1) intro: less_SucI)
    have s1: "s = ?s\<lparr>bl_alerts := bl_alerts ?s, bl_events := ?es @ [], bl_next := Suc (bl_next ?s)\<rparr>" by (simp add: s(1))
    show ?thesis
    proof (rule added_inv [OF inv s1 _ ok'])
      have "backed s q" using free by (fastforce simp: backed_def s local_quote_def)
      then show "x \<in> set (q # lg_quotes w) \<Longrightarrow> x \<in> set (lg_quotes w) \<and> (\<forall>e \<in> set []. fst (ue_key e) = bq_id x \<longrightarrow>
        \<not> bq_remote x \<and> ue_stage e = Settled \<and> ue_cost e \<noteq> None) \<or> backed s x" for x by auto
      show "distinct (map bq_id (q # lg_quotes w))" using dist by (auto simp: s local_quote_def dest: old)
    qed (simp_all add: s(1))
  next
    case True
    with run obtain q0 where q0: "new_quote c price declared now (bl_next ?s) = Inr q0"
      and res: "reserve_quote q0 ?t = (s, Inr q)" by (auto simp: preflight_model_call_def Let_def split: sum.splits)
    note f = new_quote_fields [OF q0]
    from res obtain s1 where
      s: "s = s1\<lparr>bl_events := ?es @ [reservation_event q0 ?t], bl_next := Suc (Suc (bl_next ?s))\<rparr>"
      and q: "q = q0\<lparr>bq_reservation := Some (Suc (bl_next ?s))\<rparr>" and pol': "bl_policies s = ps"
      by (rule reserve_quoteD) (simp add: pol)
    have new: "ue_id (reservation_event q0 ?t) = Suc (bl_next ?s)" "ue_key (reservation_event q0 ?t) = (bl_next ?s, 1)"
      "held q (reservation_event q0 ?t)" using f by (simp_all add: reservation_event_def held_def q)
    have s': "s = ?s\<lparr>bl_alerts := bl_alerts s, bl_events := ?es @ [reservation_event q0 ?t], bl_next := Suc (Suc (bl_next ?s))\<rparr>"
      using s pol' pol by (cases s1) (cases ?s, simp)
    show ?thesis
    proof (rule added_inv [OF inv s'])
      have "(bl_next ?s, 1) \<notin> ue_key ` set ?es" by (metis free fst_conv imageE less_irrefl)
      moreover have "Suc (bl_next ?s) \<notin> ue_id ` set ?es" by (metis free imageE Suc_lessD less_irrefl)
      moreover have "0 \<le> or_zero (ue_reserved (reservation_event q0 ?t))" "0 \<le> or_zero (ue_cost (reservation_event q0 ?t))"
        using f by (simp_all add: reservation_event_def)
      ultimately show "events_ok s" using ok new free
        by (auto simp: events_ok_def s dest!: free intro: less_SucI)
      have "filter (\<lambda>x. fst (ue_key x) = bl_next ?s) ?es = []" using free by (fastforce simp: filter_empty_conv)
      then have "stands_on s q (reservation_event q0 ?t)" using new f by (simp add: stands_on_def s q)
      then have "backed s q" using f by (auto simp: backed_def s q)
      then show "x \<in> set (q # lg_quotes w) \<Longrightarrow> x \<in> set (lg_quotes w) \<and> (\<forall>e \<in> set [reservation_event q0 ?t].
        fst (ue_key e) = bq_id x \<longrightarrow> \<not> bq_remote x \<and> ue_stage e = Settled \<and> ue_cost e \<noteq> None) \<or> backed s x" for x
        using old new(2) by fastforce
      show "distinct (map bq_id (q # lg_quotes w))" using dist f by (auto simp: q dest: old)
    next
      fix p h
      assume p: "p \<in> set ps" "bp_enabled p" "bp_hard p = Some h" "\<forall>t. a \<le> t \<and> t < b \<longrightarrow> period_bounds (bp_period p) t = (a, b)"
        and le: "occupied p a b ?es \<le> h"
      show "occupied p a b (bl_events s) \<le> h"
        by (rule granted_occupied [OF res _ p(2,3)]) (use p now f le pol in simp_all)
    qed simp
  qed
qed

lemma ledger_step_inv: "ledger_step a b w w' \<Longrightarrow> ledger_inv ps a b w \<Longrightarrow> ledger_inv ps a b w'"
proof (induction rule: ledger_step.induct)
  case (refused c price declared now w s e)
  then have rows: "bl_events s = bl_events (lg_billing w) \<and> bl_policies s = bl_policies (lg_billing w) \<and> bl_next (lg_billing w) \<le> bl_next s"
    by (auto simp: preflight_model_call_def Let_def split: if_splits sum.splits dest!: reserve_refused_rows)
  then have s: "s = (lg_billing w)\<lparr>bl_alerts := bl_alerts s, bl_events := bl_events (lg_billing w) @ [], bl_next := bl_next s\<rparr>"
    by (cases s) (cases "lg_billing w", simp)
  have "ledger_inv ps a b \<lparr>lg_billing = s, lg_quotes = lg_quotes w\<rparr>"
    by (rule added_inv [OF refused.prems s])
      (use rows refused.prems in \<open>auto simp: ledger_inv_def events_ok_def intro: less_le_trans\<close>)
  then show ?case by (cases w) simp
next
  case (settled q w r now s e)
  then show ?case by (cases "bq_remote q") (blast intro: settled_remote_inv settled_local_inv)+
qed (blast intro: granted_inv released_inv expired_inv)+

text \<open>
  C40. A hard budget is never exceeded. Take a workspace whose usage rows are consistent (distinct identifiers
  and keys, no negative amounts, as in a workspace with no usage) and whose enabled policies are within their
  hard limits. Whatever calls follow one another within a budget period, in any order and number, quotes with their reservations, refusals,
  settlements of any attempt, releases and recoveries after a crash, what an enabled policy has spent
  and reserved in the period stays within its hard limit. Each settlement stays within its quote and settles in
  place: it opens no second row for its quote.
\<close>

theorem hard_limit_is_never_exceeded:
  assumes "ledger_reach a b s w" and "events_ok s"
    and "\<forall>p \<in> set (bl_policies s). \<forall>h. bp_enabled p \<longrightarrow> bp_hard p = Some h \<longrightarrow> occupied p a b (bl_events s) \<le> h"
    and "p \<in> set (bl_policies s)" and "bp_enabled p" and "bp_hard p = Some h"
    and "0 \<le> t" and "period_bounds (bp_period p) t = (a, b)"
    and "totals_for_policy p a b (bl_events (lg_billing w)) = Inr (spent, reserved, unknown)"
  shows "spent + reserved \<le> h"
proof -
  from assms(1) have "ledger_inv (bl_policies s) a b w"
  proof (induction rule: ledger_reach.induct)
    case start
    show ?case using assms(2,3) by (simp add: ledger_inv_def)
  qed (rule ledger_step_inv)
  moreover have "a \<le> t' \<and> t' < b \<longrightarrow> period_bounds (bp_period p) t' = (a, b)" for t'
    using period_bounds_partition [OF assms(7,8)] by blast
  ultimately have "occupied p a b (bl_events (lg_billing w)) \<le> h" using assms(4-6) by (auto simp: ledger_inv_def)
  with totals_occupied [OF assms(9)] show ?thesis by simp
qed

section \<open>What a quote covers\<close>

lemma unit_costs_shift:
  "unit_costs rates units acc = Inr (Some v) \<Longrightarrow> unit_costs rates units acc' = Inr (Some (v - acc + acc'))"
  by (induction rates units acc arbitrary: acc' rule: unit_costs.induct) (auto split: if_splits option.splits)

lemma fewer_tokens:
  fixes i c w out_rate fixed :: rat and n ca cr out a b :: int
  assumes "c \<le> i" and "w \<le> i" and "0 \<le> i" and "0 \<le> out_rate" and "0 \<le> ca" and "0 \<le> cr" and "n \<le> a" and "out \<le> b"
  shows "(of_int (n - ca - cr) * i + of_int ca * c + of_int cr * w + of_int out * out_rate) / 1000000 + fixed
    \<le> (of_int a * i + of_int b * out_rate) / 1000000 + fixed"
proof -
  have "of_int ca * c \<le> of_int ca * i" "of_int cr * w \<le> of_int cr * i" using assms by (auto intro: mult_left_mono)
  moreover have "of_int n * i \<le> of_int a * i" "of_int out * out_rate \<le> of_int b * out_rate" using assms by (auto intro: mult_right_mono)
  moreover have "of_int (n - ca - cr) * i = of_int n * i - of_int ca * i - of_int cr * i" by (simp add: left_diff_distrib)
  ultimately show ?thesis by simp
qed

lemma quote_cost_projected [simp]: "quote_cost (q\<lparr>bq_projected := p\<rparr>) = quote_cost q"
  by (intro ext) (simp add: quote_cost_def cong: option.case_cong if_cong)

lemma new_quote_projection:
  "new_quote c (Some t) declared now i = Inr q \<Longrightarrow>
   quote_cost (q\<lparr>bq_projected := None\<rparr>) (max 0 (ce_input c)) (max 0 (ce_output c)) 0 0 (ce_units c) = Inr (bq_projected q)"
  by (auto simp: new_quote_def Let_def bind_r_Inr simp del: quote_cost_projected)

text \<open>
  A quote covers the call. When a tariff charges no more for cached and cache-writing tokens than for
  plain input, and the call uses no more tokens than estimated and the units estimated, the amount its
  settlement computes does not exceed the amount the quote projected.
\<close>

lemma quote_covers_usage:
  assumes "new_quote c (Some t) declared now i = Inr q" and "bq_projected q = Some x"
    and "0 \<le> ta_input t" and "0 \<le> ta_output t" and "0 \<le> ta_multiplier t"
    and "or_input t (ta_cached t) \<le> ta_input t" and "or_input t (ta_write t) \<le> ta_input t"
    and "ur_cost r = None" and "ur_units r = ce_units c" and "ur_input r \<le> ce_input c" and "ur_output r \<le> ce_output c"
    and "settle_amount q r = Inr (cur, Some y, st, src)"
  shows "y \<le> x \<and> cur = bq_currency q"
proof -
  let ?inp = "max 0 (ur_input r)" and ?out = "max 0 (ur_output r)"
  let ?ca = "min ?inp (max 0 (ur_cached r))"
  let ?cr = "min (?inp - ?ca) (max 0 (ur_created r))"
  let ?a = "max 0 (ce_input c)" and ?b = "max 0 (ce_output c)"
  from assms(1,2) have q: "bq_input q = ta_input t" "bq_output q = ta_output t" "bq_cached q = or_input t (ta_cached t)"
    "bq_write q = or_input t (ta_write t)" "bq_multiplier q = ta_multiplier t" "bq_remote q"
    by (auto simp: new_quote_def Let_def bind_r_Inr)
  from new_quote_projection [OF assms(1)] assms(2) have proj: "quote_cost q ?a ?b 0 0 (ce_units c) = Inr (Some x)" by simp
  from assms(8,9,12) q(6) have act: "quote_cost q ?inp ?out ?ca ?cr (ce_units c) = Inr (Some y)" and cur: "cur = bq_currency q"
    by (auto simp: settle_amount_def Let_def bind_r_Inr split: if_splits)
  show ?thesis
  proof (cases "ta_multiplier t = 0")
    case True
    with proj act cur q show ?thesis by (simp add: quote_cost_def)
  next
    case False
    let ?A = "(of_int ?a * bq_input q + of_int ?b * bq_output q) / 1000000 + bq_fixed q"
    let ?B = "(of_int (?inp - ?ca - ?cr) * bq_input q + of_int ?ca * bq_cached q + of_int ?cr * bq_write q + of_int ?out * bq_output q)
      / 1000000 + bq_fixed q"
    from proj False q obtain v where v: "unit_costs (bq_units q) (ce_units c) ?A = Inr (Some v)" "x = v * ta_multiplier t"
      by (auto simp: quote_cost_def bind_r_Inr split: if_splits option.splits)
    from act False q obtain u where u: "unit_costs (bq_units q) (ce_units c) ?B = Inr (Some u)" "y = u * ta_multiplier t"
      by (auto simp: quote_cost_def bind_r_Inr split: if_splits option.splits)
    have ca: "0 \<le> ?ca" "?ca \<le> ?inp" by (intro min.boundedI max.cobounded1) (rule min.cobounded1)
    have cr: "0 \<le> ?cr" using ca(2) by (intro min.boundedI max.cobounded1) (simp only: diff_ge_0_iff_ge)
    have more: "?inp \<le> ?a" "?out \<le> ?b" by (rule max.mono [OF order_refl assms(10)]) (rule max.mono [OF order_refl assms(11)])
    have "?B \<le> ?A" unfolding q by (rule fewer_tokens [OF assms(6,7,3,4) ca(1) cr more])
    moreover from unit_costs_shift [OF u(1), of ?A] v(1) have "v = u - ?B + ?A" by (metis Inr_inject option.inject)
    ultimately have "u \<le> v" by (metis add_le_cancel_left diff_add_cancel)
    then have "u * ta_multiplier t \<le> v * ta_multiplier t" using assms(5) by (rule mult_right_mono)
    with v(2) u(2) cur show ?thesis by (simp only: simp_thms)
  qed
qed

section \<open>Settling once\<close>

lemma written_row:
  assumes "distinct (map ue_id es)" and "e \<in> set es" and "ue_key (f e) = k" and "\<And>x. x \<in> set es \<Longrightarrow> ue_key x = k \<Longrightarrow> x = e"
  shows "row_get ue_key k (row_mod ue_id (ue_id e) f es) = Some (f e)"
  using assms
proof (induction es)
  case (Cons x es)
  show ?case
  proof (cases "x = e")
    case True
    with Cons.prems(3) show ?thesis by simp
  next
    case False
    with Cons.prems have "e \<in> set es" "ue_id x \<noteq> ue_id e" "ue_key x \<noteq> k" by force+
    with Cons show ?thesis by simp
  qed
qed simp

text \<open>What a settlement leaves: the row of its key is the row it returns, and that row is settled.\<close>

lemma record_usage_row:
  assumes run: "record_usage q r now s = Inr (s', e)" and ok: "events_ok s"
  shows "row_get ue_key (bq_id q, max 1 (ur_attempt r)) (bl_events s') = Some e \<and> ue_stage e = Settled"
proof -
  let ?k = "(bq_id q, max 1 (ur_attempt r))" and ?es = "bl_events s"
  let ?f = "\<lambda>x e. (settled_event q r x e)\<lparr>ue_key := ?k\<rparr>"
  let ?n = "attempt_event q ?k now (bl_next s)"
  from ok have ids: "distinct (map ue_id ?es)" and below: "\<And>x. x \<in> set ?es \<Longrightarrow> ue_id x < bl_next s"
    by (simp_all add: events_ok_def)
  have f: "ue_key (?f x e) = ?k" "ue_stage (?f x e) = Settled" for x e
    by (simp_all add: settled_event_def Let_def split: prod.split)
  consider (same) "row_get ue_key ?k ?es = Some e" "s' = s" "ue_stage e = Settled"
    | (old) e0 x where "e0 \<in> set ?es" "\<And>y. y \<in> set ?es \<Longrightarrow> ue_key y = ?k \<Longrightarrow> y = e0"
        "bl_events s' = row_mod ue_id (ue_id e0) (?f x) ?es" "e = ?f x e0"
    | (fresh) x where "\<And>y. y \<in> set ?es \<Longrightarrow> ue_key y \<noteq> ?k"
        "bl_events s' = row_mod ue_id (ue_id ?n) (?f x) (?es @ [?n])" "e = ?f x ?n"
  proof (cases "row_get ue_key ?k ?es")
    case (Some e0)
    have "y = e0" if "y \<in> set ?es" "ue_key y = ?k" for y
      using row_get_distinct [OF _ that(1), of ue_key] ok Some that(2) by (simp add: events_ok_def)
    note one = this
    show thesis
    proof (cases "ue_stage e0 = Settled \<and> (ue_cost e0 \<noteq> None \<or> \<not> report_available q r)")
      case True
      with run Some show thesis by (intro same) (simp_all add: record_usage_def Let_def)
    next
      case False
      with run Some obtain x where "bl_events s' = row_mod ue_id (ue_id e0) (?f x) ?es" "e = ?f x e0"
        by (auto simp: record_usage_def Let_def bind_r_Inr simp del: One_nat_def)
      with row_get_SomeD [OF Some] one show thesis by (intro old [of e0 x]) simp_all
    qed
  next
    case None
    then have none: "ue_key y \<noteq> ?k" if "y \<in> set ?es" for y
      using imageI [OF that, of ue_key] None by (auto simp: row_get_None_iff)
    show thesis
    proof (cases "\<exists>i e0. bq_reservation q = Some i \<and> row_get ue_id i ?es = Some e0 \<and> ue_stage e0 = Reserved")
      case True
      then obtain i e0 where e0: "bq_reservation q = Some i" "row_get ue_id i ?es = Some e0" "ue_stage e0 = Reserved" by blast
      with run None obtain x where "bl_events s' = row_mod ue_id (ue_id e0) (?f x) ?es" "e = ?f x e0"
        by (auto simp: record_usage_def Let_def bind_r_Inr)
      with row_get_SomeD [OF e0(2)] none show thesis by (intro old [of e0 x]) auto
    next
      case False
      with run None obtain x where "bl_events s' = row_mod ue_id (ue_id ?n) (?f x) (?es @ [?n])" "e = ?f x ?n"
        by (auto simp: record_usage_def Let_def bind_r_Inr split: option.splits if_splits)
      with none show thesis by (intro fresh [of x]) simp_all
    qed
  qed
  then show ?thesis
  proof cases
    case (old e0 x)
    with written_row [OF ids old(1) f(1) old(2)] f(2) show ?thesis by simp
  next
    case (fresh x)
    have "row_get ue_key ?k (bl_events s') = Some (?f x ?n)"
      unfolding fresh(2)
      by (rule written_row) (use ids fresh(1) f(1) in \<open>auto simp: attempt_event_def dest: below\<close>)
    with fresh(3) f(2) show ?thesis by simp
  qed simp
qed

text \<open>
  Settling is done once. After an attempt was recorded with a known amount, recording the same attempt
  again, whatever it reports and whenever, changes nothing and returns the row written first.
\<close>

lemma settlement_is_idempotent:
  assumes "record_usage q r now s = Inr (s', e)" and "ue_cost e \<noteq> None" and "max 1 (ur_attempt r') = max 1 (ur_attempt r)"
    and "events_ok s"
  shows "record_usage q r' now' s' = Inr (s', e)"
  using record_usage_row [OF assms(1,4)] assms(2,3) by (simp add: record_usage_def Let_def)

section \<open>Examples\<close>

definition sample_policy :: budget_policy where
  "sample_policy = \<lparr>bp_id = 0, bp_name = ''cap'', bp_provider = ''*'', bp_model = ''*'', bp_feature = ''*'',
     bp_period = Calendar_day, bp_currency = ''USD'', bp_soft = None, bp_hard = Some 10, bp_enabled = True\<rparr>"

definition sample_billing :: billing where
  "sample_billing = \<lparr>bl_policies = [sample_policy], bl_alerts = [], bl_events = [], bl_next = 1\<rparr>"

definition sample_tariff :: tariff where
  "sample_tariff = \<lparr>ta_id = 7, ta_source = ''workspace_manual'', ta_currency = ''USD'', ta_input = 2, ta_cached = Some 1,
     ta_write = None, ta_output = 4, ta_fixed = 0, ta_units = [], ta_multiplier = 1\<rparr>"

definition sample_call :: call_estimate where
  "sample_call = \<lparr>ce_provider = ''p'', ce_model = ''m'', ce_feature = ''chat'', ce_input = 1000000, ce_output = 1000000,
     ce_units = [], ce_remote = True\<rparr>"

definition sample_report :: usage_report where
  "sample_report = no_report\<lparr>ur_input := 500000, ur_output := 250000, ur_reported := True\<rparr>"

text \<open>The quote of the sample call, before and after its reservation, and the ledger after each.\<close>

definition sample_quote :: quote where
  "sample_quote = (case new_quote sample_call (Some sample_tariff) None 90000 1 of Inr q \<Rightarrow> q | Inl _ \<Rightarrow> local_quote sample_call 0 0)"

definition granted_run :: "billing \<times> quote result" where
  "granted_run = preflight_model_call sample_call (Some sample_tariff) None True 90000 sample_billing"

lemma granted_run_result: "\<exists>s q. granted_run = (s, Inr q) \<and> row_get ue_key (1, 1) (bl_events s) \<noteq> None"
proof -
  have "case granted_run of (s, Inr q) \<Rightarrow> row_get ue_key (1, 1) (bl_events s) \<noteq> None | (s, Inl e) \<Rightarrow> False" by code_simp
  then show ?thesis by (auto split: prod.splits sum.splits)
qed

text \<open>A tariff that charges cache writes above plain input can charge more than its quote reserved.\<close>

lemma cache_writes_exceed_the_quote:
  "case new_quote sample_call (Some (sample_tariff\<lparr>ta_write := Some 3\<rparr>)) None 90000 1 of
     Inl e \<Rightarrow> False
   | Inr q \<Rightarrow> (case settle_amount q (sample_report\<lparr>ur_input := 1000000, ur_output := 1000000, ur_created := 1000000\<rparr>) of
       Inl e \<Rightarrow> False | Inr (cur, x, st, src) \<Rightarrow> or_zero (bq_projected q) < or_zero x)"
  by code_simp

text \<open>
  A reservation that expired keeps its amount as unknown; when a later attempt of the same call then
  reports its charge, that is a second row, and the budget carries both.
\<close>

lemma late_attempt_is_counted_twice:
  "case granted_run of (s, Inl e) \<Rightarrow> False | (s, Inr q) \<Rightarrow>
     (case record_usage q (sample_report\<lparr>ur_attempt := 2\<rparr>) 180000 (fst (reconcile_expired 180000 s)) of
       Inl e \<Rightarrow> False
     | Inr (s', e) \<Rightarrow> occupied sample_policy 86400 172800 (bl_events s) = 6 \<and>
         occupied sample_policy 86400 172800 (bl_events s') = 6 \<and> occupied sample_policy 172800 259200 (bl_events s') = 2)"
  by code_simp

text \<open>
  The condition that a settlement opens no second row is needed: two attempts of one quote, each charged the
  quoted amount, pass the limit of 10.
\<close>

lemma second_attempt_passes_the_limit:
  "case granted_run of (s, Inl e) \<Rightarrow> False | (s, Inr q) \<Rightarrow>
     (case record_usage q (sample_report\<lparr>ur_input := 1000000, ur_output := 1000000\<rparr>) 90010 s of
       Inl e \<Rightarrow> False
     | Inr (s1, e1) \<Rightarrow>
         (case record_usage q (sample_report\<lparr>ur_input := 1000000, ur_output := 1000000, ur_attempt := 2\<rparr>) 90020 s1 of
           Inl e \<Rightarrow> False
         | Inr (s2, e2) \<Rightarrow> within_quote q e1 \<and> within_quote q e2 \<and>
             \<not> settles_in_place q (sample_report\<lparr>ur_input := 1000000, ur_output := 1000000, ur_attempt := 2\<rparr>) s1 \<and>
             occupied sample_policy 86400 172800 (bl_events s1) = 6 \<and> occupied sample_policy 86400 172800 (bl_events s2) = 12))"
  by code_simp

theorem hard_limit_is_never_exceeded_witness:
  "\<exists>w sp re un. ledger_reach 86400 172800 sample_billing w \<and> lg_quotes w \<noteq> [] \<and>
     totals_for_policy sample_policy 86400 172800 (bl_events (lg_billing w)) = Inr (sp, re, un) \<and> sp + re \<le> 10"
proof -
  obtain s q where g: "granted_run = (s, Inr q)" using granted_run_result by blast
  have run: "case granted_run of (s, Inl e) \<Rightarrow> False | (s, Inr q) \<Rightarrow> (case record_usage q sample_report 90010 s of Inl e \<Rightarrow> False
      | Inr (s', e) \<Rightarrow> within_quote q e \<and> (case totals_for_policy sample_policy 86400 172800 (bl_events s') of
          Inl e \<Rightarrow> False | Inr x \<Rightarrow> True))" by code_simp
  have "case record_usage q sample_report 90010 s of Inl e \<Rightarrow> False
      | Inr (s', e) \<Rightarrow> within_quote q e \<and> (case totals_for_policy sample_policy 86400 172800 (bl_events s') of
          Inl e \<Rightarrow> False | Inr x \<Rightarrow> True)" using run unfolding g prod.case sum.case .
  then obtain s' e where r: "record_usage q sample_report 90010 s = Inr (s', e)" and wq: "within_quote q e"
    and "case totals_for_policy sample_policy 86400 172800 (bl_events s') of Inl e \<Rightarrow> False | Inr x \<Rightarrow> True"
    by (cases "record_usage q sample_report 90010 s") auto
  then obtain sp re un where t: "totals_for_policy sample_policy 86400 172800 (bl_events s') = Inr (sp, re, un)"
    by (cases "totals_for_policy sample_policy 86400 172800 (bl_events s')") auto
  let ?w1 = "\<lparr>lg_billing = s, lg_quotes = [q]\<rparr>" and ?w2 = "\<lparr>lg_billing = s', lg_quotes = [q]\<rparr>"
  from ledger_step.granted [of sample_call "Some sample_tariff" None 90000 "\<lparr>lg_billing = sample_billing, lg_quotes = []\<rparr>" s q 86400 172800]
  have "ledger_step 86400 172800 \<lparr>lg_billing = sample_billing, lg_quotes = []\<rparr> ?w1" using g by (simp add: granted_run_def)
  from ledger_reach.step [OF ledger_reach.start this] have one: "ledger_reach 86400 172800 sample_billing ?w1" .
  have "case granted_run of (s, Inl e) \<Rightarrow> False | (s, Inr q) \<Rightarrow> settles_in_place q sample_report s" by code_simp
  then have "settles_in_place q sample_report s" unfolding g prod.case sum.case .
  with ledger_step.settled [of q ?w1 sample_report 90010 s' e 86400 172800] r wq
  have "ledger_step 86400 172800 ?w1 ?w2" by simp
  from ledger_reach.step [OF one this] have two: "ledger_reach 86400 172800 sample_billing ?w2" .
  have p: "events_ok sample_billing"
    "\<forall>p \<in> set (bl_policies sample_billing). \<forall>h. bp_enabled p \<longrightarrow> bp_hard p = Some h \<longrightarrow> occupied p 86400 172800 (bl_events sample_billing) \<le> h"
    "sample_policy \<in> set (bl_policies sample_billing)" "bp_enabled sample_policy" "bp_hard sample_policy = Some 10"
    "(0 :: int) \<le> 90000" by (simp_all add: sample_billing_def sample_policy_def events_ok_def occupied_def)
  have b: "period_bounds (bp_period sample_policy) 90000 = (86400, 172800)" by code_simp
  from hard_limit_is_never_exceeded [OF two p b, of sp re un] two t show ?thesis by (intro exI [of _ ?w2]) simp
qed

end
