(* ===== verification/Identity.thy ===== *)
theory Identity
  imports Pystr
begin

text \<open>
  Accounts and login sessions: \<open>backend/app/services/auth.py\<close> (\<open>AuthService\<close>), the two account operations of
  \<open>IdentityManagementService\<close> in \<open>services/authorization.py\<close>, and \<open>current_principal\<close> of \<open>api/deps.py\<close>, on the
  tables the authorization service reads too. The identifiers, tokens and salts the code draws at random
  are arguments; password hashing and the digest of a token are the parameter \<open>hasher\<close>. Security events,
  names for display and avatars are left out: no decision reads them.
\<close>

section \<open>Tables\<close>

datatype user_status = User_active | User_disabled | User_deleted

record user =
  us_id :: string
  us_tenant :: string
  us_username :: string
  us_username_norm :: string
  us_email :: "string option"
  us_email_norm :: "string option"
  us_hash :: string
  us_status :: user_status
  us_admin :: bool
  us_must_change :: bool
  us_failed :: int
  us_locked :: "instant option"

record auth_session =
  as_id :: string
  as_tenant :: string
  as_user :: string
  as_hash :: string
  as_created :: instant
  as_expires :: instant
  as_seen :: instant
  as_revoked :: "instant option"
  as_reason :: string
  as_agent :: string
  as_ip :: string
  as_device :: string

record workspace =
  ws_id :: string
  ws_tenant :: string
  ws_owner :: string
  ws_org :: "string option"
  ws_kind :: string

record organization =
  og_id :: string
  og_tenant :: string
  og_name :: string
  og_owner :: string
  og_active :: bool

text \<open>A role with the keys its \<open>RolePermission\<close> rows join to.\<close>

record role =
  ro_id :: string
  ro_tenant :: string
  ro_org :: string
  ro_name :: string
  ro_system :: bool
  ro_keys :: "string list"

record membership =
  mb_id :: string
  mb_tenant :: string
  mb_org :: string
  mb_user :: string
  mb_role :: string
  mb_active :: bool

record resource_acl =
  ra_id :: string
  ra_workspace :: string
  ra_tenant :: string
  ra_type :: string
  ra_resource :: string
  ra_gtype :: string
  ra_grantee :: string
  ra_perms :: "string list"
  ra_revoked :: "instant option"

text \<open>
  A row of one of the tables of \<open>RESOURCE_MODELS\<close>, told apart by the name of its type, with the goal of a
  graph; nodes, roadmaps and actions with the parents they refer to.
\<close>

record resource =
  rs_type :: string
  rs_id :: string
  rs_workspace :: string
  rs_goal :: string

record graph_node_row =
  gr_id :: string
  gr_workspace :: string
  gr_graph :: string

record roadmap_row =
  rm_id :: string
  rm_workspace :: string
  rm_goal :: string
  rm_graph :: "string option"

record action_row =
  ai_id :: string
  ai_workspace :: string
  ai_project :: "string option"
  ai_goal :: "string option"
  ai_graph :: "string option"
  ai_node :: "string option"
  ai_roadmap :: "string option"

record directory =
  di_users :: "user list"
  di_sessions :: "auth_session list"
  di_workspaces :: "workspace list"
  di_orgs :: "organization list"
  di_roles :: "role list"
  di_members :: "membership list"
  di_acls :: "resource_acl list"
  di_resources :: "resource list"
  di_nodes :: "graph_node_row list"
  di_roadmaps :: "roadmap_row list"
  di_actions :: "action_row list"
  di_paused :: "string list"

definition integrity_error :: app_error where
  "integrity_error = Python_error ''IntegrityError''"

text \<open>The unique constraints a new user meets: its id, and user name and e-mail within the tenant.\<close>

definition user_fits :: "user \<Rightarrow> user list \<Rightarrow> bool" where
  "user_fits u us \<longleftrightarrow> (\<forall>v \<in> set us. us_id v \<noteq> us_id u \<and> (us_tenant v = us_tenant u \<longrightarrow>
     us_username_norm v \<noteq> us_username_norm u \<and> (us_email_norm u \<noteq> None \<longrightarrow> us_email_norm v \<noteq> us_email_norm u)))"

section \<open>Passwords\<close>

text \<open>Argon2 with a salt, its check, and the digest stored for a session token.\<close>

record hasher =
  hs_password :: "string \<Rightarrow> string \<Rightarrow> string"
  hs_verify :: "string \<Rightarrow> string \<Rightarrow> bool"
  hs_token :: "string \<Rightarrow> string"

definition normalize_identity :: "string \<Rightarrow> string" where
  "normalize_identity s = casefold (strip s)"

definition is_letter :: "char \<Rightarrow> bool" where
  "is_letter c \<longleftrightarrow> is_upper c \<or> is_lower c"

definition validate_new_password :: "string \<Rightarrow> unit result" where
  "validate_new_password p = require (8 \<le> length p) (App_error 422 ''weak_password'')
     (require (list_ex is_letter p \<and> list_ex is_digit p) (App_error 422 ''weak_password'') (Inr ()))"

section \<open>Login\<close>

record auth_settings =
  se_demo :: bool
  se_demo_username :: string
  se_demo_password :: string
  se_max_failed :: int
  se_lockout_minutes :: int
  se_session_hours :: int

record login_request =
  lr_username :: string
  lr_password :: string
  lr_tenant :: "string option"

record client =
  cl_agent :: string
  cl_ip :: string
  cl_device :: string

record login_response =
  lp_token :: string
  lp_expires :: instant
  lp_session :: string
  lp_user :: string
  lp_workspace :: "string option"
  lp_must_change :: bool

text \<open>The accounts an identifier names; only a single one is used.\<close>

definition identity_matches :: "login_request \<Rightarrow> user list \<Rightarrow> user list" where
  "identity_matches r us = (let i = normalize_identity (lr_username r) in
     filter (\<lambda>u. (us_username_norm u = i \<or> us_email_norm u = Some i) \<and>
       (\<forall>t \<in> set_option (lr_tenant r). us_tenant u = t)) us)"

definition login_user :: "login_request \<Rightarrow> user list \<Rightarrow> user option" where
  "login_user r us = (case identity_matches r us of [u] \<Rightarrow> Some u | _ \<Rightarrow> None)"

definition locked :: "instant \<Rightarrow> user \<Rightarrow> bool" where
  "locked now u \<longleftrightarrow> (\<exists>t \<in> set_option (us_locked u). now < t)"

definition count_failure :: "auth_settings \<Rightarrow> instant \<Rightarrow> user \<Rightarrow> user" where
  "count_failure g now u = (let n = us_failed u + 1 in
     if se_max_failed g \<le> n then u\<lparr>us_locked := Some (now + 60 * se_lockout_minutes g), us_failed := 0\<rparr>
     else u\<lparr>us_failed := n\<rparr>)"

definition set_user :: "string \<Rightarrow> (user \<Rightarrow> user) \<Rightarrow> directory \<Rightarrow> directory" where
  "set_user i f d = d\<lparr>di_users := row_mod us_id i f (di_users d)\<rparr>"

definition new_auth_session :: "hasher \<Rightarrow> auth_settings \<Rightarrow> user \<Rightarrow> client \<Rightarrow> instant \<Rightarrow> string \<Rightarrow> string \<Rightarrow> auth_session" where
  "new_auth_session h g u c now sid token = \<lparr>as_id = sid, as_tenant = us_tenant u, as_user = us_id u, as_hash = hs_token h token,
     as_created = now, as_expires = now + 3600 * se_session_hours g, as_seen = now, as_revoked = None, as_reason = [],
     as_agent = take 500 (cl_agent c), as_ip = take 64 (cl_ip c), as_device = take 128 (cl_device c)\<rparr>"

text \<open>
  The state is returned with an error too: a failure is counted and committed before it is raised. \<open>sid\<close>
  and \<open>token\<close> are drawn at random; a clash with a stored one breaks a constraint and nothing is written.
\<close>

definition login_as :: "hasher \<Rightarrow> auth_settings \<Rightarrow> login_request \<Rightarrow> client \<Rightarrow> instant \<Rightarrow> string \<Rightarrow> string \<Rightarrow> string \<Rightarrow>
    directory \<Rightarrow> directory \<times> login_response result" where
  "login_as h g r c now sid token dummy d =
     (let user = login_user r (di_users d);
          valid = hs_verify h (lr_password r) (case user of Some u \<Rightarrow> us_hash u | None \<Rightarrow> dummy);
          denied = Inl (App_error 401 ''invalid_credentials'')
      in case user of
          None \<Rightarrow> (d, denied)
        | Some u \<Rightarrow>
            if locked now u then (d, Inl (App_error 429 ''account_temporarily_locked''))
            else if \<not> valid \<or> us_status u \<noteq> User_active \<or> us_id u = ''demo-user'' \<and> \<not> se_demo g
            then (set_user (us_id u) (count_failure g now) d, denied)
            else
              (let d1 = (if us_failed u \<noteq> 0 \<or> us_locked u \<noteq> None
                     then set_user (us_id u) (\<lambda>u. u\<lparr>us_failed := 0, us_locked := None\<rparr>) d else d);
                   s = new_auth_session h g u c now sid token;
                   home = find (\<lambda>w. ws_tenant w = us_tenant u \<and> ws_owner w = us_id u) (di_workspaces d)
               in if sid \<in> as_id ` set (di_sessions d) \<or> as_hash s \<in> as_hash ` set (di_sessions d) then (d, Inl integrity_error)
                  else (d1\<lparr>di_sessions := di_sessions d1 @ [s]\<rparr>,
                    Inr \<lparr>lp_token = token, lp_expires = as_expires s, lp_session = sid, lp_user = us_id u,
                      lp_workspace = map_option ws_id home, lp_must_change = us_must_change u\<rparr>)))"

definition login :: "hasher \<Rightarrow> auth_settings \<Rightarrow> login_request \<Rightarrow> client \<Rightarrow> bool \<Rightarrow> instant \<Rightarrow> string \<Rightarrow> string \<Rightarrow> string \<Rightarrow>
    directory \<Rightarrow> directory \<times> login_response result" where
  "login h g r c demo_only now sid token dummy d =
     (if demo_only \<and> \<not> se_demo g then (d, Inl (App_error 404 ''demo_auth_disabled''))
      else if demo_only \<and> normalize_identity (lr_username r) \<noteq> normalize_identity (se_demo_username g)
      then (d, Inl (App_error 401 ''invalid_credentials''))
      else login_as h g r c now sid token dummy d)"

definition demo_login :: "hasher \<Rightarrow> auth_settings \<Rightarrow> client \<Rightarrow> instant \<Rightarrow> string \<Rightarrow> string \<Rightarrow> string \<Rightarrow>
    directory \<Rightarrow> directory \<times> login_response result" where
  "demo_login h g c now sid token dummy d =
     login h g \<lparr>lr_username = se_demo_username g, lr_password = se_demo_password g, lr_tenant = None\<rparr> c True now sid token dummy d"

section \<open>New accounts\<close>

record register_request =
  rr_username :: string
  rr_email :: "string option"
  rr_password :: string

text \<open>What the schema lets through: the pattern of a user name and its length.\<close>

definition username_char :: "char \<Rightarrow> bool" where
  "username_char c \<longleftrightarrow> is_alnum c \<or> c \<in> set ''_.@-''"

definition register_ok :: "register_request \<Rightarrow> bool" where
  "register_ok r \<longleftrightarrow> 3 \<le> length (rr_username r) \<and> length (rr_username r) \<le> 120 \<and> list_all username_char (rr_username r) \<and>
     8 \<le> length (rr_password r) \<and> length (rr_password r) \<le> 1024 \<and> (\<forall>e \<in> set_option (rr_email r). length e \<le> 320)"

text \<open>\<open>email.strip() if email else None\<close>, normalised only when something is left.\<close>

definition given_text :: "string option \<Rightarrow> string option" where
  "given_text x = (case x of None \<Rightarrow> None | Some s \<Rightarrow> if s = [] then None else Some s)"

definition new_user :: "hasher \<Rightarrow> register_request \<Rightarrow> string \<Rightarrow> string \<Rightarrow> string \<Rightarrow> bool \<Rightarrow> user" where
  "new_user h r uid tenant salt admin =
     (let email = map_option strip (given_text (rr_email r)) in
      \<lparr>us_id = uid, us_tenant = tenant, us_username = strip (rr_username r), us_username_norm = normalize_identity (rr_username r),
       us_email = email, us_email_norm = map_option normalize_identity (given_text email), us_hash = hs_password h salt (rr_password r),
       us_status = User_active, us_admin = admin, us_must_change = False, us_failed = 0, us_locked = None\<rparr>)"

definition personal_workspace :: "string \<Rightarrow> string \<Rightarrow> string \<Rightarrow> workspace" where
  "personal_workspace wid tenant uid = \<lparr>ws_id = wid, ws_tenant = tenant, ws_owner = uid, ws_org = None, ws_kind = ''personal''\<rparr>"

definition add_user :: "user \<Rightarrow> string \<Rightarrow> directory \<Rightarrow> directory result" where
  "add_user u wid d = require (user_fits u (di_users d) \<and> wid \<notin> ws_id ` set (di_workspaces d)) integrity_error
     (Inr (d\<lparr>di_users := di_users d @ [u], di_workspaces := di_workspaces d @ [personal_workspace wid (us_tenant u) (us_id u)]\<rparr>))"

text \<open>The duplicate check of \<open>register\<close> spans all tenants; the login that follows is a second transaction.\<close>

definition register :: "hasher \<Rightarrow> auth_settings \<Rightarrow> register_request \<Rightarrow> client \<Rightarrow> instant \<Rightarrow> string \<Rightarrow> string \<Rightarrow> string \<Rightarrow> string \<Rightarrow>
    string \<Rightarrow> string \<Rightarrow> string \<Rightarrow> directory \<Rightarrow> directory \<times> login_response result" where
  "register h g r c now tenant uid wid salt sid token dummy d =
     (let u = new_user h r uid tenant salt False;
          duplicate = (\<lambda>v. us_username_norm v = us_username_norm u \<or> us_email_norm u \<noteq> None \<and> us_email_norm v = us_email_norm u)
      in case require (register_ok r) (Python_error ''ValidationError'')
          (require (\<not> list_ex duplicate (di_users d)) (App_error 409 ''identity_conflict'')
            (bind_r (validate_new_password (rr_password r)) (\<lambda>_. add_user u wid d))) of
          Inl e \<Rightarrow> (d, Inl e)
        | Inr d1 \<Rightarrow> login h g \<lparr>lr_username = us_username u, lr_password = rr_password r, lr_tenant = None\<rparr> c False now sid token dummy d1)"

section \<open>Sessions of a principal\<close>

record principal =
  pr_user :: string
  pr_tenant :: string
  pr_session :: string
  pr_admin :: bool
  pr_must_change :: bool

text \<open>\<open>current_principal\<close>; \<open>busy\<close> tells whether the database refuses the write of the last visit.\<close>

definition current_principal :: "hasher \<Rightarrow> string option \<Rightarrow> bool \<Rightarrow> instant \<Rightarrow> directory \<Rightarrow> directory \<times> principal result" where
  "current_principal h token busy now d =
     (case token of
       None \<Rightarrow> (d, Inl (App_error 401 ''unauthorized''))
     | Some t \<Rightarrow> (case row_get as_hash (hs_token h t) (di_sessions d) of
         None \<Rightarrow> (d, Inl (App_error 401 ''session_invalid''))
       | Some s \<Rightarrow>
           if as_revoked s \<noteq> None \<or> as_expires s \<le> now then (d, Inl (App_error 401 ''session_invalid''))
           else (case find (\<lambda>u. us_id u = as_user s \<and> us_tenant u = as_tenant s) (di_users d) of
               None \<Rightarrow> (d, Inl (App_error 401 ''identity_inactive''))
             | Some u \<Rightarrow>
                 if us_status u \<noteq> User_active then (d, Inl (App_error 401 ''identity_inactive''))
                 else (if as_seen s + 300 < now \<and> \<not> busy
                       then d\<lparr>di_sessions := row_mod as_id (as_id s) (\<lambda>s. s\<lparr>as_seen := now\<rparr>) (di_sessions d)\<rparr> else d,
                   Inr \<lparr>pr_user = us_id u, pr_tenant = us_tenant u, pr_session = as_id s, pr_admin = us_admin u,
                     pr_must_change = us_must_change u\<rparr>))))"

text \<open>Revoking the sessions that satisfy a condition and are not revoked yet.\<close>

definition revoke_where :: "(auth_session \<Rightarrow> bool) \<Rightarrow> string \<Rightarrow> instant \<Rightarrow> directory \<Rightarrow> directory" where
  "revoke_where p reason now d = d\<lparr>di_sessions :=
     map (\<lambda>s. if p s \<and> as_revoked s = None then s\<lparr>as_revoked := Some now, as_reason := reason\<rparr> else s) (di_sessions d)\<rparr>"

definition owned_session :: "principal \<Rightarrow> auth_session \<Rightarrow> bool" where
  "owned_session p s \<longleftrightarrow> as_tenant s = pr_tenant p \<and> as_user s = pr_user p"

definition logout :: "principal \<Rightarrow> instant \<Rightarrow> directory \<Rightarrow> directory" where
  "logout p now d = (case row_get as_id (pr_session p) (di_sessions d) of
      None \<Rightarrow> d
    | Some s \<Rightarrow> if as_revoked s = None then revoke_where (\<lambda>x. as_id x = as_id s) ''logout'' now d else d)"

text \<open>The signature the security page groups by, and the grouping of a revocation.\<close>

definition device_signature :: "auth_session \<Rightarrow> string \<times> string \<times> string" where
  "device_signature s = (if as_device s \<noteq> [] then (''device'', as_device s, []) else (''legacy'', as_agent s, as_ip s))"

definition same_device :: "auth_session \<Rightarrow> auth_session \<Rightarrow> bool" where
  "same_device s x \<longleftrightarrow> as_device s \<noteq> [] \<and> as_device x = as_device s \<or>
     as_device s = [] \<and> as_device x = [] \<and> as_agent x = as_agent s \<and> as_ip x = as_ip s"

definition live_sessions :: "principal \<Rightarrow> directory \<Rightarrow> auth_session list" where
  "live_sessions p d = filter (\<lambda>s. owned_session p s \<and> as_revoked s = None) (di_sessions d)"

text \<open>Newest first; one representative per signature, the current session preferred.\<close>

definition newest_first :: "auth_session list \<Rightarrow> auth_session list" where
  "newest_first xs = sort_key (\<lambda>s. - as_created s) xs"

definition add_representative :: "principal \<Rightarrow> (string \<times> string \<times> string, auth_session) dict \<Rightarrow> auth_session \<Rightarrow>
    (string \<times> string \<times> string, auth_session) dict" where
  "add_representative p m s = (if map_of m (device_signature s) = None \<or> as_id s = pr_session p
     then AList.update (device_signature s) s m else m)"

definition sessions :: "principal \<Rightarrow> directory \<Rightarrow> (auth_session \<times> bool) list" where
  "sessions p d = map (\<lambda>s. (s, as_id s = pr_session p))
     (newest_first (map snd (foldl (add_representative p) [] (newest_first (live_sessions p d)))))"

definition revoke_session :: "string \<Rightarrow> principal \<Rightarrow> instant \<Rightarrow> directory \<Rightarrow> directory result" where
  "revoke_session i p now d = (case find (\<lambda>s. as_id s = i \<and> owned_session p s) (di_sessions d) of
      None \<Rightarrow> Inl (App_error 404 ''auth_session_not_found'')
    | Some s \<Rightarrow> Inr (if as_revoked s = None
        then revoke_where (\<lambda>x. owned_session p x \<and> same_device s x) ''user_revoked'' now d else d))"

definition active_user :: "principal \<Rightarrow> directory \<Rightarrow> user result" where
  "active_user p d = (case row_get us_id (pr_user p) (di_users d) of
      None \<Rightarrow> Inl (App_error 401 ''unauthorized'')
    | Some u \<Rightarrow> require (us_tenant u = pr_tenant p \<and> us_status u = User_active) (App_error 401 ''unauthorized'') (Inr u))"

definition change_password :: "hasher \<Rightarrow> string \<Rightarrow> string \<Rightarrow> string \<Rightarrow> principal \<Rightarrow> instant \<Rightarrow> directory \<Rightarrow> directory result" where
  "change_password h current new salt p now d = bind_r (active_user p d) (\<lambda>u.
     require (hs_verify h current (us_hash u)) (App_error 401 ''invalid_credentials'')
     (require (\<not> hs_verify h new (us_hash u)) (App_error 422 ''password_unchanged'')
     (bind_r (validate_new_password new) (\<lambda>_.
       Inr (revoke_where (\<lambda>s. owned_session p s \<and> as_id s \<noteq> pr_session p) ''password_changed'' now
         (set_user (us_id u) (\<lambda>u. u\<lparr>us_hash := hs_password h salt new, us_must_change := False\<rparr>) d))))))"

section \<open>Closing an account\<close>

definition owned_active_orgs :: "principal \<Rightarrow> directory \<Rightarrow> organization list" where
  "owned_active_orgs p d = filter (\<lambda>o'. og_tenant o' = pr_tenant p \<and> og_owner o' = pr_user p \<and> og_active o') (di_orgs d)"

definition other_active :: "principal \<Rightarrow> (user \<Rightarrow> bool) \<Rightarrow> directory \<Rightarrow> bool" where
  "other_active p q d \<longleftrightarrow> list_ex (\<lambda>u. us_tenant u = pr_tenant p \<and> us_id u \<noteq> pr_user p \<and> us_status u = User_active \<and> q u) (di_users d)"

definition can_delete :: "principal \<Rightarrow> user \<Rightarrow> directory \<Rightarrow> bool" where
  "can_delete p u d \<longleftrightarrow> owned_active_orgs p d = [] \<and> (us_admin u \<longrightarrow> other_active p us_admin d)"

definition erased :: "hasher \<Rightarrow> string \<Rightarrow> string \<Rightarrow> user \<Rightarrow> user" where
  "erased h salt secret u = u\<lparr>us_username := ''deleted-'' @ us_id u, us_username_norm := ''deleted-'' @ us_id u, us_email := None,
     us_email_norm := None, us_hash := hs_password h salt secret, us_status := User_deleted, us_admin := False,
     us_must_change := False, us_failed := 0, us_locked := None\<rparr>"

text \<open>The sessions, memberships and grants of the principal, withdrawn.\<close>

definition withdraw_rows :: "principal \<Rightarrow> instant \<Rightarrow> directory \<Rightarrow> directory" where
  "withdraw_rows p now d = (let d1 = revoke_where (owned_session p) ''account_deleted'' now d in
     d1\<lparr>di_members := map (\<lambda>m. if mb_tenant m = pr_tenant p \<and> mb_user m = pr_user p then m\<lparr>mb_active := False\<rparr> else m) (di_members d1),
       di_acls := map (\<lambda>a. if ra_tenant a = pr_tenant p \<and> ra_gtype a = ''user'' \<and> ra_grantee a = pr_user p \<and> ra_revoked a = None
         then a\<lparr>ra_revoked := Some now\<rparr> else a) (di_acls d1)\<rparr>)"

definition delete_account :: "hasher \<Rightarrow> string \<Rightarrow> string \<Rightarrow> string \<Rightarrow> string \<Rightarrow> principal \<Rightarrow> instant \<Rightarrow> directory \<Rightarrow> directory result" where
  "delete_account h current confirmation salt secret p now d = bind_r (active_user p d) (\<lambda>u.
     require (hs_verify h current (us_hash u)) (App_error 401 ''invalid_credentials'')
     (require (confirmation = us_username u) (App_error 422 ''account_confirmation_mismatch'')
     (require (can_delete p u d) (App_error 409 ''account_deletion_blocked'')
     (require (\<forall>v \<in> set (di_users d). us_id v \<noteq> us_id u \<and> us_tenant v = us_tenant u \<longrightarrow> us_username_norm v \<noteq> ''deleted-'' @ us_id u)
        integrity_error
     (Inr (set_user (us_id u) (erased h salt secret) (withdraw_rows p now d)))))))"

section \<open>Administration of accounts\<close>

definition create_user :: "hasher \<Rightarrow> register_request \<Rightarrow> bool \<Rightarrow> string \<Rightarrow> string \<Rightarrow> string \<Rightarrow> principal \<Rightarrow> directory \<Rightarrow> directory result" where
  "create_user h r admin uid wid salt p d =
     require (register_ok r) (Python_error ''ValidationError'')
     (require (pr_admin p) (App_error 403 ''system_admin_required'')
     (let u = (new_user h r uid (pr_tenant p) salt admin)\<lparr>us_email_norm := map_option normalize_identity (given_text (rr_email r))\<rparr> in
      require (\<not> list_ex (\<lambda>v. us_tenant v = pr_tenant p \<and> (us_username_norm v = us_username_norm u \<or>
          us_email_norm u \<noteq> None \<and> us_email_norm v = us_email_norm u)) (di_users d)) (App_error 409 ''identity_conflict'')
      (bind_r (validate_new_password (rr_password r)) (\<lambda>_. add_user u wid d))))"

definition update_user_status :: "string \<Rightarrow> bool \<Rightarrow> principal \<Rightarrow> instant \<Rightarrow> directory \<Rightarrow> directory result" where
  "update_user_status i active p now d =
     require (pr_admin p) (App_error 403 ''system_admin_required'')
     (require (i \<noteq> pr_user p \<or> active) (App_error 409 ''cannot_disable_current_user'')
     (case find (\<lambda>u. us_id u = i \<and> us_tenant u = pr_tenant p) (di_users d) of
       None \<Rightarrow> Inl (App_error 404 ''user_not_found'')
     | Some u \<Rightarrow>
         require (us_id u \<noteq> ''demo-user'') (App_error 409 ''demo_status_managed_by_environment'')
         (let d1 = set_user (us_id u) (\<lambda>u. u\<lparr>us_status := if active then User_active else User_disabled\<rparr>) d in
          Inr (if active then d1
            else revoke_where (\<lambda>s. as_user s = us_id u \<and> as_tenant s = us_tenant u) ''user_disabled'' now d1))))"

end
