(* ===== verification/Access.thy ===== *)
theory Access
  imports Identity
begin

text \<open>
  Who may do what: \<open>backend/app/services/authorization.py\<close> (\<open>AuthorizationService\<close> and the organization, role,
  membership and ACL operations of \<open>IdentityManagementService\<close>) and the gate every workspace request passes,
  \<open>workspace_context\<close> of \<open>api/deps.py\<close>. A set of permission keys is a list without order.
\<close>

section \<open>Permissions\<close>

definition all_permissions :: "string list" where
  "all_permissions = [''workspace.read'', ''workspace.write'', ''workspace.manage'', ''organization.read'',
     ''organization.manage_members'', ''organization.manage_roles'', ''acl.manage'']"

definition member_permissions :: "string list" where
  "member_permissions = [''workspace.read'', ''workspace.write'', ''organization.read'']"

definition viewer_permissions :: "string list" where
  "viewer_permissions = [''workspace.read'', ''organization.read'']"

definition resource_models :: "string list" where
  "resource_models = [''project'', ''goal'', ''graph'', ''session'', ''file'', ''source'', ''exercise'']"

text \<open>The join of \<open>organization_permissions\<close>: the keys of the roles of the principal's active memberships.\<close>

definition organization_permissions :: "principal \<Rightarrow> string \<Rightarrow> directory \<Rightarrow> string list" where
  "organization_permissions p oid d = concat (map (\<lambda>m. concat (map ro_keys
       (filter (\<lambda>r. ro_id r = mb_role m \<and> ro_org r = oid) (di_roles d))))
     (filter (\<lambda>m. mb_tenant m = pr_tenant p \<and> mb_org m = oid \<and> mb_user m = pr_user p \<and> mb_active m) (di_members d)))"

definition workspace_permissions :: "principal \<Rightarrow> workspace \<Rightarrow> directory \<Rightarrow> string list" where
  "workspace_permissions p w d =
     (if ws_tenant w \<noteq> pr_tenant p then []
      else if ws_owner w = pr_user p then all_permissions
      else (case ws_org w of
          None \<Rightarrow> []
        | Some oid \<Rightarrow> if oid = [] \<or> ws_kind w \<noteq> ''organization'' then [] else organization_permissions p oid d))"

definition list_workspaces :: "principal \<Rightarrow> directory \<Rightarrow> workspace list" where
  "list_workspaces p d =
     (let oids = map mb_org (filter (\<lambda>m. mb_tenant m = pr_tenant p \<and> mb_user m = pr_user p \<and> mb_active m) (di_members d)) in
      filter (\<lambda>w. ws_tenant w = pr_tenant p \<and> (ws_owner w = pr_user p \<or> (\<exists>oid \<in> set_option (ws_org w). oid \<in> set oids)) \<and>
        ''workspace.read'' \<in> set (workspace_permissions p w d)) (di_workspaces d))"

definition require_organization_permission :: "principal \<Rightarrow> string \<Rightarrow> string \<Rightarrow> directory \<Rightarrow> organization result" where
  "require_organization_permission p oid key d =
     (case find (\<lambda>o'. og_id o' = oid \<and> og_tenant o' = pr_tenant p \<and> og_active o') (di_orgs d) of
       None \<Rightarrow> Inl (App_error 404 ''organization_not_found'')
     | Some o' \<Rightarrow> require (key \<in> set (organization_permissions p oid d)) (App_error 403 ''permission_denied'') (Inr o'))"

section \<open>Resources\<close>

definition resource_exists :: "workspace \<Rightarrow> string \<Rightarrow> string \<Rightarrow> directory \<Rightarrow> bool" where
  "resource_exists w ty i d \<longleftrightarrow> list_ex (\<lambda>r. rs_type r = ty \<and> rs_id r = i \<and> rs_workspace r = ws_id w) (di_resources d)"

text \<open>The role based half of the decision; the owner is let through before.\<close>

definition rbac_allows :: "string list \<Rightarrow> string \<Rightarrow> bool" where
  "rbac_allows keys perm \<longleftrightarrow> \<not> (perm = ''read'' \<and> ''workspace.read'' \<notin> set keys) \<and>
     \<not> (perm \<in> {''write'', ''delete'', ''share''} \<and> ''workspace.write'' \<notin> set keys)"

definition workspace_membership :: "principal \<Rightarrow> workspace \<Rightarrow> directory \<Rightarrow> membership option" where
  "workspace_membership p w d = (case ws_org w of
      None \<Rightarrow> None
    | Some oid \<Rightarrow> if oid = [] then None
        else find (\<lambda>m. mb_org m = oid \<and> mb_user m = pr_user p \<and> mb_active m) (di_members d))"

definition live_acls :: "workspace \<Rightarrow> string \<Rightarrow> string \<Rightarrow> directory \<Rightarrow> resource_acl list" where
  "live_acls w ty i d = filter (\<lambda>a. ra_workspace a = ws_id w \<and> ra_tenant a = ws_tenant w \<and> ra_type a = ty \<and>
     ra_resource a = i \<and> ra_revoked a = None) (di_acls d)"

definition acl_grants :: "principal \<Rightarrow> workspace \<Rightarrow> membership option \<Rightarrow> string \<Rightarrow> resource_acl \<Rightarrow> bool" where
  "acl_grants p w m perm a \<longleftrightarrow> perm \<in> set (ra_perms a) \<and>
     (ra_gtype a = ''user'' \<and> ra_grantee a = pr_user p \<or>
      ra_gtype a = ''organization'' \<and> Some (ra_grantee a) = ws_org w \<or>
      (\<exists>x \<in> set_option m. ra_gtype a = ''role'' \<and> ra_grantee a = mb_role x))"

definition can_access_model :: "principal \<Rightarrow> workspace \<Rightarrow> string \<Rightarrow> string \<Rightarrow> string \<Rightarrow> directory \<Rightarrow> bool" where
  "can_access_model p w ty i perm d \<longleftrightarrow> ty \<in> set resource_models \<and> resource_exists w ty i d \<and>
     (ws_owner w = pr_user p \<or>
      rbac_allows (workspace_permissions p w d) perm \<and>
      (let grants = live_acls w ty i d in
       grants = [] \<or> list_ex (acl_grants p w (workspace_membership p w d) perm) grants))"

text \<open>The parents of a derived fact: \<open>can_access_bindings\<close>. An empty identifier counts as none.\<close>

definition binding_of :: "string \<Rightarrow> string option \<Rightarrow> (string \<times> string) list" where
  "binding_of ty x = (case x of None \<Rightarrow> [] | Some i \<Rightarrow> if i = [] then [] else [(ty, i)])"

definition node_graph :: "workspace \<Rightarrow> string \<Rightarrow> directory \<Rightarrow> string option" where
  "node_graph w i d = map_option gr_graph (find (\<lambda>n. gr_workspace n = ws_id w \<and> gr_id n = i) (di_nodes d))"

definition graph_goal :: "workspace \<Rightarrow> string \<Rightarrow> directory \<Rightarrow> string option" where
  "graph_goal w i d = map_option rs_goal (find (\<lambda>r. rs_type r = ''graph'' \<and> rs_workspace r = ws_id w \<and> rs_id r = i) (di_resources d))"

fun graph_bindings :: "workspace \<Rightarrow> string list \<Rightarrow> directory \<Rightarrow> (string \<times> string) list option" where
  "graph_bindings w [] d = Some []"
| "graph_bindings w (g # gs) d = (case graph_goal w g d of
      None \<Rightarrow> None
    | Some goal \<Rightarrow> map_option (\<lambda>bs. (''graph'', g) # (''goal'', goal) # bs) (graph_bindings w gs d))"

definition bound_graphs :: "workspace \<Rightarrow> string option \<Rightarrow> string option \<Rightarrow> directory \<Rightarrow> string list option" where
  "bound_graphs w graph node d =
     (let gs = map snd (binding_of ''graph'' graph) in
      case map snd (binding_of ''node'' node) of
        [] \<Rightarrow> Some gs
      | n # _ \<Rightarrow> map_option (\<lambda>g. gs @ [g]) (node_graph w n d))"

definition can_access_bindings :: "principal \<Rightarrow> workspace \<Rightarrow> string \<Rightarrow> string option \<Rightarrow> string option \<Rightarrow> string option \<Rightarrow>
    string option \<Rightarrow> directory \<Rightarrow> bool" where
  "can_access_bindings p w perm project goal graph node d =
     (case bound_graphs w graph node d of
       None \<Rightarrow> False
     | Some gs \<Rightarrow> (case graph_bindings w (fromkeys gs) d of
         None \<Rightarrow> False
       | Some bs \<Rightarrow> list_all (\<lambda>(ty, i). can_access_model p w ty i perm d)
           (fromkeys (binding_of ''project'' project @ binding_of ''goal'' goal @ bs))))"

definition can_access_roadmap_record :: "principal \<Rightarrow> workspace \<Rightarrow> roadmap_row \<Rightarrow> string \<Rightarrow> directory \<Rightarrow> bool" where
  "can_access_roadmap_record p w r perm d \<longleftrightarrow> rm_workspace r = ws_id w \<and>
     can_access_bindings p w perm None (Some (rm_goal r)) (rm_graph r) None d"

definition can_access_roadmap :: "principal \<Rightarrow> workspace \<Rightarrow> string \<Rightarrow> string \<Rightarrow> directory \<Rightarrow> bool" where
  "can_access_roadmap p w i perm d = (case find (\<lambda>r. rm_workspace r = ws_id w \<and> rm_id r = i) (di_roadmaps d) of
      None \<Rightarrow> False
    | Some r \<Rightarrow> can_access_roadmap_record p w r perm d)"

definition can_access_action_record :: "principal \<Rightarrow> workspace \<Rightarrow> action_row \<Rightarrow> string \<Rightarrow> directory \<Rightarrow> bool" where
  "can_access_action_record p w a perm d \<longleftrightarrow> ai_workspace a = ws_id w \<and>
     can_access_bindings p w perm (ai_project a) (ai_goal a) (ai_graph a) (ai_node a) d \<and>
     (\<forall>i \<in> set_option (ai_roadmap a). i \<noteq> [] \<longrightarrow> can_access_roadmap p w i perm d)"

definition can_access_action :: "principal \<Rightarrow> workspace \<Rightarrow> string \<Rightarrow> string \<Rightarrow> directory \<Rightarrow> bool" where
  "can_access_action p w i perm d = (case find (\<lambda>a. ai_workspace a = ws_id w \<and> ai_id a = i) (di_actions d) of
      None \<Rightarrow> False
    | Some a \<Rightarrow> can_access_action_record p w a perm d)"

definition can_access_resource :: "principal \<Rightarrow> workspace \<Rightarrow> string \<Rightarrow> string \<Rightarrow> string \<Rightarrow> directory \<Rightarrow> bool" where
  "can_access_resource p w ty i perm d =
     (if ty = ''roadmap'' then can_access_roadmap p w i perm d
      else if ty = ''action'' then can_access_action p w i perm d
      else can_access_model p w ty i perm d)"

section \<open>The list form\<close>

text \<open>\<open>grants_by_resource\<close>: one query for all ids, split by the id, in the order of the rows.\<close>

definition add_grant :: "(string, resource_acl list) dict \<Rightarrow> resource_acl \<Rightarrow> (string, resource_acl list) dict" where
  "add_grant m a = AList.update (ra_resource a) (dict_get m (ra_resource a) [] @ [a]) m"

definition grants_by_resource :: "workspace \<Rightarrow> string \<Rightarrow> string list \<Rightarrow> directory \<Rightarrow> (string, resource_acl list) dict" where
  "grants_by_resource w ty ids d = foldl add_grant [] (filter (\<lambda>a. ra_workspace a = ws_id w \<and> ra_tenant a = ws_tenant w \<and>
     ra_type a = ty \<and> ra_resource a \<in> set ids \<and> ra_revoked a = None) (di_acls d))"

definition existing_ids :: "workspace \<Rightarrow> string \<Rightarrow> string list \<Rightarrow> directory \<Rightarrow> string list" where
  "existing_ids w ty ids d = map rs_id (filter (\<lambda>r. rs_type r = ty \<and> rs_id r \<in> set ids \<and> rs_workspace r = ws_id w) (di_resources d))"

definition filter_accessible_ids :: "principal \<Rightarrow> workspace \<Rightarrow> string \<Rightarrow> string list \<Rightarrow> string \<Rightarrow> directory \<Rightarrow> string set" where
  "filter_accessible_ids p w ty ids perm d =
     (let named = filter (\<lambda>i. i \<noteq> []) ids in
      if ty \<in> {''roadmap'', ''action''} then set (filter (\<lambda>i. can_access_resource p w ty i perm d) named)
      else if ty \<notin> set resource_models then {}
      else (let existing = existing_ids w ty named d in
        if existing = [] then {}
        else if ws_owner w = pr_user p then set existing
        else (let keys = workspace_permissions p w d in
          if perm = ''read'' \<and> ''workspace.read'' \<notin> set keys then {}
          else if perm \<in> {''write'', ''delete'', ''share''} \<and> ''workspace.write'' \<notin> set keys then {}
          else (let m = workspace_membership p w d; by_id = grants_by_resource w ty existing d in
            set (filter (\<lambda>i. dict_get by_id i [] = [] \<or> list_ex (acl_grants p w m perm) (dict_get by_id i [])) existing)))))"

section \<open>The gate of a request\<close>

record web_request =
  wq_method :: string
  wq_path :: string
  wq_params :: "(string, string) dict"

definition safe_method :: "web_request \<Rightarrow> bool" where
  "safe_method q \<longleftrightarrow> wq_method q \<in> {''GET'', ''HEAD'', ''OPTIONS''}"

definition starts_with :: "string \<Rightarrow> string \<Rightarrow> bool" where
  "starts_with pre s \<longleftrightarrow> take (length pre) s = pre"

definition ends_with :: "string \<Rightarrow> string \<Rightarrow> bool" where
  "ends_with suf s \<longleftrightarrow> starts_with (rev suf) (rev s)"

definition sensitive_prefixes :: "string list" where
  "sensitive_prefixes = [''/api/v1/providers'', ''/api/v1/plugins'', ''/api/v1/components'', ''/api/v1/mcp/'',
     ''/api/v1/migrations'', ''/api/v1/settings'', ''/api/v1/audit'', ''/api/v1/workspace/export'']"

definition required_permission :: "web_request \<Rightarrow> string" where
  "required_permission q =
     (if \<not> safe_method q \<and> list_ex (\<lambda>pre. starts_with pre (wq_path q)) sensitive_prefixes \<or>
         safe_method q \<and> starts_with ''/api/v1/audit'' (wq_path q) then ''workspace.manage''
      else if safe_method q then ''workspace.read'' else ''workspace.write'')"

definition path_params :: "(string \<times> string) list" where
  "path_params = [(''project_id'', ''project''), (''goal_id'', ''goal''), (''graph_id'', ''graph''), (''session_id'', ''session''),
     (''file_id'', ''file''), (''source_id'', ''source''), (''exercise_id'', ''exercise''), (''roadmap_id'', ''roadmap''),
     (''action_id'', ''action'')]"

definition path_resource :: "web_request \<Rightarrow> (string \<times> string) option" where
  "path_resource q = (case find (\<lambda>(name, ty). map_of (wq_params q) name \<noteq> None) path_params of
      None \<Rightarrow> None
    | Some (name, ty) \<Rightarrow> Some (ty, dict_get (wq_params q) name []))"

definition own_lookup :: "web_request \<Rightarrow> bool" where
  "own_lookup q \<longleftrightarrow> starts_with ''/api/v1/subapps/sessions/'' (wq_path q) \<or>
     starts_with ''/api/v1/voice/sessions/'' (wq_path q) \<and> ends_with ''/api/offer'' (wq_path q)"

definition resource_permission :: "web_request \<Rightarrow> string" where
  "resource_permission q = (if safe_method q then ''read''
     else if wq_method q = ''DELETE'' \<or> ends_with ''/delete'' (wq_path q) then ''delete'' else ''write'')"

definition workspace_context :: "principal \<Rightarrow> string \<Rightarrow> web_request \<Rightarrow> directory \<Rightarrow> (workspace \<times> string list) result" where
  "workspace_context p wid q d =
     require (\<not> pr_must_change p) (App_error 403 ''password_change_required'')
     (case find (\<lambda>w. ws_id w = wid \<and> ws_tenant w = pr_tenant p) (di_workspaces d) of
       None \<Rightarrow> Inl (App_error 403 ''workspace_forbidden'')
     | Some w \<Rightarrow>
         (let keys = workspace_permissions p w d in
          require (required_permission q \<in> set keys) (App_error 403 ''workspace_forbidden'')
          (require (safe_method q \<or> starts_with ''/api/v1/migrations'' (wq_path q) \<or> ws_id w \<notin> set (di_paused d))
             (App_error 503 ''workspace_maintenance'')
           (require (own_lookup q \<or> (\<forall>(ty, i) \<in> set_option (path_resource q).
                can_access_resource p w ty i (resource_permission q) d)) (App_error 404 ''not_found'') (Inr (w, keys))))))"

text \<open>A request from its token to the service it asks for.\<close>

definition serve_request :: "hasher \<Rightarrow> string option \<Rightarrow> bool \<Rightarrow> instant \<Rightarrow> string \<Rightarrow> web_request \<Rightarrow> directory \<Rightarrow>
    directory \<times> (principal \<times> workspace \<times> string list) result" where
  "serve_request h token busy now wid q d = (case current_principal h token busy now d of
      (d1, Inl e) \<Rightarrow> (d1, Inl e)
    | (d1, Inr p) \<Rightarrow> (d1, bind_r (workspace_context p wid q d1) (\<lambda>(w, keys). Inr (p, w, keys))))"

end
