(* ===== verification/Access_Admin.thy ===== *)
theory Access_Admin
  imports Access
begin

text \<open>
  Organizations, roles, memberships and ACL entries: the writing operations of \<open>IdentityManagementService\<close>
  in \<open>backend/app/services/authorization.py\<close>. The identifiers an operation draws are arguments; one that is
  taken breaks the primary key. Permissions are stored without an order where the code sorts them.
\<close>

section \<open>Organizations and roles\<close>

definition system_role :: "string \<Rightarrow> string \<Rightarrow> string \<Rightarrow> string \<Rightarrow> string list \<Rightarrow> role" where
  "system_role i tenant oid name keys = \<lparr>ro_id = i, ro_tenant = tenant, ro_org = oid, ro_name = name, ro_system = True, ro_keys = keys\<rparr>"

text \<open>The identifiers of the three built-in roles, the membership and the workspace of a new organization.\<close>

record org_ids =
  oi_org :: string
  oi_admin :: string
  oi_member :: string
  oi_viewer :: string
  oi_membership :: string
  oi_workspace :: string

definition default_roles :: "org_ids \<Rightarrow> string \<Rightarrow> role list" where
  "default_roles i tenant =
     [system_role (oi_admin i) tenant (oi_org i) ''Organization Admin'' all_permissions,
      system_role (oi_member i) tenant (oi_org i) ''Member'' member_permissions,
      system_role (oi_viewer i) tenant (oi_org i) ''Viewer'' viewer_permissions]"

definition org_ids_fresh :: "org_ids \<Rightarrow> directory \<Rightarrow> bool" where
  "org_ids_fresh i d \<longleftrightarrow> oi_org i \<notin> og_id ` set (di_orgs d) \<and> distinct [oi_admin i, oi_member i, oi_viewer i] \<and>
     set [oi_admin i, oi_member i, oi_viewer i] \<inter> ro_id ` set (di_roles d) = {} \<and>
     oi_membership i \<notin> mb_id ` set (di_members d) \<and> oi_workspace i \<notin> ws_id ` set (di_workspaces d)"

definition create_organization :: "string \<Rightarrow> org_ids \<Rightarrow> principal \<Rightarrow> directory \<Rightarrow> directory result" where
  "create_organization name i p d =
     require (\<not> list_ex (\<lambda>x. og_tenant x = pr_tenant p \<and> og_name x = strip name) (di_orgs d)) (App_error 409 ''organization_name_conflict'')
     (require (org_ids_fresh i d) integrity_error
      (Inr (d\<lparr>di_orgs := di_orgs d @ [\<lparr>og_id = oi_org i, og_tenant = pr_tenant p, og_name = strip name, og_owner = pr_user p, og_active = True\<rparr>],
         di_roles := di_roles d @ default_roles i (pr_tenant p),
         di_members := di_members d @ [\<lparr>mb_id = oi_membership i, mb_tenant = pr_tenant p, mb_org = oi_org i, mb_user = pr_user p,
           mb_role = oi_admin i, mb_active = True\<rparr>],
         di_workspaces := di_workspaces d @ [\<lparr>ws_id = oi_workspace i, ws_tenant = pr_tenant p, ws_owner = pr_user p,
           ws_org = Some (oi_org i), ws_kind = ''organization''\<rparr>]\<rparr>)))"

definition resolve_permissions :: "string list \<Rightarrow> string list result" where
  "resolve_permissions keys = require (set keys \<subseteq> set all_permissions) (App_error 422 ''unknown_permission'') (Inr (fromkeys keys))"

definition require_role :: "principal \<Rightarrow> string \<Rightarrow> string \<Rightarrow> directory \<Rightarrow> role result" where
  "require_role p oid rid d = (case find (\<lambda>r. ro_id r = rid \<and> ro_tenant r = pr_tenant p \<and> ro_org r = oid) (di_roles d) of
      None \<Rightarrow> Inl (App_error 404 ''role_not_found'') | Some r \<Rightarrow> Inr r)"

definition create_role :: "string \<Rightarrow> string \<Rightarrow> string list \<Rightarrow> string \<Rightarrow> principal \<Rightarrow> directory \<Rightarrow> directory result" where
  "create_role oid name keys rid p d = bind_r (require_organization_permission p oid ''organization.manage_roles'' d) (\<lambda>_.
     require (\<not> list_ex (\<lambda>r. ro_org r = oid \<and> ro_name r = strip name) (di_roles d)) (App_error 409 ''role_name_conflict'')
     (bind_r (resolve_permissions keys) (\<lambda>ks.
       require (rid \<notin> ro_id ` set (di_roles d)) integrity_error
       (Inr (d\<lparr>di_roles := di_roles d @ [\<lparr>ro_id = rid, ro_tenant = pr_tenant p, ro_org = oid, ro_name = strip name,
          ro_system = False, ro_keys = ks\<rparr>]\<rparr>)))))"

definition update_role :: "string \<Rightarrow> string \<Rightarrow> string list option \<Rightarrow> principal \<Rightarrow> directory \<Rightarrow> directory result" where
  "update_role oid rid keys p d = bind_r (require_organization_permission p oid ''organization.manage_roles'' d) (\<lambda>_.
     bind_r (require_role p oid rid d) (\<lambda>r.
       require (\<not> ro_system r) (App_error 409 ''system_role_immutable'')
       (case keys of
         None \<Rightarrow> Inr d
       | Some ks \<Rightarrow> bind_r (resolve_permissions ks) (\<lambda>ks.
           Inr (d\<lparr>di_roles := row_mod ro_id rid (\<lambda>r. r\<lparr>ro_keys := ks\<rparr>) (di_roles d)\<rparr>)))))"

section \<open>Memberships\<close>

definition add_membership :: "string \<Rightarrow> string \<Rightarrow> string \<Rightarrow> string \<Rightarrow> principal \<Rightarrow> directory \<Rightarrow> directory result" where
  "add_membership oid uid rid mid p d = bind_r (require_organization_permission p oid ''organization.manage_members'' d) (\<lambda>_.
     (case find (\<lambda>u. us_id u = uid \<and> us_tenant u = pr_tenant p \<and> us_status u = User_active) (di_users d) of
       None \<Rightarrow> Inl (App_error 404 ''user_not_found'')
     | Some u \<Rightarrow> bind_r (require_role p oid rid d) (\<lambda>r.
         (case find (\<lambda>m. mb_org m = oid \<and> mb_user m = us_id u) (di_members d) of
           None \<Rightarrow> require (mid \<notin> mb_id ` set (di_members d)) integrity_error
             (Inr (d\<lparr>di_members := di_members d @ [\<lparr>mb_id = mid, mb_tenant = pr_tenant p, mb_org = oid, mb_user = us_id u,
               mb_role = ro_id r, mb_active = True\<rparr>]\<rparr>))
         | Some m \<Rightarrow> Inr (d\<lparr>di_members := row_mod mb_id (mb_id m) (\<lambda>m. m\<lparr>mb_role := ro_id r, mb_active := True\<rparr>) (di_members d)\<rparr>)))))"

text \<open>\<open>status\<close>: the change asked for, \<open>Some True\<close> for active and \<open>Some False\<close> for revoked.\<close>

definition wanted_role :: "string option \<Rightarrow> membership \<Rightarrow> string" where
  "wanted_role rid m = (case given_text rid of None \<Rightarrow> mb_role m | Some i \<Rightarrow> i)"

definition update_membership :: "string \<Rightarrow> string \<Rightarrow> string option \<Rightarrow> bool option \<Rightarrow> principal \<Rightarrow> directory \<Rightarrow> directory result" where
  "update_membership oid mid rid status p d =
     bind_r (require_organization_permission p oid ''organization.manage_members'' d) (\<lambda>org.
     (case find (\<lambda>m. mb_id m = mid \<and> mb_tenant m = pr_tenant p \<and> mb_org m = oid) (di_members d) of
       None \<Rightarrow> Inl (App_error 404 ''membership_not_found'')
     | Some m \<Rightarrow>
         require (\<not> (mb_user m = og_owner org \<and> status = Some False)) (App_error 409 ''organization_owner_required'')
         (bind_r (require_role p oid (wanted_role rid m) d) (\<lambda>r.
           Inr (d\<lparr>di_members := row_mod mb_id (mb_id m) (\<lambda>m. m\<lparr>mb_role := (if rid = None then mb_role m else ro_id r),
             mb_active := (case status of None \<Rightarrow> mb_active m | Some b \<Rightarrow> b)\<rparr>) (di_members d)\<rparr>)))))"

section \<open>ACL entries\<close>

record acl_request =
  aq_type :: string
  aq_resource :: string
  aq_gtype :: string
  aq_grantee :: string
  aq_perms :: "string list"

definition acl_request_ok :: "acl_request \<Rightarrow> bool" where
  "acl_request_ok q \<longleftrightarrow> aq_gtype q \<in> {''user'', ''role'', ''organization''} \<and> aq_perms q \<noteq> [] \<and> length (aq_perms q) \<le> 4 \<and>
     set (aq_perms q) \<subseteq> {''read'', ''write'', ''delete'', ''share''} \<and> aq_resource q \<noteq> [] \<and> length (aq_resource q) \<le> 80 \<and>
     aq_grantee q \<noteq> [] \<and> length (aq_grantee q) \<le> 64"

text \<open>\<open>if workspace.organization_id\<close>\<close>

definition shared_org :: "workspace \<Rightarrow> string option" where
  "shared_org w = given_text (ws_org w)"

definition validate_grantee :: "workspace \<Rightarrow> string \<Rightarrow> string \<Rightarrow> principal \<Rightarrow> directory \<Rightarrow> unit result" where
  "validate_grantee w ty i p d =
     (if ty = ''user'' then
        (case find (\<lambda>u. us_id u = i \<and> us_tenant u = ws_tenant w \<and> us_status u = User_active) (di_users d) of
          None \<Rightarrow> Inl (App_error 404 ''acl_grantee_not_found'')
        | Some u \<Rightarrow> (case shared_org w of
            None \<Rightarrow> Inr ()
          | Some oid \<Rightarrow> require (list_ex (\<lambda>m. mb_org m = oid \<and> mb_user m = us_id u \<and> mb_active m) (di_members d))
              (App_error 422 ''acl_grantee_outside_organization'') (Inr ())))
      else if ty = ''role'' then
        (case shared_org w of
          None \<Rightarrow> Inl (App_error 422 ''acl_role_requires_organization'')
        | Some oid \<Rightarrow> bind_r (require_role p oid i d) (\<lambda>_. Inr ()))
      else if ty = ''organization'' then
        require (ws_org w = Some i) (App_error 422 ''acl_organization_mismatch'') (Inr ())
      else Inr ())"

definition require_acl_manage :: "principal \<Rightarrow> workspace \<Rightarrow> directory \<Rightarrow> unit result" where
  "require_acl_manage p w d = require (''acl.manage'' \<in> set (workspace_permissions p w d)) (App_error 403 ''permission_denied'') (Inr ())"

definition acl_key :: "resource_acl \<Rightarrow> string \<times> string \<times> string \<times> string \<times> string" where
  "acl_key a = (ra_workspace a, ra_type a, ra_resource a, ra_gtype a, ra_grantee a)"

definition grant_acl :: "workspace \<Rightarrow> acl_request \<Rightarrow> string \<Rightarrow> principal \<Rightarrow> directory \<Rightarrow> directory result" where
  "grant_acl w q aid p d = require (acl_request_ok q) (Python_error ''ValidationError'')
     (bind_r (require_acl_manage p w d) (\<lambda>_.
      require (aq_type q \<in> set resource_models) (App_error 422 ''unsupported_acl_resource'')
      (require (resource_exists w (aq_type q) (aq_resource q) d) (App_error 404 ''resource_not_found'')
       (bind_r (validate_grantee w (aq_gtype q) (aq_grantee q) p d) (\<lambda>_.
         let key = (ws_id w, aq_type q, aq_resource q, aq_gtype q, aq_grantee q); perms = fromkeys (aq_perms q) in
         (case row_get acl_key key (di_acls d) of
           None \<Rightarrow> require (aid \<notin> ra_id ` set (di_acls d)) integrity_error
             (Inr (d\<lparr>di_acls := di_acls d @ [\<lparr>ra_id = aid, ra_workspace = ws_id w, ra_tenant = ws_tenant w, ra_type = aq_type q,
               ra_resource = aq_resource q, ra_gtype = aq_gtype q, ra_grantee = aq_grantee q, ra_perms = perms, ra_revoked = None\<rparr>]\<rparr>))
         | Some a \<Rightarrow> Inr (d\<lparr>di_acls := row_mod ra_id (ra_id a) (\<lambda>a. a\<lparr>ra_perms := perms, ra_revoked := None\<rparr>) (di_acls d)\<rparr>)))))))"

definition revoke_acl :: "workspace \<Rightarrow> string \<Rightarrow> principal \<Rightarrow> instant \<Rightarrow> directory \<Rightarrow> directory result" where
  "revoke_acl w aid p now d = bind_r (require_acl_manage p w d) (\<lambda>_.
     (case find (\<lambda>a. ra_id a = aid \<and> ra_workspace a = ws_id w \<and> ra_tenant a = ws_tenant w) (di_acls d) of
       None \<Rightarrow> Inl (App_error 404 ''acl_not_found'')
     | Some a \<Rightarrow> Inr (if ra_revoked a = None
         then d\<lparr>di_acls := row_mod ra_id (ra_id a) (\<lambda>a. a\<lparr>ra_revoked := Some now\<rparr>) (di_acls d)\<rparr> else d)))"

section \<open>Calls\<close>

text \<open>One call of a principal on the directory, with what it draws at random and the clock.\<close>

datatype directory_call =
    Login login_request client bool instant string string
  | Register register_request client instant string string string string string string
  | Request "string option" bool instant
  | Logout principal instant
  | Revoke_session string principal instant
  | Change_password string string string principal instant
  | Delete_account string string string string principal instant
  | Create_user register_request bool string string string principal
  | Set_status string bool principal instant
  | Create_organization string org_ids principal
  | Create_role string string "string list" string principal
  | Update_role string string "string list option" principal
  | Add_membership string string string string principal
  | Update_membership string string "string option" "bool option" principal
  | Grant_acl workspace acl_request string principal
  | Revoke_acl workspace string principal instant

text \<open>A failed call leaves what it had committed: the counters of a failed login, else nothing.\<close>

definition committed :: "directory \<Rightarrow> directory result \<Rightarrow> directory" where
  "committed d r = (case r of Inl e \<Rightarrow> d | Inr d' \<Rightarrow> d')"

fun directory_step :: "hasher \<Rightarrow> auth_settings \<Rightarrow> string \<Rightarrow> directory \<Rightarrow> directory_call \<Rightarrow> directory" where
  "directory_step h g dummy d (Login r c demo now sid token) = fst (login h g r c demo now sid token dummy d)"
| "directory_step h g dummy d (Register r c now tenant uid wid salt sid token) =
     fst (register h g r c now tenant uid wid salt sid token dummy d)"
| "directory_step h g dummy d (Request token busy now) = fst (current_principal h token busy now d)"
| "directory_step h g dummy d (Logout p now) = logout p now d"
| "directory_step h g dummy d (Revoke_session i p now) = committed d (revoke_session i p now d)"
| "directory_step h g dummy d (Change_password current new salt p now) = committed d (change_password h current new salt p now d)"
| "directory_step h g dummy d (Delete_account current confirmation salt secret p now) =
     committed d (delete_account h current confirmation salt secret p now d)"
| "directory_step h g dummy d (Create_user r admin uid wid salt p) = committed d (create_user h r admin uid wid salt p d)"
| "directory_step h g dummy d (Set_status i active p now) = committed d (update_user_status i active p now d)"
| "directory_step h g dummy d (Create_organization name i p) = committed d (create_organization name i p d)"
| "directory_step h g dummy d (Create_role oid name keys rid p) = committed d (create_role oid name keys rid p d)"
| "directory_step h g dummy d (Update_role oid rid keys p) = committed d (update_role oid rid keys p d)"
| "directory_step h g dummy d (Add_membership oid uid rid mid p) = committed d (add_membership oid uid rid mid p d)"
| "directory_step h g dummy d (Update_membership oid mid rid status p) = committed d (update_membership oid mid rid status p d)"
| "directory_step h g dummy d (Grant_acl w q aid p) = committed d (grant_acl w q aid p d)"
| "directory_step h g dummy d (Revoke_acl w aid p now) = committed d (revoke_acl w aid p now d)"

lemma committed_cases: "committed d r = d \<or> (\<exists>d'. r = Inr d' \<and> committed d r = d')"
  by (cases r) (simp_all add: committed_def)

lemma committed_simps [simp]: "committed d (Inr d') = d'" "committed d (Inl e) = d"
  by (simp_all add: committed_def)

end
