(* ===== verification/Account_Facts.thy ===== *)
theory Account_Facts
  imports Access_Admin
begin

text \<open>
  What accounts and sessions guarantee: a session that was ended never authenticates again, a password is
  guessed only so often before the account locks, the security page names every live session; and the
  user name that takes another account's e-mail address out of service.
\<close>

section \<open>Sessions only end\<close>

text \<open>How a call may change a session: it is never moved to another user or token, and never revived.\<close>

definition kept_session :: "auth_session \<Rightarrow> auth_session \<Rightarrow> bool" where
  "kept_session s s' \<longleftrightarrow> as_id s' = as_id s \<and> as_hash s' = as_hash s \<and> as_tenant s' = as_tenant s \<and> as_user s' = as_user s \<and>
     as_expires s' = as_expires s \<and> (as_revoked s \<noteq> None \<longrightarrow> as_revoked s' = as_revoked s)"

definition grown_sessions :: "auth_session list \<Rightarrow> auth_session list \<Rightarrow> bool" where
  "grown_sessions ss ss' \<longleftrightarrow> (\<exists>f new. ss' = map f ss @ new \<and> (\<forall>s \<in> set ss. kept_session s (f s)))"

lemma account_kept_refl [simp]: "kept_session s s"
  by (simp add: kept_session_def)

lemma kept_trans: "kept_session s t \<Longrightarrow> kept_session t u \<Longrightarrow> kept_session s u"
  by (simp add: kept_session_def)

lemma account_grown_refl [simp]: "grown_sessions ss ss"
  unfolding grown_sessions_def by (rule exI [of _ id], rule exI [of _ "[]"]) simp

lemma grown_map: "(\<And>s. s \<in> set ss \<Longrightarrow> kept_session s (f s)) \<Longrightarrow> grown_sessions ss (map f ss)"
  unfolding grown_sessions_def by (rule exI [of _ f], rule exI [of _ "[]"]) simp

lemma grown_append: "grown_sessions ss (ss @ new)"
  unfolding grown_sessions_def by (rule exI [of _ id], rule exI [of _ new]) simp

lemma account_grown_trans: "grown_sessions r s \<Longrightarrow> grown_sessions s t \<Longrightarrow> grown_sessions r t"
proof -
  assume rs: "grown_sessions r s" and st: "grown_sessions s t"
  obtain f new where f: "s = map f r @ new" "\<forall>x \<in> set r. kept_session x (f x)" using rs unfolding grown_sessions_def by blast
  obtain f' new' where "t = map f' s @ new'" "\<forall>x \<in> set s. kept_session x (f' x)" using st unfolding grown_sessions_def by blast
  with f have "t = map (f' \<circ> f) r @ (map f' new @ new')" "\<forall>x \<in> set r. kept_session x ((f' \<circ> f) x)"
    by (auto intro: kept_trans)
  then show ?thesis unfolding grown_sessions_def by blast
qed

lemma grown_found:
  assumes "grown_sessions ss ss'" and "row_get as_hash k ss = Some s"
  obtains s' where "row_get as_hash k ss' = Some s'" and "kept_session s s'"
proof -
  from assms(1) obtain f new where f: "ss' = map f ss @ new" "\<forall>s \<in> set ss. kept_session s (f s)"
    by (auto simp: grown_sessions_def)
  have "row_get as_hash k (map f ss) = Some (f s)" using f(2) assms(2)
    by (induction ss) (auto simp: kept_session_def split: if_splits)
  with f assms(2) show thesis by (intro that [of "f s"]) (auto simp: row_get_append dest: row_get_SomeD)
qed

lemma set_user_sessions [simp]: "di_sessions (set_user i f d) = di_sessions d"
  by (simp add: set_user_def)

lemma revoke_where_grown: "grown_sessions (di_sessions d) (di_sessions (revoke_where q reason now d))"
  by (auto simp: revoke_where_def kept_session_def intro: grown_map)

lemma login_as_sessions: "di_sessions (fst (login_as h g r c now sid token dummy d)) \<in>
    {di_sessions d} \<union> {di_sessions d @ [s] |s. as_revoked s = None}"
  by (auto simp: login_as_def Let_def new_auth_session_def split: option.splits)

lemma login_grown: "grown_sessions (di_sessions d) (di_sessions (fst (login h g r c demo now sid token dummy d)))"
  using login_as_sessions [of h g r c now sid token dummy d] by (auto simp: login_def grown_append)

lemma add_user_sessions: "add_user u wid d = Inr d' \<Longrightarrow> di_sessions d' = di_sessions d"
  by (auto simp: add_user_def)

lemma register_grown:
  "grown_sessions (di_sessions d) (di_sessions (fst (register h g r c now tenant uid wid salt sid token dummy d)))"
  by (auto simp: register_def Let_def bind_r_Inr add_user_def intro!: account_grown_trans [OF _ login_grown] split: sum.splits)

lemma principal_grown: "grown_sessions (di_sessions d) (di_sessions (fst (current_principal h token busy now d)))"
  by (auto simp: current_principal_def row_mod_def kept_session_def split: option.splits intro!: grown_map)

lemma account_grown:
  "change_password h current new salt p now d = Inr d1 \<Longrightarrow> grown_sessions (di_sessions d) (di_sessions d1)"
  "delete_account h current confirmation salt secret p now d = Inr d1 \<Longrightarrow> grown_sessions (di_sessions d) (di_sessions d1)"
  "update_user_status i active p now d = Inr d1 \<Longrightarrow> grown_sessions (di_sessions d) (di_sessions d1)"
  "create_user h r admin uid wid salt p d = Inr d1 \<Longrightarrow> grown_sessions (di_sessions d) (di_sessions d1)"
  "revoke_session x p now d = Inr d1 \<Longrightarrow> grown_sessions (di_sessions d) (di_sessions d1)"
  using revoke_where_grown
  by (auto simp: change_password_def delete_account_def update_user_status_def create_user_def revoke_session_def bind_r_Inr withdraw_rows_def
      Let_def add_user_def revoke_where_def kept_session_def split: option.splits if_splits intro!: grown_map)

lemma organization_sessions:
  "create_organization name i p d = Inr d1 \<Longrightarrow> di_sessions d1 = di_sessions d"
  "create_role oid nm keys rid p d = Inr d1 \<Longrightarrow> di_sessions d1 = di_sessions d"
  "update_role oid rid ks p d = Inr d1 \<Longrightarrow> di_sessions d1 = di_sessions d"
  "add_membership oid uid rid mid p d = Inr d1 \<Longrightarrow> di_sessions d1 = di_sessions d"
  "update_membership oid mid rd status p d = Inr d1 \<Longrightarrow> di_sessions d1 = di_sessions d"
  "grant_acl w q aid p d = Inr d1 \<Longrightarrow> di_sessions d1 = di_sessions d"
  "revoke_acl w aid p now d = Inr d1 \<Longrightarrow> di_sessions d1 = di_sessions d"
  by (auto simp: create_organization_def create_role_def update_role_def add_membership_def update_membership_def grant_acl_def
      revoke_acl_def bind_r_Inr Let_def split: option.splits if_splits)

lemma committed_grown: "(\<And>d1. r = Inr d1 \<Longrightarrow> grown_sessions (di_sessions d) (di_sessions d1)) \<Longrightarrow>
    grown_sessions (di_sessions d) (di_sessions (committed d r))"
  by (cases r) auto

lemma account_step_grown: "grown_sessions (di_sessions d) (di_sessions (directory_step h g dummy d c))"
proof (cases c)
  case (Logout p now)
  then show ?thesis by (auto simp: logout_def intro: revoke_where_grown split: option.split)
qed (auto intro!: committed_grown simp: login_grown register_grown principal_grown dest: account_grown organization_sessions)

lemma account_run_grown: "grown_sessions (di_sessions d) (di_sessions (foldl (directory_step h g dummy) d cs))"
  by (induction cs arbitrary: d) (auto intro: account_grown_trans [OF account_step_grown])


section \<open>Ended sessions\<close>

text \<open>The calls that end a session, and what has to be true for them to reach it.\<close>

definition ends_session :: "hasher \<Rightarrow> directory \<Rightarrow> directory_call \<Rightarrow> auth_session \<Rightarrow> bool" where
  "ends_session h d c s = (case c of
      Logout p now \<Rightarrow> as_id s = pr_session p
    | Revoke_session i p now \<Rightarrow> as_id s = i \<and> owned_session p s
    | Change_password current new salt p now \<Rightarrow>
        \<not> isl (change_password h current new salt p now d) \<and> owned_session p s \<and> as_id s \<noteq> pr_session p
    | Delete_account current confirmation salt secret p now \<Rightarrow>
        \<not> isl (delete_account h current confirmation salt secret p now d) \<and> owned_session p s
    | Set_status i active p now \<Rightarrow>
        \<not> isl (update_user_status i active p now d) \<and> \<not> active \<and> as_user s = i \<and> as_tenant s = pr_tenant p
    | _ \<Rightarrow> False)"

definition revoked_in :: "string \<Rightarrow> directory \<Rightarrow> bool" where
  "revoked_in k d \<longleftrightarrow> (\<exists>s t. row_get as_hash k (di_sessions d) = Some s \<and> as_revoked s = Some t)"

lemma revoked_where:
  assumes "row_get as_hash k (di_sessions d) = Some s" and "q s \<or> as_revoked s \<noteq> None"
  shows "revoked_in k (revoke_where q reason now d)"
proof -
  have "row_get as_hash k (map f ss) = map_option f (row_get as_hash k ss)" if "\<And>s. as_hash (f s) = as_hash s"
    for f :: "auth_session \<Rightarrow> auth_session" and ss by (induction ss) (simp_all add: that)
  with assms show ?thesis by (auto simp: revoke_where_def revoked_in_def)
qed

lemma revoked_same [simp]: "revoked_in k (set_user i f d) = revoked_in k d"
  by (simp add: revoked_in_def)

lemma same_session_id:
  "distinct (map as_id ss) \<Longrightarrow> s \<in> set ss \<Longrightarrow> row_get as_id (as_id s) ss = Some s"
  by (rule row_get_distinct)

lemma ended_session:
  assumes "ends_session h d c s" and "row_get as_hash k (di_sessions d) = Some s" and "distinct (map as_id (di_sessions d))"
  shows "revoked_in k (directory_step h g dummy d c)"
proof -
  have s: "s \<in> set (di_sessions d)" using row_get_SomeD [OF assms(2)] by simp
  show ?thesis
  proof (cases c)
    case (Logout p now)
    with assms(1) row_get_distinct [OF assms(3) s] assms(2) show ?thesis
      by (auto simp: ends_session_def logout_def revoked_in_def [of k d] intro: revoked_where)
  next
    case (Revoke_session i p now)
    have "find (\<lambda>x. as_id x = i \<and> owned_session p x) ss = Some s"
      if "s \<in> set ss" "distinct (map as_id ss)" "as_id s = i" "owned_session p s" for ss
      using that by (induction ss) (auto simp: image_iff)
    with s assms(1,3) have f: "find (\<lambda>x. as_id x = i \<and> owned_session p x) (di_sessions d) = Some s"
      by (simp add: ends_session_def Revoke_session)
    with assms(1,2) show ?thesis
      by (auto simp: Revoke_session revoke_session_def ends_session_def same_device_def revoked_in_def [of k d] intro!: revoked_where)
  next
    case (Change_password current new salt p now)
    with assms(1) obtain d1 where d1: "change_password h current new salt p now d = Inr d1" "owned_session p s" "as_id s \<noteq> pr_session p"
      by (cases "change_password h current new salt p now d") (auto simp: ends_session_def)
    with assms(2) show ?thesis
      by (auto simp: Change_password change_password_def bind_r_Inr intro!: revoked_where)
  next
    case (Delete_account current confirmation salt secret p now)
    with assms(1) obtain d1 where d1: "delete_account h current confirmation salt secret p now d = Inr d1" "owned_session p s"
      by (cases "delete_account h current confirmation salt secret p now d") (auto simp: ends_session_def)
    with assms(2) revoked_where [OF assms(2), of "owned_session p"] show ?thesis
      by (auto simp: Delete_account delete_account_def withdraw_rows_def bind_r_Inr Let_def revoked_in_def)
  next
    case (Set_status i active p now)
    with assms(1) obtain d1 where d1: "update_user_status i active p now d = Inr d1" "\<not> active" "as_user s = i" "as_tenant s = pr_tenant p"
      by (cases "update_user_status i active p now d") (auto simp: ends_session_def)
    then obtain u where "find (\<lambda>u. us_id u = i \<and> us_tenant u = pr_tenant p) (di_users d) = Some u"
      by (auto simp: update_user_status_def split: option.splits)
    moreover from this have "us_id u = i" "us_tenant u = pr_tenant p" by (auto simp: find_Some_iff)
    ultimately show ?thesis using d1 assms(2)
      by (auto simp: Set_status update_user_status_def Let_def intro!: revoked_where)
  qed (use assms(1) in \<open>simp_all add: ends_session_def\<close>)
qed

text \<open>
  C17. An ended session never authenticates again. After its user logs out, revokes it from the security
  page, changes the password elsewhere or closes the account, or an administrator disables the user, no
  sequence of calls, logins, registrations and administration included, makes the token of the session
  valid again.
\<close>

theorem ended_session_never_authenticates:
  assumes "ends_session h d c s" and "row_get as_hash (hs_token h token) (di_sessions d) = Some s"
    and "distinct (map as_id (di_sessions d))"
  shows "snd (current_principal h (Some token) busy now (foldl (directory_step h g dummy) (directory_step h g dummy d c) cs)) =
    Inl (App_error 401 ''session_invalid'')"
proof -
  obtain s1 t where s1: "row_get as_hash (hs_token h token) (di_sessions (directory_step h g dummy d c)) = Some s1" "as_revoked s1 = Some t"
    using ended_session [OF assms] unfolding revoked_in_def by blast
  from account_run_grown s1(1) obtain s2 where
    "row_get as_hash (hs_token h token) (di_sessions (foldl (directory_step h g dummy) (directory_step h g dummy d c) cs)) = Some s2"
    "kept_session s1 s2" by (rule grown_found)
  with s1(2) show ?thesis by (simp add: current_principal_def kept_session_def)
qed


section \<open>Guessing a password\<close>

text \<open>A login that reached the password of account \<open>i\<close> and was refused, and the calls that reset its counter.\<close>

definition guess_refused :: "hasher \<Rightarrow> auth_settings \<Rightarrow> string \<Rightarrow> string \<Rightarrow> directory \<Rightarrow> directory_call \<Rightarrow> bool" where
  "guess_refused h g dummy i d c = (case c of
      Login r cl demo now sid token \<Rightarrow>
        (demo \<longrightarrow> se_demo g \<and> normalize_identity (lr_username r) = normalize_identity (se_demo_username g)) \<and>
        map_option us_id (login_user r (di_users d)) = Some i \<and>
        snd (login h g r cl demo now sid token dummy d) = Inl (App_error 401 ''invalid_credentials'')
    | _ \<Rightarrow> False)"

definition resets_counter :: "hasher \<Rightarrow> auth_settings \<Rightarrow> string \<Rightarrow> string \<Rightarrow> directory \<Rightarrow> directory_call \<Rightarrow> bool" where
  "resets_counter h g dummy i d c = (case c of
      Login r cl demo now sid token \<Rightarrow> (case snd (login h g r cl demo now sid token dummy d) of Inl e \<Rightarrow> False | Inr a \<Rightarrow> lp_user a = i)
    | Delete_account current confirmation salt secret p now \<Rightarrow> pr_user p = i
    | _ \<Rightarrow> False)"

text \<open>The refused guesses of a run, up to the first success or the closing of the account.\<close>

fun guesses :: "hasher \<Rightarrow> auth_settings \<Rightarrow> string \<Rightarrow> string \<Rightarrow> directory \<Rightarrow> directory_call list \<Rightarrow> int" where
  "guesses h g dummy i d [] = 0"
| "guesses h g dummy i d (c # cs) = (if resets_counter h g dummy i d c then 0
     else (if guess_refused h g dummy i d c then 1 else 0) + guesses h g dummy i (directory_step h g dummy d c) cs)"

definition call_time :: "directory_call \<Rightarrow> instant option" where
  "call_time c = (case c of Login r cl demo now sid token \<Rightarrow> Some now | _ \<Rightarrow> None)"

definition counter :: "string \<Rightarrow> directory \<Rightarrow> (int \<times> instant option) option" where
  "counter i d = map_option (\<lambda>u. (us_failed u, us_locked u)) (row_get us_id i (di_users d))"

text \<open>How many refusals are left before the account locks; none while it is locked beyond \<open>until\<close>.\<close>

definition guesses_left :: "auth_settings \<Rightarrow> instant \<Rightarrow> string \<Rightarrow> directory \<Rightarrow> int" where
  "guesses_left g until i d = (case counter i d of
      None \<Rightarrow> 0
    | Some (n, l) \<Rightarrow> if (\<exists>t \<in> set_option l. until \<le> t) then 0 else max 1 (se_max_failed g - n))"

lemma counter_set_user_same: "(\<And>u. us_failed (f u) = us_failed u \<and> us_locked (f u) = us_locked u \<and> us_id (f u) = us_id u) \<Longrightarrow>
    counter i (set_user j f d) = counter i d"
  by (cases "i = j") (simp_all add: counter_def set_user_def row_get_mod_same row_get_mod_other option.map_comp comp_def)

lemma counter_set_user_other: "i \<noteq> j \<Longrightarrow> (\<And>u. us_id (f u) = us_id u) \<Longrightarrow> counter i (set_user j f d) = counter i d"
  by (simp add: counter_def set_user_def row_get_mod_other)

lemma counter_users: "di_users d' = di_users d \<Longrightarrow> counter i d' = counter i d"
  by (simp add: counter_def)

lemma login_user_only: "login_user r us = Some u \<Longrightarrow> identity_matches r us = [u]"
  by (simp add: login_user_def split: list.splits)

lemma login_userD: "login_user r us = Some u \<Longrightarrow> u \<in> set us"
proof -
  assume "login_user r us = Some u"
  from login_user_only [OF this] have "u \<in> set (identity_matches r us)" by simp
  then show ?thesis by (simp add: identity_matches_def Let_def)
qed

lemma login_as_counter:
  assumes "distinct (map us_id (di_users d))" and "login_as h g r c now sid token dummy d = (d', x)"
  shows "counter i d' = counter i d \<and> (map_option us_id (login_user r (di_users d)) = Some i \<longrightarrow>
      x \<noteq> Inl (App_error 401 ''invalid_credentials'')) \<or> (\<exists>u. login_user r (di_users d) = Some u \<and> us_id u = i \<and>
    ((\<exists>a. x = Inr a \<and> lp_user a = i) \<or>
     x = Inl (App_error 401 ''invalid_credentials'') \<and> \<not> locked now u \<and> counter i d = Some (us_failed u, us_locked u) \<and>
     counter i d' = Some (us_failed (count_failure g now u), us_locked (count_failure g now u))))"
proof (cases "login_user r (di_users d)")
  case None
  with assms(2) show ?thesis by (auto simp: login_as_def)
next
  case (Some u)
  from row_get_distinct [OF assms(1) login_userD [OF Some]] have u: "row_get us_id (us_id u) (di_users d) = Some u" .
  have same: "counter i (e\<lparr>di_sessions := ss\<rparr>) = counter i e" for e ss by (simp add: counter_def)
  have id: "us_id (count_failure g now u) = us_id u" for u by (simp add: count_failure_def Let_def)
  show ?thesis
  proof (cases "i = us_id u")
    case False
    with assms(2) Some show ?thesis
      by (auto simp: login_as_def Let_def same id counter_set_user_other split: if_splits)
  next
    case True
    have "counter i (set_user (us_id u) (count_failure g now) d) =
        Some (us_failed (count_failure g now u), us_locked (count_failure g now u))"
      using u True id by (simp add: counter_def set_user_def row_get_mod_same)
    with assms(2) Some True u show ?thesis
      by (auto simp: login_as_def Let_def counter_def integrity_error_def split: if_splits)
  qed
qed

lemma username_char_not_space: "username_char c \<Longrightarrow> \<not> is_space c"
  by (auto simp: username_char_def is_alnum_def is_digit_def is_upper_def is_lower_def is_space_def code_def)

lemma username_strip:
  assumes "register_ok r"
  shows "strip (rr_username r) = rr_username r"
proof -
  have "rr_username r \<noteq> []" and "\<forall>c \<in> set (rr_username r). \<not> is_space c"
    using assms by (auto simp: register_ok_def list_all_iff dest: username_char_not_space)
  then show ?thesis by (intro strip_id) simp_all
qed

lemma register_counter:
  assumes "counter i d \<noteq> None" and "distinct (map us_id (di_users d))"
  shows "counter i (fst (register h g r c now tenant uid wid salt sid token dummy d)) = counter i d"
proof -
  let ?u = "new_user h r uid tenant salt False"
  let ?d1 = "d\<lparr>di_users := di_users d @ [?u], di_workspaces := di_workspaces d @ [personal_workspace wid tenant uid]\<rparr>"
  let ?r = "\<lparr>lr_username = us_username ?u, lr_password = rr_password r, lr_tenant = None\<rparr>"
  let ?ok = "register_ok r \<and> user_fits ?u (di_users d)"
  have new: "us_id ?u = uid" "us_tenant ?u = tenant" by (simp_all add: new_user_def Let_def)
  have "fst (register h g r c now tenant uid wid salt sid token dummy d) = d \<or> ?ok \<and>
    register h g r c now tenant uid wid salt sid token dummy d = login_as h g ?r c now sid token dummy ?d1"
    by (auto simp: register_def Let_def add_user_def login_def new bind_r_Inr split: sum.splits)
  then show ?thesis
  proof
    assume run: "?ok \<and> register h g r c now tenant uid wid salt sid token dummy d = login_as h g ?r c now sid token dummy ?d1"
    have fresh: "uid \<notin> us_id ` set (di_users d)" using run by (auto simp: user_fits_def new)
    have old: "counter i ?d1 = counter i d" and other: "i \<noteq> uid"
      using assms(1) fresh by (auto simp: counter_def row_get_append row_get_None_iff split: option.split dest: row_get_SomeD)
    have "?u \<in> set (identity_matches ?r (di_users ?d1))"
      using run username_strip [of r] by (simp add: identity_matches_def Let_def new_user_def normalize_identity_def)
    then have "us_id u \<noteq> i" if "login_user ?r (di_users ?d1) = Some u" for u
      using login_user_only [OF that] new other by simp
    moreover have "distinct (map us_id (di_users ?d1))" using assms(2) fresh new by auto
    moreover obtain d' x where "login_as h g ?r c now sid token dummy ?d1 = (d', x)" by fastforce
    ultimately show ?thesis using login_as_counter [of ?d1 h g ?r c now sid token dummy d' x i] run old by auto
  qed simp
qed

lemma revoke_where_users [simp]: "di_users (revoke_where q reason now d) = di_users d"
  by (simp add: revoke_where_def)

lemma principal_users [simp]: "di_users (fst (current_principal h token busy now d)) = di_users d"
  by (simp add: current_principal_def split: option.split)

lemma withdraw_rows_users [simp]: "di_users (withdraw_rows p now d) = di_users d"
  by (simp add: withdraw_rows_def Let_def)

lemma counter_withdraw [simp]: "counter i (withdraw_rows p now d) = counter i d"
  by (rule counter_users) simp

lemma erased_id [simp]: "us_id (erased h salt secret u) = us_id u"
  by (simp add: erased_def)

lemma account_counter:
  "change_password h current new salt p now d = Inr d1 \<Longrightarrow> counter i d1 = counter i d"
  "update_user_status j active p now d = Inr d1 \<Longrightarrow> counter i d1 = counter i d"
  "delete_account h current confirmation salt secret p now d = Inr d1 \<Longrightarrow> pr_user p \<noteq> i \<Longrightarrow> counter i d1 = counter i d"
  "revoke_session x p now d = Inr d1 \<Longrightarrow> counter i d1 = counter i d"
proof -
  assume "change_password h current new salt p now d = Inr d1"
  then show "counter i d1 = counter i d"
    by (auto simp: change_password_def bind_r_Inr intro!: trans [OF counter_users counter_set_user_same])
next
  assume "update_user_status j active p now d = Inr d1"
  then show "counter i d1 = counter i d"
    by (auto simp: update_user_status_def Let_def split: option.splits if_splits
        intro!: trans [OF counter_users counter_set_user_same])
next
  assume "delete_account h current confirmation salt secret p now d = Inr d1" and "pr_user p \<noteq> i"
  moreover have "us_id u = pr_user p" if "active_user p d = Inr u" for u
    using that by (auto simp: active_user_def split: option.splits dest: row_get_key)
  ultimately have "d1 = set_user (pr_user p) (erased h salt secret) (withdraw_rows p now d)" "pr_user p \<noteq> i"
    by (auto simp: delete_account_def bind_r_Inr)
  then show "counter i d1 = counter i d" by (simp add: counter_set_user_other)
next
  assume "revoke_session x p now d = Inr d1"
  then show "counter i d1 = counter i d" by (auto simp: revoke_session_def intro: counter_users split: option.splits if_splits)
qed

lemma create_user_counter: "create_user h r admin uid wid salt p d = Inr d1 \<Longrightarrow> counter i d \<noteq> None \<Longrightarrow> counter i d1 = counter i d"
  by (auto simp: create_user_def Let_def add_user_def bind_r_Inr counter_def row_get_append)

lemma organization_users:
  "create_organization name i p d = Inr d1 \<Longrightarrow> di_users d1 = di_users d"
  "create_role oid nm keys rid p d = Inr d1 \<Longrightarrow> di_users d1 = di_users d"
  "update_role oid rid ks p d = Inr d1 \<Longrightarrow> di_users d1 = di_users d"
  "add_membership oid uid rid mid p d = Inr d1 \<Longrightarrow> di_users d1 = di_users d"
  "update_membership oid mid rd status p d = Inr d1 \<Longrightarrow> di_users d1 = di_users d"
  "grant_acl w q aid p d = Inr d1 \<Longrightarrow> di_users d1 = di_users d"
  "revoke_acl w aid p now d = Inr d1 \<Longrightarrow> di_users d1 = di_users d"
  by (auto simp: create_organization_def create_role_def update_role_def add_membership_def update_membership_def grant_acl_def
      revoke_acl_def bind_r_Inr Let_def split: option.splits if_splits)

lemma set_user_ids: "(\<And>u. us_id (f u) = us_id u) \<Longrightarrow> map us_id (di_users (set_user i f d)) = map us_id (di_users d)"
  by (simp add: set_user_def row_mod_keys)

lemma count_failure_id [simp]: "us_id (count_failure g now u) = us_id u"
  by (simp add: count_failure_def Let_def)

lemma login_as_ids: "map us_id (di_users (fst (login_as h g r c now sid token dummy d))) = map us_id (di_users d)"
  by (simp add: login_as_def Let_def set_user_ids split: option.split)

lemma login_ids: "map us_id (di_users (fst (login h g r c demo now sid token dummy d))) = map us_id (di_users d)"
  by (simp add: login_def login_as_ids)

lemma add_user_ids: "add_user u wid d = Inr d1 \<Longrightarrow> distinct (map us_id (di_users d)) \<Longrightarrow> distinct (map us_id (di_users d1))"
  by (fastforce simp: add_user_def user_fits_def)

lemma register_ids: "distinct (map us_id (di_users d)) \<Longrightarrow>
    distinct (map us_id (di_users (fst (register h g r c now tenant uid wid salt sid token dummy d))))"
  by (auto simp: register_def Let_def bind_r_Inr login_ids dest: add_user_ids split: sum.split)

lemma account_ids:
  "change_password h current new salt p now d = Inr d1 \<Longrightarrow> map us_id (di_users d1) = map us_id (di_users d)"
  "update_user_status j active p now d = Inr d1 \<Longrightarrow> map us_id (di_users d1) = map us_id (di_users d)"
  "delete_account h current confirmation salt secret p now d = Inr d1 \<Longrightarrow> map us_id (di_users d1) = map us_id (di_users d)"
  "revoke_session x p now d = Inr d1 \<Longrightarrow> map us_id (di_users d1) = map us_id (di_users d)"
  by (auto simp: change_password_def update_user_status_def delete_account_def revoke_session_def bind_r_Inr Let_def set_user_ids
      withdraw_rows_def split: option.splits if_splits intro!: trans [OF set_user_ids])

lemma create_user_ids: "create_user h r admin uid wid salt p d = Inr d1 \<Longrightarrow> distinct (map us_id (di_users d)) \<Longrightarrow>
    distinct (map us_id (di_users d1))"
  by (auto simp: create_user_def Let_def bind_r_Inr dest: add_user_ids)

lemma logout_users [simp]: "di_users (logout p now d) = di_users d"
  by (simp add: logout_def split: option.split)

lemma committed_distinct: "distinct (map us_id (di_users d)) \<Longrightarrow>
    (\<And>d1. r = Inr d1 \<Longrightarrow> distinct (map us_id (di_users d1))) \<Longrightarrow> distinct (map us_id (di_users (committed d r)))"
  by (cases r) auto

lemma account_step_ids: "distinct (map us_id (di_users d)) \<Longrightarrow> distinct (map us_id (di_users (directory_step h g dummy d c)))"
  by (cases c) (auto simp: login_ids register_ids intro!: committed_distinct dest: account_ids organization_users create_user_ids
      simp del: distinct_map)

lemma committed_counter: "(\<And>d1. r = Inr d1 \<Longrightarrow> counter i d1 = counter i d) \<Longrightarrow> counter i (committed d r) = counter i d"
  by (cases r) auto

lemma step_counter:
  assumes "counter i d \<noteq> None" and "distinct (map us_id (di_users d))" and "\<not> resets_counter h g dummy i d c"
  shows "counter i (directory_step h g dummy d c) = counter i d \<and> \<not> guess_refused h g dummy i d c \<or>
    (\<exists>now u. call_time c = Some now \<and> \<not> locked now u \<and> counter i d = Some (us_failed u, us_locked u) \<and>
      counter i (directory_step h g dummy d c) = Some (us_failed (count_failure g now u), us_locked (count_failure g now u)))"
proof (cases c)
  case (Login r cl demo now sid token)
  show ?thesis
  proof (cases "demo \<longrightarrow> se_demo g \<and> normalize_identity (lr_username r) = normalize_identity (se_demo_username g)")
    case False
    then show ?thesis by (auto simp: Login login_def guess_refused_def)
  next
    case True
    then have l: "login h g r cl demo now sid token dummy d = login_as h g r cl now sid token dummy d" by (auto simp: login_def)
    obtain d' x where x: "login_as h g r cl now sid token dummy d = (d', x)" by fastforce
    from login_as_counter [OF assms(2) x, of i] assms(3) show ?thesis
      by (auto simp: Login l x guess_refused_def resets_counter_def call_time_def)
  qed
next
  case (Register r cl now tenant uid wid salt sid token)
  then show ?thesis using register_counter [OF assms(1,2)] by (simp add: guess_refused_def)
next
  case (Delete_account current confirmation salt secret p now)
  then show ?thesis using assms(3) account_counter(3)
    by (auto simp: guess_refused_def resets_counter_def intro!: committed_counter)
qed (auto simp: guess_refused_def counter_users [OF principal_users] counter_users [OF logout_users] intro!: committed_counter
    dest: account_counter counter_users [OF organization_users(1)] counter_users [OF organization_users(2)]
      counter_users [OF organization_users(3)] counter_users [OF organization_users(4)] counter_users [OF organization_users(5)]
      counter_users [OF organization_users(6)] counter_users [OF organization_users(7)]
      create_user_counter [OF _ assms(1)])

lemma guesses_nonneg: "0 \<le> guesses h g dummy i d cs"
  by (induction cs arbitrary: d) auto

lemma guesses_bounded:
  assumes "\<forall>c \<in> set cs. \<forall>t \<in> set_option (call_time c). until - 60 * se_lockout_minutes g \<le> t \<and> t < until"
    and "counter i d \<noteq> None" and "distinct (map us_id (di_users d))"
  shows "guesses h g dummy i d cs \<le> guesses_left g until i d"
  using assms
proof (induction cs arbitrary: d)
  case Nil
  then show ?case by (auto simp: guesses_left_def split: option.split)
next
  case (Cons c cs)
  let ?d = "directory_step h g dummy d c"
  show ?case
  proof (cases "resets_counter h g dummy i d c")
    case True
    then show ?thesis by (auto simp: guesses_left_def split: option.split)
  next
    case False
    have ids: "distinct (map us_id (di_users ?d))" by (rule account_step_ids [OF Cons.prems(3)])
    from step_counter [OF Cons.prems(2,3) False] show ?thesis
    proof (elim disjE conjE exE)
      assume same: "counter i ?d = counter i d" and "\<not> guess_refused h g dummy i d c"
      moreover have "guesses h g dummy i ?d cs \<le> guesses_left g until i ?d"
        by (rule Cons.IH) (use Cons.prems ids same in auto)
      ultimately show ?thesis using False by (simp add: guesses_left_def)
    next
      fix now u
      assume u: "call_time c = Some now" "\<not> locked now u" "counter i d = Some (us_failed u, us_locked u)"
        "counter i ?d = Some (us_failed (count_failure g now u), us_locked (count_failure g now u))"
      have now: "until - 60 * se_lockout_minutes g \<le> now" "now < until" using Cons.prems(1) u(1) by auto
      have "guesses h g dummy i ?d cs \<le> guesses_left g until i ?d"
        by (rule Cons.IH) (use Cons.prems ids u(4) in auto)
      moreover have "1 + guesses_left g until i ?d \<le> guesses_left g until i d"
        using u(2) now by (auto simp: guesses_left_def u(3,4) count_failure_def Let_def locked_def)
      ultimately show ?thesis using False by simp
    qed
  qed
qed


section \<open>The security page\<close>

lemma same_device_signature: "same_device s x \<longleftrightarrow> device_signature s = device_signature x"
  by (auto simp: same_device_def device_signature_def)

lemma add_representative_dom: "dom (map_of (add_representative p m s)) = insert (device_signature s) (dom (map_of m))"
  by (auto simp: add_representative_def update_conv')

lemma representatives_cover: "dom (map_of (foldl (add_representative p) m ss)) = device_signature ` set ss \<union> dom (map_of m)"
  by (induction ss arbitrary: m) (auto simp: add_representative_dom)

lemma set_update_subset: "set (AList.update k v m) \<subseteq> insert (k, v) (set m)"
  by (induction m) auto

lemma add_representative_entries: "set (add_representative p m s) \<subseteq> insert (device_signature s, s) (set m)"
  using set_update_subset [of "device_signature s" s m] by (simp add: add_representative_def) blast

lemma representatives_entries:
  "set (foldl (add_representative p) m ss) \<subseteq> (\<lambda>s. (device_signature s, s)) ` set ss \<union> set m"
proof (induction ss arbitrary: m)
  case (Cons x ss)
  from Cons [of "add_representative p m x"] add_representative_entries [of p m x] show ?case by auto
qed simp

lemma listed_sessions:
  "set (map fst (sessions p d)) \<subseteq> set (live_sessions p d) \<and>
   (\<forall>s \<in> set (live_sessions p d). \<exists>r \<in> set (map fst (sessions p d)). device_signature r = device_signature s)"
proof -
  let ?m = "foldl (add_representative p) [] (newest_first (live_sessions p d))"
  have live: "set (newest_first (live_sessions p d)) = set (live_sessions p d)" by (simp add: newest_first_def)
  have shown: "set (map fst (sessions p d)) = snd ` set ?m" by (auto simp: sessions_def newest_first_def)
  have m: "set ?m \<subseteq> (\<lambda>s. (device_signature s, s)) ` set (live_sessions p d)"
    using representatives_entries [of p "[]" "newest_first (live_sessions p d)"] live by simp
  have "\<exists>r \<in> snd ` set ?m. device_signature r = device_signature s" if "s \<in> set (live_sessions p d)" for s
  proof -
    have "device_signature s \<in> dom (map_of ?m)" using that live by (simp add: representatives_cover)
    then obtain r where "(device_signature s, r) \<in> set ?m" by (auto dest: map_of_SomeD)
    with m show ?thesis by force
  qed
  moreover have "snd ` set ?m \<subseteq> set (live_sessions p d)" using m by auto
  ultimately show ?thesis using shown by simp
qed

definition revoke_listed :: "principal \<Rightarrow> instant \<Rightarrow> directory \<Rightarrow> auth_session \<Rightarrow> directory" where
  "revoke_listed p now d s = committed d (revoke_session (as_id s) p now d)"

text \<open>The rows after the sessions \<open>X\<close> were revoked one after another.\<close>

definition marked :: "principal \<Rightarrow> instant \<Rightarrow> auth_session set \<Rightarrow> auth_session \<Rightarrow> auth_session" where
  "marked p now X s = (if owned_session p s \<and> as_revoked s = None \<and> device_signature s \<in> device_signature ` X
     then s\<lparr>as_revoked := Some now, as_reason := ''user_revoked''\<rparr> else s)"

lemma marked_simps [simp]:
  "as_id (marked p now X s) = as_id s" "owned_session p' (marked p now X s) = owned_session p' s"
  "device_signature (marked p now X s) = device_signature s"
  by (simp_all add: marked_def owned_session_def device_signature_def)

lemma find_owned:
  assumes "distinct (map as_id ss)" and "r \<in> set ss" and "owned_session p r" and "\<And>s. as_id (f s) = as_id s \<and> (owned_session p (f s) = owned_session p s)"
  shows "find (\<lambda>s. as_id s = as_id r \<and> owned_session p s) (map f ss) = Some (f r)"
  using assms(1-3) by (induction ss) (auto simp: assms(4) image_iff)

lemma marked_step:
  "(if (owned_session p (marked p now X s) \<and> same_device (marked p now X r) (marked p now X s)) \<and> as_revoked (marked p now X s) = None
    then (marked p now X s)\<lparr>as_revoked := Some now, as_reason := ''user_revoked''\<rparr> else marked p now X s) = marked p now (insert r X) s"
  unfolding same_device_signature marked_simps by (auto simp: marked_def)

lemma revoke_listed_rows:
  assumes ids: "distinct (map as_id (di_sessions d))" and X: "set X \<subseteq> set (live_sessions p d)"
  shows "foldl (revoke_listed p now) d X = d\<lparr>di_sessions := map (marked p now (set X)) (di_sessions d)\<rparr>"
  using X
proof (induction X rule: rev_induct)
  case Nil
  then show ?case by (simp add: marked_def)
next
  case (snoc r X)
  let ?d = "d\<lparr>di_sessions := map (marked p now (set X)) (di_sessions d)\<rparr>"
  from snoc.prems have r: "r \<in> set (di_sessions d)" "owned_session p r" "as_revoked r = None" by (simp_all add: live_sessions_def)
  have found: "find (\<lambda>s. as_id s = as_id r \<and> owned_session p s) (di_sessions ?d) = Some (marked p now (set X) r)"
    using find_owned [OF ids r(1,2)] by simp
  show ?case
  proof (cases "device_signature r \<in> device_signature ` set X")
    case True
    have "revoke_listed p now ?d r = ?d"
      unfolding revoke_listed_def revoke_session_def found using True r by (simp add: marked_def)
    moreover have "marked p now (set (X @ [r])) = marked p now (set X)" using True by (auto simp: marked_def fun_eq_iff)
    ultimately show ?thesis using snoc by simp
  next
    case False
    have "revoke_listed p now ?d r = revoke_where (\<lambda>x. owned_session p x \<and> same_device (marked p now (set X) r) x) ''user_revoked'' now ?d"
      unfolding revoke_listed_def revoke_session_def found using False r by (simp add: marked_def)
    moreover have "map (\<lambda>s. if (owned_session p s \<and> same_device (marked p now (set X) r) s) \<and> as_revoked s = None
        then s\<lparr>as_revoked := Some now, as_reason := ''user_revoked''\<rparr> else s) (map (marked p now (set X)) ss) =
        map (marked p now (insert r (set X))) ss" for ss
      by (induction ss) (simp_all only: list.map marked_step)
    ultimately have "revoke_listed p now ?d r = d\<lparr>di_sessions := map (marked p now (set (X @ [r]))) (di_sessions d)\<rparr>"
      by (simp add: revoke_where_def del: map_map)
    then show ?thesis using snoc by simp
  qed
qed

text \<open>
  The security page hides no session. Revoking, one after another, the sessions it lists for a
  principal, one representative per device, leaves the principal without any live session, and changes
  no session of anyone else.
\<close>

lemma revoking_listed_sessions_revokes_all:
  assumes "distinct (map as_id (di_sessions d))" and "d' = foldl (revoke_listed p now) d (map fst (sessions p d))"
  shows "live_sessions p d' = [] \<and> (\<forall>q. (pr_tenant q, pr_user q) \<noteq> (pr_tenant p, pr_user p) \<longrightarrow> live_sessions q d' = live_sessions q d)"
proof -
  let ?X = "map fst (sessions p d)"
  have rows: "di_sessions d' = map (marked p now (set ?X)) (di_sessions d)"
    using revoke_listed_rows [OF assms(1), of ?X p now] listed_sessions [of p d] assms(2) by simp
  have "\<not> (owned_session p (marked p now (set ?X) s) \<and> as_revoked (marked p now (set ?X) s) = None)" if "s \<in> set (di_sessions d)" for s
  proof (cases "owned_session p s \<and> as_revoked s = None")
    case True
    with that have "s \<in> set (live_sessions p d)" by (simp add: live_sessions_def)
    with listed_sessions [of p d] obtain r where "r \<in> set ?X" "device_signature r = device_signature s" by blast
    then have "device_signature s \<in> device_signature ` set ?X" by (metis imageI)
    with True show ?thesis by (simp add: marked_def)
  qed (auto simp: marked_def)
  then have "live_sessions p d' = []" by (auto simp: live_sessions_def rows filter_empty_conv)
  moreover have "live_sessions q d' = live_sessions q d" if "(pr_tenant q, pr_user q) \<noteq> (pr_tenant p, pr_user p)" for q
  proof -
    have "marked p now (set ?X) s = s" if "owned_session q s" for s
      using that \<open>(pr_tenant q, pr_user q) \<noteq> _\<close> by (auto simp: marked_def owned_session_def)
    then have "filter (\<lambda>s. owned_session q s \<and> as_revoked s = None) (map (marked p now (set ?X)) ss) =
        filter (\<lambda>s. owned_session q s \<and> as_revoked s = None) ss" for ss by (induction ss) (auto simp del: set_map)
    then show ?thesis by (simp only: live_sessions_def rows)
  qed
  ultimately show ?thesis by blast
qed

section \<open>A name that is another account's address\<close>

lemma two_matches:
  assumes "v \<in> set us" and "us_email_norm v = Some i" and "us_username_norm n = i" and "normalize_identity name = i"
  shows "login_user \<lparr>lr_username = name, lr_password = pw, lr_tenant = None\<rparr> (us @ [n]) = None"
proof -
  let ?r = "\<lparr>lr_username = name, lr_password = pw, lr_tenant = None\<rparr>"
  have "v \<in> set (identity_matches ?r us)" using assms(1,2,4) by (simp add: identity_matches_def)
  then obtain a as where "identity_matches ?r us = a # as" by (cases "identity_matches ?r us") auto
  moreover have "identity_matches ?r (us @ [n]) = identity_matches ?r us @ [n]"
    using assms(3,4) by (simp add: identity_matches_def)
  ultimately show ?thesis by (cases as) (simp_all add: login_user_def)
qed

text \<open>
  A registration can take away another account's e-mail login. The duplicate check compares user names
  with user names and addresses with addresses, but login takes either; so whoever registers with the
  e-mail address of an existing account as the user name makes every later login with that address fail,
  the right password included.
\<close>

lemma username_shadows_email:
  assumes "v \<in> set (di_users d)" and "us_email_norm v = Some (normalize_identity (rr_username r))"
    and "register h g r c now tenant uid wid salt sid token dummy d = (d', x)"
    and "length (di_users d) < length (di_users d')"
    and "normalize_identity name = normalize_identity (rr_username r)"
  shows "x = Inl (App_error 401 ''invalid_credentials'') \<and>
    snd (login h g \<lparr>lr_username = name, lr_password = pw, lr_tenant = None\<rparr> c' False now' sid' token' dummy d') =
      Inl (App_error 401 ''invalid_credentials'')"
proof -
  let ?u = "new_user h r uid tenant salt False"
  let ?d1 = "d\<lparr>di_users := di_users d @ [?u], di_workspaces := di_workspaces d @ [personal_workspace wid tenant uid]\<rparr>"
  have u: "us_username_norm ?u = normalize_identity (rr_username r)" "us_id ?u = uid" "us_tenant ?u = tenant" "us_username ?u = strip (rr_username r)"
    by (simp_all add: new_user_def Let_def)
  from assms(3,4) have ok: "register_ok r" and run: "login_as h g \<lparr>lr_username = us_username ?u, lr_password = rr_password r, lr_tenant = None\<rparr>
      c now sid token dummy ?d1 = (d', x)"
    by (auto simp: register_def Let_def add_user_def login_def u bind_r_Inr split: sum.splits)
  have "normalize_identity (us_username ?u) = normalize_identity (rr_username r)"
    using username_strip [OF ok] by (simp add: u(4))
  from two_matches [OF assms(1,2) u(1) this] run have "d' = ?d1 \<and> x = Inl (App_error 401 ''invalid_credentials'')"
    by (simp add: login_as_def)
  with two_matches [OF assms(1,2) u(1) assms(5)] show ?thesis by (simp add: login_def login_as_def)
qed

section \<open>Examples\<close>

definition plain_hasher :: hasher where
  "plain_hasher = \<lparr>hs_password = (\<lambda>salt p. p), hs_verify = (\<lambda>p e. p = e), hs_token = (\<lambda>t. ''h'' @ t)\<rparr>"

definition sample_settings :: auth_settings where
  "sample_settings = \<lparr>se_demo = False, se_demo_username = ''demo'', se_demo_password = ''x'', se_max_failed = 2,
     se_lockout_minutes = 15, se_session_hours = 12\<rparr>"

definition sample_client :: client where
  "sample_client = \<lparr>cl_agent = ''browser'', cl_ip = ''10.0.0.1'', cl_device = []\<rparr>"

definition sample_user :: user where
  "sample_user = \<lparr>us_id = ''ada'', us_tenant = ''t'', us_username = ''ada'', us_username_norm = ''ada'', us_email = Some ''ada@x.org'',
     us_email_norm = Some ''ada@x.org'', us_hash = ''secret12'', us_status = User_active, us_admin = False, us_must_change = False,
     us_failed = 0, us_locked = None\<rparr>"

definition sample_session :: "string \<Rightarrow> string \<Rightarrow> auth_session" where
  "sample_session i agent = \<lparr>as_id = i, as_tenant = ''t'', as_user = ''ada'', as_hash = ''h'' @ i, as_created = 0, as_expires = 9999,
     as_seen = 0, as_revoked = None, as_reason = [], as_agent = agent, as_ip = ''10.0.0.1'', as_device = []\<rparr>"

definition sample_directory :: directory where
  "sample_directory = \<lparr>di_users = [sample_user], di_sessions = [sample_session ''s1'' ''browser'', sample_session ''s2'' ''browser'',
     sample_session ''s3'' ''phone''], di_workspaces = [], di_orgs = [], di_roles = [], di_members = [], di_acls = [],
     di_resources = [], di_nodes = [], di_roadmaps = [], di_actions = [], di_paused = []\<rparr>"

definition sample_principal :: principal where
  "sample_principal = \<lparr>pr_user = ''ada'', pr_tenant = ''t'', pr_session = ''s1'', pr_admin = False, pr_must_change = False\<rparr>"

definition wrong_login :: "instant \<Rightarrow> directory_call" where
  "wrong_login now = Login \<lparr>lr_username = ''ada'', lr_password = ''guess'', lr_tenant = None\<rparr> sample_client False now ''s9'' ''t9''"

theorem ended_session_never_authenticates_witness:
  "snd (current_principal plain_hasher (Some ''s2'') False 50 (foldl (directory_step plain_hasher sample_settings ''dummy'')
     (directory_step plain_hasher sample_settings ''dummy'' sample_directory (Revoke_session ''s2'' sample_principal 10)) [wrong_login 20])) =
   Inl (App_error 401 ''session_invalid'')"
proof (rule ended_session_never_authenticates [where s = "sample_session ''s2'' ''browser''"])
  show "ends_session plain_hasher sample_directory (Revoke_session ''s2'' sample_principal 10) (sample_session ''s2'' ''browser'')"
    by (simp add: ends_session_def sample_session_def owned_session_def sample_principal_def)
  show "row_get as_hash (hs_token plain_hasher ''s2'') (di_sessions sample_directory) = Some (sample_session ''s2'' ''browser'')"
    by (simp add: sample_directory_def sample_session_def plain_hasher_def)
  show "distinct (map as_id (di_sessions sample_directory))" by (simp add: sample_directory_def sample_session_def)
qed


definition squatter :: register_request where
  "squatter = \<lparr>rr_username = ''ada@x.org'', rr_email = None, rr_password = ''passw0rd''\<rparr>"

end
