(* ===== verification/Access_Facts.thy ===== *)
theory Access_Facts
  imports Account_Facts
begin

text \<open>
  What the authorization service guarantees: the list form of the access check decides like the single
  one, a served request has a live session, an active user and the permission it needs, and the tables of
  organizations, roles, memberships and grants keep their invariant through every call.
\<close>

section \<open>Lists of resources\<close>

lemma dict_get_grants: "dict_get (foldl add_grant m as) i [] = dict_get m i [] @ filter (\<lambda>a. ra_resource a = i) as"
  by (induction as arbitrary: m) (auto simp: add_grant_def)

lemma grants_of_resource: "i \<in> set ids \<Longrightarrow> dict_get (grants_by_resource w ty ids d) i [] = live_acls w ty i d"
  by (auto simp: grants_by_resource_def live_acls_def dict_get_grants intro!: filter_cong)

text \<open>
  C15. Listing shows what opening allows. The bulk form of the access check, which evaluates roles and
  membership once and loads all grants in one query, keeps exactly the identifiers, of those that are
  not empty, for which the check of a single resource allows the permission.
\<close>

theorem list_filter_is_exact:
  "filter_accessible_ids p w ty ids perm d = {i \<in> set ids. i \<noteq> [] \<and> can_access_resource p w ty i perm d}"
proof (cases "ty \<in> {''roadmap'', ''action''} \<or> ty \<notin> set resource_models")
  case True
  moreover have "''roadmap'' \<notin> set resource_models" "''action'' \<notin> set resource_models" by (simp_all add: resource_models_def)
  ultimately show ?thesis
    by (auto simp: filter_accessible_ids_def can_access_resource_def can_access_model_def)
next
  case False
  define existing where "existing = existing_ids w ty (filter (\<lambda>i. i \<noteq> []) ids) d"
  have ex: "set existing = {i \<in> set ids. i \<noteq> [] \<and> resource_exists w ty i d}"
    by (auto simp: existing_def existing_ids_def resource_exists_def list_ex_iff)
  let ?ok = "\<lambda>i. live_acls w ty i d = [] \<or> list_ex (acl_grants p w (workspace_membership p w d) perm) (live_acls w ty i d)"
  have by_id: "{i \<in> set existing. dict_get (grants_by_resource w ty existing d) i [] = [] \<or> list_ex (acl_grants p w m perm)
      (dict_get (grants_by_resource w ty existing d) i [])} =
      {i \<in> set existing. live_acls w ty i d = [] \<or> list_ex (acl_grants p w m perm) (live_acls w ty i d)}" for m
    by (rule Collect_cong) (auto simp: grants_of_resource)
  have "filter_accessible_ids p w ty ids perm d = (if existing = [] then {} else if ws_owner w = pr_user p then set existing
      else if rbac_allows (workspace_permissions p w d) perm then {i \<in> set existing. ?ok i} else {})"
    using False by (simp add: filter_accessible_ids_def Let_def rbac_allows_def existing_def [symmetric] by_id)
  also have "\<dots> = {i \<in> set existing. ws_owner w = pr_user p \<or> rbac_allows (workspace_permissions p w d) perm \<and> ?ok i}"
    by (cases "existing = []") simp_all
  finally show ?thesis using False by (auto simp: ex can_access_resource_def can_access_model_def Let_def)
qed

section \<open>Requests\<close>

lemma permission_source:
  assumes "key \<in> set (workspace_permissions p w d)"
  shows "ws_tenant w = pr_tenant p \<and> (ws_owner w = pr_user p \<or>
    (\<exists>m \<in> set (di_members d). \<exists>r \<in> set (di_roles d). ws_org w = Some (mb_org m) \<and> mb_user m = pr_user p \<and>
      mb_active m \<and> ro_id r = mb_role m \<and> ro_org r = mb_org m \<and> key \<in> set (ro_keys r)))"
proof -
  have "ws_tenant w = pr_tenant p \<and> (ws_owner w = pr_user p \<or> (\<exists>oid. ws_org w = Some oid \<and> key \<in> set (organization_permissions p oid d)))"
    using assms by (cases "ws_org w") (auto simp: workspace_permissions_def split: if_splits)
  then show ?thesis by (fastforce simp: organization_permissions_def)
qed

lemma findD: "find P xs = Some x \<Longrightarrow> x \<in> set xs \<and> P x"
  by (induction xs) (auto split: if_splits)

lemma principalD:
  assumes "current_principal h token busy now d = (d', Inr p)"
  obtains t s u where "token = Some t" and "s \<in> set (di_sessions d)" and "as_hash s = hs_token h t" and "as_revoked s = None"
    and "now < as_expires s" and "u \<in> set (di_users d)" and "us_id u = as_user s" and "us_tenant u = as_tenant s"
    and "us_status u = User_active" and "pr_user p = us_id u" and "pr_tenant p = us_tenant u" and "pr_must_change p = us_must_change u"
    and "di_workspaces d' = di_workspaces d" and "di_members d' = di_members d" and "di_roles d' = di_roles d"
proof -
  from assms obtain t where t: "token = Some t" by (auto simp: current_principal_def split: option.splits)
  with assms obtain s where s: "row_get as_hash (hs_token h t) (di_sessions d) = Some s"
    by (auto simp: current_principal_def split: option.splits)
  with assms t have live: "as_revoked s = None" "now < as_expires s" by (auto simp: current_principal_def split: if_splits)
  with assms t s obtain u where u: "find (\<lambda>u. us_id u = as_user s \<and> us_tenant u = as_tenant s) (di_users d) = Some u"
    by (auto simp: current_principal_def split: option.splits)
  with assms t s live have ok: "us_status u = User_active"
    and p: "p = \<lparr>pr_user = us_id u, pr_tenant = us_tenant u, pr_session = as_id s, pr_admin = us_admin u, pr_must_change = us_must_change u\<rparr>"
    and d': "di_workspaces d' = di_workspaces d" "di_members d' = di_members d" "di_roles d' = di_roles d"
    by (auto simp: current_principal_def split: if_splits)
  from row_get_SomeD [OF s] findD [OF u] t live ok p d' show thesis by (intro that [of t s u]) simp_all
qed

text \<open>
  C13. A request is served only for a reason. When a workspace request passes from its token to its
  service, the token belongs to a session that is neither revoked nor expired, whose user is active and
  need not change the password; the workspace is one of the user's tenant; and the user owns it or an
  active membership in its organization carries a role with the permission the method and path require.
\<close>

theorem served_request_is_authorised:
  assumes "serve_request h token busy now wid q d = (d', Inr (p, w, keys))"
  shows "(\<exists>t. token = Some t \<and> (\<exists>s \<in> set (di_sessions d). as_hash s = hs_token h t \<and> as_revoked s = None \<and> now < as_expires s \<and>
      (\<exists>u \<in> set (di_users d). us_id u = as_user s \<and> us_tenant u = as_tenant s \<and> us_status u = User_active \<and> \<not> us_must_change u \<and>
        pr_user p = us_id u \<and> pr_tenant p = us_tenant u))) \<and>
    w \<in> set (di_workspaces d) \<and> ws_id w = wid \<and> ws_tenant w = pr_tenant p \<and>
    (ws_owner w = pr_user p \<or> (\<exists>m \<in> set (di_members d). \<exists>r \<in> set (di_roles d). ws_org w = Some (mb_org m) \<and> mb_user m = pr_user p \<and>
      mb_active m \<and> ro_id r = mb_role m \<and> ro_org r = mb_org m \<and> required_permission q \<in> set (ro_keys r)))"
proof -
  from assms have pr: "current_principal h token busy now d = (d', Inr p)" and ctx: "workspace_context p wid q d' = Inr (w, keys)"
    by (auto simp: serve_request_def bind_r_Inr split: prod.splits sum.splits)
  from pr obtain t s u where f: "token = Some t" "s \<in> set (di_sessions d)" "as_hash s = hs_token h t" "as_revoked s = None"
    "now < as_expires s" "u \<in> set (di_users d)" "us_id u = as_user s" "us_tenant u = as_tenant s" "us_status u = User_active"
    "pr_user p = us_id u" "pr_tenant p = us_tenant u" "pr_must_change p = us_must_change u"
    and same: "di_workspaces d' = di_workspaces d" "di_members d' = di_members d" "di_roles d' = di_roles d"
    by (rule principalD) blast
  from ctx have w: "find (\<lambda>w. ws_id w = wid \<and> ws_tenant w = pr_tenant p) (di_workspaces d') = Some w"
    and req: "required_permission q \<in> set (workspace_permissions p w d')" and must: "\<not> pr_must_change p"
    by (auto simp: workspace_context_def Let_def split: option.splits)
  from findD [OF w] have "w \<in> set (di_workspaces d) \<and> ws_id w = wid" by (simp add: same)
  moreover have "\<not> us_must_change u" using must f(12) by simp
  ultimately show ?thesis using f(1-11) permission_source [OF req] unfolding same by blast
qed


section \<open>The invariant of the tables\<close>

definition roles_ok :: "organization list \<Rightarrow> role list \<Rightarrow> bool" where
  "roles_ok os rs \<longleftrightarrow> distinct (map ro_id rs) \<and> (\<forall>r \<in> set rs. ro_org r \<in> og_id ` set os \<and> set (ro_keys r) \<subseteq> set all_permissions \<and>
     (ro_system r \<longrightarrow> ro_keys r \<in> {all_permissions, member_permissions, viewer_permissions}))"

definition members_ok :: "organization list \<Rightarrow> role list \<Rightarrow> membership list \<Rightarrow> bool" where
  "members_ok os rs ms \<longleftrightarrow> distinct (map mb_id ms) \<and> distinct (map (\<lambda>m. (mb_org m, mb_user m)) ms) \<and>
     (\<forall>m \<in> set ms. (\<exists>x \<in> set os. og_id x = mb_org m \<and> og_tenant x = mb_tenant m) \<and>
       (\<exists>r \<in> set rs. ro_id r = mb_role m \<and> ro_org r = mb_org m))"

definition owners_ok :: "organization list \<Rightarrow> membership list \<Rightarrow> bool" where
  "owners_ok os ms \<longleftrightarrow> distinct (map og_id os) \<and> (\<forall>x \<in> set os. og_active x \<longrightarrow>
     (\<exists>m \<in> set ms. mb_org m = og_id x \<and> mb_user m = og_owner x \<and> mb_active m))"

definition acl_verbs :: "string set" where
  "acl_verbs = {''read'', ''write'', ''delete'', ''share''}"

definition acls_ok :: "resource_acl list \<Rightarrow> bool" where
  "acls_ok as \<longleftrightarrow> distinct (map ra_id as) \<and> distinct (map acl_key as) \<and>
     (\<forall>a \<in> set as. set (ra_perms a) \<subseteq> acl_verbs)"

definition directory_inv :: "directory \<Rightarrow> bool" where
  "directory_inv d \<longleftrightarrow> roles_ok (di_orgs d) (di_roles d) \<and> members_ok (di_orgs d) (di_roles d) (di_members d) \<and>
     owners_ok (di_orgs d) (di_members d) \<and> acls_ok (di_acls d)"

text \<open>The tables that account calls leave alone.\<close>

definition tables :: "directory \<Rightarrow> organization list \<times> role list \<times> membership list \<times> resource_acl list" where
  "tables d = (di_orgs d, di_roles d, di_members d, di_acls d)"

lemma tables_inv: "tables d' = tables d \<Longrightarrow> directory_inv d \<Longrightarrow> directory_inv d'"
  by (simp add: tables_def directory_inv_def)

lemma set_user_tables [simp]: "tables (set_user i f d) = tables d"
  by (simp add: set_user_def tables_def)

lemma revoke_where_tables [simp]: "tables (revoke_where q reason now d) = tables d"
  by (simp add: revoke_where_def tables_def)

lemma login_as_tables: "tables (fst (login_as h g r c now sid token dummy d)) = tables d"
proof -
  have "tables (e\<lparr>di_sessions := ss\<rparr>) = tables e" for e ss by (simp add: tables_def)
  then show ?thesis by (simp add: login_as_def Let_def split: option.split)
qed

lemma login_tables [simp]: "tables (fst (login h g r c demo now sid token dummy d)) = tables d"
  by (simp add: login_def login_as_tables)

lemma register_tables [simp]: "tables (fst (register h g r c now tenant uid wid salt sid token dummy d)) = tables d"
  by (auto simp: register_def Let_def bind_r_Inr add_user_def split: sum.split) (simp_all add: tables_def)

lemma principal_tables [simp]: "tables (fst (current_principal h token busy now d)) = tables d"
  by (simp add: current_principal_def tables_def split: option.split)

lemma logout_tables [simp]: "tables (logout p now d) = tables d"
  by (simp add: logout_def split: option.split)

lemma account_tables:
  "change_password h current new salt p now d = Inr d1 \<Longrightarrow> tables d1 = tables d"
  "update_user_status j active p now d = Inr d1 \<Longrightarrow> tables d1 = tables d"
  "revoke_session x p now d = Inr d1 \<Longrightarrow> tables d1 = tables d"
  "create_user h r admin uid wid salt p d = Inr d1 \<Longrightarrow> tables d1 = tables d"
  by (auto simp: change_password_def update_user_status_def revoke_session_def create_user_def add_user_def Let_def bind_r_Inr
      split: option.splits if_splits) (simp add: tables_def)

lemma row_mod_inj:
  assumes "distinct (map key rs)" and "r \<in> set rs" and "\<And>x. key (f x) = key x"
  shows "set (row_mod key (key r) f rs) = insert (f r) (set rs - {r})"
  using assms by (induction rs) (auto simp: image_iff row_mod_def)

lemma require_orgD:
  "require_organization_permission p oid key d = Inr x \<Longrightarrow>
   x \<in> set (di_orgs d) \<and> og_id x = oid \<and> og_tenant x = pr_tenant p \<and> og_active x \<and> key \<in> set (organization_permissions p oid d)"
  by (auto simp: require_organization_permission_def split: option.splits dest: findD)

lemma require_roleD: "require_role p oid rid d = Inr r \<Longrightarrow> r \<in> set (di_roles d) \<and> ro_id r = rid \<and> ro_org r = oid"
  by (auto simp: require_role_def split: option.splits dest: findD)

subsection \<open>Every call keeps it\<close>

lemma roles_ok_add:
  assumes "roles_ok os rs" and "distinct (map ro_id new)" and "ro_id ` set new \<inter> ro_id ` set rs = {}" and "set os \<subseteq> set os'"
    and "\<And>r. r \<in> set new \<Longrightarrow> ro_org r \<in> og_id ` set os' \<and> set (ro_keys r) \<subseteq> set all_permissions \<and>
      (ro_system r \<longrightarrow> ro_keys r \<in> {all_permissions, member_permissions, viewer_permissions})"
  shows "roles_ok os' (rs @ new)"
  unfolding roles_ok_def
proof (intro conjI ballI)
  show "distinct (map ro_id (rs @ new))" using assms(1-3) by (auto simp: roles_ok_def)
qed (use assms in \<open>fastforce simp: roles_ok_def\<close>)+

lemma members_ok_mono:
  assumes "members_ok os rs ms" and "set os \<subseteq> set os'" and "\<And>r. r \<in> set rs \<Longrightarrow> (ro_id r, ro_org r) \<in> (\<lambda>r. (ro_id r, ro_org r)) ` set rs'"
  shows "members_ok os' rs' ms"
  unfolding members_ok_def
proof (intro conjI ballI)
  fix m
  assume "m \<in> set ms"
  with assms(1) obtain x r where x: "x \<in> set os" "og_id x = mb_org m" "og_tenant x = mb_tenant m"
    and r: "r \<in> set rs" "ro_id r = mb_role m" "ro_org r = mb_org m" by (auto simp: members_ok_def)
  show "\<exists>x \<in> set os'. og_id x = mb_org m \<and> og_tenant x = mb_tenant m" using x assms(2) by blast
  from assms(3) [OF r(1)] obtain r' where "r' \<in> set rs'" "ro_id r' = ro_id r" "ro_org r' = ro_org r" by force
  then show "\<exists>r \<in> set rs'. ro_id r = mb_role m \<and> ro_org r = mb_org m" using r by auto
qed (use assms(1) in \<open>simp_all add: members_ok_def\<close>)

lemma members_ok_add:
  assumes "members_ok os rs ms" and "mb_id m \<notin> mb_id ` set ms" and "(mb_org m, mb_user m) \<notin> (\<lambda>m. (mb_org m, mb_user m)) ` set ms"
    and "\<exists>x \<in> set os. og_id x = mb_org m \<and> og_tenant x = mb_tenant m" and "\<exists>r \<in> set rs. ro_id r = mb_role m \<and> ro_org r = mb_org m"
  shows "members_ok os rs (ms @ [m])"
  using assms by (simp add: members_ok_def)

lemma owners_ok_mono: "owners_ok os ms \<Longrightarrow> set ms \<subseteq> set ms' \<Longrightarrow> owners_ok os ms'"
  by (auto simp: owners_ok_def) (meson subsetD)

text \<open>A membership whose role or status changes, within its organization.\<close>

lemma members_ok_mod:
  assumes ok: "members_ok os rs ms" and m: "m \<in> set ms"
    and f: "\<And>x. mb_id (f x) = mb_id x \<and> mb_org (f x) = mb_org x \<and> mb_user (f x) = mb_user x \<and> mb_tenant (f x) = mb_tenant x"
    and r: "\<exists>r \<in> set rs. ro_id r = mb_role (f m) \<and> ro_org r = mb_org m"
  shows "members_ok os rs (row_mod mb_id (mb_id m) f ms)"
  unfolding members_ok_def
proof (intro conjI ballI)
  have proj: "map proj (row_mod mb_id k f ms) = map proj ms" if "\<And>x. proj (f x) = proj x" for k and proj :: "membership \<Rightarrow> 'a"
    by (rule row_mod_keys) (rule that)
  show "distinct (map mb_id (row_mod mb_id (mb_id m) f ms))" using ok f by (simp add: members_ok_def row_mod_keys)
  show "distinct (map (\<lambda>m. (mb_org m, mb_user m)) (row_mod mb_id (mb_id m) f ms))" using ok f by (simp add: members_ok_def row_mod_keys)
  fix x
  assume "x \<in> set (row_mod mb_id (mb_id m) f ms)"
  then have x: "x = f m \<or> x \<in> set ms"
    using row_mod_inj [of mb_id ms m f] ok m f by (auto simp: members_ok_def)
  then show "\<exists>y \<in> set os. og_id y = mb_org x \<and> og_tenant y = mb_tenant x" using ok m f by (auto simp: members_ok_def)
  from x show "\<exists>r \<in> set rs. ro_id r = mb_role x \<and> ro_org r = mb_org x" using ok r f by (auto simp: members_ok_def)
qed

lemma create_organization_inv:
  assumes "create_organization name i p d = Inr d'" and "directory_inv d"
  shows "directory_inv d'"
proof -
  from assms(1) have fresh: "org_ids_fresh i d" and d': "di_orgs d' = di_orgs d @ [\<lparr>og_id = oi_org i, og_tenant = pr_tenant p,
      og_name = strip name, og_owner = pr_user p, og_active = True\<rparr>]" "di_roles d' = di_roles d @ default_roles i (pr_tenant p)"
    "di_members d' = di_members d @ [\<lparr>mb_id = oi_membership i, mb_tenant = pr_tenant p, mb_org = oi_org i, mb_user = pr_user p,
      mb_role = oi_admin i, mb_active = True\<rparr>]" "di_acls d' = di_acls d"
    by (auto simp: create_organization_def)
  have "roles_ok (di_orgs d') (di_roles d')"
    unfolding d'(2) by (rule roles_ok_add [of "di_orgs d"])
      (use assms(2) fresh in \<open>auto simp: directory_inv_def d'(1) default_roles_def system_role_def org_ids_fresh_def all_permissions_def
        member_permissions_def viewer_permissions_def\<close>)
  moreover have "members_ok (di_orgs d') (di_roles d') (di_members d')"
    unfolding d'(3)
  proof (rule members_ok_add)
    show "members_ok (di_orgs d') (di_roles d') (di_members d)"
      by (rule members_ok_mono) (use assms(2) in \<open>auto simp: directory_inv_def d'\<close>)
    have "mb_org m \<noteq> oi_org i" if "m \<in> set (di_members d)" for m
    proof -
      from assms(2) that obtain x where "x \<in> set (di_orgs d)" "og_id x = mb_org m" unfolding directory_inv_def members_ok_def by blast
      with fresh show ?thesis by (metis imageI org_ids_fresh_def)
    qed
    then show "(mb_org \<lparr>mb_id = oi_membership i, mb_tenant = pr_tenant p, mb_org = oi_org i, mb_user = pr_user p, mb_role = oi_admin i, mb_active = True\<rparr>,
        mb_user \<lparr>mb_id = oi_membership i, mb_tenant = pr_tenant p, mb_org = oi_org i, mb_user = pr_user p, mb_role = oi_admin i, mb_active = True\<rparr>)
        \<notin> (\<lambda>m. (mb_org m, mb_user m)) ` set (di_members d)" by (simp add: image_iff) metis
  qed (use fresh in \<open>simp_all add: d' org_ids_fresh_def default_roles_def system_role_def\<close>)
  moreover have "owners_ok (di_orgs d') (di_members d')"
    using assms(2) fresh by (auto simp: directory_inv_def owners_ok_def d' org_ids_fresh_def)
  ultimately show ?thesis using assms(2) by (simp add: directory_inv_def d'(4))
qed

lemma create_role_inv:
  assumes "create_role oid name keys rid p d = Inr d'" and "directory_inv d"
  shows "directory_inv d'"
proof -
  from assms(1) obtain x where x: "x \<in> set (di_orgs d)" "og_id x = oid" and rid: "rid \<notin> ro_id ` set (di_roles d)"
    and keys: "set keys \<subseteq> set all_permissions"
    and d': "d' = d\<lparr>di_roles := di_roles d @ [\<lparr>ro_id = rid, ro_tenant = pr_tenant p, ro_org = oid, ro_name = strip name,
      ro_system = False, ro_keys = fromkeys keys\<rparr>]\<rparr>"
    by (auto simp: create_role_def bind_r_Inr resolve_permissions_def dest!: require_orgD)
  have "roles_ok (di_orgs d) (di_roles d')"
    unfolding d' by (simp, rule roles_ok_add [of "di_orgs d"]) (use assms(2) x rid keys in \<open>auto simp: directory_inv_def\<close>)
  moreover have "members_ok (di_orgs d) (di_roles d') (di_members d)"
    by (rule members_ok_mono [of "di_orgs d" "di_roles d"]) (use assms(2) in \<open>auto simp: directory_inv_def d'\<close>)
  ultimately show ?thesis using assms(2) by (simp add: directory_inv_def d')
qed

lemma update_role_inv:
  assumes "update_role oid rid keys p d = Inr d'" and "directory_inv d"
  shows "directory_inv d'"
proof (cases keys)
  case None
  with assms show ?thesis by (auto simp: update_role_def bind_r_Inr)
next
  case (Some ks)
  with assms(1) obtain r where r: "r \<in> set (di_roles d)" "ro_id r = rid" "\<not> ro_system r" and ks: "set ks \<subseteq> set all_permissions"
    and d': "d' = d\<lparr>di_roles := row_mod ro_id rid (\<lambda>r. r\<lparr>ro_keys := fromkeys ks\<rparr>) (di_roles d)\<rparr>"
    by (auto simp: update_role_def bind_r_Inr resolve_permissions_def dest!: require_roleD)
  from assms(2) have ok: "roles_ok (di_orgs d) (di_roles d)" by (simp add: directory_inv_def)
  have rows: "set (di_roles d') = insert (r\<lparr>ro_keys := fromkeys ks\<rparr>) (set (di_roles d) - {r})"
    using row_mod_inj [of ro_id "di_roles d" r "\<lambda>r. r\<lparr>ro_keys := fromkeys ks\<rparr>"] ok r by (simp add: d' roles_ok_def)
  have "distinct (map ro_id (di_roles d'))" using ok by (simp add: d' roles_ok_def row_mod_keys)
  then have "roles_ok (di_orgs d) (di_roles d')" using ok r ks unfolding roles_ok_def rows by auto
  moreover have "members_ok (di_orgs d) (di_roles d') (di_members d)"
  proof (rule members_ok_mono [of "di_orgs d" "di_roles d"])
    have "map (\<lambda>r. (ro_id r, ro_org r)) (di_roles d') = map (\<lambda>r. (ro_id r, ro_org r)) (di_roles d)" by (simp add: d' row_mod_keys)
    from arg_cong [OF this, of set] show "(ro_id r, ro_org r) \<in> (\<lambda>r. (ro_id r, ro_org r)) ` set (di_roles d')" if "r \<in> set (di_roles d)" for r
      using that by simp
  qed (use assms(2) in \<open>simp_all add: directory_inv_def\<close>)
  ultimately show ?thesis using assms(2) by (simp add: directory_inv_def d')
qed

lemma add_membership_cases:
  assumes "add_membership oid uid rid mid p d = Inr d'"
  obtains (new) x r where "x \<in> set (di_orgs d)" and "og_id x = oid" and "og_tenant x = pr_tenant p" and "r \<in> set (di_roles d)"
      and "ro_org r = oid" and "\<forall>m \<in> set (di_members d). \<not> (mb_org m = oid \<and> mb_user m = uid)" and "mid \<notin> mb_id ` set (di_members d)"
      and "d' = d\<lparr>di_members := di_members d @ [\<lparr>mb_id = mid, mb_tenant = pr_tenant p, mb_org = oid, mb_user = uid,
        mb_role = ro_id r, mb_active = True\<rparr>]\<rparr>"
    | (old) m r where "m \<in> set (di_members d)" and "mb_org m = oid" and "r \<in> set (di_roles d)" and "ro_org r = oid"
      and "d' = d\<lparr>di_members := row_mod mb_id (mb_id m) (\<lambda>m. m\<lparr>mb_role := ro_id r, mb_active := True\<rparr>) (di_members d)\<rparr>"
proof -
  from assms obtain x u r where x: "require_organization_permission p oid ''organization.manage_members'' d = Inr x"
    and u: "find (\<lambda>u. us_id u = uid \<and> us_tenant u = pr_tenant p \<and> us_status u = User_active) (di_users d) = Some u"
    and r: "require_role p oid rid d = Inr r"
    and rest: "(case find (\<lambda>m. mb_org m = oid \<and> mb_user m = us_id u) (di_members d) of
           None \<Rightarrow> require (mid \<notin> mb_id ` set (di_members d)) integrity_error
             (Inr (d\<lparr>di_members := di_members d @ [\<lparr>mb_id = mid, mb_tenant = pr_tenant p, mb_org = oid, mb_user = us_id u,
               mb_role = ro_id r, mb_active = True\<rparr>]\<rparr>))
         | Some m \<Rightarrow> Inr (d\<lparr>di_members := row_mod mb_id (mb_id m) (\<lambda>m. m\<lparr>mb_role := ro_id r, mb_active := True\<rparr>) (di_members d)\<rparr>)) = Inr d'"
    by (auto simp: add_membership_def bind_r_Inr split: option.splits)
  have id: "us_id u = uid" using findD [OF u] by simp
  show thesis
  proof (cases "find (\<lambda>m. mb_org m = oid \<and> mb_user m = us_id u) (di_members d)")
    case None
    with rest id have "mid \<notin> mb_id ` set (di_members d)" "d' = d\<lparr>di_members := di_members d @ [\<lparr>mb_id = mid, mb_tenant = pr_tenant p,
        mb_org = oid, mb_user = uid, mb_role = ro_id r, mb_active = True\<rparr>]\<rparr>" by simp_all
    moreover have "\<forall>m \<in> set (di_members d). \<not> (mb_org m = oid \<and> mb_user m = uid)" using None id by (simp add: find_None_iff)
    ultimately show thesis using require_orgD [OF x] require_roleD [OF r] new by blast
  next
    case (Some m)
    with rest findD [OF Some] require_roleD [OF r] show thesis by (intro old [of m r]) simp_all
  qed
qed

lemma update_membershipD:
  assumes "update_membership oid mid rid status p d = Inr d'"
  obtains x m r where "x \<in> set (di_orgs d)" and "og_id x = oid" and "m \<in> set (di_members d)" and "mb_org m = oid"
    and "\<not> (mb_user m = og_owner x \<and> status = Some False)" and "r \<in> set (di_roles d)" and "ro_org r = oid"
    and "d' = d\<lparr>di_members := row_mod mb_id (mb_id m) (\<lambda>m. m\<lparr>mb_role := (if rid = None then mb_role m else ro_id r),
             mb_active := (case status of None \<Rightarrow> mb_active m | Some b \<Rightarrow> b)\<rparr>) (di_members d)\<rparr>"
proof -
  from assms obtain x m r where x: "require_organization_permission p oid ''organization.manage_members'' d = Inr x"
    and m: "find (\<lambda>m. mb_id m = mid \<and> mb_tenant m = pr_tenant p \<and> mb_org m = oid) (di_members d) = Some m"
    and r: "require_role p oid (wanted_role rid m) d = Inr r" and ow: "\<not> (mb_user m = og_owner x \<and> status = Some False)"
    and d': "d' = d\<lparr>di_members := row_mod mb_id (mb_id m) (\<lambda>m. m\<lparr>mb_role := (if rid = None then mb_role m else ro_id r),
             mb_active := (case status of None \<Rightarrow> mb_active m | Some b \<Rightarrow> b)\<rparr>) (di_members d)\<rparr>"
    by (auto simp: update_membership_def bind_r_Inr split: option.splits)
  show thesis by (rule that [of x m r]) (use require_orgD [OF x] findD [OF m] require_roleD [OF r] ow d' in simp_all)
qed

lemma owners_ok_mod:
  assumes "owners_ok os ms" and "m \<in> set ms" and "distinct (map mb_id ms)"
    and "mb_org (f m) = mb_org m \<and> mb_user (f m) = mb_user m" and "\<And>x. mb_id (f x) = mb_id x"
    and "\<And>x. x \<in> set os \<Longrightarrow> og_id x = mb_org m \<Longrightarrow> og_owner x = mb_user m \<Longrightarrow> mb_active m \<Longrightarrow> mb_active (f m)"
  shows "owners_ok os (row_mod mb_id (mb_id m) f ms)"
proof -
  have rows: "set (row_mod mb_id (mb_id m) f ms) = insert (f m) (set ms - {m})" by (rule row_mod_inj [OF assms(3,2,5)])
  have "\<exists>y \<in> insert (f m) (set ms - {m}). mb_org y = og_id x \<and> mb_user y = og_owner x \<and> mb_active y" if x: "x \<in> set os" "og_active x" for x
  proof -
    from assms(1) x obtain y where y: "y \<in> set ms" "mb_org y = og_id x" "mb_user y = og_owner x" "mb_active y"
      by (auto simp: owners_ok_def)
    show ?thesis
    proof (cases "y = m")
      case True
      with y assms(4) assms(6) [OF x(1)] show ?thesis by auto
    qed (use y in blast)
  qed
  with assms(1) rows show ?thesis by (simp add: owners_ok_def)
qed

lemma member_change_inv:
  assumes "directory_inv d" and "m \<in> set (di_members d)" and "r \<in> set (di_roles d)" and "ro_org r = mb_org m"
    and "\<And>x. mb_id (f x) = mb_id x \<and> mb_org (f x) = mb_org x \<and> mb_user (f x) = mb_user x \<and> mb_tenant (f x) = mb_tenant x"
    and "mb_role (f m) \<in> {mb_role m, ro_id r}"
    and "\<And>x. x \<in> set (di_orgs d) \<Longrightarrow> og_id x = mb_org m \<Longrightarrow> og_owner x = mb_user m \<Longrightarrow> mb_active m \<Longrightarrow> mb_active (f m)"
  shows "directory_inv (d\<lparr>di_members := row_mod mb_id (mb_id m) f (di_members d)\<rparr>)"
proof -
  from assms(1) have m: "members_ok (di_orgs d) (di_roles d) (di_members d)" and o': "owners_ok (di_orgs d) (di_members d)"
    by (simp_all add: directory_inv_def)
  have "\<exists>r \<in> set (di_roles d). ro_id r = mb_role (f m) \<and> ro_org r = mb_org m"
    using assms(2-4,6) m by (auto simp: members_ok_def)
  from members_ok_mod [OF m assms(2,5) this] have "members_ok (di_orgs d) (di_roles d) (row_mod mb_id (mb_id m) f (di_members d))" .
  moreover have "owners_ok (di_orgs d) (row_mod mb_id (mb_id m) f (di_members d))"
    by (rule owners_ok_mod [OF o' assms(2)]) (use m assms(5,7) in \<open>auto simp: members_ok_def\<close>)
  ultimately show ?thesis using assms(1) by (simp add: directory_inv_def)
qed

lemma add_membership_inv:
  assumes "add_membership oid uid rid mid p d = Inr d'" and "directory_inv d"
  shows "directory_inv d'"
  using assms(1)
proof (cases rule: add_membership_cases)
  case (new x r)
  let ?m = "\<lparr>mb_id = mid, mb_tenant = pr_tenant p, mb_org = oid, mb_user = uid, mb_role = ro_id r, mb_active = True\<rparr>"
  have "members_ok (di_orgs d) (di_roles d) (di_members d @ [?m])"
    by (rule members_ok_add) (use new assms(2) in \<open>auto simp: directory_inv_def\<close>)
  moreover have "owners_ok (di_orgs d) (di_members d @ [?m])"
    by (rule owners_ok_mono [of _ "di_members d"]) (use assms(2) in \<open>auto simp: directory_inv_def\<close>)
  ultimately show ?thesis using assms(2) new by (simp add: directory_inv_def)
next
  case (old m r)
  show ?thesis
    unfolding old(5) by (rule member_change_inv [OF assms(2) old(1,3)]) (use old in simp_all)
qed

lemma update_membership_inv:
  assumes "update_membership oid mid rid status p d = Inr d'" and "directory_inv d"
  shows "directory_inv d'"
  using assms(1)
proof (cases rule: update_membershipD)
  case (1 x m r)
  have same: "y = x" if "y \<in> set (di_orgs d)" "og_id y = mb_org m" for y
    using assms(2) that 1(1,2,4) by (auto simp: directory_inv_def owners_ok_def distinct_map inj_on_def)
  show ?thesis
    unfolding 1(8)
  proof (rule member_change_inv [OF assms(2) 1(3,6)])
    fix y
    assume y: "y \<in> set (di_orgs d)" "og_id y = mb_org m" "og_owner y = mb_user m" "mb_active m"
    from same [OF y(1,2)] y(3) 1(5) have "status \<noteq> Some False" by metis
    with y(4) show "mb_active (m\<lparr>mb_role := if rid = None then mb_role m else ro_id r,
        mb_active := case status of None \<Rightarrow> mb_active m | Some b \<Rightarrow> b\<rparr>)" by (cases status) auto
  qed (use 1(4,7) in simp_all)
qed

lemma acls_ok_map:
  assumes "acls_ok as" and "\<And>x. ra_id (f x) = ra_id x \<and> acl_key (f x) = acl_key x"
    and "\<And>x. x \<in> set as \<Longrightarrow> set (ra_perms (f x)) \<subseteq> acl_verbs"
  shows "acls_ok (map f as)"
proof -
  have "map ra_id (map f as) = map ra_id as" "map acl_key (map f as) = map acl_key as" using assms(2) by simp_all
  with assms(1,3) show ?thesis unfolding acls_ok_def by (metis imageE list.set_map)
qed

lemma acls_ok_mod:
  assumes "acls_ok as" and "\<And>x. ra_id (f x) = ra_id x \<and> acl_key (f x) = acl_key x"
    and "\<And>x. x \<in> set as \<Longrightarrow> set (ra_perms (f x)) \<subseteq> acl_verbs"
  shows "acls_ok (row_mod ra_id i f as)"
  unfolding row_mod_def by (rule acls_ok_map [OF assms(1)]) (use assms in \<open>auto simp: acls_ok_def\<close>)

lemma delete_account_result:
  "delete_account h current confirmation salt secret p now d = Inr d' \<Longrightarrow>
   \<exists>u. d' = set_user (us_id u) (erased h salt secret) (withdraw_rows p now d) \<and> can_delete p u d"
  by (auto simp: delete_account_def bind_r_Inr)

lemma delete_account_inv:
  assumes "delete_account h current confirmation salt secret p now d = Inr d'" and "directory_inv d"
  shows "directory_inv d'"
proof -
  from delete_account_result [OF assms(1)] obtain u where d': "d' = set_user (us_id u) (erased h salt secret) (withdraw_rows p now d)"
    and "can_delete p u d" by (elim exE conjE)
  then have none: "\<not> (og_active x \<and> og_tenant x = pr_tenant p \<and> og_owner x = pr_user p)" if "x \<in> set (di_orgs d)" for x
    using that by (auto simp: can_delete_def owned_active_orgs_def filter_empty_conv)
  let ?f = "\<lambda>m. if mb_tenant m = pr_tenant p \<and> mb_user m = pr_user p then m\<lparr>mb_active := False\<rparr> else m"
  let ?g = "\<lambda>a. if ra_tenant a = pr_tenant p \<and> ra_gtype a = ''user'' \<and> ra_grantee a = pr_user p \<and> ra_revoked a = None
    then a\<lparr>ra_revoked := Some now\<rparr> else a"
  have tables: "tables d' = (di_orgs d, di_roles d, map ?f (di_members d), map ?g (di_acls d))"
    unfolding d' set_user_tables by (simp add: tables_def withdraw_rows_def Let_def revoke_where_def)
  have cols: "map proj (map ?f ms) = map proj ms" if "\<And>m b. proj (m\<lparr>mb_active := b\<rparr>) = proj m"
    for proj :: "membership \<Rightarrow> 'a" and ms using that by simp
  have "members_ok (di_orgs d) (di_roles d) (map ?f (di_members d))"
    unfolding members_ok_def
  proof (intro conjI ballI)
    from assms(2) have ok: "members_ok (di_orgs d) (di_roles d) (di_members d)" by (simp add: directory_inv_def)
    show "distinct (map mb_id (map ?f (di_members d)))" using ok unfolding members_ok_def by (subst cols) simp_all
    show "distinct (map (\<lambda>m. (mb_org m, mb_user m)) (map ?f (di_members d)))"
      using ok unfolding members_ok_def by (subst cols) simp_all
    fix m
    assume "m \<in> set (map ?f (di_members d))"
    then obtain n where n: "n \<in> set (di_members d)" "m = ?f n" by auto
    then have same: "mb_org m = mb_org n" "mb_tenant m = mb_tenant n" "mb_role m = mb_role n" by simp_all
    show "\<exists>x \<in> set (di_orgs d). og_id x = mb_org m \<and> og_tenant x = mb_tenant m" using ok n(1) unfolding same members_ok_def by blast
    show "\<exists>r \<in> set (di_roles d). ro_id r = mb_role m \<and> ro_org r = mb_org m" using ok n(1) unfolding same members_ok_def by blast
  qed
  moreover have "owners_ok (di_orgs d) (map ?f (di_members d))"
    unfolding owners_ok_def
  proof (intro conjI ballI impI)
    fix x
    assume x: "x \<in> set (di_orgs d)" "og_active x"
    with assms(2) obtain m where m: "m \<in> set (di_members d)" "mb_org m = og_id x" "mb_user m = og_owner x" "mb_active m"
      unfolding directory_inv_def owners_ok_def by blast
    from assms(2) m(1) obtain y where y: "y \<in> set (di_orgs d)" "og_id y = mb_org m" "og_tenant y = mb_tenant m"
      unfolding directory_inv_def members_ok_def by blast
    have "inj_on og_id (set (di_orgs d))" using assms(2) by (simp add: directory_inv_def owners_ok_def distinct_map)
    then have "y = x" by (rule inj_onD) (use y(1,2) x(1) m(2) in simp_all)
    with y(3) have "mb_tenant m = og_tenant x" by simp
    with none [OF x(1)] x(2) m(3) have fm: "?f m = m" by auto
    have "m \<in> set (map ?f (di_members d))" unfolding list.set_map using imageI [of m _ ?f, OF m(1)] unfolding fm .
    with m(2-4) show "\<exists>m \<in> set (map ?f (di_members d)). mb_org m = og_id x \<and> mb_user m = og_owner x \<and> mb_active m" by blast
  qed (use assms(2) in \<open>simp add: directory_inv_def owners_ok_def\<close>)
  moreover have "acls_ok (map ?g (di_acls d))"
  proof (rule acls_ok_map)
    from assms(2) show "acls_ok (di_acls d)" by (simp add: directory_inv_def)
    then show "set (ra_perms (?g x)) \<subseteq> acl_verbs" if "x \<in> set (di_acls d)" for x using that by (simp add: acls_ok_def)
  qed (simp add: acl_key_def)
  ultimately show ?thesis using assms(2) tables by (simp add: directory_inv_def tables_def)
qed

lemma acl_change_inv: "directory_inv d \<Longrightarrow> acls_ok as \<Longrightarrow> directory_inv (d\<lparr>di_acls := as\<rparr>)"
  by (simp add: directory_inv_def)

lemma grant_aclD:
  assumes "grant_acl w q aid p d = Inr d'"
  obtains (new) "row_get acl_key (ws_id w, aq_type q, aq_resource q, aq_gtype q, aq_grantee q) (di_acls d) = None"
      and "aid \<notin> ra_id ` set (di_acls d)" and "acl_request_ok q"
      and "d' = d\<lparr>di_acls := di_acls d @ [\<lparr>ra_id = aid, ra_workspace = ws_id w, ra_tenant = ws_tenant w, ra_type = aq_type q,
        ra_resource = aq_resource q, ra_gtype = aq_gtype q, ra_grantee = aq_grantee q, ra_perms = fromkeys (aq_perms q), ra_revoked = None\<rparr>]\<rparr>"
    | (old) a :: resource_acl where "acl_request_ok q"
      and "d' = d\<lparr>di_acls := row_mod ra_id (ra_id a) (\<lambda>a. a\<lparr>ra_perms := fromkeys (aq_perms q), ra_revoked := None\<rparr>) (di_acls d)\<rparr>"
proof (cases "row_get acl_key (ws_id w, aq_type q, aq_resource q, aq_gtype q, aq_grantee q) (di_acls d)")
  case None
  with assms show thesis by (intro new) (auto simp: grant_acl_def bind_r_Inr Let_def)
next
  case (Some a)
  with assms show thesis by (intro old [of a]) (auto simp: grant_acl_def bind_r_Inr Let_def)
qed

lemma grant_acl_inv:
  assumes "grant_acl w q aid p d = Inr d'" and "directory_inv d"
  shows "directory_inv d'"
  using assms(1)
proof (cases rule: grant_aclD)
  case new
  from new(1) have "(ws_id w, aq_type q, aq_resource q, aq_gtype q, aq_grantee q) \<notin> acl_key ` set (di_acls d)" by (simp add: row_get_None_iff)
  then show ?thesis
    unfolding new(4) by (intro acl_change_inv assms(2)) (use assms(2) new(2,3) in \<open>simp_all add: directory_inv_def acls_ok_def acl_key_def acl_request_ok_def acl_verbs_def\<close>)
next
  case (old a)
  show ?thesis
    unfolding old(2) by (intro acl_change_inv assms(2) acls_ok_mod) (use assms(2) old(1) in \<open>simp_all add: directory_inv_def acl_key_def acl_request_ok_def acl_verbs_def\<close>)
qed

lemma revoke_acl_inv:
  assumes "revoke_acl w aid p now d = Inr d'" and "directory_inv d"
  shows "directory_inv d'"
proof -
  from assms(1) obtain a where "find (\<lambda>a. ra_id a = aid \<and> ra_workspace a = ws_id w \<and> ra_tenant a = ws_tenant w) (di_acls d) = Some a"
    by (auto simp: revoke_acl_def bind_r_Inr split: option.splits)
  with assms(1) have "d' = (if ra_revoked a = None
      then d\<lparr>di_acls := row_mod ra_id (ra_id a) (\<lambda>a. a\<lparr>ra_revoked := Some now\<rparr>) (di_acls d)\<rparr> else d)"
    by (simp add: revoke_acl_def bind_r_Inr)
  moreover have "directory_inv (d\<lparr>di_acls := row_mod ra_id (ra_id a) (\<lambda>a. a\<lparr>ra_revoked := Some now\<rparr>) (di_acls d)\<rparr>)"
    by (intro acl_change_inv assms(2) acls_ok_mod) (use assms(2) in \<open>simp_all add: directory_inv_def acls_ok_def acl_key_def\<close>)
  ultimately show ?thesis using assms(2) by simp
qed

lemma directory_step_inv: "directory_inv d \<Longrightarrow> directory_inv (directory_step h g dummy d c)"
proof (cases c)
  case (Set_status i active p now)
  then show "directory_inv d \<Longrightarrow> ?thesis"
    by (cases "update_user_status i active p now d") (auto intro: tables_inv account_tables)
next
  case (Revoke_session i p now)
  then show "directory_inv d \<Longrightarrow> ?thesis" by (cases "revoke_session i p now d") (auto intro: tables_inv account_tables)
next
  case (Change_password current new salt p now)
  then show "directory_inv d \<Longrightarrow> ?thesis"
    by (cases "change_password h current new salt p now d") (auto intro: tables_inv account_tables)
next
  case (Create_user r admin uid wid salt p)
  then show "directory_inv d \<Longrightarrow> ?thesis" by (cases "create_user h r admin uid wid salt p d") (auto intro: tables_inv account_tables)
next
  case (Delete_account current confirmation salt secret p now)
  then show "directory_inv d \<Longrightarrow> ?thesis"
    by (cases "delete_account h current confirmation salt secret p now d") (auto intro: delete_account_inv)
next
  case (Create_organization name i p)
  then show "directory_inv d \<Longrightarrow> ?thesis" by (cases "create_organization name i p d") (auto intro: create_organization_inv)
next
  case (Create_role oid name keys rid p)
  then show "directory_inv d \<Longrightarrow> ?thesis" by (cases "create_role oid name keys rid p d") (auto intro: create_role_inv)
next
  case (Update_role oid rid keys p)
  then show "directory_inv d \<Longrightarrow> ?thesis" by (cases "update_role oid rid keys p d") (auto intro: update_role_inv)
next
  case (Add_membership oid uid rid mid p)
  then show "directory_inv d \<Longrightarrow> ?thesis" by (cases "add_membership oid uid rid mid p d") (auto intro: add_membership_inv)
next
  case (Update_membership oid mid rid status p)
  then show "directory_inv d \<Longrightarrow> ?thesis" by (cases "update_membership oid mid rid status p d") (auto intro: update_membership_inv)
next
  case (Grant_acl w q aid p)
  then show "directory_inv d \<Longrightarrow> ?thesis" by (cases "grant_acl w q aid p d") (auto intro: grant_acl_inv)
next
  case (Revoke_acl w aid p now)
  then show "directory_inv d \<Longrightarrow> ?thesis" by (cases "revoke_acl w aid p now d") (auto intro: revoke_acl_inv)
qed (auto intro: tables_inv)

interpretation directory_machine: step_machine "directory_step h g dummy" directory_inv
  by unfold_locales (rule directory_step_inv)

text \<open>
  C16. The access tables stay consistent through every sequence of calls. Role and membership keys are
  unique, every role's permissions are known ones, a system role has one of the three built-in sets,
  every membership has an organization of its tenant and a role of that organization, every active
  organization's owner is an active member, and no grant is stored twice or names an unknown verb.
\<close>

theorem directory_invariant:
  "directory_inv d \<Longrightarrow> directory_inv (foldl (directory_step h g dummy) d cs)"
  by (rule directory_machine.run_inv)

section \<open>Examples\<close>

definition lab_ids :: org_ids where
  "lab_ids = \<lparr>oi_org = ''o1'', oi_admin = ''r1'', oi_member = ''r2'', oi_viewer = ''r3'', oi_membership = ''m1'', oi_workspace = ''w1''\<rparr>"

definition found_lab :: directory_call where
  "found_lab = Create_organization ''Lab'' lab_ids sample_principal"

definition lab_directory :: directory where
  "lab_directory = directory_step plain_hasher sample_settings ''dummy'' sample_directory found_lab"

lemma sample_directory_inv: "directory_inv sample_directory"
  by (simp add: directory_inv_def sample_directory_def roles_ok_def members_ok_def owners_ok_def acls_ok_def)

lemma lab_directory_inv: "directory_inv lab_directory"
  unfolding lab_directory_def by (rule directory_step_inv) (rule sample_directory_inv)

text \<open>Once the owner has demoted himself to a viewer, adding him back as an administrator is refused.\<close>

definition demote_owner :: directory_call where
  "demote_owner = Update_membership ''o1'' ''m1'' (Some ''r3'') None sample_principal"

definition promote_owner :: directory_call where
  "promote_owner = Update_membership ''o1'' ''m1'' (Some ''r1'') None sample_principal"

theorem directory_invariant_witness:
  "directory_inv (foldl (directory_step plain_hasher sample_settings ''dummy'') sample_directory [found_lab, demote_owner, promote_owner]) \<and>
   map mb_role (di_members (foldl (directory_step plain_hasher sample_settings ''dummy'') sample_directory
     [found_lab, demote_owner, promote_owner])) = [''r3'']"
proof
  show "directory_inv (foldl (directory_step plain_hasher sample_settings ''dummy'') sample_directory [found_lab, demote_owner, promote_owner])"
    by (rule directory_invariant) (rule sample_directory_inv)
  show "map mb_role (di_members (foldl (directory_step plain_hasher sample_settings ''dummy'') sample_directory
     [found_lab, demote_owner, promote_owner])) = [''r3'']" by code_simp
qed

definition read_goals :: web_request where
  "read_goals = \<lparr>wq_method = ''GET'', wq_path = ''/api/v1/goals'', wq_params = []\<rparr>"

theorem served_request_is_authorised_witness:
  "\<exists>p w. (\<exists>keys. snd (serve_request plain_hasher (Some ''s1'') False 50 ''w1'' read_goals lab_directory) = Inr (p, w, keys)) \<and>
     w \<in> set (di_workspaces lab_directory) \<and> ws_id w = ''w1'' \<and> ws_tenant w = pr_tenant p"
proof -
  obtain d' x where run: "serve_request plain_hasher (Some ''s1'') False 50 ''w1'' read_goals lab_directory = (d', x)" by fastforce
  have "\<not> isl (snd (serve_request plain_hasher (Some ''s1'') False 50 ''w1'' read_goals lab_directory))" by code_simp
  then obtain p w keys where x: "x = Inr (p, w, keys)" unfolding run by (cases x) auto
  from served_request_is_authorised [OF run [unfolded x]] show ?thesis unfolding run x snd_conv by blast
qed

end
