(* ===== verification/Access_Authority.thy ===== *)
theory Access_Authority
  imports Access_Facts
begin

text \<open>
  Where permissions come from and where they go: a principal gains them only from those who may manage the
  organization, an organization without a manager stays without one, and revoking the last grant of a
  resource opens it to everyone the roles admit.
\<close>

section \<open>Who can add permissions\<close>

lemma organization_permissions_iff:
  "key \<in> set (organization_permissions q oid d) \<longleftrightarrow> (\<exists>m \<in> set (di_members d). \<exists>r \<in> set (di_roles d). mb_tenant m = pr_tenant q \<and>
     mb_org m = oid \<and> mb_user m = pr_user q \<and> mb_active m \<and> ro_id r = mb_role m \<and> ro_org r = oid \<and> key \<in> set (ro_keys r))"
  by (auto simp: organization_permissions_def)

lemma permissions_elsewhere:
  assumes "key \<in> set (organization_permissions q oid d')"
    and "\<And>m. m \<in> set (di_members d') \<Longrightarrow> mb_org m = oid \<Longrightarrow> mb_active m \<Longrightarrow> m \<in> set (di_members d)"
    and "\<And>r. r \<in> set (di_roles d') \<Longrightarrow> ro_org r = oid \<Longrightarrow> r \<in> set (di_roles d)"
  shows "key \<in> set (organization_permissions q oid d)"
  using assms unfolding organization_permissions_iff by blast

text \<open>What a call on one organization's members or roles leaves of the others.\<close>

lemma changed_row_elsewhere:
  assumes "distinct (map key rs)" and "r \<in> set rs" and "\<And>x. key (f x) = key x" and "org (f r) = org r" and "org r \<noteq> oid"
    and "x \<in> set (row_mod key (key r) f rs)" and "org x = oid"
  shows "x \<in> set rs"
  using row_mod_inj [OF assms(1-3)] assms(4-7) by auto

lemma create_role_elsewhere:
  assumes "create_role oid' name keys rid p d = Inr d'" and "key \<in> set (organization_permissions q oid d')" and "oid \<noteq> oid'"
  shows "key \<in> set (organization_permissions q oid d)"
  using assms(2) by (rule permissions_elsewhere) (use assms(1,3) in \<open>auto simp: create_role_def bind_r_Inr\<close>)

lemma update_role_elsewhere:
  assumes "update_role oid' rid keys p d = Inr d'" and "key \<in> set (organization_permissions q oid d')" and "oid \<noteq> oid'"
    and "directory_inv d"
  shows "key \<in> set (organization_permissions q oid d)"
proof (cases keys)
  case None
  with assms(1,2) show ?thesis by (auto simp: update_role_def bind_r_Inr)
next
  case (Some ks)
  with assms(1) obtain r where r: "r \<in> set (di_roles d)" "ro_id r = rid" "ro_org r = oid'"
    and d': "d' = d\<lparr>di_roles := row_mod ro_id (ro_id r) (\<lambda>r. r\<lparr>ro_keys := fromkeys ks\<rparr>) (di_roles d)\<rparr>"
    by (auto simp: update_role_def bind_r_Inr resolve_permissions_def dest!: require_roleD)
  from assms(4) have "distinct (map ro_id (di_roles d))" by (simp add: directory_inv_def roles_ok_def)
  from changed_row_elsewhere [OF this r(1), of "\<lambda>r. r\<lparr>ro_keys := fromkeys ks\<rparr>" ro_org oid] r(3) assms(3)
  show ?thesis by (intro permissions_elsewhere [OF assms(2)]) (simp_all add: d')
qed

lemma members_elsewhere:
  assumes "d' = d\<lparr>di_members := row_mod mb_id (mb_id m) f (di_members d)\<rparr>" and "m \<in> set (di_members d)" and "mb_org m = oid'"
    and "\<And>x. mb_id (f x) = mb_id x \<and> mb_org (f x) = mb_org x" and "directory_inv d"
    and "key \<in> set (organization_permissions q oid d')" and "oid \<noteq> oid'"
  shows "key \<in> set (organization_permissions q oid d)"
proof -
  from assms(5) have "distinct (map mb_id (di_members d))" by (simp add: directory_inv_def members_ok_def)
  from changed_row_elsewhere [OF this assms(2), of f mb_org oid] assms(3,4,7)
  show ?thesis by (intro permissions_elsewhere [OF assms(6)]) (simp_all add: assms(1))
qed

lemma add_membership_elsewhere:
  assumes "add_membership oid' uid rid mid p d = Inr d'" and "key \<in> set (organization_permissions q oid d')" and "oid \<noteq> oid'"
    and "directory_inv d"
  shows "key \<in> set (organization_permissions q oid d)"
  using assms(1)
proof (cases rule: add_membership_cases)
  case (new x r)
  show ?thesis by (rule permissions_elsewhere [OF assms(2)]) (use new(8) assms(3) in auto)
next
  case (old m r)
  show ?thesis by (rule members_elsewhere [OF old(5,1,2) _ assms(4,2,3)]) simp
qed

lemma update_membership_elsewhere:
  assumes "update_membership oid' mid rid status p d = Inr d'" and "key \<in> set (organization_permissions q oid d')" and "oid \<noteq> oid'"
    and "directory_inv d"
  shows "key \<in> set (organization_permissions q oid d)"
  using assms(1)
proof (cases rule: update_membershipD)
  case (1 x m r)
  show ?thesis by (rule members_elsewhere [OF 1(8,3,4) _ assms(4,2,3)]) simp
qed

text \<open>The founder of a new organization is the only one with permissions there.\<close>

lemma founder_permissions:
  assumes "create_organization name i p d = Inr d'" and "key \<in> set (organization_permissions q oid d')"
    and "key \<notin> set (organization_permissions q oid d)" and "directory_inv d"
  shows "oid = oi_org i \<and> oid \<notin> og_id ` set (di_orgs d) \<and> pr_user q = pr_user p"
proof -
  from assms(1) have fresh: "oi_org i \<notin> og_id ` set (di_orgs d)" and d': "di_roles d' = di_roles d @ default_roles i (pr_tenant p)"
    "di_members d' = di_members d @ [\<lparr>mb_id = oi_membership i, mb_tenant = pr_tenant p, mb_org = oi_org i, mb_user = pr_user p,
      mb_role = oi_admin i, mb_active = True\<rparr>]"
    by (auto simp: create_organization_def org_ids_fresh_def)
  have oid: "oid = oi_org i"
  proof (rule ccontr)
    assume "oid \<noteq> oi_org i"
    then have "key \<in> set (organization_permissions q oid d)"
      by (intro permissions_elsewhere [OF assms(2)]) (auto simp: d' default_roles_def system_role_def)
    with assms(3) show False by simp
  qed
  from assms(2) obtain m where m: "m \<in> set (di_members d')" "mb_org m = oi_org i" "mb_user m = pr_user q"
    unfolding organization_permissions_iff oid by blast
  have "m \<notin> set (di_members d)" using assms(4) m(2) fresh by (auto simp: directory_inv_def members_ok_def image_iff) metis
  with m show ?thesis using oid fresh by (auto simp: d')
qed

lemma delete_account_permissions:
  assumes "delete_account h current confirmation salt secret p now d = Inr d'" and "key \<in> set (organization_permissions q oid d')"
  shows "key \<in> set (organization_permissions q oid d)"
proof (rule permissions_elsewhere [OF assms(2)])
  from delete_account_result [OF assms(1)] obtain u :: user where "d' = set_user (us_id u) (erased h salt secret) (withdraw_rows p now d)"
    by (elim exE conjE)
  then have d': "di_roles d' = di_roles d" "di_members d' = map (\<lambda>m. if mb_tenant m = pr_tenant p \<and> mb_user m = pr_user p
      then m\<lparr>mb_active := False\<rparr> else m) (di_members d)"
    by (simp_all add: set_user_def withdraw_rows_def Let_def revoke_where_def)
  show "m \<in> set (di_members d)" if "m \<in> set (di_members d')" "mb_active m" for m
    using that by (auto simp: d' split: if_splits)
  show "r \<in> set (di_roles d)" if "r \<in> set (di_roles d')" for r using that by (simp add: d')
qed

text \<open>The principal on whose behalf a call changes roles or memberships.\<close>

fun role_admin :: "directory_call \<Rightarrow> principal option" where
  "role_admin (Create_role oid name keys rid p) = Some p"
| "role_admin (Update_role oid rid keys p) = Some p"
| "role_admin (Add_membership oid uid rid mid p) = Some p"
| "role_admin (Update_membership oid mid rid status p) = Some p"
| "role_admin _ = None"

definition may_manage :: "principal \<Rightarrow> string \<Rightarrow> directory \<Rightarrow> bool" where
  "may_manage p oid d \<longleftrightarrow> ''organization.manage_members'' \<in> set (organization_permissions p oid d) \<or>
     ''organization.manage_roles'' \<in> set (organization_permissions p oid d)"

definition founds :: "directory_call \<Rightarrow> string \<Rightarrow> principal \<Rightarrow> directory \<Rightarrow> bool" where
  "founds c oid q d \<longleftrightarrow> (\<exists>name i p. c = Create_organization name i p \<and> oi_org i = oid \<and> oid \<notin> og_id ` set (di_orgs d) \<and>
     pr_user p = pr_user q)"

lemma same_tables_permissions: "tables d' = tables d \<Longrightarrow> organization_permissions q oid d' = organization_permissions q oid d"
  by (simp add: tables_def organization_permissions_def)

lemma acl_permissions:
  "grant_acl w r aid p d = Inr d' \<Longrightarrow> organization_permissions q oid d' = organization_permissions q oid d"
  "revoke_acl w aid p now d = Inr d' \<Longrightarrow> organization_permissions q oid d' = organization_permissions q oid d"
  by (auto simp: organization_permissions_def elim!: grant_aclD)
    (auto simp: revoke_acl_def bind_r_Inr split: option.splits if_splits)

lemma manager_calls:
  "create_role oid name keys rid p d = Inr d' \<Longrightarrow> may_manage p oid d"
  "update_role oid rid ks p d = Inr d' \<Longrightarrow> may_manage p oid d"
  "add_membership oid uid rid mid p d = Inr d' \<Longrightarrow> may_manage p oid d"
  "update_membership oid mid r status p d = Inr d' \<Longrightarrow> may_manage p oid d"
  by (auto simp: create_role_def update_role_def add_membership_def update_membership_def bind_r_Inr may_manage_def dest!: require_orgD)

lemma gain_needs_authority:
  assumes "directory_inv d" and "key \<in> set (organization_permissions q oid (directory_step h g dummy d c))"
    and "key \<notin> set (organization_permissions q oid d)"
  shows "(\<exists>p. role_admin c = Some p \<and> may_manage p oid d) \<or> founds c oid q d"
proof -
  have by_account: False if "tables (directory_step h g dummy d c) = tables d"
    using same_tables_permissions [OF that] assms(2,3) by simp
  have changed: "directory_step h g dummy d c \<noteq> d" using assms(2,3) by metis
  show ?thesis
  proof (cases c)
    case (Create_organization name i p)
    with changed obtain d' where "create_organization name i p d = Inr d'" "directory_step h g dummy d c = d'"
      using committed_cases [of d "create_organization name i p d"] by auto
    with founder_permissions [OF this(1) _ assms(3,1)] assms(2) Create_organization show ?thesis by (auto simp: founds_def)
  next
    case (Create_role oid' name keys rid p)
    with changed obtain d' where d': "create_role oid' name keys rid p d = Inr d'" "directory_step h g dummy d c = d'"
      using committed_cases [of d "create_role oid' name keys rid p d"] by auto
    then have "oid = oid'" using create_role_elsewhere [OF d'(1), of key q oid] assms(2,3) by auto
    with manager_calls(1) [OF d'(1)] Create_role show ?thesis by simp
  next
    case (Update_role oid' rid keys p)
    with changed obtain d' where d': "update_role oid' rid keys p d = Inr d'" "directory_step h g dummy d c = d'"
      using committed_cases [of d "update_role oid' rid keys p d"] by auto
    then have "oid = oid'" using update_role_elsewhere [OF d'(1), of key q oid] assms by auto
    with manager_calls(2) [OF d'(1)] Update_role show ?thesis by simp
  next
    case (Add_membership oid' uid rid mid p)
    with changed obtain d' where d': "add_membership oid' uid rid mid p d = Inr d'" "directory_step h g dummy d c = d'"
      using committed_cases [of d "add_membership oid' uid rid mid p d"] by auto
    then have "oid = oid'" using add_membership_elsewhere [OF d'(1), of key q oid] assms by auto
    with manager_calls(3) [OF d'(1)] Add_membership show ?thesis by simp
  next
    case (Update_membership oid' mid rid status p)
    with changed obtain d' where d': "update_membership oid' mid rid status p d = Inr d'" "directory_step h g dummy d c = d'"
      using committed_cases [of d "update_membership oid' mid rid status p d"] by auto
    then have "oid = oid'" using update_membership_elsewhere [OF d'(1), of key q oid] assms by auto
    with manager_calls(4) [OF d'(1)] Update_membership show ?thesis by simp
  next
    case (Delete_account current confirmation salt secret p now)
    with changed obtain d' where "delete_account h current confirmation salt secret p now d = Inr d'" "directory_step h g dummy d c = d'"
      using committed_cases [of d "delete_account h current confirmation salt secret p now d"] by auto
    with delete_account_permissions [OF this(1)] assms(2,3) show ?thesis by auto
  next
    case (Grant_acl w r aid p)
    with changed acl_permissions(1) [of w r aid p d] assms(2,3) show ?thesis
      using committed_cases [of d "grant_acl w r aid p d"] by auto
  next
    case (Revoke_acl w aid p now)
    with changed acl_permissions(2) [of w aid p now d] assms(2,3) show ?thesis
      using committed_cases [of d "revoke_acl w aid p now d"] by auto
  next
    case (Set_status i active p now)
    with by_account account_tables(2) [of i active p now d] changed show ?thesis
      using committed_cases [of d "update_user_status i active p now d"] by auto
  next
    case (Revoke_session i p now)
    with by_account account_tables(3) [of i p now d] changed show ?thesis
      using committed_cases [of d "revoke_session i p now d"] by auto
  next
    case (Change_password current new salt p now)
    with by_account account_tables(1) [of h current new salt p now d] changed show ?thesis
      using committed_cases [of d "change_password h current new salt p now d"] by auto
  next
    case (Create_user r admin uid wid salt p)
    with by_account account_tables(4) [of h r admin uid wid salt p d] changed show ?thesis
      using committed_cases [of d "create_user h r admin uid wid salt p d"] by auto
  qed (use by_account in auto)
qed

text \<open>
  C14. Nobody gains a permission by his own means. When a call of any kind makes a principal hold a
  permission in an organization that he did not hold there before, the caller was allowed to manage the
  roles or the members of that very organization, or the call founded the organization and the principal
  is its founder.
\<close>

theorem permission_gain_needs_authority:
  "directory_inv d \<Longrightarrow> key \<in> set (organization_permissions q oid (directory_step h g dummy d c)) \<Longrightarrow>
   key \<notin> set (organization_permissions q oid d) \<Longrightarrow>
   (\<exists>p. role_admin c = Some p \<and> may_manage p oid d) \<or> founds c oid q d"
  by (rule gain_needs_authority)

definition managed :: "string \<Rightarrow> directory \<Rightarrow> bool" where
  "managed oid d \<longleftrightarrow> list_ex (\<lambda>m. list_ex (\<lambda>r. mb_org m = oid \<and> mb_active m \<and> ro_id r = mb_role m \<and> ro_org r = oid \<and>
     (''organization.manage_members'' \<in> set (ro_keys r) \<or> ''organization.manage_roles'' \<in> set (ro_keys r))) (di_roles d)) (di_members d)"

lemma may_manage_managed: "may_manage p oid d \<Longrightarrow> managed oid d"
  unfolding may_manage_def organization_permissions_iff managed_def list_ex_iff by blast

lemma managed_may_manage:
  assumes "managed oid d"
  obtains q where "may_manage q oid d"
proof -
  from assms obtain m r where m: "m \<in> set (di_members d)" "mb_org m = oid" "mb_active m" and r: "r \<in> set (di_roles d)"
    "ro_id r = mb_role m" "ro_org r = oid"
    and key: "''organization.manage_members'' \<in> set (ro_keys r) \<or> ''organization.manage_roles'' \<in> set (ro_keys r)"
    unfolding managed_def list_ex_iff by blast
  let ?q = "\<lparr>pr_user = mb_user m, pr_tenant = mb_tenant m, pr_session = [], pr_admin = False, pr_must_change = False\<rparr>"
  have holds: "k \<in> set (ro_keys r) \<Longrightarrow> k \<in> set (organization_permissions ?q oid d)" for k
    unfolding organization_permissions_iff using m r by (intro bexI [of _ m] bexI [of _ r]) simp_all
  show thesis by (rule that [of ?q]) (use key holds in \<open>auto simp: may_manage_def\<close>)
qed

text \<open>An organization that exists and that nobody can manage.\<close>

definition orphaned :: "string \<Rightarrow> directory \<Rightarrow> bool" where
  "orphaned oid d \<longleftrightarrow> directory_inv d \<and> oid \<in> og_id ` set (di_orgs d) \<and> \<not> managed oid d"

lemma orgs_of_tables: "tables d' = tables d \<Longrightarrow> di_orgs d' = di_orgs d"
  by (simp add: tables_def)

lemma delete_account_orgs:
  assumes "delete_account h current confirmation salt secret p now d = Inr d'"
  shows "di_orgs d' = di_orgs d"
  using delete_account_result [OF assms] by (auto simp: set_user_def withdraw_rows_def Let_def revoke_where_def)

lemma admin_orgs:
  "create_role oid name keys rid p d = Inr d' \<Longrightarrow> di_orgs d' = di_orgs d"
  "update_role oid rid ks p d = Inr d' \<Longrightarrow> di_orgs d' = di_orgs d"
  "add_membership oid uid rid mid p d = Inr d' \<Longrightarrow> di_orgs d' = di_orgs d"
  "update_membership oid mid r status p d = Inr d' \<Longrightarrow> di_orgs d' = di_orgs d"
  "grant_acl w q aid p d = Inr d' \<Longrightarrow> di_orgs d' = di_orgs d"
  "revoke_acl w aid p now d = Inr d' \<Longrightarrow> di_orgs d' = di_orgs d"
  by (auto simp: create_role_def update_role_def bind_r_Inr revoke_acl_def split: option.splits if_splits
      elim!: add_membership_cases update_membershipD grant_aclD)

lemma committed_keeps: "(\<And>d'. r = Inr d' \<Longrightarrow> f d' = f d) \<Longrightarrow> f (committed d r) = f d"
  by (cases r) simp_all

lemma orgs_stay: "x \<in> og_id ` set (di_orgs d) \<Longrightarrow> x \<in> og_id ` set (di_orgs (directory_step h g dummy d c))"
proof -
  have "di_orgs (directory_step h g dummy d c) = di_orgs d \<or> (\<exists>name i p. c = Create_organization name i p)"
  proof (cases c)
  qed (auto intro!: committed_keeps [where f = di_orgs] intro: orgs_of_tables
      dest: admin_orgs delete_account_orgs account_tables [THEN orgs_of_tables])
  moreover have "x \<in> og_id ` set (di_orgs d')" if "create_organization name i p d = Inr d'" "x \<in> og_id ` set (di_orgs d)" for name i p d'
    using that by (auto simp: create_organization_def)
  ultimately show "x \<in> og_id ` set (di_orgs d) \<Longrightarrow> ?thesis" using committed_cases by (metis directory_step.simps(10))
qed

interpretation orphan_machine: step_machine "directory_step h g dummy" "orphaned oid"
proof unfold_locales
  fix d c
  assume o': "orphaned oid d"
  have "\<not> managed oid (directory_step h g dummy d c)"
  proof
    assume "managed oid (directory_step h g dummy d c)"
    then obtain q where "may_manage q oid (directory_step h g dummy d c)" by (rule managed_may_manage)
    then obtain key where key: "key \<in> set (organization_permissions q oid (directory_step h g dummy d c))"
      "key \<in> {''organization.manage_members'', ''organization.manage_roles''}" by (auto simp: may_manage_def)
    have "key \<notin> set (organization_permissions q oid d)"
      using o' may_manage_managed [of q oid d] key(2) by (auto simp: orphaned_def may_manage_def)
    from gain_needs_authority [OF _ key(1) this] o' show False
      by (auto simp: orphaned_def founds_def dest: may_manage_managed)
  qed
  with o' orgs_stay [of oid d h g dummy c] directory_step_inv [of d h g dummy c] show "orphaned oid (directory_step h g dummy d c)"
    unfolding orphaned_def by blast
qed

text \<open>
  C19. An organization nobody can manage stays so for good: no sequence of calls brings back a member who
  may manage its members or roles. \<open>update_membership\<close> leads there, as it refuses to revoke the owner's
  membership but not to give it another role.
\<close>

theorem unmanaged_organization_stays_unmanaged:
  "directory_inv d \<Longrightarrow> oid \<in> og_id ` set (di_orgs d) \<Longrightarrow> \<not> managed oid d \<Longrightarrow>
   \<not> managed oid (foldl (directory_step h g dummy) d cs)"
  using orphan_machine.run_inv [of oid d h g dummy cs] by (simp add: orphaned_def)

section \<open>Grants\<close>

lemma revoked_grants:
  assumes "directory_inv d" and "live_acls w ty i d = [a]" and "revoke_acl w (ra_id a) p now d = Inr d'"
  shows "live_acls w ty i d' = []" and "di_members d' = di_members d" and "di_roles d' = di_roles d" and "di_resources d' = di_resources d"
proof -
  from assms(2) have a: "a \<in> set (di_acls d)" "ra_revoked a = None" "ra_workspace a = ws_id w" "ra_tenant a = ws_tenant w"
    by (auto simp: live_acls_def filter_eq_Cons_iff)
  have d: "distinct (map ra_id (di_acls d))" using assms(1) by (simp add: directory_inv_def acls_ok_def)
  obtain b where b: "find (\<lambda>b. ra_id b = ra_id a \<and> ra_workspace b = ws_id w \<and> ra_tenant b = ws_tenant w) (di_acls d) = Some b"
    using assms(3) by (auto simp: revoke_acl_def bind_r_Inr split: option.splits)
  from findD [OF b] a(1) d have "b = a" by (auto simp: distinct_map dest: inj_onD)
  with b assms(3) a(2) have d': "d' = d\<lparr>di_acls := row_mod ra_id (ra_id a) (\<lambda>a. a\<lparr>ra_revoked := Some now\<rparr>) (di_acls d)\<rparr>"
    by (simp add: revoke_acl_def bind_r_Inr)
  have rows: "set (di_acls d') = insert (a\<lparr>ra_revoked := Some now\<rparr>) (set (di_acls d) - {a})"
    using row_mod_inj [OF d a(1), of "\<lambda>a. a\<lparr>ra_revoked := Some now\<rparr>"] by (simp add: d')
  from arg_cong [OF assms(2), of set] have "set (live_acls w ty i d) = {a}" by simp
  then have "set (live_acls w ty i d') = {}" unfolding live_acls_def set_filter rows by auto
  then show "live_acls w ty i d' = []" by simp
  show "di_members d' = di_members d" "di_roles d' = di_roles d" "di_resources d' = di_resources d" by (simp_all add: d')
qed

text \<open>
  Revoking the last grant of a resource opens it. A resource with one live grant can be reached by those
  the roles allow the permission and the grant names; once that grant is revoked, everyone whom the roles
  allow the permission has it, those whom the grant kept out included.
\<close>

lemma revoking_last_grant_reopens:
  assumes "directory_inv d" and "live_acls w ty i d = [a]" and "revoke_acl w (ra_id a) p now d = Inr d'"
  shows "(can_access_model q w ty i perm d \<longleftrightarrow> ty \<in> set resource_models \<and> resource_exists w ty i d \<and> (ws_owner w = pr_user q \<or>
      rbac_allows (workspace_permissions q w d) perm \<and> acl_grants q w (workspace_membership q w d) perm a)) \<and>
    (can_access_model q w ty i perm d' \<longleftrightarrow> ty \<in> set resource_models \<and> resource_exists w ty i d \<and> (ws_owner w = pr_user q \<or>
      rbac_allows (workspace_permissions q w d) perm))"
proof -
  from revoked_grants [OF assms] have "live_acls w ty i d' = []" "workspace_permissions q w d' = workspace_permissions q w d"
    "resource_exists w ty i d' = resource_exists w ty i d"
    by (simp_all add: workspace_permissions_def organization_permissions_def resource_exists_def split: option.split)
  then show ?thesis by (simp add: can_access_model_def assms(2))
qed

section \<open>Examples\<close>

definition bob :: user where
  "bob = \<lparr>us_id = ''bob'', us_tenant = ''t'', us_username = ''bob'', us_username_norm = ''bob'', us_email = None, us_email_norm = None,
     us_hash = ''secret34'', us_status = User_active, us_admin = False, us_must_change = False, us_failed = 0, us_locked = None\<rparr>"

definition bob_principal :: principal where
  "bob_principal = \<lparr>pr_user = ''bob'', pr_tenant = ''t'', pr_session = ''s7'', pr_admin = False, pr_must_change = False\<rparr>"

text \<open>The organization with a second user, and a goal in its workspace that only the owner is granted.\<close>

definition shared_directory :: directory where
  "shared_directory = directory_step plain_hasher sample_settings ''dummy''
     (lab_directory\<lparr>di_users := [sample_user, bob], di_resources := [\<lparr>rs_type = ''goal'', rs_id = ''g1'', rs_workspace = ''w1'', rs_goal = []\<rparr>]\<rparr>)
     (Add_membership ''o1'' ''bob'' ''r2'' ''m2'' sample_principal)"

definition lab_workspace :: workspace where
  "lab_workspace = \<lparr>ws_id = ''w1'', ws_tenant = ''t'', ws_owner = ''ada'', ws_org = Some ''o1'', ws_kind = ''organization''\<rparr>"

definition granted_directory :: directory where
  "granted_directory = directory_step plain_hasher sample_settings ''dummy'' shared_directory
     (Grant_acl lab_workspace \<lparr>aq_type = ''goal'', aq_resource = ''g1'', aq_gtype = ''user'', aq_grantee = ''ada'', aq_perms = [''read'']\<rparr> ''a1''
       sample_principal)"

lemma granted_directory_inv: "directory_inv granted_directory"
proof -
  have "directory_inv (lab_directory\<lparr>di_users := us, di_resources := rs\<rparr>)" for us rs
    by (rule tables_inv [OF _ lab_directory_inv]) (simp add: tables_def)
  then show ?thesis unfolding granted_directory_def shared_directory_def by (intro directory_step_inv)
qed

text \<open>The only grant of the goal.\<close>

definition lab_grant :: resource_acl where
  "lab_grant = \<lparr>ra_id = ''a1'', ra_workspace = ''w1'', ra_tenant = ''t'', ra_type = ''goal'', ra_resource = ''g1'', ra_gtype = ''user'',
     ra_grantee = ''ada'', ra_perms = [''read''], ra_revoked = None\<rparr>"

theorem permission_gain_needs_authority_witness:
  "''workspace.write'' \<in> set (organization_permissions bob_principal ''o1'' shared_directory) \<and> may_manage sample_principal ''o1''
     (lab_directory\<lparr>di_users := [sample_user, bob], di_resources := [\<lparr>rs_type = ''goal'', rs_id = ''g1'', rs_workspace = ''w1'', rs_goal = []\<rparr>]\<rparr>)"
proof
  let ?d = "lab_directory\<lparr>di_users := [sample_user, bob], di_resources := [\<lparr>rs_type = ''goal'', rs_id = ''g1'', rs_workspace = ''w1'', rs_goal = []\<rparr>]\<rparr>"
  show gained: "''workspace.write'' \<in> set (organization_permissions bob_principal ''o1'' shared_directory)" by code_simp
  have inv: "directory_inv ?d" by (rule tables_inv [OF _ lab_directory_inv]) (simp add: tables_def)
  have "''workspace.write'' \<notin> set (organization_permissions bob_principal ''o1'' ?d)" by code_simp
  from permission_gain_needs_authority [OF inv gained [unfolded shared_directory_def] this]
  show "may_manage sample_principal ''o1'' ?d" by (auto simp: founds_def)
qed

theorem unmanaged_organization_stays_unmanaged_witness:
  "managed ''o1'' lab_directory \<and>
   \<not> managed ''o1'' (foldl (directory_step plain_hasher sample_settings ''dummy'')
     (directory_step plain_hasher sample_settings ''dummy'' lab_directory demote_owner) [promote_owner])"
proof
  show "managed ''o1'' lab_directory" by code_simp
  have "directory_inv (directory_step plain_hasher sample_settings ''dummy'' lab_directory demote_owner)" by (rule directory_step_inv) (rule lab_directory_inv)
  moreover have "''o1'' \<in> og_id ` set (di_orgs (directory_step plain_hasher sample_settings ''dummy'' lab_directory demote_owner))" by code_simp
  moreover have "\<not> managed ''o1'' (directory_step plain_hasher sample_settings ''dummy'' lab_directory demote_owner)" by code_simp
  ultimately show "\<not> managed ''o1'' (foldl (directory_step plain_hasher sample_settings ''dummy'')
     (directory_step plain_hasher sample_settings ''dummy'' lab_directory demote_owner) [promote_owner])"
    by (rule unmanaged_organization_stays_unmanaged)
qed

end
