(* ===== verification/Agent_Profiles.thy ===== *)
theory Agent_Profiles
  imports Network_Policy
begin

text \<open>
  Execution profiles of sub-agents: \<open>backend/app/services/agent_execution_profiles.py\<close>. A profile fixes, from the
  role and the tools a task asks for, which tools it may use, in which lane it runs, whether it is taken as
  read-only and which network capability its tools need. Role and tools come from stored JSON, so a value of
  any kind is accounted for.
\<close>

section \<open>Roles and capabilities\<close>

datatype agent_role = Research | Reason | Tool_agent | Generic

datatype tool_mode = Mode_default | Mode_none | Mode_allowlist

datatype profile_error = Profile_error string | Profile_type_error

fun capability_rank :: "capability \<Rightarrow> nat" where
  "capability_rank OFFLINE = 0"
| "capability_rank FETCH = 1"
| "capability_rank BROWSER = 2"
| "capability_rank RESTRICTED_EGRESS = 3"

definition tool_requirements :: "(string \<times> capability) list" where
  "tool_requirements = [(''search_web'', FETCH), (''parallel_web_research'', FETCH), (''fetch_web_page'', FETCH),
     (''download_external_image'', FETCH), (''download_github_source'', FETCH), (''sandbox_search_web'', FETCH),
     (''sandbox_fetch'', FETCH), (''sandbox_download'', FETCH), (''sandbox_git_clone'', RESTRICTED_EGRESS)]"

definition offline_safe_tools :: "string list" where
  "offline_safe_tools = [''get_current_time'', ''ui_stream'', ''list_session_files'', ''read_session_file'', ''sandbox_env_info'',
     ''sandbox_list_files'', ''sandbox_grep'', ''sandbox_read_file'', ''sandbox_write_file'', ''sandbox_append_file'',
     ''sandbox_edit_file'', ''sandbox_delete_file'', ''sandbox_exec'', ''sandbox_bash'', ''sandbox_todo'', ''sandbox_apply_patch'',
     ''sandbox_git'', ''sandbox_skill_list'', ''sandbox_skill_read'', ''sandbox_notebook'', ''sandbox_pipeline'',
     ''sandbox_publish_file'', ''sandbox_publish_image'', ''sandbox_video_info'', ''sandbox_transcribe_audio'']"

text \<open>\<open>normalize_network_capability\<close> of this module: an empty value is \<open>OFFLINE\<close>, an unknown one an error.\<close>

definition capability_names :: "(string \<times> capability) list" where
  "capability_names = [(''OFFLINE'', OFFLINE), (''FETCH'', FETCH), (''BROWSER'', BROWSER), (''RESTRICTED_EGRESS'', RESTRICTED_EGRESS)]"

definition profile_capability :: "string option \<Rightarrow> profile_error + capability" where
  "profile_capability v =
     (let given = (case v of None \<Rightarrow> ''OFFLINE'' | Some s \<Rightarrow> if s = [] then ''OFFLINE'' else s) in
      case map_of capability_names (map upper_char (strip given)) of
        None \<Rightarrow> Inl (Profile_error ''unsupported_network_capability'')
      | Some c \<Rightarrow> Inr c)"

definition clamp_network_capability :: "capability \<Rightarrow> string option \<Rightarrow> profile_error + capability" where
  "clamp_network_capability granted requested =
     (case requested of
       None \<Rightarrow> Inr granted
     | Some s \<Rightarrow> bind_r (profile_capability (Some s)) (\<lambda>r.
         Inr (if capability_rank r < capability_rank granted then r else granted)))"

definition tool_network_requirement :: "string \<Rightarrow> capability" where
  "tool_network_requirement name =
     (let n = strip name in
      if take 8 n = ''browser_'' then BROWSER
      else (case map_of tool_requirements n of
          Some c \<Rightarrow> c
        | None \<Rightarrow> if n \<in> set offline_safe_tools then OFFLINE else RESTRICTED_EGRESS))"

definition network_capability_allows_tool :: "capability \<Rightarrow> string \<Rightarrow> bool" where
  "network_capability_allows_tool c tool \<longleftrightarrow> capability_rank (tool_network_requirement tool) \<le> capability_rank c"

definition raise_requirement :: "capability \<Rightarrow> string \<Rightarrow> capability" where
  "raise_requirement c tool = (let k = tool_network_requirement tool in
     if capability_rank c < capability_rank k then k else c)"

definition required_network_capability :: "string list \<Rightarrow> capability" where
  "required_network_capability tools = foldl raise_requirement OFFLINE tools"

section \<open>Tools of a role\<close>

definition generic_tools :: "string list" where
  "generic_tools = [''sandbox_env_info'', ''sandbox_list_files'', ''sandbox_grep'', ''sandbox_read_file'', ''sandbox_write_file'',
     ''sandbox_append_file'', ''sandbox_edit_file'', ''sandbox_delete_file'', ''sandbox_exec'', ''sandbox_bash'', ''sandbox_todo'',
     ''sandbox_apply_patch'', ''sandbox_git'', ''sandbox_skill_list'', ''sandbox_skill_read'']"

definition research_tool_names :: "string list" where
  "research_tool_names = [''search_web'', ''fetch_web_page'', ''sandbox_download'', ''parallel_web_research'']"

definition read_only_tools :: "string list" where
  "read_only_tools = [''get_current_time'', ''search_web'', ''parallel_web_research'', ''fetch_web_page'', ''search_images'',
     ''list_session_files'', ''read_session_file'', ''sandbox_env_info'', ''sandbox_list_files'', ''sandbox_grep'',
     ''sandbox_read_file'', ''sandbox_skill_list'', ''sandbox_skill_read'']"

definition role_aliases :: "(string \<times> agent_role) list" where
  "role_aliases = [(''research'', Research), (''researcher'', Research), (''research_agent'', Research), (''reason'', Reason),
     (''reasoner'', Reason), (''reason_agent'', Reason), (''tool'', Tool_agent), (''tool_agent'', Tool_agent),
     (''generic'', Generic), (''sandbox'', Generic)]"

fun role_defaults :: "agent_role \<Rightarrow> string list" where
  "role_defaults Research = research_tool_names"
| "role_defaults Reason = []"
| "role_defaults Tool_agent = []"
| "role_defaults Generic = generic_tools"

fun role_allowed :: "agent_role \<Rightarrow> string list option" where
  "role_allowed Research = Some research_tool_names"
| "role_allowed Reason = Some []"
| "role_allowed Tool_agent = None"
| "role_allowed Generic = None"

fun role_thinking :: "agent_role \<Rightarrow> string" where
  "role_thinking Reason = ''high''"
| "role_thinking _ = ''medium''"

text \<open>\<open>str(value or default)\<close>\<close>

definition text_or :: "string \<Rightarrow> json \<Rightarrow> string" where
  "text_or v0 j = (if truthy j then py_str j else v0)"

definition normalize_agent_role :: "json \<Rightarrow> agent_role" where
  "normalize_agent_role j = (case map_of role_aliases (casefold (strip (text_or ''generic'' j))) of
      None \<Rightarrow> Generic | Some r \<Rightarrow> r)"

definition thinking_order :: "string list" where
  "thinking_order = [''off'', ''low'', ''medium'', ''high'', ''xhigh'']"

definition thinking_aliases :: "(string \<times> string) list" where
  "thinking_aliases = [(''none'', ''off''), (''fast'', ''off''), (''max'', ''xhigh'')]"

definition normalize_thinking_mode :: "json \<Rightarrow> string \<Rightarrow> profile_error + string" where
  "normalize_thinking_mode j v0 =
     (let s = casefold (strip (text_or v0 j)); n = dict_get thinking_aliases s s in
      if n \<in> set thinking_order then Inr n else Inl (Profile_error ''unsupported_thinking_mode''))"

text \<open>The requested mode, then the lower ones down to \<open>off\<close>.\<close>

fun lower_modes :: "string \<Rightarrow> string list \<Rightarrow> string list" where
  "lower_modes m [] = []"
| "lower_modes m (x # xs) = (if x = m then [] else x # lower_modes m xs)"

definition fallback_thinking_modes :: "json \<Rightarrow> string \<Rightarrow> profile_error + string list" where
  "fallback_thinking_modes j v0 = bind_r (normalize_thinking_mode j v0) (\<lambda>m.
     Inr (fromkeys (m # rev (lower_modes m thinking_order))))"

definition tool_name_char :: "char \<Rightarrow> bool" where
  "tool_name_char c \<longleftrightarrow> is_ascii c \<and> (is_upper c \<or> is_lower c \<or> is_digit c \<or> c \<in> set ''_.:-'')"

definition tool_name_ok :: "string \<Rightarrow> bool" where
  "tool_name_ok n \<longleftrightarrow> 1 \<le> length n \<and> length n \<le> 128 \<and> list_all tool_name_char n"

fun normalize_tool_names :: "string list \<Rightarrow> json list \<Rightarrow> profile_error + string list" where
  "normalize_tool_names acc [] = Inr acc"
| "normalize_tool_names acc (raw # rest) =
     (let name = strip (text_or [] raw) in
      if name = [] then normalize_tool_names acc rest
      else require (tool_name_ok name) (Profile_error ''invalid_tool_name'')
        (normalize_tool_names (if name \<in> set acc then acc else acc @ [name]) rest))"

section \<open>Profiles\<close>

record profile =
  pf_role :: agent_role
  pf_mode :: tool_mode
  pf_tools :: "string list"
  pf_thinking :: string
  pf_lane :: string
  pf_read_only :: bool
  pf_capability :: capability

definition available_tools :: "profile \<Rightarrow> string list \<Rightarrow> string list" where
  "available_tools p av = filter (\<lambda>n. n \<in> set av) (pf_tools p)"

definition missing_tools :: "profile \<Rightarrow> string list \<Rightarrow> string list" where
  "missing_tools p av = filter (\<lambda>n. n \<notin> set av) (pf_tools p)"

text \<open>What \<open>for raw in tools\<close> runs over: a string gives its characters, a dict its keys.\<close>

fun tool_items :: "json \<Rightarrow> json list option" where
  "tool_items (JList xs) = Some xs"
| "tool_items (JStr s) = Some (map (\<lambda>c. JStr [c]) s)"
| "tool_items (JDict d) = Some (map (JStr \<circ> fst) d)"
| "tool_items _ = None"

definition selected_tools :: "agent_role \<Rightarrow> json \<Rightarrow> profile_error + tool_mode \<times> string list" where
  "selected_tools role tools =
     (if tools = JNull then Inr (Mode_default, role_defaults role)
      else (case tool_items tools of
          None \<Rightarrow> Inl Profile_type_error
        | Some xs \<Rightarrow> if xs = [] then Inr (Mode_none, [])
            else bind_r (normalize_tool_names [] xs) (\<lambda>names. Inr (Mode_allowlist, names))))"

definition execution_lane :: "agent_role \<Rightarrow> string list \<Rightarrow> string" where
  "execution_lane role tools =
     (if role \<in> {Research, Reason} then ''model_network''
      else if tools = [] then ''model_network''
      else if set tools \<subseteq> set read_only_tools then ''model_network''
      else ''sandbox'')"

definition resolve_profile :: "json \<Rightarrow> json \<Rightarrow> bool \<Rightarrow> profile_error + profile" where
  "resolve_profile role_key tools inherit =
     (let role = normalize_agent_role role_key in
      bind_r (selected_tools role tools) (\<lambda>(mode, names).
        require (inherit \<or> (\<forall>allowed \<in> set_option (role_allowed role). list_all (\<lambda>n. n \<in> set allowed) names))
          (Profile_error ''role_does_not_allow_tools'')
        (Inr \<lparr>pf_role = role, pf_mode = mode, pf_tools = names, pf_thinking = role_thinking role, pf_lane = execution_lane role names,
           pf_read_only = (role \<in> {Research, Reason} \<or> names \<noteq> [] \<and> set names \<subseteq> set read_only_tools),
           pf_capability = required_network_capability names\<rparr>)))"

definition requires_sandbox_capacity :: "json \<Rightarrow> json \<Rightarrow> json \<Rightarrow> profile_error + bool" where
  "requires_sandbox_capacity role_key tools lane =
     (let l = strip (text_or [] lane) in
      if l \<in> {''model_network'', ''sandbox''} then Inr (l = ''sandbox'')
      else bind_r (resolve_profile role_key tools False) (\<lambda>p. Inr (pf_lane p = ''sandbox'')))"

section \<open>What a profile promises\<close>

lemma raise_requirement_rank: "capability_rank (raise_requirement c t) = max (capability_rank c) (capability_rank (tool_network_requirement t))"
  by (simp add: raise_requirement_def Let_def max_def)

lemma required_rank: "capability_rank (foldl raise_requirement c ts) = Max (insert (capability_rank c) ((capability_rank \<circ> tool_network_requirement) ` set ts))"
proof (induction ts arbitrary: c)
  case (Cons t ts)
  show ?case by (simp add: Cons.IH raise_requirement_rank max.commute max.left_commute max.assoc) (cases ts; simp add: max.left_commute max.assoc)
qed simp

lemma capability_rank_inj: "capability_rank c = capability_rank d \<longleftrightarrow> c = d"
  by (cases c; cases d) simp_all

lemma required_covers: "t \<in> set ts \<Longrightarrow> network_capability_allows_tool (required_network_capability ts) t"
  by (simp add: network_capability_allows_tool_def required_network_capability_def required_rank)

lemma required_least: "(\<And>t. t \<in> set ts \<Longrightarrow> network_capability_allows_tool c t) \<Longrightarrow> capability_rank (required_network_capability ts) \<le> capability_rank c"
  by (simp add: network_capability_allows_tool_def required_network_capability_def required_rank)

lemma names_distinct: "normalize_tool_names acc xs = Inr ns \<Longrightarrow> distinct acc \<Longrightarrow> distinct ns \<and> set acc \<subseteq> set ns"
  by (induction acc xs rule: normalize_tool_names.induct) (auto simp: Let_def split: if_splits)

lemma defaults_distinct: "distinct (role_defaults r)"
  by (cases r) (simp_all add: research_tool_names_def generic_tools_def)

lemma defaults_allowed: "role_allowed r = Some ts \<Longrightarrow> set (role_defaults r) \<subseteq> set ts"
  by (cases r) simp_all

lemma selected_distinct: "selected_tools role tools = Inr (m, ns) \<Longrightarrow> distinct ns"
  by (auto simp: selected_tools_def bind_r_Inr defaults_distinct split: if_splits option.splits dest: names_distinct)

lemma resolved:
  assumes "resolve_profile role_key tools inherit = Inr p"
  shows "selected_tools (pf_role p) tools = Inr (pf_mode p, pf_tools p)" and "pf_lane p = execution_lane (pf_role p) (pf_tools p)"
    and "pf_capability p = required_network_capability (pf_tools p)"
    and "pf_read_only p \<longleftrightarrow> pf_role p \<in> {Research, Reason} \<or> pf_tools p \<noteq> [] \<and> set (pf_tools p) \<subseteq> set read_only_tools"
    and "\<not> inherit \<Longrightarrow> role_allowed (pf_role p) = Some allowed \<Longrightarrow> set (pf_tools p) \<subseteq> set allowed"
  using assms by (auto simp: resolve_profile_def Let_def bind_r_Inr list_all_iff)

lemma sandbox_lane: "execution_lane role ts = ''sandbox'' \<longleftrightarrow> role \<notin> {Research, Reason} \<and> ts \<noteq> [] \<and> \<not> set ts \<subseteq> set read_only_tools"
  by (simp add: execution_lane_def)

lemma research_read_only: "set research_tool_names \<subseteq> insert ''sandbox_download'' (set read_only_tools)"
  by (simp add: research_tool_names_def read_only_tools_def)

text \<open>
  C24. A resolved profile grants the least network capability that covers its tools, lists no tool twice and
  is put on the sandbox lane exactly when its own flag does not make it read-only and it has tools; that flag
  follows the role when permissions are inherited, and then need not say whether the tools write. A task that inherits nothing gets, as
  a reasoning agent, no tool, as a research agent only the research tools, and outside the sandbox only
  read-only tools or the download.
\<close>

theorem profile_is_least_privilege:
  assumes "resolve_profile role_key tools inherit = Inr p"
  shows "(\<forall>t \<in> set (pf_tools p). network_capability_allows_tool (pf_capability p) t) \<and>
    (\<forall>c. (\<forall>t \<in> set (pf_tools p). network_capability_allows_tool c t) \<longrightarrow> capability_rank (pf_capability p) \<le> capability_rank c) \<and>
    distinct (pf_tools p) \<and> (pf_lane p = ''sandbox'' \<longleftrightarrow> \<not> pf_read_only p \<and> pf_tools p \<noteq> []) \<and>
    (\<not> inherit \<longrightarrow> (pf_role p = Reason \<longrightarrow> pf_tools p = []) \<and> (pf_role p = Research \<longrightarrow> set (pf_tools p) \<subseteq> set research_tool_names) \<and>
      (pf_lane p \<noteq> ''sandbox'' \<longrightarrow> set (pf_tools p) \<subseteq> insert ''sandbox_download'' (set read_only_tools)))"
proof -
  note r = resolved [OF assms]
  have lane: "pf_lane p = ''sandbox'' \<longleftrightarrow> \<not> pf_read_only p \<and> pf_tools p \<noteq> []" by (auto simp: r(2,4) sandbox_lane)
  have reason: "pf_tools p = []" if "\<not> inherit" "pf_role p = Reason" using r(5) [OF that(1), of "[]"] that(2) by simp
  have research: "set (pf_tools p) \<subseteq> set research_tool_names" if "\<not> inherit" "pf_role p = Research"
    using r(5) [OF that(1), of research_tool_names] that(2) by simp
  have outside: "set (pf_tools p) \<subseteq> insert ''sandbox_download'' (set read_only_tools)" if "\<not> inherit" "pf_lane p \<noteq> ''sandbox''"
  proof (cases "pf_role p \<in> {Research, Reason}")
    case True
    then show ?thesis using reason [OF that(1)] research [OF that(1)] research_read_only by (cases "pf_role p = Reason") auto
  next
    case False
    with that(2) show ?thesis unfolding r(2) sandbox_lane by auto
  qed
  show ?thesis using required_covers [of _ "pf_tools p"] required_least [of "pf_tools p"] selected_distinct [OF r(1)] lane reason research outside
    unfolding r(3) by blast
qed

text \<open>
  A sub-agent is always resolved with inherited permissions, and then a reasoning agent with a shell counts
  as read-only work for the model's network lane: the scheduler asks for no sandbox capacity for a task that
  runs commands in one. The same task without inheritance is refused.
\<close>

lemma inherited_tools_skip_sandbox:
  "map_sum id (\<lambda>p. (pf_tools p, pf_lane p, pf_read_only p)) (resolve_profile (JStr ''reason'') (JList [JStr ''sandbox_bash'']) True) =
     Inr ([''sandbox_bash''], ''model_network'', True) \<and>
   resolve_profile (JStr ''reason'') (JList [JStr ''sandbox_bash'']) False = Inl (Profile_error ''role_does_not_allow_tools'') \<and>
   requires_sandbox_capacity (JStr ''reason'') (JList [JStr ''sandbox_bash'']) (JStr ''model_network'') = Inr False \<and>
   requires_sandbox_capacity (JStr ''tool'') (JList [JStr ''sandbox_bash'']) (JStr ''sandbox'') = Inr True"
  by code_simp

theorem profile_is_least_privilege_witness:
  "\<exists>p. resolve_profile (JStr '' Research '') JNull False = Inr p \<and> pf_role p = Research \<and> set (pf_tools p) \<subseteq> set research_tool_names \<and> distinct (pf_tools p)"
proof -
  have "map_sum id pf_role (resolve_profile (JStr '' Research '') JNull False) = Inr Research" by code_simp
  then obtain p where "resolve_profile (JStr '' Research '') JNull False = Inr p" "pf_role p = Research"
    by (cases "resolve_profile (JStr '' Research '') JNull False") auto
  with profile_is_least_privilege [OF this(1)] show ?thesis by blast
qed

end
