(* ===== verification/Sandbox_Jobs.thy ===== *)
theory Sandbox_Jobs
  imports Complex_Main Agent_Profiles
begin

text \<open>
  The scheduler of sandbox work, \<open>backend/app/services/sandbox_scheduler.py\<close>, and the sub-agent operations of
  \<open>services/sandbox_toolkit.py\<close> that submit to it. Jobs, durable sub-agent tasks, their events and the
  reservations are tables; a worker thread runs a claimed job in the steps between which other sessions
  commit: admission, dispatch, start, settlement, end, release. Where a worker checks the rows and then lets a job
  run or finish in a later statement, the check and the write are two steps, and what the thread holds in memory
  between them is part of the state; all other writes (a job sent back to the queue, failed or cancelled) are one
  step with the reads before them. What runs between start and settlement (the model loop, the container) is an
  outcome handed to the settlement; the host's probe is an argument. Event payloads and titles are left out: no decision reads them.
\<close>

section \<open>Tables\<close>

datatype run_status =
    R_queued | R_starting | R_running | R_paused | R_succeeded | R_partial | R_failed | R_timed_out
  | R_cancelled | R_stale | R_interrupted | R_expired | R_retrying

record sjob =
  sj_id :: string
  sj_workspace :: string
  sj_owner :: string
  sj_chat :: string
  sj_kind :: string
  sj_payload :: "(string \<times> json) list"
  sj_status :: run_status
  sj_reason :: "string option"
  sj_priority :: int
  sj_key :: "string option"
  sj_attempt :: int
  sj_queued :: instant
  sj_available :: instant
  sj_started :: "instant option"
  sj_finished :: "instant option"
  sj_deadline :: "instant option"
  sj_cancel :: bool
  sj_error :: "string option"
  sj_message :: "string option"

record agent_task =
  at_id :: string
  at_workspace :: string
  at_owner :: string
  at_name :: string
  at_chat :: string
  at_session :: json
  at_role :: string
  at_status :: run_status
  at_reason :: "string option"
  at_spec :: "(string \<times> json) list"
  at_job :: "string option"
  at_attempts :: "(run_status \<times> string option) list"
  at_deliverables :: json
  at_result :: string
  at_seq :: nat
  at_started :: "instant option"
  at_finished :: "instant option"

record agent_event =
  ae_task :: string
  ae_seq :: nat
  ae_type :: string

datatype hold_status = Hold_held | Hold_released | Hold_expired

record capacity_hold =
  rv_id :: string
  rv_job :: string
  rv_status :: hold_status
  rv_expires :: instant
  rv_released :: "instant option"

record subagent_outcome =
  so_status :: run_status
  so_error :: "string option"
  so_message :: "string option"
  so_deliverables :: json
  so_summary :: "string option"

text \<open>
  What a worker thread remembers between two statements: a job that has passed its checks and is to be started (with
  its task and the attempt read), or one whose end is decided (with the outcome, the status, whether it is
  retried, and the attempts of the task and of the job as they were read).
\<close>

datatype worker =
    Subagent_cleared string string int
  | Command_cleared string
  | Subagent_ending string string subagent_outcome run_status bool "(run_status \<times> string option) list" int
  | Command_ending string run_status "string option" "string option"

record pool =
  po_jobs :: "sjob list"
  po_tasks :: "agent_task list"
  po_events :: "agent_event list"
  po_holds :: "capacity_hold list"
  po_threads :: "worker list"

definition terminal_task_statuses :: "run_status list" where
  "terminal_task_statuses = [R_succeeded, R_partial, R_failed, R_timed_out, R_cancelled, R_stale, R_interrupted]"

definition terminal_job_statuses :: "run_status list" where
  "terminal_job_statuses = [R_succeeded, R_failed, R_cancelled, R_expired]"

definition set_job :: "string \<Rightarrow> (sjob \<Rightarrow> sjob) \<Rightarrow> pool \<Rightarrow> pool" where
  "set_job i f s = s\<lparr>po_jobs := row_mod sj_id i f (po_jobs s)\<rparr>"

definition set_task :: "string \<Rightarrow> (agent_task \<Rightarrow> agent_task) \<Rightarrow> pool \<Rightarrow> pool" where
  "set_task i f s = s\<lparr>po_tasks := row_mod at_id i f (po_tasks s)\<rparr>"

text \<open>\<open>append_agent_event\<close>: the sequence number is drawn from the task's row in the same statement.\<close>

definition append_agent_event :: "string \<Rightarrow> string \<Rightarrow> pool \<Rightarrow> pool" where
  "append_agent_event i ty s = (case row_get at_id i (po_tasks s) of
      None \<Rightarrow> s
    | Some t \<Rightarrow> (set_task i (\<lambda>t. t\<lparr>at_seq := at_seq t + 1\<rparr>) s)
        \<lparr>po_events := po_events s @ [\<lparr>ae_task = i, ae_seq = at_seq t + 1, ae_type = ty\<rparr>]\<rparr>)"

text \<open>The task a job's payload names, when the name is a string.\<close>

definition payload_task :: "sjob \<Rightarrow> pool \<Rightarrow> agent_task option" where
  "payload_task j s = (case jget (sj_payload j) ''task_id'' of JStr i \<Rightarrow> row_get at_id i (po_tasks s) | _ \<Rightarrow> None)"

text \<open>A change of the task of a job and the event that reports it, where the task satisfies a condition.\<close>

definition with_task :: "sjob \<Rightarrow> (agent_task \<Rightarrow> bool) \<Rightarrow> (agent_task \<Rightarrow> agent_task) \<Rightarrow> string \<Rightarrow> pool \<Rightarrow> pool" where
  "with_task j cond f ty s = (case payload_task j s of
      None \<Rightarrow> s
    | Some t \<Rightarrow> if cond t then append_agent_event (at_id t) ty (set_task (at_id t) f s) else s)"

definition open_task :: "agent_task \<Rightarrow> bool" where
  "open_task t \<longleftrightarrow> at_status t \<notin> set terminal_task_statuses"

section \<open>Capacity\<close>

record pool_settings =
  ps_queue_deadline :: int
  ps_default_depth :: int
  ps_ttl :: int
  ps_quota_chat :: int
  ps_quota_user :: int
  ps_quota_workspace :: int
  ps_hard_instances :: int
  ps_default_instances :: int
  ps_active_per_user :: int
  ps_hard_parallel :: int
  ps_default_parallel :: int
  ps_host_max :: int
  ps_pooling :: bool
  ps_memory :: int
  ps_memory_ratio :: rat
  ps_cpus :: rat
  ps_cpu_ratio :: rat
  ps_host_cpus :: int
  ps_host_memory :: int
  ps_min_disk :: int
  ps_watermark :: rat

text \<open>The keys of the workspace setting that count; a null is dropped.\<close>

definition scheduling_policy :: "json option \<Rightarrow> (string \<times> json) list" where
  "scheduling_policy setting = (case setting of
      Some (JDict raw) \<Rightarrow> map (\<lambda>k. (k, jget raw k)) (filter (\<lambda>k. jget raw k \<noteq> JNull)
        [''max_instances_per_user'', ''max_parallel_execs_per_instance'', ''queue_depth_per_user'', ''user_weight'', ''profiles''])
    | _ \<Rightarrow> [])"

text \<open>\<open>isinstance(v, int) and not isinstance(v, bool) and v > 0\<close>\<close>

fun positive_int :: "json \<Rightarrow> int option" where
  "positive_int (JInt i) = (if 0 < i then Some i else None)"
| "positive_int _ = None"

definition effective_max_instances :: "pool_settings \<Rightarrow> (string \<times> json) list \<Rightarrow> int" where
  "effective_max_instances g p =
     (let wanted = (case positive_int (jget p ''max_instances_per_user'') of
          Some i \<Rightarrow> min i (ps_hard_instances g) | None \<Rightarrow> ps_default_instances g)
      in min (ps_hard_instances g) (min wanted (ps_active_per_user g)))"

definition effective_max_parallel :: "pool_settings \<Rightarrow> (string \<times> json) list \<Rightarrow> int" where
  "effective_max_parallel g p =
     (let wanted = (case positive_int (jget p ''max_parallel_execs_per_instance'') of
          Some i \<Rightarrow> min i (ps_hard_parallel g) | None \<Rightarrow> ps_default_parallel g)
      in min (ps_hard_parallel g) wanted)"

definition effective_queue_depth :: "pool_settings \<Rightarrow> (string \<times> json) list \<Rightarrow> int" where
  "effective_queue_depth g p = (case positive_int (jget p ''queue_depth_per_user'') of
      Some i \<Rightarrow> max 1 i | None \<Rightarrow> ps_default_depth g)"

definition queue_depth :: "string \<Rightarrow> pool \<Rightarrow> int" where
  "queue_depth owner s = int (length (filter (\<lambda>j. sj_owner j = owner \<and> sj_status j \<in> {R_queued, R_starting}) (po_jobs s)))"

record sandbox_instance =
  in_id :: string
  in_owner :: string
  in_workspace :: string
  in_ref :: "string option"
  in_profile :: string
  in_state :: string
  in_active :: int
  in_max :: int

record sandbox_session =
  ss_id :: string
  ss_owner :: string
  ss_workspace :: string
  ss_chat :: string
  ss_state :: string
  ss_ref :: "string option"
  ss_command :: "string option"
  ss_created :: instant

text \<open>
  What the host tells: one snapshot with totals and pressure, or two calls for them; a call that raises gives
  nothing.
\<close>

datatype probe =
    Snapshot "(string \<times> int) list option"
  | Two_calls "(int \<times> int) option" "(string \<times> int) list option"

record host =
  ho_instances :: "sandbox_instance list"
  ho_sessions :: "sandbox_session list"
  ho_probe :: probe
  ho_free :: int
  ho_policies :: "(string \<times> json) list"

definition live_instances :: "host \<Rightarrow> sandbox_instance list" where
  "live_instances h = filter (\<lambda>i. in_state i \<in> {''PROVISIONING'', ''READY'', ''BUSY'', ''SATURATED''}) (ho_instances h)"

definition some_ref :: "string option \<Rightarrow> bool" where
  "some_ref r \<longleftrightarrow> (case r of None \<Rightarrow> False | Some x \<Rightarrow> x \<noteq> [])"

definition legacy_sessions :: "host \<Rightarrow> sandbox_session list" where
  "legacy_sessions h = filter (\<lambda>s. ss_state s \<in> {''STARTING'', ''RUNNING'', ''WARM_IDLE''} \<and> ss_ref s \<noteq> None \<and>
     ss_ref s \<notin> in_ref ` set (filter (\<lambda>i. some_ref (in_ref i)) (live_instances h))) (ho_sessions h)"

definition reusable_instance :: "pool_settings \<Rightarrow> host \<Rightarrow> string \<Rightarrow> string \<Rightarrow> string option \<Rightarrow> sandbox_instance option" where
  "reusable_instance g h actor ws runtime = (case runtime of
      None \<Rightarrow> None
    | Some r \<Rightarrow> if r = [] \<or> ws = [] \<or> \<not> ps_pooling g then None
        else find (\<lambda>i. in_owner i = actor \<and> in_workspace i = ws \<and> in_profile i = r \<and> some_ref (in_ref i) \<and> in_active i < in_max i)
          (live_instances h))"

definition host_totals :: "pool_settings \<Rightarrow> host \<Rightarrow> int \<times> int" where
  "host_totals g h = (case ho_probe h of
      Snapshot (Some d) \<Rightarrow> (dict_get d ''cpu_count'' 0, dict_get d ''memory_bytes'' 0)
    | Two_calls (Some t) _ \<Rightarrow> t
    | _ \<Rightarrow> (ps_host_cpus g, ps_host_memory g))"

definition host_pressure :: "host \<Rightarrow> (string \<times> int) list option" where
  "host_pressure h = (case ho_probe h of Snapshot d \<Rightarrow> d | Two_calls _ d \<Rightarrow> d)"

definition under_pressure :: "pool_settings \<Rightarrow> host \<Rightarrow> bool" where
  "under_pressure g h = (case host_pressure h of
      None \<Rightarrow> False
    | Some d \<Rightarrow>
        (let total = (if dict_get d ''host_memory_bytes'' 0 \<noteq> 0 then dict_get d ''host_memory_bytes'' 0 else dict_get d ''memory_bytes'' 0) in
         0 < total \<and> ps_watermark g < of_int (dict_get d ''observed_memory_bytes'' 0) / of_int total))"

text \<open>\<open>(ok, reason, retry_after_seconds)\<close>; the ratios are rationals.\<close>

definition evaluate_capacity :: "pool_settings \<Rightarrow> host \<Rightarrow> string \<Rightarrow> string option \<Rightarrow> string \<Rightarrow> string option \<Rightarrow> bool \<times> string option \<times> int" where
  "evaluate_capacity g h actor own ws runtime =
     (let legacy = legacy_sessions h;
          reusable = reusable_instance g h actor ws runtime;
          additional = (if reusable \<noteq> None \<or> (\<exists>s \<in> set legacy. Some (ss_id s) = own) then 0 else 1);
          user_active = int (length (filter (\<lambda>i. in_owner i = actor) (live_instances h)) + length (filter (\<lambda>s. ss_owner s = actor) legacy));
          host_active = int (length (live_instances h) + length legacy);
          requested = host_active + additional;
          (cpus, memory) = host_totals g h
      in if \<exists>i \<in> set_option reusable. in_max i \<le> in_active i then (False, Some ''waiting_capacity'', 1)
         else if effective_max_instances g (scheduling_policy (map_of (ho_policies h) ws)) < user_active + additional
           then (False, Some ''waiting_capacity'', 1)
         else if ps_host_max g < requested then (False, Some ''waiting_capacity'', 10)
         else if 0 < memory \<and> of_int memory * ps_memory_ratio g < of_int (requested * ps_memory g) then (False, Some ''waiting_capacity'', 10)
         else if 0 < cpus \<and> of_int cpus * ps_cpu_ratio g < of_int requested * ps_cpus g then (False, Some ''waiting_capacity'', 10)
         else if ho_free h < ps_min_disk g then (False, Some ''waiting_capacity'', 30)
         else if under_pressure g h then (False, Some ''waiting_resource_pressure'', 10)
         else (True, None, 0))"

section \<open>Submitting and cancelling\<close>

text \<open>The payload without the keys that start with an underscore, compared as a dict.\<close>

definition public_part :: "(string \<times> json) list \<Rightarrow> (string \<times> json) list" where
  "public_part p = filter (\<lambda>(k, v). take 1 k \<noteq> ''_'') p"

definition same_dict :: "(string \<times> json) list \<Rightarrow> (string \<times> json) list \<Rightarrow> bool" where
  "same_dict a b \<longleftrightarrow> list_all (\<lambda>k. map_of a k = map_of b k) (map fst a @ map fst b)"

record job_request =
  jr_workspace :: string
  jr_owner :: string
  jr_chat :: string
  jr_kind :: string
  jr_payload :: "(string \<times> json) list"
  jr_key :: "string option"
  jr_deadline :: "int option"

definition request_key :: "(string \<Rightarrow> string) \<Rightarrow> job_request \<Rightarrow> string option" where
  "request_key sha r = (case jr_key r of None \<Rightarrow> None | Some k \<Rightarrow> if k = [] then None else Some (sha k))"

definition find_job_key :: "job_request \<Rightarrow> string option \<Rightarrow> pool \<Rightarrow> sjob option" where
  "find_job_key r k s = (if k = None then None
     else find (\<lambda>j. sj_workspace j = jr_workspace r \<and> sj_owner j = jr_owner r \<and> sj_key j = k) (po_jobs s))"

definition new_job :: "pool_settings \<Rightarrow> job_request \<Rightarrow> string option \<Rightarrow> string \<Rightarrow> instant \<Rightarrow> sjob" where
  "new_job g r k i now = \<lparr>sj_id = i, sj_workspace = jr_workspace r, sj_owner = jr_owner r, sj_chat = jr_chat r, sj_kind = jr_kind r,
     sj_payload = jr_payload r, sj_status = R_queued, sj_reason = None, sj_priority = 0, sj_key = k, sj_attempt = 0, sj_queued = now,
     sj_available = now, sj_started = None, sj_finished = None,
     sj_deadline = (if jr_kind r = ''subagent'' then None
       else Some (now + (case jr_deadline r of Some d \<Rightarrow> if d = 0 then ps_queue_deadline g else d | None \<Rightarrow> ps_queue_deadline g))),
     sj_cancel = False, sj_error = None, sj_message = None\<rparr>"

definition submit_job :: "pool_settings \<Rightarrow> (string \<Rightarrow> string) \<Rightarrow> json option \<Rightarrow> job_request \<Rightarrow> string \<Rightarrow> instant \<Rightarrow> pool \<Rightarrow>
    (pool \<times> sjob) result" where
  "submit_job g sha policy r i now s =
     (let k = request_key sha r in
      case find_job_key r k s of
        Some j \<Rightarrow> require (sj_chat j = jr_chat r \<and> sj_kind j = jr_kind r \<and> same_dict (public_part (sj_payload j)) (public_part (jr_payload r)))
          (App_error 409 ''idempotency_key_conflict'') (Inr (s, j))
      | None \<Rightarrow>
          require (queue_depth (jr_owner r) s < effective_queue_depth g (scheduling_policy policy)) (App_error 429 ''sandbox_queue_depth_exceeded'')
          (require (i \<notin> sj_id ` set (po_jobs s)) (Python_error ''IntegrityError'')
           (let j = new_job g r k i now in Inr (s\<lparr>po_jobs := po_jobs s @ [j]\<rparr>, j))))"

definition get_job :: "string \<Rightarrow> string \<Rightarrow> string \<Rightarrow> pool \<Rightarrow> sjob result" where
  "get_job i ws owner s = (case find (\<lambda>j. sj_id j = i \<and> sj_workspace j = ws \<and> sj_owner j = owner) (po_jobs s) of
      None \<Rightarrow> Inl (App_error 404 ''sandbox_job_not_found'') | Some j \<Rightarrow> Inr j)"

definition cancel_job :: "string \<Rightarrow> instant \<Rightarrow> pool \<Rightarrow> pool" where
  "cancel_job i now s = (case row_get sj_id i (po_jobs s) of
      None \<Rightarrow> s
    | Some j \<Rightarrow>
        if sj_status j \<in> set terminal_job_statuses then s
        else if sj_status j \<in> {R_queued, R_starting, R_paused}
        then set_job i (\<lambda>j. j\<lparr>sj_status := R_cancelled, sj_cancel := True, sj_reason := Some ''cancelled_by_user'', sj_finished := Some now\<rparr>) s
        else set_job i (\<lambda>j. j\<lparr>sj_cancel := True, sj_reason := Some ''cancel_requested''\<rparr>) s)"

definition wake_capacity_waiters :: "string \<Rightarrow> instant \<Rightarrow> pool \<Rightarrow> pool" where
  "wake_capacity_waiters owner now s = s\<lparr>po_jobs := map (\<lambda>j. if sj_owner j = owner \<and> sj_status j = R_queued \<and>
     sj_reason j = Some ''waiting_capacity'' then j\<lparr>sj_available := now\<rparr> else j) (po_jobs s)\<rparr>"

section \<open>A scheduling round\<close>

definition job_event :: "run_status \<Rightarrow> string" where
  "job_event st = (case st of R_failed \<Rightarrow> ''failed'' | R_cancelled \<Rightarrow> ''cancelled'' | R_queued \<Rightarrow> ''queued'' | R_succeeded \<Rightarrow> ''succeeded''
     | R_partial \<Rightarrow> ''partial'' | R_timed_out \<Rightarrow> ''timed_out'' | R_paused \<Rightarrow> ''paused'' | R_starting \<Rightarrow> ''starting''
     | R_running \<Rightarrow> ''running'' | R_stale \<Rightarrow> ''stale'' | R_interrupted \<Rightarrow> ''interrupted'' | R_expired \<Rightarrow> ''expired''
     | R_retrying \<Rightarrow> ''retrying'')"

definition stale_starting :: "instant \<Rightarrow> sjob \<Rightarrow> bool" where
  "stale_starting now j \<longleftrightarrow> sj_status j = R_starting \<and> sj_started j = None \<and> sj_available j \<le> now - 30"

definition recover_stale_job :: "instant \<Rightarrow> pool \<Rightarrow> sjob \<Rightarrow> pool" where
  "recover_stale_job now s j = with_task j open_task
     (\<lambda>t. t\<lparr>at_status := R_queued, at_reason := Some ''stale_starting_recovered''\<rparr>) ''retry_scheduled''
     (set_job (sj_id j) (\<lambda>j. j\<lparr>sj_status := R_queued, sj_reason := Some ''stale_starting_recovered'', sj_available := now\<rparr>) s)"

definition recover_stale_starting_jobs :: "instant \<Rightarrow> pool \<Rightarrow> pool" where
  "recover_stale_starting_jobs now s = foldl (recover_stale_job now) s (filter (stale_starting now) (po_jobs s))"

definition overdue :: "instant \<Rightarrow> sjob \<Rightarrow> bool" where
  "overdue now j \<longleftrightarrow> sj_status j = R_queued \<and> sj_kind j \<noteq> ''subagent'' \<and> (\<exists>d \<in> set_option (sj_deadline j). d \<le> now)"

definition expire_jobs :: "instant \<Rightarrow> pool \<Rightarrow> pool" where
  "expire_jobs now s = s\<lparr>po_jobs := map (\<lambda>j. if overdue now j
     then j\<lparr>sj_status := R_expired, sj_reason := Some ''queue_deadline'', sj_finished := Some now\<rparr> else j) (po_jobs s)\<rparr>"

definition expired_subagent :: "sjob \<Rightarrow> bool" where
  "expired_subagent j \<longleftrightarrow> sj_kind j = ''subagent'' \<and> sj_status j = R_expired \<and> sj_reason j = Some ''queue_deadline''"

definition sync_expired_job :: "instant \<Rightarrow> pool \<Rightarrow> sjob \<Rightarrow> pool" where
  "sync_expired_job now s j = with_task j open_task
     (\<lambda>t. t\<lparr>at_status := R_timed_out, at_reason := Some ''queue_deadline'', at_finished := Some now\<rparr>) ''timed_out'' s"

definition sync_expired_subagent_tasks :: "instant \<Rightarrow> pool \<Rightarrow> pool" where
  "sync_expired_subagent_tasks now s = foldl (sync_expired_job now) s (filter expired_subagent (po_jobs s))"

definition expire_holds :: "instant \<Rightarrow> pool \<Rightarrow> pool" where
  "expire_holds now s = s\<lparr>po_holds := map (\<lambda>r. if rv_status r = Hold_held \<and> rv_expires r \<le> now
     then r\<lparr>rv_status := Hold_expired, rv_released := Some now\<rparr> else r) (po_holds s)\<rparr>"

text \<open>
  The statements of \<open>reconcile_commands\<close> on jobs and reservations: the jobs of commands that were created and
  never dispatched, agent commands claimed without a command row, reservations of jobs that are over.
\<close>

definition requeue_abandoned :: "string list \<Rightarrow> instant \<Rightarrow> pool \<Rightarrow> pool" where
  "requeue_abandoned abandoned now s = s\<lparr>po_jobs := map (\<lambda>j. if sj_id j \<in> set abandoned \<and> sj_status j \<in> {R_starting, R_running} \<and> \<not> sj_cancel j
     then j\<lparr>sj_status := R_queued, sj_started := None, sj_available := now\<rparr> else j) (po_jobs s)\<rparr>"

definition claim_lost :: "string list \<Rightarrow> instant \<Rightarrow> sjob \<Rightarrow> bool" where
  "claim_lost commanded now j \<longleftrightarrow> sj_kind j = ''agent_command'' \<and> sj_status j \<in> {R_running, R_starting} \<and> sj_available j < now - 30 \<and>
     sj_id j \<notin> set commanded"

definition recover_lost_claims :: "string list \<Rightarrow> instant \<Rightarrow> pool \<Rightarrow> pool" where
  "recover_lost_claims commanded now s = s\<lparr>po_jobs := map (\<lambda>j. if claim_lost commanded now j
     then j\<lparr>sj_status := R_queued, sj_started := None, sj_available := now, sj_reason := Some ''claim_recovered''\<rparr> else j) (po_jobs s)\<rparr>"

definition release_settled_holds :: "instant \<Rightarrow> pool \<Rightarrow> pool" where
  "release_settled_holds now s = s\<lparr>po_holds := map (\<lambda>r. if rv_status r = Hold_held \<and>
     list_ex (\<lambda>j. sj_id j = rv_job r \<and> sj_status j \<in> set terminal_job_statuses) (po_jobs s)
     then r\<lparr>rv_status := Hold_released, rv_released := Some now\<rparr> else r) (po_holds s)\<rparr>"

definition reconcile_jobs :: "string list \<Rightarrow> string list \<Rightarrow> instant \<Rightarrow> pool \<Rightarrow> pool" where
  "reconcile_jobs abandoned commanded now s =
     release_settled_holds now (recover_lost_claims commanded now (requeue_abandoned abandoned now s))"

definition candidate_jobs :: "instant \<Rightarrow> pool \<Rightarrow> sjob list" where
  "candidate_jobs now s = take 8 (sort_key (\<lambda>j. - sj_priority j)
     (sort_key sj_queued (filter (\<lambda>j. sj_status j = R_queued \<and> sj_available j \<le> now) (po_jobs s))))"

text \<open>The compare-and-swap of a claim; a claimed job's id goes to a worker thread.\<close>

definition claim_job :: "instant \<Rightarrow> pool \<times> string list \<Rightarrow> sjob \<Rightarrow> pool \<times> string list" where
  "claim_job now a j = (case a of (s, claimed) \<Rightarrow>
     (if list_ex (\<lambda>k. sj_id k = sj_id j \<and> sj_status k = R_queued) (po_jobs s)
      then (set_job (sj_id j) (\<lambda>j. j\<lparr>sj_status := R_starting, sj_attempt := sj_attempt j + 1, sj_available := now\<rparr>) s, claimed @ [sj_id j])
      else (s, claimed)))"

definition schedule_once :: "string list \<Rightarrow> string list \<Rightarrow> instant \<Rightarrow> pool \<Rightarrow> pool \<times> string list" where
  "schedule_once abandoned commanded now s =
     (let s1 = recover_stale_starting_jobs now (reconcile_jobs abandoned commanded now s);
          s2 = expire_holds now (sync_expired_subagent_tasks now (expire_jobs now s1))
      in foldl (claim_job now) (s2, []) (candidate_jobs now s2))"

section \<open>A worker\<close>

text \<open>\<open>_finish\<close>: the job and, for a failed or cancelled sub-agent, its task.\<close>

definition finish_job :: "string \<Rightarrow> run_status \<Rightarrow> string option \<Rightarrow> string option \<Rightarrow> instant \<Rightarrow> pool \<Rightarrow> pool" where
  "finish_job i st error msg now s = (case row_get sj_id i (po_jobs s) of
      None \<Rightarrow> s
    | Some j \<Rightarrow>
        (let s1 = set_job i (\<lambda>j. j\<lparr>sj_status := st, sj_reason := error, sj_error := error, sj_message := msg,
               sj_started := (case sj_started j of None \<Rightarrow> Some now | t \<Rightarrow> t), sj_finished := Some now\<rparr>) s
         in if sj_kind j = ''subagent'' \<and> st \<in> {R_failed, R_cancelled}
            then with_task j (\<lambda>t. at_status t \<in> {R_queued, R_starting, R_running, R_paused})
              (\<lambda>t. t\<lparr>at_status := st, at_reason := error, at_finished := Some now\<rparr>) (job_event st) s1
            else s1))"

definition requeue_job :: "string \<Rightarrow> string option \<Rightarrow> int \<Rightarrow> instant \<Rightarrow> pool \<Rightarrow> pool" where
  "requeue_job i reason attempt due s = set_job i (\<lambda>j. j\<lparr>sj_status := R_queued, sj_reason := reason, sj_attempt := attempt, sj_available := due\<rparr>) s"

definition max_job_attempts :: int where
  "max_job_attempts = 5"

definition needs_container :: "sjob \<Rightarrow> bool" where
  "needs_container j \<longleftrightarrow> sj_kind j \<noteq> ''subagent'' \<or>
     (case requires_sandbox_capacity (jget (sj_payload j) ''role_key'') (jget (sj_payload j) ''tools'') (jget (sj_payload j) ''execution_lane'') of
       Inl e \<Rightarrow> True | Inr b \<Rightarrow> b)"

text \<open>The warm session of the conversation the job belongs to, newest first.\<close>

definition own_session :: "host \<Rightarrow> sjob \<Rightarrow> string option" where
  "own_session h j = (case sort_key (\<lambda>s. - ss_created s) (filter (\<lambda>s. ss_owner s = sj_owner j \<and> ss_workspace s = sj_workspace j \<and>
       ss_chat s = sj_chat j \<and> ss_state s = ''WARM_IDLE'' \<and> ss_command s = None) (ho_sessions h)) of
      [] \<Rightarrow> None | x # _ \<Rightarrow> Some (ss_id x))"

definition wanted_runtime :: "sjob \<Rightarrow> string option" where
  "wanted_runtime j = (if sj_kind j \<in> {''agent_command'', ''subagent''} then Some (text_or ''python-node'' (jget (sj_payload j) ''runtime'')) else None)"

datatype admission = Worker_done | Worker_admitted "string option"

text \<open>
  From the start of \<open>_run_job\<close> to the reservation. A reservation that cannot be stored sends the job back to
  the queue. The worker starts from the identifier alone and reads the row as it is now.
\<close>

definition admit_job :: "pool_settings \<Rightarrow> host \<Rightarrow> string \<Rightarrow> instant \<Rightarrow> string \<Rightarrow> pool \<Rightarrow> pool \<times> admission" where
  "admit_job g h rid now i s = (case row_get sj_id i (po_jobs s) of
      None \<Rightarrow> (s, Worker_done)
    | Some j \<Rightarrow>
        if sj_cancel j \<or> sj_status j = R_cancelled then (finish_job i R_cancelled (Some ''cancelled_by_user'') None now s, Worker_done)
        else if max_job_attempts < sj_attempt j then (finish_job i R_failed (Some ''max_attempts_reached'') None now s, Worker_done)
        else if \<not> needs_container j then (s, Worker_admitted None)
        else (case evaluate_capacity g h (sj_owner j) (own_session h j) (sj_workspace j) (wanted_runtime j) of
            (False, reason, retry) \<Rightarrow> (requeue_job i reason (max 0 (sj_attempt j - 1)) (now + retry) s, Worker_done)
          | (True, _, _) \<Rightarrow>
              if rid \<in> rv_id ` set (po_holds s)
              then (requeue_job i (Some ''waiting_capacity'') (max 0 (sj_attempt j - 1)) (now + 1) s, Worker_done)
              else (s\<lparr>po_holds := po_holds s @ [\<lparr>rv_id = rid, rv_job = i, rv_status = Hold_held, rv_expires = now + ps_ttl g, rv_released = None\<rparr>]\<rparr>,
                Worker_admitted (Some rid))))"

definition active_subagents :: "(sjob \<Rightarrow> bool) \<Rightarrow> string \<Rightarrow> pool \<Rightarrow> int" where
  "active_subagents p i s = int (length (filter (\<lambda>j. sj_kind j = ''subagent'' \<and> sj_status j \<in> {R_starting, R_running} \<and> sj_id j \<noteq> i \<and> p j) (po_jobs s)))"

definition subagent_quota :: "pool_settings \<Rightarrow> sjob \<Rightarrow> pool \<Rightarrow> string option" where
  "subagent_quota g j s =
     (if 0 < ps_quota_chat g \<and> ps_quota_chat g \<le> active_subagents (\<lambda>k. sj_chat k = sj_chat j) (sj_id j) s then Some ''subagent_chat_quota''
      else if 0 < ps_quota_user g \<and> ps_quota_user g \<le> active_subagents (\<lambda>k. sj_owner k = sj_owner j) (sj_id j) s then Some ''subagent_user_quota''
      else if 0 < ps_quota_workspace g \<and> ps_quota_workspace g \<le> active_subagents (\<lambda>k. sj_workspace k = sj_workspace j) (sj_id j) s
        then Some ''subagent_workspace_quota''
      else None)"

definition names_task :: "sjob \<Rightarrow> bool" where
  "names_task j \<longleftrightarrow> (case jget (sj_payload j) ''task_id'' of JStr i \<Rightarrow> i \<noteq> [] | _ \<Rightarrow> False)"

definition task_of_job :: "sjob \<Rightarrow> pool \<Rightarrow> agent_task option" where
  "task_of_job j s = (case if names_task j then payload_task j s else None of
      None \<Rightarrow> None
    | Some t \<Rightarrow> if at_workspace t = sj_workspace j \<and> at_owner t = sj_owner j \<and> at_chat t = sj_chat j then Some t else None)"

text \<open>The checks of a sub-agent: its task and the quotas. What passes them is started by a later statement.\<close>

definition dispatch_subagent :: "pool_settings \<Rightarrow> instant \<Rightarrow> sjob \<Rightarrow> pool \<Rightarrow> pool \<times> worker option" where
  "dispatch_subagent g now j s = (case task_of_job j s of
      None \<Rightarrow> (finish_job (sj_id j) R_failed (Some ''invalid_job'') (Some (if names_task j then ''subagent task not found''
        else ''subagent payload missing task_id'')) now s, None)
    | Some t \<Rightarrow> (case subagent_quota g j s of
        Some reason \<Rightarrow> (requeue_job (sj_id j) (Some reason) (sj_attempt j) (now + 5) s, None)
      | None \<Rightarrow> (s, Some (Subagent_cleared (sj_id j) (at_id t) (sj_attempt j)))))"

text \<open>\<open>invalid j\<close>: the complaint of the request schema about the stored payload, if any.\<close>

definition unsupported_message :: "sjob \<Rightarrow> string" where
  "unsupported_message j = (if sj_kind j = ''fixed_task'' then ''fixed_task jobs are not queued yet; submit via the synchronous task API''
     else ''Unsupported job kind: '' @ sj_kind j)"

definition dispatch_job :: "pool_settings \<Rightarrow> (sjob \<Rightarrow> string option) \<Rightarrow> instant \<Rightarrow> string \<Rightarrow> pool \<Rightarrow> pool \<times> worker option" where
  "dispatch_job g invalid now i s = (case row_get sj_id i (po_jobs s) of
      None \<Rightarrow> (s, None)
    | Some j \<Rightarrow>
        if sj_cancel j \<or> sj_status j = R_cancelled then (finish_job i R_cancelled (Some ''cancelled_by_user'') None now s, None)
        else if sj_kind j = ''agent_command'' then
          (if invalid j \<noteq> None then (finish_job i R_failed (Some ''invalid_job'') (Some (''Stored job payload is invalid: '' @ the (invalid j))) now s, None)
           else (s, Some (Command_cleared i)))
        else if sj_kind j = ''subagent'' then dispatch_subagent g now j s
        else (finish_job i R_failed (Some ''sandbox_job_kind_unsupported'') (Some (unsupported_message j)) now s, None))"

text \<open>
  The statements that start a job. That of a sub-agent names the rows by their identifiers alone; that of a
  command is a compare-and-swap. The result says what runs: the sub-agent remembers the attempt it was
  cleared with.
\<close>

datatype dispatched = Nothing_runs | Command_runs | Subagent_runs int

definition start_subagent :: "string \<Rightarrow> string \<Rightarrow> int \<Rightarrow> instant \<Rightarrow> pool \<Rightarrow> pool \<times> dispatched" where
  "start_subagent i tid n now s = (set_task tid (\<lambda>t. t\<lparr>at_status := R_running, at_job := Some i, at_started := Some now\<rparr>)
     (set_job i (\<lambda>j. j\<lparr>sj_status := R_running, sj_started := Some now\<rparr>) s), Subagent_runs n)"

definition start_command :: "string \<Rightarrow> instant \<Rightarrow> pool \<Rightarrow> pool \<times> dispatched" where
  "start_command i now s = (if list_ex (\<lambda>j. sj_id j = i \<and> sj_status j = R_starting \<and> \<not> sj_cancel j) (po_jobs s)
     then (set_job i (\<lambda>j. j\<lparr>sj_status := R_running, sj_reason := None, sj_started := Some now\<rparr>) s, Command_runs)
     else (s, Nothing_runs))"

text \<open>How an execution ends when it raises.\<close>

definition capacity_codes :: "string list" where
  "capacity_codes = [''sandbox_user_concurrency_limit'', ''sandbox_host_capacity_exhausted'', ''sandbox_host_memory_budget'',
     ''sandbox_host_cpu_budget'', ''sandbox_host_disk_reserve'', ''sandbox_session_busy'', ''sandbox_instance_saturated'']"

datatype raised = Raised_app string string | Raised_unavailable | Raised_other string

definition requeue_backend :: "string \<Rightarrow> instant \<Rightarrow> pool \<Rightarrow> pool" where
  "requeue_backend i now s = set_job i (\<lambda>j. j\<lparr>sj_status := R_queued, sj_reason := Some ''backend_unavailable'',
     sj_available := now + min 30 (5 * sj_attempt j)\<rparr>) s"

definition settle_raised :: "raised \<Rightarrow> instant \<Rightarrow> string \<Rightarrow> pool \<Rightarrow> pool" where
  "settle_raised e now i s = (case e of
      Raised_app c msg \<Rightarrow>
        if c \<in> set capacity_codes
        then set_job i (\<lambda>j. j\<lparr>sj_status := R_queued, sj_reason := Some ''waiting_capacity'', sj_attempt := max 0 (sj_attempt j - 1),
          sj_available := now + 1\<rparr>) s
        else if c = ''sandbox_backend_unavailable'' then requeue_backend i now s
        else finish_job i R_failed (Some c) (Some msg) now s
    | Raised_unavailable \<Rightarrow> requeue_backend i now s
    | Raised_other msg \<Rightarrow> finish_job i R_failed (Some ''sandbox_job_failed'') (Some (take 300 msg)) now s)"

text \<open>
  The command a worker ran: its status, error class and message. The row is read again; what it decides is
  written by the next statement.
\<close>

definition settle_command :: "string \<Rightarrow> string option \<Rightarrow> string option \<Rightarrow> string \<Rightarrow> pool \<Rightarrow> worker option" where
  "settle_command status error msg i s = (case row_get sj_id i (po_jobs s) of
      None \<Rightarrow> None
    | Some j \<Rightarrow> Some (
        if sj_cancel j then Command_ending i R_cancelled (Some ''cancelled_by_user'') None
        else if status = ''completed'' then Command_ending i R_succeeded None None
        else if status = ''failed''
        then Command_ending i R_failed (Some (case error of Some e \<Rightarrow> if e = [] then ''sandbox_command_failed'' else e | None \<Rightarrow> ''sandbox_command_failed'')) msg
        else Command_ending i R_running None None))"

definition end_command :: "string \<Rightarrow> run_status \<Rightarrow> string option \<Rightarrow> string option \<Rightarrow> instant \<Rightarrow> pool \<Rightarrow> pool" where
  "end_command i st error msg now s = (if st = R_running then set_job i (\<lambda>j. j\<lparr>sj_status := R_running, sj_reason := None\<rparr>) s
     else finish_job i st error msg now s)"

text \<open>
  The end of \<open>_execute_subagent\<close>: the rows are read again and decide, then the decision is written. \<open>seen\<close> is
  the attempt the worker remembers; a cancellation that arrived before the second reading wins over the
  outcome. The two commits of the writing are one step. Capturing a voice result and handing the child session to the user belong
  to other components.
\<close>

definition told_to_stop :: "sjob \<Rightarrow> agent_task \<Rightarrow> bool" where
  "told_to_stop j t \<longleftrightarrow> sj_cancel j \<or> sj_status j = R_cancelled \<or> at_status t = R_cancelled"

definition retries :: "subagent_outcome \<Rightarrow> int \<Rightarrow> sjob \<Rightarrow> agent_task \<Rightarrow> bool" where
  "retries r seen j t \<longleftrightarrow> so_status r = R_retrying \<and> seen < max_job_attempts \<and> \<not> told_to_stop j t"

definition settled_status :: "subagent_outcome \<Rightarrow> int \<Rightarrow> sjob \<Rightarrow> agent_task \<Rightarrow> run_status" where
  "settled_status r seen j t = (if told_to_stop j t then R_cancelled
     else if so_status r = R_retrying then (if retries r seen j t then R_queued else R_failed) else so_status r)"

definition settled_task :: "subagent_outcome \<Rightarrow> run_status \<Rightarrow> bool \<Rightarrow> (run_status \<times> string option) list \<Rightarrow> instant \<Rightarrow> agent_task \<Rightarrow> agent_task" where
  "settled_task r st retry past now t = t\<lparr>at_status := st, at_reason := so_error r, at_deliverables := so_deliverables r,
     at_result := take 16000 (case so_summary r of None \<Rightarrow> [] | Some x \<Rightarrow> x),
     at_attempts := past @ [(if retry then R_retrying else st, so_error r)],
     at_finished := (if st \<in> {R_paused, R_queued} then None else Some now)\<rparr>"

definition retried_job :: "subagent_outcome \<Rightarrow> int \<Rightarrow> instant \<Rightarrow> sjob \<Rightarrow> sjob" where
  "retried_job r n now j = j\<lparr>sj_status := R_queued, sj_reason := Some ''model_transport_retry'', sj_error := so_error r,
     sj_message := so_message r, sj_finished := None, sj_available := now + min 30 (2 ^ nat (max 0 (n - 1)))\<rparr>"

definition settle_subagent :: "subagent_outcome \<Rightarrow> int \<Rightarrow> string \<Rightarrow> pool \<Rightarrow> worker option" where
  "settle_subagent r seen i s = (case row_get sj_id i (po_jobs s) of
      None \<Rightarrow> None
    | Some j \<Rightarrow> (case task_of_job j s of
        None \<Rightarrow> None
      | Some t \<Rightarrow> Some (Subagent_ending i (at_id t) r (settled_status r seen j t) (retries r seen j t) (at_attempts t) (sj_attempt j))))"

definition end_subagent :: "string \<Rightarrow> string \<Rightarrow> subagent_outcome \<Rightarrow> run_status \<Rightarrow> bool \<Rightarrow> (run_status \<times> string option) list \<Rightarrow> int \<Rightarrow>
    instant \<Rightarrow> pool \<Rightarrow> pool" where
  "end_subagent i tid r st retry past n now s =
     (let s1 = set_task tid (settled_task r st retry past now) s
      in if retry then append_agent_event tid ''retry_scheduled'' (set_job i (retried_job r n now) s1)
         else finish_job i st (so_error r) (so_message r) now
           (if so_status r = R_retrying then append_agent_event tid (job_event st) s1 else s1))"

text \<open>The statement a thread has decided on, and the thread's memory before and after it.\<close>

fun worker_writes :: "worker \<Rightarrow> instant \<Rightarrow> pool \<Rightarrow> pool" where
  "worker_writes (Subagent_cleared i tid n) now s = fst (start_subagent i tid n now s)"
| "worker_writes (Command_cleared i) now s = fst (start_command i now s)"
| "worker_writes (Subagent_ending i tid r st retry past n) now s = end_subagent i tid r st retry past n now s"
| "worker_writes (Command_ending i st error msg) now s = end_command i st error msg now s"

definition remember :: "worker option \<Rightarrow> pool \<Rightarrow> pool" where
  "remember w s = (case w of None \<Rightarrow> s | Some x \<Rightarrow> s\<lparr>po_threads := po_threads s @ [x]\<rparr>)"

definition worker_write :: "worker \<Rightarrow> instant \<Rightarrow> pool \<Rightarrow> pool" where
  "worker_write w now s = (if w \<in> set (po_threads s)
     then worker_writes w now (s\<lparr>po_threads := remove1 w (po_threads s)\<rparr>) else s)"

definition release_hold :: "string \<Rightarrow> instant \<Rightarrow> pool \<Rightarrow> pool" where
  "release_hold rid now s = s\<lparr>po_holds := map (\<lambda>r. if rv_id r = rid \<and> rv_status r = Hold_held
     then r\<lparr>rv_status := Hold_released, rv_released := Some now\<rparr> else r) (po_holds s)\<rparr>"

text \<open>\<open>_recover_worker_failure\<close>: an exception outside the error boundary of \<open>_run_job\<close>.\<close>

definition recover_worker_failure :: "string \<Rightarrow> string \<Rightarrow> instant \<Rightarrow> string \<Rightarrow> pool \<Rightarrow> pool" where
  "recover_worker_failure error msg now i s = (case row_get sj_id i (po_jobs s) of
      None \<Rightarrow> s
    | Some j \<Rightarrow>
        if sj_status j \<in> set terminal_job_statuses then s
        else if sj_attempt j < max_job_attempts \<and> \<not> sj_cancel j
        then with_task j open_task (\<lambda>t. t\<lparr>at_status := R_queued, at_reason := Some ''worker_retry''\<rparr>) ''retry_scheduled''
          (set_job i (\<lambda>j. j\<lparr>sj_status := R_queued, sj_reason := Some ''worker_retry'', sj_error := Some error,
             sj_message := Some (if msg = [] then ''sandbox scheduler worker failed'' else take 500 msg),
             sj_available := now + min 30 (5 * sj_attempt j)\<rparr>) s)
        else with_task j open_task (\<lambda>t. t\<lparr>at_status := R_failed, at_reason := Some error, at_finished := Some now\<rparr>) ''failed''
          (set_job i (\<lambda>j. j\<lparr>sj_status := R_failed, sj_reason := Some ''sandbox_scheduler_worker_failed'', sj_error := Some error,
             sj_message := Some (if msg = [] then ''sandbox scheduler worker failed'' else take 500 msg), sj_finished := Some now\<rparr>) s))"

end
