(* ===== verification/Subagents.thy ===== *)
theory Subagents
  imports Sandbox_Jobs
begin

text \<open>
  Delegating work to sub-agents: \<open>toolkit_subagent\<close>, its cancellation and its retry, of
  \<open>backend/app/services/sandbox_toolkit.py\<close>, and all operations on the pool as the calls of one machine. The
  child chat session of a task is another component; titles, voice associations and event payloads are kept
  only where they enter the specification of the task. The default title, Chinese in the code, is written
  \<open>subagent\<close>.
\<close>

section \<open>Delegating\<close>

record subagent_request =
  sq_chat :: string
  sq_prompt :: string
  sq_title :: string
  sq_role :: string
  sq_tools :: json
  sq_network :: "string option"
  sq_thinking :: "string option"
  sq_key :: "string option"
  sq_session :: json
  sq_write_set :: json
  sq_context :: "(string \<times> json) list"
  sq_voice :: json
  sq_turn :: json
  sq_group :: "string option"
  sq_version :: int
  sq_skills :: json
  sq_contract :: json

record caller =
  cr_workspace :: string
  cr_actor :: string

text \<open>\<open>x or default\<close> on a string, and on a JSON value.\<close>

definition text_default :: "string option \<Rightarrow> string \<Rightarrow> string" where
  "text_default x v0 = (case x of None \<Rightarrow> v0 | Some s \<Rightarrow> if s = [] then v0 else s)"

definition json_default :: "json \<Rightarrow> json \<Rightarrow> json" where
  "json_default j v0 = (if truthy j then j else v0)"

definition opt_json :: "string option \<Rightarrow> json" where
  "opt_json x = (case x of None \<Rightarrow> JNull | Some s \<Rightarrow> JStr s)"

fun role_text :: "agent_role \<Rightarrow> string" where
  "role_text Research = ''research''"
| "role_text Reason = ''reason''"
| "role_text Tool_agent = ''tool''"
| "role_text Generic = ''generic''"

fun mode_text :: "tool_mode \<Rightarrow> string" where
  "mode_text Mode_default = ''default''"
| "mode_text Mode_none = ''none''"
| "mode_text Mode_allowlist = ''allowlist''"

fun capability_text :: "capability \<Rightarrow> string" where
  "capability_text OFFLINE = ''OFFLINE''"
| "capability_text FETCH = ''FETCH''"
| "capability_text BROWSER = ''BROWSER''"
| "capability_text RESTRICTED_EGRESS = ''RESTRICTED_EGRESS''"

text \<open>The public name of a task: a digest of the caller's key, or drawn at random.\<close>

definition given_key :: "subagent_request \<Rightarrow> string" where
  "given_key r = strip (text_default (sq_key r) [])"

definition task_name :: "(string \<Rightarrow> string) \<Rightarrow> subagent_request \<Rightarrow> string \<Rightarrow> string" where
  "task_name sha r drawn = ''sa_'' @ take 16 (if given_key r = [] then drawn else sha (given_key r))"

definition find_task :: "caller \<Rightarrow> string \<Rightarrow> pool \<Rightarrow> agent_task option" where
  "find_task c name s = find (\<lambda>t. at_workspace t = cr_workspace c \<and> at_owner t = cr_actor c \<and> at_name t = name) (po_tasks s)"

definition network_policy :: "capability \<Rightarrow> subagent_request \<Rightarrow> json" where
  "network_policy net r = JDict [(''mode'', JStr (capability_text net)), (''broker_only'', JBool True), (''direct_socket'', JBool False),
     (''requested_mode'', opt_json (sq_network r))]"

definition requested_thinking :: "profile \<Rightarrow> subagent_request \<Rightarrow> string" where
  "requested_thinking pf r = text_default (sq_thinking r) (pf_thinking pf)"

definition context_snapshot :: "caller \<Rightarrow> subagent_request \<Rightarrow> string \<Rightarrow> json" where
  "context_snapshot c r name = JDict (fold (\<lambda>(k, v). AList.update k v)
     [(''workspace_id'', JStr (cr_workspace c)), (''user_id'', JStr (cr_actor c)), (''chat_session_id'', JStr (sq_chat r)),
      (''voice_session_id'', sq_voice r), (''turn_id'', sq_turn r), (''requirement_group_id'', JStr (text_default (sq_group r) name)),
      (''requirement_version'', JInt (sq_version r))] (sq_context r))"

definition task_spec :: "caller \<Rightarrow> subagent_request \<Rightarrow> profile \<Rightarrow> capability \<Rightarrow> string \<Rightarrow> (string \<times> json) list" where
  "task_spec c r pf net name =
     [(''objective'', JStr (sq_prompt r)), (''input_snapshot'', context_snapshot c r name), (''constraints'', JList []), (''read_set'', JList []),
      (''write_set'', json_default (sq_write_set r) (JList [])), (''tool_profile'', sq_tools r), (''tool_mode'', JStr (mode_text (pf_mode pf))),
      (''execution_lane'', JStr (pf_lane pf)), (''read_only'', JBool (pf_read_only pf)), (''network_policy'', network_policy net r),
      (''thinking_mode_requested'', JStr (requested_thinking pf r)), (''thinking_mode_effective'', JNull),
      (''requirement_group_id'', JStr (text_default (sq_group r) name)), (''requirement_version'', JInt (sq_version r)),
      (''current_requirement_version'', JInt (sq_version r)), (''origin'', JStr (if truthy (sq_voice r) then ''voice'' else ''chat'')),
      (''association'', JDict [(''voice_session_id'', sq_voice r), (''turn_id'', sq_turn r)]),
      (''skill_profile'', json_default (sq_skills r) (JList [])), (''budget'', JDict []), (''output_contract'', json_default (sq_contract r) (JDict []))]"

definition new_task :: "caller \<Rightarrow> subagent_request \<Rightarrow> profile \<Rightarrow> capability \<Rightarrow> string \<Rightarrow> string \<Rightarrow> agent_task" where
  "new_task c r pf net i name = \<lparr>at_id = i, at_workspace = cr_workspace c, at_owner = cr_actor c, at_name = name, at_chat = sq_chat r,
     at_session = sq_session r, at_role = role_text (pf_role pf), at_status = R_queued, at_reason = None,
     at_spec = task_spec c r pf net name, at_job = None, at_attempts = [], at_deliverables = JNull, at_result = [], at_seq = 0,
     at_started = None, at_finished = None\<rparr>"

definition task_title :: "subagent_request \<Rightarrow> json" where
  "task_title r = (if sq_title r = [] then JStr ''subagent'' else JStr (sq_title r))"

definition delegated_payload :: "caller \<Rightarrow> subagent_request \<Rightarrow> profile \<Rightarrow> capability \<Rightarrow> string \<Rightarrow> string \<Rightarrow> (string \<times> json) list" where
  "delegated_payload c r pf net i name =
     [(''task_id'', JStr i), (''task_title'', task_title r), (''role_key'', JStr (role_text (pf_role pf))), (''prompt'', JStr (sq_prompt r)),
      (''tools'', sq_tools r), (''tool_mode'', JStr (mode_text (pf_mode pf))), (''execution_lane'', JStr (pf_lane pf)),
      (''read_only'', JBool (pf_read_only pf)), (''network_policy'', network_policy net r),
      (''thinking_mode'', JStr (requested_thinking pf r)), (''requirement_version'', JInt (sq_version r)),
      (''requirement_group_id'', JStr (text_default (sq_group r) name)), (''context_snapshot'', context_snapshot c r name),
      (''write_set'', sq_write_set r), (''budget'', JDict []), (''sandbox_session_id'', sq_session r)]"

text \<open>The key of the n-th job of a task.\<close>

definition attempt_key :: "string \<Rightarrow> nat \<Rightarrow> string" where
  "attempt_key i n = ''subagent:'' @ i @ '':v'' @ show_nat n"

definition subagent_job_request :: "caller \<Rightarrow> string \<Rightarrow> (string \<times> json) list \<Rightarrow> string \<Rightarrow> job_request" where
  "subagent_job_request c chat payload key = \<lparr>jr_workspace = cr_workspace c, jr_owner = cr_actor c, jr_chat = chat, jr_kind = ''subagent'',
     jr_payload = payload, jr_key = Some key, jr_deadline = None\<rparr>"

datatype reply = Replayed agent_task | Delegated string string

definition subagent_profile :: "subagent_request \<Rightarrow> (profile \<times> capability) result" where
  "subagent_profile r = (case resolve_profile (JStr (sq_role r)) (sq_tools r) True of
      Inl e \<Rightarrow> Inl (App_error 422 ''invalid_agent_profile'')
    | Inr pf \<Rightarrow> (case clamp_network_capability (pf_capability pf) (sq_network r) of
        Inl e \<Rightarrow> Inl (Python_error ''AgentProfileError'')
      | Inr net \<Rightarrow> Inr (pf, net)))"

text \<open>
  \<open>parent\<close>: the look-up of the chat session, and whether it is itself an agent's. The task is committed before
  its job is submitted, so it is there when the submission is refused.
\<close>

definition delegate_subagent :: "bool \<Rightarrow> pool_settings \<Rightarrow> (string \<Rightarrow> string) \<Rightarrow> json option \<Rightarrow> app_error + bool \<Rightarrow> caller \<Rightarrow> subagent_request \<Rightarrow>
    string \<Rightarrow> string \<Rightarrow> string \<Rightarrow> instant \<Rightarrow> pool \<Rightarrow> pool \<times> reply result" where
  "delegate_subagent enabled g sha policy parent c r tid drawn jid now s =
     (if \<not> enabled then (s, Inl (App_error 503 ''sandbox_subagent_disabled''))
      else (case bind_r parent (\<lambda>nested. require (\<not> nested) (App_error 403 ''nested_subagent_forbidden'') (subagent_profile r)) of
        Inl e \<Rightarrow> (s, Inl e)
      | Inr (pf, net) \<Rightarrow>
          (let name = task_name sha r drawn in
           case (if given_key r = [] then None else find_task c name s) of
             Some t \<Rightarrow> (s, require (at_chat t = sq_chat r) (App_error 409 ''subagent_idempotency_conflict'') (Inr (Replayed t)))
           | None \<Rightarrow>
               if tid \<in> at_id ` set (po_tasks s) \<or> find_task c name s \<noteq> None then (s, Inl (Python_error ''IntegrityError''))
               else (let s1 = s\<lparr>po_tasks := po_tasks s @ [new_task c r pf net tid name]\<rparr> in
                 case submit_job g sha policy (subagent_job_request c (sq_chat r) (delegated_payload c r pf net tid name) (attempt_key tid 1)) jid now s1 of
                   Inl e \<Rightarrow> (s1, Inl e)
                 | Inr (s2, j) \<Rightarrow> (append_agent_event tid ''queued'' (append_agent_event tid ''created''
                     (set_task tid (\<lambda>t. t\<lparr>at_job := Some (sj_id j)\<rparr>) s2)), Inr (Delegated name (sj_id j)))))))"

section \<open>Cancelling and retrying\<close>

definition load_agent_task :: "app_error + bool \<Rightarrow> caller \<Rightarrow> string \<Rightarrow> string \<Rightarrow> pool \<Rightarrow> agent_task result" where
  "load_agent_task parent c name chat s = bind_r parent (\<lambda>_.
     require (name \<noteq> []) (App_error 422 ''invalid_tool_arguments'')
     (case find (\<lambda>t. at_workspace t = cr_workspace c \<and> at_owner t = cr_actor c \<and> at_chat t = chat \<and> at_name t = name) (po_tasks s) of
       None \<Rightarrow> Inl (App_error 404 ''sandbox_subagent_not_found'') | Some t \<Rightarrow> Inr t))"

definition cancel_subagent :: "app_error + bool \<Rightarrow> caller \<Rightarrow> string \<Rightarrow> string \<Rightarrow> instant \<Rightarrow> pool \<Rightarrow> pool result" where
  "cancel_subagent parent c name chat now s = bind_r (load_agent_task parent c name chat s) (\<lambda>t.
     if at_status t \<in> set terminal_task_statuses then Inr s
     else (case at_job t of
         None \<Rightarrow> Inl (App_error 409 ''subagent_job_missing'')
       | Some jid \<Rightarrow>
           require (jid \<noteq> []) (App_error 409 ''subagent_job_missing'')
           (bind_r (get_job jid (cr_workspace c) (cr_actor c) s) (\<lambda>j.
             require (sj_chat j = at_chat t \<and> sj_kind j = ''subagent'' \<and> jget (sj_payload j) ''task_id'' = JStr (at_id t))
               (App_error 409 ''subagent_job_mismatch'')
             (let s1 = cancel_job jid now s;
                  over = list_ex (\<lambda>k. sj_id k = jid \<and> sj_status k = R_cancelled) (po_jobs s1);
                  s2 = (if over then set_task (at_id t) (\<lambda>t. t\<lparr>at_status := R_cancelled, at_reason := Some ''cancelled_by_user'', at_finished := Some now\<rparr>) s1
                    else set_task (at_id t) (\<lambda>t. t\<lparr>at_reason := Some ''cancel_requested'',
                      at_spec := AList.update ''cancel_requested'' (JBool True) (at_spec t)\<rparr>) s1)
              in Inr (append_agent_event (at_id t) ''cancel_requested'' s2))))))"

definition resume_spec :: "(string \<times> json) list \<Rightarrow> (string \<times> json) list" where
  "resume_spec spec = (if truthy (jget spec ''voice_pause_requested'')
     then filter (\<lambda>(k, v). k \<notin> {''voice_pause_requested'', ''voice_pause_requested_at''}) spec else spec)"

definition retry_payload :: "agent_task \<Rightarrow> (string \<times> json) list \<Rightarrow> string option \<Rightarrow> json \<Rightarrow> json \<Rightarrow> (string \<times> json) list" where
  "retry_payload t spec override title checkpoint =
     [(''task_id'', JStr (at_id t)), (''task_title'', title), (''role_key'', JStr (at_role t)),
      (''prompt'', JStr (text_default override (text_or [] (jget spec ''objective'')))), (''tools'', jget spec ''tool_profile''),
      (''execution_lane'', jget spec ''execution_lane''), (''read_only'', jget spec ''read_only''), (''network_policy'', jget spec ''network_policy''),
      (''thinking_mode'', jget spec ''thinking_mode_requested''), (''requirement_version'', json_default (jget spec ''requirement_version'') (JInt 1)),
      (''requirement_group_id'', jget spec ''requirement_group_id''), (''context_snapshot'', jget spec ''input_snapshot''),
      (''write_set'', jget spec ''write_set''), (''budget'', JDict []), (''sandbox_session_id'', at_session t), (''_resume_checkpoint'', checkpoint)]"

definition last_checkpoint :: "agent_task \<Rightarrow> pool \<Rightarrow> json" where
  "last_checkpoint t s = (case at_job t of
      None \<Rightarrow> JNull
    | Some i \<Rightarrow> (case row_get sj_id i (po_jobs s) of None \<Rightarrow> JNull | Some j \<Rightarrow> jget (sj_payload j) ''_resume_checkpoint''))"

definition retry_subagent :: "pool_settings \<Rightarrow> (string \<Rightarrow> string) \<Rightarrow> json option \<Rightarrow> app_error + bool \<Rightarrow> caller \<Rightarrow> string \<Rightarrow> string \<Rightarrow>
    string option \<Rightarrow> json \<Rightarrow> string \<Rightarrow> instant \<Rightarrow> pool \<Rightarrow> pool result" where
  "retry_subagent g sha policy parent c name chat override title jid now s = bind_r (load_agent_task parent c name chat s) (\<lambda>t.
     require (at_status t \<notin> {R_running, R_starting, R_queued}) (App_error 409 ''subagent_already_running'')
     (let spec = resume_spec (at_spec t);
          s1 = set_task (at_id t) (\<lambda>t. t\<lparr>at_spec := spec\<rparr>) s in
      bind_r (submit_job g sha policy (subagent_job_request c (at_chat t) (retry_payload t spec override title (last_checkpoint t s))
          (attempt_key (at_id t) (length (at_attempts t) + 2))) jid now s1) (\<lambda>(s2, j).
        Inr (append_agent_event (at_id t) ''retry_scheduled''
          (set_task (at_id t) (\<lambda>t. t\<lparr>at_job := Some (sj_id j), at_status := R_queued, at_reason := None\<rparr>) s2)))))"

text \<open>The checkpoint a running sub-agent saves, fenced by its attempt.\<close>

definition save_checkpoint :: "json \<Rightarrow> int \<Rightarrow> string \<Rightarrow> pool \<Rightarrow> pool result" where
  "save_checkpoint cp seen i s = (case row_get sj_id i (po_jobs s) of
      None \<Rightarrow> Inl (Python_error ''RuntimeError'')
    | Some j \<Rightarrow> require (sj_status j = R_running \<and> sj_attempt j = seen) (Python_error ''RuntimeError'')
        (Inr (set_job i (\<lambda>j. j\<lparr>sj_payload := AList.update ''_resume_checkpoint'' cp (sj_payload j)\<rparr>) s)))"

section \<open>The machine\<close>

text \<open>
  What any session does next. A worker's calls carry the job's id alone, as the threads do; nothing is
  assumed about their order, but that a thread writes only what it has decided on. Outcomes are those the executor produces, and a command's outcome reaches a
  command's job.
\<close>

definition outcome_ok :: "subagent_outcome \<Rightarrow> bool" where
  "outcome_ok r \<longleftrightarrow> so_status r \<in> {R_paused, R_stale, R_cancelled, R_failed, R_succeeded, R_partial, R_retrying, R_timed_out, R_interrupted}"

datatype pool_call =
    Delegate bool "json option" "app_error + bool" caller subagent_request string string string instant
  | Submit "json option" job_request string instant
  | Cancel_job string instant
  | Cancel_subagent "app_error + bool" caller string string instant
  | Retry_subagent "json option" "app_error + bool" caller string string "string option" json string instant
  | Schedule "string list" "string list" instant
  | Wake string instant
  | Admit host string instant string
  | Dispatch instant string
  | Settle_raised raised instant string
  | Settle_command string "string option" "string option" string
  | Settle_subagent subagent_outcome int string
  | Write worker instant
  | Checkpoint json int string
  | Release string instant
  | Worker_failed string string instant string

definition runs_command :: "string \<Rightarrow> pool \<Rightarrow> bool" where
  "runs_command i s \<longleftrightarrow> list_ex (\<lambda>j. sj_id j = i \<and> sj_kind j = ''agent_command'') (po_jobs s)"

definition kept :: "pool \<Rightarrow> pool result \<Rightarrow> pool" where
  "kept s r = (case r of Inl e \<Rightarrow> s | Inr s' \<Rightarrow> s')"

fun pool_step :: "pool_settings \<Rightarrow> (string \<Rightarrow> string) \<Rightarrow> (sjob \<Rightarrow> string option) \<Rightarrow> pool \<Rightarrow> pool_call \<Rightarrow> pool" where
  "pool_step g sha invalid s (Delegate en policy parent c r tid drawn jid now) =
     fst (delegate_subagent en g sha policy parent c r tid drawn jid now s)"
| "pool_step g sha invalid s (Submit policy r jid now) = kept s (bind_r (submit_job g sha policy r jid now s) (\<lambda>x. Inr (fst x)))"
| "pool_step g sha invalid s (Cancel_job i now) = cancel_job i now s"
| "pool_step g sha invalid s (Cancel_subagent parent c name chat now) = kept s (cancel_subagent parent c name chat now s)"
| "pool_step g sha invalid s (Retry_subagent policy parent c name chat override title jid now) =
     kept s (retry_subagent g sha policy parent c name chat override title jid now s)"
| "pool_step g sha invalid s (Schedule abandoned commanded now) = fst (schedule_once abandoned commanded now s)"
| "pool_step g sha invalid s (Wake owner now) = wake_capacity_waiters owner now s"
| "pool_step g sha invalid s (Admit h rid now i) = fst (admit_job g h rid now i s)"
| "pool_step g sha invalid s (Dispatch now i) = (case dispatch_job g invalid now i s of (s', w) \<Rightarrow> remember w s')"
| "pool_step g sha invalid s (Settle_raised e now i) = settle_raised e now i s"
| "pool_step g sha invalid s (Settle_command st e m i) = (if runs_command i s then remember (settle_command st e m i s) s else s)"
| "pool_step g sha invalid s (Settle_subagent r seen i) = (if outcome_ok r then remember (settle_subagent r seen i s) s else s)"
| "pool_step g sha invalid s (Write w now) = worker_write w now s"
| "pool_step g sha invalid s (Checkpoint cp seen i) = kept s (save_checkpoint cp seen i s)"
| "pool_step g sha invalid s (Release rid now) = release_hold rid now s"
| "pool_step g sha invalid s (Worker_failed e m now i) = recover_worker_failure e m now i s"

section \<open>Example rows\<close>

definition example_settings :: "pool_settings" where
  "example_settings = \<lparr>ps_queue_deadline = 600, ps_default_depth = 2, ps_ttl = 60, ps_quota_chat = 1, ps_quota_user = 2, ps_quota_workspace = 0,
     ps_hard_instances = 4, ps_default_instances = 2, ps_active_per_user = 2, ps_hard_parallel = 4, ps_default_parallel = 2, ps_host_max = 8,
     ps_pooling = True, ps_memory = 100, ps_memory_ratio = 1, ps_cpus = 1, ps_cpu_ratio = 1, ps_host_cpus = 8, ps_host_memory = 1000,
     ps_min_disk = 0, ps_watermark = 1\<rparr>"

definition example_job :: "string \<Rightarrow> string \<Rightarrow> run_status \<Rightarrow> sjob" where
  "example_job i task st = \<lparr>sj_id = i, sj_workspace = ''w'', sj_owner = ''u'', sj_chat = ''c'', sj_kind = ''subagent'',
     sj_payload = [(''task_id'', JStr task), (''execution_lane'', JStr ''model_network'')], sj_status = st, sj_reason = None, sj_priority = 0,
     sj_key = None, sj_attempt = 0, sj_queued = 0, sj_available = 0, sj_started = None, sj_finished = None, sj_deadline = None,
     sj_cancel = False, sj_error = None, sj_message = None\<rparr>"

definition example_task :: "string \<Rightarrow> run_status \<Rightarrow> agent_task" where
  "example_task i st = \<lparr>at_id = i, at_workspace = ''w'', at_owner = ''u'', at_name = ''sa_'' @ i, at_chat = ''c'', at_session = JNull,
     at_role = ''generic'', at_status = st, at_reason = None, at_spec = [], at_job = None, at_attempts = [], at_deliverables = JNull,
     at_result = [], at_seq = 0, at_started = None, at_finished = None\<rparr>"

definition example_pool :: "run_status \<Rightarrow> pool" where
  "example_pool st = \<lparr>po_jobs = [example_job ''j1'' ''t1'' st, example_job ''j2'' ''t2'' R_queued],
     po_tasks = [example_task ''t1'' st, example_task ''t2'' R_queued], po_events = [], po_holds = [], po_threads = []\<rparr>"

definition example_host :: "host" where
  "example_host = \<lparr>ho_instances = [], ho_sessions = [], ho_probe = Snapshot None, ho_free = 10, ho_policies = []\<rparr>"

definition example_request :: "subagent_request" where
  "example_request = \<lparr>sq_chat = ''c'', sq_prompt = ''p'', sq_title = ''t'', sq_role = ''generic'', sq_tools = JNull, sq_network = None,
     sq_thinking = None, sq_key = Some ''k'', sq_session = JNull, sq_write_set = JNull, sq_context = [], sq_voice = JNull, sq_turn = JNull,
     sq_group = None, sq_version = 1, sq_skills = JNull, sq_contract = JNull\<rparr>"

definition example_caller :: "caller" where
  "example_caller = \<lparr>cr_workspace = ''w'', cr_actor = ''u''\<rparr>"

end
