(* ===== verification/Subagent_Facts.thy ===== *)
theory Subagent_Facts
  imports Subagents
begin

text \<open>
  What the pool guarantees under every interleaving of its calls, with the checks of the worker threads and the
  writes they decide on as separate steps: a cancelled job never runs when no thread is between the two, no more
  sub-agents run than the quotas allow when no job is taken from a thread between the two; and what happens
  otherwise.
\<close>

section \<open>What a call may make of a job\<close>

definition job_evolves :: "bool \<Rightarrow> sjob \<Rightarrow> sjob \<Rightarrow> bool" where
  "job_evolves b j k \<longleftrightarrow> sj_id k = sj_id j \<and> sj_workspace k = sj_workspace j \<and> sj_owner k = sj_owner j \<and> sj_chat k = sj_chat j \<and>
     sj_kind k = sj_kind j \<and> sj_key k = sj_key j \<and> (\<forall>x. take 1 x \<noteq> ''_'' \<longrightarrow> map_of (sj_payload k) x = map_of (sj_payload j) x) \<and>
     (sj_cancel j \<longrightarrow> sj_cancel k) \<and>
     (\<not> b \<longrightarrow> (sj_status k = R_running \<longrightarrow> sj_status j = R_running) \<and>
       (sj_status k \<in> {R_succeeded, R_partial} \<longrightarrow> sj_status j \<in> {R_succeeded, R_partial}))"

lemma job_evolves_refl [simp]: "job_evolves b j j"
  by (simp add: job_evolves_def)

lemma job_evolves_trans: "job_evolves b j k \<Longrightarrow> job_evolves b k l \<Longrightarrow> job_evolves b j l"
  unfolding job_evolves_def by auto

text \<open>Every row evolves and no thread takes a new decision.\<close>

definition evolved :: "bool \<Rightarrow> pool \<Rightarrow> pool \<Rightarrow> bool" where
  "evolved b s s' \<longleftrightarrow> set (po_threads s') \<subseteq> set (po_threads s) \<and>
     (\<exists>f. po_jobs s' = map f (po_jobs s) \<and> (\<forall>j \<in> set (po_jobs s). job_evolves b j (f j)))"

lemma evolvedI: "po_threads s' = po_threads s \<Longrightarrow> po_jobs s' = map f (po_jobs s) \<Longrightarrow>
    (\<And>j. j \<in> set (po_jobs s) \<Longrightarrow> job_evolves b j (f j)) \<Longrightarrow> evolved b s s'"
  by (auto simp: evolved_def)

lemma evolved_same: "po_threads s' = po_threads s \<Longrightarrow> po_jobs s' = po_jobs s \<Longrightarrow> evolved b s s'"
  by (rule evolvedI [where f = id]) simp_all

lemma evolved_refl [simp]: "evolved b s s"
  by (simp add: evolved_same)

lemma evolved_trans: "evolved b s s' \<Longrightarrow> evolved b s' s'' \<Longrightarrow> evolved b s s''"
proof -
  assume a: "evolved b s s'" and c: "evolved b s' s''"
  from a obtain f where "po_jobs s' = map f (po_jobs s)" "\<forall>j \<in> set (po_jobs s). job_evolves b j (f j)" unfolding evolved_def by blast
  moreover from c obtain h where "po_jobs s'' = map h (po_jobs s')" "\<forall>j \<in> set (po_jobs s'). job_evolves b j (h j)" unfolding evolved_def by blast
  ultimately have "po_jobs s'' = map (h \<circ> f) (po_jobs s) \<and> (\<forall>j \<in> set (po_jobs s). job_evolves b j ((h \<circ> f) j))"
    by (auto intro: job_evolves_trans)
  with a c show ?thesis unfolding evolved_def by blast
qed

lemma threads_unchanged [simp]:
  "po_threads (set_job i h s) = po_threads s" "po_threads (set_task i f s) = po_threads s"
  "po_threads (append_agent_event i ty s) = po_threads s" "po_threads (with_task j c f ty s) = po_threads s"
  by (simp_all add: set_job_def set_task_def append_agent_event_def with_task_def split: option.split)

lemma evolved_set_job:
  assumes "\<And>j. j \<in> set (po_jobs s) \<Longrightarrow> sj_id j = i \<Longrightarrow> job_evolves b j (f j)"
  shows "evolved b s (set_job i f s)"
  by (rule evolvedI [where f = "\<lambda>j. if sj_id j = i then f j else j"]) (use assms in \<open>auto simp: set_job_def row_mod_def\<close>)

lemma evolved_set_any: "(\<And>j. job_evolves b j (f j)) \<Longrightarrow> evolved b s (set_job i f s)"
  by (rule evolved_set_job) blast

lemma jobs_unchanged [simp]:
  "po_jobs (set_task i f s) = po_jobs s" "po_jobs (append_agent_event i ty s) = po_jobs s" "po_jobs (with_task j c f ty s) = po_jobs s"
  by (simp_all add: set_task_def append_agent_event_def with_task_def split: option.split)

lemma evolved_jobs: "po_threads s2 = po_threads s1 \<Longrightarrow> po_jobs s2 = po_jobs s1 \<Longrightarrow> evolved b s s1 \<Longrightarrow> evolved b s s2"
  by (simp add: evolved_def)

lemma evolved_foldl:
  assumes "\<And>s j. evolved b s (h s j)"
  shows "evolved b s (foldl h s xs)"
proof (induction xs arbitrary: s)
  case (Cons x xs)
  show ?case using evolved_trans [OF assms Cons.IH] by simp
qed simp

text \<open>The row a call reads is the only one with its id.\<close>

definition job_ids :: "pool \<Rightarrow> bool" where
  "job_ids s \<longleftrightarrow> distinct (map sj_id (po_jobs s))"

lemma only_row: "job_ids s \<Longrightarrow> row_get sj_id i (po_jobs s) = Some j \<Longrightarrow> k \<in> set (po_jobs s) \<Longrightarrow> sj_id k = i \<Longrightarrow> k = j"
  using row_get_distinct [of sj_id "po_jobs s" k] by (simp add: job_ids_def)

lemma finish_job_jobs:
  "po_jobs (finish_job i st error msg now s) = row_mod sj_id i (\<lambda>j. j\<lparr>sj_status := st, sj_reason := error, sj_error := error, sj_message := msg,
     sj_started := (case sj_started j of None \<Rightarrow> Some now | t \<Rightarrow> t), sj_finished := Some now\<rparr>) (po_jobs s)"
  by (simp add: finish_job_def Let_def set_job_def row_get_None_iff row_mod_absent split: option.split)

lemma finish_job_threads [simp]: "po_threads (finish_job i st error msg now s) = po_threads s"
  by (simp add: finish_job_def Let_def split: option.split)

lemma finish_job_evolves:
  assumes "b \<or> st \<notin> {R_running, R_succeeded, R_partial}"
  shows "evolved b s (finish_job i st error msg now s)"
proof (rule evolvedI)
  show "po_jobs (finish_job i st error msg now s) = map (\<lambda>r. if sj_id r = i then r\<lparr>sj_status := st, sj_reason := error, sj_error := error,
     sj_message := msg, sj_started := (case sj_started r of None \<Rightarrow> Some now | t \<Rightarrow> t), sj_finished := Some now\<rparr> else r) (po_jobs s)"
    by (simp add: finish_job_jobs row_mod_def)
qed (use assms in \<open>auto simp: job_evolves_def\<close>)

lemma requeue_job_evolves: "evolved b s (requeue_job i reason n due s)"
  unfolding requeue_job_def by (rule evolved_set_job) (simp add: job_evolves_def)

subsection \<open>The calls\<close>

lemma cancel_job_evolves: "evolved b s (cancel_job i now s)"
  by (auto simp: cancel_job_def job_evolves_def intro!: evolved_set_job split: option.split)

lemma map_job_evolves:
  assumes "\<And>j. job_evolves b j (f j)"
  shows "evolved b s (s\<lparr>po_jobs := map f (po_jobs s)\<rparr>)"
  by (rule evolvedI [where f = f]) (simp_all add: assms)

lemma wake_job_evolves: "evolved b s (wake_capacity_waiters owner now s)"
  unfolding wake_capacity_waiters_def by (rule map_job_evolves) (simp add: job_evolves_def)

lemma reconcile_job_evolves: "evolved b s (reconcile_jobs abandoned commanded now s)"
proof -
  have "evolved b s (requeue_abandoned abandoned now s)" unfolding requeue_abandoned_def by (rule map_job_evolves) (simp add: job_evolves_def)
  moreover have "evolved b t (recover_lost_claims commanded now t)" for t
    unfolding recover_lost_claims_def by (rule map_job_evolves) (simp add: job_evolves_def)
  moreover have "evolved b t (release_settled_holds now t)" for t by (rule evolved_same) (simp_all add: release_settled_holds_def)
  ultimately show ?thesis unfolding reconcile_jobs_def by (meson evolved_trans)
qed

lemma recover_job_evolves: "evolved b s (recover_stale_starting_jobs now s)"
  unfolding recover_stale_starting_jobs_def
proof (rule evolved_foldl)
  fix s and j :: sjob
  have "evolved b s (set_job (sj_id j) (\<lambda>j. j\<lparr>sj_status := R_queued, sj_reason := Some ''stale_starting_recovered'', sj_available := now\<rparr>) s)"
    by (rule evolved_set_job) (simp add: job_evolves_def)
  then show "evolved b s (recover_stale_job now s j)" unfolding recover_stale_job_def by (rule evolved_jobs [rotated 2]) simp_all
qed

lemma expire_job_evolves: "evolved b s (expire_jobs now s)"
  unfolding expire_jobs_def by (rule map_job_evolves) (simp add: job_evolves_def overdue_def)

lemma sync_job_evolves: "evolved b s (sync_expired_subagent_tasks now s)"
  unfolding sync_expired_subagent_tasks_def by (rule evolved_foldl) (simp add: sync_expired_job_def evolved_same)

lemma claim_job_evolves: "evolved b s (fst (foldl (claim_job now) (s, c) js))"
proof (induction js arbitrary: s c)
  case (Cons j js)
  have "evolved b s (fst (claim_job now (s, c) j))"
    by (auto simp: claim_job_def job_evolves_def intro!: evolved_set_job)
  moreover have "evolved b (fst (claim_job now (s, c) j)) (fst (foldl (claim_job now) (claim_job now (s, c) j) js))"
    using Cons.IH [of "fst (claim_job now (s, c) j)" "snd (claim_job now (s, c) j)"] by simp
  ultimately show ?case by (simp add: evolved_trans)
qed simp

lemma schedule_job_evolves: "evolved b s (fst (schedule_once abandoned commanded now s))"
proof -
  have holds: "evolved b t (expire_holds now t)" for t by (rule evolved_same) (simp_all add: expire_holds_def)
  show ?thesis unfolding schedule_once_def Let_def
    by (meson claim_job_evolves evolved_trans expire_job_evolves holds recover_job_evolves reconcile_job_evolves sync_job_evolves)
qed

lemma admit_job_evolves: "evolved b s (fst (admit_job g h rid now i s))"
proof -
  have "evolved b s (s\<lparr>po_holds := hs\<rparr>)" for hs by (rule evolved_same) simp_all
  then show ?thesis
    by (auto simp: admit_job_def intro!: finish_job_evolves requeue_job_evolves split: option.split prod.split bool.split)
qed

lemma dispatch_job_evolves: "evolved b s (fst (dispatch_job g invalid now i s))"
  by (auto simp: dispatch_job_def dispatch_subagent_def intro!: finish_job_evolves requeue_job_evolves split: option.split)

lemma settle_raised_job_evolves: "evolved b s (settle_raised e now i s)"
  by (auto simp: settle_raised_def requeue_backend_def job_evolves_def intro!: finish_job_evolves evolved_set_job split: raised.split)

lemma worker_failure_job_evolves: "evolved b s (recover_worker_failure error msg now i s)"
proof -
  have a: "evolved b s (set_job i (\<lambda>j. j\<lparr>sj_status := R_queued, sj_reason := x, sj_error := e, sj_message := m, sj_available := due j\<rparr>) s)" for x e m due
    by (rule evolved_set_any) (simp add: job_evolves_def)
  have c: "evolved b s (set_job i (\<lambda>j. j\<lparr>sj_status := R_failed, sj_reason := x, sj_error := e, sj_message := m, sj_finished := f\<rparr>) s)" for x e m f
    by (rule evolved_set_any) (simp add: job_evolves_def)
  show ?thesis
    unfolding recover_worker_failure_def by (auto intro: evolved_jobs [OF threads_unchanged(4) jobs_unchanged(3)] a c split: option.split)
qed

lemma checkpoint_job_evolves: "save_checkpoint cp seen i s = Inr s' \<Longrightarrow> evolved b s s'"
  by (auto simp: save_checkpoint_def job_evolves_def update_conv' intro!: evolved_set_job split: option.splits)

section \<open>Every call\<close>

text \<open>Old rows evolve in place; at most one row is added, queued and with an identifier of its own.\<close>

definition rows_grown :: "bool \<Rightarrow> pool \<Rightarrow> pool \<Rightarrow> bool" where
  "rows_grown b s s' \<longleftrightarrow> (\<exists>f new. po_jobs s' = map f (po_jobs s) @ new \<and> (\<forall>j \<in> set (po_jobs s). job_evolves b j (f j)) \<and>
     distinct (map sj_id new) \<and> sj_id ` set new \<inter> sj_id ` set (po_jobs s) = {} \<and> (\<forall>j \<in> set new. sj_status j = R_queued))"

definition grown :: "bool \<Rightarrow> pool \<Rightarrow> pool \<Rightarrow> bool" where
  "grown b s s' \<longleftrightarrow> set (po_threads s') \<subseteq> set (po_threads s) \<and> rows_grown b s s'"

lemmas grown_defs = grown_def rows_grown_def

lemma evolved_grown:
  assumes "evolved b s s'"
  shows "grown b s s'"
proof -
  from assms obtain f where "po_jobs s' = map f (po_jobs s)" "\<forall>j \<in> set (po_jobs s). job_evolves b j (f j)" unfolding evolved_def by blast
  moreover have "set (po_threads s') \<subseteq> set (po_threads s)" using assms by (simp add: evolved_def)
  ultimately show ?thesis unfolding grown_defs by (intro conjI exI [of _ f] exI [of _ "[]"]) simp_all
qed

lemma submit_cases:
  assumes "submit_job g sha policy r i now s = Inr (s', j)"
  obtains (old) "find_job_key r (request_key sha r) s = Some j" and "s' = s"
    | (new) "find_job_key r (request_key sha r) s = None" and "i \<notin> sj_id ` set (po_jobs s)" and "j = new_job g r (request_key sha r) i now"
      and "s' = s\<lparr>po_jobs := po_jobs s @ [j]\<rparr>"
  using assms by (auto simp: submit_job_def Let_def split: option.splits)

lemma submit_grown:
  assumes "submit_job g sha policy r i now s = Inr (s', j)"
  shows "grown b s s'"
  using assms
proof (cases rule: submit_cases)
  case old
  then show ?thesis by (simp add: evolved_grown)
next
  case new
  then show ?thesis unfolding grown_defs by (intro conjI exI [of _ id] exI [of _ "[j]"]) (auto simp: new_job_def)
qed

lemma grown_jobs: "po_threads s2 = po_threads s1 \<Longrightarrow> po_jobs s2 = po_jobs s1 \<Longrightarrow> grown b s s1 \<Longrightarrow> grown b s s2"
  by (simp add: grown_defs)

lemma delegate_grown: "grown b s (fst (delegate_subagent en g sha policy parent c r tid drawn jid now s))"
proof -
  have start: "grown b s s'" if "submit_job g sha policy q jid now (s\<lparr>po_tasks := ts\<rparr>) = Inr (s', j)" for q ts s' j
    using submit_grown [OF that, of b] by (simp add: grown_defs)
  have tasks: "grown b s (s\<lparr>po_tasks := ts\<rparr>)" for ts by (rule evolved_grown) (simp add: evolved_same)
  show ?thesis
    unfolding delegate_subagent_def by (auto simp: Let_def split: sum.split prod.split option.split intro: tasks evolved_grown grown_jobs [rotated 2] start)
qed

lemma cancel_subagent_job_evolves:
  assumes "cancel_subagent parent c name chat now s = Inr s'"
  shows "evolved b s s'"
  using assms by (auto simp: cancel_subagent_def bind_r_Inr Let_def intro: evolved_jobs [OF _ _ cancel_job_evolves] split: if_splits option.splits)

lemma retry_grown:
  assumes "retry_subagent g sha policy parent c name chat override title jid now s = Inr s'"
  shows "grown b s s'"
proof -
  from assms obtain t where t: "load_agent_task parent c name chat s = Inr t" by (auto simp: retry_subagent_def bind_r_Inr)
  with assms obtain s2 j where "submit_job g sha policy (subagent_job_request c (at_chat t) (retry_payload t (resume_spec (at_spec t)) override title
      (last_checkpoint t s)) (attempt_key (at_id t) (length (at_attempts t) + 2))) jid now (set_task (at_id t) (\<lambda>t'. t'\<lparr>at_spec := resume_spec (at_spec t)\<rparr>) s) = Inr (s2, j)"
    "po_jobs s' = po_jobs s2" "po_threads s' = po_threads s2" by (auto simp: retry_subagent_def bind_r_Inr Let_def)
  from submit_grown [OF this(1), of b] this(2,3) show ?thesis by (simp add: grown_defs)
qed

lemma kept_grown: "(\<And>s'. r = Inr s' \<Longrightarrow> grown b s s') \<Longrightarrow> grown b s (kept s r)"
  by (cases r) (simp_all add: kept_def evolved_grown)

text \<open>The job a thread's decision is about, and what the decision may make of its status.\<close>

fun thread_job :: "worker \<Rightarrow> string" where
  "thread_job (Subagent_cleared i tid n) = i"
| "thread_job (Command_cleared i) = i"
| "thread_job (Subagent_ending i tid r st retry past n) = i"
| "thread_job (Command_ending i st error msg) = i"

fun thread_status :: "worker \<Rightarrow> run_status" where
  "thread_status (Subagent_cleared i tid n) = R_running"
| "thread_status (Command_cleared i) = R_running"
| "thread_status (Subagent_ending i tid r st retry past n) = (if retry then R_queued else st)"
| "thread_status (Command_ending i st error msg) = st"

text \<open>A thread writes its job's row only, and the status it has decided on.\<close>

lemma write_row:
  assumes "\<And>j. j \<in> set (po_jobs s) \<Longrightarrow> sj_id j = i \<Longrightarrow> job_evolves True j (f j) \<and> sj_status (f j) = st"
    and "po_jobs s' = row_mod sj_id i f (po_jobs s)"
  shows "\<exists>f. po_jobs s' = map f (po_jobs s) \<and> (\<forall>j \<in> set (po_jobs s). job_evolves True j (f j) \<and>
    (f j = j \<or> sj_id j = i \<and> sj_status (f j) = st))"
  using assms by (intro exI [of _ "\<lambda>j. if sj_id j = i then f j else j"]) (auto simp: row_mod_def)

lemma worker_writes_jobs:
  "\<exists>f. po_jobs (worker_writes w now s) = map f (po_jobs s) \<and> (\<forall>j \<in> set (po_jobs s). job_evolves True j (f j) \<and>
    (f j = j \<or> sj_id j = thread_job w \<and> sj_status (f j) = thread_status w))"
proof (cases w)
  case (Subagent_cleared i tid n)
  then show ?thesis
    by (intro write_row [where f = "\<lambda>j. j\<lparr>sj_status := R_running, sj_started := Some now\<rparr>"])
      (simp_all add: start_subagent_def set_job_def job_evolves_def)
next
  case (Command_cleared i)
  show ?thesis
  proof (cases "list_ex (\<lambda>j. sj_id j = i \<and> sj_status j = R_starting \<and> \<not> sj_cancel j) (po_jobs s)")
    case True
    with Command_cleared show ?thesis
      by (intro write_row [where f = "\<lambda>j. j\<lparr>sj_status := R_running, sj_reason := None, sj_started := Some now\<rparr>"])
        (simp_all add: start_command_def set_job_def job_evolves_def)
  next
    case False
    with Command_cleared show ?thesis by (intro exI [of _ id]) (simp add: start_command_def)
  qed
next
  case (Subagent_ending i tid r st retry past n)
  show ?thesis
  proof (cases retry)
    case True
    with Subagent_ending show ?thesis
      by (intro write_row [where f = "retried_job r n now"])
        (simp_all add: end_subagent_def Let_def set_job_def job_evolves_def retried_job_def)
  next
    case False
    with Subagent_ending show ?thesis
      by (intro write_row [where f = "\<lambda>j. j\<lparr>sj_status := st, sj_reason := so_error r, sj_error := so_error r,
          sj_message := so_message r, sj_started := (case sj_started j of None \<Rightarrow> Some now | t \<Rightarrow> t), sj_finished := Some now\<rparr>"])
        (simp_all add: end_subagent_def Let_def finish_job_jobs job_evolves_def)
  qed
next
  case (Command_ending i st error msg)
  show ?thesis
  proof (cases "st = R_running")
    case True
    with Command_ending show ?thesis
      by (intro write_row [where f = "\<lambda>j. j\<lparr>sj_status := R_running, sj_reason := None\<rparr>"])
        (simp_all add: end_command_def set_job_def job_evolves_def)
  next
    case False
    with Command_ending show ?thesis
      by (intro write_row [where f = "\<lambda>j. j\<lparr>sj_status := st, sj_reason := error, sj_error := error,
          sj_message := msg, sj_started := (case sj_started j of None \<Rightarrow> Some now | t \<Rightarrow> t), sj_finished := Some now\<rparr>"])
        (simp_all add: end_command_def finish_job_jobs job_evolves_def)
  qed
qed

lemma worker_writes_threads [simp]: "po_threads (worker_writes w now s) = po_threads s"
  by (cases w) (simp_all add: start_subagent_def start_command_def end_subagent_def end_command_def Let_def)

text \<open>A thread's write: only its decision is forgotten.\<close>

lemma worker_write_cases:
  obtains "worker_write w now s = s"
  | f where "w \<in> set (po_threads s)" and "po_threads (worker_write w now s) = remove1 w (po_threads s)"
    and "po_jobs (worker_write w now s) = map f (po_jobs s)"
    and "\<And>j. j \<in> set (po_jobs s) \<Longrightarrow> job_evolves True j (f j) \<and>
      (f j = j \<or> sj_id j = thread_job w \<and> sj_status (f j) = thread_status w)"
proof (cases "w \<in> set (po_threads s)")
  case True
  from worker_writes_jobs [of w now "s\<lparr>po_threads := remove1 w (po_threads s)\<rparr>"] True that(2) show thesis
    by (auto simp: worker_write_def)
qed (use that(1) in \<open>simp add: worker_write_def\<close>)

lemma worker_write_evolves: "evolved True s (worker_write w now s)"
proof (cases rule: worker_write_cases [where w = w and now = now and s = s])
  case (2 f)
  then show ?thesis unfolding evolved_def using set_remove1_subset [of w] by fastforce
qed simp

text \<open>What a thread has read when it takes a decision.\<close>

fun decided :: "pool_settings \<Rightarrow> pool \<Rightarrow> worker \<Rightarrow> bool" where
  "decided g s (Subagent_cleared i tid n) \<longleftrightarrow> (\<exists>j :: sjob. row_get sj_id i (po_jobs s) = Some j \<and> \<not> sj_cancel j \<and> sj_kind j = ''subagent'' \<and>
     subagent_quota g j s = None)"
| "decided g s (Command_cleared i) \<longleftrightarrow> (\<exists>j :: sjob. row_get sj_id i (po_jobs s) = Some j \<and> \<not> sj_cancel j \<and> sj_kind j = ''agent_command'')"
| "decided g s (Subagent_ending i tid r st retry past n) \<longleftrightarrow> (\<exists>j :: sjob. row_get sj_id i (po_jobs s) = Some j \<and> st \<noteq> R_running \<and>
     (sj_cancel j \<longrightarrow> st = R_cancelled \<and> \<not> retry))"
| "decided g s (Command_ending i st error msg) \<longleftrightarrow> (\<exists>j :: sjob. row_get sj_id i (po_jobs s) = Some j \<and> sj_kind j = ''agent_command'' \<and>
     (sj_cancel j \<longrightarrow> st = R_cancelled))"

lemma dispatch_decides:
  assumes "dispatch_job g invalid now i s = (s', Some w)"
  shows "s' = s \<and> decided g s w \<and> thread_job w = i"
proof -
  from assms obtain j where j: "row_get sj_id i (po_jobs s) = Some j" by (auto simp: dispatch_job_def split: option.splits)
  then have "sj_id j = i" by (rule row_get_key)
  with assms j show ?thesis
    by (auto simp: dispatch_job_def dispatch_subagent_def split: if_splits option.splits)
qed

lemma settled_status_not:
  "outcome_ok r \<Longrightarrow> settled_status r seen j t \<noteq> R_running"
  "sj_cancel j \<Longrightarrow> settled_status r seen j t = R_cancelled \<and> \<not> retries r seen j t"
  by (auto simp: settled_status_def outcome_ok_def told_to_stop_def retries_def)

lemma settle_subagent_decides: "settle_subagent r seen i s = Some w \<Longrightarrow> outcome_ok r \<Longrightarrow> decided g s w \<and> thread_job w = i"
  by (auto simp: settle_subagent_def settled_status_not split: option.splits)

lemma settle_command_decides:
  assumes "settle_command st e m i s = Some w" and "runs_command i s" and "job_ids s"
  shows "decided g s w \<and> thread_job w = i"
proof -
  from assms(1) obtain j where j: "row_get sj_id i (po_jobs s) = Some j" by (auto simp: settle_command_def split: option.splits)
  from assms(2) only_row [OF assms(3) j] have "sj_kind j = ''agent_command''" by (auto simp: runs_command_def list_ex_iff)
  with assms(1) j show ?thesis by (auto simp: settle_command_def split: if_splits)
qed

text \<open>
  Every call: a thread writes what it has decided; or the rows evolve and nothing starts or succeeds; or a
  thread takes a decision and writes nothing.
\<close>

lemma step_cases:
  assumes "job_ids s"
  obtains (writes) w now where "pool_step g sha invalid s c = worker_write w now s"
  | (calm) "grown False s (pool_step g sha invalid s c)"
  | (decide) w where "pool_step g sha invalid s c = s\<lparr>po_threads := po_threads s @ [w]\<rparr>" and "decided g s w"
proof (cases c)
  case (Delegate en policy parent cl r tid drawn jid now)
  then show thesis by (intro calm) (simp add: delegate_grown)
next
  case (Submit policy r jid now)
  then show thesis by (intro calm) (auto intro!: kept_grown simp: bind_r_Inr dest: submit_grown)
next
  case (Cancel_subagent parent cl name chat now)
  then show thesis by (intro calm) (auto intro!: kept_grown intro: evolved_grown cancel_subagent_job_evolves)
next
  case (Retry_subagent policy parent cl name chat override title jid now)
  then show thesis by (intro calm) (auto intro!: kept_grown dest: retry_grown)
next
  case (Checkpoint cp seen i)
  then show thesis by (intro calm) (auto intro!: kept_grown intro: evolved_grown checkpoint_job_evolves)
next
  case (Dispatch now i)
  obtain s' x where d: "dispatch_job g invalid now i s = (s', x)" by fastforce
  show thesis
  proof (cases x)
    case None
    have "grown False s s'" using evolved_grown [OF dispatch_job_evolves] d by (metis fst_conv)
    with Dispatch d None show thesis by (intro calm) (simp add: remember_def)
  next
    case (Some w)
    from dispatch_decides [OF d [unfolded Some]] Dispatch d Some show thesis by (intro decide [of w]) (simp_all add: remember_def)
  qed
next
  case (Settle_command st e m i)
  then show thesis
  proof (cases "runs_command i s \<and> settle_command st e m i s \<noteq> None")
    case True
    then obtain w where w: "settle_command st e m i s = Some w" by blast
    from settle_command_decides [OF w _ assms] True Settle_command w show thesis by (intro decide [of w]) (simp_all add: remember_def)
  qed (intro calm, auto simp: remember_def evolved_grown)
next
  case (Settle_subagent r seen i)
  then show thesis
  proof (cases "outcome_ok r \<and> settle_subagent r seen i s \<noteq> None")
    case True
    then obtain w where w: "settle_subagent r seen i s = Some w" by blast
    from settle_subagent_decides [OF w] True Settle_subagent w show thesis by (intro decide [of w]) (simp_all add: remember_def)
  qed (intro calm, auto simp: remember_def evolved_grown)
next
  case (Write w now)
  then show thesis by (intro writes [of w now]) simp
next
  case (Release rid now)
  then show thesis by (intro calm) (simp add: evolved_grown evolved_same release_hold_def)
qed (intro calm, simp add: evolved_grown cancel_job_evolves schedule_job_evolves wake_job_evolves admit_job_evolves
    settle_raised_job_evolves worker_failure_job_evolves)+

lemma step_rows:
  assumes "job_ids s"
  shows "rows_grown True s (pool_step g sha invalid s c)"
  using assms
proof (cases rule: step_cases [where g = g and sha = sha and invalid = invalid and c = c])
  case (writes w now)
  from evolved_grown [OF worker_write_evolves, of s w now] writes show ?thesis by (simp add: grown_def)
next
  case calm
  have weak: "job_evolves False j k \<Longrightarrow> job_evolves True j k" for j k by (simp add: job_evolves_def)
  from calm weak show ?thesis unfolding grown_def rows_grown_def by (metis (no_types, lifting))
next
  case (decide w)
  then show ?thesis unfolding rows_grown_def by (intro exI [of _ id] exI [of _ "[]"]) simp
qed

lemma grown_ids:
  assumes "rows_grown b s s'" and "job_ids s"
  shows "job_ids s'"
proof -
  from assms(1) obtain f new where j: "po_jobs s' = map f (po_jobs s) @ new" "\<forall>j \<in> set (po_jobs s). job_evolves b j (f j)" "distinct (map sj_id new)"
    "sj_id ` set new \<inter> sj_id ` set (po_jobs s) = {}" unfolding rows_grown_def by blast
  have "map (sj_id \<circ> f) (po_jobs s) = map sj_id (po_jobs s)" using j(2) by (simp add: job_evolves_def)
  then have ids: "map sj_id (po_jobs s') = map sj_id (po_jobs s) @ map sj_id new" using j(1) by simp
  from assms(2) j(3,4) show ?thesis unfolding job_ids_def ids by auto
qed

lemma row_get_map_ids:
  assumes "\<And>j. j \<in> set xs \<Longrightarrow> key (f j) = key j"
  shows "row_get key k (map f xs) = map_option f (row_get key k xs)"
  using assms by (induction xs) auto

lemma grown_row:
  assumes "rows_grown b s s'" and "row_get sj_id i (po_jobs s) = Some j"
  obtains k where "row_get sj_id i (po_jobs s') = Some k" and "job_evolves b j k"
proof -
  from assms(1) obtain f new where j: "po_jobs s' = map f (po_jobs s) @ new" "\<forall>j \<in> set (po_jobs s). job_evolves b j (f j)" unfolding rows_grown_def by blast
  then have "row_get sj_id i (po_jobs s') = Some (f j)"
    using assms(2) by (simp add: row_get_append row_get_map_ids [of _ sj_id] job_evolves_def)
  moreover have "job_evolves b j (f j)" using j(2) row_get_SomeD [OF assms(2)] by blast
  ultimately show thesis by (rule that)
qed

section \<open>Cancelled jobs\<close>

text \<open>
  A job that was told to stop and has none of the given statuses, and on which no thread is about to write one
  of them. A command that a thread is to start is left alone by its compare-and-swap.
\<close>

definition harmless :: "string \<Rightarrow> run_status set \<Rightarrow> worker \<Rightarrow> bool" where
  "harmless i A w \<longleftrightarrow> thread_job w \<noteq> i \<or> w = Command_cleared i \<or> thread_status w \<notin> A"

definition stopped :: "string \<Rightarrow> run_status set \<Rightarrow> pool \<Rightarrow> bool" where
  "stopped i A s \<longleftrightarrow> job_ids s \<and> (\<exists>k. row_get sj_id i (po_jobs s) = Some k \<and> sj_cancel k \<and> sj_status k \<notin> A) \<and>
     (\<forall>w \<in> set (po_threads s). harmless i A w)"

lemma stopped_write:
  assumes "stopped i A s"
  shows "stopped i A (worker_write w now s)"
proof (cases rule: worker_write_cases [where w = w and now = now and s = s])
  case 1
  with assms show ?thesis by simp
next
  case (2 f)
  from assms obtain k where k: "job_ids s" "row_get sj_id i (po_jobs s) = Some k" "sj_cancel k" "sj_status k \<notin> A"
    and h: "\<forall>w \<in> set (po_threads s). harmless i A w" unfolding stopped_def by blast
  have kin: "k \<in> set (po_jobs s)" and kid: "sj_id k = i" using row_get_SomeD [OF k(2)] by simp_all
  have ids: "job_ids (worker_write w now s)"
    by (rule grown_ids [where b = True, OF _ k(1)]) (use evolved_grown [OF worker_write_evolves, of s w now] in \<open>simp add: grown_def\<close>)
  have row: "row_get sj_id i (po_jobs (worker_write w now s)) = Some (f k)"
    using k(2) 2(4) by (simp add: 2(3) row_get_map_ids [of _ sj_id] job_evolves_def)
  have "sj_status (f k) \<notin> A"
  proof (cases "w = Command_cleared i")
    case True
    have "\<not> list_ex (\<lambda>j. sj_id j = i \<and> sj_status j = R_starting \<and> \<not> sj_cancel j) (po_jobs s)"
      using only_row [OF k(1,2)] k(3) by (auto simp: list_ex_iff)
    then have "po_jobs (worker_write w now s) = po_jobs s" by (simp add: True worker_write_def start_command_def)
    with row k(2,4) show ?thesis by simp
  next
    case False
    with h 2(1) have "thread_job w \<noteq> i \<or> thread_status w \<notin> A" by (auto simp: harmless_def)
    with 2(4) [OF kin] kid k(4) show ?thesis by auto
  qed
  moreover have "sj_cancel (f k)" using 2(4) [OF kin] k(3) by (simp add: job_evolves_def)
  moreover have "\<forall>w' \<in> set (po_threads (worker_write w now s)). harmless i A w'"
    using h 2(2) set_remove1_subset [of w "po_threads s"] by auto
  ultimately show ?thesis using ids row unfolding stopped_def by blast
qed

lemma stopped_step:
  assumes "A = {R_running, R_succeeded, R_partial} \<or> A = {R_succeeded, R_partial}" and "stopped i A s"
  shows "stopped i A (pool_step g sha invalid s c)"
proof -
  from assms(2) obtain j where j: "job_ids s" "row_get sj_id i (po_jobs s) = Some j" "sj_cancel j" "sj_status j \<notin> A"
    and h: "\<forall>w \<in> set (po_threads s). harmless i A w" unfolding stopped_def by blast
  from j(1) show ?thesis
  proof (cases rule: step_cases [where g = g and sha = sha and invalid = invalid and c = c])
    case (writes w now)
    with stopped_write [OF assms(2)] show ?thesis by simp
  next
    case calm
    then have rows: "rows_grown False s (pool_step g sha invalid s c)"
      and th: "set (po_threads (pool_step g sha invalid s c)) \<subseteq> set (po_threads s)" by (simp_all add: grown_def)
    from grown_row [OF rows j(2)] obtain k where k: "row_get sj_id i (po_jobs (pool_step g sha invalid s c)) = Some k" "job_evolves False j k" .
    have "sj_cancel k \<and> sj_status k \<notin> A" using k(2) j(3,4) assms(1) by (auto simp: job_evolves_def)
    with grown_ids [OF rows j(1)] k(1) h th show ?thesis unfolding stopped_def by blast
  next
    case (decide w)
    have "harmless i A w" using decide(2) j(2,3) assms(1) by (cases w) (auto simp: harmless_def)
    with decide(1) j h show ?thesis by (auto simp: stopped_def job_ids_def)
  qed
qed

interpretation idle_machine: step_machine "pool_step g sha invalid" "stopped i {R_running, R_succeeded, R_partial}"
  by unfold_locales (rule stopped_step, simp_all)

interpretation unsuccessful_machine: step_machine "pool_step g sha invalid" "stopped i {R_succeeded, R_partial}"
  by unfold_locales (rule stopped_step, simp_all)

lemma cancel_row:
  assumes "job_ids s" and "row_get sj_id i (po_jobs s) = Some j" and "sj_status j \<notin> set terminal_job_statuses"
  shows "job_ids (cancel_job i now s) \<and> po_threads (cancel_job i now s) = po_threads s \<and>
    (\<exists>k. row_get sj_id i (po_jobs (cancel_job i now s)) = Some k \<and> sj_cancel k \<and>
      sj_status k = (if sj_status j \<in> {R_queued, R_starting, R_paused} then R_cancelled else sj_status j))"
proof -
  have "rows_grown False s (cancel_job i now s)" using evolved_grown [OF cancel_job_evolves] by (simp add: grown_def)
  then have "job_ids (cancel_job i now s)" by (rule grown_ids [OF _ assms(1)])
  moreover have "row_get sj_id i (po_jobs (set_job i f s)) = Some (f j)" if "\<And>j. sj_id (f j) = sj_id j" for f
    using assms(2) that by (simp add: set_job_def row_get_mod_same)
  ultimately show ?thesis using assms(2,3) by (simp add: cancel_job_def)
qed

text \<open>
  C21. Cancelling a job is final, when no worker thread is between its last reading of the job and the statement
  that starts or ends it. A job cancelled before it runs is never running, succeeded or partly succeeded
  afterwards, and one cancelled while it runs never succeeds, whatever submissions, scheduling rounds, worker
  steps of any threads, failures and recoveries follow in any order.
\<close>

theorem cancelled_job_never_runs:
  assumes "distinct (map sj_id (po_jobs s))" and "row_get sj_id i (po_jobs s) = Some j" and "sj_status j \<notin> set terminal_job_statuses"
    and "sj_status j \<noteq> R_partial" and "\<forall>w \<in> set (po_threads s). thread_job w \<noteq> i"
  shows "\<exists>k. row_get sj_id i (po_jobs (foldl (pool_step g sha invalid) (cancel_job i now s) cs)) = Some k \<and> sj_cancel k \<and>
    sj_status k \<notin> {R_succeeded, R_partial} \<and> (sj_status j \<noteq> R_running \<longrightarrow> sj_status k \<noteq> R_running)"
proof -
  from assms(1) have "job_ids s" by (simp add: job_ids_def)
  note row = cancel_row [OF this assms(2,3), of now]
  have idle: "\<forall>w \<in> set (po_threads (cancel_job i now s)). harmless i A w" for A
    using assms(5) row by (simp add: harmless_def)
  from assms(3) have not: "sj_status j \<noteq> R_succeeded" by (simp add: terminal_job_statuses_def)
  have "stopped i {R_succeeded, R_partial} (cancel_job i now s)" using row not assms(4) idle unfolding stopped_def by auto
  from unsuccessful_machine.run_inv [OF this, of g sha invalid cs] have over: "stopped i {R_succeeded, R_partial} (foldl (pool_step g sha invalid) (cancel_job i now s) cs)" .
  have "stopped i {R_running, R_succeeded, R_partial} (foldl (pool_step g sha invalid) (cancel_job i now s) cs)" if "sj_status j \<noteq> R_running"
    by (rule idle_machine.run_inv) (use row not assms(4) that idle in \<open>auto simp: stopped_def\<close>)
  with over show ?thesis unfolding stopped_def by (cases "sj_status j = R_running") auto
qed

section \<open>Quotas of running sub-agents\<close>

text \<open>How many sub-agents run whose row has the given value.\<close>

definition running_subagents :: "(sjob \<Rightarrow> string) \<Rightarrow> string \<Rightarrow> pool \<Rightarrow> int" where
  "running_subagents key v s = int (length (filter (\<lambda>j. sj_kind j = ''subagent'' \<and> sj_status j = R_running \<and> key j = v) (po_jobs s)))"

text \<open>
  Jobs whose start a thread has decided on; a thread keeps its claim while the job it is about to start stays
  claimed or has been started. A run is undisturbed when all threads keep their claims throughout: no job is
  cancelled, recovered or sent back between the check of a worker and its write.
\<close>

definition cleared :: "string \<Rightarrow> pool \<Rightarrow> bool" where
  "cleared i s \<longleftrightarrow> list_ex (\<lambda>w. case w of Subagent_cleared k tid n \<Rightarrow> k = i | _ \<Rightarrow> False) (po_threads s)"

definition keeps_claims :: "pool \<Rightarrow> bool" where
  "keeps_claims s \<longleftrightarrow> list_all (\<lambda>w. case w of
      Subagent_cleared k tid n \<Rightarrow> list_ex (\<lambda>j. sj_id j = k \<and> sj_status j \<in> {R_starting, R_running}) (po_jobs s)
    | _ \<Rightarrow> True) (po_threads s)"

fun undisturbed :: "pool_settings \<Rightarrow> (string \<Rightarrow> string) \<Rightarrow> (sjob \<Rightarrow> string option) \<Rightarrow> pool \<Rightarrow> pool_call list \<Rightarrow> bool" where
  "undisturbed g sha invalid s [] \<longleftrightarrow> keeps_claims s"
| "undisturbed g sha invalid s (c # cs) \<longleftrightarrow> keeps_claims s \<and> undisturbed g sha invalid (pool_step g sha invalid s c) cs"

text \<open>A sub-agent takes a lane when it runs, or is claimed and about to be started.\<close>

definition in_lane :: "pool \<Rightarrow> sjob \<Rightarrow> bool" where
  "in_lane s j \<longleftrightarrow> sj_kind j = ''subagent'' \<and> (sj_status j = R_running \<or> sj_status j = R_starting \<and> cleared (sj_id j) s)"

definition lanes :: "(sjob \<Rightarrow> string) \<Rightarrow> string \<Rightarrow> pool \<Rightarrow> int" where
  "lanes key v s = int (length (filter (\<lambda>j. in_lane s j \<and> key j = v) (po_jobs s)))"

definition within_quota :: "int \<Rightarrow> (sjob \<Rightarrow> string) \<Rightarrow> pool \<Rightarrow> bool" where
  "within_quota q key s \<longleftrightarrow> (0 < q \<longrightarrow> (\<forall>v. lanes key v s \<le> q))"

definition command_row :: "string \<Rightarrow> pool \<Rightarrow> bool" where
  "command_row i s \<longleftrightarrow> (\<exists>j :: sjob. row_get sj_id i (po_jobs s) = Some j \<and> sj_kind j = ''agent_command'')"

fun typed :: "pool \<Rightarrow> worker \<Rightarrow> bool" where
  "typed s (Subagent_cleared i tid n) \<longleftrightarrow> True"
| "typed s (Command_cleared i) \<longleftrightarrow> command_row i s"
| "typed s (Subagent_ending i tid r st retry past n) \<longleftrightarrow> st \<noteq> R_running"
| "typed s (Command_ending i st error msg) \<longleftrightarrow> command_row i s"

definition quota_inv :: "pool_settings \<Rightarrow> pool \<Rightarrow> bool" where
  "quota_inv g s \<longleftrightarrow> job_ids s \<and> (\<forall>w \<in> set (po_threads s). typed s w) \<and> within_quota (ps_quota_chat g) sj_chat s \<and>
     within_quota (ps_quota_user g) sj_owner s \<and> within_quota (ps_quota_workspace g) sj_workspace s"

lemma length_filter_map_le:
  assumes "\<And>x. x \<in> set xs \<Longrightarrow> Q (f x) \<Longrightarrow> P x"
  shows "length (filter Q (map f xs)) \<le> length (filter P xs)"
  using assms by (induction xs) (auto simp: le_SucI)

lemma length_filter_mono: "(\<And>x. x \<in> set xs \<Longrightarrow> P x \<Longrightarrow> Q x) \<Longrightarrow> length (filter P xs) \<le> length (filter Q xs)"
  using length_filter_map_le [of xs P id Q] by simp

lemma within_mono: "(\<And>v. lanes key v s' \<le> lanes key v s) \<Longrightarrow> within_quota q key s \<Longrightarrow> within_quota q key s'"
  unfolding within_quota_def by (meson order_trans)

lemma lanes_le:
  assumes "po_jobs s' = map f (po_jobs s) @ new" and "\<forall>j \<in> set new. sj_status j = R_queued"
    and "\<And>j. j \<in> set (po_jobs s) \<Longrightarrow> in_lane s' (f j) \<Longrightarrow> in_lane s j" and "\<And>j. j \<in> set (po_jobs s) \<Longrightarrow> key (f j) = key j"
  shows "lanes key v s' \<le> lanes key v s"
proof -
  have "filter (\<lambda>j. in_lane s' j \<and> key j = v) new = []" using assms(2) by (simp add: filter_empty_conv in_lane_def)
  moreover have "length (filter (\<lambda>j. in_lane s' j \<and> key j = v) (map f (po_jobs s))) \<le>
      length (filter (\<lambda>j. in_lane s j \<and> key j = v) (po_jobs s))"
    by (rule length_filter_map_le) (use assms(3,4) in auto)
  ultimately show ?thesis using assms(1) by (simp add: lanes_def)
qed

lemma cleared_in: "cleared i s \<longleftrightarrow> (\<exists>tid n. Subagent_cleared i tid n \<in> set (po_threads s))"
proof -
  have "(case w of Subagent_cleared k tid n \<Rightarrow> k = i | _ \<Rightarrow> False) \<longleftrightarrow> (\<exists>tid n. w = Subagent_cleared i tid n)" for w
    by (cases w) auto
  then show ?thesis by (auto simp: cleared_def list_ex_iff)
qed

lemma claim_kept:
  assumes "keeps_claims s" and "cleared (sj_id j) s" and "job_ids s" and "j \<in> set (po_jobs s)"
  shows "sj_status j \<in> {R_starting, R_running}"
proof -
  from assms(2) obtain tid n where "Subagent_cleared (sj_id j) tid n \<in> set (po_threads s)" by (auto simp: cleared_in)
  with assms(1) have "list_ex (\<lambda>k. sj_id k = sj_id j \<and> sj_status k \<in> {R_starting, R_running}) (po_jobs s)"
    unfolding keeps_claims_def list_all_iff by fastforce
  then obtain k where k: "k \<in> set (po_jobs s)" "sj_id k = sj_id j" "sj_status k \<in> {R_starting, R_running}"
    by (auto simp: list_ex_iff)
  have "row_get sj_id (sj_id j) (po_jobs s) = Some j" using assms(3,4) by (simp add: job_ids_def row_get_distinct)
  from only_row [OF assms(3) this k(1,2)] k(3) show ?thesis by simp
qed

lemma cleared_mono: "set (po_threads s') \<subseteq> set (po_threads s) \<Longrightarrow> cleared i s' \<Longrightarrow> cleared i s"
  unfolding cleared_in by blast

text \<open>The conditions on the threads survive any change of the rows.\<close>

lemma typed_kept:
  assumes "rows_grown True s s'" and "typed s w"
  shows "typed s' w"
proof -
  have "command_row i s'" if "command_row i s" for i
  proof -
    from that obtain j where j: "row_get sj_id i (po_jobs s) = Some j" "sj_kind j = ''agent_command''" by (auto simp: command_row_def)
    from grown_row [OF assms(1) j(1)] obtain k where "row_get sj_id i (po_jobs s') = Some k" "job_evolves True j k" .
    with j(2) show ?thesis by (auto simp: command_row_def job_evolves_def)
  qed
  with assms(2) show ?thesis by (cases w) auto
qed

lemma lane_write:
  assumes inv: "job_ids s" "\<forall>w \<in> set (po_threads s). typed s w" and kc: "keeps_claims s" and w: "w \<in> set (po_threads s)"
    and th: "set (po_threads s') \<subseteq> set (po_threads s)" and j: "j \<in> set (po_jobs s)"
    and e: "job_evolves True j k" "k = j \<or> sj_id j = thread_job w \<and> sj_status k = thread_status w" and lane: "in_lane s' k"
  shows "in_lane s j"
proof -
  have kind: "sj_kind j = ''subagent''" and id: "sj_id k = sj_id j" using lane e(1) by (auto simp: in_lane_def job_evolves_def)
  have row: "row_get sj_id (sj_id j) (po_jobs s) = Some j" using inv(1) j by (simp add: job_ids_def row_get_distinct)
  have claim: "cleared (sj_id j) s \<Longrightarrow> in_lane s j"
    using claim_kept [OF kc _ inv(1) j] kind by (auto simp: in_lane_def)
  show ?thesis
  proof (cases "sj_status k = R_running \<and> k \<noteq> j")
    case True
    with e(2) have t: "thread_job w = sj_id j" "thread_status w = R_running" by simp_all
    have "typed s w" using inv(2) w by blast
    with t row kind have "\<exists>tid n. w = Subagent_cleared (sj_id j) tid n"
      by (cases w) (auto simp: command_row_def split: if_splits)
    with w claim show ?thesis by (auto simp: cleared_in)
  next
    case False
    then show ?thesis
    proof (cases "k = j \<and> sj_status j = R_running")
      case True
      with kind show ?thesis by (simp add: in_lane_def)
    next
      case other: False
      with False lane id have "cleared (sj_id j) s'" by (auto simp: in_lane_def)
      with cleared_mono [OF th] claim show ?thesis by blast
    qed
  qed
qed

lemma lane_calm:
  assumes "keeps_claims s" "job_ids s" "set (po_threads s') \<subseteq> set (po_threads s)" "j \<in> set (po_jobs s)" "job_evolves False j k" "in_lane s' k"
  shows "in_lane s j"
proof -
  have kind: "sj_kind j = ''subagent''" "sj_id k = sj_id j" using assms(5,6) by (auto simp: in_lane_def job_evolves_def)
  show ?thesis
  proof (cases "sj_status k = R_running")
    case True
    with assms(5) kind show ?thesis by (simp add: job_evolves_def in_lane_def)
  next
    case False
    with assms(6) kind have "cleared (sj_id j) s" using cleared_mono [OF assms(3)] by (simp add: in_lane_def)
    with claim_kept [OF assms(1) _ assms(2,4)] kind show ?thesis by (auto simp: in_lane_def)
  qed
qed

text \<open>A decision to start takes one lane, and only below the quotas.\<close>

lemma length_filter_but_one:
  assumes "distinct (map key xs)"
  shows "length (filter Q xs) \<le> length (filter (\<lambda>x. key x \<noteq> i \<and> Q x) xs) + 1"
  using assms
proof (induction xs)
  case (Cons x xs)
  show ?case
  proof (cases "key x = i")
    case True
    with Cons.prems have "i \<notin> key ` set xs" by auto
    then have "filter (\<lambda>x. key x \<noteq> i \<and> Q x) xs = filter Q xs" by (auto intro: filter_cong)
    with True show ?thesis by simp
  qed (use Cons in simp)
qed simp

lemma lanes_cleared:
  assumes ids: "job_ids s" and row: "row_get sj_id i (po_jobs s) = Some j"
  shows "lanes key v (s\<lparr>po_threads := po_threads s @ [Subagent_cleared i tid n]\<rparr>) \<le>
    (if key j = v then active_subagents (\<lambda>k. key k = key j) i s + 1 else lanes key v s)"
proof (cases "key j = v")
  case True
  let ?s = "s\<lparr>po_threads := po_threads s @ [Subagent_cleared i tid n]\<rparr>"
  let ?Q = "\<lambda>j. in_lane ?s j \<and> key j = v"
  have "length (filter ?Q (po_jobs s)) \<le> length (filter (\<lambda>x. sj_id x \<noteq> i \<and> ?Q x) (po_jobs s)) + 1"
    by (rule length_filter_but_one) (use ids in \<open>simp add: job_ids_def\<close>)
  also have "\<dots> \<le> length (filter (\<lambda>k. sj_kind k = ''subagent'' \<and> sj_status k \<in> {R_starting, R_running} \<and> sj_id k \<noteq> i \<and> key k = key j) (po_jobs s)) + 1"
    using True by (auto simp: in_lane_def intro!: length_filter_mono)
  finally show ?thesis using True by (simp add: lanes_def active_subagents_def)
next
  case False
  let ?s = "s\<lparr>po_threads := po_threads s @ [Subagent_cleared i tid n]\<rparr>"
  have "length (filter (\<lambda>j. in_lane ?s j \<and> key j = v) (po_jobs s)) \<le> length (filter (\<lambda>j. in_lane s j \<and> key j = v) (po_jobs s))"
  proof (rule length_filter_mono)
    fix x
    assume x: "x \<in> set (po_jobs s)" and q: "in_lane ?s x \<and> key x = v"
    have "sj_id x \<noteq> i" using only_row [OF ids row x] q False by auto
    with q show "in_lane s x \<and> key x = v" by (auto simp: in_lane_def cleared_in)
  qed
  with False show ?thesis by (simp add: lanes_def)
qed

lemma quota_step:
  assumes inv: "quota_inv g s" and kc: "keeps_claims s"
  shows "quota_inv g (pool_step g sha invalid s c)"
proof -
  from inv have ids: "job_ids s" and ty: "\<forall>w \<in> set (po_threads s). typed s w" by (simp_all add: quota_inv_def)
  let ?s = "pool_step g sha invalid s c"
  have rows: "rows_grown True s ?s" by (rule step_rows [OF ids])
  have less: "quota_inv g ?s" if "\<And>key v. (\<And>b j k. job_evolves b j k \<Longrightarrow> key k = key j) \<Longrightarrow> lanes key v ?s \<le> lanes key v s"
    "set (po_threads ?s) \<subseteq> set (po_threads s)"
  proof -
    have "lanes sj_chat v ?s \<le> lanes sj_chat v s" "lanes sj_owner v ?s \<le> lanes sj_owner v s"
      "lanes sj_workspace v ?s \<le> lanes sj_workspace v s" for v
      by (rule that(1), simp add: job_evolves_def)+
    with inv grown_ids [OF rows ids] typed_kept [OF rows] that(2) show ?thesis
      unfolding quota_inv_def by (blast intro: within_mono)
  qed
  from ids show ?thesis
  proof (cases rule: step_cases [where g = g and sha = sha and invalid = invalid and c = c])
    case (writes w now)
    show ?thesis
    proof (cases rule: worker_write_cases [where w = w and now = now and s = s])
      case 1
      with inv writes show ?thesis by simp
    next
      case (2 f)
      have th: "set (po_threads ?s) \<subseteq> set (po_threads s)" using 2(2) set_remove1_subset [of w] by (simp add: writes)
      show ?thesis
      proof (rule less [OF _ th])
        fix key :: "sjob \<Rightarrow> string" and v
        assume key: "\<And>b j k. job_evolves b j k \<Longrightarrow> key k = key j"
        show "lanes key v ?s \<le> lanes key v s"
        proof (rule lanes_le [where f = f and new = "[]"])
          fix j
          assume j: "j \<in> set (po_jobs s)"
          from lane_write [OF ids ty kc 2(1) th j] 2(4) [OF j] show "in_lane ?s (f j) \<Longrightarrow> in_lane s j" by blast
          from 2(4) [OF j] key show "key (f j) = key j" by blast
        qed (simp_all add: writes 2(3))
      qed
    qed
  next
    case calm
    then have th: "set (po_threads ?s) \<subseteq> set (po_threads s)" by (simp add: grown_def)
    from calm obtain f new where f: "po_jobs ?s = map f (po_jobs s) @ new" "\<forall>j \<in> set (po_jobs s). job_evolves False j (f j)"
      "\<forall>j \<in> set new. sj_status j = R_queued" unfolding grown_def rows_grown_def by blast
    show ?thesis
    proof (rule less [OF _ th])
      fix key :: "sjob \<Rightarrow> string" and v
      assume key: "\<And>b j k. job_evolves b j k \<Longrightarrow> key k = key j"
      show "lanes key v ?s \<le> lanes key v s"
      proof (rule lanes_le [OF f(1,3)])
        fix j
        assume j: "j \<in> set (po_jobs s)"
        with f(2) lane_calm [OF kc ids th j] show "in_lane ?s (f j) \<Longrightarrow> in_lane s j" by blast
        from f(2) j key show "key (f j) = key j" by blast
      qed
    qed
  next
    case (decide w)
    have ty': "\<forall>x \<in> set (po_threads ?s). typed ?s x"
    proof -
      have "typed s w" using decide(2) by (cases w) (auto simp: command_row_def)
      with ty typed_kept [OF rows] show ?thesis by (auto simp: decide(1))
    qed
    show ?thesis
    proof (cases "\<exists>i tid n. w = Subagent_cleared i tid n")
      case False
      then have "in_lane ?s j = in_lane s j" for j by (cases w) (auto simp: decide(1) in_lane_def cleared_in)
      then have "lanes key v ?s = lanes key v s" for key v by (simp add: lanes_def decide(1))
      with inv ty' grown_ids [OF rows ids] show ?thesis by (simp add: quota_inv_def within_quota_def)
    next
      case True
      then obtain i tid n where w: "w = Subagent_cleared i tid n" by blast
      with decide(2) obtain j where j: "row_get sj_id i (po_jobs s) = Some j" "subagent_quota g j s = None" by auto
      have i: "sj_id j = i" using j(1) by (rule row_get_key)
      from j(2) i have free: "0 < ps_quota_chat g \<Longrightarrow> active_subagents (\<lambda>k. sj_chat k = sj_chat j) i s < ps_quota_chat g"
        "0 < ps_quota_user g \<Longrightarrow> active_subagents (\<lambda>k. sj_owner k = sj_owner j) i s < ps_quota_user g"
        "0 < ps_quota_workspace g \<Longrightarrow> active_subagents (\<lambda>k. sj_workspace k = sj_workspace j) i s < ps_quota_workspace g"
        by (auto simp: subagent_quota_def split: if_splits)
      have step: "within_quota q key ?s" if "within_quota q key s" "0 < q \<Longrightarrow> active_subagents (\<lambda>k. key k = key j) i s < q" for q key
        unfolding within_quota_def
      proof (intro impI allI)
        fix v
        assume "0 < q"
        with that lanes_cleared [OF ids j(1), of key v tid n] show "lanes key v ?s \<le> q"
          by (cases "key j = v") (auto simp: within_quota_def decide(1) w intro: order_trans)
      qed
      from inv free ty' grown_ids [OF rows ids] show ?thesis unfolding quota_inv_def by (auto intro: step)
    qed
  qed
qed

lemma quota_run: "quota_inv g s \<Longrightarrow> undisturbed g sha invalid s cs \<Longrightarrow> quota_inv g (foldl (pool_step g sha invalid) s cs)"
  by (induction cs arbitrary: s) (auto intro: quota_step)

lemma running_in_lanes: "running_subagents key v s \<le> lanes key v s"
  by (auto simp: running_subagents_def lanes_def in_lane_def intro!: length_filter_mono)

text \<open>
  C20. The quotas of concurrent sub-agents are hard limits for the races of workers: in every interleaving of
  submissions, scheduling rounds and worker threads, with every check of a worker and the start it decides on as
  separate steps, no more sub-agents of a conversation, a user or a workspace run than its positive quota allows.
  The condition is that no job is taken from a worker between its check and its start, by a cancellation, a
  recovery or another thread of the same job; the start does not ask again, and without the condition the
  quota can be exceeded.
\<close>

theorem subagent_quotas_hold:
  assumes "distinct (map sj_id (po_jobs s))" and "\<forall>j \<in> set (po_jobs s). sj_status j \<noteq> R_running" and "po_threads s = []"
    and "undisturbed g sha invalid s cs"
  shows "let t = foldl (pool_step g sha invalid) s cs in
    (0 < ps_quota_chat g \<longrightarrow> (\<forall>chat. running_subagents sj_chat chat t \<le> ps_quota_chat g)) \<and>
    (0 < ps_quota_user g \<longrightarrow> (\<forall>owner. running_subagents sj_owner owner t \<le> ps_quota_user g)) \<and>
    (0 < ps_quota_workspace g \<longrightarrow> (\<forall>ws. running_subagents sj_workspace ws t \<le> ps_quota_workspace g))"
proof -
  have "lanes key v s = 0" for key v
    using assms(2,3) by (simp add: lanes_def filter_empty_conv in_lane_def cleared_in)
  then have "quota_inv g s" using assms(1,3) by (simp add: job_ids_def quota_inv_def within_quota_def)
  from quota_run [OF this assms(4)] show ?thesis
    using running_in_lanes by (fastforce simp: quota_inv_def within_quota_def Let_def intro: order_trans)
qed

section \<open>Between a check and a write\<close>

text \<open>
  The start of a sub-agent names its rows by their identifiers alone. A cancellation that is committed after the
  worker's last look at the job and before that statement is overwritten: the job runs.
\<close>

lemma cancel_before_start_is_lost:
  "let s = foldl (pool_step example_settings id (\<lambda>j. None)) (example_pool R_queued)
      [Schedule [] [] 1, Dispatch 2 ''j2'', Dispatch 3 ''j1'', Cancel_job ''j1'' 4, Write (Subagent_cleared ''j1'' ''t1'' 1) 5] in
   map (\<lambda>j. (sj_id j, sj_status j, sj_cancel j)) (po_jobs s) = [(''j1'', R_running, True), (''j2'', R_queued, False)]"
  by code_simp

text \<open>
  So is the recovery of a job that has been starting for thirty seconds, and then a quota of one sub-agent is
  exceeded: the job is claimed again and sent back by the quota, the other job is let in, and then the slow
  worker of the first round starts the first job as well.
\<close>

lemma recovered_start_exceeds_quota:
  "let s = foldl (pool_step example_settings id (\<lambda>j. None)) (example_pool R_queued)
      [Schedule [] [] 1, Dispatch 2 ''j2'', Dispatch 3 ''j1'', Schedule [] [] 32, Dispatch 33 ''j1'', Dispatch 34 ''j2'',
       Write (Subagent_cleared ''j2'' ''t2'' 2) 35, Write (Subagent_cleared ''j1'' ''t1'' 1) 36] in
   ps_quota_chat example_settings = 1 \<and> running_subagents sj_chat ''c'' s = 2"
  by code_simp

section \<open>Instances\<close>

theorem cancelled_job_never_runs_witness:
  "\<exists>k. row_get sj_id ''j2'' (po_jobs (foldl (pool_step example_settings id (\<lambda>j. None)) (cancel_job ''j2'' 1 (example_pool R_running))
      [Schedule [] [] 2, Admit example_host ''r'' 3 ''j2'', Dispatch 4 ''j2''])) = Some k \<and>
    sj_status k \<notin> {R_succeeded, R_partial} \<and> sj_status k \<noteq> R_running"
  using cancelled_job_never_runs [of "example_pool R_running" "''j2''" "example_job ''j2'' ''t2'' R_queued" example_settings id "\<lambda>j. None" 1
      "[Schedule [] [] 2, Admit example_host ''r'' 3 ''j2'', Dispatch 4 ''j2'']"]
  by (auto simp: example_pool_def example_job_def terminal_job_statuses_def)

text \<open>Both jobs are claimed; the first is sent back by the chat's quota of one, the second is checked and started.\<close>

definition race :: "pool_call list" where
  "race = [Schedule [] [] 1, Dispatch 2 ''j1'', Dispatch 3 ''j2'', Write (Subagent_cleared ''j2'' ''t2'' 1) 4]"

theorem subagent_quotas_hold_witness:
  "running_subagents sj_chat ''c'' (foldl (pool_step example_settings id (\<lambda>j. None)) (example_pool R_queued) race) \<le> 1"
proof -
  have "ps_quota_chat example_settings = 1" by (simp add: example_settings_def)
  moreover have "distinct (map sj_id (po_jobs (example_pool R_queued)))" "\<forall>j \<in> set (po_jobs (example_pool R_queued)). sj_status j \<noteq> R_running"
    "po_threads (example_pool R_queued) = []" by (simp_all add: example_pool_def example_job_def)
  moreover have "undisturbed example_settings id (\<lambda>j. None) (example_pool R_queued) race" by code_simp
  ultimately show ?thesis
    using subagent_quotas_hold [of "example_pool R_queued" example_settings id "\<lambda>j. None" race] by (simp add: Let_def)
qed

end
