(* ===== verification/Subagent_Failures.thy ===== *)
theory Subagent_Failures
  imports Subagent_Facts
begin

text \<open>
  Where the pool fails its users: waiting for a quota uses up the attempts of a job that never ran, and a
  delegation refused by a full queue leaves a task that is queued for ever.
\<close>

section \<open>Waiting for a quota\<close>

text \<open>One wait: a round claims the job, a worker admits it and dispatches it, and the quota sends it back.\<close>

definition claimed_job :: "instant \<Rightarrow> sjob \<Rightarrow> sjob" where
  "claimed_job now j = j\<lparr>sj_status := R_starting, sj_attempt := sj_attempt j + 1, sj_available := now\<rparr>"

definition quota_wait :: "pool_settings \<Rightarrow> host \<Rightarrow> (sjob \<Rightarrow> string option) \<Rightarrow> string \<Rightarrow> string \<Rightarrow> pool \<Rightarrow> instant \<Rightarrow> pool" where
  "quota_wait g h invalid rid i s now = (case row_get sj_id i (po_jobs s) of
      None \<Rightarrow> s
    | Some j \<Rightarrow> (case admit_job g h rid now i (fst (claim_job now (s, []) j)) of
        (s', Worker_done) \<Rightarrow> s' | (s', Worker_admitted _) \<Rightarrow> fst (dispatch_job g invalid now i s')))"

lemma task_of_job_same:
  assumes "po_tasks s' = po_tasks s" and "sj_payload j' = sj_payload j" and "sj_workspace j' = sj_workspace j" and "sj_owner j' = sj_owner j"
    and "sj_chat j' = sj_chat j"
  shows "task_of_job j' s' = task_of_job j s"
  unfolding task_of_job_def names_task_def payload_task_def assms ..

lemma active_elsewhere:
  assumes "\<And>j. sj_id (f j) = sj_id j"
  shows "active_subagents p i (set_job i f s) = active_subagents p i s"
proof -
  have "filter (\<lambda>j. sj_kind j = ''subagent'' \<and> sj_status j \<in> {R_starting, R_running} \<and> sj_id j \<noteq> i \<and> p j) (row_mod sj_id i f js) =
    filter (\<lambda>j. sj_kind j = ''subagent'' \<and> sj_status j \<in> {R_starting, R_running} \<and> sj_id j \<noteq> i \<and> p j) js" for js
    by (induction js) (simp_all add: assms)
  then show ?thesis by (simp add: active_subagents_def set_job_def)
qed

lemma quota_elsewhere:
  assumes "\<And>j. sj_id (f j) = sj_id j" and "sj_id j' = i" and "sj_id j = i" and "sj_workspace j' = sj_workspace j" and "sj_owner j' = sj_owner j"
    and "sj_chat j' = sj_chat j"
  shows "subagent_quota g j' (set_job i f s) = subagent_quota g j s"
  by (simp add: subagent_quota_def assms active_elsewhere)

text \<open>A queued sub-agent that needs no container, whose quota is full, after so many attempts.\<close>

definition waits_for_quota :: "pool_settings \<Rightarrow> string \<Rightarrow> int \<Rightarrow> pool \<Rightarrow> bool" where
  "waits_for_quota g i n s \<longleftrightarrow> (\<exists>j. row_get sj_id i (po_jobs s) = Some j \<and> sj_kind j = ''subagent'' \<and> sj_status j = R_queued \<and>
     \<not> sj_cancel j \<and> \<not> needs_container j \<and> task_of_job j s \<noteq> None \<and> subagent_quota g j s \<noteq> None \<and> sj_attempt j = n)"

lemma row_set_job: "(\<And>j. sj_id (f j) = sj_id j) \<Longrightarrow> row_get sj_id i (po_jobs s) = Some j \<Longrightarrow> row_get sj_id i (po_jobs (set_job i f s)) = Some (f j)"
  by (simp add: set_job_def row_get_mod_same)

lemma queue_claim:
  assumes "row_get sj_id i (po_jobs s) = Some j" and "sj_status j = R_queued"
  shows "fst (claim_job now (s, []) j) = set_job i (claimed_job now) s"
  proof -
  have "claimed_job now = (\<lambda>j. j\<lparr>sj_status := R_starting, sj_attempt := sj_attempt j + 1, sj_available := now\<rparr>)"
    by (simp add: fun_eq_iff claimed_job_def)
  then show ?thesis using row_get_SomeD [OF assms(1)] assms(2) by (auto simp: claim_job_def list_ex_iff)
qed

lemma needs_container_same:
  "sj_kind j' = sj_kind j \<Longrightarrow> sj_payload j' = sj_payload j \<Longrightarrow> needs_container j' = needs_container j"
  by (simp add: needs_container_def)

lemma quota_wait_step:
  assumes "waits_for_quota g i n s"
  shows "n < max_job_attempts \<Longrightarrow> waits_for_quota g i (n + 1) (quota_wait g h invalid rid i s now)"
    and "max_job_attempts \<le> n \<Longrightarrow> \<exists>k. row_get sj_id i (po_jobs (quota_wait g h invalid rid i s now)) = Some k \<and> sj_status k = R_failed \<and>
      sj_error k = Some ''max_attempts_reached''"
proof -
  from assms obtain j where j: "row_get sj_id i (po_jobs s) = Some j" "sj_kind j = ''subagent''" "sj_status j = R_queued" "\<not> sj_cancel j"
    "\<not> needs_container j" "task_of_job j s \<noteq> None" "subagent_quota g j s \<noteq> None" "sj_attempt j = n" unfolding waits_for_quota_def by blast
  have i: "sj_id j = i" using j(1) by (rule row_get_key)
  let ?s1 = "set_job i (claimed_job now) s"
  let ?j1 = "claimed_job now j"
  have row1: "row_get sj_id i (po_jobs ?s1) = Some ?j1" using j(1) by (rule row_set_job [rotated]) (simp add: claimed_job_def)
  have nc: "\<not> needs_container ?j1" using j(5) needs_container_same [of ?j1 j] by (simp add: claimed_job_def)
  have t1: "task_of_job ?j1 ?s1 = task_of_job j s" by (rule task_of_job_same) (simp_all add: claimed_job_def set_job_def)
  have q1: "subagent_quota g ?j1 ?s1 = subagent_quota g j s" by (rule quota_elsewhere) (simp_all add: claimed_job_def i)
  obtain reason where reason: "subagent_quota g j s = Some reason" using j(7) by blast
  obtain t where t: "task_of_job j s = Some t" using j(6) by blast
  have adm: "quota_wait g h invalid rid i s now = (case admit_job g h rid now i ?s1 of
      (s', Worker_done) \<Rightarrow> s' | (s', Worker_admitted _) \<Rightarrow> fst (dispatch_job g invalid now i s'))"
    unfolding quota_wait_def j(1) option.case queue_claim [OF j(1,3)] ..
  {
    assume n: "n < max_job_attempts"
    let ?requeued = "\<lambda>k. k\<lparr>sj_status := R_queued, sj_reason := Some reason, sj_attempt := n + 1, sj_available := now + 5\<rparr>"
    have "admit_job g h rid now i ?s1 = (?s1, Worker_admitted None)"
      using row1 nc n j(4,8) by (simp add: admit_job_def claimed_job_def)
    moreover have "fst (dispatch_job g invalid now i ?s1) = set_job i ?requeued ?s1"
      using row1 t1 q1 t reason j(2,4,8) i by (simp add: dispatch_job_def dispatch_subagent_def requeue_job_def claimed_job_def)
    ultimately have result: "quota_wait g h invalid rid i s now = set_job i ?requeued ?s1" unfolding adm by simp
    have row2: "row_get sj_id i (po_jobs (set_job i ?requeued ?s1)) = Some (?requeued ?j1)" using row1 by (rule row_set_job [rotated]) simp
    have "task_of_job (?requeued ?j1) (set_job i ?requeued ?s1) = task_of_job ?j1 ?s1" by (rule task_of_job_same) (simp_all add: set_job_def)
    moreover have "subagent_quota g (?requeued ?j1) (set_job i ?requeued ?s1) = subagent_quota g ?j1 ?s1" by (rule quota_elsewhere) (simp_all add: claimed_job_def i)
    moreover have "needs_container (?requeued ?j1) = needs_container ?j1" by (rule needs_container_same) simp_all
    ultimately show "waits_for_quota g i (n + 1) (quota_wait g h invalid rid i s now)"
      unfolding result waits_for_quota_def row2 using t1 q1 t reason nc j(2,4) by (simp add: claimed_job_def)
  }
  assume n: "max_job_attempts \<le> n"
  have "admit_job g h rid now i ?s1 = (finish_job i R_failed (Some ''max_attempts_reached'') None now ?s1, Worker_done)"
    using row1 n j(4,8) by (simp add: admit_job_def claimed_job_def)
  then have result: "quota_wait g h invalid rid i s now = finish_job i R_failed (Some ''max_attempts_reached'') None now ?s1" unfolding adm by simp
  show "\<exists>k. row_get sj_id i (po_jobs (quota_wait g h invalid rid i s now)) = Some k \<and> sj_status k = R_failed \<and> sj_error k = Some ''max_attempts_reached''"
    unfolding result finish_job_jobs using row1 by (simp add: row_get_mod_same)
qed

lemma quota_waits:
  assumes "waits_for_quota g i n s" and "n + int (length ts) \<le> max_job_attempts"
  shows "waits_for_quota g i (n + int (length ts)) (foldl (quota_wait g h invalid rid i) s ts)"
  using assms
proof (induction ts arbitrary: n s)
  case (Cons t ts)
  then have "waits_for_quota g i (n + 1) (quota_wait g h invalid rid i s t)" by (intro quota_wait_step(1)) simp_all
  from Cons.IH [OF this] Cons.prems(2) show ?case by (simp add: add.assoc)
qed simp

text \<open>
  C25. Waiting for a quota is not free: a sub-agent that needs no container and finds its conversation's quota
  full keeps its place in the queue five times, whatever the times of the rounds, and at the sixth round its
  job fails as out of attempts although it never ran. (A wait for capacity gives the attempt back.)
\<close>

theorem quota_waits_exhaust_attempts:
  assumes "row_get sj_id i (po_jobs s) = Some j" and "sj_kind j = ''subagent''" and "sj_status j = R_queued" and "\<not> sj_cancel j"
    and "\<not> needs_container j" and "task_of_job j s = Some t" and "subagent_quota g j s = Some reason" and "sj_attempt j = 0"
    and "length ts = 5"
  shows "waits_for_quota g i 5 (foldl (quota_wait g h invalid rid i) s ts) \<and>
    (\<exists>k. row_get sj_id i (po_jobs (foldl (quota_wait g h invalid rid i) s (ts @ [now]))) = Some k \<and>
      sj_status k = R_failed \<and> sj_error k = Some ''max_attempts_reached'')"
proof -
  have "waits_for_quota g i 0 s" using assms(1-8) unfolding waits_for_quota_def by simp
  from quota_waits [OF this, of ts h invalid rid] assms(9)
  have five: "waits_for_quota g i 5 (foldl (quota_wait g h invalid rid i) s ts)" by (simp add: max_job_attempts_def)
  from quota_wait_step(2) [OF this, of h invalid rid now] five show ?thesis by (simp add: max_job_attempts_def)
qed

section \<open>A refused delegation\<close>

lemma profile_error_code: "subagent_profile r = Inl e \<Longrightarrow> e \<noteq> App_error 429 m"
  by (auto simp: subagent_profile_def split: sum.splits)

lemma refused_delegation:
  assumes "delegate_subagent en g sha policy (Inr nested) c r tid drawn jid now s = (s', Inl (App_error 429 m))"
  obtains pf net where "en" and "\<not> nested" and "subagent_profile r = Inr (pf, net)"
    and "given_key r \<noteq> [] \<Longrightarrow> find_task c (task_name sha r drawn) s = None"
    and "s' = s\<lparr>po_tasks := po_tasks s @ [new_task c r pf net tid (task_name sha r drawn)]\<rparr>"
proof -
  from assms have en: "en" by (cases en) (simp_all add: delegate_subagent_def)
  from assms en have nested: "\<not> nested" by (cases nested) (simp_all add: delegate_subagent_def require_def)
  show thesis
  proof (cases "subagent_profile r")
    case (Inl e)
    with assms en nested profile_error_code [OF Inl] show thesis by (simp add: delegate_subagent_def require_def)
  next
    case (Inr x)
    obtain pf net where x: "x = (pf, net)" by fastforce
    have "(given_key r \<noteq> [] \<longrightarrow> find_task c (task_name sha r drawn) s = None) \<and>
      s' = s\<lparr>po_tasks := po_tasks s @ [new_task c r pf net tid (task_name sha r drawn)]\<rparr>"
      using assms en nested Inr x
      by (cases "given_key r = []"; cases "find_task c (task_name sha r drawn) s")
        (auto simp: delegate_subagent_def require_def Let_def split: if_splits sum.splits prod.splits)
    with en nested Inr x show thesis by (intro that) simp_all
  qed
qed

text \<open>
  C26. A delegation that the full queue refuses has already committed its task, and the task is stuck: the
  caller's own retry with the same key is answered with it as if it had been accepted, it can be neither
  cancelled, for want of a job, nor retried, because it counts as queued. No job of it exists.
\<close>

theorem refused_subagent_is_stuck:
  assumes "delegate_subagent en g sha policy (Inr nested) c r tid drawn jid now s = (s', Inl (App_error 429 m))"
    and "given_key r \<noteq> []"
  shows "\<exists>t. find_task c (task_name sha r drawn) s' = Some t \<and> at_status t = R_queued \<and> at_job t = None \<and> po_jobs s' = po_jobs s \<and>
    delegate_subagent en g sha policy (Inr nested) c r tid' drawn' jid' later s' = (s', Inr (Replayed t)) \<and>
    cancel_subagent (Inr nested) c (at_name t) (sq_chat r) later s' = Inl (App_error 409 ''subagent_job_missing'') \<and>
    retry_subagent g sha policy (Inr nested) c (at_name t) (sq_chat r) override title jid' later s' = Inl (App_error 409 ''subagent_already_running'')"
proof -
  from assms(1) obtain pf net where d: "en" "\<not> nested" "subagent_profile r = Inr (pf, net)" "find_task c (task_name sha r drawn) s = None"
    "s' = s\<lparr>po_tasks := po_tasks s @ [new_task c r pf net tid (task_name sha r drawn)]\<rparr>"
    by (rule refused_delegation) (rule that, use assms(2) in simp_all)
  let ?n = "task_name sha r drawn"
  let ?t = "new_task c r pf net tid ?n"
  have t: "at_name ?t = ?n" "at_status ?t = R_queued" "at_job ?t = None" "at_chat ?t = sq_chat r" "at_workspace ?t = cr_workspace c" "at_owner ?t = cr_actor c"
    by (simp_all add: new_task_def)
  have find: "find_task c ?n s' = Some ?t" using d(4) unfolding find_task_def d(5) by (simp add: find_snoc t)
  have name: "task_name sha r x = ?n" for x using assms(2) by (simp add: task_name_def)
  have "find (\<lambda>t. at_workspace t = cr_workspace c \<and> at_owner t = cr_actor c \<and> at_chat t = sq_chat r \<and> at_name t = ?n) (po_tasks s) = None"
    using d(4) by (simp add: find_task_def find_None_iff)
  then have "find (\<lambda>t. at_workspace t = cr_workspace c \<and> at_owner t = cr_actor c \<and> at_chat t = sq_chat r \<and> at_name t = ?n) (po_tasks s') = Some ?t"
    unfolding d(5) by (simp add: find_snoc t)
  moreover have "?n \<noteq> []" by (simp add: task_name_def)
  ultimately have load: "load_agent_task (Inr nested) c ?n (sq_chat r) s' = Inr ?t" by (simp add: load_agent_task_def)
  have again: "delegate_subagent en g sha policy (Inr nested) c r tid' drawn' jid' later s' = (s', Inr (Replayed ?t))"
    using d(1-3) find assms(2) t(4) by (simp add: delegate_subagent_def name [of drawn'] Let_def)
  have "cancel_subagent (Inr nested) c ?n (sq_chat r) later s' = Inl (App_error 409 ''subagent_job_missing'')"
    using load t(2,3) by (simp add: cancel_subagent_def terminal_task_statuses_def)
  moreover have "retry_subagent g sha policy (Inr nested) c ?n (sq_chat r) override title jid' later s' = Inl (App_error 409 ''subagent_already_running'')"
    using load t(2) by (simp add: retry_subagent_def require_def)
  moreover have "po_jobs s' = po_jobs s" by (simp add: d(5))
  ultimately have "find_task c ?n s' = Some ?t \<and> at_status ?t = R_queued \<and> at_job ?t = None \<and> po_jobs s' = po_jobs s \<and>
    delegate_subagent en g sha policy (Inr nested) c r tid' drawn' jid' later s' = (s', Inr (Replayed ?t)) \<and>
    cancel_subagent (Inr nested) c (at_name ?t) (sq_chat r) later s' = Inl (App_error 409 ''subagent_job_missing'') \<and>
    retry_subagent g sha policy (Inr nested) c (at_name ?t) (sq_chat r) override title jid' later s' = Inl (App_error 409 ''subagent_already_running'')"
    unfolding t(1) using find again t(2,3) by (intro conjI)
  then show ?thesis by blast
qed

section \<open>Instances\<close>

theorem quota_waits_exhaust_attempts_witness:
  "\<exists>k. row_get sj_id ''j2'' (po_jobs (foldl (quota_wait example_settings example_host (\<lambda>j. None) ''r'' ''j2'') (example_pool R_running)
      [5, 10, 15, 20, 25, 30])) = Some k \<and> sj_status k = R_failed"
proof -
  let ?j = "example_job ''j2'' ''t2'' R_queued"
  have row: "row_get sj_id ''j2'' (po_jobs (example_pool R_running)) = Some ?j" by code_simp
  have fields: "sj_kind ?j = ''subagent''" "sj_status ?j = R_queued" "\<not> sj_cancel ?j" "sj_attempt ?j = 0" by (simp_all add: example_job_def)
  have lane: "\<not> needs_container ?j" by code_simp
  have task: "task_of_job ?j (example_pool R_running) = Some (example_task ''t2'' R_queued)" by code_simp
  have quota: "subagent_quota example_settings ?j (example_pool R_running) = Some ''subagent_chat_quota''" by code_simp
  from quota_waits_exhaust_attempts [OF row fields(1-3) lane task quota fields(4), of "[5, 10, 15, 20, 25]"] show ?thesis by fastforce
qed

theorem refused_subagent_is_stuck_witness:
  "\<exists>s' t. find_task example_caller (task_name id example_request []) s' = Some t \<and> at_job t = None \<and>
     cancel_subagent (Inr False) example_caller (at_name t) ''c'' 9 s' = Inl (App_error 409 ''subagent_job_missing'')"
proof -
  let ?out = "delegate_subagent True example_settings id None (Inr False) example_caller example_request ''t3'' [] ''j3'' 5 (example_pool R_queued)"
  have "snd ?out = Inl (App_error 429 ''sandbox_queue_depth_exceeded'')" by code_simp
  then have out: "?out = (fst ?out, Inl (App_error 429 ''sandbox_queue_depth_exceeded''))" by (simp add: prod_eq_iff)
  have k: "given_key example_request \<noteq> []" by code_simp
  have c: "sq_chat example_request = ''c''" by (simp add: example_request_def)
  from refused_subagent_is_stuck [OF out k, where later = 9] show ?thesis unfolding c by blast
qed

end
