(* ===== verification/Subagent_Log.thy ===== *)
theory Subagent_Log
  imports Subagent_Facts
begin

text \<open>
  The event log of the sub-agents and the submission of jobs: under every interleaving of the pool's calls the
  events of a task carry exactly the numbers up to its counter, in order, and a job key is submitted once.
\<close>

section \<open>The event log\<close>

definition log_inv :: "pool \<Rightarrow> bool" where
  "log_inv s \<longleftrightarrow> distinct (map at_id (po_tasks s)) \<and> ae_task ` set (po_events s) \<subseteq> at_id ` set (po_tasks s) \<and>
     (\<forall>t \<in> set (po_tasks s). map ae_seq (filter (\<lambda>e. ae_task e = at_id t) (po_events s)) = [1..<Suc (at_seq t)])"

definition logs :: "pool \<Rightarrow> pool \<Rightarrow> bool" where
  "logs s s' \<longleftrightarrow> (log_inv s \<longrightarrow> log_inv s')"

lemma logs_refl [simp]: "logs s s"
  by (simp add: logs_def)

lemma logs_trans: "logs s s' \<Longrightarrow> logs s' s'' \<Longrightarrow> logs s s''"
  by (simp add: logs_def)

lemma logs_same: "po_tasks s' = po_tasks s \<Longrightarrow> po_events s' = po_events s \<Longrightarrow> logs s s'"
  by (simp add: logs_def log_inv_def)

lemma logs_foldl:
  assumes "\<And>s x. logs s (h s x)"
  shows "logs s (foldl h s xs)"
proof (induction xs arbitrary: s)
  case (Cons x xs)
  show ?case using logs_trans [OF assms Cons.IH] by simp
qed simp

lemma logs_set_job: "logs s s' \<Longrightarrow> logs s (set_job i f s')"
  by (rule logs_trans) (auto intro: logs_same simp: set_job_def)

lemma logs_set_task:
  assumes "logs s s'" and "\<And>t. at_id (f t) = at_id t" and "\<And>t. at_seq (f t) = at_seq t"
  shows "logs s (set_task i f s')"
proof -
  have "map at_id (row_mod at_id i f ts) = map at_id ts" for ts by (rule row_mod_keys) (simp add: assms)
  then have ids: "map at_id (po_tasks (set_task i f s')) = map at_id (po_tasks s')" by (simp add: set_task_def)
  then have "at_id ` set (po_tasks (set_task i f s')) = at_id ` set (po_tasks s')" by (metis list.set_map)
  moreover have "map ae_seq (filter (\<lambda>e. ae_task e = at_id t) (po_events s')) = [1..<Suc (at_seq t)]"
    if "t \<in> set (po_tasks (set_task i f s'))" "\<forall>t \<in> set (po_tasks s'). map ae_seq (filter (\<lambda>e. ae_task e = at_id t) (po_events s')) = [1..<Suc (at_seq t)]" for t
  proof -
    from that(1) obtain t0 where "t0 \<in> set (po_tasks s')" "t = (if at_id t0 = i then f t0 else t0)" by (auto simp: set_task_def dest: set_row_mod)
    with that(2) assms show ?thesis by (auto split: if_splits)
  qed
  ultimately have "logs s' (set_task i f s')" unfolding logs_def log_inv_def ids by (simp add: set_task_def)
  with assms(1) show ?thesis by (rule logs_trans)
qed

lemma logs_append:
  assumes "logs s s'"
  shows "logs s (append_agent_event i ty s')"
proof (cases "row_get at_id i (po_tasks s')")
  case (Some t)
  note row = row_get_SomeD [OF Some]
  let ?ts = "row_mod at_id i (\<lambda>t. t\<lparr>at_seq := at_seq t + 1\<rparr>) (po_tasks s')"
  let ?es = "po_events s' @ [\<lparr>ae_task = i, ae_seq = at_seq t + 1, ae_type = ty\<rparr>]"
  have ids: "map at_id ?ts = map at_id (po_tasks s')" by (rule row_mod_keys) simp
  then have set_ids: "at_id ` set ?ts = at_id ` set (po_tasks s')" by (metis list.set_map)
  have "log_inv (append_agent_event i ty s')" if inv: "log_inv s'"
  proof -
    have "map ae_seq (filter (\<lambda>e. ae_task e = at_id u) ?es) = [1..<Suc (at_seq u)]" if "u \<in> set ?ts" for u
    proof -
      from set_row_mod [OF that] obtain u0 where u0: "u0 \<in> set (po_tasks s')" "u = (if at_id u0 = i then u0\<lparr>at_seq := at_seq u0 + 1\<rparr> else u0)" by blast
      have old: "map ae_seq (filter (\<lambda>e. ae_task e = at_id u0) (po_events s')) = [1..<Suc (at_seq u0)]" using inv u0(1) by (simp add: log_inv_def)
      show ?thesis
      proof (cases "at_id u0 = i")
        case True
        have "distinct (map at_id (po_tasks s'))" using inv by (simp add: log_inv_def)
        from row_get_distinct [OF this u0(1)] Some True have "u0 = t" by simp
        with True u0(2) old show ?thesis by simp
      qed (use u0(2) old in auto)
    qed
    with inv row ids set_ids Some show ?thesis unfolding append_agent_event_def log_inv_def by (auto simp: set_task_def)
  qed
  then have "logs s' (append_agent_event i ty s')" by (simp add: logs_def)
  with assms show ?thesis by (rule logs_trans)
qed (use assms in \<open>simp add: append_agent_event_def\<close>)

lemma logs_with_task:
  assumes "logs s s'" and "\<And>t. at_id (f t) = at_id t" and "\<And>t. at_seq (f t) = at_seq t"
  shows "logs s (with_task j cond f ty s')"
  using assms by (auto simp: with_task_def intro!: logs_append logs_set_task split: option.split)

lemma logs_jobs: "logs s s' \<Longrightarrow> logs s (s'\<lparr>po_jobs := js\<rparr>)" and logs_holds: "logs s s' \<Longrightarrow> logs s (s'\<lparr>po_holds := hs\<rparr>)"
  by (auto simp: logs_def log_inv_def)

lemma logs_finish: "logs s s' \<Longrightarrow> logs s (finish_job i st error msg now s')"
  by (auto simp: finish_job_def Let_def intro!: logs_with_task logs_set_job split: option.split)

lemma logs_requeue: "logs s s' \<Longrightarrow> logs s (requeue_job i reason n due s')"
  by (simp add: requeue_job_def logs_set_job)

lemma logs_cancel: "logs s s' \<Longrightarrow> logs s (cancel_job i now s')"
  by (auto simp: cancel_job_def intro!: logs_set_job split: option.split)

lemma logs_claims: "logs s (fst (foldl (claim_job now) (s, c) js))"
proof (induction js arbitrary: s c)
  case (Cons j js)
  have "logs s (fst (claim_job now (s, c) j))" by (auto simp: claim_job_def intro!: logs_set_job)
  from logs_trans [OF this] Cons.IH [of "fst (claim_job now (s, c) j)" "snd (claim_job now (s, c) j)"] show ?case by simp
qed simp

lemma logs_schedule: "logs s (fst (schedule_once abandoned commanded now s))"
proof -
  have "logs s (reconcile_jobs abandoned commanded now s)" for s
    unfolding reconcile_jobs_def release_settled_holds_def recover_lost_claims_def requeue_abandoned_def by (intro logs_holds logs_jobs logs_refl)
  moreover have "logs s (recover_stale_starting_jobs now s)" for s
    unfolding recover_stale_starting_jobs_def recover_stale_job_def by (intro logs_foldl logs_with_task logs_set_job) simp_all
  moreover have "logs s (expire_jobs now s)" for s unfolding expire_jobs_def by (intro logs_jobs logs_refl)
  moreover have "logs s (sync_expired_subagent_tasks now s)" for s
    unfolding sync_expired_subagent_tasks_def sync_expired_job_def by (intro logs_foldl logs_with_task) simp_all
  moreover have "logs s (expire_holds now s)" for s unfolding expire_holds_def by (intro logs_holds logs_refl)
  ultimately show ?thesis unfolding schedule_once_def Let_def by (meson logs_claims logs_trans)
qed

lemma logs_admit: "logs s (fst (admit_job g h rid now i s))"
  by (auto simp: admit_job_def intro!: logs_finish logs_requeue logs_holds split: option.split prod.split bool.split)

lemma logs_dispatch: "logs s (fst (dispatch_job g invalid now i s))"
  by (auto simp: dispatch_job_def dispatch_subagent_def intro!: logs_finish logs_requeue logs_set_task logs_set_job split: option.split)

lemma logs_settle_raised: "logs s (settle_raised e now i s)"
  by (auto simp: settle_raised_def requeue_backend_def intro!: logs_finish logs_set_job split: raised.split)

lemma logs_write: "logs s (worker_write w now s)"
proof -
  have "logs s (s\<lparr>po_threads := ts\<rparr>)" for ts by (simp add: logs_def log_inv_def)
  then show ?thesis
    by (cases w) (auto simp: worker_write_def start_subagent_def start_command_def end_subagent_def end_command_def
        Let_def settled_task_def intro!: logs_append logs_finish logs_set_task logs_set_job)
qed

lemma logs_remember: "logs s s' \<Longrightarrow> logs s (remember w s')"
  by (auto simp: remember_def logs_def log_inv_def split: option.split)

lemma logs_worker_failed: "logs s (recover_worker_failure error msg now i s)"
  by (auto simp: recover_worker_failure_def intro!: logs_with_task logs_set_job split: option.split)

lemma logs_submit: "submit_job g sha policy r i now s = Inr (s', j) \<Longrightarrow> logs s s'"
  by (auto simp: submit_job_def Let_def intro!: logs_jobs split: option.splits)

lemma logs_cancel_subagent: "cancel_subagent parent c name chat now s = Inr s' \<Longrightarrow> logs s s'"
  by (auto simp: cancel_subagent_def bind_r_Inr Let_def intro!: logs_append logs_set_task logs_cancel split: if_splits option.splits)

lemma logs_retry:
  assumes "retry_subagent g sha policy parent c name chat override title jid now s = Inr s'"
  shows "logs s s'"
proof -
  from assms obtain t where t: "load_agent_task parent c name chat s = Inr t" by (auto simp: retry_subagent_def bind_r_Inr)
  have "logs s (set_task (at_id t) (\<lambda>t'. t'\<lparr>at_spec := resume_spec (at_spec t)\<rparr>) s)" by (rule logs_set_task) simp_all
  moreover from assms t obtain r s2 j where "submit_job g sha policy r jid now (set_task (at_id t) (\<lambda>t'. t'\<lparr>at_spec := resume_spec (at_spec t)\<rparr>) s) = Inr (s2, j)"
    and s': "s' = append_agent_event (at_id t) ''retry_scheduled''
      (set_task (at_id t) (\<lambda>t. t\<lparr>at_job := Some (sj_id j), at_status := R_queued, at_reason := None\<rparr>) s2)"
    by (auto simp: retry_subagent_def bind_r_Inr Let_def)
  ultimately have "logs s s2" by (meson logs_submit logs_trans)
  then show ?thesis unfolding s' by (intro logs_append logs_set_task) simp_all
qed

lemma logs_new_task:
  assumes "at_id t \<notin> at_id ` set (po_tasks s)" and "at_seq t = 0"
  shows "logs s (s\<lparr>po_tasks := po_tasks s @ [t]\<rparr>)"
proof -
  have "filter (\<lambda>e. ae_task e = at_id t) (po_events s) = []" if "log_inv s"
  proof -
    have "ae_task ` set (po_events s) \<subseteq> at_id ` set (po_tasks s)" using that by (simp add: log_inv_def)
    with assms(1) have "at_id t \<notin> ae_task ` set (po_events s)" by blast
    then show ?thesis unfolding filter_empty_conv by (metis imageI)
  qed
  then show ?thesis using assms by (auto simp: logs_def log_inv_def)
qed

lemma logs_delegate: "logs s (fst (delegate_subagent en g sha policy parent c r tid drawn jid now s))"
proof -
  have task: "logs s (s\<lparr>po_tasks := po_tasks s @ [new_task c r pf net tid name]\<rparr>)" if "tid \<notin> at_id ` set (po_tasks s)" for pf net name
    by (rule logs_new_task) (use that in \<open>simp_all add: new_task_def\<close>)
  have job: "logs s s2" if "tid \<notin> at_id ` set (po_tasks s)" "submit_job g sha policy q jid now (s\<lparr>po_tasks := po_tasks s @ [new_task c r pf net tid name]\<rparr>) = Inr (s2, j)"
    for q pf net name s2 j
    using logs_trans [OF task [OF that(1)] logs_submit [OF that(2)]] .
  show ?thesis
    unfolding delegate_subagent_def by (auto simp: Let_def intro: task intro!: logs_append logs_set_task dest: job split: sum.split prod.split option.split)
qed

lemma logs_kept: "(\<And>s'. r = Inr s' \<Longrightarrow> logs s s') \<Longrightarrow> logs s (kept s r)"
  by (cases r) (simp_all add: kept_def)

lemma log_step: "logs s (pool_step g sha invalid s c)"
proof (cases c)
  case (Submit policy r jid now)
  then show ?thesis by (auto intro!: logs_kept simp: bind_r_Inr dest: logs_submit)
next
  case (Cancel_subagent parent cl name chat now)
  then show ?thesis by (auto intro!: logs_kept dest: logs_cancel_subagent)
next
  case (Retry_subagent policy parent cl name chat override title jid now)
  then show ?thesis by (auto intro!: logs_kept dest: logs_retry)
next
  case (Checkpoint cp seen i)
  then show ?thesis by (auto intro!: logs_kept logs_set_job simp: save_checkpoint_def split: option.splits)
next
  case (Wake owner now)
  then show ?thesis by (simp add: wake_capacity_waiters_def logs_jobs)
next
  case (Release rid now)
  then show ?thesis by (simp add: release_hold_def logs_holds)
next
  case (Dispatch now i)
  then show ?thesis using logs_dispatch [of s g invalid now i] by (auto intro: logs_remember split: prod.split)
qed (simp_all add: logs_delegate logs_cancel logs_schedule logs_admit logs_settle_raised logs_write logs_remember
    logs_worker_failed)

interpretation log_machine: step_machine "pool_step g sha invalid" log_inv
  by unfold_locales (use log_step in \<open>simp add: logs_def\<close>)

text \<open>
  C23. The event log of a sub-agent has no gap and no double: after any sequence of the pool's calls on an empty
  pool, tasks have distinct identifiers, every event belongs to a task, and the events of a task, in the order
  they were written, carry exactly the sequence numbers from one to the task's counter.
\<close>

theorem event_log_is_gapless:
  "let s = foldl (pool_step g sha invalid) \<lparr>po_jobs = [], po_tasks = [], po_events = [], po_holds = [], po_threads = []\<rparr> cs in
   distinct (map at_id (po_tasks s)) \<and> ae_task ` set (po_events s) \<subseteq> at_id ` set (po_tasks s) \<and>
   list_all (\<lambda>t. map ae_seq (filter (\<lambda>e. ae_task e = at_id t) (po_events s)) = [1..<Suc (at_seq t)]) (po_tasks s)"
proof -
  have "log_inv \<lparr>po_jobs = [], po_tasks = [], po_events = [], po_holds = [], po_threads = []\<rparr>" by (simp add: log_inv_def)
  from log_machine.run_inv [OF this, of g sha invalid cs] show ?thesis by (simp add: log_inv_def Let_def list_all_iff)
qed

section \<open>Submitting twice\<close>

lemma map_of_public: "map_of (public_part p) x = (if take 1 x = ''_'' then None else map_of p x)"
  by (induction p) (auto simp: public_part_def)

lemma same_dict_iff: "same_dict a b \<longleftrightarrow> map_of a = map_of b"
proof
  assume same: "same_dict a b"
  show "map_of a = map_of b"
  proof
    fix x
    show "map_of a x = map_of b x"
    proof (cases "x \<in> fst ` set a \<union> fst ` set b")
      case True
      with same show ?thesis by (auto simp: same_dict_def list_all_iff)
    next
      case False
      then show ?thesis by (simp add: map_of_eq_None_iff [THEN iffD2])
    qed
  qed
qed (simp add: same_dict_def list_all_iff)

lemma same_public: "same_dict (public_part p) (public_part q) \<longleftrightarrow> (\<forall>x. take 1 x \<noteq> ''_'' \<longrightarrow> map_of p x = map_of q x)"
  by (auto simp: same_dict_iff fun_eq_iff map_of_public)

text \<open>The row a request is answered with, and that it matches the request.\<close>

definition answers :: "(string \<Rightarrow> string) \<Rightarrow> job_request \<Rightarrow> string \<Rightarrow> pool \<Rightarrow> bool" where
  "answers sha r i s \<longleftrightarrow> job_ids s \<and> (\<exists>j. find_job_key r (request_key sha r) s = Some j \<and> sj_id j = i \<and> sj_chat j = jr_chat r \<and>
     sj_kind j = jr_kind r \<and> same_dict (public_part (sj_payload j)) (public_part (jr_payload r)))"

lemma find_map: "(\<And>x. x \<in> set xs \<Longrightarrow> p (f x) = p x) \<Longrightarrow> find p (map f xs) = map_option f (find p xs)"
  by (induction xs) auto

lemma find_Some_in: "find p xs = Some x \<Longrightarrow> x \<in> set xs"
  by (auto simp: find_Some_iff)

lemma find_append_Some: "find p xs = Some x \<Longrightarrow> find p (xs @ ys) = Some x"
  by (induction xs) auto

lemma answers_step:
  assumes "answers sha r i s"
  shows "answers sha r i (pool_step g sha' invalid s c)"
proof -
  from assms obtain j where j: "job_ids s" "find_job_key r (request_key sha r) s = Some j" "sj_id j = i" "sj_chat j = jr_chat r" "sj_kind j = jr_kind r"
    "same_dict (public_part (sj_payload j)) (public_part (jr_payload r))" unfolding answers_def by blast
  note up = step_rows [OF j(1), of g sha' invalid c]
  let ?s = "pool_step g sha' invalid s c"
  let ?p = "\<lambda>j. sj_workspace j = jr_workspace r \<and> sj_owner j = jr_owner r \<and> sj_key j = request_key sha r"
  from up obtain f new where f: "po_jobs ?s = map f (po_jobs s) @ new" "\<forall>j \<in> set (po_jobs s). job_evolves True j (f j)"
    unfolding rows_grown_def by blast
  from j(2) have key: "request_key sha r \<noteq> None" and found: "find ?p (po_jobs s) = Some j" by (auto simp: find_job_key_def split: if_splits)
  have "find ?p (map f (po_jobs s)) = map_option f (find ?p (po_jobs s))" by (rule find_map) (use f(2) in \<open>auto simp: job_evolves_def\<close>)
  with found f(1) have "find ?p (po_jobs ?s) = Some (f j)" by (simp add: find_append_Some)
  with key have "find_job_key r (request_key sha r) ?s = Some (f j)" by (simp add: find_job_key_def)
  moreover have "job_evolves True j (f j)" using f(2) find_Some_in [OF found] by blast
  moreover have "sj_id (f j) = sj_id j \<and> sj_chat (f j) = sj_chat j \<and> sj_kind (f j) = sj_kind j \<and>
    same_dict (public_part (sj_payload (f j))) (public_part (jr_payload r))"
    using calculation(2) j(6) unfolding job_evolves_def same_public by simp
  ultimately show ?thesis using j(3-5) grown_ids [OF up j(1)] unfolding answers_def by (intro conjI exI [of _ "f j"]) simp_all
qed

interpretation answer_machine: step_machine "pool_step g sha' invalid" "answers sha r i"
  by unfold_locales (rule answers_step)

lemma submit_answers:
  assumes "job_ids s" and "submit_job g sha policy r i now s = Inr (s', j)" and "jr_key r = Some k" and "k \<noteq> []"
  shows "answers sha r (sj_id j) s'"
  using assms(2)
proof (cases rule: submit_cases)
  case old
  with assms(2) have "sj_chat j = jr_chat r \<and> sj_kind j = jr_kind r \<and> same_dict (public_part (sj_payload j)) (public_part (jr_payload r))"
    by (simp add: submit_job_def Let_def)
  with old assms(1) show ?thesis unfolding answers_def by (intro conjI exI [of _ j]) simp_all
next
  case new
  have key: "request_key sha r = Some (sha k)" using assms(3,4) by (simp add: request_key_def)
  have j: "sj_workspace j = jr_workspace r" "sj_owner j = jr_owner r" "sj_key j = request_key sha r" "sj_id j = i" by (simp_all add: new(3) new_job_def)
  have "find_job_key r (request_key sha r) s' = Some j"
    using new(1) key j unfolding find_job_key_def new(4) by (simp add: find_snoc)
  moreover have "job_ids s'" using assms(1) new(2) j(4) unfolding job_ids_def new(4) by simp
  moreover have "sj_chat j = jr_chat r" "sj_kind j = jr_kind r" "same_dict (public_part (sj_payload j)) (public_part (jr_payload r))"
    by (simp_all add: new(3) new_job_def same_public)
  ultimately show ?thesis unfolding answers_def by (intro conjI exI [of _ j]) simp_all
qed

text \<open>
  C22. Submitting a job is idempotent for good: once a request with a key was accepted, repeating it after any
  calls on the pool returns the same job, whatever became of it, changes nothing, and is not refused by a full
  queue.
\<close>

theorem submission_is_idempotent:
  assumes "distinct (map sj_id (po_jobs s))" and "submit_job g sha policy r i now s = Inr (s', j)" and "jr_key r = Some k" and "k \<noteq> []"
  shows "let t = foldl (pool_step g' sha' invalid) s' cs in
    \<exists>m. submit_job g'' sha policy' r i' later t = Inr (t, m) \<and> sj_id m = sj_id j \<and> m \<in> set (po_jobs t)"
proof -
  let ?t = "foldl (pool_step g' sha' invalid) s' cs"
  from assms have "answers sha r (sj_id j) s'" by (intro submit_answers) (simp_all add: job_ids_def)
  from answer_machine.run_inv [OF this, of g' sha' invalid cs] obtain m where
    m: "find_job_key r (request_key sha r) ?t = Some m" "sj_id m = sj_id j" "sj_chat m = jr_chat r" "sj_kind m = jr_kind r"
      "same_dict (public_part (sj_payload m)) (public_part (jr_payload r))" unfolding answers_def by blast
  then have "submit_job g'' sha policy' r i' later ?t = Inr (?t, m)" by (simp add: submit_job_def Let_def)
  moreover have "m \<in> set (po_jobs ?t)" using m(1) by (auto simp: find_job_key_def find_Some_iff split: if_splits)
  ultimately show ?thesis using m(2) unfolding Let_def by blast
qed

definition example_submission :: "job_request" where
  "example_submission = \<lparr>jr_workspace = ''w'', jr_owner = ''u'', jr_chat = ''c'', jr_kind = ''agent_command'', jr_payload = [(''command'', JStr ''ls'')],
     jr_key = Some ''k'', jr_deadline = None\<rparr>"

theorem submission_is_idempotent_witness:
  "\<exists>s' j t m. submit_job example_settings id None example_submission ''j1'' 5 \<lparr>po_jobs = [], po_tasks = [], po_events = [], po_holds = [], po_threads = []\<rparr> = Inr (s', j) \<and>
     t = foldl (pool_step example_settings id (\<lambda>j. None)) s' [Cancel_job ''j1'' 6] \<and>
     submit_job example_settings id None example_submission ''j2'' 9 t = Inr (t, m) \<and> sj_id m = sj_id j"
proof -
  let ?s = "\<lparr>po_jobs = [], po_tasks = [], po_events = [], po_holds = [], po_threads = []\<rparr>"
  have "\<not> isl (submit_job example_settings id None example_submission ''j1'' 5 ?s)" by code_simp
  then obtain s' j where sub: "submit_job example_settings id None example_submission ''j1'' 5 ?s = Inr (s', j)"
    by (cases "submit_job example_settings id None example_submission ''j1'' 5 ?s") auto
  have key: "jr_key example_submission = Some ''k''" by (simp add: example_submission_def)
  have "distinct (map sj_id (po_jobs ?s))" by simp
  from submission_is_idempotent [OF this sub key, where g' = example_settings and sha' = id and invalid = "\<lambda>j. None" and cs = "[Cancel_job ''j1'' 6]"
      and g'' = example_settings and policy' = None and i' = "''j2''" and later = 9] sub
  show ?thesis by (fastforce simp: Let_def)
qed

end
