(* ===== verification/Shared_Links.thy ===== *)
theory Shared_Links
  imports Prelude
begin

text \<open>
  What the three public links of the product have in common: those of chat sessions
  (\<open>backend/app/services/session_sharing.py\<close>), of published files (\<open>services/artifact_gateway.py\<close>) and of interactive
  cards (\<open>services/artifact_cards.py\<close>). Each is a row with the digest of a secret, an expiry, a cap on its uses and
  a revocation, and one conditional UPDATE claims a use. The rows of the three tables share the columns of
  \<open>link\<close>; the interface \<open>capped_links\<close> is what their services owe, and what follows from it is proved once.
\<close>

section \<open>Links\<close>

record link =
  lk_id :: string
  lk_target :: string
  lk_hash :: string
  lk_expires :: "instant option"
  lk_max :: "int option"
  lk_count :: int
  lk_revoked :: "instant option"

definition link_usable :: "instant \<Rightarrow> 'a link_scheme \<Rightarrow> bool" where
  "link_usable now l \<longleftrightarrow> lk_revoked l = None \<and> (case lk_expires l of None \<Rightarrow> True | Some e \<Rightarrow> now < e) \<and>
     (case lk_max l of None \<Rightarrow> True | Some m \<Rightarrow> lk_count l < m)"

text \<open>\<open>max_views if max_views and max_views > 0 else None\<close>\<close>

definition new_cap :: "int option \<Rightarrow> int option" where
  "new_cap m = (case m of None \<Rightarrow> None | Some i \<Rightarrow> if 0 < i then Some i else None)"

text \<open>The UPDATE that claims one use, and whether it hit a row.\<close>

definition claim_use :: "string \<Rightarrow> instant \<Rightarrow> 'a link_scheme list \<Rightarrow> 'a link_scheme list" where
  "claim_use i now ls = map (\<lambda>l. if lk_id l = i \<and> link_usable now l then l\<lparr>lk_count := lk_count l + 1\<rparr> else l) ls"

definition claimed_use :: "string \<Rightarrow> instant \<Rightarrow> 'a link_scheme list \<Rightarrow> bool" where
  "claimed_use i now ls \<longleftrightarrow> list_ex (\<lambda>l. lk_id l = i \<and> link_usable now l) ls"

definition link_by_hash :: "string \<Rightarrow> 'a link_scheme list \<Rightarrow> 'a link_scheme option" where
  "link_by_hash h ls = find (\<lambda>l. lk_hash l = h) ls"

text \<open>\<open>UPDATE ... SET revoked_at WHERE ... AND revoked_at IS NULL\<close>\<close>

definition revoke_links :: "('a link_scheme \<Rightarrow> bool) \<Rightarrow> instant \<Rightarrow> 'a link_scheme list \<Rightarrow> 'a link_scheme list" where
  "revoke_links p now ls = map (\<lambda>l. if p l \<and> lk_revoked l = None then l\<lparr>lk_revoked := Some now\<rparr> else l) ls"

definition fresh_link :: "string \<Rightarrow> string \<Rightarrow> 'a link_scheme list \<Rightarrow> bool" where
  "fresh_link i h ls \<longleftrightarrow> i \<notin> lk_id ` set ls \<and> h \<notin> lk_hash ` set ls"

section \<open>What a table of links owes\<close>

definition token_links_ok :: "'a link_scheme list \<Rightarrow> bool" where
  "token_links_ok ls \<longleftrightarrow> distinct (map lk_id ls) \<and> distinct (map lk_hash ls) \<and>
     (\<forall>l \<in> set ls. 0 \<le> lk_count l \<and> (\<forall>m. lk_max l = Some m \<longrightarrow> lk_count l \<le> m))"

text \<open>What may become of one link: it keeps its identity, is counted up below its cap, and a revoked one stays as it is.\<close>

definition link_moves :: "'a link_scheme \<Rightarrow> 'a link_scheme \<Rightarrow> bool" where
  "link_moves l k \<longleftrightarrow> lk_id k = lk_id l \<and> lk_target k = lk_target l \<and> lk_hash k = lk_hash l \<and> lk_expires k = lk_expires l \<and> lk_max k = lk_max l \<and>
     lk_count l \<le> lk_count k \<and> (\<forall>m. lk_max l = Some m \<longrightarrow> lk_count l \<le> m \<longrightarrow> lk_count k \<le> m) \<and>
     (lk_revoked l \<noteq> None \<longrightarrow> lk_revoked k \<noteq> None \<and> lk_count k = lk_count l)"

lemma link_moves_refl [simp]: "link_moves l l"
  by (simp add: link_moves_def)

lemma link_movesD:
  assumes "link_moves l k"
  shows "lk_id k = lk_id l" and "lk_hash k = lk_hash l" and "lk_max k = lk_max l" and "lk_count l \<le> lk_count k"
    and "lk_max l = Some m \<Longrightarrow> lk_count l \<le> m \<Longrightarrow> lk_count k \<le> m"
  using assms unfolding link_moves_def by blast+

definition links_move :: "bool \<Rightarrow> 'a link_scheme list \<Rightarrow> 'a link_scheme list \<Rightarrow> bool" where
  "links_move purge A B \<longleftrightarrow> (\<exists>P f new. B = map f (filter P A) @ new \<and> (\<forall>l \<in> set A. link_moves l (f l)) \<and> (purge \<or> (\<forall>l \<in> set A. P l)) \<and>
     token_links_ok new \<and> lk_id ` set new \<inter> lk_id ` set A = {} \<and> lk_hash ` set new \<inter> lk_hash ` set A = {})"

lemma links_moveI:
  assumes "B = map f (filter P A) @ new" and "\<And>l. l \<in> set A \<Longrightarrow> link_moves l (f l)" and "purge \<or> (\<forall>l \<in> set A. P l)" and "token_links_ok new"
    and "lk_id ` set new \<inter> lk_id ` set A = {}" and "lk_hash ` set new \<inter> lk_hash ` set A = {}"
  shows "links_move purge A B"
  unfolding links_move_def using assms by blast

lemma links_moveE:
  assumes "links_move purge A B"
  obtains P f new where "B = map f (filter P A) @ new" and "\<forall>l \<in> set A. link_moves l (f l)" and "purge \<or> (\<forall>l \<in> set A. P l)" and "token_links_ok new"
    and "lk_id ` set new \<inter> lk_id ` set A = {}" and "lk_hash ` set new \<inter> lk_hash ` set A = {}"
  using assms unfolding links_move_def
  apply (elim exE conjE)
  subgoal for P f new by (rule that [of f P new]) simp_all
  .

lemma links_ok_Nil [simp]: "token_links_ok []"
  by (simp add: token_links_ok_def)

lemma links_move_map: "(\<And>l. l \<in> set A \<Longrightarrow> link_moves l (f l)) \<Longrightarrow> links_move purge A (map f A)"
  by (rule links_moveI [where P = "\<lambda>l. True" and f = f and new = "[]"]) simp_all

lemma links_move_refl [simp]: "links_move purge A A"
  using links_move_map [of A id] by simp

lemma links_move_filter: "links_move True A (filter P A)"
  by (rule links_moveI [where P = P and f = id and new = "[]"]) simp_all

lemma links_move_add:
  assumes "fresh_link (lk_id l) (lk_hash l) A" and "lk_count l = 0" and "\<And>m. lk_max l = Some m \<Longrightarrow> 0 \<le> m"
  shows "links_move purge A (A @ [l])"
proof (rule links_moveI [where P = "\<lambda>l. True" and f = id and new = "[l]"])
  show "token_links_ok [l]" using assms(2,3) by (simp add: token_links_ok_def)
qed (use assms(1) in \<open>simp_all add: fresh_link_def\<close>)

lemma links_move_weaken:
  assumes "links_move False A B"
  shows "links_move purge A B"
proof -
  from assms show ?thesis by (rule links_moveE) (rule links_moveI, assumption+, simp_all)
qed

lemma claim_moves: "links_move purge A (claim_use i now A)"
  unfolding claim_use_def by (rule links_move_map) (auto simp: link_moves_def link_usable_def)

lemma revoke_moves: "links_move purge A (revoke_links p now A)"
  unfolding revoke_links_def by (rule links_move_map) (simp add: link_moves_def)

lemma distinct_kept_map: "distinct (map f xs) \<Longrightarrow> distinct (map f (filter P xs))"
  by (simp add: distinct_map inj_on_def)

lemma links_move_ok:
  assumes "links_move purge A B" and "token_links_ok A"
  shows "token_links_ok B"
proof -
  from assms(1) obtain P f new where B: "B = map f (filter P A) @ new" "\<forall>l \<in> set A. link_moves l (f l)" "purge \<or> (\<forall>l \<in> set A. P l)" "token_links_ok new"
    "lk_id ` set new \<inter> lk_id ` set A = {}" "lk_hash ` set new \<inter> lk_hash ` set A = {}" by (rule links_moveE)
  have ids: "map lk_id (map f (filter P A)) = map lk_id (filter P A)" "map lk_hash (map f (filter P A)) = map lk_hash (filter P A)"
    using B(2) by (auto dest: link_movesD)
  have sub: "lk_id ` f ` set (filter P A) \<subseteq> lk_id ` set A" "lk_hash ` f ` set (filter P A) \<subseteq> lk_hash ` set A"
    using B(2) by (auto dest: link_movesD)
  have counts: "0 \<le> lk_count (f l) \<and> (\<forall>m. lk_max (f l) = Some m \<longrightarrow> lk_count (f l) \<le> m)" if "l \<in> set A" for l
  proof -
    from that B(2) have mv: "link_moves l (f l)" by blast
    from assms(2) that have "0 \<le> lk_count l" "\<And>m. lk_max l = Some m \<Longrightarrow> lk_count l \<le> m" by (simp_all add: token_links_ok_def)
    with link_movesD(3,4) [OF mv] link_movesD(5) [OF mv] show ?thesis by auto
  qed
  have d: "distinct (map lk_id (map f (filter P A)))" "distinct (map lk_hash (map f (filter P A)))"
    unfolding ids using assms(2) by (simp_all add: token_links_ok_def distinct_kept_map)
  have apart: "lk_id ` set (map f (filter P A)) \<inter> lk_id ` set new = {}" "lk_hash ` set (map f (filter P A)) \<inter> lk_hash ` set new = {}"
    unfolding set_map using sub B(5,6) by blast+
  have "distinct (map lk_id B)" using d(1) B(4) apart(1) unfolding B(1) token_links_ok_def map_append distinct_append by (simp only: set_map)
  moreover have "distinct (map lk_hash B)" using d(2) B(4) apart(2) unfolding B(1) token_links_ok_def map_append distinct_append by (simp only: set_map)
  ultimately show ?thesis using counts B(4) unfolding token_links_ok_def B(1) by auto
qed

lemma link_moves_found:
  assumes "links_move False A B" and "l \<in> set A"
  obtains k where "k \<in> set B" and "link_moves l k"
proof -
  from assms(1) obtain P f new where B: "B = map f (filter P A) @ new" "\<forall>l \<in> set A. link_moves l (f l)" "False \<or> (\<forall>l \<in> set A. P l)" "token_links_ok new"
    "lk_id ` set new \<inter> lk_id ` set A = {}" "lk_hash ` set new \<inter> lk_hash ` set A = {}" by (rule links_moveE)
  show thesis by (rule that [of "f l"]) (use B(1-3) assms(2) in simp_all)
qed

text \<open>A service over a table of links; without purges, a link is there for good.\<close>

locale capped_links =
  fixes step :: "'s \<Rightarrow> 'e \<Rightarrow> 's"
    and links :: "'s \<Rightarrow> 'a link_scheme list"
    and purge :: bool
  assumes links_step: "links_move purge (links s) (links (step s e))"
begin

lemma run_ok: "token_links_ok (links s) \<Longrightarrow> token_links_ok (links (foldl step s es))"
  by (induction es arbitrary: s) (auto intro: links_move_ok [OF links_step])

lemma within_cap:
  assumes "token_links_ok (links s)" and "l \<in> set (links (foldl step s es))" and "lk_max l = Some m"
  shows "lk_count l \<le> m"
  using run_ok [OF assms(1), of es] assms(2,3) by (auto simp: token_links_ok_def)

end

sublocale capped_links \<subseteq> step_machine step "\<lambda>s. token_links_ok (links s)"
  by unfold_locales (rule links_move_ok [OF links_step])

locale kept_links = capped_links +
  assumes kept: "\<not> purge"
begin

lemma run_link:
  assumes "l \<in> set (links s)"
  obtains k where "k \<in> set (links (foldl step s es))" and "lk_id k = lk_id l" and "lk_hash k = lk_hash l" and "lk_target k = lk_target l"
    and "lk_revoked l \<noteq> None \<Longrightarrow> lk_revoked k \<noteq> None \<and> lk_count k = lk_count l"
  using assms
proof (induction es arbitrary: s l thesis)
  case (Cons e es)
  have "links_move False (links s) (links (step s e))" using links_step [of s e] kept by simp
  from link_moves_found [OF this Cons.prems(2)] obtain k where k: "k \<in> set (links (step s e))" "link_moves l k" .
  show ?case by (rule Cons.IH [OF _ k(1)], rule Cons.prems(1)) (use k(2) in \<open>auto simp: link_moves_def\<close>)
qed simp

text \<open>The secret of a revoked link never opens a usable one.\<close>

lemma revoked_stays:
  assumes "token_links_ok (links s)" and "l \<in> set (links s)" and "lk_revoked l \<noteq> None"
  shows "\<exists>k. link_by_hash (lk_hash l) (links (foldl step s es)) = Some k \<and> lk_revoked k \<noteq> None \<and> lk_count k = lk_count l"
proof -
  from run_link [OF assms(2), of es] assms(3) obtain k where k: "k \<in> set (links (foldl step s es))" "lk_hash k = lk_hash l"
    "lk_revoked k \<noteq> None" "lk_count k = lk_count l" by metis
  have "distinct (map lk_hash (links (foldl step s es)))" using run_ok [OF assms(1), of es] by (simp add: token_links_ok_def)
  from row_get_distinct [OF this k(1)] k(2) have "link_by_hash (lk_hash l) (links (foldl step s es)) = Some k"
    by (simp add: link_by_hash_def row_get_def)
  with k(3,4) show ?thesis by blast
qed

end

text \<open>How often a run opened the link of a secret.\<close>

fun times_opened :: "('s \<Rightarrow> 'e \<Rightarrow> 's) \<Rightarrow> ('s \<Rightarrow> 'e \<Rightarrow> string option) \<Rightarrow> string \<Rightarrow> 's \<Rightarrow> 'e list \<Rightarrow> int" where
  "times_opened step opened h s [] = 0"
| "times_opened step opened h s (e # es) = (if opened s e = Some h then 1 else 0) + times_opened step opened h (step s e) es"

text \<open>A service whose calls tell which secret they opened a link with, counting each.\<close>

locale opening_links = capped_links +
  fixes opened :: "'a \<Rightarrow> 'b \<Rightarrow> string option"
  assumes opened_counts: "token_links_ok (links s) \<Longrightarrow> opened s e = Some h \<Longrightarrow> l \<in> set (links s) \<Longrightarrow> lk_hash l = h \<Longrightarrow>
    \<exists>k \<in> set (links (step s e)). lk_hash k = h \<and> lk_max k = lk_max l \<and> lk_count k = lk_count l + 1"
begin

text \<open>One call on the link of a secret: the link is there afterwards with the call counted, or it is gone.\<close>

lemma opened_step:
  assumes "token_links_ok (links s)" and "l \<in> set (links s)" and "lk_hash l = h" and "lk_max l = Some m"
  obtains k where "k \<in> set (links (step s e))" and "lk_hash k = h" and "lk_max k = Some m"
    and "lk_count l + (if opened s e = Some h then 1 else 0) \<le> lk_count k"
  | "purge" and "opened s e \<noteq> Some h" and "h \<notin> lk_hash ` set (links (step s e))"
proof (cases "opened s e = Some h")
  case True
  from opened_counts [OF assms(1) True assms(2,3)] assms(4) True that(1) show thesis by auto
next
  case False
  from links_step [of s e] obtain P f new where B: "links (step s e) = map f (filter P (links s)) @ new"
    "\<forall>l \<in> set (links s). link_moves l (f l)" "purge \<or> (\<forall>l \<in> set (links s). P l)" "token_links_ok new"
    "lk_id ` set new \<inter> lk_id ` set (links s) = {}" "lk_hash ` set new \<inter> lk_hash ` set (links s) = {}" by (rule links_moveE)
  show thesis
  proof (cases "P l")
    case True
    from B(2) assms(2) have mv: "link_moves l (f l)" by blast
    have "f l \<in> set (links (step s e))" using B(1) assms(2) True by simp
    then show thesis by (rule that(1)) (use mv assms(3,4) False in \<open>auto simp: link_moves_def\<close>)
  next
    case gone: False
    have dist: "inj_on lk_hash (set (links s))" using assms(1) by (simp add: token_links_ok_def distinct_map)
    have "h \<notin> lk_hash ` set (links (step s e))"
    proof
      assume "h \<in> lk_hash ` set (links (step s e))"
      moreover have "h \<notin> lk_hash ` set new" using B(6) assms(2,3) by blast
      ultimately obtain x where x: "x \<in> set (links s)" "P x" "lk_hash (f x) = h" unfolding B(1) by auto
      with B(2) have "link_moves x (f x)" by blast
      with x(3) assms(3) have "lk_hash x = lk_hash l" by (simp add: link_moves_def)
      with inj_onD [OF dist _ x(1) assms(2)] have "x = l" by simp
      with x(2) gone show False by simp
    qed
    with B(3) assms(2) gone False show thesis by (intro that(2)) auto
  qed
qed

end

locale counted_links = kept_links + opening_links
begin

lemma opened_within_cap:
  assumes "token_links_ok (links s)" and "l \<in> set (links s)" and "lk_hash l = h" and "lk_max l = Some m"
  shows "lk_count l + times_opened step opened h s es \<le> m"
  using assms
proof (induction es arbitrary: s l)
  case Nil
  then show ?case by (auto simp: token_links_ok_def)
next
  case (Cons e es)
  have ok: "token_links_ok (links (step s e))" by (rule links_move_ok [OF links_step Cons.prems(1)])
  from Cons.prems obtain k where k: "k \<in> set (links (step s e))" "lk_hash k = h" "lk_max k = Some m"
    "lk_count l + (if opened s e = Some h then 1 else 0) \<le> lk_count k" by (rule opened_step [of s l h m e]) (use kept in blast)+
  from Cons.IH [OF ok k(1-3)] k(4) show ?case by simp
qed

end

text \<open>
  A service that also drops links. Until a call makes a new link under the same secret, a dropped one is not
  opened again; the calls tell under which secret they make one.
\<close>

locale purged_links = opening_links +
  fixes minted :: "'b \<Rightarrow> string option"
  assumes opened_found: "opened s e = Some h \<Longrightarrow> h \<in> lk_hash ` set (links s)"
    and minted_new: "h \<in> lk_hash ` set (links (step s e)) \<Longrightarrow> h \<notin> lk_hash ` set (links s) \<Longrightarrow> minted e = Some h"
begin

lemma never_opened:
  assumes "h \<notin> lk_hash ` set (links s)" and "\<forall>e \<in> set es. minted e \<noteq> Some h"
  shows "times_opened step opened h s es = 0"
  using assms
proof (induction es arbitrary: s)
  case (Cons e es)
  have "opened s e \<noteq> Some h" using opened_found Cons.prems(1) by blast
  moreover have "h \<notin> lk_hash ` set (links (step s e))" using minted_new Cons.prems by auto
  ultimately show ?case using Cons by simp
qed simp

lemma purged_within_cap:
  assumes "token_links_ok (links s)" and "l \<in> set (links s)" and "lk_hash l = h" and "lk_max l = Some m"
    and "\<forall>e \<in> set es. minted e \<noteq> Some h"
  shows "lk_count l + times_opened step opened h s es \<le> m"
  using assms
proof (induction es arbitrary: s l)
  case Nil
  then show ?case by (auto simp: token_links_ok_def)
next
  case (Cons e es)
  have ok: "token_links_ok (links (step s e))" by (rule links_move_ok [OF links_step Cons.prems(1)])
  from Cons.prems(1-4) show ?case
  proof (rule opened_step [of s l h m e])
    fix k
    assume k: "k \<in> set (links (step s e))" "lk_hash k = h" "lk_max k = Some m"
      "lk_count l + (if opened s e = Some h then 1 else 0) \<le> lk_count k"
    from Cons.IH [OF ok k(1-3)] Cons.prems(5) k(4) show ?case by simp
  next
    assume "opened s e \<noteq> Some h" "h \<notin> lk_hash ` set (links (step s e))"
    with never_opened [of h "step s e" es] Cons.prems(1,2,4,5) show ?case by (auto simp: token_links_ok_def)
  qed
qed

end

end
