(* ===== verification/Session_Sharing.thy ===== *)
theory Session_Sharing
  imports Pystr Shared_Links "HOL-Library.List_Lexorder" "HOL-Library.Char_ord"
begin

text \<open>
  Public snapshots of chat sessions: \<open>SessionSharingService\<close> of \<open>backend/app/services/session_sharing.py\<close>. Sharing freezes
  a range of messages, each reduced to what may be shown, under a link; anybody who has the link's secret
  reads the frozen rows until the link expires, reaches its cap or is revoked. Audit rows, the visitor's
  fingerprint, labels and prefixes are left out, and so are the ids of the frozen rows. The two Chinese texts
  of the code are written in ASCII.
\<close>

section \<open>Python's str\<close>

text \<open>\<open>repr\<close> of a string of ASCII characters and \<open>str\<close> of a JSON value.\<close>

definition hex_digit :: "nat \<Rightarrow> char" where
  "hex_digit n = ''0123456789abcdef'' ! n"

definition repr_char :: "char \<Rightarrow> char \<Rightarrow> string" where
  "repr_char q c = (if c = q \<or> c = CHR 0x5C then [CHR 0x5C, c]
     else if c = CHR 0x0A then [CHR 0x5C, CHR ''n''] else if c = CHR 0x0D then [CHR 0x5C, CHR ''r'']
     else if c = CHR 0x09 then [CHR 0x5C, CHR ''t'']
     else if of_char c < (32 :: nat) \<or> of_char c = (127 :: nat)
       then [CHR 0x5C, CHR ''x'', hex_digit (of_char c div 16), hex_digit (of_char c mod 16)]
     else [c])"

definition repr_string :: "string \<Rightarrow> string" where
  "repr_string s = (let q = (if CHR 0x27 \<in> set s \<and> CHR 0x22 \<notin> set s then CHR 0x22 else CHR 0x27)
     in [q] @ concat (map (repr_char q) s) @ [q])"

fun commas :: "string list \<Rightarrow> string" where
  "commas [] = []"
| "commas [x] = x"
| "commas (x # xs) = x @ '', '' @ commas xs"

fun json_repr :: "json \<Rightarrow> string" where
  "json_repr (JStr s) = repr_string s"
| "json_repr (JList xs) = ''['' @ commas (map json_repr xs) @ '']''"
| "json_repr (JDict d) = ''{'' @ commas (map (\<lambda>(k, v). repr_string k @ '': '' @ json_repr v) d) @ ''}''"
| "json_repr j = py_str j"

fun json_text :: "json \<Rightarrow> string" where
  "json_text (JStr s) = s"
| "json_text j = json_repr j"

text \<open>\<open>str(x or "")\<close>, \<open>x or {}\<close> and \<open>isinstance(x, dict)\<close>\<close>

definition shown :: "json \<Rightarrow> string" where
  "shown j = (if truthy j then json_text j else [])"

fun dict_of :: "json \<Rightarrow> (string \<times> json) list option" where
  "dict_of (JDict d) = Some d"
| "dict_of _ = None"

fun json_items :: "json \<Rightarrow> json list" where
  "json_items (JList xs) = xs"
| "json_items _ = []"

section \<open>What of a message is shown\<close>

definition text_kinds :: "string list" where
  "text_kinds = [''acknowledgement'', ''text'', ''reasoning_summary'', ''reasoning_content'', ''agent_step'']"

definition shown_source :: "(string \<times> json) list \<Rightarrow> json" where
  "shown_source item = JDict [(''title'', JStr (shown (jget item ''title''))), (''url'', JStr (shown (jget item ''url''))),
     (''locator'', JStr (shown (jget item ''locator''))), (''quote'', JStr (take 500 (shown (jget item ''quote''))))]"

definition source_items :: "(string \<times> json) list \<Rightarrow> json list" where
  "source_items p =
     (let raw = (if truthy (jget p ''data'') then jget p ''data'' else JDict []);
          items = (case dict_of raw of Some d \<Rightarrow> jget d ''items'' | None \<Rightarrow> raw)
      in concat (map (\<lambda>i. case dict_of i of Some d \<Rightarrow> [shown_source d] | None \<Rightarrow> []) (json_items items)))"

definition preview_of :: "(string \<times> json) list \<Rightarrow> (string \<times> json) list" where
  "preview_of p = (case dict_of (jget p ''data'') of
      None \<Rightarrow> [] | Some d \<Rightarrow> (case dict_of (jget d ''preview_snapshot'') of None \<Rightarrow> [] | Some v \<Rightarrow> v))"

definition part_name :: "(string \<times> json) list \<Rightarrow> string" where
  "part_name p = (case dict_of (jget p ''data'') of
      None \<Rightarrow> [] | Some d \<Rightarrow> shown (if truthy (jget d ''name'') then jget d ''name'' else jget d ''title''))"

definition with_data :: "json \<Rightarrow> json \<Rightarrow> (string \<times> json) list \<Rightarrow> json" where
  "with_data content data p = JDict (AList.update ''data'' data (AList.update ''content'' content p))"

definition sanitize_part :: "(string \<times> json) list \<Rightarrow> json" where
  "sanitize_part p =
     (let kind = shown (jget p ''type'') in
      if kind \<in> set text_kinds then JDict p
      else if kind = ''source_list''
      then with_data (if truthy (jget p ''content'') then jget p ''content'' else JStr []) (JDict [(''items'', JList (source_items p))]) p
      else if kind \<in> {''magic_card'', ''component''} \<and> preview_of p \<noteq> []
      then with_data (JStr []) (JDict [(''preview_snapshot'', JDict (preview_of p)), (''degraded'', JBool False)]) p
      else with_data (JStr []) (JDict ([(''degraded'', JBool True), (''reason'', JStr ''not part of the share'')] @
        (if part_name p = [] then [] else [(''name'', JStr (part_name p))]))) p)"

definition sanitize_parts :: "json list \<Rightarrow> json list" where
  "sanitize_parts parts = concat (map (\<lambda>j. case dict_of j of Some p \<Rightarrow> [sanitize_part p] | None \<Rightarrow> []) parts)"

section \<open>Tables\<close>

record shared_chat =
  sc_id :: string
  sc_workspace :: string
  sc_title :: string

record chat_message =
  cm_id :: string
  cm_workspace :: string
  cm_session :: string
  cm_created :: instant
  cm_role :: string
  cm_content :: string
  cm_parts :: "json list"
  cm_parent :: "string option"

datatype share_status = Share_active | Share_revoked | Share_deleted

record share =
  sn_id :: string
  sn_workspace :: string
  sn_tenant :: string
  sn_source :: string
  sn_title :: string
  sn_scope :: string
  sn_from :: "string option"
  sn_to :: "string option"
  sn_count :: nat
  sn_status :: share_status

record shared_row =
  sw_share :: string
  sw_ordinal :: nat
  sw_role :: string
  sw_content :: string
  sw_parts :: "json list"
  sw_parent :: "string option"
  sw_source :: string

record scoped_link = link +
  lk_workspace :: string
  lk_tenant :: string

record sharing =
  sr_chats :: "shared_chat list"
  sr_messages :: "chat_message list"
  sr_shares :: "share list"
  sr_rows :: "shared_row list"
  sr_links :: "scoped_link list"

record sharer =
  sp_workspace :: string
  sp_tenant :: string

record share_request =
  rq_session :: string
  rq_scope :: string
  rq_from :: "string option"
  rq_to :: "string option"
  rq_answers :: bool
  rq_expires :: "instant option"
  rq_max :: "int option"

section \<open>Sharing\<close>

definition session_messages :: "string \<Rightarrow> string \<Rightarrow> sharing \<Rightarrow> chat_message list" where
  "session_messages ws sid s = sort_key cm_created (sort_key cm_id
     (filter (\<lambda>m. cm_workspace m = ws \<and> cm_session m = sid) (sr_messages s)))"

fun index_of :: "string list \<Rightarrow> string \<Rightarrow> nat option" where
  "index_of [] x = None"
| "index_of (y # ys) x = (if y = x then Some 0 else map_option Suc (index_of ys x))"

definition given_id :: "string option \<Rightarrow> bool" where
  "given_id x \<longleftrightarrow> (case x of None \<Rightarrow> False | Some s \<Rightarrow> s \<noteq> [])"

definition select_range :: "share_request \<Rightarrow> chat_message list \<Rightarrow> chat_message list result" where
  "select_range q ms =
     (if rq_scope q \<noteq> ''range'' then Inr ms
      else require (given_id (rq_from q) \<and> given_id (rq_to q)) (App_error 400 ''session_share_range_invalid'')
        (case (index_of (map cm_id ms) (the (rq_from q)), index_of (map cm_id ms) (the (rq_to q))) of
           (Some a, Some b) \<Rightarrow> Inr (drop (min a b) (take (max a b + 1) ms))
         | _ \<Rightarrow> Inl (App_error 400 ''session_share_range_invalid'')))"

definition select_messages :: "share_request \<Rightarrow> chat_message list \<Rightarrow> chat_message list result" where
  "select_messages q ms =
     require (ms \<noteq> []) (App_error 400 ''session_share_empty'')
     (bind_r (select_range q ms) (\<lambda>ms.
        let ms = (if rq_scope q = ''answers'' \<or> rq_answers q then filter (\<lambda>m. cm_role m \<noteq> ''user'') ms else ms)
        in require (ms \<noteq> []) (App_error 400 ''session_share_empty'') (Inr ms)))"

definition freeze :: "string \<Rightarrow> nat \<times> chat_message \<Rightarrow> shared_row" where
  "freeze shid a = (case a of (n, m) \<Rightarrow> \<lparr>sw_share = shid, sw_ordinal = n, sw_role = cm_role m, sw_content = cm_content m,
     sw_parts = sanitize_parts (cm_parts m), sw_parent = cm_parent m, sw_source = cm_id m\<rparr>)"

definition frozen_rows :: "string \<Rightarrow> chat_message list \<Rightarrow> shared_row list" where
  "frozen_rows shid ms = map (freeze shid) (enumerate 0 ms)"

definition new_share :: "sharer \<Rightarrow> share_request \<Rightarrow> string \<Rightarrow> string \<Rightarrow> nat \<Rightarrow> share" where
  "new_share c q shid title n = \<lparr>sn_id = shid, sn_workspace = sp_workspace c, sn_tenant = sp_tenant c, sn_source = rq_session q,
     sn_title = take 240 (if title = [] then ''shared conversation'' else title),
     sn_scope = (if rq_scope q \<in> {''full'', ''range'', ''answers''} then rq_scope q else ''full''),
     sn_from = (if rq_scope q = ''range'' then rq_from q else None), sn_to = (if rq_scope q = ''range'' then rq_to q else None),
     sn_count = n, sn_status = Share_active\<rparr>"

definition create_token :: "(string \<Rightarrow> string) \<Rightarrow> sharer \<Rightarrow> share_request \<Rightarrow> string \<Rightarrow> string \<Rightarrow> string \<Rightarrow> scoped_link" where
  "create_token sha c q shid tid raw = \<lparr>lk_id = tid, lk_target = shid, lk_hash = sha raw, lk_expires = rq_expires q, lk_max = new_cap (rq_max q),
     lk_count = 0, lk_revoked = None, lk_workspace = sp_workspace c, lk_tenant = sp_tenant c\<rparr>"

definition find_chat :: "sharer \<Rightarrow> string \<Rightarrow> sharing \<Rightarrow> shared_chat option" where
  "find_chat c sid s = find (\<lambda>x. sc_id x = sid \<and> sc_workspace x = sp_workspace c) (sr_chats s)"

definition create_share :: "(string \<Rightarrow> string) \<Rightarrow> sharer \<Rightarrow> share_request \<Rightarrow> string \<Rightarrow> string \<Rightarrow> string \<Rightarrow> sharing \<Rightarrow>
    (sharing \<times> string \<times> scoped_link) result" where
  "create_share sha c q shid tid raw s = (case find_chat c (rq_session q) s of
      None \<Rightarrow> Inl (App_error 404 ''session_not_found'')
    | Some chat \<Rightarrow> bind_r (select_messages q (session_messages (sp_workspace c) (rq_session q) s)) (\<lambda>ms.
        require (shid \<notin> sn_id ` set (sr_shares s) \<and> shid \<notin> sw_share ` set (sr_rows s) \<and> fresh_link tid (sha raw) (sr_links s)) (Python_error ''IntegrityError'')
        (Inr (s\<lparr>sr_shares := sr_shares s @ [new_share c q shid (sc_title chat) (length ms)], sr_rows := sr_rows s @ frozen_rows shid ms,
            sr_links := sr_links s @ [create_token sha c q shid tid raw]\<rparr>, raw, create_token sha c q shid tid raw))))"

section \<open>Revoking\<close>

definition share_for_workspace :: "sharer \<Rightarrow> string \<Rightarrow> sharing \<Rightarrow> share result" where
  "share_for_workspace c shid s = (case find (\<lambda>x. sn_id x = shid \<and> sn_workspace x = sp_workspace c \<and> sn_tenant x = sp_tenant c) (sr_shares s) of
      None \<Rightarrow> Inl (App_error 404 ''session_share_not_found'')
    | Some x \<Rightarrow> require (sn_status x \<noteq> Share_deleted) (App_error 404 ''session_share_not_found'') (Inr x))"

definition own_link :: "sharer \<Rightarrow> scoped_link \<Rightarrow> bool" where
  "own_link c l \<longleftrightarrow> lk_workspace l = sp_workspace c \<and> lk_tenant l = sp_tenant c"

definition live_share :: "sharer \<Rightarrow> string \<Rightarrow> sharing \<Rightarrow> bool" where
  "live_share c shid s \<longleftrightarrow> list_ex (\<lambda>x. sn_id x = shid \<and> sn_workspace x = sp_workspace c \<and> sn_tenant x = sp_tenant c \<and>
     sn_status x \<noteq> Share_deleted) (sr_shares s)"

definition revoke_token :: "sharer \<Rightarrow> string \<Rightarrow> string option \<Rightarrow> instant \<Rightarrow> sharing \<Rightarrow> sharing result" where
  "revoke_token c tid shid now s = (case find (\<lambda>l. lk_id l = tid \<and> own_link c l \<and> live_share c (lk_target l) s \<and>
       (\<forall>i \<in> set_option shid. lk_target l = i)) (sr_links s) of
      None \<Rightarrow> Inl (App_error 404 ''session_share_not_found'')
    | Some l \<Rightarrow> Inr (s\<lparr>sr_links := row_mod lk_id tid (\<lambda>l. l\<lparr>lk_revoked := Some now\<rparr>) (sr_links s)\<rparr>))"

definition revoke_share :: "sharer \<Rightarrow> string \<Rightarrow> instant \<Rightarrow> sharing \<Rightarrow> sharing result" where
  "revoke_share c shid now s = bind_r (share_for_workspace c shid s) (\<lambda>x. Inr
     (s\<lparr>sr_shares := row_mod sn_id shid (\<lambda>x. x\<lparr>sn_status := Share_revoked\<rparr>) (sr_shares s),
        sr_links := revoke_links (\<lambda>l. lk_target l = shid \<and> own_link c l) now (sr_links s)\<rparr>))"

section \<open>The public view\<close>

definition share_rows :: "string \<Rightarrow> sharing \<Rightarrow> shared_row list" where
  "share_rows shid s = sort_key sw_ordinal (filter (\<lambda>r. sw_share r = shid) (sr_rows s))"

definition resolve_share :: "(string \<Rightarrow> string) \<Rightarrow> string \<Rightarrow> instant \<Rightarrow> sharing \<Rightarrow> (sharing \<times> share \<times> shared_row list) result" where
  "resolve_share sha raw now s = (case link_by_hash (sha raw) (sr_links s) of
      None \<Rightarrow> Inl (App_error 404 ''session_share_not_found'')
    | Some l \<Rightarrow> require (link_usable now l) (App_error 404 ''session_share_not_found'')
        (case row_get sn_id (lk_target l) (sr_shares s) of
           None \<Rightarrow> Inl (App_error 404 ''session_share_not_found'')
         | Some x \<Rightarrow> require (sn_status x = Share_active) (App_error 404 ''session_share_not_found'')
             (require (claimed_use (lk_id l) now (sr_links s)) (App_error 404 ''session_share_not_found'')
               (Inr (s\<lparr>sr_links := claim_use (lk_id l) now (sr_links s)\<rparr>, x, share_rows (sn_id x) s)))))"

text \<open>The token the management page flags as usable.\<close>

definition active_tokens :: "sharer \<Rightarrow> string \<Rightarrow> instant \<Rightarrow> sharing \<Rightarrow> scoped_link list" where
  "active_tokens c shid now s = filter (\<lambda>l. lk_target l = shid \<and> own_link c l \<and> link_usable now l) (sr_links s)"

section \<open>The machine\<close>

text \<open>
  Any session's next step. A view whose look-up happened in an earlier state is the bare UPDATE \<open>Claim_view\<close>;
  chats and messages are edited at will by the other services.
\<close>

datatype share_call =
    Make_share sharer share_request string string string
  | Revoke_token sharer string "string option" instant
  | Revoke_share sharer string instant
  | View string instant
  | Claim_view string instant
  | Edit_chats "shared_chat list" "chat_message list"

definition after_r :: "'s \<Rightarrow> ('s \<times> 'b) result \<Rightarrow> 's" where
  "after_r s r = (case r of Inl e \<Rightarrow> s | Inr x \<Rightarrow> fst x)"

definition after_u :: "'s \<Rightarrow> 's result \<Rightarrow> 's" where
  "after_u s r = (case r of Inl e \<Rightarrow> s | Inr x \<Rightarrow> x)"

fun share_step :: "(string \<Rightarrow> string) \<Rightarrow> sharing \<Rightarrow> share_call \<Rightarrow> sharing" where
  "share_step sha s (Make_share c q shid tid raw) = after_r s (create_share sha c q shid tid raw s)"
| "share_step sha s (Revoke_token c tid shid now) = after_u s (revoke_token c tid shid now s)"
| "share_step sha s (Revoke_share c shid now) = after_u s (revoke_share c shid now s)"
| "share_step sha s (View raw now) = after_r s (resolve_share sha raw now s)"
| "share_step sha s (Claim_view tid now) = s\<lparr>sr_links := claim_use tid now (sr_links s)\<rparr>"
| "share_step sha s (Edit_chats chats messages) = s\<lparr>sr_chats := chats, sr_messages := messages\<rparr>"

end
