(* ===== verification/Artifact_Sharing.thy ===== *)
theory Artifact_Sharing
  imports Shared_Links
begin

text \<open>
  Published files: \<open>ArtifactGatewayService\<close> of \<open>backend/app/services/artifact_gateway.py\<close>. An artifact collects
  immutable versions, each a file with its digest at the time; a link downloads one version without a login.
  \<open>naive\<close> says that the database drops time zones, as SQLite does: comparing such an expiry with the clock
  raises \<open>TypeError\<close>. Names, sizes, types and labels of rows that no decision reads are left out, and so are
  the lists.
\<close>

section \<open>Tables\<close>

datatype artifact_status = Artifact_active | Artifact_deleted

datatype version_status = Version_published | Version_deleted

record artifact =
  ar_id :: string
  ar_workspace :: string
  ar_tenant :: string
  ar_name :: string
  ar_description :: string
  ar_status :: artifact_status

record artifact_version =
  av_id :: string
  av_artifact :: string
  av_version :: int
  av_file :: string
  av_sha :: string
  av_workspace :: string
  av_notes :: string
  av_status :: version_status

record stored_file =
  fr_id :: string
  fr_workspace :: string
  fr_sha :: string

record gateway =
  ag_artifacts :: "artifact list"
  ag_versions :: "artifact_version list"
  ag_files :: "stored_file list"
  ag_links :: "link list"

record publisher =
  pb_workspace :: string
  pb_tenant :: string

section \<open>Artifacts and versions\<close>

definition own_artifact :: "publisher \<Rightarrow> string \<Rightarrow> artifact \<Rightarrow> bool" where
  "own_artifact c i a \<longleftrightarrow> ar_id a = i \<and> ar_workspace a = pb_workspace c \<and> ar_tenant a = pb_tenant c"

definition artifact_for_workspace :: "publisher \<Rightarrow> string \<Rightarrow> gateway \<Rightarrow> artifact result" where
  "artifact_for_workspace c i s = (case find (own_artifact c i) (ag_artifacts s) of
      None \<Rightarrow> Inl (App_error 404 ''artifact_not_found'') | Some a \<Rightarrow> Inr a)"

definition version_for_workspace :: "publisher \<Rightarrow> string \<Rightarrow> gateway \<Rightarrow> artifact_version result" where
  "version_for_workspace c i s = (case find (\<lambda>v. av_id v = i \<and> list_ex (own_artifact c (av_artifact v)) (ag_artifacts s)) (ag_versions s) of
      None \<Rightarrow> Inl (App_error 404 ''artifact_version_not_found'') | Some v \<Rightarrow> Inr v)"

definition create_artifact :: "publisher \<Rightarrow> string \<Rightarrow> string \<Rightarrow> string \<Rightarrow> gateway \<Rightarrow> gateway result" where
  "create_artifact c i name description s = require (i \<notin> ar_id ` set (ag_artifacts s)) (Python_error ''IntegrityError'')
     (Inr (s\<lparr>ag_artifacts := ag_artifacts s @ [\<lparr>ar_id = i, ar_workspace = pb_workspace c, ar_tenant = pb_tenant c, ar_name = take 240 name,
        ar_description = take 2000 description, ar_status = Artifact_active\<rparr>]\<rparr>))"

definition update_artifact :: "publisher \<Rightarrow> string \<Rightarrow> string option \<Rightarrow> string option \<Rightarrow> gateway \<Rightarrow> gateway result" where
  "update_artifact c i name description s = bind_r (artifact_for_workspace c i s) (\<lambda>a.
     require (ar_status a = Artifact_active) (App_error 404 ''artifact_not_found'')
     (Inr (s\<lparr>ag_artifacts := row_mod ar_id i (\<lambda>a. a\<lparr>ar_name := (case name of None \<Rightarrow> ar_name a | Some n \<Rightarrow> take 240 n),
        ar_description := (case description of None \<Rightarrow> ar_description a | Some d \<Rightarrow> take 2000 d)\<rparr>) (ag_artifacts s)\<rparr>)))"

definition version_of :: "string \<Rightarrow> string \<Rightarrow> gateway \<Rightarrow> bool" where
  "version_of i vid s \<longleftrightarrow> list_ex (\<lambda>v. av_id v = vid \<and> av_artifact v = i) (ag_versions s)"

definition delete_artifact :: "publisher \<Rightarrow> string \<Rightarrow> instant \<Rightarrow> gateway \<Rightarrow> gateway result" where
  "delete_artifact c i now s = bind_r (artifact_for_workspace c i s) (\<lambda>a.
     require (ar_status a = Artifact_active) (App_error 404 ''artifact_not_found'')
     (Inr (s\<lparr>ag_artifacts := row_mod ar_id i (\<lambda>a. a\<lparr>ar_status := Artifact_deleted\<rparr>) (ag_artifacts s),
        ag_links := revoke_links (\<lambda>l. version_of i (lk_target l) s) now (ag_links s)\<rparr>)))"

definition next_version :: "string \<Rightarrow> gateway \<Rightarrow> int" where
  "next_version i s = (case map av_version (filter (\<lambda>v. av_artifact v = i) (ag_versions s)) of [] \<Rightarrow> 1 | n # ns \<Rightarrow> Max (set (n # ns)) + 1)"

definition publish_version :: "publisher \<Rightarrow> string \<Rightarrow> string \<Rightarrow> string \<Rightarrow> string \<Rightarrow> gateway \<Rightarrow> gateway result" where
  "publish_version c i fid vid notes s = bind_r (artifact_for_workspace c i s) (\<lambda>a.
     require (ar_status a = Artifact_active) (App_error 404 ''artifact_not_found'')
     (case find (\<lambda>f. fr_id f = fid \<and> fr_workspace f = pb_workspace c) (ag_files s) of
        None \<Rightarrow> Inl (App_error 404 ''artifact_file_not_found'')
      | Some f \<Rightarrow> require (vid \<notin> av_id ` set (ag_versions s)) (Python_error ''IntegrityError'')
          (Inr (s\<lparr>ag_versions := ag_versions s @ [\<lparr>av_id = vid, av_artifact = i, av_version = next_version i s, av_file = fid, av_sha = fr_sha f,
             av_workspace = pb_workspace c, av_notes = take 4000 notes, av_status = Version_published\<rparr>]\<rparr>))))"

definition update_version :: "publisher \<Rightarrow> string \<Rightarrow> string option \<Rightarrow> gateway \<Rightarrow> gateway result" where
  "update_version c vid notes s = bind_r (version_for_workspace c vid s) (\<lambda>v.
     require (av_status v = Version_published) (App_error 404 ''artifact_version_not_found'')
     (Inr (s\<lparr>ag_versions := row_mod av_id vid (\<lambda>v. v\<lparr>av_notes := (case notes of None \<Rightarrow> av_notes v | Some n \<Rightarrow> take 4000 n)\<rparr>) (ag_versions s)\<rparr>)))"

definition delete_version :: "publisher \<Rightarrow> string \<Rightarrow> instant \<Rightarrow> gateway \<Rightarrow> gateway result" where
  "delete_version c vid now s = bind_r (version_for_workspace c vid s) (\<lambda>v.
     require (av_status v = Version_published) (App_error 404 ''artifact_version_not_found'')
     (Inr (s\<lparr>ag_versions := row_mod av_id vid (\<lambda>v. v\<lparr>av_status := Version_deleted\<rparr>) (ag_versions s),
        ag_links := revoke_links (\<lambda>l. lk_target l = vid) now (ag_links s)\<rparr>)))"

section \<open>Links\<close>

definition create_share_token :: "(string \<Rightarrow> string) \<Rightarrow> publisher \<Rightarrow> string \<Rightarrow> instant option \<Rightarrow> int option \<Rightarrow> string \<Rightarrow> string \<Rightarrow> gateway \<Rightarrow>
    (gateway \<times> string) result" where
  "create_share_token sha c vid expires cap tid raw s = bind_r (version_for_workspace c vid s) (\<lambda>v.
     require (fresh_link tid (sha raw) (ag_links s)) (Python_error ''IntegrityError'')
     (Inr (s\<lparr>ag_links := ag_links s @ [\<lparr>lk_id = tid, lk_target = av_id v, lk_hash = sha raw, lk_expires = expires, lk_max = new_cap cap,
        lk_count = 0, lk_revoked = None\<rparr>]\<rparr>, raw)))"

text \<open>The comparison of a stored expiry with the clock raises when the database dropped the zone.\<close>

definition compare_raises :: "bool \<Rightarrow> 'a link_scheme \<Rightarrow> bool" where
  "compare_raises naive l \<longleftrightarrow> naive \<and> lk_revoked l = None \<and> lk_expires l \<noteq> None"

definition resolve_share_token :: "bool \<Rightarrow> (string \<Rightarrow> string) \<Rightarrow> string \<Rightarrow> instant \<Rightarrow> gateway \<Rightarrow> (gateway \<times> artifact_version) result" where
  "resolve_share_token naive sha raw now s = (case link_by_hash (sha raw) (ag_links s) of
      None \<Rightarrow> Inl (App_error 404 ''artifact_share_not_found'')
    | Some l \<Rightarrow> require (\<not> compare_raises naive l) (Python_error ''TypeError'')
        (require (link_usable now l) (App_error 404 ''artifact_share_not_found'')
        (case row_get av_id (lk_target l) (ag_versions s) of
           None \<Rightarrow> Inl (App_error 404 ''artifact_share_not_found'')
         | Some v \<Rightarrow> require (av_status v = Version_published) (App_error 404 ''artifact_share_not_found'')
             (case row_get fr_id (av_file v) (ag_files s) of
                None \<Rightarrow> Inl (App_error 404 ''artifact_share_not_found'')
              | Some f \<Rightarrow> require (fr_sha f = av_sha v) (App_error 404 ''artifact_share_not_found'')
                  (require (claimed_use (lk_id l) now (ag_links s)) (App_error 404 ''artifact_share_not_found'')
                    (Inr (s\<lparr>ag_links := claim_use (lk_id l) now (ag_links s)\<rparr>, v)))))))"

definition revoke_share_token :: "publisher \<Rightarrow> string \<Rightarrow> instant \<Rightarrow> gateway \<Rightarrow> gateway result" where
  "revoke_share_token c tid now s = (case find (\<lambda>l. lk_id l = tid \<and> list_ex (\<lambda>v. av_id v = lk_target l \<and>
       list_ex (own_artifact c (av_artifact v)) (ag_artifacts s)) (ag_versions s)) (ag_links s) of
      None \<Rightarrow> Inl (App_error 404 ''artifact_share_not_found'')
    | Some l \<Rightarrow> Inr (s\<lparr>ag_links := row_mod lk_id tid (\<lambda>l. l\<lparr>lk_revoked := Some now\<rparr>) (ag_links s)\<rparr>))"

section \<open>The machine\<close>

datatype gateway_call =
    Create_artifact publisher string string string
  | Update_artifact publisher string "string option" "string option"
  | Delete_artifact publisher string instant
  | Publish_version publisher string string string string
  | Update_version publisher string "string option"
  | Delete_version publisher string instant
  | Share_version publisher string "instant option" "int option" string string
  | Download string instant
  | Claim_download string instant
  | Revoke_download publisher string instant
  | Edit_files "stored_file list"

definition kept_gateway :: "gateway \<Rightarrow> gateway result \<Rightarrow> gateway" where
  "kept_gateway s r = (case r of Inl e \<Rightarrow> s | Inr s' \<Rightarrow> s')"

fun gateway_step :: "bool \<Rightarrow> (string \<Rightarrow> string) \<Rightarrow> gateway \<Rightarrow> gateway_call \<Rightarrow> gateway" where
  "gateway_step nv sha s (Create_artifact c i name description) = kept_gateway s (create_artifact c i name description s)"
| "gateway_step nv sha s (Update_artifact c i name description) = kept_gateway s (update_artifact c i name description s)"
| "gateway_step nv sha s (Delete_artifact c i now) = kept_gateway s (delete_artifact c i now s)"
| "gateway_step nv sha s (Publish_version c i fid vid notes) = kept_gateway s (publish_version c i fid vid notes s)"
| "gateway_step nv sha s (Update_version c vid notes) = kept_gateway s (update_version c vid notes s)"
| "gateway_step nv sha s (Delete_version c vid now) = kept_gateway s (delete_version c vid now s)"
| "gateway_step nv sha s (Share_version c vid expires cap tid raw) = kept_gateway s (map_sum id fst (create_share_token sha c vid expires cap tid raw s))"
| "gateway_step nv sha s (Download raw now) = kept_gateway s (map_sum id fst (resolve_share_token nv sha raw now s))"
| "gateway_step nv sha s (Claim_download tid now) = s\<lparr>ag_links := claim_use tid now (ag_links s)\<rparr>"
| "gateway_step nv sha s (Revoke_download c tid now) = kept_gateway s (revoke_share_token c tid now s)"
| "gateway_step nv sha s (Edit_files fs) = s\<lparr>ag_files := fs\<rparr>"

end
