(* ===== verification/Card_Sharing.thy ===== *)
theory Card_Sharing
  imports Pystr Artifact_Sharing
begin

text \<open>
  Interactive cards: the indexer and the service of \<open>backend/app/services/artifact_cards.py\<close>. The agent emits a card
  as a part of a message; the index keeps its latest draft, reserves a revision for each substantive edit,
  and the user publishes revisions and shares them under links. \<open>fp\<close> is the digest of a snapshot. Titles, types,
  message ids and the encrypted copy of a secret are left out: no decision reads them.
\<close>

section \<open>Tables\<close>

datatype card_status = Card_draft | Card_published | Card_deleted

datatype revision_status = Revision_draft | Revision_active | Revision_deleted

type_synonym snapshot_dict = "(string \<times> json) list"

record card =
  ac_id :: string
  ac_card :: string
  ac_workspace :: string
  ac_tenant :: string
  ac_status :: card_status
  ac_snapshot :: snapshot_dict

record card_revision =
  cv_id :: string
  cv_card :: string
  cv_version :: int
  cv_snapshot :: snapshot_dict
  cv_notes :: string
  cv_by :: string
  cv_source :: string
  cv_status :: revision_status

record card_index =
  ci_cards :: "card list"
  ci_revisions :: "card_revision list"
  ci_links :: "link list"

section \<open>Indexing what the agent emits\<close>

definition stripped_id :: "json \<Rightarrow> string option" where
  "stripped_id j = (case j of JStr s \<Rightarrow> if strip s = [] then None else Some (take 64 (strip s)) | _ \<Rightarrow> None)"

definition card_identity :: "string \<Rightarrow> snapshot_dict \<Rightarrow> string option" where
  "card_identity ty d = (if ty = ''magic_card'' then stripped_id (jget d ''card_id'')
     else if ty = ''component'' then stripped_id (jget d ''component_id'') else None)"

definition add_origin :: "string \<Rightarrow> string option \<Rightarrow> snapshot_dict \<Rightarrow> snapshot_dict" where
  "add_origin k v d = (case v of None \<Rightarrow> d | Some s \<Rightarrow> if s = [] \<or> k \<in> fst ` set d then d else d @ [(k, JStr s)])"

definition card_snapshot :: "string option \<Rightarrow> string option \<Rightarrow> snapshot_dict \<Rightarrow> snapshot_dict" where
  "card_snapshot chat msg d = add_origin ''message_version_id'' msg (add_origin ''chat_session_id'' chat d)"

text \<open>The snapshot without its transport metadata.\<close>

definition render_data :: "snapshot_dict \<Rightarrow> snapshot_dict" where
  "render_data d = filter (\<lambda>(k, v). k \<notin> {''card_instance_id'', ''message_version_id'', ''chat_session_id''}) d"

definition snapshot_fingerprint :: "(snapshot_dict \<Rightarrow> string) \<Rightarrow> snapshot_dict \<Rightarrow> string" where
  "snapshot_fingerprint fp d = fp (render_data d)"

definition revisions_of :: "string \<Rightarrow> card_index \<Rightarrow> card_revision list" where
  "revisions_of cid s = filter (\<lambda>v. cv_card v = cid) (ci_revisions s)"

definition latest_revision :: "card_revision list \<Rightarrow> card_revision option" where
  "latest_revision vs = (case sort_key (\<lambda>v. - cv_version v) vs of [] \<Rightarrow> None | v # _ \<Rightarrow> Some v)"

definition agent_revision :: "string \<Rightarrow> string \<Rightarrow> int \<Rightarrow> snapshot_dict \<Rightarrow> card_revision" where
  "agent_revision vid cid n d = \<lparr>cv_id = vid, cv_card = cid, cv_version = n, cv_snapshot = d, cv_notes = [], cv_by = ''agent'', cv_source = ''agent'',
     cv_status = Revision_draft\<rparr>"

text \<open>The revision a changed snapshot reserves, if it differs from the latest one.\<close>

definition reserved_revision :: "(snapshot_dict \<Rightarrow> string) \<Rightarrow> card \<Rightarrow> snapshot_dict \<Rightarrow> string \<Rightarrow> card_index \<Rightarrow> card_revision list" where
  "reserved_revision fp c d vid s =
     (if snapshot_fingerprint fp (ac_snapshot c) = snapshot_fingerprint fp d then []
      else (case latest_revision (revisions_of (ac_id c) s) of
          None \<Rightarrow> [agent_revision vid (ac_id c) 1 d]
        | Some v \<Rightarrow> if snapshot_fingerprint fp (cv_snapshot v) = snapshot_fingerprint fp d then [] else [agent_revision vid (ac_id c) (cv_version v + 1) d]))"

definition revived :: "snapshot_dict \<Rightarrow> card \<Rightarrow> card" where
  "revived d c = c\<lparr>ac_status := (if ac_status c = Card_deleted then Card_draft else ac_status c), ac_snapshot := d\<rparr>"

definition upsert_from_part :: "(snapshot_dict \<Rightarrow> string) \<Rightarrow> publisher \<Rightarrow> string option \<Rightarrow> string option \<Rightarrow> string \<Rightarrow> snapshot_dict \<Rightarrow> string \<Rightarrow> string \<Rightarrow>
    card_index \<Rightarrow> card_index result" where
  "upsert_from_part fp c chat msg ty data rid vid s = (case card_identity ty data of
      None \<Rightarrow> Inr s
    | Some cid \<Rightarrow>
        (let d = card_snapshot chat msg data in
         case find (\<lambda>x. ac_workspace x = pb_workspace c \<and> ac_card x = cid) (ci_cards s) of
           Some x \<Rightarrow> require (vid \<notin> cv_id ` set (ci_revisions s)) (Python_error ''IntegrityError'')
             (Inr (s\<lparr>ci_cards := row_mod ac_id (ac_id x) (revived d) (ci_cards s), ci_revisions := ci_revisions s @ reserved_revision fp x d vid s\<rparr>))
         | None \<Rightarrow> require (rid \<notin> ac_id ` set (ci_cards s) \<and> rid \<notin> cv_card ` set (ci_revisions s) \<and> vid \<notin> cv_id ` set (ci_revisions s)) (Python_error ''IntegrityError'')
             (Inr (s\<lparr>ci_cards := ci_cards s @ [\<lparr>ac_id = rid, ac_card = cid, ac_workspace = pb_workspace c, ac_tenant = pb_tenant c,
                ac_status = Card_draft, ac_snapshot = d\<rparr>], ci_revisions := ci_revisions s @ [agent_revision vid rid 1 d]\<rparr>))))"

section \<open>Publishing and deleting\<close>

definition own_card :: "publisher \<Rightarrow> card \<Rightarrow> bool" where
  "own_card c x \<longleftrightarrow> ac_workspace x = pb_workspace c \<and> ac_tenant x = pb_tenant c"

definition card_for_workspace :: "publisher \<Rightarrow> string \<Rightarrow> card_index \<Rightarrow> card result" where
  "card_for_workspace c cid s = (case find (\<lambda>x. ac_card x = cid \<and> own_card c x) (ci_cards s) of
      None \<Rightarrow> Inl (App_error 404 ''artifact_card_not_found'') | Some x \<Rightarrow> Inr x)"

definition delete_card :: "publisher \<Rightarrow> string \<Rightarrow> card_index \<Rightarrow> card_index result" where
  "delete_card c cid s = bind_r (card_for_workspace c cid s) (\<lambda>x.
     require (ac_status x \<noteq> Card_deleted) (App_error 404 ''artifact_card_not_found'')
     (Inr (s\<lparr>ci_cards := row_mod ac_id (ac_id x) (\<lambda>x. x\<lparr>ac_status := Card_deleted\<rparr>) (ci_cards s)\<rparr>)))"

definition next_revision :: "card_revision list \<Rightarrow> int" where
  "next_revision vs = (case map cv_version (filter (\<lambda>v. cv_status v \<noteq> Revision_deleted) vs) of [] \<Rightarrow> 1 | n # ns \<Rightarrow> Max (set (n # ns)) + 1)"

definition promoted :: "string \<Rightarrow> string \<Rightarrow> string \<Rightarrow> card_revision \<Rightarrow> card_revision" where
  "promoted notes actor source v = v\<lparr>cv_status := Revision_active, cv_notes := take 4000 notes, cv_by := actor, cv_source := source\<rparr>"

text \<open>The latest draft is promoted; without one a revision is made, under a number that has to be unused.\<close>

definition published_revisions :: "card \<Rightarrow> string \<Rightarrow> string \<Rightarrow> string \<Rightarrow> string \<Rightarrow> card_index \<Rightarrow> card_revision list result" where
  "published_revisions x notes actor source vid s =
     (let vs = revisions_of (ac_id x) s; src = (if source \<in> {''user'', ''agent''} then source else ''user'') in
      case latest_revision (filter (\<lambda>v. cv_status v = Revision_draft) vs) of
        Some v \<Rightarrow> Inr (row_mod cv_id (cv_id v) (promoted notes actor src) (ci_revisions s))
      | None \<Rightarrow> require (vid \<notin> cv_id ` set (ci_revisions s) \<and> next_revision vs \<notin> cv_version ` set vs) (Python_error ''IntegrityError'')
          (Inr (ci_revisions s @ [\<lparr>cv_id = vid, cv_card = ac_id x, cv_version = next_revision vs, cv_snapshot = ac_snapshot x,
             cv_notes = take 4000 notes, cv_by = actor, cv_source = src, cv_status = Revision_active\<rparr>])))"

definition publish_card :: "publisher \<Rightarrow> string \<Rightarrow> string \<Rightarrow> string \<Rightarrow> string \<Rightarrow> string \<Rightarrow> card_index \<Rightarrow> card_index result" where
  "publish_card c cid notes actor source vid s = bind_r (card_for_workspace c cid s) (\<lambda>x.
     require (ac_status x \<noteq> Card_deleted) (App_error 404 ''artifact_card_not_found'')
     (bind_r (published_revisions x notes actor source vid s) (\<lambda>vs. Inr
       (s\<lparr>ci_cards := row_mod ac_id (ac_id x) (\<lambda>x. x\<lparr>ac_status := (if ac_status x = Card_draft then Card_published else ac_status x)\<rparr>) (ci_cards s),
          ci_revisions := vs\<rparr>))))"

definition revision_for_workspace :: "publisher \<Rightarrow> string \<Rightarrow> card_index \<Rightarrow> card_revision result" where
  "revision_for_workspace c vid s = (case find (\<lambda>v. cv_id v = vid \<and> list_ex (\<lambda>x. ac_id x = cv_card v \<and> own_card c x) (ci_cards s)) (ci_revisions s) of
      None \<Rightarrow> Inl (App_error 404 ''artifact_card_version_not_found'') | Some v \<Rightarrow> Inr v)"

definition delete_revision :: "publisher \<Rightarrow> string \<Rightarrow> card_index \<Rightarrow> card_index result" where
  "delete_revision c vid s = bind_r (revision_for_workspace c vid s) (\<lambda>v.
     require (cv_status v = Revision_active) (App_error 404 ''artifact_card_version_not_found'')
     (Inr (s\<lparr>ci_revisions := row_mod cv_id vid (\<lambda>v. v\<lparr>cv_status := Revision_deleted\<rparr>) (ci_revisions s)\<rparr>)))"

section \<open>Links\<close>

definition create_card_link :: "(string \<Rightarrow> string) \<Rightarrow> publisher \<Rightarrow> string \<Rightarrow> instant option \<Rightarrow> int option \<Rightarrow> string \<Rightarrow> string \<Rightarrow> card_index \<Rightarrow>
    (card_index \<times> string) result" where
  "create_card_link sha c vid expires cap tid raw s = bind_r (revision_for_workspace c vid s) (\<lambda>v.
     require (cv_status v = Revision_active) (App_error 404 ''artifact_card_version_not_found'')
     (require (fresh_link tid (sha raw) (ci_links s)) (Python_error ''IntegrityError'')
     (Inr (s\<lparr>ci_links := ci_links s @ [\<lparr>lk_id = tid, lk_target = cv_id v, lk_hash = sha raw, lk_expires = expires, lk_max = new_cap cap,
        lk_count = 0, lk_revoked = None\<rparr>]\<rparr>, raw))))"

definition find_card_link :: "publisher \<Rightarrow> string \<Rightarrow> card_index \<Rightarrow> link option" where
  "find_card_link c tid s = find (\<lambda>l. lk_id l = tid \<and> list_ex (\<lambda>v. cv_id v = lk_target l \<and>
     list_ex (\<lambda>x. ac_id x = cv_card v \<and> own_card c x) (ci_cards s)) (ci_revisions s)) (ci_links s)"

definition set_revoked :: "string \<Rightarrow> instant \<Rightarrow> card_index \<Rightarrow> card_index" where
  "set_revoked tid now s = s\<lparr>ci_links := row_mod lk_id tid (\<lambda>l. l\<lparr>lk_revoked := Some now\<rparr>) (ci_links s)\<rparr>"

definition purge_link :: "string \<Rightarrow> card_index \<Rightarrow> card_index" where
  "purge_link tid s = s\<lparr>ci_links := filter (\<lambda>l. lk_id l \<noteq> tid) (ci_links s)\<rparr>"

definition revoke_card_link :: "publisher \<Rightarrow> string \<Rightarrow> instant \<Rightarrow> card_index \<Rightarrow> card_index result" where
  "revoke_card_link c tid now s = (case find_card_link c tid s of
      None \<Rightarrow> Inl (App_error 404 ''artifact_card_share_not_found'') | Some l \<Rightarrow> Inr (set_revoked tid now s))"

definition delete_card_link :: "publisher \<Rightarrow> string \<Rightarrow> instant \<Rightarrow> card_index \<Rightarrow> card_index result" where
  "delete_card_link c tid now s = (case find_card_link c tid s of
      None \<Rightarrow> Inl (App_error 404 ''artifact_card_share_not_found'')
    | Some l \<Rightarrow> require (\<not> link_usable now l) (App_error 409 ''artifact_card_share_token_active'') (Inr (purge_link tid s)))"

text \<open>One item of a batch: the index, and whether the item was changed or why it was skipped.\<close>

definition batch_item :: "publisher \<Rightarrow> bool \<Rightarrow> instant \<Rightarrow> card_index \<times> string list \<times> (string \<times> string) list \<Rightarrow> string \<Rightarrow>
    card_index \<times> string list \<times> (string \<times> string) list" where
  "batch_item c revoke now a tid = (case a of (s, affected, skipped) \<Rightarrow>
     (case find_card_link c tid s of
        None \<Rightarrow> (s, affected, skipped @ [(tid, ''not_found'')])
      | Some l \<Rightarrow>
          if revoke then (if lk_revoked l \<noteq> None then (s, affected, skipped @ [(tid, ''already_revoked'')]) else (set_revoked tid now s, affected @ [tid], skipped))
          else (if link_usable now l then (s, affected, skipped @ [(tid, ''still_active'')]) else (purge_link tid s, affected @ [tid], skipped))))"

definition batch_action :: "publisher \<Rightarrow> string \<Rightarrow> string list \<Rightarrow> instant \<Rightarrow> card_index \<Rightarrow> (card_index \<times> string list \<times> (string \<times> string) list) result" where
  "batch_action c action tids now s = require (action \<in> {''revoke'', ''purge''}) (App_error 422 ''artifact_card_share_batch_action'')
     (Inr (foldl (batch_item c (action = ''revoke'') now) (s, [], []) (fromkeys tids)))"

definition resolve_card_share :: "bool \<Rightarrow> (string \<Rightarrow> string) \<Rightarrow> string \<Rightarrow> instant \<Rightarrow> card_index \<Rightarrow> (card_index \<times> card_revision \<times> card) result" where
  "resolve_card_share naive sha raw now s = (case link_by_hash (sha raw) (ci_links s) of
      None \<Rightarrow> Inl (App_error 404 ''artifact_card_share_not_found'')
    | Some l \<Rightarrow> require (\<not> compare_raises naive l) (Python_error ''TypeError'')
        (require (link_usable now l) (App_error 404 ''artifact_card_share_not_found'')
        (case row_get cv_id (lk_target l) (ci_revisions s) of
           None \<Rightarrow> Inl (App_error 404 ''artifact_card_share_not_found'')
         | Some v \<Rightarrow> require (cv_status v = Revision_active) (App_error 404 ''artifact_card_share_not_found'')
             (case row_get ac_id (cv_card v) (ci_cards s) of
                None \<Rightarrow> Inl (App_error 404 ''artifact_card_share_not_found'')
              | Some x \<Rightarrow> require (ac_status x \<noteq> Card_deleted) (App_error 404 ''artifact_card_share_not_found'')
                  (require (claimed_use (lk_id l) now (ci_links s)) (App_error 404 ''artifact_card_share_not_found'')
                    (Inr (s\<lparr>ci_links := claim_use (lk_id l) now (ci_links s)\<rparr>, v, x)))))))"

section \<open>The machine\<close>

datatype card_call =
    Emit publisher "string option" "string option" string snapshot_dict string string
  | Delete_card publisher string
  | Publish_card publisher string string string string string
  | Delete_revision publisher string
  | Share_card publisher string "instant option" "int option" string string
  | Revoke_card_link publisher string instant
  | Delete_card_link publisher string instant
  | Batch publisher string "string list" instant
  | View_card string instant
  | Claim_card_view string instant

definition kept_index :: "card_index \<Rightarrow> card_index result \<Rightarrow> card_index" where
  "kept_index s r = (case r of Inl e \<Rightarrow> s | Inr s' \<Rightarrow> s')"

fun card_step :: "bool \<Rightarrow> (string \<Rightarrow> string) \<Rightarrow> (snapshot_dict \<Rightarrow> string) \<Rightarrow> card_index \<Rightarrow> card_call \<Rightarrow> card_index" where
  "card_step nv sha fp s (Emit c chat msg ty data rid vid) = kept_index s (upsert_from_part fp c chat msg ty data rid vid s)"
| "card_step nv sha fp s (Delete_card c cid) = kept_index s (delete_card c cid s)"
| "card_step nv sha fp s (Publish_card c cid notes actor source vid) = kept_index s (publish_card c cid notes actor source vid s)"
| "card_step nv sha fp s (Delete_revision c vid) = kept_index s (delete_revision c vid s)"
| "card_step nv sha fp s (Share_card c vid expires cap tid raw) = kept_index s (map_sum id fst (create_card_link sha c vid expires cap tid raw s))"
| "card_step nv sha fp s (Revoke_card_link c tid now) = kept_index s (revoke_card_link c tid now s)"
| "card_step nv sha fp s (Delete_card_link c tid now) = kept_index s (delete_card_link c tid now s)"
| "card_step nv sha fp s (Batch c action tids now) = kept_index s (map_sum id fst (batch_action c action tids now s))"
| "card_step nv sha fp s (View_card raw now) = kept_index s (map_sum id fst (resolve_card_share nv sha raw now s))"
| "card_step nv sha fp s (Claim_card_view tid now) = s\<lparr>ci_links := claim_use tid now (ci_links s)\<rparr>"

end
