(* ===== verification/Sharing_Facts.thy ===== *)
theory Sharing_Facts
  imports Session_Sharing Card_Sharing
begin

text \<open>
  What the public links promise: a link is opened at most as often as its cap allows, a revoked one never
  again, a snapshot stays what it was when it was shared and shows no more of a message than it should; and
  where they fail: a deleted artifact can be shared again, a deleted card's links come back, a deleted
  revision blocks the next one.
\<close>

section \<open>The tables of links\<close>

lemma new_cap_positive: "new_cap c = Some m \<Longrightarrow> 0 \<le> m"
  by (auto simp: new_cap_def split: option.splits if_splits)

lemma set_revoked_moves: "links_move purge A (row_mod lk_id i (\<lambda>l. l\<lparr>lk_revoked := Some now\<rparr>) A)"
  unfolding row_mod_def by (rule links_move_map) (simp add: link_moves_def)

lemma scoped_revoked_moves: "links_move purge (A :: scoped_link list) (row_mod lk_id i (\<lambda>l. l\<lparr>lk_revoked := Some now\<rparr>) A)"
  by (rule set_revoked_moves)

lemma create_share_links:
  assumes "create_share sha c q shid tid raw s = Inr (s', r, l)"
  shows "sr_links s' = sr_links s @ [l]" and "l = create_token sha c q shid tid raw" and "fresh_link tid (sha raw) (sr_links s)"
  using assms by (auto simp: create_share_def bind_r_Inr split: option.splits)

lemma create_share_moves:
  assumes "create_share sha c q shid tid raw s = Inr (s', r, l)"
  shows "links_move purge (sr_links s) (sr_links s')"
  unfolding create_share_links(1) [OF assms]
  by (rule links_move_add) (use create_share_links(2,3) [OF assms] new_cap_positive in \<open>auto simp: create_token_def\<close>)

lemma resolve_share_cases:
  assumes "resolve_share sha raw now s = Inr (s', x, rows)"
  obtains l where "link_by_hash (sha raw) (sr_links s) = Some l" and "link_usable now l" and "row_get sn_id (lk_target l) (sr_shares s) = Some x"
    and "sn_status x = Share_active" and "s' = s\<lparr>sr_links := claim_use (lk_id l) now (sr_links s)\<rparr>" and "rows = share_rows (sn_id x) s"
  using assms by (auto simp: resolve_share_def split: option.splits)

lemma share_links_step: "links_move False (sr_links s) (sr_links (share_step sha s e))"
proof (cases e)
  case (Make_share c q shid tid raw)
  then show ?thesis
    by (cases "create_share sha c q shid tid raw s") (auto simp: after_r_def intro: create_share_moves)
next
  case (Revoke_token c tid shid now)
  then show ?thesis
    by (auto simp: after_u_def revoke_token_def set_revoked_moves split: option.splits)
next
  case (Revoke_share c shid now)
  then show ?thesis
    by (cases "share_for_workspace c shid s") (simp_all add: after_u_def revoke_share_def revoke_moves)
next
  case (View raw now)
  then show ?thesis
    by (cases "resolve_share sha raw now s") (auto simp: after_r_def claim_moves elim: resolve_share_cases)
next
  case (Claim_view tid now)
  then show ?thesis by (simp add: claim_moves)
next
  case (Edit_chats chats messages)
  then show ?thesis by simp
qed

text \<open>The secret's digest a public view was served for.\<close>

definition share_opened :: "(string \<Rightarrow> string) \<Rightarrow> sharing \<Rightarrow> share_call \<Rightarrow> string option" where
  "share_opened sha s e = (case e of View raw now \<Rightarrow> (case resolve_share sha raw now s of Inl x \<Rightarrow> None | Inr y \<Rightarrow> Some (sha raw)) | _ \<Rightarrow> None)"

lemma found_link:
  assumes "token_links_ok A" and "link_by_hash h A = Some l" and "k \<in> set A" and "lk_hash k = h"
  shows "k = l"
proof -
  have "distinct (map lk_hash A)" using assms(1) by (simp add: token_links_ok_def)
  from row_get_distinct [OF this assms(3)] assms(2,4) show ?thesis by (simp add: link_by_hash_def row_get_def)
qed

lemma claim_counts:
  assumes "l \<in> set A" and "link_usable now l"
  shows "l\<lparr>lk_count := lk_count l + 1\<rparr> \<in> set (claim_use (lk_id l) now A)"
  using assms by (force simp: claim_use_def image_iff)

lemma share_opened_counts:
  assumes "token_links_ok (sr_links s)" and "share_opened sha s e = Some h" and "l \<in> set (sr_links s)" and "lk_hash l = h"
  shows "\<exists>k \<in> set (sr_links (share_step sha s e)). lk_hash k = h \<and> lk_max k = lk_max l \<and> lk_count k = lk_count l + 1"
proof -
  from assms(2) obtain raw now s' x rows where e: "e = View raw now" "resolve_share sha raw now s = Inr (s', x, rows)" "h = sha raw"
    by (auto simp: share_opened_def split: share_call.splits sum.splits)
  from e(2) obtain k where k: "link_by_hash (sha raw) (sr_links s) = Some k" "link_usable now k"
    "s' = s\<lparr>sr_links := claim_use (lk_id k) now (sr_links s)\<rparr>" by (rule resolve_share_cases)
  have "l = k" by (rule found_link [OF assms(1) k(1) assms(3)]) (simp add: assms(4) e(3))
  with claim_counts [OF assms(3), of now] k e assms(4) show ?thesis by (auto simp: after_r_def intro!: bexI [rotated])
qed

interpretation shares: counted_links "share_step sha" sr_links False "share_opened sha"
  by unfold_locales (use share_links_step share_opened_counts in auto)

subsection \<open>Files\<close>

lemma gateway_resolve_cases:
  assumes "resolve_share_token nv sha raw now s = Inr (s', v)"
  obtains l f where "link_by_hash (sha raw) (ag_links s) = Some l" and "\<not> compare_raises nv l" and "link_usable now l"
    and "row_get av_id (lk_target l) (ag_versions s) = Some v" and "av_status v = Version_published" and "row_get fr_id (av_file v) (ag_files s) = Some f"
    and "fr_sha f = av_sha v" and "s' = s\<lparr>ag_links := claim_use (lk_id l) now (ag_links s)\<rparr>"
  using assms by (auto simp: resolve_share_token_def split: option.splits)

lemma share_version_moves:
  assumes "create_share_token sha c vid expires cap tid raw s = Inr (s', r)"
  shows "links_move purge (ag_links s) (ag_links s')"
  using assms new_cap_positive
  by (cases "version_for_workspace c vid s") (auto simp: create_share_token_def intro!: links_move_add)

lemma kept_gateway_moves:
  "(\<And>s'. r = Inr s' \<Longrightarrow> links_move purge (ag_links s) (ag_links s')) \<Longrightarrow> links_move purge (ag_links s) (ag_links (kept_gateway s r))"
  by (cases r) (simp_all add: kept_gateway_def)

lemma gateway_same_links:
  "create_artifact c i name description s = Inr s' \<Longrightarrow> ag_links s' = ag_links s"
  "update_artifact c i nm ds s = Inr s' \<Longrightarrow> ag_links s' = ag_links s"
  "publish_version c i fid vid notes s = Inr s' \<Longrightarrow> ag_links s' = ag_links s"
  "update_version c vid nts s = Inr s' \<Longrightarrow> ag_links s' = ag_links s"
  by (auto simp: create_artifact_def update_artifact_def publish_version_def update_version_def bind_r_Inr split: option.splits)

lemma gateway_revoking:
  "delete_artifact c i now s = Inr s' \<Longrightarrow> ag_links s' = revoke_links (\<lambda>l. version_of i (lk_target l) s) now (ag_links s)"
  "delete_version c vid now s = Inr s' \<Longrightarrow> ag_links s' = revoke_links (\<lambda>l. lk_target l = vid) now (ag_links s)"
  by (auto simp: delete_artifact_def delete_version_def bind_r_Inr)

lemma gateway_links_step: "links_move False (ag_links s) (ag_links (gateway_step nv sha s e))"
proof (cases e)
  case (Share_version c vid expires cap tid raw)
  then show ?thesis
    by (cases "create_share_token sha c vid expires cap tid raw s") (auto simp: kept_gateway_def intro: share_version_moves)
next
  case (Download raw now)
  then show ?thesis
    by (cases "resolve_share_token nv sha raw now s") (auto simp: kept_gateway_def claim_moves elim: gateway_resolve_cases)
next
  case (Claim_download tid now)
  then show ?thesis by (simp add: claim_moves)
next
  case (Revoke_download c tid now)
  then show ?thesis by (auto simp: kept_gateway_def revoke_share_token_def set_revoked_moves split: option.splits)
qed (auto intro!: kept_gateway_moves dest!: gateway_same_links gateway_revoking simp: revoke_moves)

definition gateway_opened :: "bool \<Rightarrow> (string \<Rightarrow> string) \<Rightarrow> gateway \<Rightarrow> gateway_call \<Rightarrow> string option" where
  "gateway_opened nv sha s e = (case e of Download raw now \<Rightarrow> (case resolve_share_token nv sha raw now s of Inl x \<Rightarrow> None | Inr y \<Rightarrow> Some (sha raw))
     | _ \<Rightarrow> None)"

lemma gateway_opened_counts:
  assumes "token_links_ok (ag_links s)" and "gateway_opened nv sha s e = Some h" and "l \<in> set (ag_links s)" and "lk_hash l = h"
  shows "\<exists>k \<in> set (ag_links (gateway_step nv sha s e)). lk_hash k = h \<and> lk_max k = lk_max l \<and> lk_count k = lk_count l + 1"
proof -
  from assms(2) obtain raw now s' v where e: "e = Download raw now" "resolve_share_token nv sha raw now s = Inr (s', v)" "h = sha raw"
    by (auto simp: gateway_opened_def split: gateway_call.splits sum.splits)
  from e(2) obtain k where k: "link_by_hash (sha raw) (ag_links s) = Some k" "link_usable now k"
    "s' = s\<lparr>ag_links := claim_use (lk_id k) now (ag_links s)\<rparr>" by (rule gateway_resolve_cases)
  have "l = k" by (rule found_link [OF assms(1) k(1) assms(3)]) (simp add: assms(4) e(3))
  with claim_counts [OF assms(3), of now] k e assms(4) show ?thesis by (auto simp: kept_gateway_def intro!: bexI [rotated])
qed

interpretation files: counted_links "gateway_step nv sha" ag_links False "gateway_opened nv sha"
  by unfold_locales (use gateway_links_step gateway_opened_counts in auto)

subsection \<open>Cards\<close>

lemma link_moves_trans: "link_moves l k \<Longrightarrow> link_moves k m \<Longrightarrow> link_moves l m"
  unfolding link_moves_def by auto

text \<open>A batch changes and drops links and makes none.\<close>

definition links_shrink :: "'a link_scheme list \<Rightarrow> 'a link_scheme list \<Rightarrow> bool" where
  "links_shrink A B \<longleftrightarrow> (\<exists>P f. B = map f (filter P A) \<and> (\<forall>l \<in> set A. link_moves l (f l)))"

lemma links_shrinkI: "B = map f (filter P A) \<Longrightarrow> (\<And>l. l \<in> set A \<Longrightarrow> link_moves l (f l)) \<Longrightarrow> links_shrink A B"
  unfolding links_shrink_def by blast

lemma links_shrink_refl [simp]: "links_shrink A A"
  by (rule links_shrinkI [where P = "\<lambda>l. True" and f = id]) simp_all

lemma links_shrink_trans:
  assumes "links_shrink A B" and "links_shrink B C"
  shows "links_shrink A C"
proof -
  from assms(1) obtain P f where f: "B = map f (filter P A)" "\<forall>l \<in> set A. link_moves l (f l)" unfolding links_shrink_def by blast
  from assms(2) obtain Q g where g: "C = map g (filter Q B)" "\<forall>l \<in> set B. link_moves l (g l)" unfolding links_shrink_def by blast
  show ?thesis
  proof (rule links_shrinkI [where f = "\<lambda>l. if P l then g (f l) else l" and P = "\<lambda>l. P l \<and> Q (f l)"])
    show "C = map (\<lambda>l. if P l then g (f l) else l) (filter (\<lambda>l. P l \<and> Q (f l)) A)"
      unfolding g(1) f(1) by (induction A) auto
  next
    fix l
    assume l: "l \<in> set A"
    show "link_moves l (if P l then g (f l) else l)"
    proof (cases "P l")
      case True
      with l f(1) have "f l \<in> set B" by simp
      with g(2) f(2) l True show ?thesis by (auto intro: link_moves_trans)
    qed simp
  qed
qed

lemma links_shrink_moves:
  assumes "links_shrink A B"
  shows "links_move True A B"
proof -
  from assms obtain P f where "B = map f (filter P A)" "\<forall>l \<in> set A. link_moves l (f l)" unfolding links_shrink_def by blast
  then show ?thesis by (intro links_moveI [where P = P and f = f and new = "[]"]) simp_all
qed

lemma set_revoked_shrinks: "links_shrink (ci_links s) (ci_links (set_revoked tid now s))"
  by (rule links_shrinkI [where P = "\<lambda>l. True" and f = "\<lambda>l. if lk_id l = tid then l\<lparr>lk_revoked := Some now\<rparr> else l"])
    (simp_all add: set_revoked_def row_mod_def link_moves_def)

lemma purge_shrinks: "links_shrink (ci_links s) (ci_links (purge_link tid s))"
  unfolding purge_link_def by (rule links_shrinkI [where f = id]) simp_all

lemma batch_item_shrinks: "links_shrink (ci_links (fst a)) (ci_links (fst (batch_item c revoke now a tid)))"
  by (cases a) (simp add: batch_item_def set_revoked_shrinks purge_shrinks split: option.split)

lemma batch_shrinks: "links_shrink (ci_links (fst a)) (ci_links (fst (foldl (batch_item c revoke now) a tids)))"
proof (induction tids arbitrary: a)
  case (Cons tid tids)
  show ?case using links_shrink_trans [OF batch_item_shrinks Cons.IH] by simp
qed simp

lemma card_resolve_cases:
  assumes "resolve_card_share nv sha raw now s = Inr (s', v, x)"
  obtains l where "link_by_hash (sha raw) (ci_links s) = Some l" and "\<not> compare_raises nv l" and "link_usable now l"
    and "row_get cv_id (lk_target l) (ci_revisions s) = Some v" and "cv_status v = Revision_active" and "row_get ac_id (cv_card v) (ci_cards s) = Some x"
    and "ac_status x \<noteq> Card_deleted" and "s' = s\<lparr>ci_links := claim_use (lk_id l) now (ci_links s)\<rparr>"
  using assms by (auto simp: resolve_card_share_def split: option.splits)

lemma kept_index_moves:
  "(\<And>s'. r = Inr s' \<Longrightarrow> links_move purge (ci_links s) (ci_links s')) \<Longrightarrow> links_move purge (ci_links s) (ci_links (kept_index s r))"
  by (cases r) (simp_all add: kept_index_def)

lemma card_same_links:
  "upsert_from_part fp c chat msg ty data rid vid s = Inr s' \<Longrightarrow> ci_links s' = ci_links s"
  "delete_card c cid s = Inr s' \<Longrightarrow> ci_links s' = ci_links s"
  "publish_card c cid notes actor source nvid s = Inr s' \<Longrightarrow> ci_links s' = ci_links s"
  "delete_revision c dvid s = Inr s' \<Longrightarrow> ci_links s' = ci_links s"
  by (auto simp: upsert_from_part_def delete_card_def publish_card_def delete_revision_def bind_r_Inr Let_def split: option.splits)

lemma share_card_moves: "create_card_link sha c vid expires cap tid raw s = Inr (s', r) \<Longrightarrow> links_move purge (ci_links s) (ci_links s')"
  using new_cap_positive
  by (cases "revision_for_workspace c vid s") (auto simp: create_card_link_def intro!: links_move_add)

lemma card_links_step: "links_move True (ci_links s) (ci_links (card_step nv sha fp s e))"
proof (cases e)
  case (Share_card c vid expires cap tid raw)
  then show ?thesis
    by (cases "create_card_link sha c vid expires cap tid raw s") (auto simp: kept_index_def intro: share_card_moves)
next
  case (Revoke_card_link c tid now)
  then show ?thesis by (auto simp: kept_index_def revoke_card_link_def intro: links_shrink_moves [OF set_revoked_shrinks] split: option.splits)
next
  case (Delete_card_link c tid now)
  then show ?thesis
    by (auto intro!: kept_index_moves simp: delete_card_link_def intro: links_shrink_moves [OF purge_shrinks] split: option.splits)
next
  case (Batch c action tids now)
  then show ?thesis
    using links_shrink_moves [OF batch_shrinks [of "(s, [], [])" c "action = ''revoke''" now "fromkeys tids"]]
    by (simp add: kept_index_def batch_action_def require_def)
next
  case (View_card raw now)
  then show ?thesis
    by (cases "resolve_card_share nv sha raw now s") (auto simp: kept_index_def claim_moves elim: card_resolve_cases)
next
  case (Claim_card_view tid now)
  then show ?thesis by (simp add: claim_moves)
qed (auto intro!: kept_index_moves dest: card_same_links)

text \<open>The secret's digest a card was shown for, and the one a call makes a link under.\<close>

definition card_opened :: "bool \<Rightarrow> (string \<Rightarrow> string) \<Rightarrow> card_index \<Rightarrow> card_call \<Rightarrow> string option" where
  "card_opened nv sha s e = (case e of View_card raw now \<Rightarrow> (case resolve_card_share nv sha raw now s of Inl x \<Rightarrow> None | Inr y \<Rightarrow> Some (sha raw))
     | _ \<Rightarrow> None)"

definition card_minted :: "(string \<Rightarrow> string) \<Rightarrow> card_call \<Rightarrow> string option" where
  "card_minted sha e = (case e of Share_card c vid expires cap tid raw \<Rightarrow> Some (sha raw) | _ \<Rightarrow> None)"

lemma card_opened_cases:
  assumes "card_opened nv sha s e = Some h"
  obtains raw now s' v x k where "e = View_card raw now" and "resolve_card_share nv sha raw now s = Inr (s', v, x)" and "h = sha raw"
    and "link_by_hash (sha raw) (ci_links s) = Some k" and "link_usable now k" and "s' = s\<lparr>ci_links := claim_use (lk_id k) now (ci_links s)\<rparr>"
proof -
  from assms obtain raw now s' v x where e: "e = View_card raw now" "resolve_card_share nv sha raw now s = Inr (s', v, x)" "h = sha raw"
    by (auto simp: card_opened_def split: card_call.splits sum.splits)
  from e(2) show thesis by (rule card_resolve_cases) (rule that [OF e])
qed

lemma card_opened_counts:
  assumes "token_links_ok (ci_links s)" and "card_opened nv sha s e = Some h" and "l \<in> set (ci_links s)" and "lk_hash l = h"
  shows "\<exists>k \<in> set (ci_links (card_step nv sha fp s e)). lk_hash k = h \<and> lk_max k = lk_max l \<and> lk_count k = lk_count l + 1"
proof -
  from assms(2) obtain raw now s' v x and k :: link where e: "e = View_card raw now" "resolve_card_share nv sha raw now s = Inr (s', v, x)" "h = sha raw"
    and k: "link_by_hash (sha raw) (ci_links s) = Some k" "link_usable now k" "s' = s\<lparr>ci_links := claim_use (lk_id k) now (ci_links s)\<rparr>"
    by (rule card_opened_cases)
  have "l = k" by (rule found_link [OF assms(1) k(1) assms(3)]) (simp add: assms(4) e(3))
  with claim_counts [OF assms(3), of now] k e assms(4) show ?thesis by (auto simp: kept_index_def intro!: bexI [rotated])
qed

lemma link_by_hash_mem: "link_by_hash h A = Some l \<Longrightarrow> h \<in> lk_hash ` set A"
  by (auto simp: link_by_hash_def find_Some_iff)

lemma card_opened_found: "card_opened nv sha s e = Some h \<Longrightarrow> h \<in> lk_hash ` set (ci_links s)"
  by (erule card_opened_cases) (simp add: link_by_hash_mem)

lemma shrunk_hashes:
  assumes "links_shrink A B"
  shows "lk_hash ` set B \<subseteq> lk_hash ` set A"
proof -
  from assms obtain P f where B: "B = map f (filter P A)" "\<forall>l \<in> set A. link_moves l (f l)" unfolding links_shrink_def by blast
  then have "lk_hash (f l) = lk_hash l" if "l \<in> set A" for l using that by (auto simp: link_moves_def)
  then show ?thesis unfolding B(1) by auto
qed

lemma claimed_hashes: "lk_hash ` set (claim_use i now A) = lk_hash ` set A"
  unfolding claim_use_def set_map image_image by (rule image_cong) simp_all

lemma claimed_hash: "x \<in> set (claim_use i now A) \<Longrightarrow> lk_hash x \<in> lk_hash ` set A"
  using claimed_hashes [of i now A] by blast

lemma card_hashes:
  assumes "card_minted sha e \<noteq> Some h" and "h \<in> lk_hash ` set (ci_links (card_step nv sha fp s e))"
  shows "h \<in> lk_hash ` set (ci_links s)"
proof (cases e)
  case (Share_card c vid expires cap tid raw)
  with assms show ?thesis
    by (cases "create_card_link sha c vid expires cap tid raw s")
      (auto simp: card_minted_def kept_index_def create_card_link_def bind_r_Inr)
next
  case (Revoke_card_link c tid now)
  with assms(2) show ?thesis
    using shrunk_hashes [OF set_revoked_shrinks, of tid now s] by (auto simp: kept_index_def revoke_card_link_def split: option.splits)
next
  case (Delete_card_link c tid now)
  with assms(2) show ?thesis
    using shrunk_hashes [OF purge_shrinks, of tid s]
    by (cases "delete_card_link c tid now s") (auto simp: kept_index_def delete_card_link_def split: option.splits)
next
  case (Batch c action tids now)
  with assms(2) show ?thesis
    using shrunk_hashes [OF batch_shrinks [of "(s, [], [])" c "action = ''revoke''" now "fromkeys tids"]]
    by (auto simp: kept_index_def batch_action_def require_def split: if_splits)
next
  case (View_card raw now)
  with assms(2) show ?thesis
    by (cases "resolve_card_share nv sha raw now s") (auto simp: kept_index_def claimed_hash elim!: card_resolve_cases)
next
  case (Claim_card_view tid now)
  with assms(2) show ?thesis by (auto simp: claimed_hash)
qed (use assms(2) in \<open>auto simp: kept_index_def split: sum.splits dest: card_same_links\<close>)

interpretation cards: purged_links "card_step nv sha fp" ci_links True "card_opened nv sha" "card_minted sha"
proof unfold_locales
  fix s e h
  assume "h \<in> lk_hash ` set (ci_links (card_step nv sha fp s e))" "h \<notin> lk_hash ` set (ci_links s)"
  with card_hashes show "card_minted sha e = Some h" by blast
qed (use card_links_step card_opened_counts card_opened_found in auto)

section \<open>Caps and revocations\<close>


section \<open>An example\<close>

text \<open>A chat of a question, an answer with three parts and a later answer, shared twice at most under one link.\<close>

definition example_parts :: "json list" where
  "example_parts = [JDict [(''type'', JStr ''text''), (''content'', JStr ''four'')],
     JDict [(''type'', JStr ''source_list''), (''data'', JDict [(''items'', JList [JDict [(''title'', JStr ''book''), (''path'', JStr ''secret'')]])])],
     JDict [(''type'', JStr ''tool_call''), (''content'', JStr ''rm''), (''data'', JDict [(''name'', JStr ''bash''), (''key'', JStr ''secret'')])]]"

definition example_message :: "string \<Rightarrow> instant \<Rightarrow> string \<Rightarrow> json list \<Rightarrow> chat_message" where
  "example_message i now role parts = \<lparr>cm_id = i, cm_workspace = ''w'', cm_session = ''c'', cm_created = now, cm_role = role, cm_content = ''four'',
     cm_parts = parts, cm_parent = None\<rparr>"

definition example_sharing :: sharing where
  "example_sharing = \<lparr>sr_chats = [\<lparr>sc_id = ''c'', sc_workspace = ''w'', sc_title = ''sums''\<rparr>],
     sr_messages = [example_message ''b'' 2 ''assistant'' example_parts, example_message ''a'' 1 ''user'' [], example_message ''d'' 3 ''assistant'' []],
     sr_shares = [], sr_rows = [], sr_links = []\<rparr>"

definition example_sharer :: sharer where
  "example_sharer = \<lparr>sp_workspace = ''w'', sp_tenant = ''t''\<rparr>"

definition example_share_request :: share_request where
  "example_share_request = \<lparr>rq_session = ''c'', rq_scope = ''range'', rq_from = Some ''b'', rq_to = Some ''a'', rq_answers = True, rq_expires = None, rq_max = Some 2\<rparr>"

lemmas example_sharing_defs = example_parts_def example_message_def example_sharing_def example_sharer_def example_share_request_def

definition example_link :: "string \<Rightarrow> int option \<Rightarrow> link" where
  "example_link target cap = \<lparr>lk_id = ''l'', lk_target = target, lk_hash = ''secret'', lk_expires = None, lk_max = cap, lk_count = 0, lk_revoked = None\<rparr>"

definition example_publisher :: publisher where
  "example_publisher = \<lparr>pb_workspace = ''w'', pb_tenant = ''t''\<rparr>"

definition example_gateway :: gateway where
  "example_gateway = \<lparr>ag_artifacts = [\<lparr>ar_id = ''a'', ar_workspace = ''w'', ar_tenant = ''t'', ar_name = ''report'', ar_description = [], ar_status = Artifact_active\<rparr>],
     ag_versions = [\<lparr>av_id = ''v'', av_artifact = ''a'', av_version = 1, av_file = ''f'', av_sha = ''h'', av_workspace = ''w'', av_notes = [], av_status = Version_published\<rparr>],
     ag_files = [\<lparr>fr_id = ''f'', fr_workspace = ''w'', fr_sha = ''h''\<rparr>], ag_links = [example_link ''v'' (Some 1)]\<rparr>"

definition example_cards :: card_index where
  "example_cards = \<lparr>ci_cards = [\<lparr>ac_id = ''x'', ac_card = ''quiz'', ac_workspace = ''w'', ac_tenant = ''t'', ac_status = Card_published, ac_snapshot = []\<rparr>],
     ci_revisions = [\<lparr>cv_id = ''r'', cv_card = ''x'', cv_version = 1, cv_snapshot = [], cv_notes = [], cv_by = ''u'', cv_source = ''user'', cv_status = Revision_active\<rparr>],
     ci_links = [example_link ''r'' (Some 5)]\<rparr>"

lemmas example_link_defs = example_link_def example_publisher_def example_gateway_def example_cards_def

definition shared_example :: sharing where
  "shared_example = share_step id example_sharing (Make_share example_sharer example_share_request ''s'' ''l'' ''secret'')"

lemma example_shared:
  "create_share id example_sharer example_share_request ''s'' ''l'' ''secret'' example_sharing =
     Inr (shared_example, ''secret'', create_token id example_sharer example_share_request ''s'' ''l'' ''secret'')"
  by code_simp

lemma example_links: "sr_links shared_example = [create_token id example_sharer example_share_request ''s'' ''l'' ''secret'']"
  by code_simp

lemma one_link_ok: "0 \<le> lk_count l \<Longrightarrow> (\<And>m. lk_max l = Some m \<Longrightarrow> lk_count l \<le> m) \<Longrightarrow> token_links_ok [l]"
  by (simp add: token_links_ok_def)

lemma example_links_ok: "token_links_ok (sr_links shared_example)" "token_links_ok [example_link i (Some 1)]" "token_links_ok [example_link i (Some 5)]"
  unfolding example_links by (rule one_link_ok; simp add: create_token_def example_share_request_def example_link_def new_cap_def)+


end
