(* ===== verification/Sharing_Properties.thy ===== *)
theory Sharing_Properties
  imports Sharing_Facts
begin

text \<open>Revocation of a share, the immutability of a snapshot and what it shows.\<close>

section \<open>Revoked shares\<close>

lemma not_usable: "lk_revoked l \<noteq> None \<Longrightarrow> \<not> link_usable now l"
  by (simp add: link_usable_def)

lemma resolve_revoked:
  assumes "link_by_hash (sha raw) (sr_links s) = Some k" and "lk_revoked k \<noteq> None"
  shows "resolve_share sha raw now s = Inl (App_error 404 ''session_share_not_found'')"
  using assms not_usable [OF assms(2)] by (simp add: resolve_share_def require_def)

text \<open>
  Revoking a share is final: no secret of any of its links opens it again, whatever calls follow, and even
  a view that had been looked up before the revocation claims nothing.
\<close>

lemma revoked_share_stays_closed:
  assumes "revoke_share c shid now s = Inr s'" and "token_links_ok (sr_links s)"
    and "l \<in> set (sr_links s)" and "lk_target l = shid" and "own_link c l" and "lk_hash l = sha raw"
  shows "let t = foldl (share_step sha) s' cs in
    resolve_share sha raw later t = Inl (App_error 404 ''session_share_not_found'') \<and>
    (\<exists>k. link_by_hash (sha raw) (sr_links t) = Some k \<and> lk_revoked k \<noteq> None \<and> lk_count k = lk_count l)"
proof -
  from assms(1) have links: "sr_links s' = revoke_links (\<lambda>l. lk_target l = shid \<and> own_link c l) now (sr_links s)"
    by (auto simp: revoke_share_def bind_r_Inr)
  have ok: "token_links_ok (sr_links s')" unfolding links by (rule links_move_ok [OF revoke_moves assms(2)])
  obtain k where k: "k \<in> set (sr_links s')" "lk_hash k = sha raw" "lk_revoked k \<noteq> None" "lk_count k = lk_count l"
  proof (cases "lk_revoked l")
    case None
    with assms(3-6) show thesis by (intro that [of "l\<lparr>lk_revoked := Some now\<rparr>"]) (auto simp: links revoke_links_def image_iff intro!: bexI [of _ l])
  next
    case (Some r)
    with assms(3,6) show thesis by (intro that [of l]) (auto simp: links revoke_links_def image_iff intro!: bexI [of _ l])
  qed
  from shares.revoked_stays [OF ok k(1,3), of sha cs] k(2,4) obtain q where
    q: "link_by_hash (sha raw) (sr_links (foldl (share_step sha) s' cs)) = Some q" "lk_revoked q \<noteq> None" "lk_count q = lk_count l" by auto
  from resolve_revoked [of sha raw, OF q(1,2)] q show ?thesis by (simp add: Let_def)
qed

section \<open>Frozen snapshots\<close>

definition frozen :: "string \<Rightarrow> shared_row list \<Rightarrow> string \<Rightarrow> share \<Rightarrow> sharing \<Rightarrow> bool" where
  "frozen shid rows h x s \<longleftrightarrow> token_links_ok (sr_links s) \<and> filter (\<lambda>r. sw_share r = shid) (sr_rows s) = rows \<and>
     (\<exists>y. row_get sn_id shid (sr_shares s) = Some y \<and> y\<lparr>sn_status := Share_active\<rparr> = x) \<and>
     (\<exists>l \<in> set (sr_links s). lk_hash l = h \<and> lk_target l = shid)"

lemma revoke_keeps_share:
  assumes "row_get sn_id shid xs = Some y"
  shows "\<exists>z. row_get sn_id shid (row_mod sn_id i (\<lambda>x. x\<lparr>sn_status := st\<rparr>) xs) = Some z \<and> z\<lparr>sn_status := Share_active\<rparr> = y\<lparr>sn_status := Share_active\<rparr>"
  using assms by (cases "i = shid") (simp_all add: row_get_mod_same row_get_mod_other)

lemma frozen_links:
  assumes "frozen shid rows h x s" and "links_move False (sr_links s) (sr_links s')" and "sr_rows s' = sr_rows s" and "sr_shares s' = sr_shares s"
  shows "frozen shid rows h x s'"
proof -
  from assms(1) obtain l where l: "l \<in> set (sr_links s)" "lk_hash l = h" "lk_target l = shid" unfolding frozen_def by blast
  from link_moves_found [OF assms(2) l(1)] obtain k where "k \<in> set (sr_links s')" "link_moves l k" .
  then have "\<exists>k \<in> set (sr_links s'). lk_hash k = h \<and> lk_target k = shid" using l(2,3) by (auto simp: link_moves_def)
  moreover have "token_links_ok (sr_links s')" using links_move_ok [OF assms(2)] assms(1) by (simp add: frozen_def)
  ultimately show ?thesis using assms(1,3,4) by (simp add: frozen_def)
qed

lemma created_share:
  assumes "create_share sha c q shid tid raw s = Inr (s', r, l)"
  obtains chat ms where "find_chat c (rq_session q) s = Some chat"
    and "select_messages q (session_messages (sp_workspace c) (rq_session q) s) = Inr ms"
    and "shid \<notin> sn_id ` set (sr_shares s)" and "shid \<notin> sw_share ` set (sr_rows s)"
    and "s' = s\<lparr>sr_shares := sr_shares s @ [new_share c q shid (sc_title chat) (length ms)], sr_rows := sr_rows s @ frozen_rows shid ms,
            sr_links := sr_links s @ [l]\<rparr>" and "l = create_token sha c q shid tid raw"
  using assms by (auto simp: create_share_def bind_r_Inr split: option.splits)

lemma frozen_step:
  assumes "frozen shid rows h x s"
  shows "frozen shid rows h x (share_step sha s e)"
proof (cases e)
  case (Make_share c q shid' tid raw)
  show ?thesis
  proof (cases "create_share sha c q shid' tid raw s")
    case (Inr y)
    obtain s' r l where y: "y = (s', r, l)" by (cases y) auto
    from Inr y have made: "create_share sha c q shid' tid raw s = Inr (s', r, l)" by simp
    from made obtain chat :: shared_chat and ms where s': "shid' \<notin> sn_id ` set (sr_shares s)" "s' = s\<lparr>sr_shares := sr_shares s @ [new_share c q shid' (sc_title chat) (length ms)],
      sr_rows := sr_rows s @ frozen_rows shid' ms, sr_links := sr_links s @ [l]\<rparr>" by (rule created_share) (rule that)
    from assms have "row_get sn_id shid (sr_shares s) \<noteq> None" unfolding frozen_def by auto
    then have "shid \<in> sn_id ` set (sr_shares s)" by (simp add: row_get_None_iff)
    with s'(1) have ne: "shid' \<noteq> shid" by blast
    have "links_move False (sr_links s) (sr_links s')" by (rule create_share_moves [OF made])
    from frozen_links [OF assms this, unfolded s'(2)] have "frozen shid rows h x (s\<lparr>sr_links := sr_links s @ [l]\<rparr>)"
      using frozen_links [OF assms, of "s\<lparr>sr_links := sr_links s @ [l]\<rparr>"] \<open>links_move False (sr_links s) (sr_links s')\<close> s'(2) by simp
    then have "frozen shid rows h x s'" using ne unfolding s'(2)
      by (auto simp: frozen_def row_get_append frozen_rows_def freeze_def filter_empty_conv)
    with Make_share Inr y show ?thesis by (simp add: after_r_def)
  qed (use assms Make_share in \<open>simp add: after_r_def\<close>)
next
  case (Revoke_token c tid sh now)
  have "sr_rows (share_step sha s e) = sr_rows s" "sr_shares (share_step sha s e) = sr_shares s"
    by (simp_all add: Revoke_token after_u_def revoke_token_def split: option.split)
  then show ?thesis by (intro frozen_links [OF assms share_links_step])
next
  case (Revoke_share c sh now)
  show ?thesis
  proof (cases "share_for_workspace c sh s")
    case (Inr y)
    have "frozen shid rows h x (s\<lparr>sr_links := revoke_links (\<lambda>l. lk_target l = sh \<and> own_link c l) now (sr_links s)\<rparr>)"
      by (rule frozen_links [OF assms]) (simp_all add: revoke_moves)
    then show ?thesis using Inr Revoke_share revoke_keeps_share [of shid "sr_shares s" _ sh Share_revoked]
      unfolding frozen_def by (auto simp: after_u_def revoke_share_def)
  qed (use assms Revoke_share in \<open>simp add: after_u_def revoke_share_def\<close>)
next
  case (View raw now)
  have "sr_rows (share_step sha s e) = sr_rows s" "sr_shares (share_step sha s e) = sr_shares s"
    by (cases "resolve_share sha raw now s"; auto simp: View after_r_def elim: resolve_share_cases)+
  then show ?thesis by (intro frozen_links [OF assms share_links_step])
next
  case (Claim_view tid now)
  then show ?thesis by (intro frozen_links [OF assms share_links_step]) simp_all
next
  case (Edit_chats chats messages)
  then show ?thesis by (intro frozen_links [OF assms share_links_step]) simp_all
qed

interpretation frozen_machine: step_machine "share_step sha" "frozen shid rows h x"
  by unfold_locales (rule frozen_step)

lemma map_ordinals: "map sw_ordinal (map (freeze shid) (enumerate n ms)) = [n..<n + length ms]"
  by (induction ms arbitrary: n) (simp_all add: freeze_def upt_rec)

lemma frozen_rows_sorted: "sort_key sw_ordinal (frozen_rows shid ms) = frozen_rows shid ms"
  by (rule sort_key_id_if_sorted) (simp add: frozen_rows_def map_ordinals del: map_map)

text \<open>
  C28. A shared snapshot is frozen: whoever opens it later, after whatever edits of the conversation, further
  shares, views and revocations, reads exactly the selected messages, in order and as they were made safe when
  it was shared, under the title and scope it got then.
\<close>

theorem shared_snapshot_is_frozen:
  assumes "create_share sha c q shid tid raw s = Inr (s', r, l)" and "token_links_ok (sr_links s)"
    and "resolve_share sha raw now (foldl (share_step sha) s' cs) = Inr (t, x, rows)"
  shows "\<exists>ms title. select_messages q (session_messages (sp_workspace c) (rq_session q) s) = Inr ms \<and> rows = frozen_rows shid ms \<and>
    x = new_share c q shid title (length ms)"
proof -
  from assms(1) obtain chat :: shared_chat and ms where m: "select_messages q (session_messages (sp_workspace c) (rq_session q) s) = Inr ms"
    "shid \<notin> sn_id ` set (sr_shares s)" "shid \<notin> sw_share ` set (sr_rows s)"
    "s' = s\<lparr>sr_shares := sr_shares s @ [new_share c q shid (sc_title chat) (length ms)], sr_rows := sr_rows s @ frozen_rows shid ms,
       sr_links := sr_links s @ [l]\<rparr>" "l = create_token sha c q shid tid raw" by (rule created_share) (rule that)
  let ?x = "new_share c q shid (sc_title chat) (length ms)"
  have "token_links_ok (sr_links s')" by (rule links_move_ok [OF create_share_moves [OF assms(1)] assms(2)])
  moreover have "filter (\<lambda>r. sw_share r = shid) (sr_rows s') = frozen_rows shid ms"
  proof -
    have "filter (\<lambda>r. sw_share r = shid) (sr_rows s) = []" using m(3) by (auto simp: filter_empty_conv)
    moreover have "filter (\<lambda>r. sw_share r = shid) (frozen_rows shid ms) = frozen_rows shid ms"
      by (rule filter_True) (auto simp: frozen_rows_def freeze_def)
    ultimately show ?thesis by (simp add: m(4))
  qed
  moreover have "row_get sn_id shid (sr_shares s') = Some ?x"
    using m(2) by (simp add: m(4) row_get_append row_get_None_iff [THEN iffD2] new_share_def)
  moreover have "?x\<lparr>sn_status := Share_active\<rparr> = ?x" by (simp add: new_share_def)
  moreover have "lk_hash l = sha raw" "lk_target l = shid" "l \<in> set (sr_links s')" by (simp_all add: m(4,5) create_token_def)
  ultimately have "frozen shid (frozen_rows shid ms) (sha raw) ?x s'" unfolding frozen_def by blast
  from frozen_machine.run_inv [OF this, of sha cs]
  have fz: "frozen shid (frozen_rows shid ms) (sha raw) ?x (foldl (share_step sha) s' cs)" .
  from assms(3) obtain k where k: "link_by_hash (sha raw) (sr_links (foldl (share_step sha) s' cs)) = Some k"
    "row_get sn_id (lk_target k) (sr_shares (foldl (share_step sha) s' cs)) = Some x" "sn_status x = Share_active"
    "rows = share_rows (sn_id x) (foldl (share_step sha) s' cs)" by (rule resolve_share_cases)
  from fz obtain l' y where l': "l' \<in> set (sr_links (foldl (share_step sha) s' cs))" "lk_hash l' = sha raw" "lk_target l' = shid"
    "row_get sn_id shid (sr_shares (foldl (share_step sha) s' cs)) = Some y" "y\<lparr>sn_status := Share_active\<rparr> = ?x"
    "token_links_ok (sr_links (foldl (share_step sha) s' cs))" "filter (\<lambda>r. sw_share r = shid) (sr_rows (foldl (share_step sha) s' cs)) = frozen_rows shid ms"
    unfolding frozen_def by blast
  from found_link [OF l'(6) k(1) l'(1,2)] l'(3) have "lk_target k = shid" by simp
  with k(2) l'(4) have "x = y" by simp
  moreover have "y\<lparr>sn_status := Share_active\<rparr> = y" if "sn_status y = Share_active" using that by (cases y) simp
  ultimately have x: "x = ?x" using k(3) l'(5) by simp
  have "rows = frozen_rows shid ms" unfolding k(4) share_rows_def x using l'(7) by (simp add: new_share_def frozen_rows_sorted)
  with m(1) x show ?thesis by blast
qed

lemma resolved_share: "(case r of Inl e \<Rightarrow> False | Inr y \<Rightarrow> True) \<Longrightarrow> \<exists>t x rows. r = Inr (t, x, rows)"
  by (cases r) auto

theorem shared_snapshot_is_frozen_witness:
  "\<exists>t x rows ms title. resolve_share id ''secret'' 5 (foldl (share_step id) shared_example [Edit_chats [] [], View ''secret'' 4]) = Inr (t, x, rows) \<and>
     select_messages example_share_request (session_messages ''w'' ''c'' example_sharing) = Inr ms \<and>
     rows = frozen_rows ''s'' ms \<and> x = new_share example_sharer example_share_request ''s'' title (length ms)"
proof -
  have "case resolve_share id ''secret'' 5 (foldl (share_step id) shared_example [Edit_chats [] [], View ''secret'' 4]) of Inl e \<Rightarrow> False | Inr y \<Rightarrow> True"
    by code_simp
  from resolved_share [OF this] obtain t x rows where
    r: "resolve_share id ''secret'' 5 (foldl (share_step id) shared_example [Edit_chats [] [], View ''secret'' 4]) = Inr (t, x, rows)" by blast
  have "token_links_ok (sr_links example_sharing)" by (simp add: example_sharing_def)
  from shared_snapshot_is_frozen [OF example_shared this r] r show ?thesis
    by (simp add: example_sharer_def example_share_request_def)
qed

section \<open>What a snapshot shows\<close>

text \<open>The data of a shown part: only the text kinds keep theirs.\<close>

definition safe_source :: "json \<Rightarrow> bool" where
  "safe_source j \<longleftrightarrow> (case j of JDict d \<Rightarrow> map fst d = [''title'', ''url'', ''locator'', ''quote''] \<and> list_all (\<lambda>(k, v). \<exists>s. v = JStr s) d | _ \<Rightarrow> False)"

definition safe_data :: "json \<Rightarrow> bool" where
  "safe_data j \<longleftrightarrow> (case j of
      JDict d \<Rightarrow> (\<exists>xs. d = [(''items'', JList xs)] \<and> list_all safe_source xs) \<or>
        (\<exists>v. d = [(''preview_snapshot'', JDict v), (''degraded'', JBool False)]) \<or>
        (set (map fst d) \<subseteq> {''degraded'', ''reason'', ''name''} \<and> jget d ''degraded'' = JBool True)
    | _ \<Rightarrow> False)"

lemma source_items_safe: "list_all safe_source (source_items p)"
  by (auto simp: source_items_def Let_def list_all_iff shown_source_def safe_source_def split: option.splits)

lemma jget_update_same: "jget (AList.update k v d) k = v"
  by (simp add: jget_def jget_default_def)

lemma jget_update_other: "k \<noteq> k' \<Longrightarrow> jget (AList.update k v d) k' = jget d k'"
  by (simp add: jget_def jget_default_def)

lemma with_data_fields:
  "jget (AList.update ''data'' dt (AList.update ''content'' ct p)) ''data'' = dt"
  "jget (AList.update ''data'' dt (AList.update ''content'' ct p)) ''content'' = ct"
  "k \<notin> {''data'', ''content''} \<Longrightarrow> jget (AList.update ''data'' dt (AList.update ''content'' ct p)) k = jget p k"
  by (auto simp: jget_update_same jget_update_other)

lemma degraded_safe:
  "safe_data (JDict ([(''degraded'', JBool True), (''reason'', JStr r)] @ (if n = [] then [] else [(''name'', JStr n)])))"
  by (simp add: safe_data_def jget_def jget_default_def dict_get_def)

definition disclosed :: "(string \<times> json) list \<Rightarrow> (string \<times> json) list \<Rightarrow> bool" where
  "disclosed p d \<longleftrightarrow> (if shown (jget p ''type'') \<in> set text_kinds then d = p
     else safe_data (jget d ''data'') \<and> (shown (jget p ''type'') \<noteq> ''source_list'' \<longrightarrow> jget d ''content'' = JStr []) \<and>
       (\<forall>k. k \<notin> {''data'', ''content''} \<longrightarrow> jget d k = jget p k))"

lemma sanitize_discloses: "\<exists>d. sanitize_part p = JDict d \<and> disclosed p d"
proof (cases "shown (jget p ''type'') \<in> set text_kinds")
  case True
  then show ?thesis by (simp add: sanitize_part_def disclosed_def Let_def)
next
  case other: False
  note wd = with_data_def with_data_fields
  consider (sources) "shown (jget p ''type'') = ''source_list''"
    | (preview) "shown (jget p ''type'') \<noteq> ''source_list''" "shown (jget p ''type'') \<in> {''magic_card'', ''component''} \<and> preview_of p \<noteq> []"
    | (degraded) "shown (jget p ''type'') \<noteq> ''source_list''" "\<not> (shown (jget p ''type'') \<in> {''magic_card'', ''component''} \<and> preview_of p \<noteq> [])"
    by blast
  then show ?thesis
  proof cases
    case sources
    have "safe_data (JDict [(''items'', JList (source_items p))])" by (simp add: safe_data_def source_items_safe)
    with other sources show ?thesis by (simp add: sanitize_part_def disclosed_def Let_def wd)
  next
    case preview
    have "safe_data (JDict [(''preview_snapshot'', JDict (preview_of p)), (''degraded'', JBool False)])" by (simp add: safe_data_def)
    with other preview show ?thesis by (simp add: sanitize_part_def disclosed_def Let_def wd)
  next
    case degraded
    with other degraded_safe [of "''not part of the share''" "part_name p"] show ?thesis
      by (auto simp: sanitize_part_def disclosed_def Let_def wd)
  qed
qed

lemma sanitized_from:
  assumes "j \<in> set (sanitize_parts parts)"
  obtains p d where "JDict p \<in> set parts" and "j = JDict d" and "disclosed p d"
proof -
  have "\<exists>i \<in> set parts. \<exists>p. dict_of i = Some p \<and> j = sanitize_part p"
    using assms by (induction parts) (auto simp: sanitize_parts_def split: option.splits, metis)
  then obtain i p where "i \<in> set parts" "dict_of i = Some p" "j = sanitize_part p" by blast
  moreover from this(2) have "i = JDict p" by (cases i) simp_all
  ultimately show thesis using sanitize_discloses [of p] that by blast
qed

text \<open>
  C29. A public snapshot shows of each part of a message its text, or else a safe form: sources as four texts
  each, a published preview, or a placeholder with at most a name. The content of such a part is empty (sources
  may keep theirs); but every other field of the stored part is published as it is.
\<close>

theorem shared_parts_are_safe:
  assumes "row \<in> set (frozen_rows shid ms)" and "j \<in> set (sw_parts row)"
  shows "\<exists>m \<in> set ms. sw_source row = cm_id m \<and> (\<exists>p d. JDict p \<in> set (cm_parts m) \<and> j = JDict d \<and>
    (if shown (jget p ''type'') \<in> set text_kinds then d = p
     else safe_data (jget d ''data'') \<and> (shown (jget p ''type'') \<noteq> ''source_list'' \<longrightarrow> jget d ''content'' = JStr []) \<and>
       (\<forall>k. k \<notin> {''data'', ''content''} \<longrightarrow> jget d k = jget p k)))"
proof -
  from assms(1) obtain n m where "(n, m) \<in> set (enumerate 0 ms)" and row: "row = freeze shid (n, m)" by (auto simp: frozen_rows_def)
  then have m: "m \<in> set ms" by (auto simp: in_set_enumerate_eq)
  from assms(2) row have "j \<in> set (sanitize_parts (cm_parts m))" by (simp add: freeze_def)
  then obtain p d where "JDict p \<in> set (cm_parts m)" "j = JDict d" "disclosed p d" by (rule sanitized_from)
  note this(1,2) this(3) [unfolded disclosed_def]
  moreover have "sw_source row = cm_id m" by (simp add: row freeze_def)
  ultimately show ?thesis using m by blast
qed

theorem shared_parts_are_safe_witness:
  "\<exists>p d. JDict p \<in> set example_parts \<and> sanitize_parts example_parts ! 2 = JDict d \<and>
    (if shown (jget p ''type'') \<in> set text_kinds then d = p
     else safe_data (jget d ''data'') \<and> (shown (jget p ''type'') \<noteq> ''source_list'' \<longrightarrow> jget d ''content'' = JStr []) \<and>
       (\<forall>k. k \<notin> {''data'', ''content''} \<longrightarrow> jget d k = jget p k))"
proof -
  let ?m = "example_message ''b'' 2 ''assistant'' example_parts"
  have row: "freeze ''s'' (0, ?m) \<in> set (frozen_rows ''s'' [?m])" by (simp add: frozen_rows_def)
  have parts: "sw_parts (freeze ''s'' (0, ?m)) = sanitize_parts example_parts" by (simp add: freeze_def example_message_def)
  have "2 < length (sanitize_parts example_parts)" by code_simp
  then have "sanitize_parts example_parts ! 2 \<in> set (sw_parts (freeze ''s'' (0, ?m)))" unfolding parts by (rule nth_mem)
  from shared_parts_are_safe [OF row this] show ?thesis by (simp add: example_message_def)
qed

end
