(* ===== verification/Withdrawn_Links.thy ===== *)
theory Withdrawn_Links
  imports Sharing_Facts
begin

text \<open>
  Withdrawing what was shared: a deleted version is never downloaded again, but a deleted artifact can be
  shared again, a deleted card's links come back with the agent's next emission, a deleted revision blocks the
  next one, and links that expire fail altogether where the database drops time zones.
\<close>

section \<open>Deleted versions\<close>

definition version_gone :: "string \<Rightarrow> gateway \<Rightarrow> bool" where
  "version_gone vid s \<longleftrightarrow> vid \<in> av_id ` set (ag_versions s) \<and> (\<forall>v \<in> set (ag_versions s). av_id v = vid \<longrightarrow> av_status v = Version_deleted)"

lemma version_gone_mod:
  assumes "version_gone vid s" and "\<And>v. av_id (f v) = av_id v" and "\<And>v. av_status v = Version_deleted \<Longrightarrow> av_status (f v) = Version_deleted"
  shows "version_gone vid (s\<lparr>ag_versions := row_mod av_id i f (ag_versions s)\<rparr>)"
proof -
  have "map av_id (row_mod av_id i f (ag_versions s)) = map av_id (ag_versions s)" by (rule row_mod_keys) (simp add: assms(2))
  then have "av_id ` set (row_mod av_id i f (ag_versions s)) = av_id ` set (ag_versions s)" by (metis list.set_map)
  with assms show ?thesis by (auto simp: version_gone_def dest!: set_row_mod split: if_splits)
qed

lemma version_gone_same: "ag_versions s' = ag_versions s \<Longrightarrow> version_gone vid s \<Longrightarrow> version_gone vid s'"
  by (simp add: version_gone_def)

lemma kept_version_gone: "version_gone vid s \<Longrightarrow> (\<And>s'. r = Inr s' \<Longrightarrow> version_gone vid s') \<Longrightarrow> version_gone vid (kept_gateway s r)"
  by (cases r) (simp_all add: kept_gateway_def)

lemma publish_gone:
  assumes "publish_version c i fid vid' notes s = Inr s'" and "version_gone vid s"
  shows "version_gone vid s'"
  using assms by (auto simp: publish_version_def bind_r_Inr version_gone_def split: option.splits)

lemma delete_version_versions:
  assumes "delete_version c vid now s = Inr s'"
  shows "ag_versions s' = row_mod av_id vid (\<lambda>v. v\<lparr>av_status := Version_deleted\<rparr>) (ag_versions s)" and "vid \<in> av_id ` set (ag_versions s)"
  using assms by (auto simp: delete_version_def bind_r_Inr version_for_workspace_def find_Some_iff split: option.splits)

lemma delete_gone:
  assumes "delete_version c vid' now s = Inr s'" and "version_gone vid s"
  shows "version_gone vid s'"
  by (rule version_gone_same [OF _ version_gone_mod [OF assms(2), of "\<lambda>v. v\<lparr>av_status := Version_deleted\<rparr>" vid']])
    (simp_all add: delete_version_versions(1) [OF assms(1)])

lemma update_gone:
  assumes "update_version c vid' notes s = Inr s'" and "version_gone vid s"
  shows "version_gone vid s'"
proof -
  from assms(1) have "s' = s\<lparr>ag_versions := row_mod av_id vid' (\<lambda>v. v\<lparr>av_notes := (case notes of None \<Rightarrow> av_notes v | Some n \<Rightarrow> take 4000 n)\<rparr>) (ag_versions s)\<rparr>"
    by (auto simp: update_version_def bind_r_Inr)
  then show ?thesis using version_gone_mod [OF assms(2)] by simp
qed

lemma other_versions:
  "create_artifact c i name description s = Inr s' \<Longrightarrow> ag_versions s' = ag_versions s"
  "update_artifact c i nm ds s = Inr s' \<Longrightarrow> ag_versions s' = ag_versions s"
  "delete_artifact c i now s = Inr s' \<Longrightarrow> ag_versions s' = ag_versions s"
  "map_sum id fst (create_share_token sha c vid expires cap tid raw s) = Inr s' \<Longrightarrow> ag_versions s' = ag_versions s"
  "map_sum id fst (resolve_share_token nv sha raw now s) = Inr s' \<Longrightarrow> ag_versions s' = ag_versions s"
  "revoke_share_token c tid now s = Inr s' \<Longrightarrow> ag_versions s' = ag_versions s"
proof -
  show "map_sum id fst (create_share_token sha c vid expires cap tid raw s) = Inr s' \<Longrightarrow> ag_versions s' = ag_versions s"
    by (cases "version_for_workspace c vid s") (auto simp: create_share_token_def require_def split: if_splits)
  show "map_sum id fst (resolve_share_token nv sha raw now s) = Inr s' \<Longrightarrow> ag_versions s' = ag_versions s"
    by (cases "resolve_share_token nv sha raw now s") (auto elim: gateway_resolve_cases)
qed (auto simp: create_artifact_def update_artifact_def delete_artifact_def revoke_share_token_def bind_r_Inr split: option.splits)

lemma version_gone_step:
  assumes "version_gone vid s"
  shows "version_gone vid (gateway_step nv sha s e)"
proof (cases e)
  case (Claim_download tid now)
  then show ?thesis by (simp add: version_gone_same [OF _ assms])
next
  case (Edit_files fs)
  then show ?thesis by (simp add: version_gone_same [OF _ assms])
qed (auto intro!: kept_version_gone assms intro: publish_gone [OF _ assms] delete_gone [OF _ assms] update_gone [OF _ assms]
    version_gone_same [OF other_versions(1) assms] version_gone_same [OF other_versions(2) assms] version_gone_same [OF other_versions(3) assms]
    version_gone_same [OF other_versions(4) assms] version_gone_same [OF other_versions(5) assms] version_gone_same [OF other_versions(6) assms])

interpretation gone_machine: step_machine "gateway_step nv sha" "version_gone vid"
  by unfold_locales (rule version_gone_step)

text \<open>
  A deleted version is never downloaded again: after any calls, links made later included, no secret
  opens it.
\<close>

lemma deleted_version_stays_private:
  assumes "delete_version c vid now s = Inr s'"
    and "resolve_share_token nv sha raw later (foldl (gateway_step nv sha) s' cs) = Inr (t, v)"
  shows "av_id v \<noteq> vid"
proof
  assume v: "av_id v = vid"
  note del = delete_version_versions [OF assms(1)]
  have "map av_id (ag_versions s') = map av_id (ag_versions s)" unfolding del(1) by (rule row_mod_keys) simp
  from arg_cong [OF this, of set] del(2) have "vid \<in> av_id ` set (ag_versions s')" by simp
  moreover have "\<forall>w \<in> set (ag_versions s'). av_id w = vid \<longrightarrow> av_status w = Version_deleted" 
  proof (intro ballI impI)
    fix w
    assume w: "w \<in> set (ag_versions s')" "av_id w = vid"
    from set_row_mod [OF w(1) [unfolded del(1)]] obtain u where "w = (if av_id u = vid then u\<lparr>av_status := Version_deleted\<rparr> else u)" by blast
    with w(2) show "av_status w = Version_deleted" by (cases "av_id u = vid") simp_all
  qed
  ultimately have "version_gone vid s'" by (simp add: version_gone_def)
  from gone_machine.run_inv [OF this, of nv sha cs] have gone: "version_gone vid (foldl (gateway_step nv sha) s' cs)" .
  from assms(2) obtain l :: link where "row_get av_id (lk_target l) (ag_versions (foldl (gateway_step nv sha) s' cs)) = Some v" "av_status v = Version_published"
    by (rule gateway_resolve_cases)
  with gone v show False by (auto simp: version_gone_def dest!: row_get_SomeD)
qed

section \<open>Deleted artifacts\<close>

lemma list_ex_row_mod:
  assumes "\<And>x. p (f x) = p x"
  shows "list_ex p (row_mod key i f xs) = list_ex p xs"
  by (induction xs) (simp_all add: assms)

lemma revoked_fresh: "fresh_link i h (revoke_links p now ls) = fresh_link i h ls"
proof -
  have "map lk_id (revoke_links p now ls) = map lk_id ls" "map lk_hash (revoke_links p now ls) = map lk_hash ls"
    by (simp_all add: revoke_links_def)
  then have "lk_id ` set (revoke_links p now ls) = lk_id ` set ls" "lk_hash ` set (revoke_links p now ls) = lk_hash ` set ls"
    by (metis list.set_map)+
  then show ?thesis by (simp add: fresh_link_def)
qed

lemma find_new_link: "fresh_link i h ls \<Longrightarrow> lk_hash l = h \<Longrightarrow> link_by_hash h (ls @ [l]) = Some l"
proof -
  assume fresh: "fresh_link i h ls" and l: "lk_hash l = h"
  from fresh have "find (\<lambda>k. lk_hash k = h) ls = None" by (auto simp: fresh_link_def find_None_iff)
  then show ?thesis using l by (simp add: link_by_hash_def find_snoc)
qed

text \<open>
  C30. Deleting an artifact does not withdraw it: its versions stay published, and a link made for one of them
  after the deletion downloads the file.
\<close>

theorem deleted_artifact_is_shared_again:
  assumes "delete_artifact c i now s = Inr s'" and "version_for_workspace c vid s = Inr v" and "av_status v = Version_published"
    and "row_get av_id vid (ag_versions s) = Some v" and "row_get fr_id (av_file v) (ag_files s) = Some f" and "fr_sha f = av_sha v"
    and "fresh_link tid (sha raw) (ag_links s)"
  shows "\<exists>s2 s3. create_share_token sha c vid None None tid raw s' = Inr (s2, raw) \<and> resolve_share_token nv sha raw later s2 = Inr (s3, v)"
proof -
  from assms(1) have s': "s' = s\<lparr>ag_artifacts := row_mod ar_id i (\<lambda>a. a\<lparr>ar_status := Artifact_deleted\<rparr>) (ag_artifacts s),
    ag_links := revoke_links (\<lambda>l. version_of i (lk_target l) s) now (ag_links s)\<rparr>" by (auto simp: delete_artifact_def bind_r_Inr)
  have own: "own_artifact c j (a\<lparr>ar_status := Artifact_deleted\<rparr>) = own_artifact c j a" for j a by (simp add: own_artifact_def)
  have v: "version_for_workspace c vid s' = Inr v"
    using assms(2) by (simp add: version_for_workspace_def s' list_ex_row_mod [of "own_artifact c _", OF own])
  have vid: "av_id v = vid" using assms(4) by (rule row_get_key)
  let ?l = "\<lparr>lk_id = tid, lk_target = vid, lk_hash = sha raw, lk_expires = None, lk_max = new_cap None, lk_count = 0, lk_revoked = None\<rparr> :: link"
  let ?s2 = "s'\<lparr>ag_links := ag_links s' @ [?l]\<rparr>"
  have fresh: "fresh_link tid (sha raw) (ag_links s')" using assms(7) by (simp add: s' revoked_fresh)
  have made: "create_share_token sha c vid None None tid raw s' = Inr (?s2, raw)" using v fresh by (simp add: create_share_token_def vid)
  have usable: "link_usable later ?l" by (simp add: link_usable_def new_cap_def)
  have found: "link_by_hash (sha raw) (ag_links ?s2) = Some ?l" using find_new_link [OF fresh, of ?l] by simp
  have "claimed_use tid later (ag_links ?s2)" using usable by (simp add: claimed_use_def)
  then have "resolve_share_token nv sha raw later ?s2 = Inr (?s2\<lparr>ag_links := claim_use tid later (ag_links ?s2)\<rparr>, v)"
    using found usable assms(3-6) by (simp add: resolve_share_token_def compare_raises_def s')
  with made show ?thesis by blast
qed

section \<open>Deleted cards and revisions\<close>

lemma find_modified_row:
  assumes "\<And>x. p (f x) = p x" and "find p xs = Some x"
  shows "find p (row_mod key i f xs) = Some (if key x = i then f x else x)"
  using assms by (induction xs) (auto split: if_splits)

text \<open>
  C31. The links of a deleted card come back: once the card is deleted its links answer 404, but when the agent
  emits a card under the same name again, the index turns the row into a draft, and the secrets handed out
  before the deletion open the old published revision again.
\<close>

theorem reemitted_card_reopens_links:
  assumes "resolve_card_share nv sha raw now s = Inr (s0, v, x)" and "card_for_workspace c (ac_card x) s = Inr x"
    and "find (\<lambda>y. ac_workspace y = pb_workspace c \<and> ac_card y = ac_card x) (ci_cards s) = Some x"
    and "delete_card c (ac_card x) s = Inr s1"
    and "card_identity ty data = Some (ac_card x)" and "upsert_from_part fp c chat msg ty data rid vid s1 = Inr s2"
  shows "resolve_card_share nv sha raw now s1 = Inl (App_error 404 ''artifact_card_share_not_found'') \<and>
    (\<exists>s3 y. resolve_card_share nv sha raw now s2 = Inr (s3, v, y))"
proof -
  from assms(1) obtain l where l: "link_by_hash (sha raw) (ci_links s) = Some l" "\<not> compare_raises nv l" "link_usable now l"
    "row_get cv_id (lk_target l) (ci_revisions s) = Some v" "cv_status v = Revision_active" "row_get ac_id (cv_card v) (ci_cards s) = Some x"
    by (rule card_resolve_cases)
  have x: "ac_id x = cv_card v" using l(6) by (rule row_get_key)
  let ?gone = "\<lambda>x. x\<lparr>ac_status := Card_deleted\<rparr>"
  let ?d = "card_snapshot chat msg data"
  from assms(2,4) have s1: "s1 = s\<lparr>ci_cards := row_mod ac_id (cv_card v) ?gone (ci_cards s)\<rparr>" by (auto simp: delete_card_def x)
  have row1: "row_get ac_id (cv_card v) (ci_cards s1) = Some (?gone x)" using l(6) by (simp add: s1 row_get_mod_same)
  have closed: "resolve_card_share nv sha raw now s1 = Inl (App_error 404 ''artifact_card_share_not_found'')"
    using l row1 by (simp add: resolve_card_share_def s1 require_def)
  have "find (\<lambda>y. ac_workspace y = pb_workspace c \<and> ac_card y = ac_card x) (ci_cards s1) = Some (?gone x)"
    using find_modified_row [of "\<lambda>y. ac_workspace y = pb_workspace c \<and> ac_card y = ac_card x" ?gone, OF _ assms(3), of ac_id "cv_card v"] by (simp add: s1 x)
  with assms(5,6) obtain extra where s2: "s2 = s1\<lparr>ci_cards := row_mod ac_id (cv_card v) (revived ?d) (ci_cards s1), ci_revisions := ci_revisions s1 @ extra\<rparr>"
    by (auto simp: upsert_from_part_def Let_def x)
  have row2: "row_get ac_id (cv_card v) (ci_cards s2) = Some (revived ?d (?gone x))"
    using row1 by (simp add: s2 row_get_mod_same revived_def)
  have rev2: "row_get cv_id (lk_target l) (ci_revisions s2) = Some v" using l(4) by (simp add: s2 s1 row_get_append)
  have "claimed_use (lk_id l) now (ci_links s)" using l(1,3) by (auto simp: claimed_use_def link_by_hash_def find_Some_iff list_ex_iff)
  then have "\<exists>s3. resolve_card_share nv sha raw now s2 = Inr (s3, v, revived ?d (?gone x))"
    using l(1-3,5) row2 rev2 by (simp add: resolve_card_share_def s2 s1 revived_def)
  with closed show ?thesis by blast
qed

lemma revisions_of_mod:
  assumes "\<And>v. cv_card (f v) = cv_card v"
  shows "revisions_of cid (s\<lparr>ci_revisions := row_mod cv_id i f (ci_revisions s)\<rparr>) = row_mod cv_id i f (revisions_of cid s)"
proof -
  have "filter (\<lambda>v. cv_card v = cid) (row_mod cv_id i f vs) = row_mod cv_id i f (filter (\<lambda>v. cv_card v = cid) vs)" for vs
    by (induction vs) (simp_all add: assms)
  then show ?thesis by (simp add: revisions_of_def)
qed

text \<open>
  A card whose publications are blocked: its revisions carry the numbers up to \<open>n\<close>, none is a draft and the last
  one is deleted. The number the next publication computes is then taken.
\<close>

definition blocked :: "publisher \<Rightarrow> string \<Rightarrow> string \<Rightarrow> int \<Rightarrow> card_index \<Rightarrow> bool" where
  "blocked c cid r n s \<longleftrightarrow> distinct (map cv_id (ci_revisions s)) \<and> distinct (map ac_id (ci_cards s)) \<and>
     (\<exists>x. card_for_workspace c cid s = Inr x \<and> ac_id x = r) \<and> 1 \<le> n \<and> cv_version ` set (revisions_of r s) = {1..n} \<and>
     (\<forall>v \<in> set (revisions_of r s). cv_status v \<noteq> Revision_draft \<and> (cv_version v = n \<longrightarrow> cv_status v = Revision_deleted))"

lemma next_taken:
  assumes "blocked c cid r n s"
  shows "next_revision (revisions_of r s) \<in> cv_version ` set (revisions_of r s)"
proof -
  let ?live = "map cv_version (filter (\<lambda>v. cv_status v \<noteq> Revision_deleted) (revisions_of r s))"
  from assms have all: "cv_version ` set (revisions_of r s) = {1..n}" "1 \<le> n"
    and last: "\<forall>v \<in> set (revisions_of r s). cv_version v = n \<longrightarrow> cv_status v = Revision_deleted" by (auto simp: blocked_def)
  show ?thesis
  proof (cases ?live)
    case Nil
    then show ?thesis using all by (simp add: next_revision_def)
  next
    case (Cons a as)
    then have "Max (set ?live) \<in> set ?live" by (intro Max_in) auto
    then obtain v where v: "v \<in> set (revisions_of r s)" "cv_status v \<noteq> Revision_deleted" "Max (set ?live) = cv_version v" by auto
    with last have "cv_version v \<noteq> n" by blast
    moreover have "cv_version v \<in> {1..n}" using v(1) all(1) by blast
    ultimately have "Max (set ?live) + 1 \<in> {1..n}" using v(3) by auto
    moreover have "next_revision (revisions_of r s) = Max (set ?live) + 1" unfolding next_revision_def Cons by simp
    ultimately show ?thesis unfolding all(1) by simp
  qed
qed

lemma blocked_revisions:
  assumes "blocked c cid r n s" and "ac_id x = r"
  shows "published_revisions x notes actor source nvid s = Inl (Python_error ''IntegrityError'')"
proof -
  have "filter (\<lambda>v. cv_status v = Revision_draft) (revisions_of r s) = []"
    using assms(1) by (auto simp: blocked_def filter_empty_conv)
  with next_taken [OF assms(1)] show ?thesis by (simp add: published_revisions_def assms(2) latest_revision_def Let_def require_def)
qed

lemma own_card_status: "own_card c (x\<lparr>ac_status := st\<rparr>) = own_card c x" "own_card c (revived d x) = own_card c x"
  by (simp_all add: own_card_def revived_def)

lemma find_in_front: "find p xs = Some x \<Longrightarrow> find p (xs @ ys) = Some x"
  by (induction xs) auto

lemma card_found_mod:
  assumes "card_for_workspace c cid s = Inr x" and "\<And>y. ac_id (f y) = ac_id y \<and> ac_card (f y) = ac_card y \<and> own_card c (f y) = own_card c y"
  shows "\<exists>y. card_for_workspace c cid (s\<lparr>ci_cards := row_mod ac_id i f (ci_cards s) @ new\<rparr>) = Inr y \<and> ac_id y = ac_id x"
proof -
  from assms(1) have "find (\<lambda>x. ac_card x = cid \<and> own_card c x) (ci_cards s) = Some x"
    by (auto simp: card_for_workspace_def split: option.splits)
  from find_modified_row [of "\<lambda>x. ac_card x = cid \<and> own_card c x" f, OF _ this, of ac_id i] assms(2)
  have "find (\<lambda>x. ac_card x = cid \<and> own_card c x) (row_mod ac_id i f (ci_cards s)) = Some (if ac_id x = i then f x else x)" by simp
  then show ?thesis using assms(2) by (simp add: card_for_workspace_def find_in_front)
qed

lemma blocked_cards:
  assumes "blocked c cid r n s" and "\<And>y. ac_id (f y) = ac_id y \<and> ac_card (f y) = ac_card y \<and> own_card c (f y) = own_card c y"
    and "distinct (map ac_id new)" and "ac_id ` set new \<inter> ac_id ` set (ci_cards s) = {}"
  shows "blocked c cid r n (s\<lparr>ci_cards := row_mod ac_id i f (ci_cards s) @ new\<rparr>)"
proof -
  have keys: "map ac_id (row_mod ac_id i f (ci_cards s)) = map ac_id (ci_cards s)" by (rule row_mod_keys) (simp add: assms(2))
  from arg_cong [OF this, of set] have "ac_id ` set (row_mod ac_id i f (ci_cards s)) = ac_id ` set (ci_cards s)" by simp
  with assms(1,3,4) keys have "distinct (map ac_id (row_mod ac_id i f (ci_cards s) @ new))" by (auto simp: blocked_def)
  moreover from assms(1) obtain x where "card_for_workspace c cid s = Inr x" "ac_id x = r" by (auto simp: blocked_def)
  ultimately show ?thesis using assms(1) card_found_mod [OF _ assms(2), of cid s x i new] by (auto simp: blocked_def revisions_of_def)
qed

lemma blocked_status: "blocked c cid r n s \<Longrightarrow> blocked c cid r n (s\<lparr>ci_cards := row_mod ac_id i (\<lambda>x. x\<lparr>ac_status := st x\<rparr>) (ci_cards s)\<rparr>)"
  using blocked_cards [of c cid r n s "\<lambda>x. x\<lparr>ac_status := st x\<rparr>" "[]" i] by (simp add: own_card_def)

text \<open>Revisions change so that the card's own stay as they are, or lose one more.\<close>

lemma blocked_versions:
  assumes "blocked c cid r n s" and "distinct (map cv_id vs)" and "\<And>v. v \<in> set vs \<Longrightarrow> cv_card v = r \<Longrightarrow> v \<in> set (revisions_of r s)"
    and "cv_version ` set (filter (\<lambda>v. cv_card v = r) vs) = {1..n}"
  shows "blocked c cid r n (s\<lparr>ci_revisions := vs\<rparr>)"
  using assms by (auto simp: blocked_def revisions_of_def card_for_workspace_def)

lemma blocked_same_versions:
  assumes "blocked c cid r n s" and "distinct (map cv_id vs)" and "filter (\<lambda>v. cv_card v = r) vs = revisions_of r s"
  shows "blocked c cid r n (s\<lparr>ci_revisions := vs\<rparr>)"
proof (rule blocked_versions [OF assms(1,2)])
  fix v
  assume "v \<in> set vs" "cv_card v = r"
  then have "v \<in> set (filter (\<lambda>v. cv_card v = r) vs)" by simp
  then show "v \<in> set (revisions_of r s)" unfolding assms(3) .
qed (use assms(1,3) in \<open>simp add: blocked_def\<close>)

lemma blocked_delete:
  assumes "blocked c cid r n s"
  shows "blocked c cid r n (s\<lparr>ci_revisions := row_mod cv_id i (\<lambda>v. v\<lparr>cv_status := Revision_deleted\<rparr>) (ci_revisions s)\<rparr>)"
proof -
  let ?f = "\<lambda>v. v\<lparr>cv_status := Revision_deleted\<rparr>"
  have "map cv_id (row_mod cv_id i ?f (ci_revisions s)) = map cv_id (ci_revisions s)" by (rule row_mod_keys) simp
  moreover have "map cv_version (row_mod cv_id i ?f (revisions_of r s)) = map cv_version (revisions_of r s)" by (simp add: row_mod_def)
  from arg_cong [OF this, of set] have "cv_version ` set (row_mod cv_id i ?f (revisions_of r s)) = cv_version ` set (revisions_of r s)" by simp
  moreover have "cv_status v \<noteq> Revision_draft \<and> (cv_version v = n \<longrightarrow> cv_status v = Revision_deleted)"
    if "v \<in> set (row_mod cv_id i ?f (revisions_of r s))" for v
    using set_row_mod [OF that] assms by (auto simp: blocked_def split: if_splits)
  ultimately show ?thesis using assms revisions_of_mod [where f = ?f and cid = r and s = s and i = i] by (auto simp: blocked_def card_for_workspace_def)
qed

lemma blocked_same: "ci_cards s' = ci_cards s \<Longrightarrow> ci_revisions s' = ci_revisions s \<Longrightarrow> blocked c cid r n s \<Longrightarrow> blocked c cid r n s'"
  by (simp add: blocked_def card_for_workspace_def revisions_of_def)

lemma blocked_kept: "blocked c cid r n s \<Longrightarrow> (\<And>s'. q = Inr s' \<Longrightarrow> blocked c cid r n s') \<Longrightarrow> blocked c cid r n (kept_index s q)"
  by (cases q) (simp_all add: kept_index_def)

lemma blocked_row: "blocked c cid r n s \<Longrightarrow> x \<in> set (ci_cards s) \<Longrightarrow> ac_card x \<noteq> cid \<Longrightarrow> ac_id x \<noteq> r"
proof
  assume b: "blocked c cid r n s" and x: "x \<in> set (ci_cards s)" "ac_card x \<noteq> cid" and eq: "ac_id x = r"
  from b obtain y where "card_for_workspace c cid s = Inr y" "ac_id y = r" by (auto simp: blocked_def)
  then have y: "y \<in> set (ci_cards s)" "ac_card y = cid" "ac_id y = ac_id x"
    using eq by (auto simp: card_for_workspace_def find_Some_iff split: option.splits)
  have "inj_on ac_id (set (ci_cards s))" using b by (simp add: blocked_def distinct_map)
  from inj_onD [OF this y(3,1) x(1)] x(2) y(2) show False by simp
qed

text \<open>The agent emits the card.\<close>

definition emits :: "string \<Rightarrow> card_call \<Rightarrow> bool" where
  "emits cid e \<longleftrightarrow> (case e of Emit c chat msg ty data rid vid \<Rightarrow> card_identity ty data = Some cid | _ \<Rightarrow> False)"

lemma blocked_emit:
  assumes "blocked c cid r n s" and "card_identity ty data \<noteq> Some cid" and "upsert_from_part fp c' chat msg ty data rid vid s = Inr s'"
  shows "blocked c cid r n s'"
proof (cases "card_identity ty data")
  case None
  with assms(1,3) show ?thesis by (simp add: upsert_from_part_def)
next
  case (Some i)
  let ?d = "card_snapshot chat msg data"
  let ?found = "find (\<lambda>x. ac_workspace x = pb_workspace c' \<and> ac_card x = i) (ci_cards s)"
  have added: "blocked c cid r n (t\<lparr>ci_revisions := ci_revisions t @ vs\<rparr>)"
    if "blocked c cid r n t" "\<forall>v \<in> set vs. cv_card v \<noteq> r" "distinct (map cv_id vs)" "cv_id ` set vs \<inter> cv_id ` set (ci_revisions t) = {}" for t vs
    by (rule blocked_same_versions [OF that(1)]) (use that in \<open>auto simp: blocked_def revisions_of_def filter_empty_conv\<close>)
  show ?thesis
  proof (cases ?found)
    case row: (Some x)
    then have "x \<in> set (ci_cards s)" "ac_card x = i" by (auto simp: find_Some_iff)
    with blocked_row [OF assms(1)] assms(2) Some have other: "ac_id x \<noteq> r" by auto
    let ?vs = "reserved_revision fp x ?d vid s"
    have vs: "\<forall>v \<in> set ?vs. cv_card v \<noteq> r \<and> cv_id v = vid" "distinct (map cv_id ?vs)"
      using other by (auto simp: reserved_revision_def agent_revision_def split: option.splits)
    from assms(3) Some row have vid: "vid \<notin> cv_id ` set (ci_revisions s)"
      and s': "s' = s\<lparr>ci_cards := row_mod ac_id (ac_id x) (revived ?d) (ci_cards s), ci_revisions := ci_revisions s @ ?vs\<rparr>"
      by (simp_all add: upsert_from_part_def Let_def)
    have "blocked c cid r n (s\<lparr>ci_cards := row_mod ac_id (ac_id x) (revived ?d) (ci_cards s)\<rparr>)"
      using blocked_cards [OF assms(1), of "revived ?d" "[]" "ac_id x"] by (simp add: own_card_def revived_def)
    from added [OF this, of ?vs] vs vid show ?thesis by (auto simp: s')
  next
    case fresh: None
    let ?x = "\<lparr>ac_id = rid, ac_card = i, ac_workspace = pb_workspace c', ac_tenant = pb_tenant c', ac_status = Card_draft, ac_snapshot = ?d\<rparr>"
    from assms(3) Some fresh have ids: "rid \<notin> ac_id ` set (ci_cards s)" "vid \<notin> cv_id ` set (ci_revisions s)"
      and s': "s' = s\<lparr>ci_cards := ci_cards s @ [?x], ci_revisions := ci_revisions s @ [agent_revision vid rid 1 ?d]\<rparr>"
      by (simp_all add: upsert_from_part_def Let_def)
    from assms(1) have "r \<in> ac_id ` set (ci_cards s)"
      by (auto simp: blocked_def card_for_workspace_def find_Some_iff split: option.splits)
    with ids(1) have "rid \<noteq> r" by blast
    moreover have "blocked c cid r n (s\<lparr>ci_cards := ci_cards s @ [?x]\<rparr>)"
    proof -
      have "row_mod ac_id [] id (ci_cards s) = ci_cards s" unfolding row_mod_def by (rule map_idI) simp
      with blocked_cards [OF assms(1), of id "[?x]" "[]"] ids(1) show ?thesis by simp
    qed
    ultimately show ?thesis using added [of "s\<lparr>ci_cards := ci_cards s @ [?x]\<rparr>" "[agent_revision vid rid 1 ?d]"] ids(2)
      by (simp add: s' agent_revision_def)
  qed
qed

lemma blocked_publish:
  assumes "blocked c cid r n s" and "publish_card c' i notes actor source nvid s = Inr s'"
  shows "blocked c cid r n s'"
proof -
  from assms(2) obtain x vs where x: "card_for_workspace c' i s = Inr x" and vs: "published_revisions x notes actor source nvid s = Inr vs"
    and s': "s' = s\<lparr>ci_cards := row_mod ac_id (ac_id x) (\<lambda>x. x\<lparr>ac_status := (if ac_status x = Card_draft then Card_published else ac_status x)\<rparr>) (ci_cards s),
      ci_revisions := vs\<rparr>"
    by (auto simp: publish_card_def bind_r_Inr)
  from vs blocked_revisions [OF assms(1), of x] have other: "ac_id x \<noteq> r" by auto
  let ?live = "latest_revision (filter (\<lambda>v. cv_status v = Revision_draft) (revisions_of (ac_id x) s))"
  have d: "distinct (map cv_id (ci_revisions s))" using assms(1) by (simp add: blocked_def)
  have "blocked c cid r n (s\<lparr>ci_revisions := vs\<rparr>)"
  proof (cases ?live)
    case None
    with vs other show ?thesis
      by (intro blocked_same_versions [OF assms(1)]) (auto simp: published_revisions_def Let_def revisions_of_def d split: if_splits)
  next
    case (Some v)
    let ?f = "promoted notes actor (if source \<in> {''user'', ''agent''} then source else ''user'')"
    from vs Some have eq: "vs = row_mod cv_id (cv_id v) ?f (ci_revisions s)" by (simp add: published_revisions_def Let_def)
    from Some obtain ys where "sort_key (\<lambda>v. - cv_version v) (filter (\<lambda>v. cv_status v = Revision_draft) (revisions_of (ac_id x) s)) = v # ys"
      by (auto simp: latest_revision_def split: list.splits)
    then have "v \<in> set (sort_key (\<lambda>v. - cv_version v) (filter (\<lambda>v. cv_status v = Revision_draft) (revisions_of (ac_id x) s)))" by (metis list.set_intros(1))
    then have v: "v \<in> set (ci_revisions s)" "cv_card v \<noteq> r" using other by (auto simp: revisions_of_def)
    have "w = v" if "w \<in> set (ci_revisions s)" "cv_id w = cv_id v" for w
      using d that v(1) by (auto simp: distinct_map dest: inj_onD)
    then have "filter (\<lambda>v. cv_card v = r) (row_mod cv_id (cv_id v) ?f us) = filter (\<lambda>v. cv_card v = r) us"
      if "set us \<subseteq> set (ci_revisions s)" for us
      using that v(2) by (induction us) (auto simp: promoted_def)
    then have "filter (\<lambda>v. cv_card v = r) vs = revisions_of r s" unfolding eq revisions_of_def by simp
    moreover have "map cv_id vs = map cv_id (ci_revisions s)" unfolding eq by (rule row_mod_keys) (simp add: promoted_def)
    ultimately show ?thesis using d by (intro blocked_same_versions [OF assms(1)]) simp_all
  qed
  from blocked_status [OF this, of "ac_id x" "\<lambda>x. if ac_status x = Card_draft then Card_published else ac_status x"]
  show ?thesis by (rule blocked_same [rotated 2]) (simp_all add: s')
qed

lemma links_only:
  "map_sum id fst (create_card_link sha c' vid expires cap tid raw s) = Inr s' \<Longrightarrow> ci_cards s' = ci_cards s \<and> ci_revisions s' = ci_revisions s"
  "revoke_card_link c' tid now s = Inr s' \<Longrightarrow> ci_cards s' = ci_cards s \<and> ci_revisions s' = ci_revisions s"
  "delete_card_link c' tid now s = Inr s' \<Longrightarrow> ci_cards s' = ci_cards s \<and> ci_revisions s' = ci_revisions s"
  "map_sum id fst (resolve_card_share nv sha raw now s) = Inr s' \<Longrightarrow> ci_cards s' = ci_cards s \<and> ci_revisions s' = ci_revisions s"
proof -
  show "map_sum id fst (create_card_link sha c' vid expires cap tid raw s) = Inr s' \<Longrightarrow> ci_cards s' = ci_cards s \<and> ci_revisions s' = ci_revisions s"
    by (cases "revision_for_workspace c' vid s") (auto simp: create_card_link_def require_def split: if_splits)
  show "map_sum id fst (resolve_card_share nv sha raw now s) = Inr s' \<Longrightarrow> ci_cards s' = ci_cards s \<and> ci_revisions s' = ci_revisions s"
    by (cases "resolve_card_share nv sha raw now s") (auto elim!: card_resolve_cases)
qed (auto simp: revoke_card_link_def delete_card_link_def set_revoked_def purge_link_def split: option.splits)

lemma blocked_links:
  "blocked c cid r n s \<Longrightarrow> (\<And>s'. q = Inr s' \<Longrightarrow> ci_cards s' = ci_cards s \<and> ci_revisions s' = ci_revisions s) \<Longrightarrow> blocked c cid r n (kept_index s q)"
  by (rule blocked_kept) (auto elim: blocked_same [rotated 2])

lemma blocked_step:
  assumes "blocked c cid r n s" and "\<not> emits cid e"
  shows "blocked c cid r n (card_step nv sha fp s e)"
proof (cases e)
  case (Emit c' chat msg ty data rid vid)
  with assms blocked_emit [OF assms(1)] show ?thesis by (auto simp: emits_def intro!: blocked_kept)
next
  case (Delete_card c' i)
  then show ?thesis
    using assms(1) blocked_status [OF assms(1), of _ "\<lambda>x. Card_deleted"] by (auto simp: delete_card_def bind_r_Inr intro!: blocked_kept)
next
  case (Publish_card c' i nts actor source nvid)
  with assms(1) blocked_publish [OF assms(1)] show ?thesis by (auto intro!: blocked_kept)
next
  case (Delete_revision c' i)
  with assms(1) blocked_delete [OF assms(1)] show ?thesis by (auto simp: delete_revision_def bind_r_Inr intro!: blocked_kept)
next
  case (Batch c' action tids now)
  have "ci_cards (fst (foldl (batch_item c' revoke now) a is)) = ci_cards (fst a) \<and>
      ci_revisions (fst (foldl (batch_item c' revoke now) a is)) = ci_revisions (fst a)" for revoke a "is"
    by (induction "is" arbitrary: a) (auto simp: batch_item_def set_revoked_def purge_link_def split: prod.splits option.splits)
  with Batch show ?thesis
    by (intro blocked_same [OF _ _ assms(1)]) (simp_all add: batch_action_def require_def kept_index_def)
next
  case (Claim_card_view tid now)
  then show ?thesis by (intro blocked_same [OF _ _ assms(1)]) simp_all
qed (simp_all only: card_step.simps, (rule blocked_links [OF assms(1)], erule links_only)+)

text \<open>
  C32. Deleting the newest revision of a card blocks its publications until the agent emits the card again. When
  the revisions of a card carry the numbers up to \<open>n\<close> and none is a draft, then after deleting number \<open>n\<close>, and
  whatever calls follow that do not emit this card, every attempt to publish it fails on the unique number,
  or with 404 when the card has been deleted too.
\<close>

theorem deleted_revision_blocks_publishing:
  assumes "card_for_workspace c cid s = Inr x" and "distinct (map ac_id (ci_cards s))" and "distinct (map cv_id (ci_revisions s))"
    and "\<forall>v \<in> set (revisions_of (ac_id x) s). cv_status v \<noteq> Revision_draft" and "cv_version ` set (revisions_of (ac_id x) s) = {1..n}"
    and "v \<in> set (revisions_of (ac_id x) s)" and "\<forall>w \<in> set (revisions_of (ac_id x) s). cv_version w = n \<longrightarrow> w = v"
    and "delete_revision c (cv_id v) s = Inr s'" and "\<forall>e \<in> set cs. \<not> emits cid e"
  shows "\<exists>y. card_for_workspace c cid (foldl (card_step nv sha fp) s' cs) = Inr y \<and> ac_id y = ac_id x \<and>
    publish_card c cid notes actor source nvid (foldl (card_step nv sha fp) s' cs) =
      Inl (if ac_status y = Card_deleted then App_error 404 ''artifact_card_not_found'' else Python_error ''IntegrityError'')"
proof -
  let ?gone = "\<lambda>v. v\<lparr>cv_status := Revision_deleted\<rparr>"
  let ?vs = "revisions_of (ac_id x) s"
  from assms(8) have s': "s' = s\<lparr>ci_revisions := row_mod cv_id (cv_id v) ?gone (ci_revisions s)\<rparr>" by (auto simp: delete_revision_def bind_r_Inr)
  have vs': "revisions_of (ac_id x) s' = row_mod cv_id (cv_id v) ?gone ?vs" unfolding s' by (rule revisions_of_mod) simp
  have "cv_version v \<in> {1..n}" using assms(5,6) by blast
  then have n: "1 \<le> n" by simp
  have "map cv_version (row_mod cv_id (cv_id v) ?gone ?vs) = map cv_version ?vs" by (simp add: row_mod_def)
  from arg_cong [OF this, of set] have numbers: "cv_version ` set (revisions_of (ac_id x) s') = {1..n}" using assms(5) by (simp add: vs')
  have "cv_status w \<noteq> Revision_draft \<and> (cv_version w = n \<longrightarrow> cv_status w = Revision_deleted)" if "w \<in> set (revisions_of (ac_id x) s')" for w
  proof -
    from set_row_mod [OF that [unfolded vs']] obtain u where u: "u \<in> set ?vs" "w = (if cv_id u = cv_id v then ?gone u else u)" by blast
    show ?thesis
    proof (cases "cv_id u = cv_id v")
      case False
      with u assms(7) have "cv_version w \<noteq> n" by auto
      with False u assms(4) show ?thesis by simp
    qed (simp add: u(2))
  qed
  moreover have "map cv_id (ci_revisions s') = map cv_id (ci_revisions s)" unfolding s' by (simp add: row_mod_def)
  moreover have "card_for_workspace c cid s' = Inr x" using assms(1) by (simp add: card_for_workspace_def s')
  moreover have "ci_cards s' = ci_cards s" by (simp add: s')
  ultimately have "blocked c cid (ac_id x) n s'" using assms(2,3) n numbers by (auto simp: blocked_def)
  then have run: "blocked c cid (ac_id x) n (foldl (card_step nv sha fp) s' cs)"
    using assms(9) by (induction cs arbitrary: s') (auto intro: blocked_step)
  then obtain y where y: "card_for_workspace c cid (foldl (card_step nv sha fp) s' cs) = Inr y" "ac_id y = ac_id x" by (auto simp: blocked_def)
  with blocked_revisions [OF run y(2)] show ?thesis by (auto simp: publish_card_def)
qed

section \<open>Expiring links\<close>

text \<open>Where the database drops time zones, a link with an expiry that nobody revoked raises instead of opening.\<close>

lemma expiring_links_raise:
  assumes "lk_expires l = Some e" and "lk_revoked l = None"
  shows "link_by_hash (sha raw) (ag_links s) = Some l \<Longrightarrow> resolve_share_token True sha raw now s = Inl (Python_error ''TypeError'')"
    and "link_by_hash (sha raw) (ci_links x) = Some l \<Longrightarrow> resolve_card_share True sha raw now x = Inl (Python_error ''TypeError'')"
  using assms by (simp_all add: resolve_share_token_def resolve_card_share_def compare_raises_def require_def)

section \<open>Examples\<close>

text \<open>The gateway and the card index of the example, with a link made by their own calls.\<close>

lemma deleted_version_stays_private_example:
  "\<exists>s'. delete_version example_publisher ''v'' 1 example_gateway = Inr s' \<and>
     (\<forall>raw later t v. resolve_share_token False id raw later (foldl (gateway_step False id) s'
        [Publish_version example_publisher ''a'' ''f'' ''v2'' [], Share_version example_publisher ''v'' None None ''m'' ''other'',
         Share_version example_publisher ''v2'' None None ''n'' ''third'']) = Inr (t, v) \<longrightarrow> av_id v \<noteq> ''v'')"
proof -
  have "delete_version example_publisher ''v'' 1 example_gateway = Inr (gateway_step False id example_gateway (Delete_version example_publisher ''v'' 1))"
    by code_simp
  with deleted_version_stays_private [OF this, of False id] show ?thesis by blast
qed

theorem deleted_artifact_is_shared_again_witness:
  "\<exists>s' s2 s3. delete_artifact example_publisher ''a'' 1 example_gateway = Inr s' \<and>
     create_share_token id example_publisher ''v'' None None ''m'' ''other'' s' = Inr (s2, ''other'') \<and>
     resolve_share_token False id ''other'' 2 s2 = Inr (s3, hd (ag_versions example_gateway))"
proof -
  let ?v = "hd (ag_versions example_gateway)"
  have "delete_artifact example_publisher ''a'' 1 example_gateway = Inr (gateway_step False id example_gateway (Delete_artifact example_publisher ''a'' 1))"
    "version_for_workspace example_publisher ''v'' example_gateway = Inr ?v" "av_status ?v = Version_published"
    "row_get av_id ''v'' (ag_versions example_gateway) = Some ?v" "row_get fr_id (av_file ?v) (ag_files example_gateway) = Some (hd (ag_files example_gateway))"
    "fr_sha (hd (ag_files example_gateway)) = av_sha ?v" "fresh_link ''m'' (id ''other'') (ag_links example_gateway)"
    by code_simp+
  from deleted_artifact_is_shared_again [where sha = id and raw = "''other''", OF this, of False 2] this(1) show ?thesis by blast
qed

theorem reemitted_card_reopens_links_witness:
  "\<exists>s1 s2. delete_card example_publisher ''quiz'' example_cards = Inr s1 \<and>
     upsert_from_part (\<lambda>d. concat (map fst d)) example_publisher None None ''magic_card'' [(''card_id'', JStr '' quiz '')] ''y'' ''r2'' s1 = Inr s2 \<and>
     resolve_card_share False id ''secret'' 3 s1 = Inl (App_error 404 ''artifact_card_share_not_found'') \<and>
     (\<exists>s3 y. resolve_card_share False id ''secret'' 3 s2 = Inr (s3, hd (ci_revisions example_cards), y))"
proof -
  let ?x = "hd (ci_cards example_cards)"
  let ?s0 = "card_step False id (\<lambda>d. concat (map fst d)) example_cards (View_card ''secret'' 3)"
  let ?s1 = "card_step False id (\<lambda>d. concat (map fst d)) example_cards (Delete_card example_publisher ''quiz'')"
  let ?s2 = "card_step False id (\<lambda>d. concat (map fst d)) ?s1 (Emit example_publisher None None ''magic_card'' [(''card_id'', JStr '' quiz '')] ''y'' ''r2'')"
  have found: "resolve_card_share False id ''secret'' 3 example_cards = Inr (?s0, hd (ci_revisions example_cards), ?x)"
    "card_for_workspace example_publisher (ac_card ?x) example_cards = Inr ?x"
    "find (\<lambda>y. ac_workspace y = pb_workspace example_publisher \<and> ac_card y = ac_card ?x) (ci_cards example_cards) = Some ?x"
    by code_simp+
  have del: "delete_card example_publisher (ac_card ?x) example_cards = Inr ?s1" "delete_card example_publisher ''quiz'' example_cards = Inr ?s1" by code_simp+
  have up: "card_identity ''magic_card'' [(''card_id'', JStr '' quiz '')] = Some (ac_card ?x)"
    "upsert_from_part (\<lambda>d. concat (map fst d)) example_publisher None None ''magic_card'' [(''card_id'', JStr '' quiz '')] ''y'' ''r2'' ?s1 = Inr ?s2"
    by code_simp+
  note reopened = reemitted_card_reopens_links [OF found del(1) up]
  show ?thesis by (rule exI [of _ ?s1], rule exI [of _ ?s2], intro conjI) (rule del(2), rule up(2), rule reopened [THEN conjunct1], rule reopened [THEN conjunct2])
qed

theorem deleted_revision_blocks_publishing_witness:
  "\<exists>s'. \<exists>y :: card. delete_revision example_publisher ''r'' example_cards = Inr s' \<and>
     publish_card example_publisher ''quiz'' [] ''u'' ''user'' ''r2''
       (foldl (card_step False id (\<lambda>d. concat (map fst d))) s' [Publish_card example_publisher ''quiz'' [] ''u'' ''user'' ''r1'',
         Emit example_publisher None None ''component'' [(''component_id'', JStr ''poll'')] ''y'' ''r3'']) =
       Inl (if ac_status y = Card_deleted then App_error 404 ''artifact_card_not_found'' else Python_error ''IntegrityError'')"
proof -
  let ?x = "hd (ci_cards example_cards)"
  let ?v = "hd (ci_revisions example_cards)"
  let ?fp = "\<lambda>d :: snapshot_dict. concat (map fst d)"
  let ?s = "card_step False id ?fp example_cards (Delete_revision example_publisher ''r'')"
  let ?cs = "[Publish_card example_publisher ''quiz'' [] ''u'' ''user'' ''r1'',
    Emit example_publisher None None ''component'' [(''component_id'', JStr ''poll'')] ''y'' ''r3'']"
  have pre: "card_for_workspace example_publisher ''quiz'' example_cards = Inr ?x" "distinct (map ac_id (ci_cards example_cards))"
    "distinct (map cv_id (ci_revisions example_cards))" "\<forall>v \<in> set (revisions_of (ac_id ?x) example_cards). cv_status v \<noteq> Revision_draft"
    "cv_version ` set (revisions_of (ac_id ?x) example_cards) = {1..1}" "?v \<in> set (revisions_of (ac_id ?x) example_cards)"
    "\<forall>w \<in> set (revisions_of (ac_id ?x) example_cards). cv_version w = 1 \<longrightarrow> w = ?v"
    "delete_revision example_publisher (cv_id ?v) example_cards = Inr ?s" "\<forall>e \<in> set ?cs. \<not> emits ''quiz'' e"
    by code_simp+
  have "delete_revision example_publisher ''r'' example_cards = Inr ?s" by code_simp
  moreover from deleted_revision_blocks_publishing [OF pre, of False id ?fp "[]" "''u''" "''user''" "''r2''"] obtain y :: card where
    "publish_card example_publisher ''quiz'' [] ''u'' ''user'' ''r2'' (foldl (card_step False id ?fp) ?s ?cs) =
      Inl (if ac_status y = Card_deleted then App_error 404 ''artifact_card_not_found'' else Python_error ''IntegrityError'')"
    by (elim exE conjE) (rule that)
  ultimately show ?thesis by (intro exI [of _ ?s] exI [of _ y] conjI)
qed

end
