(* ===== verification/Spec2Isabelle.thy ===== *)
theory Spec2Isabelle
  imports Stream_Lifecycle Egress_Properties Session_Reviews Graph_Undo Durable_Facts Voice_Facts Speech_Floor Memory_Event_Facts Memory_Outbox Billing_Facts Account_Facts Access_Facts Access_Authority Subagent_Failures Subagent_Log Sharing_Properties Withdrawn_Links
begin

text \<open>
  A model of the decision-making core of the LearnGraph backend (\<open>backend/app\<close>), a self-hosted learning
  workspace: a FastAPI service in which agents answer chat messages, run tools in network-isolated
  sandboxes, grow a knowledge graph with the learner, schedule reviews, and speak in voice sessions. The
  services keep their state in SQL rows; the theories model those rows as lists of records and each
  service method as a function from the rows, the clock and its arguments to the new rows and a result.

  \<^bold>\<open>How the parts interact.\<close> A chat request passes the admission gate and streams its answer
  (\<open>core/admission.py\<close>, \<open>api/routers/chat.py\<close>). The agent's tool calls in a sandbox reach the network only
  through a proxy that asks the network policy of the workspace (\<open>services/sandbox_network_policy.py\<close>);
  the policy file is derived from what users decided in the approval queue
  (\<open>services/egress_approvals.py\<close>). The agent proposes changes of the knowledge graph that the user confirms, rejects or
  undoes (\<open>services/graph_changes.py\<close>). Messages and exercises on the graph's nodes earn stars and queue
  reviews (\<open>services/mastery.py\<close>). Background work is leased to workers from the durable queue
  (\<open>services/durable_queue.py\<close>). A voice session hands long tasks to background agents and their results
  come back through a durable inbox (\<open>voice/coordinator.py\<close>) while a speech floor decides who may talk
  (\<open>voice/speech_floor.py\<close>). Those background agents are tasks delegated through
  \<open>services/sandbox_toolkit.py\<close> under a profile (\<open>services/agent_execution_profiles.py\<close>) and run by the sandbox
  scheduler (\<open>services/sandbox_scheduler.py\<close>). Every model call is charged against budgets
  (\<open>services/billing.py\<close>). What a workspace remembers is an encrypted log of events
  (\<open>services/memory_event_store.py\<close>) whose projections are fed by an outbox (\<open>services/memory_outbox.py\<close>).
  Every request first passes the session check and the authorization of \<open>api/deps.py\<close>, over the accounts of
  \<open>services/auth.py\<close> and the organizations, roles and grants of \<open>services/authorization.py\<close>. What users make
  public leaves through links: frozen conversations (\<open>services/session_sharing.py\<close>), published files
  (\<open>services/artifact_gateway.py\<close>) and interactive cards (\<open>services/artifact_cards.py\<close>).

  \<^bold>\<open>Theories.\<close>
  \<^item> \<open>Prelude\<close>: errors as values (\<open>App_error\<close> for \<open>AppError\<close>, \<open>Python_error\<close> for other exceptions) in a sum
    type, instants as integers, Python dicts as association lists, tables as lists of rows with
    \<open>row_get\<close>, \<open>row_mod\<close>, \<open>row_del\<close>; the interfaces \<open>step_machine\<close> (an invariant kept by every operation),
    \<open>fenced\<close> (a counter that only grows overtakes old claims), \<open>idempotent_create\<close> (a second creation under a key answers with the first row) and \<open>slot_gate\<close>
    (a pool that hands out tickets), each interpreted on the components.
  \<^item> \<open>Pystr\<close>: \<open>strip\<close>, \<open>split\<close>, \<open>casefold\<close> on ASCII, decimal numbers and JSON values, as Python has them.
  \<^item> \<open>Admission\<close>, \<open>Stream_Lifecycle\<close>: the gate (\<open>AgentStreamGate\<close>, \<open>StreamTicket\<close>, the limit derived from the
    connection pool) and the life of one stream between request, generator, worker and garbage
    collector. Shown: the gate never over-admits and its counter is exact, a ticket frees one slot
    however often it is released, a finished stream leaks none, and, in every reachable state, that a client disconnect frees the slot of
    a generation that still runs.
  \<^item> \<open>Network_Policy\<close>, \<open>Network_Policy_Facts\<close>: host name canonicalisation, address classification on
    unbounded numbers (Python's integers), validation of a policy document, the CONNECT decision, the policy file. Shown: what a grant
    implies, that a derived policy grants exactly the approved hosts, well-formedness after
    validation, and the embedded IPv4 spellings the classification misses.
  \<^item> \<open>Egress_Approvals\<close>, \<open>Egress_Facts\<close>, \<open>Egress_Properties\<close>: \<open>EgressApprovalService\<close> with requests, decisions,
    one-time leases, workspace grants and the refresh of the policy file. Shown: the invariant of the
    queue, the authority behind every grant, exclusive leases, final decisions, duplicate suppression,
    and what a refresh enforces.
  \<^item> \<open>Graph_Algorithms\<close>, \<open>Graph_Changes\<close>, \<open>Graph_Facts\<close>, \<open>Graph_Undo\<close>: the two graph searches and
    \<open>GraphChangeSetService\<close> with validation, create, confirm, publish, reject, undo. Shown: the search
    finds exactly the cycles, a validated new graph is a layered tree, undo restores a confirmed update,
    competing confirmations conflict, and where undo and validation fall short.
  \<^item> \<open>Mastery\<close>, \<open>Mastery_Facts\<close>, \<open>Session_Reviews\<close>: \<open>MasteryService\<close> with evidence, stars, intervals, session cursors,
    review jobs and the scheduler tick. The two transactions of a job are also steps of their own (\<open>Start\<close>, \<open>Finish\<close>), so
    messages arrive while it runs. \<open>Session_Reviews\<close> abstracts a state to what concerns one session (its cursor,
    its messages, its jobs), states the moves of that view as an inductive relation and shows that every operation
    is a sequence of such moves. Shown: stars never fall, bounded attempts, one job per key; exact accounting of
    messages across reviews over every run without a forced session review and without a second completion of a job, both of which lose messages
    (\<open>overlapping_review_loses_message\<close>, \<open>second_completion_loses_message\<close>); and that a failed job stalls its session for good.
  \<^item> \<open>Durable_Queue\<close>, \<open>Durable_Facts\<close>: \<open>DurableQueue\<close> and one turn of the worker loop. Shown: fencing of
    superseded workers, final statuses, fair claims, the bound on retries of a reported failure under every interleaving of
    workers and jobs, and the crashes it does not cover.
  \<^item> \<open>Voice_Results\<close>, \<open>Voice_Facts\<close>: \<open>VoiceTaskCoordinator\<close> and \<open>capture_voice_task_outcome\<close>. Shown: the invariant of
    the inbox, one row per outcome, one speech per result and only for the current requirement.
  \<^item> \<open>Speech_Floor\<close>: \<open>VoiceSpeechFloor\<close> and its frame observer.
  \<^item> \<open>Memory_Events\<close>, \<open>Memory_Event_Facts\<close>, \<open>Memory_Outbox\<close>: the append-only event store with its streams, payload
    keys, sensitive-data filter and upcasters, and the leased outbox worker. Shown: the invariant of the
    store, optimistic locking, idempotent and readable appends, forgetting by key destruction, fencing of
    outbox claims.
  \<^item> \<open>Billing\<close>, \<open>Billing_Facts\<close>: budget policies, quotes, reservations, settlement and recovery. Shown: a hard
    limit is never passed while settlements keep within their quotes and settle in place (\<open>settles_in_place\<close>: no second
    row for a quote), and the calls that do not (\<open>second_attempt_passes_the_limit\<close>).
  \<^item> \<open>Identity\<close>, \<open>Access\<close>, \<open>Access_Admin\<close>: accounts and sessions (\<open>AuthService\<close>), the permission checks
    (\<open>AuthorizationService\<close>, \<open>current_principal\<close>, \<open>workspace_context\<close>) and the writing operations of
    \<open>IdentityManagementService\<close>, composed into one machine of requests.
  \<^item> \<open>Account_Facts\<close>, \<open>Access_Facts\<close>, \<open>Access_Authority\<close>. Shown: an ended session never authenticates again, guesses
    of a password are bounded, a served request was authorised, the bulk filter agrees with the single
    check, the invariant of the directory, and who can gain a permission and through whom.
  \<^item> \<open>Agent_Profiles\<close>: what a role and a list of tools may do. Shown: the least network capability, and the lane.
  \<^item> \<open>Sandbox_Jobs\<close>, \<open>Subagents\<close>: the scheduler of sandbox work with its workers, and the delegation,
    cancellation and retry of sub-agents, as the calls of one machine on the pool.
    What a worker thread has read and decided, and not yet written, is part of the pool (\<open>worker\<close>, \<open>po_threads\<close>): the check
    of a job (\<open>dispatch_job\<close>, \<open>settle_command\<close>, \<open>settle_subagent\<close>) and the statement that starts or ends it
    (\<open>start_subagent\<close>, \<open>start_command\<close>, \<open>end_subagent\<close>, \<open>end_command\<close>) are two calls, any others between them. The writes
    that send a job back to the queue, fail or cancel it are one step with their reads, and so are the two commits of a settlement.
  \<^item> \<open>Subagent_Facts\<close>, \<open>Subagent_Log\<close>, \<open>Subagent_Failures\<close>. Shown, over every interleaving of those calls: a job cancelled
    while no thread is about to write it never runs or succeeds, the quotas hold while no claim is taken from under its
    worker, the events of a task have no gap, a submission is stored once; that both conditions are needed
    (\<open>cancel_before_start_is_lost\<close>, \<open>recovered_start_exceeds_quota\<close>); and that waiting for a quota uses up the attempts
    and a refused delegation leaves a stuck task.
  \<^item> \<open>Shared_Links\<close>: the columns the three tables of public links share, the conditional update that claims a
    use, and the interfaces of a service over such a table: \<open>capped_links\<close> (no counter passes its cap), \<open>kept_links\<close>
    (no link is deleted), \<open>opening_links\<close> (each opening is counted), \<open>counted_links\<close> (both: how often a secret opens) and
    \<open>purged_links\<close> (links may be deleted with their object: the same until the secret is minted again).
  \<^item> \<open>Session_Sharing\<close>, \<open>Artifact_Sharing\<close>, \<open>Card_Sharing\<close>: \<open>SessionSharingService\<close>, \<open>ArtifactGatewayService\<close>,
    \<open>ArtifactCardIndexer\<close> and \<open>ArtifactCardService\<close>, each as the calls of one machine.
  \<^item> \<open>Sharing_Facts\<close>, \<open>Sharing_Properties\<close>, \<open>Withdrawn_Links\<close>. Shown: no link is opened more often than its cap,
    a revoked share stays closed, a snapshot never changes and what it shows of a message; and how a deleted
    artifact, card or revision comes back or blocks the next one.

  \<^bold>\<open>State and operations.\<close> A record has the fields of the SQL row or the object that the modelled code
  reads or writes; ids the code draws at random are numbers drawn in order, or a function of them where
  the text of an id matters. Every table is that of one workspace and tenant unless a field says
  otherwise, since each query of the modelled services filters by them. The session is created with
  \<open>autoflush=False\<close> and \<open>expire_on_commit=False\<close>, so a query does not see what was added or deleted since the last
  flush; where a method's result depends on it the model keeps the flushed and the pending rows apart.
  Unique constraints the code relies on are checks that end in \<open>Python_error ''IntegrityError''\<close>, after which
  nothing is written. A service call is one step: the theorems quantify over every sequence of such
  steps. Where the source itself splits an operation and no lock or conditional update closes the gap (the two statements of a
  queue claim, the stages of a stream, the look-up and the claim of a link, the halves of an append, the check and the write of a
  sandbox worker, the transactions of a review job) the parts are steps of their own and interleave.

  \<^bold>\<open>Parameters.\<close> \<open>py_env\<close> holds what the policy code takes from outside the repository: IDNA encoding, date
  parsing and printing, the digest, and the two configured address lists. The clock, the uuids, password
  hashing, the payload cipher, the digests of secrets (\<open>sha\<close>) and of snapshots (\<open>fp\<close>), the handlers of queue and outbox jobs, the host's capacity probe, and what a
  container or a model loop returns are arguments; \<open>naive\<close> says whether the database drops time zones, as SQLite does. No theorem assumes
  more of them than its statement says.

  \<^bold>\<open>Bounds and fuel.\<close> The depth-first search takes as fuel the number of vertices plus one: it never
  recurses into a vertex twice on one path, and \<open>cycle_iff\<close> shows that this much is enough. The
  layering loop terminates because each round removes a vertex. Everything else is structural recursion
  over lists.

  \<^bold>\<open>Not modelled\<close>, with the reason: logging, audit rows nothing reads back, metrics, e-mail and playback
  events (no decision depends on them); the text of messages in errors; read-only list methods; model
  providers, containers, files and sockets (input and output); the chat and agent orchestration around
  model calls, memory retrieval, search, prices, import and export of workspaces, the HTTP routers, the web and
  mobile clients, and the deployment scripts, which are separate components listed in the manifest.
  Isabelle strings are lists of 8-bit characters: case folding and trimming are exact for ASCII text.
\<close>

end
